(* ===== verification/Py_Prelude.thy ===== *)
theory Py_Prelude
  imports Main "HOL-Library.Sublist"
begin

text \<open>
  The layer below every component: Python text as lists of code points, the few string and
  list operations of the standard library the services use, and the generic lemmas and fact
  collections the component theories share.
\<close>

named_theorems io_simps \<open>unfolding of effectful operations\<close>
named_theorems hoare \<open>triples of effectful operations\<close>
named_theorems cfg_simps \<open>evaluation of configuration constants\<close>

section \<open>Text\<close>

text \<open>
  A Python \<^verbatim>\<open>str\<close> is a sequence of Unicode code points and \<^verbatim>\<open>len\<close> counts them, so text is
  a list of naturals. \<open>u\<close> turns an ASCII literal into text.
\<close>

type_synonym pystr = "nat list"

definition u :: "string \<Rightarrow> pystr" where
  "u s = map of_char s"

lemma u_inject [simp]: "u s = u t \<longleftrightarrow> s = t"
  unfolding u_def by (rule inj_map_eq_map) (simp add: inj_on_def)

lemma u_Nil [simp]: "u [] = []" and u_append: "u (s @ t) = u s @ u t"
  by (simp_all add: u_def)

lemma length_u [simp]: "length (u s) = length s"
  by (simp add: u_def)

text \<open>\<^verbatim>\<open>str.isascii\<close>.\<close>

definition py_isascii :: "pystr \<Rightarrow> bool" where
  "py_isascii s \<longleftrightarrow> list_all (\<lambda>c. c < 128) s"

text \<open>The code points for which \<^verbatim>\<open>str.isspace\<close> holds; \<^verbatim>\<open>strip\<close>, \<^verbatim>\<open>split\<close> and the class \<^verbatim>\<open>\s\<close> of the
  regular expressions use the same set.\<close>

definition py_isspace :: "nat \<Rightarrow> bool" where
  "py_isspace c \<longleftrightarrow> (9 \<le> c \<and> c \<le> 13) \<or> (28 \<le> c \<and> c \<le> 32) \<or> c = 133 \<or> c = 160 \<or> c = 5760
     \<or> (8192 \<le> c \<and> c \<le> 8202) \<or> c = 8232 \<or> c = 8233 \<or> c = 8239 \<or> c = 8287 \<or> c = 12288"

definition py_lstrip :: "pystr \<Rightarrow> pystr" where
  "py_lstrip s = dropWhile py_isspace s"

definition py_strip :: "pystr \<Rightarrow> pystr" where
  "py_strip s = rev (dropWhile py_isspace (rev (dropWhile py_isspace s)))"

text \<open>\<^verbatim>\<open>s.startswith(p)\<close>, \<^verbatim>\<open>s.endswith(p)\<close>, \<^verbatim>\<open>s.removesuffix(p)\<close>, \<^verbatim>\<open>s.zfill(n)\<close> (no sign).\<close>

definition py_startswith :: "pystr \<Rightarrow> pystr \<Rightarrow> bool" where
  "py_startswith s p \<longleftrightarrow> take (length p) s = p"

definition py_endswith :: "pystr \<Rightarrow> pystr \<Rightarrow> bool" where
  "py_endswith s p \<longleftrightarrow> length p \<le> length s \<and> drop (length s - length p) s = p"

definition py_removesuffix :: "pystr \<Rightarrow> pystr \<Rightarrow> pystr" where
  "py_removesuffix s p = (if p \<noteq> [] \<and> py_endswith s p then take (length s - length p) s else s)"

definition py_zfill :: "nat \<Rightarrow> pystr \<Rightarrow> pystr" where
  "py_zfill n s = replicate (n - length s) 48 @ s"

lemma length_py_zfill: "length s \<le> n \<Longrightarrow> length (py_zfill n s) = n"
  by (simp add: py_zfill_def)

text \<open>\<^verbatim>\<open>s.split(sep)\<close> for a one-character separator, and the inverse \<^verbatim>\<open>sep.join\<close>.\<close>

fun py_split_on :: "nat \<Rightarrow> pystr \<Rightarrow> pystr list" where
  "py_split_on sep [] = [[]]"
| "py_split_on sep (c # cs) =
     (if c = sep then [] # py_split_on sep cs
      else case py_split_on sep cs of
             [] \<Rightarrow> [[c]]
           | w # ws \<Rightarrow> (c # w) # ws)"

fun py_join :: "pystr \<Rightarrow> pystr list \<Rightarrow> pystr" where
  "py_join sep [] = []"
| "py_join sep [w] = w"
| "py_join sep (w # ws) = w @ sep @ py_join sep ws"

lemma py_split_on_no_sep: "sep \<notin> set w \<Longrightarrow> py_split_on sep w = [w]"
  by (induction w) auto

lemma py_split_on_append: "sep \<notin> set w \<Longrightarrow> py_split_on sep (w @ sep # s) = w # py_split_on sep s"
  by (induction w) auto

lemma py_split_join:
  "ws \<noteq> [] \<Longrightarrow> \<forall>w \<in> set ws. sep \<notin> set w \<Longrightarrow> py_split_on sep (py_join [sep] ws) = ws"
proof (induction "[sep]" ws rule: py_join.induct)
  case 1
  then show ?case by simp
next
  case (2 w)
  then show ?case by (simp add: py_split_on_no_sep)
next
  case (3 w v vs)
  then show ?case by (simp add: py_split_on_append)
qed

text \<open>\<^verbatim>\<open>s.split()\<close>: the maximal runs without white space.\<close>

fun py_words_aux :: "pystr \<Rightarrow> pystr \<Rightarrow> pystr list" where
  "py_words_aux acc [] = (if acc = [] then [] else [rev acc])"
| "py_words_aux acc (c # cs) =
     (if py_isspace c then (if acc = [] then [] else [rev acc]) @ py_words_aux [] cs
      else py_words_aux (c # acc) cs)"

definition py_words :: "pystr \<Rightarrow> pystr list" where
  "py_words s = py_words_aux [] s"

lemma py_words_aux_ne: "w \<in> set (py_words_aux acc s) \<Longrightarrow> w \<noteq> []"
  by (induction acc s rule: py_words_aux.induct) (auto split: if_splits)

lemma py_words_ne: "w \<in> set (py_words s) \<Longrightarrow> w \<noteq> []"
  by (simp add: py_words_def py_words_aux_ne)

section \<open>Ordered, duplicate-free lists\<close>

text \<open>\<^verbatim>\<open>list(dict.fromkeys(xs))\<close>: each element once, at its first position.\<close>

fun py_fromkeys :: "'a list \<Rightarrow> 'a list" where
  "py_fromkeys [] = []"
| "py_fromkeys (x # xs) = x # filter (\<lambda>y. y \<noteq> x) (py_fromkeys xs)"

lemma set_py_fromkeys [simp]: "set (py_fromkeys xs) = set xs"
  by (induction xs) auto

lemma distinct_py_fromkeys [simp]: "distinct (py_fromkeys xs)"
  by (induction xs) auto

lemma py_fromkeys_eq_Nil [simp]: "py_fromkeys xs = [] \<longleftrightarrow> xs = []"
  by (cases xs) auto

lemma hd_py_fromkeys: "xs \<noteq> [] \<Longrightarrow> hd (py_fromkeys xs) = hd xs"
  by (cases xs) auto

section \<open>Association lists as insertion-ordered dictionaries\<close>

text \<open>\<^verbatim>\<open>d[k] = v\<close> keeps the position of a key that is present and appends a new one;
  \<^verbatim>\<open>d.pop(k, None)\<close> and \<^verbatim>\<open>d.get(k)\<close>.\<close>

fun al_put :: "'k \<Rightarrow> 'v \<Rightarrow> ('k \<times> 'v) list \<Rightarrow> ('k \<times> 'v) list" where
  "al_put k v [] = [(k, v)]"
| "al_put k v ((k', v') # xs) = (if k' = k then (k, v) # xs else (k', v') # al_put k v xs)"

definition al_pop :: "'k \<Rightarrow> ('k \<times> 'v) list \<Rightarrow> ('k \<times> 'v) list" where
  "al_pop k xs = filter (\<lambda>p. fst p \<noteq> k) xs"

abbreviation al_get :: "('k \<times> 'v) list \<Rightarrow> 'k \<Rightarrow> 'v option" where
  "al_get xs k \<equiv> map_of xs k"

lemma map_of_al_put [simp]: "map_of (al_put k v xs) = (map_of xs)(k \<mapsto> v)"
  by (induction xs) auto

lemma set_fst_al_put [simp]: "fst ` set (al_put k v xs) = insert k (fst ` set xs)"
  by (simp flip: dom_map_of_conv_image_fst)

lemma distinct_al_put [simp]: "distinct (map fst xs) \<Longrightarrow> distinct (map fst (al_put k v xs))"
proof (induction xs)
  case (Cons p xs)
  obtain a b where p: "p = (a, b)" by (cases p)
  have "a \<notin> fst ` set xs" and IH: "distinct (map fst (al_put k v xs))"
    using Cons p by auto
  then have "a \<noteq> k \<Longrightarrow> a \<notin> fst ` set (al_put k v xs)" by simp
  with IH Cons.prems p show ?case by (cases "a = k") simp_all
qed simp

lemma map_of_al_pop [simp]: "map_of (al_pop k xs) = (map_of xs)(k := None)"
  by (induction xs) (auto simp: al_pop_def)

lemma distinct_al_pop [simp]: "distinct (map fst xs) \<Longrightarrow> distinct (map fst (al_pop k xs))"
  by (simp add: al_pop_def distinct_map_filter)

lemma set_fst_al_pop [simp]: "fst ` set (al_pop k xs) = fst ` set xs - {k}"
  by (auto simp: al_pop_def)

lemma length_al_pop:
  "distinct (map fst xs) \<Longrightarrow> k \<in> fst ` set xs \<Longrightarrow> Suc (length (al_pop k xs)) = length xs"
proof (induction xs)
  case (Cons p xs)
  show ?case
  proof (cases "fst p = k")
    case True
    with Cons.prems(1) have "filter (\<lambda>p. fst p \<noteq> k) xs = xs"
      by (auto simp: filter_id_conv image_iff)
    with True show ?thesis by (simp add: al_pop_def)
  next
    case False
    with Cons show ?thesis by (auto simp: al_pop_def)
  qed
qed simp

lemma length_al_put_new: "k \<notin> fst ` set xs \<Longrightarrow> length (al_put k v xs) = Suc (length xs)"
  by (induction xs) auto

lemma length_al_put_old: "k \<in> fst ` set xs \<Longrightarrow> length (al_put k v xs) = length xs"
  by (induction xs) force+

section \<open>Decimal numbers\<close>

text \<open>\<^verbatim>\<open>str(n)\<close> of a non-negative integer, and a fixed number of digits with leading zeros.\<close>

fun dec_digits :: "nat \<Rightarrow> pystr" where
  "dec_digits n = (if n < 10 then [48 + n] else dec_digits (n div 10) @ [48 + n mod 10])"

declare dec_digits.simps [simp del]

definition is_digit :: "nat \<Rightarrow> bool" where
  "is_digit c \<longleftrightarrow> 48 \<le> c \<and> c \<le> 57"

definition digits_value :: "pystr \<Rightarrow> nat" where
  "digits_value s = foldl (\<lambda>a c. 10 * a + (c - 48)) 0 s"

lemma digits_value_snoc [simp]: "digits_value (s @ [c]) = 10 * digits_value s + (c - 48)"
  by (simp add: digits_value_def)

lemma digits_value_dec: "digits_value (dec_digits n) = n"
proof (induction n rule: dec_digits.induct)
  case (1 n)
  then show ?case
    by (subst dec_digits.simps) (simp add: digits_value_def [of "[_]"])
qed

lemma is_digit_code [simp]: "d < 10 \<Longrightarrow> is_digit (48 + d)"
  by (simp add: is_digit_def)

lemma dec_digits_digits: "list_all is_digit (dec_digits n)"
proof (induction n rule: dec_digits.induct)
  case (1 n)
  then show ?case
    by (subst dec_digits.simps) simp
qed

fun pad_digits :: "nat \<Rightarrow> nat \<Rightarrow> pystr" where
  "pad_digits 0 n = []"
| "pad_digits (Suc w) n = pad_digits w (n div 10) @ [48 + n mod 10]"

lemma length_pad_digits [simp]: "length (pad_digits w n) = w"
  by (induction w arbitrary: n) auto

lemma pad_digits_digits: "list_all is_digit (pad_digits w n)"
  by (induction w arbitrary: n) auto

lemma pad_digits_value: "n < 10 ^ w \<Longrightarrow> digits_value (pad_digits w n) = n"
proof (induction w arbitrary: n)
  case 0
  then show ?case by (simp add: digits_value_def)
next
  case (Suc w)
  then have "n div 10 < 10 ^ w" by (simp add: less_mult_imp_div_less mult.commute)
  with Suc.IH show ?case by simp
qed

end
