(* ===== verification/Py_Float.thy ===== *)
theory Py_Float
  imports Py_Prelude "HOL-Library.Log_Nat"
begin

text \<open>
  Python floats. A finite double is a rational number; every arithmetic operation and every
  decimal literal is the exact rational result rounded to the nearest number with a 53-bit
  significand, ties to even (IEEE 754 binary64, with an exponent range wide enough for the
  values of this program: neither overflow to infinity nor subnormal numbers occur in it, so
  the exponent is unbounded here). The theory proves what the components rely on: rounding is
  monotone, odd, exact on representable numbers, and within half a unit in the last place.
\<close>

type_synonym pyfloat = rat

section \<open>Rounding to an integer, ties to even\<close>

definition round_half_even :: "rat \<Rightarrow> int" where
  "round_half_even x =
     (let f = \<lfloor>x\<rfloor>; d = x - of_int f
      in if d < 1/2 then f else if 1/2 < d then f + 1 else if even f then f else f + 1)"

lemma round_half_even_of_int [simp]: "round_half_even (of_int n) = n"
  by (simp add: round_half_even_def)

lemma round_half_even_cases: "round_half_even x = \<lfloor>x\<rfloor> \<or> round_half_even x = \<lfloor>x\<rfloor> + 1"
  by (simp add: round_half_even_def Let_def)

lemma round_half_even_mono: "x \<le> y \<Longrightarrow> round_half_even x \<le> round_half_even y"
proof -
  assume le: "x \<le> y"
  then have fl: "\<lfloor>x\<rfloor> \<le> \<lfloor>y\<rfloor>" by (rule floor_mono)
  show ?thesis
  proof (cases "\<lfloor>x\<rfloor> = \<lfloor>y\<rfloor>")
    case True
    with le show ?thesis by (simp add: round_half_even_def Let_def)
  next
    case False
    with fl have "\<lfloor>x\<rfloor> + 1 \<le> \<lfloor>y\<rfloor>" by simp
    then show ?thesis using round_half_even_cases [of x] round_half_even_cases [of y] by auto
  qed
qed

lemma round_half_even_dist: "\<bar>of_int (round_half_even x) - x\<bar> \<le> 1/2"
proof -
  have "of_int \<lfloor>x\<rfloor> \<le> x" and "x < of_int \<lfloor>x\<rfloor> + 1" using floor_correct [of x] by simp_all
  then show ?thesis by (auto simp: round_half_even_def Let_def abs_if field_simps; linarith)
qed

lemma round_half_even_minus: "round_half_even (- x) = - round_half_even x"
proof (cases "x = of_int \<lfloor>x\<rfloor>")
  case True
  then have "round_half_even x = \<lfloor>x\<rfloor>" by (metis round_half_even_of_int)
  moreover have "round_half_even (- x) = - \<lfloor>x\<rfloor>"
    using True by (metis of_int_minus round_half_even_of_int)
  ultimately show ?thesis by simp
next
  case False
  then have "of_int \<lfloor>x\<rfloor> < x" using of_int_floor_le [of x] by linarith
  moreover have "x < of_int \<lfloor>x\<rfloor> + 1" using floor_correct [of x] by simp
  ultimately have fl: "\<lfloor>- x\<rfloor> = - \<lfloor>x\<rfloor> - 1"
    by (intro floor_unique) (auto simp: algebra_simps)
  show ?thesis
    unfolding round_half_even_def Let_def fl by (auto simp: algebra_simps)
qed

lemma round_half_even_le: "x \<le> of_int n \<Longrightarrow> round_half_even x \<le> n"
  using round_half_even_mono [of x "of_int n"] by simp

lemma round_half_even_ge: "of_int n \<le> x \<Longrightarrow> n \<le> round_half_even x"
  using round_half_even_mono [of "of_int n" x] by simp

section \<open>The binary exponent\<close>

definition fexp :: "rat \<Rightarrow> int" where
  "fexp x =
     (let (a, b) = quotient_of \<bar>x\<bar>;
          k = int (floorlog 2 (nat a)) - int (floorlog 2 (nat b))
      in if 2 powi k \<le> \<bar>x\<bar> then k else k - 1)"

lemma nat_pow_bounds:
  "0 < n \<Longrightarrow> (2::rat) powi (int (floorlog 2 (nat n)) - 1) \<le> of_int n
     \<and> of_int n < (2::rat) powi int (floorlog 2 (nat n))"
proof -
  assume n: "0 < n"
  define l where "l = floorlog 2 (nat n)"
  have b: "2 ^ (l - 1) \<le> nat n" "nat n < 2 ^ l"
    using floorlog_bounds [of "nat n" 2] n by (auto simp: l_def)
  have l: "0 < l" using b n by (cases l) auto
  have "(2::rat) ^ (l - 1) = of_nat (2 ^ (l - 1))" by simp
  also have "\<dots> \<le> of_nat (nat n)" using b(1) by (simp only: of_nat_le_iff)
  also have "\<dots> = of_int n" using n by simp
  finally have 1: "(2::rat) ^ (l - 1) \<le> of_int n" .
  have "of_int n = (of_nat (nat n) :: rat)" using n by simp
  also have "\<dots> < of_nat (2 ^ l)" using b(2) by (simp only: of_nat_less_iff)
  finally have 2: "(of_int n :: rat) < 2 ^ l" by simp
  have "int l - 1 = int (l - 1)" using l by simp
  with 1 2 show ?thesis by (simp add: l_def [symmetric] power_int_of_nat del: of_nat_diff)
qed

lemma fexp_bounds:
  assumes "x \<noteq> 0"
  shows "2 powi fexp x \<le> \<bar>x\<bar>" and "\<bar>x\<bar> < 2 powi (fexp x + 1)"
proof -
  obtain a b where q: "quotient_of \<bar>x\<bar> = (a, b)" by (cases "quotient_of \<bar>x\<bar>")
  have b: "0 < b" using quotient_of_denom_pos [OF q] .
  have x: "\<bar>x\<bar> = of_int a / of_int b" using quotient_of_div [OF q] .
  have "0 < \<bar>x\<bar>" using assms by simp
  then have a: "0 < a" using b x by (simp add: zero_less_divide_iff)
  define la lb where "la = int (floorlog 2 (nat a))" and "lb = int (floorlog 2 (nat b))"
  have A: "(2::rat) powi (la - 1) \<le> of_int a" "of_int a < (2::rat) powi la"
    using nat_pow_bounds [OF a] by (auto simp: la_def)
  have B: "(2::rat) powi (lb - 1) \<le> of_int b" "of_int b < (2::rat) powi lb"
    using nat_pow_bounds [OF b] by (auto simp: lb_def)
  have lo: "2 powi (la - lb - 1) \<le> \<bar>x\<bar>"
  proof -
    have "2 powi (la - lb - 1) = (2::rat) powi (la - 1) / 2 powi lb"
      using power_int_diff [of "2::rat" "la - 1" lb] by (simp add: algebra_simps)
    also have "\<dots> \<le> of_int a / of_int b"
      using A B b a by (intro frac_le) auto
    finally show ?thesis by (simp add: x)
  qed
  have hi: "\<bar>x\<bar> < 2 powi (la - lb + 1)"
  proof -
    have "of_int a / of_int b < (2::rat) powi la / 2 powi (lb - 1)"
      using A B b a by (intro frac_less) auto
    also have "\<dots> = 2 powi (la - lb + 1)"
      using power_int_diff [of "2::rat" la "lb - 1"] by (simp add: algebra_simps)
    finally show ?thesis by (simp add: x)
  qed
  have e: "fexp x = (if 2 powi (la - lb) \<le> \<bar>x\<bar> then la - lb else la - lb - 1)"
    by (simp add: fexp_def q la_def lb_def Let_def)
  show "2 powi fexp x \<le> \<bar>x\<bar>" using lo e by auto
  show "\<bar>x\<bar> < 2 powi (fexp x + 1)" using hi e by auto
qed

lemma powi_less_imp: "(2::rat) powi i < 2 powi j \<Longrightarrow> i < j"
  by (rule ccontr) (use power_int_increasing [of j i "2::rat"] in auto)

lemma fexp_unique:
  assumes "2 powi e \<le> \<bar>x\<bar>" and "\<bar>x\<bar> < 2 powi (e + 1)"
  shows "fexp x = e"
proof -
  have "(0::rat) < 2 powi e" by simp
  with assms(1) have x: "x \<noteq> 0" by (metis abs_zero not_le)
  from fexp_bounds(1) [OF x] assms(2) have "fexp x < e + 1"
    by (intro powi_less_imp) (rule order.strict_trans1)
  moreover from assms(1) fexp_bounds(2) [OF x] have "e < fexp x + 1"
    by (intro powi_less_imp) (rule order.strict_trans1)
  ultimately show ?thesis by simp
qed

lemma fexp_minus [simp]: "fexp (- x) = fexp x"
  by (simp add: fexp_def)

lemma fexp_mono: "0 < x \<Longrightarrow> x \<le> y \<Longrightarrow> fexp x \<le> fexp y"
proof -
  assume x: "0 < x" and xy: "x \<le> y"
  have "2 powi fexp x \<le> \<bar>x\<bar>" using x by (intro fexp_bounds) simp
  also have "\<dots> \<le> \<bar>y\<bar>" using x xy by simp
  also have "\<dots> < 2 powi (fexp y + 1)" using x xy by (intro fexp_bounds) simp
  finally have "fexp x < fexp y + 1" by (rule powi_less_imp)
  then show ?thesis by simp
qed

section \<open>Rounding to a double\<close>

definition ulp :: "rat \<Rightarrow> rat" where
  "ulp x = 2 powi (fexp x - 52)"

definition fl :: "rat \<Rightarrow> pyfloat" where
  "fl x = (if x = 0 then 0 else of_int (round_half_even (x / ulp x)) * ulp x)"

lemma ulp_pos [simp]: "0 < ulp x"
  by (simp add: ulp_def)

lemma ulp_neq_0 [simp]: "ulp x \<noteq> 0"
  by (simp add: ulp_def)

lemma ulp_minus [simp]: "ulp (- x) = ulp x"
  by (simp add: ulp_def)

lemma fl_0 [simp]: "fl 0 = 0"
  by (simp add: fl_def)

lemma fl_minus: "fl (- x) = - fl x"
  by (simp add: fl_def round_half_even_minus)

lemma fl_representable:
  assumes "\<bar>m\<bar> \<le> 2 ^ 53"
  shows "fl (of_int m * 2 powi k) = of_int m * 2 powi k"
proof (cases "m = 0")
  case True
  then show ?thesis by simp
next
  case False
  define y where "y = (of_int m :: rat) * 2 powi k"
  have y0: "y \<noteq> 0" using False by (simp add: y_def)
  have ay: "\<bar>y\<bar> = of_int \<bar>m\<bar> * 2 powi k" by (simp add: y_def abs_mult)
  have m: "(of_int \<bar>m\<bar> :: rat) \<le> 2 ^ 53" using assms by (metis of_int_le_iff of_int_numeral of_int_power)
  have "2 powi fexp y \<le> \<bar>y\<bar>" by (rule fexp_bounds(1) [OF y0])
  also have "\<dots> \<le> 2 ^ 53 * 2 powi k" unfolding ay using m by (intro mult_right_mono) auto
  also have "\<dots> = 2 powi (53 + k)" by (simp add: power_int_add)
  finally have le: "2 powi fexp y \<le> (2::rat) powi (53 + k)" .
  then have ek: "fexp y \<le> 53 + k"
    by (meson leD leI power_int_strict_increasing one_less_numeral_iff semiring_norm(76))
  have "\<exists>n. y / ulp y = of_int n"
  proof (cases "fexp y - 52 \<le> k")
    case True
    then have "y / ulp y = of_int m * 2 powi (k - (fexp y - 52))"
      by (simp add: y_def ulp_def power_int_diff)
    also have "\<dots> = of_int (m * 2 ^ nat (k - (fexp y - 52)))"
      using True by (simp add: power_int_nonneg_exp)
    finally show ?thesis by blast
  next
    case False
    with ek have e: "fexp y = 53 + k" by simp
    then have "2 powi (53 + k) \<le> of_int \<bar>m\<bar> * (2::rat) powi k"
      using fexp_bounds(1) [OF y0] by (simp add: ay)
    then have "2 ^ 53 \<le> (of_int \<bar>m\<bar> :: rat)" by (simp add: power_int_add)
    with m have "(of_int \<bar>m\<bar> :: rat) = of_int (2 ^ 53)" by simp
    then have m53: "\<bar>m\<bar> = 2 ^ 53" by (simp only: of_int_eq_iff)
    have "ulp y = 2 * 2 powi k"
      using power_int_add [of "2::rat" 1 k] by (simp add: ulp_def e)
    then have "y / ulp y = of_int m / 2" by (simp add: y_def)
    also have "\<dots> = of_int (sgn m * 2 ^ 52)"
      using m53 by (cases "m < 0") (auto simp: abs_if split: if_splits)
    finally show ?thesis by blast
  qed
  then obtain n where n: "y / ulp y = of_int n" ..
  then have "fl y = of_int n * ulp y" using y0 by (simp add: fl_def)
  also have "\<dots> = y" using ulp_pos [of y] by (simp flip: n)
  finally show ?thesis by (simp add: y_def)
qed

lemma fl_of_int: "\<bar>n\<bar> \<le> 2 ^ 53 \<Longrightarrow> fl (of_int n) = of_int n"
  using fl_representable [of n 0] by simp

lemma fl_numeral [simp]: "numeral k \<le> (2 ^ 53 :: int) \<Longrightarrow> fl (numeral k) = numeral k"
  using fl_of_int [of "numeral k"] by simp

lemma fl_1 [simp]: "fl 1 = 1"
  using fl_of_int [of 1] by simp

lemma scaled_bounds:
  assumes "0 < x"
  shows "2 ^ 52 \<le> x / ulp x" and "x / ulp x < 2 ^ 53"
proof -
  have b: "2 powi fexp x \<le> x" "x < 2 powi (fexp x + 1)"
    using fexp_bounds [of x] assms by auto
  have "2 powi fexp x = 2 ^ 52 * ulp x" and "2 powi (fexp x + 1) = 2 ^ 53 * ulp x"
    by (simp_all add: ulp_def power_int_diff power_int_add)
  with b show "2 ^ 52 \<le> x / ulp x" and "x / ulp x < 2 ^ 53"
    by (simp_all add: pos_le_divide_eq pos_divide_less_eq)
qed

lemma fl_significand:
  assumes "0 < x"
  shows "2 ^ 52 \<le> round_half_even (x / ulp x)" and "round_half_even (x / ulp x) \<le> 2 ^ 53"
  using scaled_bounds [OF assms]
  by (auto intro!: round_half_even_ge round_half_even_le)

lemma fl_idem [simp]: "fl (fl x) = fl x"
proof -
  have pos: "fl (fl y) = fl y" if "0 < y" for y
  proof -
    have "\<bar>round_half_even (y / ulp y)\<bar> \<le> 2 ^ 53"
      using fl_significand [OF that] by simp
    then show ?thesis
      using that fl_representable [of "round_half_even (y / ulp y)" "fexp y - 52"]
      by (simp add: fl_def [of y] ulp_def)
  qed
  consider "0 < x" | "x = 0" | "0 < - x" by linarith
  then show ?thesis
  proof cases
    case 3
    then show ?thesis using pos [of "- x"] by (simp add: fl_minus)
  qed (auto simp: pos)
qed

lemma fl_pos_mono:
  assumes x: "0 < x" and xy: "x \<le> y"
  shows "fl x \<le> fl y"
proof (cases "fexp x = fexp y")
  case True
  then have u: "ulp x = ulp y" by (simp add: ulp_def)
  have "x / ulp x \<le> y / ulp y" using xy u less_imp_le [OF ulp_pos [of y]] by (simp add: divide_right_mono)
  then have "round_half_even (x / ulp x) \<le> round_half_even (y / ulp y)"
    by (rule round_half_even_mono)
  then show ?thesis using x xy u by (auto simp: fl_def intro!: mult_right_mono)
next
  case False
  with fexp_mono [OF x xy] have lt: "fexp x + 1 \<le> fexp y" by simp
  have "fl x = of_int (round_half_even (x / ulp x)) * ulp x" using x by (simp add: fl_def)
  also have "\<dots> \<le> of_int (2 ^ 53) * ulp x"
    using fl_significand(2) [OF x] by (intro mult_right_mono) (auto simp only: of_int_le_iff intro: less_imp_le ulp_pos)
  also have "\<dots> = 2 powi (fexp x + 1)" by (simp add: ulp_def power_int_diff power_int_add)
  also have "\<dots> \<le> 2 powi fexp y" using lt by (intro power_int_increasing) auto
  also have "\<dots> = of_int (2 ^ 52) * ulp y" by (simp add: ulp_def power_int_diff)
  also have "\<dots> \<le> of_int (round_half_even (y / ulp y)) * ulp y"
    using fl_significand(1) [of y] x xy by (intro mult_right_mono) (auto simp only: of_int_le_iff intro: less_imp_le ulp_pos)
  also have "\<dots> = fl y" using x xy by (simp add: fl_def)
  finally show ?thesis .
qed

lemma fl_pos: "0 < x \<Longrightarrow> 0 < fl x"
proof -
  assume x: "0 < x"
  have "0 < round_half_even (x / ulp x)" using fl_significand(1) [OF x] by simp
  with x show ?thesis by (simp add: fl_def)
qed

lemma fl_neg: "x < 0 \<Longrightarrow> fl x < 0"
  using fl_pos [of "- x"] by (simp add: fl_minus)

lemma fl_mono: "x \<le> y \<Longrightarrow> fl x \<le> fl y"
proof -
  assume xy: "x \<le> y"
  consider "0 < x" | "x \<le> 0" "0 \<le> y" | "y < 0" using xy by linarith
  then show ?thesis
  proof cases
    case 1
    then show ?thesis using xy by (rule fl_pos_mono)
  next
    case 2
    then show ?thesis
      by (metis fl_0 fl_neg fl_pos order.strict_trans2 order_less_le order_refl)
  next
    case 3
    then have "fl (- y) \<le> fl (- x)" using xy by (intro fl_pos_mono) auto
    then show ?thesis by (simp add: fl_minus)
  qed
qed

lemma fl_gt_0_iff: "0 < fl x \<longleftrightarrow> 0 < x"
  by (metis fl_0 fl_neg fl_pos linorder_neqE less_asym)

lemma fl_eq_0_iff [simp]: "fl x = 0 \<longleftrightarrow> x = 0"
  by (metis fl_0 fl_neg fl_pos linorder_neqE less_irrefl)

lemma fl_relative_error: "\<bar>fl x - x\<bar> \<le> \<bar>x\<bar> / 2 ^ 53"
proof (cases "x = 0")
  case False
  have "fl x - x = (of_int (round_half_even (x / ulp x)) - x / ulp x) * ulp x"
    using False ulp_pos [of x] by (simp add: fl_def field_simps)
  then have "\<bar>fl x - x\<bar> = \<bar>of_int (round_half_even (x / ulp x)) - x / ulp x\<bar> * ulp x"
    using abs_of_pos [OF ulp_pos [of x]] by (simp add: abs_mult)
  also have "\<dots> \<le> 1 / 2 * ulp x"
    by (rule mult_right_mono [OF round_half_even_dist less_imp_le [OF ulp_pos]])
  finally have "\<bar>fl x - x\<bar> \<le> 1 / 2 * ulp x" .
  also have "\<dots> = 2 powi fexp x / 2 ^ 53" by (simp add: ulp_def power_int_diff)
  also have "\<dots> \<le> \<bar>x\<bar> / 2 ^ 53" using fexp_bounds(1) [OF False] by (simp add: divide_right_mono)
  finally show ?thesis .
qed simp

section \<open>Rounded arithmetic\<close>

text \<open>\<^verbatim>\<open>a + b\<close>, \<^verbatim>\<open>a * b\<close>, \<^verbatim>\<open>a / b\<close> on floats.\<close>

definition fadd :: "pyfloat \<Rightarrow> pyfloat \<Rightarrow> pyfloat" where "fadd a b = fl (a + b)"
definition fsub :: "pyfloat \<Rightarrow> pyfloat \<Rightarrow> pyfloat" where "fsub a b = fl (a - b)"
definition fmul :: "pyfloat \<Rightarrow> pyfloat \<Rightarrow> pyfloat" where "fmul a b = fl (a * b)"
definition fdiv :: "pyfloat \<Rightarrow> pyfloat \<Rightarrow> pyfloat" where "fdiv a b = fl (a / b)"

text \<open>\<^verbatim>\<open>int(x)\<close> truncates towards zero.\<close>

definition py_trunc :: "pyfloat \<Rightarrow> int" where
  "py_trunc x = (if 0 \<le> x then \<lfloor>x\<rfloor> else \<lceil>x\<rceil>)"

text \<open>What the components use of rounding, as an interface: any monotone, odd operation with
  fixed points keeps a value inside bounds that are themselves fixed points.\<close>

locale rounding =
  fixes rnd :: "rat \<Rightarrow> rat"
  assumes rnd_mono: "x \<le> y \<Longrightarrow> rnd x \<le> rnd y"
    and rnd_minus: "rnd (- x) = - rnd x"
    and rnd_idem: "rnd (rnd x) = rnd x"
begin

lemma rnd_0: "rnd 0 = 0"
  using rnd_minus [of 0] by simp

lemma rnd_le: "rnd b = b \<Longrightarrow> x \<le> b \<Longrightarrow> rnd x \<le> b"
  using rnd_mono [of x b] by simp

lemma rnd_ge: "rnd b = b \<Longrightarrow> b \<le> x \<Longrightarrow> b \<le> rnd x"
  using rnd_mono [of b x] by simp

lemma rnd_nonneg: "0 \<le> x \<Longrightarrow> 0 \<le> rnd x"
  using rnd_ge [OF rnd_0] by simp

lemma rnd_abs: "\<bar>rnd x\<bar> = rnd \<bar>x\<bar>"
  using rnd_nonneg [of x] rnd_nonneg [of "- x"] by (cases "0 \<le> x") (auto simp: rnd_minus)

lemma rnd_abs_le: "rnd b = b \<Longrightarrow> \<bar>x\<bar> \<le> b \<Longrightarrow> \<bar>rnd x\<bar> \<le> b"
  by (simp add: rnd_abs rnd_le)

lemma rnd_between: "rnd a = a \<Longrightarrow> rnd b = b \<Longrightarrow> a \<le> x \<Longrightarrow> x \<le> b \<Longrightarrow> a \<le> rnd x \<and> rnd x \<le> b"
  by (simp add: rnd_le rnd_ge)

end

interpretation fl: rounding fl
  by unfold_locales (simp_all add: fl_mono fl_minus)

end
