(* ===== verification/Py_Time.thy ===== *)
theory Py_Time
  imports Py_Prelude
begin

text \<open>
  Instants and their text. An aware \<^verbatim>\<open>datetime\<close> is the number of microseconds since
  0001-01-01T00:00:00+00:00 and a \<^verbatim>\<open>timedelta\<close> a signed number of microseconds, so comparison and
  subtraction are those of the integers. \<open>isoformat\<close> prints an instant in UTC, as the services
  hold them, and \<open>fromisoformat\<close> reads the extended format with an optional fraction and a
  numeric UTC offset. The calendar is the proleptic Gregorian one of the standard library.
\<close>

type_synonym instant = int

definition us_per_second :: int where "us_per_second = 1000000"
definition us_per_hour :: int where "us_per_hour = 3600 * us_per_second"
definition us_per_day :: int where "us_per_day = 24 * us_per_hour"

lemmas us_defs = us_per_second_def us_per_hour_def us_per_day_def

section \<open>The calendar\<close>

definition is_leap :: "nat \<Rightarrow> bool" where
  "is_leap y \<longleftrightarrow> y mod 4 = 0 \<and> (y mod 100 \<noteq> 0 \<or> y mod 400 = 0)"

definition days_before_year :: "nat \<Rightarrow> nat" where
  "days_before_year y = (let z = y - 1 in z * 365 + z div 4 - z div 100 + z div 400)"

definition days_in_month :: "nat \<Rightarrow> nat \<Rightarrow> nat" where
  "days_in_month y m =
     (if m = 2 then (if is_leap y then 29 else 28)
      else if m \<in> {4, 6, 9, 11} then 30 else 31)"

text \<open>The year a day number falls in, found from a lower estimate upwards, and the month.\<close>

function year_from :: "nat \<Rightarrow> nat \<Rightarrow> nat" where
  "year_from n y = (if y < 9999 \<and> days_before_year (Suc y) \<le> n then year_from n (Suc y) else y)"
  by auto
termination by (relation "measure (\<lambda>(n, y). 9999 - y)") auto

declare year_from.simps [simp del]

fun month_from :: "nat \<Rightarrow> nat list \<Rightarrow> nat \<Rightarrow> nat \<times> nat" where
  "month_from y [] r = (12, r)"
| "month_from y [m] r = (m, r)"
| "month_from y (m # ms) r =
     (if r < days_in_month y m then (m, r) else month_from y ms (r - days_in_month y m))"

definition months :: "nat list" where
  "months = [1, 2, 3, 4, 5, 6, 7, 8, 9, 10, 11, 12]"

definition date_of_days :: "nat \<Rightarrow> nat \<times> nat \<times> nat" where
  "date_of_days n =
     (let y = year_from n (n div 366 + 1);
          (m, r) = month_from y months (n - days_before_year y)
      in (y, m, r + 1))"

definition days_of_date :: "nat \<Rightarrow> nat \<Rightarrow> nat \<Rightarrow> nat" where
  "days_of_date y m d =
     days_before_year y + sum_list (map (days_in_month y) (takeWhile (\<lambda>k. k < m) months)) + (d - 1)"

lemma days_before_year_Suc:
  assumes "0 < y"
  shows "days_before_year (Suc y) = days_before_year y + 365 + (if is_leap y then 1 else 0)"
proof -
  obtain z where y: "y = Suc z" using assms by (cases y) auto
  have d: "Suc z mod 400 = 0 \<Longrightarrow> Suc z mod 100 = 0" "Suc z mod 100 = 0 \<Longrightarrow> Suc z mod 4 = 0"
    by presburger+
  have le: "z div 100 \<le> z div 4" by (rule div_le_mono2) auto
  show ?thesis
    using d le by (auto simp: y days_before_year_def is_leap_def Let_def div_Suc ac_simps)
qed

lemma year_from_le: "days_before_year y \<le> n \<Longrightarrow> days_before_year (year_from n y) \<le> n"
  by (induction n y rule: year_from.induct) (subst year_from.simps, simp)

lemma year_from_gt:
  "y \<le> 9999 \<Longrightarrow> n < days_before_year 10000 \<Longrightarrow> n < days_before_year (Suc (year_from n y))"
proof (induction n y rule: year_from.induct)
  case (1 n y)
  then show ?case by (subst year_from.simps) (auto simp: not_le)
qed

lemma year_from_bounds: "y \<le> 9999 \<Longrightarrow> y \<le> year_from n y \<and> year_from n y \<le> 9999"
  by (induction n y rule: year_from.induct) (subst (1 2) year_from.simps, auto)

lemma year_estimate: "days_before_year (n div 366 + 1) \<le> n"
  unfolding days_before_year_def Let_def by simp


lemma days_in_month_pos: "0 < days_in_month y m" "days_in_month y m \<le> 31"
  by (auto simp: days_in_month_def)

lemma month_from_sum:
  assumes "month_from y ms r = (m, r')" and "sorted_wrt (<) ms" and "ms \<noteq> []" and "last ms = 12"
  shows "sum_list (map (days_in_month y) (takeWhile (\<lambda>k. k < m) ms)) + r' = r \<and> m \<in> set ms"
  using assms
proof (induction y ms r rule: month_from.induct)
  case (3 y k l ls r)
  show ?case
  proof (cases "r < days_in_month y k")
    case True
    with 3 show ?thesis by auto
  next
    case False
    with 3 have "sum_list (map (days_in_month y) (takeWhile (\<lambda>k. k < m) (l # ls))) + r'
        = r - days_in_month y k \<and> m \<in> set (l # ls)" by simp
    with False "3.prems" show ?thesis by auto
  qed
qed auto

lemma month_from_small:
  "month_from y ms r = (m, r') \<Longrightarrow> ms \<noteq> [] \<Longrightarrow> last ms = 12 \<Longrightarrow>
     r < sum_list (map (days_in_month y) ms) \<Longrightarrow> r' < days_in_month y m"
  by (induction y ms r rule: month_from.induct) (auto split: if_splits)

lemma year_length:
  "sum_list (map (days_in_month y) months) = 365 + (if is_leap y then 1 else 0)"
  by (simp add: months_def days_in_month_def)

lemma date_of_days:
  assumes n: "n < days_before_year 10000" and d: "date_of_days n = (y, m, d)"
  shows "days_of_date y m d = n" and "1 \<le> y \<and> y \<le> 9999" and "1 \<le> m \<and> m \<le> 12"
    and "1 \<le> d \<and> d \<le> days_in_month y m"
proof -
  define y0 where "y0 = n div 366 + 1"
  have y0: "y0 \<le> 9999" using n by (simp add: y0_def days_before_year_def Let_def)
  obtain m' r where mr: "month_from (year_from n y0) months (n - days_before_year (year_from n y0)) = (m', r)"
    by fastforce
  with d have eqs: "y = year_from n y0" "m = m'" "d = r + 1"
    by (auto simp: date_of_days_def y0_def Let_def)
  have lo: "days_before_year y \<le> n"
    using year_estimate [of n] by (simp add: eqs y0_def year_from_le)
  have ys: "1 \<le> y \<and> y \<le> 9999" using year_from_bounds [OF y0, of n] by (auto simp: eqs y0_def)
  have "n < days_before_year (Suc y)" using year_from_gt [OF y0 n] by (simp add: eqs)
  then have hi: "n - days_before_year y < sum_list (map (days_in_month y) months)"
    using lo ys by (simp add: days_before_year_Suc year_length split: if_splits)
  have M: "sorted_wrt (<) months" "months \<noteq> []" "last months = 12" by (simp_all add: months_def)
  have mr': "month_from y months (n - days_before_year y) = (m, r)" using mr by (simp add: eqs)
  have sm: "sum_list (map (days_in_month y) (takeWhile (\<lambda>k. k < m) months)) + r = n - days_before_year y"
    and m: "m \<in> set months"
    using month_from_sum [OF mr' M] by auto
  show "days_of_date y m d = n" using sm lo by (simp add: days_of_date_def eqs)
  show "1 \<le> y \<and> y \<le> 9999" by (rule ys)
  show "1 \<le> m \<and> m \<le> 12" using m by (auto simp: months_def)
  show "1 \<le> d \<and> d \<le> days_in_month y m"
    using month_from_small [OF mr' M(2,3) hi] by (simp add: eqs)
qed

section \<open>\<^verbatim>\<open>isoformat\<close> and \<^verbatim>\<open>fromisoformat\<close>\<close>

text \<open>The instants a \<^verbatim>\<open>datetime\<close> can hold: years 1 to 9999.\<close>

definition valid_instant :: "instant \<Rightarrow> bool" where
  "valid_instant t \<longleftrightarrow> 0 \<le> t \<and> t < int (days_before_year 10000) * us_per_day"

definition isoformat :: "instant \<Rightarrow> pystr" where
  "isoformat t =
     (let (y, m, d) = date_of_days (nat (t div us_per_day));
          s = nat (t mod us_per_day) div 1000000;
          us = nat (t mod us_per_day) mod 1000000
      in pad_digits 4 y @ u ''-'' @ pad_digits 2 m @ u ''-'' @ pad_digits 2 d @ u ''T''
         @ pad_digits 2 (s div 3600) @ u '':'' @ pad_digits 2 (s div 60 mod 60) @ u '':''
         @ pad_digits 2 (s mod 60) @ (if us = 0 then [] else u ''.'' @ pad_digits 6 us)
         @ u ''+00:00'')"

text \<open>A field of exactly w digits, and a literal character; None is the ValueError.\<close>

definition take_digits :: "nat \<Rightarrow> pystr \<Rightarrow> (nat \<times> pystr) option" where
  "take_digits w s =
     (if w \<le> length s \<and> list_all is_digit (take w s)
      then Some (digits_value (take w s), drop w s) else None)"

definition take_lit :: "pystr \<Rightarrow> pystr \<Rightarrow> pystr option" where
  "take_lit p s = (if py_startswith s p then Some (drop (length p) s) else None)"

definition parse_offset :: "pystr \<Rightarrow> int option" where
  "parse_offset s =
     (if s = u ''Z'' then Some 0
      else case s of
             [] \<Rightarrow> None
           | c # s1 \<Rightarrow>
               if c \<noteq> 43 \<and> c \<noteq> 45 then None
               else Option.bind (take_digits 2 s1) (\<lambda>(h, s2).
                    Option.bind (take_lit (u '':'') s2) (\<lambda>s3.
                    Option.bind (take_digits 2 s3) (\<lambda>(mi, s4).
                    if s4 = [] \<and> h < 24 \<and> mi < 60
                    then Some ((if c = 45 then -1 else 1) * (int h * 3600 + int mi * 60) * us_per_second)
                    else None))))"

definition parse_fraction :: "pystr \<Rightarrow> (nat \<times> pystr) option" where
  "parse_fraction s = (case take_lit (u ''.'') s of None \<Rightarrow> Some (0, s) | Some s1 \<Rightarrow> take_digits 6 s1)"

definition fromisoformat :: "pystr \<Rightarrow> instant option" where
  "fromisoformat s0 =
     Option.bind (take_digits 4 s0) (\<lambda>(y, s1).
     Option.bind (take_lit (u ''-'') s1) (\<lambda>s2.
     Option.bind (take_digits 2 s2) (\<lambda>(m, s3).
     Option.bind (take_lit (u ''-'') s3) (\<lambda>s4.
     Option.bind (take_digits 2 s4) (\<lambda>(d, s5).
     Option.bind (take_lit (u ''T'') s5) (\<lambda>s6.
     Option.bind (take_digits 2 s6) (\<lambda>(h, s7).
     Option.bind (take_lit (u '':'') s7) (\<lambda>s8.
     Option.bind (take_digits 2 s8) (\<lambda>(mi, s9).
     Option.bind (take_lit (u '':'') s9) (\<lambda>s10.
     Option.bind (take_digits 2 s10) (\<lambda>(sec, s11).
     Option.bind (parse_fraction s11) (\<lambda>(us, s12).
     Option.bind (parse_offset s12) (\<lambda>off.
     if 1 \<le> y \<and> 1 \<le> m \<and> m \<le> 12 \<and> 1 \<le> d \<and> d \<le> days_in_month y m \<and> h < 24 \<and> mi < 60 \<and> sec < 60
     then Some (int (days_of_date y m d) * us_per_day
                + (int h * 3600 + int mi * 60 + int sec) * us_per_second + int us - off)
     else None)))))))))))))"

lemma take_digits_pad [simp]: "n < 10 ^ w \<Longrightarrow> take_digits w (pad_digits w n @ s) = Some (n, s)"
  by (simp add: take_digits_def pad_digits_digits pad_digits_value)

lemma take_lit_self [simp]: "take_lit p (p @ s) = Some s"
  by (simp add: take_lit_def py_startswith_def)

lemma parse_fraction_skip: "parse_fraction (u ''+00:00'') = Some (0, u ''+00:00'')"
  by (simp add: parse_fraction_def take_lit_def py_startswith_def u_def)

lemma parse_fraction_some:
  "us < 1000000 \<Longrightarrow> parse_fraction (u ''.'' @ pad_digits 6 us @ s) = Some (us, s)"
  by (simp add: parse_fraction_def)

lemma parse_offset_utc: "parse_offset (u ''+00:00'') = Some 0"
  by (simp add: parse_offset_def u_def take_digits_def take_lit_def py_startswith_def
      is_digit_def digits_value_def)

lemma div_less_intI: "0 < (d::int) \<Longrightarrow> a < n * d \<Longrightarrow> a div d < n"
proof (rule ccontr)
  assume d: "0 < d" and a: "a < n * d" and "\<not> a div d < n"
  then have "n * d \<le> a div d * d" by (intro mult_right_mono) auto
  also have "\<dots> \<le> a" using pos_mod_sign [OF d, of a] by (simp add: minus_mod_eq_div_mult [symmetric])
  finally show False using a by simp
qed

lemma fromisoformat_isoformat:
  assumes v: "valid_instant t"
  shows "fromisoformat (isoformat t) = Some t"
proof -
  define days where "days = nat (t div us_per_day)"
  define usd where "usd = nat (t mod us_per_day)"
  define s us where "s = usd div 1000000" and "us = usd mod 1000000"
  have pos: "0 \<le> t" "0 < us_per_day" using v by (auto simp: valid_instant_def us_defs)
  have "t div us_per_day < int (days_before_year 10000)"
    using v pos(2) by (intro div_less_intI) (auto simp: valid_instant_def)
  then have dn: "days < days_before_year 10000"
    using pos by (simp add: days_def nat_less_iff pos_imp_zdiv_nonneg_iff)
  have u1: "usd < 86400000000"
    using pos_mod_bound [OF pos(2), of t] pos by (simp add: usd_def us_defs nat_less_iff)
  then have sb: "s < 86400" and ub: "us < 1000000" by (auto simp: s_def us_def)
  have t: "t = int days * us_per_day + int usd"
    using pos by (simp add: days_def usd_def pos_imp_zdiv_nonneg_iff)
  have su: "int usd = int s * us_per_second + int us"
  proof -
    have "usd = s * 1000000 + us" unfolding s_def us_def by simp
    then show ?thesis by (simp add: us_per_second_def)
  qed
  obtain y m d where ymd: "date_of_days days = (y, m, d)" by (metis prod_cases3)
  note D = date_of_days [OF dn ymd]
  have d31: "d \<le> 31" using D(4) days_in_month_pos(2) [of y m] by simp
  have hms: "s div 3600 < 24" "s div 60 mod 60 < 60" "s mod 60 < 60" using sb by auto
  have s_eq: "int (s div 3600) * 3600 + int (s div 60 mod 60) * 60 + int (s mod 60) = int s"
  proof -
    have "s div 3600 = s div 60 div 60" using div_mult2_eq [of s 60 60] by simp
    moreover have "s div 60 div 60 * 60 + s div 60 mod 60 = s div 60" "s div 60 * 60 + s mod 60 = s"
      by (rule div_mult_mod_eq)+
    ultimately have "s div 3600 * 3600 + s div 60 mod 60 * 60 + s mod 60 = s" by linarith
    then show ?thesis by linarith
  qed
  have pf: "parse_fraction ((if us = 0 then [] else u ''.'' @ pad_digits 6 us) @ u ''+00:00'')
      = Some (us, u ''+00:00'')"
    using parse_fraction_skip parse_fraction_some [OF ub, of "u ''+00:00''"]
    by (cases "us = 0") (simp_all only: simp_thms if_True if_False append_Nil append_assoc)
  have iso: "isoformat t = pad_digits 4 y @ u ''-'' @ pad_digits 2 m @ u ''-'' @ pad_digits 2 d @ u ''T''
      @ pad_digits 2 (s div 3600) @ u '':'' @ pad_digits 2 (s div 60 mod 60) @ u '':''
      @ pad_digits 2 (s mod 60) @ (if us = 0 then [] else u ''.'' @ pad_digits 6 us) @ u ''+00:00''"
    using ymd by (simp add: isoformat_def days_def usd_def s_def us_def Let_def)
  have "int (days_of_date y m d) * us_per_day
      + (int (s div 3600) * 3600 + int (s div 60 mod 60) * 60 + int (s mod 60)) * us_per_second
      + int us - 0 = t"
    unfolding s_eq D(1) using t su by simp
  then show ?thesis
    using D d31 hms unfolding fromisoformat_def iso
    by (simp add: pf parse_offset_utc del: append.simps)
qed

section \<open>UUIDs\<close>

text \<open>A \<^verbatim>\<open>UUID\<close> is a 128-bit number; \<^verbatim>\<open>str\<close> prints it as 8-4-4-4-12 lower-case hexadecimal digits and
  \<^verbatim>\<open>UUID(text)\<close> drops the prefixes, braces and hyphens and wants 32 hexadecimal digits.\<close>

type_synonym uuid = nat

definition hex_digit :: "nat \<Rightarrow> nat" where
  "hex_digit d = (if d < 10 then 48 + d else 87 + d)"

fun hex_digits :: "nat \<Rightarrow> nat \<Rightarrow> pystr" where
  "hex_digits 0 n = []"
| "hex_digits (Suc w) n = hex_digits w (n div 16) @ [hex_digit (n mod 16)]"

definition hex_value :: "nat \<Rightarrow> nat option" where
  "hex_value c =
     (if 48 \<le> c \<and> c \<le> 57 then Some (c - 48)
      else if 97 \<le> c \<and> c \<le> 102 then Some (c - 87)
      else if 65 \<le> c \<and> c \<le> 70 then Some (c - 55) else None)"

fun parse_hex :: "nat \<Rightarrow> pystr \<Rightarrow> nat option" where
  "parse_hex acc [] = Some acc"
| "parse_hex acc (c # cs) =
     (case hex_value c of None \<Rightarrow> None | Some d \<Rightarrow> parse_hex (16 * acc + d) cs)"

definition uuid_str :: "uuid \<Rightarrow> pystr" where
  "uuid_str n =
     (let h = hex_digits 32 n
      in take 8 h @ u ''-'' @ take 4 (drop 8 h) @ u ''-'' @ take 4 (drop 12 h) @ u ''-''
         @ take 4 (drop 16 h) @ u ''-'' @ drop 20 h)"

text \<open>\<^verbatim>\<open>s.replace(p, '')\<close> for a non-empty p.\<close>

fun py_remove_all :: "nat \<Rightarrow> pystr \<Rightarrow> pystr \<Rightarrow> pystr" where
  "py_remove_all 0 p s = s"
| "py_remove_all (Suc k) p [] = []"
| "py_remove_all (Suc k) p (c # cs) =
     (if py_startswith (c # cs) p then py_remove_all k p (drop (length p) (c # cs))
      else c # py_remove_all k p cs)"

definition py_replace_empty :: "pystr \<Rightarrow> pystr \<Rightarrow> pystr" where
  "py_replace_empty p s = py_remove_all (Suc (length s)) p s"

definition strip_chars :: "nat set \<Rightarrow> pystr \<Rightarrow> pystr" where
  "strip_chars C s = rev (dropWhile (\<lambda>c. c \<in> C) (rev (dropWhile (\<lambda>c. c \<in> C) s)))"

definition parse_uuid :: "pystr \<Rightarrow> uuid option" where
  "parse_uuid s =
     (let h = filter (\<lambda>c. c \<noteq> 45)
                (strip_chars {123, 125} (py_replace_empty (u ''uuid:'') (py_replace_empty (u ''urn:'') s)))
      in if length h = 32 then parse_hex 0 h else None)"

lemma length_hex_digits [simp]: "length (hex_digits w n) = w"
  by (induction w arbitrary: n) auto

lemma hex_value_digit [simp]: "d < 16 \<Longrightarrow> hex_value (hex_digit d) = Some d"
  by (auto simp: hex_value_def hex_digit_def)

lemma parse_hex_append:
  "parse_hex a (xs @ ys) = Option.bind (parse_hex a xs) (\<lambda>b. parse_hex b ys)"
  by (induction a xs rule: parse_hex.induct) (auto split: option.splits)

lemma parse_hex_digits: "n < 16 ^ w \<Longrightarrow> parse_hex 0 (hex_digits w n) = Some n"
proof (induction w arbitrary: n)
  case (Suc w)
  then have "n div 16 < 16 ^ w" by (simp add: less_mult_imp_div_less mult.commute)
  with Suc.IH show ?case by (simp add: parse_hex_append)
qed simp

lemma hex_digit_plain: "d < 16 \<Longrightarrow> hex_digit d \<in> {48..57} \<union> {97..102}"
  by (auto simp: hex_digit_def)

lemma hex_digits_plain: "set (hex_digits w n) \<subseteq> {48..57} \<union> {97..102}"
proof (induction w arbitrary: n)
  case (Suc w)
  then show ?case using hex_digit_plain [of "n mod 16"] by auto
qed simp

lemma py_remove_all_absent:
  "c \<notin> set s \<Longrightarrow> c \<in> set p \<Longrightarrow> py_remove_all k p s = s"
proof (induction k p s rule: py_remove_all.induct)
  case (3 k p d ds)
  have "\<not> py_startswith (d # ds) p"
    using 3 by (metis py_startswith_def in_set_takeD)
  with 3 show ?case by simp
qed auto

lemma strip_chars_id: "set s \<inter> C = {} \<Longrightarrow> strip_chars C s = s"
proof -
  assume d: "set s \<inter> C = {}"
  then have "dropWhile (\<lambda>c. c \<in> C) s = s" "dropWhile (\<lambda>c. c \<in> C) (rev s) = rev s"
    by (cases s, auto, cases "rev s", auto)
  then show ?thesis by (simp add: strip_chars_def)
qed

lemma parse_uuid_str: "n < 2 ^ 128 \<Longrightarrow> parse_uuid (uuid_str n) = Some n"
proof -
  assume n: "n < 2 ^ 128"
  define h where "h = hex_digits 32 n"
  have h: "set h \<subseteq> {48..57} \<union> {97..102}" "length h = 32"
    by (simp_all add: h_def hex_digits_plain)
  have us: "uuid_str n = take 8 h @ u ''-'' @ take 4 (drop 8 h) @ u ''-'' @ take 4 (drop 12 h)
      @ u ''-'' @ take 4 (drop 16 h) @ u ''-'' @ drop 20 h"
    by (simp add: uuid_str_def h_def Let_def)
  have dash: "u ''-'' = [45]" by (simp add: u_def)
  have s: "set (uuid_str n) \<subseteq> insert 45 (set h)"
    unfolding us dash by (auto dest: in_set_takeD in_set_dropD)
  have chars: "c = 45 \<or> (48 \<le> c \<and> c \<le> 57) \<or> (97 \<le> c \<and> c \<le> 102)"
    if "c \<in> set (uuid_str n)" for c
    using that s h(1) by (auto dest!: subsetD)
  have r1: "py_replace_empty (u ''urn:'') (uuid_str n) = uuid_str n"
    unfolding py_replace_empty_def by (rule py_remove_all_absent [of 58]) (use chars [of 58] in \<open>auto simp: u_def\<close>)
  have r2: "py_replace_empty (u ''uuid:'') (uuid_str n) = uuid_str n"
    unfolding py_replace_empty_def by (rule py_remove_all_absent [of 58]) (use chars [of 58] in \<open>auto simp: u_def\<close>)
  have r3: "strip_chars {123, 125} (uuid_str n) = uuid_str n"
    by (rule strip_chars_id) (use chars in \<open>auto dest!: chars\<close>)
  have all: "filter (\<lambda>c. c \<noteq> 45) xs = xs" if "set xs \<subseteq> set h" for xs
    using that h by (auto simp: filter_id_conv)
  have parts: "take 4 (drop 8 h) @ take 4 (drop 12 h) @ take 4 (drop 16 h) @ drop 20 h = drop 8 h"
  proof -
    have "take 4 (drop k h) @ drop (k + 4) h = drop k h" for k
      using append_take_drop_id [of 4 "drop k h"] by (simp add: add.commute)
    from this [of 16] this [of 12] this [of 8] show ?thesis by simp
  qed
  have "filter (\<lambda>c. c \<noteq> 45) (uuid_str n) = take 8 h @ take 4 (drop 8 h) @ take 4 (drop 12 h)
      @ take 4 (drop 16 h) @ drop 20 h"
    unfolding us dash
    by (simp add: all set_take_subset set_drop_subset all [OF subset_trans [OF set_take_subset set_drop_subset]])
  also have "\<dots> = h" unfolding parts by simp
  finally have f: "filter (\<lambda>c. c \<noteq> 45) (uuid_str n) = h" .
  have "parse_hex 0 h = Some n" unfolding h_def by (rule parse_hex_digits) (use n in simp)
  then show ?thesis by (simp add: parse_uuid_def r1 r2 r3 f h)
qed

section \<open>Lists of texts as JSON\<close>

text \<open>\<^verbatim>\<open>json.dumps\<close> and \<^verbatim>\<open>json.loads\<close> of a list of texts that need no escape (identifiers).\<close>

definition json_quote :: "pystr \<Rightarrow> pystr" where
  "json_quote s = 34 # s @ [34]"

definition json_dumps_strs :: "pystr list \<Rightarrow> pystr" where
  "json_dumps_strs xs = u ''['' @ py_join (u '', '') (map json_quote xs) @ u '']''"

function json_items :: "pystr \<Rightarrow> pystr list option" where
  "json_items s =
     (case s of
        [] \<Rightarrow> None
      | c # cs \<Rightarrow>
          if c \<noteq> 34 then None
          else let w = takeWhile (\<lambda>d. d \<noteq> 34) cs;
                   r = drop (Suc (length w)) cs
               in if length cs \<le> length w then None
                  else if r = u '']'' then Some [w]
                  else if py_startswith r (u '', '')
                  then map_option (\<lambda>ws. w # ws) (json_items (drop 2 r))
                  else None)"
  by auto
termination by (relation "measure length") (auto simp: Let_def)

declare json_items.simps [simp del]

definition json_loads_strs :: "pystr \<Rightarrow> pystr list option" where
  "json_loads_strs s =
     (if s = u ''[]'' then Some []
      else if py_startswith s (u ''['') then json_items (drop 1 s) else None)"

lemma takeWhile_quote: "34 \<notin> set w \<Longrightarrow> takeWhile (\<lambda>d. d \<noteq> 34) (w @ 34 # r) = w"
  by (subst takeWhile_append2) auto

lemma json_items_join:
  "xs \<noteq> [] \<Longrightarrow> \<forall>x \<in> set xs. 34 \<notin> set x \<Longrightarrow>
     json_items (py_join (u '', '') (map json_quote xs) @ u '']'') = Some xs"
proof (induction xs)
  case (Cons x xs)
  have t: "takeWhile (\<lambda>d. d \<noteq> 34) (x @ 34 # r) = x" for r
    using Cons.prems by (intro takeWhile_quote) simp
  show ?case
  proof (cases xs)
    case Nil
    then show ?thesis
      by (subst json_items.simps) (simp add: json_quote_def t Let_def)
  next
    case (Cons y ys)
    then have IH: "json_items (py_join (u '', '') (map json_quote xs) @ u '']'') = Some xs"
      using Cons.IH Cons.prems by simp
    have j: "py_join (u '', '') (map json_quote (x # xs)) @ u '']''
        = 34 # x @ 34 # u '', '' @ py_join (u '', '') (map json_quote xs) @ u '']''"
      using Cons by (simp add: json_quote_def)
    show ?thesis
      unfolding j
      by (subst json_items.simps) (use IH in \<open>simp add: t Let_def py_startswith_def u_def\<close>)
  qed
qed simp

lemma json_loads_dumps_strs:
  "\<forall>x \<in> set xs. 34 \<notin> set x \<Longrightarrow> json_loads_strs (json_dumps_strs xs) = Some xs"
proof (cases "xs = []")
  case False
  assume q: "\<forall>x \<in> set xs. 34 \<notin> set x"
  have ne: "json_dumps_strs xs \<noteq> u ''[]''"
    using False by (cases xs rule: list.exhaust; cases "tl xs")
      (auto simp: json_dumps_strs_def json_quote_def u_def)
  have "drop 1 (json_dumps_strs xs) = py_join (u '', '') (map json_quote xs) @ u '']''"
    by (simp add: json_dumps_strs_def u_def)
  moreover have "py_startswith (json_dumps_strs xs) (u ''['')"
    by (simp add: json_dumps_strs_def py_startswith_def u_def)
  ultimately show ?thesis using json_items_join [OF False q] ne by (simp add: json_loads_strs_def)
qed (simp add: json_dumps_strs_def json_loads_strs_def u_def)

section \<open>Codecs\<close>

text \<open>A pair of functions that print values as text and read them back. Its client is the code
  that stores values as fields of a hash.\<close>

fun map_opt :: "('a \<Rightarrow> 'b option) \<Rightarrow> 'a list \<Rightarrow> 'b list option" where
  "map_opt f [] = Some []"
| "map_opt f (x # xs) =
     (case f x of None \<Rightarrow> None | Some y \<Rightarrow> map_option (\<lambda>ys. y # ys) (map_opt f xs))"

locale codec =
  fixes enc :: "'a \<Rightarrow> pystr" and dec :: "pystr \<Rightarrow> 'a option" and ok :: "'a \<Rightarrow> bool"
  assumes dec_enc: "ok x \<Longrightarrow> dec (enc x) = Some x"
begin

lemma enc_inj: "ok x \<Longrightarrow> ok y \<Longrightarrow> enc x = enc y \<Longrightarrow> x = y"
  by (metis dec_enc option.inject)

lemma map_opt_dec: "\<forall>x \<in> set xs. ok x \<Longrightarrow> map_opt dec (map enc xs) = Some xs"
  by (induction xs) (auto simp: dec_enc)

end

locale plain_codec = codec +
  assumes enc_plain: "ok x \<Longrightarrow> 34 \<notin> set (enc x)"
begin

lemma json_list:
  "\<forall>x \<in> set xs. ok x \<Longrightarrow>
     Option.bind (json_loads_strs (json_dumps_strs (map enc xs))) (map_opt dec) = Some xs"
  by (subst json_loads_dumps_strs) (auto simp: enc_plain map_opt_dec)

end

interpretation iso_codec: codec isoformat fromisoformat valid_instant
  by unfold_locales (rule fromisoformat_isoformat)

definition valid_uuid :: "uuid \<Rightarrow> bool" where
  "valid_uuid n \<longleftrightarrow> n < 2 ^ 128"

lemma uuid_str_plain: "34 \<notin> set (uuid_str n)"
proof
  assume "34 \<in> set (uuid_str n)"
  then have "34 \<in> insert 45 (set (hex_digits 32 n))"
    by (auto simp: uuid_str_def Let_def u_def dest: in_set_takeD in_set_dropD)
  then show False using hex_digits_plain [of 32 n] by auto
qed

interpretation uuid_codec: plain_codec uuid_str parse_uuid valid_uuid
  by unfold_locales (auto simp: valid_uuid_def parse_uuid_str uuid_str_plain)

end
