(* ===== verification/Py_Io.thy ===== *)
theory Py_Io
  imports Py_Prelude
begin

text \<open>
  Effectful code: a computation takes the world and returns either an exception or a value,
  together with the world it leaves. Statements before an exception keep their effects, as in
  Python. The combinators are the control flow of the sources: sequencing, \<^verbatim>\<open>try/except\<close>,
  \<^verbatim>\<open>for\<close> loops, \<^verbatim>\<open>assert\<close>. \<open>valid\<close> is the triple the component proofs use: from a world
  satisfying P, a normal return satisfies Q and an exception satisfies E.

  The outside (Postgres, Redis, an HTTP peer) may fail at any call. Each of them has a script
  of faults in the world: a call takes the next one, and an exhausted script means the calls
  work. \<open>Before e\<close> fails without effect; \<open>After e\<close> performs the effect and then reports the
  failure, as when a connection drops before the reply arrives.
\<close>

section \<open>Computations\<close>

type_synonym ('w, 'e, 'a) io = "'w \<Rightarrow> ('e + 'a) \<times> 'w"

definition ret :: "'a \<Rightarrow> ('w, 'e, 'a) io" where
  "ret x = (\<lambda>w. (Inr x, w))"

definition raise :: "'e \<Rightarrow> ('w, 'e, 'a) io" where
  "raise e = (\<lambda>w. (Inl e, w))"

definition bind :: "('w, 'e, 'a) io \<Rightarrow> ('a \<Rightarrow> ('w, 'e, 'b) io) \<Rightarrow> ('w, 'e, 'b) io" where
  "bind m f = (\<lambda>w. case m w of (Inl e, w') \<Rightarrow> (Inl e, w') | (Inr x, w') \<Rightarrow> f x w')"

abbreviation seq :: "('w, 'e, 'a) io \<Rightarrow> ('w, 'e, 'b) io \<Rightarrow> ('w, 'e, 'b) io" where
  "seq m n \<equiv> bind m (\<lambda>_. n)"

text \<open>\<^verbatim>\<open>try: m except: h\<close>, where h is applied to every exception and re-raises those its
  clauses do not name.\<close>

definition try_except :: "('w, 'e, 'a) io \<Rightarrow> ('e \<Rightarrow> ('w, 'e, 'a) io) \<Rightarrow> ('w, 'e, 'a) io" where
  "try_except m h = (\<lambda>w. case m w of (Inl e, w') \<Rightarrow> h e w' | (Inr x, w') \<Rightarrow> (Inr x, w'))"

definition get_w :: "('w \<Rightarrow> 'a) \<Rightarrow> ('w, 'e, 'a) io" where
  "get_w f = (\<lambda>w. (Inr (f w), w))"

definition modify :: "('w \<Rightarrow> 'w) \<Rightarrow> ('w, 'e, unit) io" where
  "modify f = (\<lambda>w. (Inr (), f w))"

fun for_each :: "'x list \<Rightarrow> ('x \<Rightarrow> ('w, 'e, unit) io) \<Rightarrow> ('w, 'e, unit) io" where
  "for_each [] f = ret ()"
| "for_each (x # xs) f = seq (f x) (for_each xs f)"

fun map_io :: "('x \<Rightarrow> ('w, 'e, 'b) io) \<Rightarrow> 'x list \<Rightarrow> ('w, 'e, 'b list) io" where
  "map_io f [] = ret []"
| "map_io f (x # xs) = bind (f x) (\<lambda>y. bind (map_io f xs) (\<lambda>ys. ret (y # ys)))"

text \<open>\<^verbatim>\<open>acc = z; for x in xs: acc = f(acc, x)\<close>.\<close>

fun fold_io :: "('a \<Rightarrow> 'x \<Rightarrow> ('w, 'e, 'a) io) \<Rightarrow> 'a \<Rightarrow> 'x list \<Rightarrow> ('w, 'e, 'a) io" where
  "fold_io f z [] = ret z"
| "fold_io f z (x # xs) = bind (f z x) (\<lambda>z'. fold_io f z' xs)"

definition when_io :: "bool \<Rightarrow> ('w, 'e, unit) io \<Rightarrow> ('w, 'e, unit) io" where
  "when_io b m = (if b then m else ret ())"

definition of_sum :: "'e + 'a \<Rightarrow> ('w, 'e, 'a) io" where
  "of_sum r = (\<lambda>w. (r, w))"

section \<open>Evaluation\<close>

lemmas io_defs = ret_def raise_def bind_def try_except_def get_w_def modify_def when_io_def of_sum_def

lemma bind_ret [simp]: "bind (ret x) f = f x"
  and bind_raise [simp]: "bind (raise e) f = raise e"
  and try_ret [simp]: "try_except (ret x) h = ret x"
  and try_raise [simp]: "try_except (raise e) h = h e"
  by (simp_all add: io_defs)

lemma bind_eq_Inr:
  "bind m f w = (Inr y, w'') \<longleftrightarrow> (\<exists>x w'. m w = (Inr x, w') \<and> f x w' = (Inr y, w''))"
  by (auto simp: bind_def split: prod.splits sum.splits)

lemma bind_eq_Inl:
  "bind m f w = (Inl e, w'') \<longleftrightarrow>
     m w = (Inl e, w'') \<or> (\<exists>x w'. m w = (Inr x, w') \<and> f x w' = (Inl e, w''))"
  by (auto simp: bind_def split: prod.splits sum.splits)

lemma try_eq_Inr:
  "try_except m h w = (Inr y, w'') \<longleftrightarrow>
     m w = (Inr y, w'') \<or> (\<exists>e w'. m w = (Inl e, w') \<and> h e w' = (Inr y, w''))"
  by (auto simp: try_except_def split: prod.splits sum.splits)

lemma try_eq_Inl:
  "try_except m h w = (Inl e', w'') \<longleftrightarrow> (\<exists>e w'. m w = (Inl e, w') \<and> h e w' = (Inl e', w''))"
  by (auto simp: try_except_def split: prod.splits sum.splits)

lemma ret_eq [simp]: "ret x w = (r, w') \<longleftrightarrow> r = Inr x \<and> w' = w"
  by (auto simp: io_defs)

lemma raise_eq [simp]: "raise e w = (r, w') \<longleftrightarrow> r = Inl e \<and> w' = w"
  by (auto simp: io_defs)

lemma get_w_eq [simp]: "get_w f w = (r, w') \<longleftrightarrow> r = Inr (f w) \<and> w' = w"
  by (auto simp: io_defs)

lemma modify_eq [simp]: "modify g w = (r, w') \<longleftrightarrow> r = Inr () \<and> w' = g w"
  by (auto simp: io_defs)

lemma of_sum_eq [simp]: "of_sum s w = (r, w') \<longleftrightarrow> r = s \<and> w' = w"
  by (auto simp: io_defs)

text \<open>Running a computation one call at a time.\<close>

lemma run_get_w [simp]: "bind (get_w f) k w = k (f w) w"
  by (simp add: io_defs)

lemma run_modify [simp]: "bind (modify g) k w = k () (g w)"
  by (simp add: io_defs)

lemma run_Inr: "m w = (Inr x, w') \<Longrightarrow> bind m f w = f x w'"
  by (simp add: io_defs)

lemma run_Inl: "m w = (Inl e, w') \<Longrightarrow> bind m f w = (Inl e, w')"
  by (simp add: io_defs)

lemma try_Inr: "m w = (Inr x, w') \<Longrightarrow> try_except m h w = (Inr x, w')"
  by (simp add: io_defs)

lemma try_Inl: "m w = (Inl e, w') \<Longrightarrow> try_except m h w = h e w'"
  by (simp add: io_defs)

lemma bind_assoc: "bind (bind m f) g = bind m (\<lambda>x. bind (f x) g)"
  by (rule ext) (auto simp: bind_def split: prod.splits sum.splits)

lemma seq_ret_cases:
  "seq m (ret x) w = (q, w') \<Longrightarrow> \<exists>q0. m w = (q0, w') \<and> (q = Inr x \<or> (\<exists>e. q = Inl e \<and> q0 = Inl e))"
  by (cases "m w") (auto simp: io_defs split: sum.splits)

lemmas io_eqs = bind_eq_Inr bind_eq_Inl try_eq_Inr try_eq_Inl

section \<open>Triples\<close>

definition valid ::
  "('w \<Rightarrow> bool) \<Rightarrow> ('w, 'e, 'a) io \<Rightarrow> ('a \<Rightarrow> 'w \<Rightarrow> bool) \<Rightarrow> ('e \<Rightarrow> 'w \<Rightarrow> bool) \<Rightarrow> bool" where
  "valid P m Q E \<longleftrightarrow>
     (\<forall>w. P w \<longrightarrow> (case m w of (Inl e, w') \<Rightarrow> E e w' | (Inr x, w') \<Rightarrow> Q x w'))"

lemma validI:
  assumes "\<And>w x w'. P w \<Longrightarrow> m w = (Inr x, w') \<Longrightarrow> Q x w'"
    and "\<And>w e w'. P w \<Longrightarrow> m w = (Inl e, w') \<Longrightarrow> E e w'"
  shows "valid P m Q E"
  using assms by (auto simp: valid_def split: prod.splits sum.splits)

lemma validD_Inr: "valid P m Q E \<Longrightarrow> P w \<Longrightarrow> m w = (Inr x, w') \<Longrightarrow> Q x w'"
  and validD_Inl: "valid P m Q E \<Longrightarrow> P w \<Longrightarrow> m w = (Inl e, w') \<Longrightarrow> E e w'"
  by (fastforce simp: valid_def split: prod.splits sum.splits)+

lemma valid_weaken:
  "valid P m Q E \<Longrightarrow> (\<And>w. P' w \<Longrightarrow> P w) \<Longrightarrow> (\<And>x w. Q x w \<Longrightarrow> Q' x w) \<Longrightarrow>
     (\<And>e w. E e w \<Longrightarrow> E' e w) \<Longrightarrow> valid P' m Q' E'"
  unfolding valid_def by (fastforce split: prod.splits sum.splits)

lemma valid_conj:
  "valid P m Q E \<Longrightarrow> valid P' m Q' E' \<Longrightarrow>
     valid (\<lambda>w. P w \<and> P' w) m (\<lambda>x w. Q x w \<and> Q' x w) (\<lambda>e w. E e w \<and> E' e w)"
  unfolding valid_def by (fastforce split: prod.splits sum.splits)

lemma valid_ret [hoare]: "valid (Q x) (ret x) Q E"
  by (simp add: valid_def io_defs)

lemma valid_raise [hoare]: "valid (E e) (raise e) Q E"
  by (simp add: valid_def io_defs)

lemma valid_get_w [hoare]: "valid (\<lambda>w. Q (f w) w) (get_w f) Q E"
  by (simp add: valid_def io_defs)

lemma valid_modify [hoare]: "valid (\<lambda>w. Q () (g w)) (modify g) Q E"
  by (simp add: valid_def io_defs)

lemma valid_bind:
  "valid P m R E \<Longrightarrow> (\<And>x. valid (R x) (f x) Q E) \<Longrightarrow> valid P (bind m f) Q E"
  unfolding valid_def bind_def by (fastforce split: prod.splits sum.splits)

lemma valid_try:
  "valid P m Q R \<Longrightarrow> (\<And>e. valid (R e) (h e) Q E) \<Longrightarrow> valid P (try_except m h) Q E"
  unfolding valid_def try_except_def by (fastforce split: prod.splits sum.splits)

lemma valid_for_each:
  "(\<And>x. x \<in> set xs \<Longrightarrow> valid I (f x) (\<lambda>_. I) E) \<Longrightarrow> valid I (for_each xs f) (\<lambda>_. I) E"
proof (induction xs)
  case Nil
  then show ?case by (simp add: valid_def io_defs)
next
  case (Cons x xs)
  then show ?case by (simp, intro valid_bind [where R = "\<lambda>_. I"]) auto
qed

text \<open>
  \<open>always R m\<close>: whatever the exit of m, R relates the world it started in to the one it leaves.
  For a preorder R (\<open>monotone_io\<close>) this composes through every combinator; the components
  interpret the locale with the relations and the invariants they maintain.
\<close>

definition always :: "('w \<Rightarrow> 'w \<Rightarrow> bool) \<Rightarrow> ('w, 'e, 'a) io \<Rightarrow> bool" where
  "always R m \<longleftrightarrow> (\<forall>w. R w (snd (m w)))"

lemma alwaysD: "always R m \<Longrightarrow> m w = (r, w') \<Longrightarrow> R w w'"
  by (metis always_def snd_conv)

lemma alwaysI: "(\<And>w r w'. m w = (r, w') \<Longrightarrow> R w w') \<Longrightarrow> always R m"
  by (metis always_def prod.collapse)

lemma always_modify: "(\<And>w. R w (g w)) \<Longrightarrow> always R (modify g)"
  by (simp add: always_def modify_def)

locale monotone_io =
  fixes R :: "'w \<Rightarrow> 'w \<Rightarrow> bool"
  assumes R_refl: "R w w"
    and R_trans: "R w1 w2 \<Longrightarrow> R w2 w3 \<Longrightarrow> R w1 w3"
begin

lemma always_ret: "always R (ret x)"
  and always_raise: "always R (raise e)"
  and always_get_w: "always R (get_w f)"
  and always_of_sum: "always R (of_sum s)"
  by (simp_all add: always_def io_defs R_refl)

lemma always_bind:
  assumes m: "always R m" and f: "\<And>x. always R (f x)"
  shows "always R (bind m f)"
proof (rule alwaysI)
  fix w r w'
  assume b: "bind m f w = (r, w')"
  obtain q w1 where q: "m w = (q, w1)" by (cases "m w")
  from m q have 1: "R w w1" by (rule alwaysD)
  show "R w w'"
  proof (cases q)
    case (Inl e)
    with b q 1 show ?thesis by (simp add: bind_def)
  next
    case (Inr x)
    with b q have "f x w1 = (r, w')" by (simp add: bind_def)
    with f have "R w1 w'" by (rule alwaysD)
    with 1 show ?thesis by (rule R_trans)
  qed
qed

lemma always_try:
  assumes m: "always R m" and h: "\<And>e. always R (h e)"
  shows "always R (try_except m h)"
proof (rule alwaysI)
  fix w r w'
  assume b: "try_except m h w = (r, w')"
  obtain q w1 where q: "m w = (q, w1)" by (cases "m w")
  from m q have 1: "R w w1" by (rule alwaysD)
  show "R w w'"
  proof (cases q)
    case (Inl e)
    with b q have "h e w1 = (r, w')" by (simp add: try_except_def)
    with h have "R w1 w'" by (rule alwaysD)
    with 1 show ?thesis by (rule R_trans)
  next
    case (Inr x)
    with b q 1 show ?thesis by (simp add: try_except_def)
  qed
qed

lemma always_when: "always R m \<Longrightarrow> always R (when_io b m)"
  by (simp add: when_io_def always_ret)

lemma always_for_each: "(\<And>x. x \<in> set xs \<Longrightarrow> always R (f x)) \<Longrightarrow> always R (for_each xs f)"
  by (induction xs) (auto intro!: always_bind always_ret)

lemma always_map_io: "(\<And>x. x \<in> set xs \<Longrightarrow> always R (f x)) \<Longrightarrow> always R (map_io f xs)"
  by (induction xs) (auto intro!: always_bind always_ret)

lemma always_fold_io: "(\<And>z x. x \<in> set xs \<Longrightarrow> always R (f z x)) \<Longrightarrow> always R (fold_io f z xs)"
  by (induction xs arbitrary: z) (auto intro!: always_bind always_ret)

lemmas always_intros =
  always_ret always_raise always_get_w always_of_sum always_bind always_try always_when
  always_for_each always_map_io always_fold_io

end

text \<open>An invariant is the preorder of never losing it.\<close>

abbreviation keeps :: "('w \<Rightarrow> bool) \<Rightarrow> ('w, 'e, 'a) io \<Rightarrow> bool" where
  "keeps I \<equiv> always (\<lambda>w w'. I w \<longrightarrow> I w')"

interpretation keeps: monotone_io "\<lambda>w w'. I w \<longrightarrow> I w'" for I :: "'w \<Rightarrow> bool"
  by unfold_locales auto

text \<open>A loop that completes has done, for every element, what one iteration that completes does,
  when later iterations do not undo it.\<close>

lemma for_each_establishes:
  assumes "for_each xs f w = (Inr (), w')" and "I w"
    and step: "\<And>x w r w'. x \<in> set xs \<Longrightarrow> I w \<Longrightarrow> f x w = (r, w') \<Longrightarrow> I w' \<and> (\<forall>y. Q y w \<longrightarrow> Q y w')"
    and est: "\<And>x w w'. x \<in> set xs \<Longrightarrow> I w \<Longrightarrow> f x w = (Inr (), w') \<Longrightarrow> Q x w'"
  shows "I w' \<and> (\<forall>y. Q y w \<longrightarrow> Q y w') \<and> (\<forall>x \<in> set xs. Q x w')"
  using assms
proof (induction xs arbitrary: w)
  case (Cons x xs)
  from Cons.prems(1) obtain w1 where 1: "f x w = (Inr (), w1)" and 2: "for_each xs f w1 = (Inr (), w')"
    by (auto simp: bind_eq_Inr)
  have I1: "I w1" and k: "\<forall>y. Q y w \<longrightarrow> Q y w1" and q: "Q x w1"
    using Cons.prems(3) [OF _ Cons.prems(2) 1] Cons.prems(4) [OF _ Cons.prems(2) 1] by simp_all
  have "I w' \<and> (\<forall>y. Q y w1 \<longrightarrow> Q y w') \<and> (\<forall>x \<in> set xs. Q x w')"
  proof (rule Cons.IH [OF 2 I1])
    show "I v' \<and> (\<forall>y. Q y v \<longrightarrow> Q y v')" if "x' \<in> set xs" "I v" "f x' v = (r, v')" for x' v r v'
      using Cons.prems(3) [OF _ that(2,3)] that(1) by simp
    show "Q x' v'" if "x' \<in> set xs" "I v" "f x' v = (Inr (), v')" for x' v v'
      using Cons.prems(4) [OF _ that(2,3)] that(1) by simp
  qed
  with k q show ?case by simp
qed simp

lemma fold_io_establishes:
  assumes "fold_io f z xs w = (Inr z', w')" and "I w"
    and step: "\<And>z x w r w'. x \<in> set xs \<Longrightarrow> I w \<Longrightarrow> f z x w = (r, w') \<Longrightarrow> I w' \<and> (\<forall>y. Q y w \<longrightarrow> Q y w')"
    and est: "\<And>z x w z' w'. x \<in> set xs \<Longrightarrow> I w \<Longrightarrow> f z x w = (Inr z', w') \<Longrightarrow> Q x w'"
  shows "I w' \<and> (\<forall>y. Q y w \<longrightarrow> Q y w') \<and> (\<forall>x \<in> set xs. Q x w')"
  using assms
proof (induction xs arbitrary: w z)
  case (Cons x xs)
  from Cons.prems(1) obtain z1 w1 where 1: "f z x w = (Inr z1, w1)" and 2: "fold_io f z1 xs w1 = (Inr z', w')"
    by (auto simp: bind_eq_Inr)
  have I1: "I w1" and k: "\<forall>y. Q y w \<longrightarrow> Q y w1" and q: "Q x w1"
    using Cons.prems(3) [OF _ Cons.prems(2) 1] Cons.prems(4) [OF _ Cons.prems(2) 1] by simp_all
  have "I w' \<and> (\<forall>y. Q y w1 \<longrightarrow> Q y w') \<and> (\<forall>x \<in> set xs. Q x w')"
  proof (rule Cons.IH [OF 2 I1])
    show "I v' \<and> (\<forall>y. Q y v \<longrightarrow> Q y v')" if "x' \<in> set xs" "I v" "f z x' v = (r, v')" for z x' v r v'
      using Cons.prems(3) [OF _ that(2,3)] that(1) by simp
    show "Q x' v'" if "x' \<in> set xs" "I v" "f z x' v = (Inr y, v')" for z x' v y v'
      using Cons.prems(4) [OF _ that(2,3)] that(1) by simp
  qed
  with k q show ?case by simp
qed simp

section \<open>Scripted faults\<close>

datatype 'e fault = Fine | Before 'e | After 'e

fun next_fault :: "'e fault list \<Rightarrow> 'e fault" where
  "next_fault [] = Fine"
| "next_fault (f # fs) = f"

text \<open>One call to an outside resource: \<open>act\<close> is what the resource does to its state and the reply
  it gives.\<close>

fun faulty :: "'e fault \<Rightarrow> ('s \<Rightarrow> ('e + 'a) \<times> 's) \<Rightarrow> 's \<Rightarrow> ('e + 'a) \<times> 's" where
  "faulty Fine act s = act s"
| "faulty (Before e) act s = (Inl e, s)"
| "faulty (After e) act s = (Inl e, snd (act s))"

lemma faulty_state: "snd (faulty f act s) = s \<or> snd (faulty f act s) = snd (act s)"
  by (cases f) auto

lemma faulty_Inr: "faulty f act s = (Inr x, s') \<Longrightarrow> act s = (Inr x, s')"
  by (cases f) auto

end
