(* ===== verification/Sapi_Errors.thy ===== *)
theory Sapi_Errors
  imports Py_Io
begin

text \<open>
  The exceptions of the pipeline-intelligence service (\<^verbatim>\<open>app/common/errors.py\<close>,
  \<^verbatim>\<open>app/common/error_codes.py\<close>, \<^verbatim>\<open>app/common/error_categories.py\<close>, \<^verbatim>\<open>app/db/errors.py\<close>,
  \<^verbatim>\<open>app/llm/errors.py\<close>): the class tree of \<^verbatim>\<open>SAPIError\<close> with the class attributes each class
  sets, attribute lookup along the base classes, and the exceptions of the drivers that reach
  the services' own \<^verbatim>\<open>except\<close> clauses. The text of a \<^verbatim>\<open>dev_message\<close> only goes to the log and is
  left out.
\<close>

section \<open>Classes\<close>

datatype error_type = REQUEST | GENERAL | STORAGE | PARSE | LLM

datatype error_category =
    AGGREGATION | COMMON | CONFIG | DB | ENTITY_ANALYSIS | LLM_CATEGORY | NEWS_CLIENT | REDIS
  | SCORING | STOCK_LIST

datatype log_level = WARNING | ERROR | CRITICAL

datatype sapi_class =
    SAPIError
  | ServiceUnavailableError
  | ParseError
  | DatabaseError
  | UniqueConstraintError
  | LLMError
  | LLMRateLimitError
  | LLMProviderError
  | LLMRequestError
  | LLMAuthenticationError
  | LLMSchemaViolationError

fun base_class :: "sapi_class \<Rightarrow> sapi_class option" where
  "base_class SAPIError = None"
| "base_class ServiceUnavailableError = Some SAPIError"
| "base_class ParseError = Some SAPIError"
| "base_class DatabaseError = Some SAPIError"
| "base_class UniqueConstraintError = Some DatabaseError"
| "base_class LLMError = Some SAPIError"
| "base_class LLMRateLimitError = Some LLMError"
| "base_class LLMProviderError = Some LLMError"
| "base_class LLMRequestError = Some LLMError"
| "base_class LLMAuthenticationError = Some LLMError"
| "base_class LLMSchemaViolationError = Some LLMError"

text \<open>The SAPI part of \<^verbatim>\<open>__mro__\<close>. The tree has depth three.\<close>

fun mro_upto :: "nat \<Rightarrow> sapi_class \<Rightarrow> sapi_class list" where
  "mro_upto 0 c = [c]"
| "mro_upto (Suc n) c = c # (case base_class c of None \<Rightarrow> [] | Some b \<Rightarrow> mro_upto n b)"

definition mro :: "sapi_class \<Rightarrow> sapi_class list" where
  "mro c = mro_upto 3 c"

definition is_subclass :: "sapi_class \<Rightarrow> sapi_class \<Rightarrow> bool" where
  "is_subclass c d \<longleftrightarrow> d \<in> set (mro c)"

lemma mro_simps:
  "mro SAPIError = [SAPIError]"
  "mro ServiceUnavailableError = [ServiceUnavailableError, SAPIError]"
  "mro ParseError = [ParseError, SAPIError]"
  "mro DatabaseError = [DatabaseError, SAPIError]"
  "mro UniqueConstraintError = [UniqueConstraintError, DatabaseError, SAPIError]"
  "mro LLMError = [LLMError, SAPIError]"
  "mro LLMRateLimitError = [LLMRateLimitError, LLMError, SAPIError]"
  "mro LLMProviderError = [LLMProviderError, LLMError, SAPIError]"
  "mro LLMRequestError = [LLMRequestError, LLMError, SAPIError]"
  "mro LLMAuthenticationError = [LLMAuthenticationError, LLMError, SAPIError]"
  "mro LLMSchemaViolationError = [LLMSchemaViolationError, LLMError, SAPIError]"
  by (simp_all add: mro_def numeral_3_eq_3)

section \<open>Class attributes\<close>

definition INTERNAL_ERROR :: pystr where "INTERNAL_ERROR = u ''COMMON-5000''"
definition SERVICE_UNAVAILABLE :: pystr where "SERVICE_UNAVAILABLE = u ''COMMON-5001''"
definition UPSTREAM_UNAVAILABLE :: pystr where "UPSTREAM_UNAVAILABLE = u ''COMMON-5002''"
definition PARSE_ERROR :: pystr where "PARSE_ERROR = u ''COMMON-6000''"
definition LLM_ERROR :: pystr where "LLM_ERROR = u ''COMMON-7000''"
definition LLM_RATE_LIMITED :: pystr where "LLM_RATE_LIMITED = u ''COMMON-7001''"
definition LLM_PROVIDER_ERROR :: pystr where "LLM_PROVIDER_ERROR = u ''COMMON-7002''"
definition LLM_AUTHENTICATION_FAILED :: pystr where "LLM_AUTHENTICATION_FAILED = u ''COMMON-7003''"
definition LLM_SCHEMA_VIOLATION :: pystr where "LLM_SCHEMA_VIOLATION = u ''COMMON-7004''"
definition LLM_REQUEST_REJECTED :: pystr where "LLM_REQUEST_REJECTED = u ''COMMON-7005''"
definition DATABASE_ERROR :: pystr where "DATABASE_ERROR = u ''COMMON-8000''"
definition UNIQUE_CONSTRAINT_VIOLATED :: pystr where "UNIQUE_CONSTRAINT_VIOLATED = u ''COMMON-8001''"

text \<open>What each class body sets itself; None is inherited.\<close>

fun own_error_type :: "sapi_class \<Rightarrow> error_type option" where
  "own_error_type SAPIError = Some GENERAL"
| "own_error_type ParseError = Some PARSE"
| "own_error_type DatabaseError = Some STORAGE"
| "own_error_type LLMError = Some LLM"
| "own_error_type _ = None"

fun own_error_code :: "sapi_class \<Rightarrow> pystr option" where
  "own_error_code SAPIError = Some INTERNAL_ERROR"
| "own_error_code ServiceUnavailableError = Some SERVICE_UNAVAILABLE"
| "own_error_code ParseError = Some PARSE_ERROR"
| "own_error_code DatabaseError = Some DATABASE_ERROR"
| "own_error_code UniqueConstraintError = Some UNIQUE_CONSTRAINT_VIOLATED"
| "own_error_code LLMError = Some LLM_ERROR"
| "own_error_code LLMRateLimitError = Some LLM_RATE_LIMITED"
| "own_error_code LLMProviderError = Some LLM_PROVIDER_ERROR"
| "own_error_code LLMRequestError = Some LLM_REQUEST_REJECTED"
| "own_error_code LLMAuthenticationError = Some LLM_AUTHENTICATION_FAILED"
| "own_error_code LLMSchemaViolationError = Some LLM_SCHEMA_VIOLATION"

fun own_message :: "sapi_class \<Rightarrow> pystr option" where
  "own_message SAPIError = Some (u ''Internal server error'')"
| "own_message ServiceUnavailableError = Some (u ''Service unavailable'')"
| "own_message ParseError = Some (u ''Content could not be parsed'')"
| "own_message _ = None"

fun own_log_level :: "sapi_class \<Rightarrow> log_level option" where
  "own_log_level SAPIError = Some ERROR"
| "own_log_level LLMRateLimitError = Some WARNING"
| "own_log_level LLMProviderError = Some WARNING"
| "own_log_level LLMAuthenticationError = Some CRITICAL"
| "own_log_level _ = None"

text \<open>\<^verbatim>\<open>self.attr\<close>: the first class along the bases that sets it.\<close>

fun first_some :: "('a \<Rightarrow> 'b option) \<Rightarrow> 'a list \<Rightarrow> 'b option" where
  "first_some f [] = None"
| "first_some f (x # xs) = (case f x of Some y \<Rightarrow> Some y | None \<Rightarrow> first_some f xs)"

definition class_attr :: "(sapi_class \<Rightarrow> 'b option) \<Rightarrow> sapi_class \<Rightarrow> 'b" where
  "class_attr own c = the (first_some own (mro c))"

section \<open>Instances\<close>

record sapi_error =
  err_class :: sapi_class
  err_category :: error_category
  err_error_type :: error_type
  err_error_code :: pystr
  err_message :: pystr
  err_log_level :: log_level

text \<open>\<^verbatim>\<open>SAPIError.__init__\<close>: an argument that is given overrides the class attribute.\<close>

definition init_error ::
  "sapi_class \<Rightarrow> error_category \<Rightarrow> error_type option \<Rightarrow> pystr option \<Rightarrow> pystr option
     \<Rightarrow> log_level option \<Rightarrow> sapi_error" where
  "init_error c cat ty code msg lvl =
     \<lparr> err_class = c, err_category = cat,
       err_error_type = (case ty of Some t \<Rightarrow> t | None \<Rightarrow> class_attr own_error_type c),
       err_error_code = (case code of Some x \<Rightarrow> x | None \<Rightarrow> class_attr own_error_code c),
       err_message = (case msg of Some m \<Rightarrow> m | None \<Rightarrow> class_attr own_message c),
       err_log_level = (case lvl of Some l \<Rightarrow> l | None \<Rightarrow> class_attr own_log_level c) \<rparr>"

abbreviation sapi_err :: "sapi_class \<Rightarrow> error_category \<Rightarrow> sapi_error" where
  "sapi_err c cat \<equiv> init_error c cat None None None None"

definition upstream_unavailable :: "error_category \<Rightarrow> sapi_error" where
  "upstream_unavailable cat =
     init_error ServiceUnavailableError cat None (Some UPSTREAM_UNAVAILABLE) None (Some WARNING)"

lemma err_class_init [simp]: "err_class (init_error c cat ty code msg lvl) = c"
  by (simp add: init_error_def)

lemma upstream_unavailable_class [simp]: "err_class (upstream_unavailable cat) = ServiceUnavailableError"
  by (simp add: upstream_unavailable_def)

lemma class_attr_defined:
  "first_some own_error_type (mro c) \<noteq> None" "first_some own_error_code (mro c) \<noteq> None"
  "first_some own_message (mro c) \<noteq> None" "first_some own_log_level (mro c) \<noteq> None"
  by (cases c; simp add: mro_simps)+

section \<open>Exceptions in flight\<close>

datatype redis_exn = RedisConnectionError | RedisTimeoutError | RedisResponseError pystr

text \<open>asyncpg: a unique violation names its constraint; \<open>PostgresError\<close> is every other error the
  server reports.\<close>

datatype pg_exn =
    UniqueViolationError pystr
  | TooManyConnectionsError
  | PostgresConnectionError
  | CannotConnectNowError
  | InterfaceError
  | PostgresError

datatype py_exn =
    KeyError | ValueError | TypeError | AssertionError | ZeroDivisionError | StopIteration
  | OSError | TimeoutError | RuntimeError | IndexError | AttributeError

text \<open>\<open>Cancelled\<close> is \<^verbatim>\<open>asyncio.CancelledError\<close>, no subclass of \<^verbatim>\<open>Exception\<close>. \<open>Suspended\<close> marks a
  coroutine that waits for something that has not happened: the computation has no result yet.\<close>

datatype exn =
    Sapi sapi_error
  | Redis redis_exn
  | Pg pg_exn
  | Py py_exn
  | HttpxError
  | HttpxConnectError
  | ValidationError
  | Cancelled
  | Suspended

fun is_exception :: "exn \<Rightarrow> bool" where
  "is_exception Cancelled = False"
| "is_exception Suspended = False"
| "is_exception _ = True"

text \<open>\<^verbatim>\<open>_REDIS_UNREACHABLE\<close>, as each consumer module defines it.\<close>

fun is_redis_unreachable :: "exn \<Rightarrow> bool" where
  "is_redis_unreachable (Redis RedisConnectionError) = True"
| "is_redis_unreachable (Redis RedisTimeoutError) = True"
| "is_redis_unreachable _ = False"

fun is_sapi :: "exn \<Rightarrow> bool" where
  "is_sapi (Sapi e) = True"
| "is_sapi _ = False"

end
