(* ===== verification/Sapi_Models.thy ===== *)
theory Sapi_Models
  imports Py_Float Py_Time Sapi_Errors
begin

text \<open>
  The data of the pipeline-intelligence service (\<^verbatim>\<open>app/models\<close>, \<^verbatim>\<open>app/common/stock.py\<close>,
  \<^verbatim>\<open>app/layer_tasks.py\<close>, \<^verbatim>\<open>app/redis/stream_enum.py\<close>): one record per dataclass, one datatype per
  enum, with the methods the dataclasses define.
\<close>

section \<open>Enumerations\<close>

datatype event_type =
    EARNINGS | BUYBACK | MA | REGULATORY | MANAGEMENT_CHANGE | ANALYST_RATING | DIVIDEND
  | GENERAL_ANNOUNCEMENT

datatype sentiment = POSITIVE | NEUTRAL | NEGATIVE

definition event_types :: "event_type list" where
  "event_types = [EARNINGS, BUYBACK, MA, REGULATORY, MANAGEMENT_CHANGE, ANALYST_RATING, DIVIDEND,
     GENERAL_ANNOUNCEMENT]"

text \<open>The value of a member, which is also its \<^verbatim>\<open>str\<close>, and the constructor call \<^verbatim>\<open>EventTypeEnum(text)\<close>
  (None is its ValueError).\<close>

fun event_type_str :: "event_type \<Rightarrow> pystr" where
  "event_type_str EARNINGS = u ''EARNINGS''"
| "event_type_str BUYBACK = u ''BUYBACK''"
| "event_type_str MA = u ''MA''"
| "event_type_str REGULATORY = u ''REGULATORY''"
| "event_type_str MANAGEMENT_CHANGE = u ''MANAGEMENT_CHANGE''"
| "event_type_str ANALYST_RATING = u ''ANALYST_RATING''"
| "event_type_str DIVIDEND = u ''DIVIDEND''"
| "event_type_str GENERAL_ANNOUNCEMENT = u ''GENERAL_ANNOUNCEMENT''"

definition event_type_of_str :: "pystr \<Rightarrow> event_type option" where
  "event_type_of_str s = find (\<lambda>t. event_type_str t = s) event_types"

lemma event_type_of_str_str [simp]: "event_type_of_str (event_type_str t) = Some t"
  by (cases t) (simp_all add: event_type_of_str_def event_types_def)

lemma event_type_str_inj [simp]: "event_type_str s = event_type_str t \<longleftrightarrow> s = t"
  by (metis event_type_of_str_str option.inject)

interpretation event_type_codec: plain_codec event_type_str event_type_of_str "\<lambda>_. True"
proof
  show "34 \<notin> set (event_type_str t)" for t
    by (cases t) (simp_all add: u_def)
qed simp

lemma event_type_str_no_colon: "58 \<notin> set (event_type_str t)"
  by (cases t) (simp_all add: u_def)

text \<open>Postgres orders the members by their text.\<close>

fun event_type_rank :: "event_type \<Rightarrow> nat" where
  "event_type_rank ANALYST_RATING = 0"
| "event_type_rank BUYBACK = 1"
| "event_type_rank DIVIDEND = 2"
| "event_type_rank EARNINGS = 3"
| "event_type_rank GENERAL_ANNOUNCEMENT = 4"
| "event_type_rank MA = 5"
| "event_type_rank MANAGEMENT_CHANGE = 6"
| "event_type_rank REGULATORY = 7"

lemma event_type_rank_inj: "event_type_rank s = event_type_rank t \<Longrightarrow> s = t"
  by (cases s; cases t) simp_all

instantiation event_type :: linorder
begin

definition less_eq_event_type :: "event_type \<Rightarrow> event_type \<Rightarrow> bool" where
  "less_eq_event_type s t \<longleftrightarrow> event_type_rank s \<le> event_type_rank t"

definition less_event_type :: "event_type \<Rightarrow> event_type \<Rightarrow> bool" where
  "less_event_type s t \<longleftrightarrow> event_type_rank s < event_type_rank t"

instance
  by standard (auto simp: less_eq_event_type_def less_event_type_def intro: event_type_rank_inj)

end

datatype layer = L_ENTITY_ANALYSIS | L_AGGREGATION | L_SCORING | L_CACHE

section \<open>Stocks, EntityEvents\<close>

record stock =
  st_stock_code :: pystr
  st_exchange :: pystr
  st_company_name_zh :: pystr
  st_company_name_en :: pystr

record analysis_outcome =
  ao_stock_code :: pystr
  ao_event_type_primary :: event_type
  ao_event_type_secondary :: "event_type option"
  ao_sentiment_label :: sentiment
  ao_sentiment_score :: pyfloat
  ao_headline :: pystr
  ao_entity_summary :: pystr

record 'a versioned =
  v_version :: pystr
  v_output :: 'a

record entity_event =
  ee_source_id :: uuid
  ee_source_url :: pystr
  ee_source_name :: pystr
  ee_published_at :: "instant option"
  ee_analysis_outcome :: "analysis_outcome versioned"
  ee_stock :: stock
  ee_entity_event_id :: "uuid option"
  ee_created_at :: "instant option"

definition is_persistent_event :: "entity_event \<Rightarrow> bool" where
  "is_persistent_event e \<longleftrightarrow> ee_entity_event_id e \<noteq> None \<and> ee_created_at e \<noteq> None"

text \<open>\<^verbatim>\<open>self.published_at or self.created_at\<close>; a \<^verbatim>\<open>datetime\<close> is always true.\<close>

definition get_published_at :: "entity_event \<Rightarrow> instant option" where
  "get_published_at e = (case ee_published_at e of Some t \<Rightarrow> Some t | None \<Rightarrow> ee_created_at e)"

lemma persistent_published: "is_persistent_event e \<Longrightarrow> \<exists>t. get_published_at e = Some t"
  by (auto simp: is_persistent_event_def get_published_at_def split: option.splits)

section \<open>Events\<close>

record entity_source =
  src_source_name :: pystr
  src_url :: pystr
  src_published_at :: instant

record event =
  ev_event_id :: uuid
  ev_exchange :: pystr
  ev_stock_code :: pystr
  ev_event_type_primary :: event_type
  ev_first_seen_at :: instant
  ev_last_seen_at :: instant
  ev_event_type_secondary :: "event_type list option"
  ev_source_list :: "entity_source list option"
  ev_aggregation_updated_at :: "instant option"
  ev_updated_at :: "instant option"
  ev_created_at :: "instant option"
  ev_entity_event_ids :: "uuid list option"

definition is_active_event :: "event \<Rightarrow> bool" where
  "is_active_event e \<longleftrightarrow> (case ev_entity_event_ids e of None \<Rightarrow> False | Some ids \<Rightarrow> 0 < length ids)"

definition source_count :: "event \<Rightarrow> nat option" where
  "source_count e = map_option length (ev_source_list e)"

record event_entity_map =
  eem_event_id :: uuid
  eem_entity_event_id :: uuid
  eem_created_at :: instant

section \<open>Scores\<close>

record rule_score =
  rs_event_type_score :: pyfloat
  rs_source_authority_score :: pyfloat
  rs_sentiment_strength_score :: pyfloat
  rs_source_heat_score :: pyfloat

text \<open>The property \<^verbatim>\<open>base_rule_score\<close>, evaluated left to right in floating point.\<close>

definition base_rule_score :: "rule_score \<Rightarrow> pyfloat" where
  "base_rule_score r =
     fadd (fadd (fadd (fmul (rs_event_type_score r) (fl (30/100)))
                      (fmul (rs_source_authority_score r) (fl (25/100))))
                (fmul (rs_sentiment_strength_score r) (fl (15/100))))
          (fmul (rs_source_heat_score r) (fl (10/100)))"

record llm_score =
  ls_stock_impact_score :: pyfloat
  ls_adjustment_reason :: pystr

record event_score =
  es_score_id :: uuid
  es_event_id :: uuid
  es_abs_final_score :: pyfloat
  es_base_rule_score :: pyfloat
  es_stock_impact_score :: pyfloat
  es_direction :: int
  es_llm_fallback :: bool
  es_rule_score_detail :: "rule_score versioned"
  es_llm_score_detail :: "llm_score versioned"
  es_scored_at :: instant
  es_scored_aggregation_updated_at :: instant
  es_updated_at :: instant
  es_created_at :: instant

section \<open>Stream names\<close>

definition RAW_NEWS_CLEANED :: pystr where "RAW_NEWS_CLEANED = u ''stream:raw_news_cleaned''"
definition ENTITY_EVENT_COMPLETED :: pystr where
  "ENTITY_EVENT_COMPLETED = u ''stream:entity_event_completed''"
definition EVENT_AGGREGATED :: pystr where "EVENT_AGGREGATED = u ''stream:event_aggregated''"
definition EVENT_SCORED :: pystr where "EVENT_SCORED = u ''stream:event_scored''"
definition ENTITY_ANALYSIS_DEAD_LETTER :: pystr where
  "ENTITY_ANALYSIS_DEAD_LETTER = u ''stream:entity_analysis_dead_letter''"
definition AGGREGATION_DEAD_LETTER :: pystr where
  "AGGREGATION_DEAD_LETTER = u ''stream:aggregation_dead_letter''"

definition ENTITY_ANALYSIS_GROUP :: pystr where "ENTITY_ANALYSIS_GROUP = u ''sapi-entity-analysis''"
definition AGGREGATION_GROUP :: pystr where "AGGREGATION_GROUP = u ''sapi-aggregation''"
definition SCORING_GROUP :: pystr where "SCORING_GROUP = u ''sapi-scoring''"

text \<open>Every stream's message format version is the same text.\<close>

definition STREAM_VERSION :: pystr where "STREAM_VERSION = u ''1''"

lemmas stream_names =
  RAW_NEWS_CLEANED_def ENTITY_EVENT_COMPLETED_def EVENT_AGGREGATED_def EVENT_SCORED_def
  ENTITY_ANALYSIS_DEAD_LETTER_def AGGREGATION_DEAD_LETTER_def

lemma stream_names_distinct:
  "distinct [RAW_NEWS_CLEANED, ENTITY_EVENT_COMPLETED, EVENT_AGGREGATED, EVENT_SCORED,
     ENTITY_ANALYSIS_DEAD_LETTER, AGGREGATION_DEAD_LETTER]"
  by (simp add: stream_names)

end
