(* ===== verification/Sapi_Config.thy ===== *)
theory Sapi_Config
  imports Sapi_Models
begin

text \<open>
  \<^verbatim>\<open>app/config.py\<close>: the configuration records, the reading of the environment with its
  defaults, and the module singleton. The environment is a map from names to texts. \<^verbatim>\<open>int\<close> and
  \<^verbatim>\<open>float\<close> of a text raise ValueError where the text is not a number.
\<close>

section \<open>Numbers from text\<close>

text \<open>\<^verbatim>\<open>int(text)\<close>: surrounding white space, a sign, digits that single underscores may separate.\<close>

definition digits_of :: "pystr \<Rightarrow> nat option" where
  "digits_of s =
     (let parts = py_split_on 95 s
      in if list_all (\<lambda>p. p \<noteq> [] \<and> list_all is_digit p) parts
         then Some (digits_value (concat parts)) else None)"

definition split_sign :: "pystr \<Rightarrow> int \<times> pystr" where
  "split_sign s = (case s of
       [] \<Rightarrow> (1, [])
     | c # cs \<Rightarrow> if c = 45 then (-1, cs) else if c = 43 then (1, cs) else (1, s))"

definition py_int :: "pystr \<Rightarrow> int option" where
  "py_int s = (let (sg, b) = split_sign (py_strip s) in map_option (\<lambda>n. sg * int n) (digits_of b))"

text \<open>\<^verbatim>\<open>float(text)\<close> of a plain decimal: the digits before and after an optional point, correctly
  rounded. An exponent, an infinity or a NaN is outside this grammar.\<close>

definition py_float :: "pystr \<Rightarrow> pyfloat option" where
  "py_float s =
     (let (sg, b) = split_sign (py_strip s);
          ip = takeWhile (\<lambda>c. c \<noteq> 46) b;
          fp = drop (Suc (length ip)) b
      in if list_all is_digit ip \<and> list_all is_digit fp \<and> ip @ fp \<noteq> []
         then Some (fl (of_int sg * (of_nat (digits_value (ip @ fp)) / 10 ^ length fp)))
         else None)"

section \<open>Records\<close>

record database_config =
  db_url :: pystr
  db_pool_size :: int
  db_close_timeout_s :: int
  db_max_retry :: int
  db_retry_base_wait_ms :: int

record http_config =
  http_timeout_s :: int

record health_config =
  health_check_timeout_s :: int
  health_layer_restart_delay_s :: int

record redis_config =
  redis_stream_url :: pystr
  redis_state_url :: pystr
  redis_reconnect_interval_s :: int
  redis_stream_claim_timeout_ms :: int

record llm_config =
  llm_vertex_project :: pystr
  llm_vertex_location :: pystr
  llm_api_timeout_s :: int
  llm_rate_limit_backoff_s :: int

record entity_analysis_config =
  ea_batch_size :: int
  ea_batch_timeout_ms :: int
  ea_max_concurrent :: int
  ea_max_retry :: int
  ea_max_input_chars :: int
  ea_sadi_api_url :: pystr
  ea_consumer_name :: pystr

record aggregation_config =
  agg_batch_size :: int
  agg_batch_timeout_ms :: int
  agg_max_concurrent :: int
  agg_group_idle_timeout_s :: int
  agg_db_flush_interval_s :: int
  agg_max_retry :: int
  agg_sliding_window_hours :: int
  agg_event_max_timespan_hours :: int
  agg_consumer_name :: pystr

record event_type_score_entry =
  ets_event_type :: event_type
  ets_score :: pyfloat

record scoring_config =
  sc_batch_size :: int
  sc_batch_timeout_ms :: int
  sc_consumer_name :: pystr
  sc_total_active_sources_default :: int
  sc_event_type_score :: "event_type_score_entry list"

record app_config =
  cfg_db :: database_config
  cfg_http :: http_config
  cfg_health :: health_config
  cfg_redis :: redis_config
  cfg_llm :: llm_config
  cfg_entity_analysis :: entity_analysis_config
  cfg_aggregation :: aggregation_config
  cfg_scoring :: scoring_config

section \<open>Loading\<close>

type_synonym environ = "pystr \<Rightarrow> pystr option"
type_synonym 'a res = "exn + 'a"

fun rbind :: "'a res \<Rightarrow> ('a \<Rightarrow> 'b res) \<Rightarrow> 'b res" where
  "rbind (Inl e) f = Inl e"
| "rbind (Inr x) f = f x"

lemma rbind_eq_Inr: "rbind r f = Inr y \<longleftrightarrow> (\<exists>x. r = Inr x \<and> f x = Inr y)"
  by (cases r) auto

lemma rbind_eq_Inl: "rbind r f = Inl e \<longleftrightarrow> r = Inl e \<or> (\<exists>x. r = Inr x \<and> f x = Inl e)"
  by (cases r) auto

fun rmap_list :: "('a \<Rightarrow> 'b res) \<Rightarrow> 'a list \<Rightarrow> 'b list res" where
  "rmap_list f [] = Inr []"
| "rmap_list f (x # xs) = rbind (f x) (\<lambda>y. rbind (rmap_list f xs) (\<lambda>ys. Inr (y # ys)))"

text \<open>\<^verbatim>\<open>_EVENT_TYPE_SCORE_ENV\<close>, in enum order.\<close>

definition event_type_score_env :: "(event_type \<times> pystr \<times> pystr) list" where
  "event_type_score_env =
     [(EARNINGS, u ''EVENT_TYPE_WEIGHT_EARNINGS'', u ''9.0''),
      (BUYBACK, u ''EVENT_TYPE_WEIGHT_BUYBACK'', u ''7.0''),
      (MA, u ''EVENT_TYPE_WEIGHT_MA'', u ''8.5''),
      (REGULATORY, u ''EVENT_TYPE_WEIGHT_REGULATORY'', u ''8.0''),
      (MANAGEMENT_CHANGE, u ''EVENT_TYPE_WEIGHT_MANAGEMENT_CHANGE'', u ''7.0''),
      (ANALYST_RATING, u ''EVENT_TYPE_WEIGHT_ANALYST_RATING'', u ''5.0''),
      (DIVIDEND, u ''EVENT_TYPE_WEIGHT_DIVIDEND'', u ''6.0''),
      (GENERAL_ANNOUNCEMENT, u ''EVENT_TYPE_WEIGHT_GENERAL'', u ''4.0'')]"

definition require :: "environ \<Rightarrow> string \<Rightarrow> pystr res" where
  "require env name = (case env (u name) of
       None \<Rightarrow> Inl (Sapi (sapi_err SAPIError CONFIG))
     | Some v \<Rightarrow> Inr v)"

text \<open>\<^verbatim>\<open>os.environ.get(name, default)\<close>, and \<^verbatim>\<open>int\<close> of it.\<close>

definition env_get :: "environ \<Rightarrow> pystr \<Rightarrow> pystr \<Rightarrow> pystr" where
  "env_get env name dflt = (case env name of None \<Rightarrow> dflt | Some v \<Rightarrow> v)"

definition env_int :: "environ \<Rightarrow> string \<Rightarrow> string \<Rightarrow> int res" where
  "env_int env name dflt = (case py_int (env_get env (u name) (u dflt)) of
       None \<Rightarrow> Inl (Py ValueError) | Some n \<Rightarrow> Inr n)"

definition env_float :: "environ \<Rightarrow> pystr \<Rightarrow> pystr \<Rightarrow> pyfloat res" where
  "env_float env name dflt = (case py_float (env_get env name dflt) of
       None \<Rightarrow> Inl (Py ValueError) | Some x \<Rightarrow> Inr x)"

definition load_db_config :: "environ \<Rightarrow> database_config res" where
  "load_db_config env =
     rbind (require env ''DATABASE_URL'') (\<lambda>url.
     rbind (env_int env ''DB_POOL_SIZE'' ''10'') (\<lambda>ps.
     rbind (env_int env ''DB_CLOSE_TIMEOUT_S'' ''10'') (\<lambda>ct.
     rbind (env_int env ''DB_WRITE_MAX_RETRY'' ''3'') (\<lambda>mr.
     rbind (env_int env ''DB_RETRY_BASE_WAIT_MS'' ''100'') (\<lambda>bw.
     Inr \<lparr> db_url = url, db_pool_size = ps, db_close_timeout_s = ct, db_max_retry = mr,
           db_retry_base_wait_ms = bw \<rparr>)))))"

definition load_redis_config :: "environ \<Rightarrow> redis_config res" where
  "load_redis_config env =
     rbind (require env ''REDIS_STREAM_URL'') (\<lambda>su.
     rbind (require env ''REDIS_STATE_URL'') (\<lambda>tu.
     rbind (env_int env ''REDIS_RECONNECT_INTERVAL_S'' ''5'') (\<lambda>ri.
     rbind (env_int env ''STREAM_CLAIM_TIMEOUT_MS'' ''300000'') (\<lambda>ct.
     Inr \<lparr> redis_stream_url = su, redis_state_url = tu, redis_reconnect_interval_s = ri,
           redis_stream_claim_timeout_ms = ct \<rparr>))))"

definition load_llm_config :: "environ \<Rightarrow> llm_config res" where
  "load_llm_config env =
     rbind (require env ''VERTEX_AI_PROJECT'') (\<lambda>p.
     rbind (env_int env ''LLM_API_TIMEOUT_S'' ''30'') (\<lambda>t.
     rbind (env_int env ''RATE_LIMIT_BACKOFF_S'' ''60'') (\<lambda>b.
     Inr \<lparr> llm_vertex_project = p,
           llm_vertex_location = env_get env (u ''VERTEX_AI_LOCATION'') (u ''global''),
           llm_api_timeout_s = t, llm_rate_limit_backoff_s = b \<rparr>)))"

definition load_entity_analysis_config :: "environ \<Rightarrow> entity_analysis_config res" where
  "load_entity_analysis_config env =
     rbind (env_int env ''ENTITY_ANALYSIS_BATCH_SIZE'' ''10'') (\<lambda>bs.
     rbind (env_int env ''ENTITY_ANALYSIS_BATCH_TIMEOUT_MS'' ''5000'') (\<lambda>bt.
     rbind (env_int env ''ENTITY_ANALYSIS_MAX_CONCURRENT'' ''3'') (\<lambda>mc.
     rbind (env_int env ''ENTITY_ANALYSIS_MAX_RETRY'' ''3'') (\<lambda>mr.
     rbind (env_int env ''ENTITY_ANALYSIS_MAX_INPUT_CHARS'' ''30000'') (\<lambda>mi.
     Inr \<lparr> ea_batch_size = bs, ea_batch_timeout_ms = bt, ea_max_concurrent = mc, ea_max_retry = mr,
           ea_max_input_chars = mi,
           ea_sadi_api_url = env_get env (u ''SADI_API_URL'') (u ''http://localhost:8000''),
           ea_consumer_name = env_get env (u ''HOSTNAME'') (u ''sapi-entity-analysis-1'') \<rparr>)))))"

definition load_aggregation_config :: "environ \<Rightarrow> aggregation_config res" where
  "load_aggregation_config env =
     rbind (env_int env ''AGG_BATCH_SIZE'' ''10'') (\<lambda>bs.
     rbind (env_int env ''AGG_BATCH_TIMEOUT_MS'' ''5000'') (\<lambda>bt.
     rbind (env_int env ''AGG_MAX_CONCURRENT'' ''100'') (\<lambda>mc.
     rbind (env_int env ''AGG_GROUP_IDLE_TIMEOUT_S'' ''10'') (\<lambda>it.
     rbind (env_int env ''AGG_DB_FLUSH_INTERVAL_S'' ''300'') (\<lambda>fi.
     rbind (env_int env ''AGG_MAX_RETRY'' ''3'') (\<lambda>mr.
     rbind (env_int env ''SLIDING_WINDOW_HOURS'' ''4'') (\<lambda>sw.
     rbind (env_int env ''EVENT_MAX_TIMESPAN_HOURS'' ''24'') (\<lambda>mt.
     Inr \<lparr> agg_batch_size = bs, agg_batch_timeout_ms = bt, agg_max_concurrent = mc,
           agg_group_idle_timeout_s = it, agg_db_flush_interval_s = fi, agg_max_retry = mr,
           agg_sliding_window_hours = sw, agg_event_max_timespan_hours = mt,
           agg_consumer_name = env_get env (u ''HOSTNAME'') (u ''sapi-aggregation-1'') \<rparr>))))))))"

definition load_scoring_config :: "environ \<Rightarrow> scoring_config res" where
  "load_scoring_config env =
     rbind (env_int env ''SCORING_BATCH_SIZE'' ''10'') (\<lambda>bs.
     rbind (env_int env ''SCORING_BATCH_TIMEOUT_MS'' ''5000'') (\<lambda>bt.
     rbind (env_int env ''TOTAL_ACTIVE_SOURCES_DEFAULT'' ''4'') (\<lambda>ta.
     rbind (rmap_list (\<lambda>(t, name, dflt).
              rbind (env_float env name dflt) (\<lambda>x. Inr \<lparr> ets_event_type = t, ets_score = x \<rparr>))
              event_type_score_env) (\<lambda>ws.
     Inr \<lparr> sc_batch_size = bs, sc_batch_timeout_ms = bt,
           sc_consumer_name = env_get env (u ''HOSTNAME'') (u ''sapi-scoring-1''),
           sc_total_active_sources_default = ta, sc_event_type_score = ws \<rparr>))))"

text \<open>The AppConfig is built argument by argument, in this order; the singleton is assigned only
  when all of them succeeded.\<close>

definition load_config :: "environ \<Rightarrow> app_config option \<Rightarrow> app_config res \<times> app_config option" where
  "load_config env cur =
     (let r =
        rbind (load_db_config env) (\<lambda>db.
        rbind (env_int env ''HTTP_TIMEOUT_S'' ''120'') (\<lambda>ht.
        rbind (env_int env ''HEALTH_CHECK_TIMEOUT_S'' ''2'') (\<lambda>hc.
        rbind (env_int env ''LAYER_RESTART_DELAY_S'' ''1'') (\<lambda>ld.
        rbind (load_redis_config env) (\<lambda>rd.
        rbind (load_llm_config env) (\<lambda>ll.
        rbind (load_entity_analysis_config env) (\<lambda>ea.
        rbind (load_aggregation_config env) (\<lambda>ag.
        rbind (load_scoring_config env) (\<lambda>sc.
        Inr \<lparr> cfg_db = db, cfg_http = \<lparr> http_timeout_s = ht \<rparr>,
              cfg_health = \<lparr> health_check_timeout_s = hc, health_layer_restart_delay_s = ld \<rparr>,
              cfg_redis = rd, cfg_llm = ll, cfg_entity_analysis = ea, cfg_aggregation = ag,
              cfg_scoring = sc \<rparr>)))))))))
      in (r, case r of Inr c \<Rightarrow> Some c | Inl _ \<Rightarrow> cur))"

definition get_config :: "app_config option \<Rightarrow> app_config res" where
  "get_config cur = (case cur of
       None \<Rightarrow> Inl (Sapi (sapi_err ServiceUnavailableError CONFIG))
     | Some c \<Rightarrow> Inr c)"

end
