(* ===== verification/Sapi_World.thy ===== *)
theory Sapi_World
  imports Sapi_Config
begin

text \<open>
  What the pipeline-intelligence service works against: the Postgres tables its migrations
  create, the two Redis servers, the clock and the source of fresh UUIDs, each with its script
  of faults (see \<^verbatim>\<open>Py_Io\<close>). The services' own in-memory state extends this record, component by
  component.
\<close>

section \<open>Tables\<close>

text \<open>The jsonb columns are kept structured: \<open>additional_outcome\<close> is
  \<^verbatim>\<open>{"version": ..., "output": {...}}\<close> and \<open>metadata\<close> is \<^verbatim>\<open>{"cleaned_id": ...}\<close>.\<close>

record additional_outcome =
  jo_version :: pystr
  jo_company_name_zh :: pystr
  jo_company_name_en :: pystr
  jo_event_type_secondary :: "event_type option"
  jo_headline :: pystr
  jo_entity_summary :: pystr

record entity_event_row =
  er_entity_event_id :: uuid
  er_exchange :: pystr
  er_source_url :: pystr
  er_source_name :: pystr
  er_published_at :: "instant option"
  er_stock_code :: pystr
  er_event_type_primary :: event_type
  er_sentiment_label :: sentiment
  er_sentiment_score :: pyfloat
  er_headline :: pystr
  er_entity_summary :: pystr
  er_additional_outcome :: additional_outcome
  er_cleaned_id :: uuid
  er_created_at :: instant
  er_updated_at :: instant

record event_row =
  vr_event_id :: uuid
  vr_exchange :: pystr
  vr_stock_code :: pystr
  vr_event_type_primary :: event_type
  vr_event_type_secondary :: "event_type list"
  vr_source_list :: "entity_source list"
  vr_first_seen_at :: instant
  vr_last_seen_at :: instant
  vr_aggregation_updated_at :: instant
  vr_published_aggregation_updated_at :: "instant option"
  vr_updated_at :: instant
  vr_created_at :: instant

record db =
  t_entity_events :: "entity_event_row list"
  t_events :: "event_row list"
  t_event_entity_map :: "event_entity_map list"
  t_event_scores :: "event_score list"

section \<open>Streams\<close>

text \<open>A stream entry's id grows with every entry; its text is opaque to the services. A consumer
  group remembers the last id it delivered and, for each delivered entry not acknowledged yet,
  its consumer, how often and when it was last delivered.\<close>

type_synonym message_id = nat
type_synonym fields = "(pystr \<times> pystr) list"

definition message_id_str :: "message_id \<Rightarrow> pystr" where
  "message_id_str n = dec_digits n @ u ''-0''"

record pending_entry =
  pe_consumer :: pystr
  pe_times_delivered :: nat
  pe_delivered_at :: instant

record consumer_group =
  cg_last_delivered :: message_id
  cg_pending :: "(message_id \<times> pending_entry) list"

record stream =
  sm_entries :: "(message_id \<times> fields) list"
  sm_next_id :: message_id
  sm_groups :: "(pystr \<times> consumer_group) list"

definition empty_stream :: stream where
  "empty_stream = \<lparr> sm_entries = [], sm_next_id = 1, sm_groups = [] \<rparr>"

section \<open>The world\<close>

text \<open>\<open>w_ticks\<close> is how much time passes before each reading of the clock, \<open>w_scan\<close> the order and the
  duplicates in which SCAN returns the keys it visits.\<close>

record world =
  w_now :: instant
  w_ticks :: "nat list"
  w_next_uuid :: nat
  w_db :: db
  w_pg :: "exn fault list"
  w_streams :: "(pystr \<times> stream) list"
  w_rs :: "exn fault list"
  w_state :: "(pystr \<times> fields \<times> instant) list"
  w_rt :: "exn fault list"
  w_scan :: "pystr list \<Rightarrow> pystr list"

type_synonym ('z, 'a) sapi = "('z world_scheme, exn, 'a) io"

text \<open>\<^verbatim>\<open>datetime.now(UTC)\<close>.\<close>

definition datetime_now :: "('z, instant) sapi" where
  "datetime_now = (\<lambda>w.
     let t = w_now w + (case w_ticks w of [] \<Rightarrow> 0 | d # _ \<Rightarrow> int d)
     in (Inr t, w\<lparr> w_now := t, w_ticks := tl (w_ticks w) \<rparr>))"

text \<open>\<^verbatim>\<open>uuid4()\<close>: never an identifier that was handed out before.\<close>

definition uuid4 :: "('z, uuid) sapi" where
  "uuid4 = (\<lambda>w. (Inr (w_next_uuid w), w\<lparr> w_next_uuid := Suc (w_next_uuid w) \<rparr>))"

text \<open>\<^verbatim>\<open>asyncio.sleep\<close>, in milliseconds.\<close>

definition sleep_ms :: "int \<Rightarrow> ('z, unit) sapi" where
  "sleep_ms ms = modify (\<lambda>w. w\<lparr> w_now := w_now w + max 0 ms * 1000 \<rparr>)"

definition throw :: "exn \<Rightarrow> ('w, exn, 'a) io" where
  "throw e = raise e"

definition assert_io :: "bool \<Rightarrow> ('w, exn, unit) io" where
  "assert_io b = (if b then ret () else raise (Py AssertionError))"

text \<open>\<^verbatim>\<open>assert x is not None\<close> with the value it then has.\<close>

definition some_or_assert :: "'a option \<Rightarrow> ('w, exn, 'a) io" where
  "some_or_assert x = (case x of None \<Rightarrow> raise (Py AssertionError) | Some y \<Rightarrow> ret y)"

section \<open>Calls\<close>

text \<open>One exchange with Postgres, with the stream Redis, with the state Redis.\<close>

definition pg_call :: "(db \<Rightarrow> (exn + 'a) \<times> db) \<Rightarrow> ('z, 'a) sapi" where
  "pg_call act = (\<lambda>w.
     let (r, d) = faulty (next_fault (w_pg w)) act (w_db w)
     in (r, w\<lparr> w_db := d, w_pg := tl (w_pg w) \<rparr>))"

definition rs_call ::
  "(instant \<Rightarrow> (pystr \<times> stream) list \<Rightarrow> (exn + 'a) \<times> (pystr \<times> stream) list) \<Rightarrow> ('z, 'a) sapi" where
  "rs_call act = (\<lambda>w.
     let (r, s) = faulty (next_fault (w_rs w)) (act (w_now w)) (w_streams w)
     in (r, w\<lparr> w_streams := s, w_rs := tl (w_rs w) \<rparr>))"

definition rt_call ::
  "(instant \<Rightarrow> (pystr \<times> fields \<times> instant) list \<Rightarrow> (exn + 'a) \<times> (pystr \<times> fields \<times> instant) list)
     \<Rightarrow> ('z, 'a) sapi" where
  "rt_call act = (\<lambda>w.
     let (r, s) = faulty (next_fault (w_rt w)) (act (w_now w)) (w_state w)
     in (r, w\<lparr> w_state := s, w_rt := tl (w_rt w) \<rparr>))"

lemma pg_call_world:
  "pg_call act w = (r, w') \<Longrightarrow>
     \<exists>d. w' = w\<lparr> w_db := d, w_pg := tl (w_pg w) \<rparr> \<and> (d = w_db w \<or> d = snd (act (w_db w)))"
  using faulty_state [of "next_fault (w_pg w)" act "w_db w"]
  by (auto simp: pg_call_def split: prod.splits)

lemma pg_call_Inr:
  "pg_call act w = (Inr x, w') \<Longrightarrow>
     \<exists>d. act (w_db w) = (Inr x, d) \<and> w' = w\<lparr> w_db := d, w_pg := tl (w_pg w) \<rparr>"
  by (auto simp: pg_call_def split: prod.splits dest: faulty_Inr)

lemma rs_call_world:
  "rs_call act w = (r, w') \<Longrightarrow>
     \<exists>s. w' = w\<lparr> w_streams := s, w_rs := tl (w_rs w) \<rparr>
       \<and> (s = w_streams w \<or> s = snd (act (w_now w) (w_streams w)))"
  using faulty_state [of "next_fault (w_rs w)" "act (w_now w)" "w_streams w"]
  by (auto simp: rs_call_def split: prod.splits)

lemma rs_call_Inr:
  "rs_call act w = (Inr x, w') \<Longrightarrow>
     \<exists>s. act (w_now w) (w_streams w) = (Inr x, s) \<and> w' = w\<lparr> w_streams := s, w_rs := tl (w_rs w) \<rparr>"
  by (auto simp: rs_call_def split: prod.splits dest: faulty_Inr)

lemma rt_call_world:
  "rt_call act w = (r, w') \<Longrightarrow>
     \<exists>s. w' = w\<lparr> w_state := s, w_rt := tl (w_rt w) \<rparr>
       \<and> (s = w_state w \<or> s = snd (act (w_now w) (w_state w)))"
  using faulty_state [of "next_fault (w_rt w)" "act (w_now w)" "w_state w"]
  by (auto simp: rt_call_def split: prod.splits)

lemma rt_call_Inr:
  "rt_call act w = (Inr x, w') \<Longrightarrow>
     \<exists>s. act (w_now w) (w_state w) = (Inr x, s) \<and> w' = w\<lparr> w_state := s, w_rt := tl (w_rt w) \<rparr>"
  by (auto simp: rt_call_def split: prod.splits dest: faulty_Inr)

end
