(* ===== verification/Sapi_Window.thy ===== *)
theory Sapi_Window
  imports Sapi_World
begin

text \<open>
  \<^verbatim>\<open>app/aggregation/sliding_window.py\<close>: merging an EntityEvent into its group's active Event or
  starting a new one, the lateness test and the time to live. Spans are compared in hours held as
  floats; the first section proves that this decides the same as the exact microseconds.
\<close>

section \<open>Hours\<close>

text \<open>\<^verbatim>\<open>delta.total_seconds() / 3600\<close>.\<close>

definition get_hours :: "int \<Rightarrow> pyfloat" where
  "get_hours delta = fdiv (fl (of_int delta / of_int us_per_second)) 3600"

lemma fl_lower: "0 \<le> x \<Longrightarrow> x * (1 - 1 / 2 ^ 53) \<le> fl x"
proof -
  assume "0 \<le> x"
  then have "\<bar>fl x - x\<bar> \<le> x / 2 ^ 53" using fl_relative_error [of x] by simp
  then have "x - x / 2 ^ 53 \<le> fl x" by linarith
  then show ?thesis by (simp add: field_simps)
qed

lemma fl_upper: "0 \<le> x \<Longrightarrow> fl x \<le> x * (1 + 1 / 2 ^ 53)"
proof -
  assume "0 \<le> x"
  then have "\<bar>fl x - x\<bar> \<le> x / 2 ^ 53" using fl_relative_error [of x] by simp
  then have "fl x \<le> x + x / 2 ^ 53" by linarith
  then show ?thesis by (simp add: field_simps)
qed

lemma get_hours_mono: "x \<le> y \<Longrightarrow> get_hours x \<le> get_hours y"
  unfolding get_hours_def fdiv_def
  by (intro fl_mono divide_right_mono) (auto intro!: fl_mono divide_right_mono simp: us_per_second_def)

lemma get_hours_exact: "0 \<le> n \<Longrightarrow> n \<le> 1000000 \<Longrightarrow> get_hours (n * us_per_hour) = of_int n"
proof -
  assume n: "0 \<le> n" "n \<le> 1000000"
  have "fl (of_int (n * 3600)) = of_int (n * 3600)" using n by (intro fl_of_int) simp
  moreover have "fl (of_int n) = of_int n" using n by (intro fl_of_int) simp
  ultimately show ?thesis by (simp add: get_hours_def fdiv_def us_defs mult.commute)
qed

lemma get_hours_nonneg: "0 \<le> x \<Longrightarrow> 0 \<le> get_hours x"
  using get_hours_mono [of 0 x] by (simp add: get_hours_def fdiv_def)

lemma get_hours_le_iff:
  assumes n: "0 \<le> n" "n \<le> 1000000"
  shows "get_hours x \<le> of_int n \<longleftrightarrow> x \<le> n * us_per_hour"
proof
  assume "x \<le> n * us_per_hour"
  then show "get_hours x \<le> of_int n" using get_hours_mono get_hours_exact [OF n] by metis
next
  assume h: "get_hours x \<le> of_int n"
  show "x \<le> n * us_per_hour"
  proof (rule ccontr)
    assume "\<not> x \<le> n * us_per_hour"
    then have "get_hours (n * us_per_hour + 1) \<le> of_int n" using h get_hours_mono [of "n * us_per_hour + 1" x] by simp
    moreover define y where "y = (of_int (n * us_per_hour + 1) / of_int us_per_second :: rat)"
    ultimately have le: "fl (fl y / 3600) \<le> of_int n" by (simp add: get_hours_def fdiv_def)
    have y0: "0 \<le> y" using n by (simp add: y_def us_defs)
    have "y * (1 - 1 / 2 ^ 53) / 3600 * (1 - 1 / 2 ^ 53) \<le> fl y / 3600 * (1 - 1 / 2 ^ 53)"
      using fl_lower [OF y0] by (intro mult_right_mono divide_right_mono) auto
    also have "\<dots> \<le> fl (fl y / 3600)" by (intro fl_lower) (simp add: fl.rnd_nonneg y0)
    finally have "y * (1 - 1 / 2 ^ 53) / 3600 * (1 - 1 / 2 ^ 53) \<le> of_int n" using le by simp
    moreover have "y = of_int n * 3600 + 1 / 1000000" by (simp add: y_def us_defs field_simps)
    moreover have "(of_int n :: rat) \<le> 1000000" using n by simp
    ultimately show False using n by (simp add: field_simps)
  qed
qed

lemma get_hours_less_iff:
  assumes n: "0 \<le> n" "n \<le> 1000000" and x0: "0 \<le> x"
  shows "get_hours x < of_int n \<longleftrightarrow> x < n * us_per_hour"
proof
  assume h: "get_hours x < of_int n"
  show "x < n * us_per_hour"
    using h get_hours_mono [of "n * us_per_hour" x] get_hours_exact [OF n] by (cases "n * us_per_hour \<le> x") auto
next
  assume x: "x < n * us_per_hour"
  show "get_hours x < of_int n"
  proof (rule ccontr)
    assume "\<not> get_hours x < of_int n"
    then have "of_int n \<le> get_hours (n * us_per_hour - 1)"
      using x get_hours_mono [of x "n * us_per_hour - 1"] by simp
    moreover define y where "y = (of_int (n * us_per_hour - 1) / of_int us_per_second :: rat)"
    ultimately have le: "of_int n \<le> fl (fl y / 3600)" by (simp add: get_hours_def fdiv_def)
    have n1: "1 \<le> n" using x x0 n by (cases "n = 0") auto
    then have y0: "0 \<le> y" by (simp add: y_def us_defs)
    have "fl (fl y / 3600) \<le> fl y / 3600 * (1 + 1 / 2 ^ 53)"
      by (intro fl_upper) (simp add: fl.rnd_nonneg y0)
    also have "\<dots> \<le> y * (1 + 1 / 2 ^ 53) / 3600 * (1 + 1 / 2 ^ 53)"
      using fl_upper [OF y0] by (intro mult_right_mono divide_right_mono) auto
    finally have "of_int n \<le> y * (1 + 1 / 2 ^ 53) / 3600 * (1 + 1 / 2 ^ 53)" using le by simp
    moreover have "y = of_int n * 3600 - 1 / 1000000" by (simp add: y_def us_defs field_simps)
    moreover have "(of_int n :: rat) \<le> 1000000" using n by simp
    ultimately show False using n by (simp add: field_simps)
  qed
qed

section \<open>Merging\<close>

definition merge_or_create ::
  "aggregation_config \<Rightarrow> event option \<Rightarrow> entity_event \<Rightarrow> ('z, event) sapi" where
  "merge_or_create cfg active entity_event =
     (if (case active of None \<Rightarrow> False | Some a \<Rightarrow> \<not> is_active_event a)
      then raise (Sapi (sapi_err SAPIError AGGREGATION))
      else if \<not> is_persistent_event entity_event
      then raise (Sapi (sapi_err SAPIError AGGREGATION))
      else
        bind (some_or_assert (get_published_at entity_event)) (\<lambda>published_at.
        bind (some_or_assert (ee_entity_event_id entity_event)) (\<lambda>entity_event_id.
        bind datetime_now (\<lambda>aggregation_updated_at.
        let create = bind uuid4 (\<lambda>event_id. ret
              \<lparr> ev_event_id = event_id,
                ev_exchange = st_exchange (ee_stock entity_event),
                ev_stock_code = st_stock_code (ee_stock entity_event),
                ev_event_type_primary = ao_event_type_primary (v_output (ee_analysis_outcome entity_event)),
                ev_first_seen_at = published_at,
                ev_last_seen_at = published_at,
                ev_event_type_secondary = None, ev_source_list = None,
                ev_aggregation_updated_at = Some aggregation_updated_at,
                ev_updated_at = None, ev_created_at = None,
                ev_entity_event_ids = Some [entity_event_id] \<rparr>)
        in case active of
             None \<Rightarrow> create
           | Some a \<Rightarrow>
               let gap_hours = get_hours \<bar>published_at - ev_last_seen_at a\<bar>;
                   span_hours = get_hours (max published_at (ev_last_seen_at a)
                                           - min published_at (ev_first_seen_at a));
                   remaining_lifespan_hours =
                     fsub (of_int (agg_event_max_timespan_hours cfg)) span_hours
               in if gap_hours \<le> of_int (agg_sliding_window_hours cfg) \<and> 0 < remaining_lifespan_hours
                  then bind (some_or_assert (ev_entity_event_ids a)) (\<lambda>ids. ret
                    \<lparr> ev_event_id = ev_event_id a,
                      ev_exchange = ev_exchange a,
                      ev_stock_code = ev_stock_code a,
                      ev_event_type_primary = ev_event_type_primary a,
                      ev_first_seen_at = min (ev_first_seen_at a) published_at,
                      ev_last_seen_at = max (ev_last_seen_at a) published_at,
                      ev_event_type_secondary = None, ev_source_list = None,
                      ev_aggregation_updated_at = Some aggregation_updated_at,
                      ev_updated_at = None, ev_created_at = None,
                      ev_entity_event_ids = Some (ids @ [entity_event_id]) \<rparr>)
                  else create))))"

text \<open>\<^verbatim>\<open>is_late\<close>; None is the failed assertion on an EntityEvent without a date.\<close>

definition is_late :: "aggregation_config \<Rightarrow> event \<Rightarrow> entity_event \<Rightarrow> bool option" where
  "is_late cfg a entity_event =
     map_option (\<lambda>published_at.
       of_int (agg_sliding_window_hours cfg) < get_hours (ev_last_seen_at a - published_at))
       (get_published_at entity_event)"

text \<open>\<^verbatim>\<open>ttl_for\<close>: \<^verbatim>\<open>min\<close> gives its first argument, an integer, unless the second is smaller.\<close>

definition ttl_for :: "aggregation_config \<Rightarrow> event \<Rightarrow> int" where
  "ttl_for cfg a =
     (let span_hours = get_hours (ev_last_seen_at a - ev_first_seen_at a);
          remaining = fsub (of_int (agg_event_max_timespan_hours cfg)) span_hours;
          grace_s = 2 * agg_db_flush_interval_s cfg;
          window = agg_sliding_window_hours cfg
      in (if remaining < of_int window then py_trunc (fmul remaining 3600) else window * 3600) + grace_s)"

section \<open>What merging does\<close>

text \<open>The configurations the float comparison is exact for; the defaults are 4 and 24 hours.\<close>

definition window_config_ok :: "aggregation_config \<Rightarrow> bool" where
  "window_config_ok cfg \<longleftrightarrow>
     0 \<le> agg_sliding_window_hours cfg \<and> agg_sliding_window_hours cfg \<le> 1000000
     \<and> 1 \<le> agg_event_max_timespan_hours cfg \<and> agg_event_max_timespan_hours cfg \<le> 1000000
     \<and> 1 \<le> agg_db_flush_interval_s cfg"

definition in_window :: "aggregation_config \<Rightarrow> event \<Rightarrow> instant \<Rightarrow> bool" where
  "in_window cfg a p \<longleftrightarrow>
     \<bar>p - ev_last_seen_at a\<bar> \<le> agg_sliding_window_hours cfg * us_per_hour
     \<and> max p (ev_last_seen_at a) - min p (ev_first_seen_at a) < agg_event_max_timespan_hours cfg * us_per_hour"

definition merged_event :: "event \<Rightarrow> instant \<Rightarrow> uuid \<Rightarrow> instant \<Rightarrow> event" where
  "merged_event a p i t =
     \<lparr> ev_event_id = ev_event_id a, ev_exchange = ev_exchange a, ev_stock_code = ev_stock_code a,
       ev_event_type_primary = ev_event_type_primary a,
       ev_first_seen_at = min (ev_first_seen_at a) p, ev_last_seen_at = max (ev_last_seen_at a) p,
       ev_event_type_secondary = None, ev_source_list = None, ev_aggregation_updated_at = Some t,
       ev_updated_at = None, ev_created_at = None,
       ev_entity_event_ids = Some (the (ev_entity_event_ids a) @ [i]) \<rparr>"

definition created_event :: "entity_event \<Rightarrow> instant \<Rightarrow> uuid \<Rightarrow> instant \<Rightarrow> uuid \<Rightarrow> event" where
  "created_event e p i t eid =
     \<lparr> ev_event_id = eid, ev_exchange = st_exchange (ee_stock e),
       ev_stock_code = st_stock_code (ee_stock e),
       ev_event_type_primary = ao_event_type_primary (v_output (ee_analysis_outcome e)),
       ev_first_seen_at = p, ev_last_seen_at = p,
       ev_event_type_secondary = None, ev_source_list = None, ev_aggregation_updated_at = Some t,
       ev_updated_at = None, ev_created_at = None, ev_entity_event_ids = Some [i] \<rparr>"

lemma active_ids: "is_active_event a \<Longrightarrow> \<exists>ids. ev_entity_event_ids a = Some ids \<and> ids \<noteq> []"
  by (auto simp: is_active_event_def split: option.splits)

lemma remaining_pos: "0 < fsub (of_int n) x \<longleftrightarrow> x < of_int n"
  by (simp add: fsub_def fl_gt_0_iff)

lemma window_decision:
  assumes c: "window_config_ok cfg" and o: "ev_first_seen_at a \<le> ev_last_seen_at a"
  shows "get_hours \<bar>p - ev_last_seen_at a\<bar> \<le> of_int (agg_sliding_window_hours cfg)
      \<and> 0 < fsub (of_int (agg_event_max_timespan_hours cfg))
              (get_hours (max p (ev_last_seen_at a) - min p (ev_first_seen_at a)))
    \<longleftrightarrow> in_window cfg a p"
  using c o get_hours_le_iff [of "agg_sliding_window_hours cfg"]
    get_hours_less_iff [of "agg_event_max_timespan_hours cfg"
      "max p (ev_last_seen_at a) - min p (ev_first_seen_at a)"]
  by (auto simp: remaining_pos in_window_def window_config_ok_def)

text \<open>The whole result of a merge: the time it reads, the Event extended or the Event started.\<close>

lemma merge_or_create_run:
  assumes c: "window_config_ok cfg" and e: "is_persistent_event e"
    and a: "\<And>a. active = Some a \<Longrightarrow> is_active_event a \<and> ev_first_seen_at a \<le> ev_last_seen_at a"
  obtains p i t w1 where "get_published_at e = Some p" and "ee_entity_event_id e = Some i"
    and "datetime_now w = (Inr t, w1)"
    and "merge_or_create cfg active e w =
      (case active of
         Some a \<Rightarrow> if in_window cfg a p then (Inr (merged_event a p i t), w1)
           else (Inr (created_event e p i t (w_next_uuid w1)), w1\<lparr> w_next_uuid := Suc (w_next_uuid w1) \<rparr>)
       | None \<Rightarrow> (Inr (created_event e p i t (w_next_uuid w1)), w1\<lparr> w_next_uuid := Suc (w_next_uuid w1) \<rparr>))"
proof -
  obtain p i where p: "get_published_at e = Some p" and i: "ee_entity_event_id e = Some i"
    using e persistent_published [OF e] by (auto simp: is_persistent_event_def)
  obtain t w1 where t: "datetime_now w = (Inr t, w1)" by (auto simp: datetime_now_def Let_def)
  show thesis
  proof (rule that [OF p i t])
    show "merge_or_create cfg active e w =
      (case active of
         Some a \<Rightarrow> if in_window cfg a p then (Inr (merged_event a p i t), w1)
           else (Inr (created_event e p i t (w_next_uuid w1)), w1\<lparr> w_next_uuid := Suc (w_next_uuid w1) \<rparr>)
       | None \<Rightarrow> (Inr (created_event e p i t (w_next_uuid w1)), w1\<lparr> w_next_uuid := Suc (w_next_uuid w1) \<rparr>))"
    proof (cases active)
      case None
      with e p i t show ?thesis
        by (simp add: merge_or_create_def some_or_assert_def bind_def [of datetime_now] created_event_def)
          (simp add: bind_def uuid4_def ret_def)
    next
      case (Some x)
      then have ax: "is_active_event x" "ev_first_seen_at x \<le> ev_last_seen_at x" using a by auto
      obtain ids where ids: "ev_entity_event_ids x = Some ids" using active_ids [OF ax(1)] by blast
      from Some ax e p i t ids window_decision [OF c ax(2), of p] show ?thesis
        by (simp add: merge_or_create_def some_or_assert_def bind_def [of datetime_now] Let_def)
          (simp add: bind_def uuid4_def ret_def merged_event_def created_event_def)
    qed
  qed
qed

text \<open>The errors.\<close>

lemma merge_or_create_rejects:
  "\<not> is_persistent_event e \<or> (\<exists>a. active = Some a \<and> \<not> is_active_event a) \<Longrightarrow>
     merge_or_create cfg active e w = (Inl (Sapi (sapi_err SAPIError AGGREGATION)), w)"
  by (auto simp: merge_or_create_def raise_def split: option.splits)

section \<open>Well-formed active Events\<close>

definition event_wf :: "aggregation_config \<Rightarrow> event \<Rightarrow> bool" where
  "event_wf cfg e \<longleftrightarrow>
     is_active_event e \<and> ev_aggregation_updated_at e \<noteq> None
     \<and> ev_first_seen_at e \<le> ev_last_seen_at e
     \<and> ev_last_seen_at e - ev_first_seen_at e < agg_event_max_timespan_hours cfg * us_per_hour"

lemma merged_event_wf:
  "in_window cfg a p \<Longrightarrow> ev_first_seen_at a \<le> ev_last_seen_at a \<Longrightarrow> event_wf cfg (merged_event a p i t)"
  by (auto simp: event_wf_def merged_event_def is_active_event_def in_window_def max.commute min.commute)

lemma created_event_wf: "window_config_ok cfg \<Longrightarrow> event_wf cfg (created_event e p i t eid)"
  by (simp add: event_wf_def created_event_def is_active_event_def window_config_ok_def us_defs)

lemma merge_or_create_result:
  assumes c: "window_config_ok cfg" and e: "is_persistent_event e"
    and a: "\<And>a. active = Some a \<Longrightarrow> is_active_event a \<and> ev_first_seen_at a \<le> ev_last_seen_at a"
    and m: "merge_or_create cfg active e w = (Inr ev, w')"
  shows "\<exists>p i t. get_published_at e = Some p \<and> ee_entity_event_id e = Some i \<and> w_now w \<le> t \<and>
     ((\<exists>a. active = Some a \<and> in_window cfg a p \<and> ev = merged_event a p i t)
      \<or> (\<forall>a. active = Some a \<longrightarrow> \<not> in_window cfg a p) \<and> ev = created_event e p i t (w_next_uuid w))"
proof (rule merge_or_create_run [of cfg e active w])
  show "window_config_ok cfg" "is_persistent_event e" by fact+
  show "is_active_event x \<and> ev_first_seen_at x \<le> ev_last_seen_at x" if "active = Some x" for x
    using that by (rule a)
next
  fix p i t w1
  assume p: "get_published_at e = Some p" and i: "ee_entity_event_id e = Some i"
    and t: "datetime_now w = (Inr t, w1)"
    and r: "merge_or_create cfg active e w =
      (case active of
         Some a \<Rightarrow> if in_window cfg a p then (Inr (merged_event a p i t), w1)
           else (Inr (created_event e p i t (w_next_uuid w1)), w1\<lparr> w_next_uuid := Suc (w_next_uuid w1) \<rparr>)
       | None \<Rightarrow> (Inr (created_event e p i t (w_next_uuid w1)), w1\<lparr> w_next_uuid := Suc (w_next_uuid w1) \<rparr>))"
  have n: "w_next_uuid w1 = w_next_uuid w" "w_now w \<le> t"
    using t by (auto simp: datetime_now_def Let_def split: list.splits)
  show ?thesis
  proof (intro exI conjI)
    show "(\<exists>a. active = Some a \<and> in_window cfg a p \<and> ev = merged_event a p i t)
      \<or> (\<forall>a. active = Some a \<longrightarrow> \<not> in_window cfg a p) \<and> ev = created_event e p i t (w_next_uuid w)"
      using m unfolding r by (cases active) (simp_all add: n split: if_splits)
  qed (rule p, rule i, rule n)
qed

lemma merge_or_create_wf:
  assumes c: "window_config_ok cfg" and e: "is_persistent_event e"
    and a: "\<And>a. active = Some a \<Longrightarrow> event_wf cfg a"
    and m: "merge_or_create cfg active e w = (Inr ev, w')"
  shows "event_wf cfg ev"
proof -
  have a': "is_active_event x \<and> ev_first_seen_at x \<le> ev_last_seen_at x" if "active = Some x" for x
    using a [OF that] by (simp add: event_wf_def)
  from merge_or_create_result [OF c e a' m] show ?thesis
    using a' created_event_wf [OF c] merged_event_wf [of cfg] by blast
qed

section \<open>Time to live\<close>

lemma ttl_bounds:
  assumes c: "window_config_ok cfg" and e: "event_wf cfg a"
  shows "2 * agg_db_flush_interval_s cfg \<le> ttl_for cfg a"
    and "ttl_for cfg a \<le> agg_sliding_window_hours cfg * 3600 + 2 * agg_db_flush_interval_s cfg"
proof -
  let ?n = "agg_event_max_timespan_hours cfg" and ?win = "agg_sliding_window_hours cfg"
  let ?d = "ev_last_seen_at a - ev_first_seen_at a"
  define rem where "rem = fsub (of_int ?n) (get_hours ?d)"
  have n: "0 \<le> ?n" "?n \<le> 1000000" and d: "0 \<le> ?d" "?d < ?n * us_per_hour" and wn: "0 \<le> ?win" "?win \<le> 1000000"
    using c e by (auto simp: window_config_ok_def event_wf_def)
  have r0: "0 < rem" using get_hours_less_iff [OF n d(1)] d by (simp add: rem_def remaining_pos)
  then have p0: "0 \<le> fmul rem 3600" by (simp add: fmul_def fl.rnd_nonneg)
  have up: "py_trunc (fmul rem 3600) \<le> ?win * 3600" if "rem < of_int ?win"
  proof -
    have "fmul rem 3600 \<le> fl (of_int (?win * 3600))"
      unfolding fmul_def using that by (intro fl_mono) simp
    also have "\<dots> = of_int (?win * 3600)" using wn by (intro fl_of_int) simp
    finally have "\<lfloor>fmul rem 3600\<rfloor> \<le> ?win * 3600" by (simp add: floor_le_iff)
    then show ?thesis using p0 by (simp add: py_trunc_def)
  qed
  have "0 \<le> py_trunc (fmul rem 3600)" using p0 by (simp add: py_trunc_def)
  then show "2 * agg_db_flush_interval_s cfg \<le> ttl_for cfg a"
    using wn by (simp add: ttl_for_def rem_def [symmetric] Let_def)
  show "ttl_for cfg a \<le> ?win * 3600 + 2 * agg_db_flush_interval_s cfg"
    using up by (simp add: ttl_for_def rem_def [symmetric] Let_def)
qed

end
