(* ===== verification/Sapi_Event_Store.thy ===== *)
theory Sapi_Event_Store
  imports Sapi_World
begin

text \<open>
  \<^verbatim>\<open>app/redis/state_client.py\<close> and \<^verbatim>\<open>app/aggregation/event_aggregation_store.py\<close>: the hashes of
  the state Redis with their expiry, and each group's active Event stored as one of them. The
  last section states the store as a map from groups to Events and interprets it.
\<close>

section \<open>The state client\<close>

type_synonym hashes = "(pystr \<times> fields \<times> instant) list"

text \<open>A key whose time has come is gone.\<close>

definition live_hash :: "instant \<Rightarrow> hashes \<Rightarrow> pystr \<Rightarrow> fields option" where
  "live_hash now hs key = (case map_of hs key of
       None \<Rightarrow> None
     | Some (fs, expiry) \<Rightarrow> if now < expiry then Some fs else None)"

definition put_fields :: "fields \<Rightarrow> fields \<Rightarrow> fields" where
  "put_fields new old = fold (\<lambda>(k, v). al_put k v) new old"

text \<open>\<^verbatim>\<open>HSET key ...; EXPIRE key ttl\<close>; a time to live that is not positive deletes the key.\<close>

definition hset_expire :: "pystr \<Rightarrow> fields \<Rightarrow> int \<Rightarrow> instant \<Rightarrow> hashes \<Rightarrow> hashes" where
  "hset_expire key fs ttl_s now hs =
     (let old = (case live_hash now hs key of None \<Rightarrow> [] | Some f \<Rightarrow> f)
      in if 0 < ttl_s then al_put key (put_fields fs old, now + ttl_s * us_per_second) hs
         else al_pop key hs)"

text \<open>\<^verbatim>\<open>hgetall\<close>: \<^verbatim>\<open>fields or None\<close>.\<close>

definition hgetall :: "pystr \<Rightarrow> ('z, fields option) sapi" where
  "hgetall key = bind (rt_call (\<lambda>now hs. (Inr (live_hash now hs key), hs)))
     (\<lambda>r. ret (case r of None \<Rightarrow> None | Some fs \<Rightarrow> if fs = [] then None else Some fs))"

text \<open>\<^verbatim>\<open>scan\<close> of a prefix pattern: SCAN's own order and repetitions, each key kept once.\<close>

definition scan_prefix :: "pystr \<Rightarrow> ('z, pystr list) sapi" where
  "scan_prefix p =
     bind (get_w w_scan) (\<lambda>order.
     bind (rt_call (\<lambda>now hs. (Inr (filter (\<lambda>k. py_startswith k p \<and> live_hash now hs k \<noteq> None)
                                     (map fst hs)), hs))) (\<lambda>ks.
     ret (py_fromkeys (order ks))))"

definition multi_exec :: "(instant \<Rightarrow> hashes \<Rightarrow> hashes) \<Rightarrow> ('z, unit) sapi" where
  "multi_exec build = rt_call (\<lambda>now hs. (Inr (), build now hs))"

definition state_ping :: "('z, unit) sapi" where
  "state_ping = rt_call (\<lambda>_ hs. (Inr (), hs))"

section \<open>The store of active Events\<close>

definition get_key :: "pystr \<Rightarrow> pystr \<Rightarrow> event_type \<Rightarrow> pystr" where
  "get_key exchange stock_code et =
     u ''agg:event:'' @ exchange @ u '':'' @ stock_code @ u '':'' @ event_type_str et"

text \<open>\<^verbatim>\<open>_decode\<close>: a missing field is a KeyError, a text that does not parse a ValueError.\<close>

definition field :: "fields \<Rightarrow> string \<Rightarrow> pystr res" where
  "field fs name = (case map_of fs (u name) of None \<Rightarrow> Inl (Py KeyError) | Some v \<Rightarrow> Inr v)"

definition parsed :: "'a option \<Rightarrow> 'a res" where
  "parsed x = (case x of None \<Rightarrow> Inl (Py ValueError) | Some y \<Rightarrow> Inr y)"

definition decode_event :: "pystr \<Rightarrow> pystr \<Rightarrow> event_type \<Rightarrow> fields \<Rightarrow> event res" where
  "decode_event exchange stock_code et fs =
     rbind (rbind (field fs ''event_id'') (\<lambda>t. parsed (parse_uuid t))) (\<lambda>i.
     rbind (rbind (field fs ''first_seen_at'') (\<lambda>t. parsed (fromisoformat t))) (\<lambda>first.
     rbind (rbind (field fs ''last_seen_at'') (\<lambda>t. parsed (fromisoformat t))) (\<lambda>last.
     rbind (rbind (field fs ''aggregation_updated_at'') (\<lambda>t. parsed (fromisoformat t))) (\<lambda>upd.
     rbind (rbind (field fs ''entity_event_ids'') (\<lambda>t.
              parsed (Option.bind (json_loads_strs t) (map_opt parse_uuid)))) (\<lambda>ids.
     Inr \<lparr> ev_event_id = i, ev_exchange = exchange, ev_stock_code = stock_code,
           ev_event_type_primary = et, ev_first_seen_at = first, ev_last_seen_at = last,
           ev_event_type_secondary = None, ev_source_list = None,
           ev_aggregation_updated_at = Some upd, ev_updated_at = None, ev_created_at = None,
           ev_entity_event_ids = Some ids \<rparr>)))))"

definition get_active_event :: "pystr \<Rightarrow> pystr \<Rightarrow> event_type \<Rightarrow> ('z, event option) sapi" where
  "get_active_event exchange stock_code et =
     bind (hgetall (get_key exchange stock_code et)) (\<lambda>r.
     case r of
       None \<Rightarrow> ret None
     | Some fs \<Rightarrow> bind (of_sum (decode_event exchange stock_code et fs)) (\<lambda>e. ret (Some e)))"

definition encode_event :: "event \<Rightarrow> instant \<Rightarrow> uuid list \<Rightarrow> fields" where
  "encode_event e upd ids =
     [(u ''event_id'', uuid_str (ev_event_id e)),
      (u ''first_seen_at'', isoformat (ev_first_seen_at e)),
      (u ''last_seen_at'', isoformat (ev_last_seen_at e)),
      (u ''aggregation_updated_at'', isoformat upd),
      (u ''entity_event_ids'', json_dumps_strs (map uuid_str ids))]"

definition upsert_active_event :: "event \<Rightarrow> int \<Rightarrow> ('z, unit) sapi" where
  "upsert_active_event e ttl_s =
     bind (some_or_assert (ev_aggregation_updated_at e)) (\<lambda>upd.
     bind (some_or_assert (ev_entity_event_ids e)) (\<lambda>ids.
     multi_exec (hset_expire (get_key (ev_exchange e) (ev_stock_code e) (ev_event_type_primary e))
                   (encode_event e upd ids) ttl_s)))"

text \<open>The unpacking of \<^verbatim>\<open>key.split(":")\<close> into five parts.\<close>

definition decode_key :: "pystr \<Rightarrow> (pystr \<times> pystr \<times> event_type) res" where
  "decode_key key =
     (case py_split_on 58 key of
        [_, _, exchange, stock_code, t] \<Rightarrow>
          (case event_type_of_str t of
             None \<Rightarrow> Inl (Py ValueError) | Some et \<Rightarrow> Inr (exchange, stock_code, et))
      | _ \<Rightarrow> Inl (Py ValueError))"

definition scan_all :: "('z, event list) sapi" where
  "scan_all =
     bind (scan_prefix (u ''agg:event:'')) (fold_io (\<lambda>acc key.
       bind (hgetall key) (\<lambda>r.
       case r of
         None \<Rightarrow> ret acc
       | Some fs \<Rightarrow>
           bind (of_sum (decode_key key)) (\<lambda>(exchange, stock_code, et).
           bind (of_sum (decode_event exchange stock_code et fs)) (\<lambda>e.
           ret (acc @ [e]))))) [])"

section \<open>Round trips\<close>

text \<open>What an active Event of the store looks like: only the merge state.\<close>

definition storable :: "event \<Rightarrow> bool" where
  "storable e \<longleftrightarrow>
     valid_uuid (ev_event_id e) \<and> valid_instant (ev_first_seen_at e) \<and> valid_instant (ev_last_seen_at e)
     \<and> (\<exists>upd ids. ev_aggregation_updated_at e = Some upd \<and> valid_instant upd
          \<and> ev_entity_event_ids e = Some ids \<and> (\<forall>i \<in> set ids. valid_uuid i))
     \<and> ev_event_type_secondary e = None \<and> ev_source_list e = None \<and> ev_updated_at e = None
     \<and> ev_created_at e = None"

lemma map_of_put_fields:
  "distinct (map fst new) \<Longrightarrow> map_of (put_fields new old) = map_of old ++ map_of new"
proof (induction new arbitrary: old)
  case (Cons p new)
  obtain k v where p: "p = (k, v)" by (cases p)
  with Cons have "map_of (put_fields new (al_put k v old)) = (map_of old)(k \<mapsto> v) ++ map_of new"
    by simp
  moreover have "k \<notin> dom (map_of new)" using Cons.prems p by (simp add: dom_map_of_conv_image_fst)
  ultimately show ?case
    by (auto simp: put_fields_def p fun_eq_iff map_add_def split: option.splits)
qed (simp add: put_fields_def)

lemma decode_encode:
  assumes s: "storable e" and upd: "ev_aggregation_updated_at e = Some upd"
    and ids: "ev_entity_event_ids e = Some ids"
  shows "decode_event (ev_exchange e) (ev_stock_code e) (ev_event_type_primary e)
           (put_fields (encode_event e upd ids) old) = Inr e"
proof -
  define fs where "fs = put_fields (encode_event e upd ids) old"
  have d: "distinct (map fst (encode_event e upd ids))" by (simp add: encode_event_def)
  have f: "field fs ''event_id'' = Inr (uuid_str (ev_event_id e))"
    "field fs ''first_seen_at'' = Inr (isoformat (ev_first_seen_at e))"
    "field fs ''last_seen_at'' = Inr (isoformat (ev_last_seen_at e))"
    "field fs ''aggregation_updated_at'' = Inr (isoformat upd)"
    "field fs ''entity_event_ids'' = Inr (json_dumps_strs (map uuid_str ids))"
    by (simp_all add: fs_def field_def map_of_put_fields [OF d]) (simp_all add: encode_event_def)
  have v: "parse_uuid (uuid_str (ev_event_id e)) = Some (ev_event_id e)"
    "fromisoformat (isoformat (ev_first_seen_at e)) = Some (ev_first_seen_at e)"
    "fromisoformat (isoformat (ev_last_seen_at e)) = Some (ev_last_seen_at e)"
    "fromisoformat (isoformat upd) = Some upd"
    "Option.bind (json_loads_strs (json_dumps_strs (map uuid_str ids))) (map_opt parse_uuid) = Some ids"
    using s upd ids
    by (auto simp: storable_def intro: uuid_codec.dec_enc iso_codec.dec_enc uuid_codec.json_list)
  have "decode_event (ev_exchange e) (ev_stock_code e) (ev_event_type_primary e) fs = Inr e"
    by (simp only: decode_event_def f v parsed_def rbind.simps option.case)
      (use s upd ids in \<open>cases e, simp add: storable_def\<close>)
  then show ?thesis by (simp add: fs_def)
qed

text \<open>A text without a colon can be a component of a key.\<close>

definition key_part :: "pystr \<Rightarrow> bool" where
  "key_part s \<longleftrightarrow> 58 \<notin> set s"

lemma get_key_join:
  "get_key x c et = py_join [58] [u ''agg'', u ''event'', x, c, event_type_str et]"
  by (simp add: get_key_def u_def)

lemma decode_get_key: "key_part x \<Longrightarrow> key_part c \<Longrightarrow> decode_key (get_key x c et) = Inr (x, c, et)"
  unfolding decode_key_def get_key_join
  by (subst py_split_join) (auto simp: key_part_def event_type_str_no_colon u_def)

lemma get_key_inj:
  "key_part x \<Longrightarrow> key_part c \<Longrightarrow> key_part x' \<Longrightarrow> key_part c' \<Longrightarrow>
     get_key x c et = get_key x' c' et' \<longleftrightarrow> x = x' \<and> c = c' \<and> et = et'"
  by (metis decode_get_key prod.inject sum.inject(2))

section \<open>The store as a map from groups to Events\<close>

text \<open>A map whose entries live for a limited time.\<close>

locale expiring_map =
  fixes lookup :: "'k \<Rightarrow> instant \<Rightarrow> 's \<Rightarrow> 'v option"
    and store :: "'k \<Rightarrow> 'v \<Rightarrow> int \<Rightarrow> instant \<Rightarrow> 's \<Rightarrow> 's"
    and ok :: "'k \<Rightarrow> 'v \<Rightarrow> bool" and ok_key :: "'k \<Rightarrow> bool"
  assumes lookup_store: "ok k v \<Longrightarrow> t < now + ttl * us_per_second \<Longrightarrow> now \<le> t \<Longrightarrow>
      lookup k t (store k v ttl now s) = Some v"
    and lookup_expired: "now + ttl * us_per_second \<le> t \<Longrightarrow> lookup k t (store k v ttl now s) = None"
    and lookup_other: "ok_key k \<Longrightarrow> ok_key k' \<Longrightarrow> k' \<noteq> k \<Longrightarrow>
      lookup k' t (store k v ttl now s) = lookup k' t s"
begin

text \<open>Writes to other keys do not reach a key's value.\<close>

lemma lookup_writes:
  "ok_key k \<Longrightarrow> \<forall>(k', v, ttl, now) \<in> set ws. ok_key k' \<and> k' \<noteq> k \<Longrightarrow>
     lookup k t (fold (\<lambda>(k', v, ttl, now). store k' v ttl now) ws s) = lookup k t s"
  by (induction ws arbitrary: s) (auto simp: lookup_other)

lemma last_write_wins:
  "ok_key k \<Longrightarrow> ok k v \<Longrightarrow> t < now + ttl * us_per_second \<Longrightarrow> now \<le> t \<Longrightarrow>
     \<forall>(k', v, ttl, now) \<in> set ws. ok_key k' \<and> k' \<noteq> k \<Longrightarrow>
     lookup k t (fold (\<lambda>(k', v, ttl, now). store k' v ttl now) ws (store k v ttl now s)) = Some v"
  by (simp add: lookup_writes lookup_store)

end

type_synonym group_id = "pystr \<times> pystr \<times> event_type"

definition lookup_event :: "group_id \<Rightarrow> instant \<Rightarrow> hashes \<Rightarrow> event option" where
  "lookup_event g now hs =
     (case g of (x, c, et) \<Rightarrow>
        case live_hash now hs (get_key x c et) of
          None \<Rightarrow> None
        | Some fs \<Rightarrow> (case decode_event x c et fs of Inl _ \<Rightarrow> None | Inr e \<Rightarrow> Some e))"

definition store_event :: "group_id \<Rightarrow> event \<Rightarrow> int \<Rightarrow> instant \<Rightarrow> hashes \<Rightarrow> hashes" where
  "store_event g e ttl_s now hs =
     (case g of (x, c, et) \<Rightarrow>
        hset_expire (get_key x c et)
          (encode_event e (the (ev_aggregation_updated_at e)) (the (ev_entity_event_ids e))) ttl_s now hs)"

definition group_of_event :: "event \<Rightarrow> group_id" where
  "group_of_event e = (ev_exchange e, ev_stock_code e, ev_event_type_primary e)"

definition ok_group :: "group_id \<Rightarrow> bool" where
  "ok_group g = (case g of (x, c, et) \<Rightarrow> key_part x \<and> key_part c)"

lemma live_hset:
  "live_hash t (hset_expire k fs ttl now hs) k =
     (if 0 < ttl \<and> t < now + ttl * us_per_second
      then Some (put_fields fs (case live_hash now hs k of None \<Rightarrow> [] | Some f \<Rightarrow> f)) else None)"
  by (simp add: live_hash_def hset_expire_def Let_def)

lemma live_hset_other: "k' \<noteq> k \<Longrightarrow> live_hash t (hset_expire k fs ttl now hs) k' = live_hash t hs k'"
  by (simp add: live_hash_def hset_expire_def Let_def)

interpretation active_events: expiring_map lookup_event store_event
  "\<lambda>g e. storable e \<and> g = group_of_event e" ok_group
proof
  fix g e ttl and now t :: instant and hs
  assume ok: "storable e \<and> g = group_of_event e" and t: "t < now + ttl * us_per_second" "now \<le> t"
  then have ttl: "0 < ttl" by (auto simp: us_per_second_def)
  obtain upd ids where ev: "ev_aggregation_updated_at e = Some upd" "ev_entity_event_ids e = Some ids"
    using ok by (auto simp: storable_def)
  from ok ttl t show "lookup_event g t (store_event g e ttl now hs) = Some e"
    using decode_encode [OF _ ev] by (simp add: lookup_event_def store_event_def group_of_event_def live_hset ev)
next
  fix g e ttl and now t :: instant and hs
  assume "now + ttl * us_per_second \<le> t"
  then show "lookup_event g t (store_event g e ttl now hs) = None"
    by (auto simp: lookup_event_def store_event_def live_hset split: prod.splits)
next
  fix g g' :: group_id and e ttl and now t :: instant and hs
  assume "ok_group g" "ok_group g'" "g' \<noteq> g"
  then show "lookup_event g' t (store_event g e ttl now hs) = lookup_event g' t hs"
    by (auto simp: lookup_event_def store_event_def ok_group_def live_hset_other get_key_inj split: prod.splits)
qed

section \<open>The operations in the world\<close>

definition rt_frame :: "'z world_scheme \<Rightarrow> 'z world_scheme \<Rightarrow> bool" where
  "rt_frame w w' \<longleftrightarrow>
     w_now w' = w_now w \<and> w_ticks w' = w_ticks w \<and> w_next_uuid w' = w_next_uuid w \<and> w_db w' = w_db w
     \<and> w_pg w' = w_pg w \<and> w_streams w' = w_streams w \<and> w_rs w' = w_rs w \<and> w_scan w' = w_scan w
     \<and> world.more w' = world.more w"

interpretation rt_frame: monotone_io rt_frame
  by unfold_locales (auto simp: rt_frame_def)

lemma rt_call_frame: "always rt_frame (rt_call act)"
  by (rule alwaysI) (auto dest!: rt_call_world simp: rt_frame_def)

lemma hgetall_frame: "always rt_frame (hgetall key)"
  unfolding hgetall_def by (intro rt_frame.always_intros rt_call_frame)

lemma get_active_event_frame: "always rt_frame (get_active_event x c et)"
  unfolding get_active_event_def
  by (intro rt_frame.always_bind hgetall_frame) (auto split: option.splits intro!: rt_frame.always_intros)

lemma upsert_active_event_frame: "always rt_frame (upsert_active_event e ttl)"
  unfolding upsert_active_event_def some_or_assert_def multi_exec_def
  by (intro rt_frame.always_bind) (auto split: option.splits intro!: rt_frame.always_intros rt_call_frame)

lemma scan_all_frame: "always rt_frame scan_all"
  unfolding scan_all_def scan_prefix_def
  by (intro rt_frame.always_intros rt_call_frame hgetall_frame)
    (auto split: option.splits prod.splits intro!: rt_frame.always_intros)

text \<open>Relations that do not look at what a state operation changes.\<close>

locale rt_blind = monotone_io R for R :: "'z world_scheme \<Rightarrow> 'z world_scheme \<Rightarrow> bool" +
  assumes rt_blind: "rt_frame w w' \<Longrightarrow> R w w'"
begin

lemma always_rt_frame: "always rt_frame m \<Longrightarrow> always R m"
  unfolding always_def using rt_blind by blast

lemma always_rt:
  "always R (get_active_event x c et)" "always R (upsert_active_event e ttl)" "always R scan_all"
  by (intro always_rt_frame get_active_event_frame upsert_active_event_frame scan_all_frame)+

end

text \<open>Reads leave the hashes as they are.\<close>

definition same_state :: "'z world_scheme \<Rightarrow> 'z world_scheme \<Rightarrow> bool" where
  "same_state w w' \<longleftrightarrow> w_state w' = w_state w"

interpretation same_state: monotone_io same_state
  by unfold_locales (auto simp: same_state_def)

lemma rt_read_state: "(\<And>t hs. snd (act t hs) = hs) \<Longrightarrow> always same_state (rt_call act)"
  by (rule alwaysI) (use rt_call_world in \<open>fastforce simp: same_state_def\<close>)

lemma hgetall_state: "always same_state (hgetall key)"
  unfolding hgetall_def by (intro same_state.always_intros rt_read_state) simp

lemma get_active_event_state: "always same_state (get_active_event x c et)"
  unfolding get_active_event_def
  by (intro same_state.always_bind hgetall_state) (auto split: option.splits intro!: same_state.always_intros)

lemma scan_all_state: "always same_state scan_all"
  unfolding scan_all_def scan_prefix_def
  by (intro same_state.always_intros rt_read_state hgetall_state)
    (auto split: option.splits prod.splits intro!: same_state.always_intros)

text \<open>A read that succeeds returns the group's live Event, if there is one.\<close>

lemma hgetall_Inr:
  "hgetall key w = (Inr r, w') \<Longrightarrow>
     r = (case live_hash (w_now w) (w_state w) key of None \<Rightarrow> None | Some fs \<Rightarrow> if fs = [] then None else Some fs)"
proof -
  assume "hgetall key w = (Inr r, w')"
  then obtain x w1 where c: "rt_call (\<lambda>now hs. (Inr (live_hash now hs key), hs)) w = (Inr x, w1)"
    and r: "r = (case x of None \<Rightarrow> None | Some fs \<Rightarrow> if fs = [] then None else Some fs)"
    by (auto simp: hgetall_def bind_eq_Inr)
  from rt_call_Inr [OF c] have "x = live_hash (w_now w) (w_state w) key" by auto
  with r show ?thesis by simp
qed

lemma get_active_event_lookup:
  assumes "get_active_event x c et w = (Inr r, w')"
  shows "r = lookup_event (x, c, et) (w_now w) (w_state w)
     \<or> r = None \<and> live_hash (w_now w) (w_state w) (get_key x c et) = Some []"
proof -
  obtain q w1 where q: "hgetall (get_key x c et) w = (Inr q, w1)"
    using assms by (auto simp: get_active_event_def bind_eq_Inr)
  show ?thesis
  proof (cases q)
    case None
    with assms q have "r = None" by (simp add: get_active_event_def bind_def)
    with hgetall_Inr [OF q] None show ?thesis
      by (auto simp: lookup_event_def split: option.splits if_splits)
  next
    case (Some fs)
    with assms q have "\<exists>e. decode_event x c et fs = Inr e \<and> r = Some e"
      by (cases "decode_event x c et fs") (auto simp: get_active_event_def bind_def of_sum_def)
    moreover have "live_hash (w_now w) (w_state w) (get_key x c et) = Some fs"
      using hgetall_Inr [OF q] Some by (auto split: option.splits if_splits)
    ultimately show ?thesis by (auto simp: lookup_event_def)
  qed
qed

lemma upsert_active_event_Inr:
  assumes "upsert_active_event e ttl w = (Inr x, w')"
  shows "w_state w' = store_event (group_of_event e) e ttl (w_now w) (w_state w)"
proof -
  obtain upd ids where ev: "ev_aggregation_updated_at e = Some upd" "ev_entity_event_ids e = Some ids"
    using assms by (cases "ev_aggregation_updated_at e"; cases "ev_entity_event_ids e")
      (auto simp: upsert_active_event_def some_or_assert_def)
  with assms have "rt_call (\<lambda>now hs. (Inr (), hset_expire
      (get_key (ev_exchange e) (ev_stock_code e) (ev_event_type_primary e)) (encode_event e upd ids) ttl now hs)) w
      = (Inr x, w')"
    by (simp add: upsert_active_event_def some_or_assert_def multi_exec_def)
  from rt_call_Inr [OF this] show ?thesis by (auto simp: store_event_def group_of_event_def ev)
qed

section \<open>What a scan returns\<close>

text \<open>SCAN's guarantee for keys that are there from the start to the end of the iteration: each is
  returned at least once, and nothing else is.\<close>

definition scan_complete :: "'z world_scheme \<Rightarrow> bool" where
  "scan_complete w \<longleftrightarrow> (\<forall>ks. set (w_scan w ks) = set ks)"

lemma py_join_split: "py_join [sep] (py_split_on sep s) = s"
proof (induction s)
  case (Cons c s)
  show ?case
  proof (cases "py_split_on sep s")
    case Nil
    with Cons show ?thesis by simp
  next
    case (Cons v vs)
    with Cons.IH show ?thesis by (cases vs) simp_all
  qed
qed simp

lemma py_split_parts: "w \<in> set (py_split_on sep s) \<Longrightarrow> sep \<notin> set w"
  by (induction s arbitrary: w) (auto split: if_splits list.splits)

text \<open>A key under the prefix that decodes is the key of the group it decodes to.\<close>

lemma decode_key_prefix:
  assumes p: "py_startswith key (u ''agg:event:'')" and d: "decode_key key = Inr (x, c, et)"
  shows "key = get_key x c et" and "key_part x" and "key_part c"
proof -
  obtain a b t where s: "py_split_on 58 key = [a, b, x, c, t]" and t: "event_type_of_str t = Some et"
    using d by (auto simp: decode_key_def split: list.splits option.splits)
  obtain rest where "key = u ''agg'' @ 58 # (u ''event'' @ 58 # rest)"
    using p append_take_drop_id [of "length (u ''agg:event:'')" key] by (simp add: py_startswith_def u_def) metis
  moreover have "58 \<notin> set (u ''agg'')" "58 \<notin> set (u ''event'')" by (simp_all add: u_def)
  ultimately have "py_split_on 58 key = u ''agg'' # u ''event'' # py_split_on 58 rest"
    by (simp add: py_split_on_append)
  with s have ab: "a = u ''agg''" "b = u ''event''" by simp_all
  have "t = event_type_str et" using t by (auto simp: event_type_of_str_def find_Some_iff)
  then show "key = get_key x c et"
    using py_join_split [of 58 key] by (simp only: s ab get_key_join)
  show "key_part x" "key_part c" using py_split_parts [of _ 58 key] by (simp_all add: s key_part_def)
qed

lemma get_key_colons: "count_list (get_key x c et) 58 = 4 + count_list x 58 + count_list c 58"
  using event_type_str_no_colon [of et] by (simp add: get_key_def u_def)

lemma get_key_part: "get_key x c et = get_key x' c' et' \<Longrightarrow> key_part x' \<Longrightarrow> key_part c' \<Longrightarrow> key_part x \<and> key_part c"
  using get_key_colons [of x c et] get_key_colons [of x' c' et'] 
  by (simp add: key_part_def count_list_0_iff)

text \<open>What the loop makes of one key.\<close>

definition event_at :: "instant \<Rightarrow> hashes \<Rightarrow> pystr \<Rightarrow> event option" where
  "event_at now hs key =
     (case live_hash now hs key of
        None \<Rightarrow> None
      | Some fs \<Rightarrow> if fs = [] then None
          else case decode_key key of
            Inl _ \<Rightarrow> None
          | Inr (x, c, et) \<Rightarrow> (case decode_event x c et fs of Inl _ \<Rightarrow> None | Inr e \<Rightarrow> Some e))"

definition scan_step :: "event list \<Rightarrow> pystr \<Rightarrow> ('z, event list) sapi" where
  "scan_step acc key =
     bind (hgetall key) (\<lambda>r.
       case r of
         None \<Rightarrow> ret acc
       | Some fs \<Rightarrow>
           bind (of_sum (decode_key key)) (\<lambda>(exchange, stock_code, et).
           bind (of_sum (decode_event exchange stock_code et fs)) (\<lambda>e.
           ret (acc @ [e]))))"

lemma scan_step_Inr:
  assumes "scan_step acc key w = (Inr acc', w')"
  shows "w_now w' = w_now w" and "w_state w' = w_state w"
    and "acc' = acc @ (case event_at (w_now w) (w_state w) key of None \<Rightarrow> [] | Some e \<Rightarrow> [e])"
    and "event_at (w_now w) (w_state w) key = None \<Longrightarrow> live_hash (w_now w) (w_state w) key \<in> {None, Some []}"
proof -
  obtain r w1 where h: "hgetall key w = (Inr r, w1)" using assms by (auto simp: scan_step_def bind_eq_Inr)
  have w1: "w_now w1 = w_now w" "w_state w1 = w_state w"
    using alwaysD [OF hgetall_frame h] alwaysD [OF hgetall_state h] by (simp_all add: rt_frame_def same_state_def)
  note r = hgetall_Inr [OF h]
  have "w' = w1 \<and> acc' = acc @ (case event_at (w_now w) (w_state w) key of None \<Rightarrow> [] | Some e \<Rightarrow> [e])
    \<and> (event_at (w_now w) (w_state w) key = None \<longrightarrow> live_hash (w_now w) (w_state w) key \<in> {None, Some []})"
  proof (cases r)
    case None
    with assms h r show ?thesis by (auto simp: scan_step_def bind_def event_at_def split: option.splits if_splits)
  next
    case (Some fs)
    with r have l: "live_hash (w_now w) (w_state w) key = Some fs" "fs \<noteq> []" by (auto split: option.splits if_splits)
    from assms h Some obtain x c et e where "decode_key key = Inr (x, c, et)" "decode_event x c et fs = Inr e"
      "acc' = acc @ [e]" "w' = w1"
      by (auto simp: scan_step_def bind_def of_sum_def split: sum.splits prod.splits)
    with l show ?thesis by (simp add: event_at_def)
  qed
  with w1 show "w_now w' = w_now w" "w_state w' = w_state w"
    "acc' = acc @ (case event_at (w_now w) (w_state w) key of None \<Rightarrow> [] | Some e \<Rightarrow> [e])"
    "event_at (w_now w) (w_state w) key = None \<Longrightarrow> live_hash (w_now w) (w_state w) key \<in> {None, Some []}"
    by auto
qed

lemma scan_fold_Inr:
  "fold_io scan_step acc keys w = (Inr es, w') \<Longrightarrow>
     set es = set acc \<union> {e. \<exists>k \<in> set keys. event_at (w_now w) (w_state w) k = Some e}
     \<and> (\<forall>k \<in> set keys. event_at (w_now w) (w_state w) k = None \<longrightarrow> live_hash (w_now w) (w_state w) k \<in> {None, Some []})"
proof (induction keys arbitrary: acc w)
  case (Cons k keys)
  then obtain acc1 w1 where s: "scan_step acc k w = (Inr acc1, w1)" and f: "fold_io scan_step acc1 keys w1 = (Inr es, w')"
    by (auto simp: bind_eq_Inr)
  from Cons.IH [OF f] scan_step_Inr [OF s] show ?case by (auto split: option.splits)
qed simp

text \<open>A scan that succeeds returns exactly the store's live active Events.\<close>

theorem scan_all_returns:
  fixes w :: "'z world_scheme"
  assumes "scan_all w = (Inr es, w')" and o: "scan_complete w"
  shows "set es = {e. \<exists>g. lookup_event g (w_now w) (w_state w) = Some e}"
proof -
  define live where "live = (\<lambda>now hs. filter (\<lambda>k. py_startswith k (u ''agg:event:'') \<and> live_hash now hs k \<noteq> None) (map fst hs))"
  have "scan_all = bind (scan_prefix (u ''agg:event:'')) (fold_io scan_step [] :: _ \<Rightarrow> ('z, event list) sapi)"
    unfolding scan_all_def scan_step_def [abs_def] ..
  with assms(1) have "bind (scan_prefix (u ''agg:event:'')) (fold_io scan_step []) w = (Inr es, w')" by simp
  then obtain ks w1 where r: "rt_call (\<lambda>now hs. (Inr (live now hs), hs)) w = (Inr ks, w1)"
    and f: "fold_io scan_step [] (py_fromkeys (w_scan w ks)) w1 = (Inr es, w')"
    unfolding live_def scan_prefix_def by (auto simp: bind_eq_Inr get_w_def simp del: not_None_eq)
  from rt_call_Inr [OF r] have w1: "ks = live (w_now w) (w_state w)" "w_now w1 = w_now w" "w_state w1 = w_state w" by auto
  have keys: "set (py_fromkeys (w_scan w ks)) = set (live (w_now w) (w_state w))"
    using o by (simp add: scan_complete_def w1)
  have in_keys: "k \<in> set (live (w_now w) (w_state w))
      \<longleftrightarrow> py_startswith k (u ''agg:event:'') \<and> live_hash (w_now w) (w_state w) k \<noteq> None" for k
    by (force simp: live_def live_hash_def dest: map_of_SomeD split: option.splits)
  note es = scan_fold_Inr [OF f, unfolded w1(2,3) keys]
  have to: "\<exists>g. lookup_event g (w_now w) (w_state w) = Some e"
    if p: "py_startswith k (u ''agg:event:'')" and en: "event_at (w_now w) (w_state w) k = Some e" for k e
  proof -
    obtain fs x c et where "live_hash (w_now w) (w_state w) k = Some fs" "decode_key k = Inr (x, c, et)"
      "decode_event x c et fs = Inr e"
      using en by (auto simp: event_at_def split: option.splits if_splits sum.splits prod.splits)
    with decode_key_prefix(1) [OF p] have "lookup_event (x, c, et) (w_now w) (w_state w) = Some e"
      by (auto simp: lookup_event_def)
    then show ?thesis by blast
  qed
  have from_store: "\<exists>k \<in> set (live (w_now w) (w_state w)). event_at (w_now w) (w_state w) k = Some e"
    if lk: "lookup_event g (w_now w) (w_state w) = Some e" for g e
  proof -
    obtain x c et where g: "g = (x, c, et)" by (cases g)
    obtain fs where l: "live_hash (w_now w) (w_state w) (get_key x c et) = Some fs" and d: "decode_event x c et fs = Inr e"
      using lk by (auto simp: g lookup_event_def split: option.splits sum.splits)
    have ne: "fs \<noteq> []" using d by (auto simp: decode_event_def field_def)
    have p: "py_startswith (get_key x c et) (u ''agg:event:'')" by (simp add: py_startswith_def get_key_def u_def)
    have k: "get_key x c et \<in> set (live (w_now w) (w_state w))" using p l by (simp add: in_keys)
    with es l ne obtain e' where e': "event_at (w_now w) (w_state w) (get_key x c et) = Some e'" by fastforce
    then obtain x' c' et' where d': "decode_key (get_key x c et) = Inr (x', c', et')" "decode_event x' c' et' fs = Inr e'"
      using l by (auto simp: event_at_def split: if_splits sum.splits prod.splits)
    note dk = decode_key_prefix [OF p d'(1)]
    with get_key_part [OF dk(1-3)] get_key_inj have "(x', c', et') = (x, c, et)" by metis
    with d d' have "e' = e" by simp
    with e' k show ?thesis by blast
  qed
  show ?thesis using es to from_store in_keys by (auto; blast)
qed

end
