(* ===== verification/Sapi_Stream.thy ===== *)
theory Sapi_Stream
  imports Sapi_World
begin

text \<open>
  \<^verbatim>\<open>app/redis/stream_client.py\<close>: the commands of the stream Redis the client sends, as functions
  on the streams, and the client's operations on top of them. A fault script is finite, so an
  outage ends; \<open>publish\<close> retries until then.
\<close>

section \<open>Commands\<close>

type_synonym streams = "(pystr \<times> stream) list"

definition the_stream :: "streams \<Rightarrow> pystr \<Rightarrow> stream" where
  "the_stream ss name = (case map_of ss name of None \<Rightarrow> empty_stream | Some s \<Rightarrow> s)"

definition xadd :: "pystr \<Rightarrow> fields \<Rightarrow> streams \<Rightarrow> (exn + message_id) \<times> streams" where
  "xadd name flds ss =
     (let s = the_stream ss name; i = sm_next_id s
      in (Inr i, al_put name (s\<lparr> sm_entries := sm_entries s @ [(i, flds)], sm_next_id := Suc i \<rparr>) ss))"

text \<open>\<^verbatim>\<open>XGROUP CREATE name grp 0 MKSTREAM\<close>.\<close>

definition xgroup_create :: "pystr \<Rightarrow> pystr \<Rightarrow> streams \<Rightarrow> (exn + unit) \<times> streams" where
  "xgroup_create name grp ss =
     (let s = the_stream ss name
      in if map_of (sm_groups s) grp \<noteq> None
         then (Inl (Redis (RedisResponseError (u ''BUSYGROUP Consumer Group name already exists''))), ss)
         else (Inr (), al_put name (s\<lparr> sm_groups :=
                 al_put grp \<lparr> cg_last_delivered = 0, cg_pending = [] \<rparr> (sm_groups s) \<rparr>) ss))"

definition nogroup :: exn where
  "nogroup = Redis (RedisResponseError (u ''NOGROUP No such key or consumer group''))"

definition the_group :: "streams \<Rightarrow> pystr \<Rightarrow> pystr \<Rightarrow> consumer_group option" where
  "the_group ss name grp = map_of (sm_groups (the_stream ss name)) grp"

definition put_group :: "pystr \<Rightarrow> pystr \<Rightarrow> consumer_group \<Rightarrow> streams \<Rightarrow> streams" where
  "put_group name grp g ss =
     (let s = the_stream ss name
      in al_put name (s\<lparr> sm_groups := al_put grp g (sm_groups s) \<rparr>) ss)"

text \<open>\<^verbatim>\<open>count=None\<close> reads without a limit.\<close>

definition take_count :: "int option \<Rightarrow> 'a list \<Rightarrow> 'a list" where
  "take_count c xs = (case c of None \<Rightarrow> xs | Some n \<Rightarrow> take (nat n) xs)"

text \<open>\<^verbatim>\<open>XREADGROUP group consumer COUNT count STREAMS name >\<close>: the entries after the last one
  delivered to the group; each becomes pending.\<close>

definition xreadgroup ::
  "pystr \<Rightarrow> pystr \<Rightarrow> pystr \<Rightarrow> int option \<Rightarrow> instant \<Rightarrow> streams
     \<Rightarrow> (exn + (message_id \<times> fields) list) \<times> streams" where
  "xreadgroup name grp consumer count now ss =
     (case the_group ss name grp of
        None \<Rightarrow> (Inl nogroup, ss)
      | Some g \<Rightarrow>
          let new = take_count count
                (filter (\<lambda>(i, _). cg_last_delivered g < i) (sm_entries (the_stream ss name)));
              pe = \<lparr> pe_consumer = consumer, pe_times_delivered = 1, pe_delivered_at = now \<rparr>
          in if new = [] then (Inr [], ss)
             else (Inr new, put_group name grp
                    (g\<lparr> cg_last_delivered := fst (last new),
                        cg_pending := cg_pending g @ map (\<lambda>(i, _). (i, pe)) new \<rparr>) ss))"

definition xack :: "pystr \<Rightarrow> pystr \<Rightarrow> message_id \<Rightarrow> streams \<Rightarrow> (exn + nat) \<times> streams" where
  "xack name grp i ss =
     (case the_group ss name grp of
        None \<Rightarrow> (Inr 0, ss)
      | Some g \<Rightarrow>
          if map_of (cg_pending g) i = None then (Inr 0, ss)
          else (Inr 1, put_group name grp (g\<lparr> cg_pending := al_pop i (cg_pending g) \<rparr>) ss))"

text \<open>\<^verbatim>\<open>XAUTOCLAIM name grp consumer min-idle 0-0 COUNT count\<close>: the pending entries idle for long
  enough change hands, each counted as delivered once more.\<close>

definition idle_long_enough :: "instant \<Rightarrow> int \<Rightarrow> message_id \<times> pending_entry \<Rightarrow> bool" where
  "idle_long_enough now min_idle_ms p \<longleftrightarrow> min_idle_ms * 1000 \<le> now - pe_delivered_at (snd p)"

definition reclaim :: "instant \<Rightarrow> pystr \<Rightarrow> message_id set \<Rightarrow> message_id \<times> pending_entry \<Rightarrow> message_id \<times> pending_entry" where
  "reclaim now consumer ids p =
     (if fst p \<in> ids
      then (fst p, \<lparr> pe_consumer = consumer, pe_times_delivered = Suc (pe_times_delivered (snd p)),
                     pe_delivered_at = now \<rparr>)
      else p)"

definition xautoclaim ::
  "pystr \<Rightarrow> pystr \<Rightarrow> pystr \<Rightarrow> int \<Rightarrow> int \<Rightarrow> instant \<Rightarrow> streams
     \<Rightarrow> (exn + (message_id \<times> fields) list) \<times> streams" where
  "xautoclaim name grp consumer min_idle_ms count now ss =
     (case the_group ss name grp of
        None \<Rightarrow> (Inl nogroup, ss)
      | Some g \<Rightarrow>
          let ids = map fst (take (nat count) (filter (idle_long_enough now min_idle_ms) (cg_pending g)));
              es = filter (\<lambda>(i, _). i \<in> set ids) (sm_entries (the_stream ss name))
          in (Inr es, put_group name grp
                (g\<lparr> cg_pending := map (reclaim now consumer (set ids)) (cg_pending g) \<rparr>) ss))"

text \<open>\<^verbatim>\<open>XPENDING name grp id id 1\<close> for each of several ids, in one exchange.\<close>

definition xpending_each ::
  "pystr \<Rightarrow> pystr \<Rightarrow> message_id list \<Rightarrow> streams \<Rightarrow> (exn + nat option list) \<times> streams" where
  "xpending_each name grp ids ss =
     (case the_group ss name grp of
        None \<Rightarrow> (Inl nogroup, ss)
      | Some g \<Rightarrow> (Inr (map (\<lambda>i. map_option pe_times_delivered (map_of (cg_pending g) i)) ids), ss))"

section \<open>Messages\<close>

text \<open>\<open>StreamMessage\<close>; a \<open>ReclaimedMessage\<close> is one with a delivery count.\<close>

record stream_message =
  msg_id :: message_id
  msg_fields :: fields
  msg_delivery_count :: "nat option"

datatype dead_letter_reason = RETRIES_EXHAUSTED | MALFORMED

definition DEAD_LETTER_VERSION :: pystr where "DEAD_LETTER_VERSION = u ''1''"

section \<open>The client\<close>

text \<open>\<^verbatim>\<open>publish\<close>: the loop ends when the entry is written or on an error other than an unreachable
  Redis.\<close>

function publish :: "int \<Rightarrow> pystr \<Rightarrow> fields \<Rightarrow> ('z, message_id) sapi" where
  "publish reconnect_s name flds w =
     (case rs_call (\<lambda>_. xadd name flds) w of
        (Inr i, w') \<Rightarrow> (Inr i, w')
      | (Inl e, w') \<Rightarrow>
          if is_redis_unreachable e
          then publish reconnect_s name flds (snd (sleep_ms (reconnect_s * 1000) w'))
          else (Inl e, w'))"
  by pat_completeness auto

lemma xadd_Inr: "\<exists>i ss'. xadd name flds ss = (Inr i, ss')"
  by (simp add: xadd_def Let_def)

lemma rs_call_fault:
  "rs_call act w = (Inl e, w') \<Longrightarrow> (\<And>t ss. \<exists>x ss'. act t ss = (Inr x, ss')) \<Longrightarrow>
     w_rs w \<noteq> [] \<and> w_rs w' = tl (w_rs w)"
proof (cases "w_rs w")
  case Nil
  assume c: "rs_call act w = (Inl e, w')" and ok: "\<And>t ss. \<exists>x ss'. act t ss = (Inr x, ss')"
  obtain x ss' where "act (w_now w) (w_streams w) = (Inr x, ss')" using ok by blast
  with c Nil show ?thesis by (simp add: rs_call_def)
qed (auto simp: rs_call_def split: prod.splits)

lemma xadd_retry_shorter:
  "rs_call (\<lambda>_. xadd name flds) w = (Inl e, w') \<Longrightarrow>
     length (w_rs (snd (sleep_ms k w'))) < length (w_rs w)"
proof -
  assume "rs_call (\<lambda>_. xadd name flds) w = (Inl e, w')"
  from rs_call_fault [OF this] xadd_Inr have "w_rs w \<noteq> []" "w_rs w' = tl (w_rs w)" by blast+
  then show ?thesis by (cases "w_rs w") (simp_all add: sleep_ms_def modify_def)
qed

termination publish
  by (relation "measure (\<lambda>(r, name, flds, w). length (w_rs w))")
    (auto intro: xadd_retry_shorter xadd_retry_shorter [OF sym])

declare publish.simps [simp del]

definition create_group_if_not_exists :: "pystr \<Rightarrow> pystr \<Rightarrow> ('z, unit) sapi" where
  "create_group_if_not_exists name grp =
     try_except (rs_call (\<lambda>_. xgroup_create name grp))
       (\<lambda>e. case e of
          Redis (RedisResponseError txt) \<Rightarrow>
            if py_startswith txt (u ''BUSYGROUP'') then ret () else raise e
        | _ \<Rightarrow> raise e)"

definition read_from :: "pystr \<Rightarrow> pystr \<Rightarrow> pystr \<Rightarrow> int option \<Rightarrow> ('z, stream_message list) sapi" where
  "read_from name grp consumer count =
     bind (rs_call (xreadgroup name grp consumer count)) (\<lambda>es.
     ret (map (\<lambda>(i, f). \<lparr> msg_id = i, msg_fields = f, msg_delivery_count = None \<rparr>) es))"

definition ack :: "pystr \<Rightarrow> pystr \<Rightarrow> message_id \<Rightarrow> ('z, unit) sapi" where
  "ack name grp i = seq (rs_call (\<lambda>_. xack name grp i)) (ret ())"

text \<open>The list comprehension over \<^verbatim>\<open>zip(claimed, pending)\<close>: a message acknowledged since the claim has
  no pending entry left and is dropped.\<close>

fun reclaimed_messages ::
  "(message_id \<times> fields) list \<Rightarrow> nat option list \<Rightarrow> stream_message list" where
  "reclaimed_messages ((i, f) # es) (Some n # ps) =
     \<lparr> msg_id = i, msg_fields = f, msg_delivery_count = Some n \<rparr> # reclaimed_messages es ps"
| "reclaimed_messages (_ # es) (None # ps) = reclaimed_messages es ps"
| "reclaimed_messages _ _ = []"

definition autoclaim ::
  "pystr \<Rightarrow> pystr \<Rightarrow> pystr \<Rightarrow> int \<Rightarrow> int \<Rightarrow> ('z, stream_message list) sapi" where
  "autoclaim name grp consumer min_idle_ms count =
     bind (rs_call (xautoclaim name grp consumer min_idle_ms count)) (\<lambda>claimed.
     if claimed = [] then ret []
     else bind (rs_call (\<lambda>_. xpending_each name grp (map fst claimed))) (\<lambda>pending.
          ret (reclaimed_messages claimed pending)))"

text \<open>\<^verbatim>\<open>json.dumps(message.fields)\<close> of an object of texts; its escapes are left to the parameter
  \<open>dumps\<close>, nothing reads the value back.\<close>

definition dead_letter ::
  "int \<Rightarrow> (fields \<Rightarrow> pystr) \<Rightarrow> stream_message \<Rightarrow> pystr \<Rightarrow> pystr \<Rightarrow> pystr \<Rightarrow> ('z, unit) sapi" where
  "dead_letter reconnect_s dumps m name grp dead_letter_stream =
     (let delivery_count = (case msg_delivery_count m of Some n \<Rightarrow> n | None \<Rightarrow> 1)
      in bind datetime_now (\<lambda>failed_at.
         seq (publish reconnect_s dead_letter_stream
                [(u ''message_id'', message_id_str (msg_id m)),
                 (u ''fields'', dumps (msg_fields m)),
                 (u ''delivery_count'', dec_digits delivery_count),
                 (u ''failed_at'', isoformat failed_at),
                 (u ''v'', DEAD_LETTER_VERSION)])
             (ack name grp (msg_id m))))"

definition stream_ping :: "('z, unit) sapi" where
  "stream_ping = rs_call (\<lambda>_ ss. (Inr (), ss))"

section \<open>What a stream operation leaves alone\<close>

definition rs_frame :: "'z world_scheme \<Rightarrow> 'z world_scheme \<Rightarrow> bool" where
  "rs_frame w w' \<longleftrightarrow>
     w_next_uuid w' = w_next_uuid w \<and> w_db w' = w_db w \<and> w_pg w' = w_pg w
     \<and> w_state w' = w_state w \<and> w_rt w' = w_rt w \<and> w_scan w' = w_scan w
     \<and> world.more w' = world.more w \<and> w_now w \<le> w_now w'"

interpretation rs_frame: monotone_io rs_frame
  by unfold_locales (auto simp: rs_frame_def)

lemma rs_call_frame: "always rs_frame (rs_call act)"
  by (rule alwaysI) (auto dest!: rs_call_world simp: rs_frame_def)

lemma datetime_now_frame: "always rs_frame datetime_now"
  by (rule alwaysI) (auto simp: datetime_now_def rs_frame_def Let_def split: list.splits)

lemma publish_frame: "always rs_frame (publish r name flds)"
proof (rule alwaysI)
  fix w res w'
  assume "publish r name flds w = (res, w')"
  then show "rs_frame w w'"
  proof (induction r name flds w rule: publish.induct)
    case (1 r name flds w)
    obtain q w1 where q: "rs_call (\<lambda>_. xadd name flds) w = (q, w1)" by fastforce
    have f: "rs_frame w w1" using alwaysD [OF rs_call_frame q] .
    show ?case
    proof (cases "\<exists>e. q = Inl e \<and> is_redis_unreachable e")
      case True
      then obtain e where e: "q = Inl e" "is_redis_unreachable e" by blast
      have "publish r name flds (snd (sleep_ms (r * 1000) w1)) = (res, w')"
        using "1.prems" q e by (simp add: publish.simps [of r name flds w])
      with "1.IH" [of _ w1 e] q e have "rs_frame (snd (sleep_ms (r * 1000) w1)) w'" by simp
      with f show ?thesis by (auto simp: rs_frame_def sleep_ms_def modify_def)
    next
      case False
      then have "w' = w1" using "1.prems" q by (subst (asm) publish.simps) (auto split: sum.splits if_splits)
      with f show ?thesis by simp
    qed
  qed
qed

lemma create_group_frame: "always rs_frame (create_group_if_not_exists name grp)"
  unfolding create_group_if_not_exists_def
  by (intro rs_frame.always_try rs_call_frame) (auto split: exn.splits redis_exn.splits intro!: rs_frame.always_intros)

lemma read_from_frame: "always rs_frame (read_from name grp consumer count)"
  and ack_frame: "always rs_frame (ack name grp i)"
  and stream_ping_frame: "always rs_frame stream_ping"
  unfolding read_from_def ack_def stream_ping_def
  by (intro rs_frame.always_intros rs_call_frame)+

lemma autoclaim_frame: "always rs_frame (autoclaim name grp consumer mi count)"
  unfolding autoclaim_def by (intro rs_frame.always_bind rs_call_frame) (auto intro!: rs_frame.always_intros rs_call_frame)

lemma dead_letter_frame: "always rs_frame (dead_letter r dumps m name grp dl)"
  unfolding dead_letter_def Let_def
  by (intro rs_frame.always_bind datetime_now_frame publish_frame ack_frame)

text \<open>Relations that do not look at what a stream operation changes.\<close>

locale rs_blind = monotone_io R for R :: "'z world_scheme \<Rightarrow> 'z world_scheme \<Rightarrow> bool" +
  assumes rs_blind: "rs_frame w w' \<Longrightarrow> R w w'"
begin

lemma always_rs_frame: "always rs_frame m \<Longrightarrow> always R m"
  unfolding always_def using rs_blind by blast

lemma always_rs:
  "always R (publish r name flds)" "always R (read_from name grp consumer count)"
  "always R (ack name grp i)" "always R (autoclaim name grp consumer mi cnt)"
  "always R (dead_letter r dumps m name grp dl)" "always R (create_group_if_not_exists name grp)"
  "always R datetime_now"
  by (intro always_rs_frame publish_frame read_from_frame ack_frame autoclaim_frame dead_letter_frame
      create_group_frame datetime_now_frame)+

end

section \<open>Streams only grow\<close>

definition streams_grow :: "streams \<Rightarrow> streams \<Rightarrow> bool" where
  "streams_grow ss ss' \<longleftrightarrow>
     (\<forall>name. prefix (sm_entries (the_stream ss name)) (sm_entries (the_stream ss' name)))"

lemma streams_grow_refl [simp, intro]: "streams_grow ss ss"
  by (simp add: streams_grow_def)

lemma streams_grow_trans: "streams_grow a b \<Longrightarrow> streams_grow b c \<Longrightarrow> streams_grow a c"
  unfolding streams_grow_def by (meson prefix_order.trans)

lemma the_stream_put [simp]:
  "the_stream (al_put name s ss) n = (if n = name then s else the_stream ss n)"
  by (simp add: the_stream_def)

lemma the_stream_put_group [simp]:
  "sm_entries (the_stream (put_group name grp g ss) n) = sm_entries (the_stream ss n)"
  "sm_next_id (the_stream (put_group name grp g ss) n) = sm_next_id (the_stream ss n)"
  by (auto simp: put_group_def Let_def)

lemma the_group_put_group [simp]:
  "the_group (put_group name grp g ss) n h =
     (if n = name \<and> h = grp then Some g else the_group ss n h)"
  by (auto simp: put_group_def the_group_def Let_def)

lemma xadd_entries:
  "xadd name flds ss = (Inr i, ss') \<Longrightarrow>
     sm_entries (the_stream ss' name) = sm_entries (the_stream ss name) @ [(i, flds)]"
  by (auto simp: xadd_def Let_def)

lemma xadd_grow: "streams_grow ss (snd (xadd name flds ss))"
  and xgroup_create_grow: "streams_grow ss (snd (xgroup_create name grp ss))"
  and xreadgroup_grow: "streams_grow ss (snd (xreadgroup name grp consumer count now ss))"
  and xack_grow: "streams_grow ss (snd (xack name grp k ss))"
  and xautoclaim_grow: "streams_grow ss (snd (xautoclaim name grp consumer mi cnt now ss))"
  and xpending_grow: "streams_grow ss (snd (xpending_each name grp ids ss))"
  by (auto simp: streams_grow_def xadd_def xgroup_create_def xreadgroup_def xack_def xautoclaim_def
      xpending_each_def Let_def split: option.splits)

definition world_grow :: "'z world_scheme \<Rightarrow> 'z world_scheme \<Rightarrow> bool" where
  "world_grow w w' \<longleftrightarrow> streams_grow (w_streams w) (w_streams w')"

interpretation grow: monotone_io world_grow
  by unfold_locales (auto simp: world_grow_def intro: streams_grow_trans)

lemma rs_call_grow: "(\<And>t ss. streams_grow ss (snd (act t ss))) \<Longrightarrow> always world_grow (rs_call act)"
  by (rule alwaysI) (auto dest!: rs_call_world simp: world_grow_def)

lemma ack_grow: "always world_grow (ack name grp i)"
  unfolding ack_def by (intro grow.always_intros rs_call_grow) (simp add: xack_grow)

text \<open>A publish that returns has appended its entry; one that raises met an error other than an
  unreachable Redis.\<close>

lemma publish_cases:
  "publish r name flds w = (res, w') \<Longrightarrow>
     streams_grow (w_streams w) (w_streams w')
     \<and> (\<forall>i. res = Inr i \<longrightarrow> (i, flds) \<in> set (sm_entries (the_stream (w_streams w') name)))
     \<and> (\<forall>e. res = Inl e \<longrightarrow> \<not> is_redis_unreachable e)"
proof (induction r name flds w rule: publish.induct)
  case (1 r name flds w)
  obtain q w1 where q: "rs_call (\<lambda>_. xadd name flds) w = (q, w1)" by fastforce
  have g: "streams_grow (w_streams w) (w_streams w1)"
    using alwaysD [OF rs_call_grow q] xadd_grow by (auto simp: world_grow_def)
  show ?case
  proof (cases q)
    case (Inr i)
    then have "xadd name flds (w_streams w) = (Inr i, w_streams w1)"
      using rs_call_Inr [OF q [unfolded Inr]] by auto
    with "1.prems" q Inr g show ?thesis
      by (subst (asm) publish.simps) (auto dest: xadd_entries)
  next
    case (Inl e)
    show ?thesis
    proof (cases "is_redis_unreachable e")
      case True
      have "publish r name flds (snd (sleep_ms (r * 1000) w1)) = (res, w')"
        using "1.prems" q Inl True by (simp add: publish.simps [of r name flds w])
      with "1.IH" [of _ w1 e] q Inl True
      have IH: "streams_grow (w_streams (snd (sleep_ms (r * 1000) w1))) (w_streams w')"
        "\<forall>i. res = Inr i \<longrightarrow> (i, flds) \<in> set (sm_entries (the_stream (w_streams w') name))"
        "\<forall>e. res = Inl e \<longrightarrow> \<not> is_redis_unreachable e" by simp_all
      have "w_streams (snd (sleep_ms (r * 1000) w1)) = w_streams w1"
        by (simp add: sleep_ms_def modify_def)
      with IH g show ?thesis by (auto intro: streams_grow_trans)
    next
      case False
      with "1.prems" q Inl g show ?thesis by (subst (asm) publish.simps) auto
    qed
  qed
qed

text \<open>As long as the only failures are outages, a publish returns.\<close>

definition outages_only :: "exn fault list \<Rightarrow> bool" where
  "outages_only fs \<longleftrightarrow>
     (\<forall>f \<in> set fs. case f of Fine \<Rightarrow> True | Before e \<Rightarrow> is_redis_unreachable e
        | After e \<Rightarrow> is_redis_unreachable e)"

lemma rs_call_error:
  "rs_call act w = (Inl e, w') \<Longrightarrow> (\<And>t ss. \<exists>x ss'. act t ss = (Inr x, ss')) \<Longrightarrow>
     Before e \<in> set (w_rs w) \<or> After e \<in> set (w_rs w)"
proof -
  assume c: "rs_call act w = (Inl e, w')" and ok: "\<And>t ss. \<exists>x ss'. act t ss = (Inr x, ss')"
  obtain x ss' where x: "act (w_now w) (w_streams w) = (Inr x, ss')" using ok by blast
  show ?thesis
  proof (cases "w_rs w")
    case Nil
    with c x show ?thesis by (simp add: rs_call_def)
  next
    case (Cons f fs)
    with c x show ?thesis by (cases f) (auto simp: rs_call_def)
  qed
qed

lemma publish_returns: "outages_only (w_rs w) \<Longrightarrow> \<exists>i w'. publish r name flds w = (Inr i, w')"
proof (induction r name flds w rule: publish.induct)
  case (1 r name flds w)
  obtain q w1 where q: "rs_call (\<lambda>_. xadd name flds) w = (q, w1)" by fastforce
  show ?case
  proof (cases q)
    case (Inr i)
    with q show ?thesis by (subst publish.simps) simp
  next
    case (Inl e)
    with q have qe: "rs_call (\<lambda>_. xadd name flds) w = (Inl e, w1)" by simp
    have mem: "Before e \<in> set (w_rs w) \<or> After e \<in> set (w_rs w)"
      using rs_call_error [OF qe] xadd_Inr by blast
    then have un: "is_redis_unreachable e" using 1(2) by (auto simp: outages_only_def)
    have "w_rs w1 = tl (w_rs w)" using rs_call_fault [OF qe] xadd_Inr by blast
    then have "outages_only (w_rs (snd (sleep_ms (r * 1000) w1)))"
      using 1(2) by (cases "w_rs w") (auto simp: outages_only_def sleep_ms_def modify_def)
    with "1.IH" [of _ w1 e] qe un
    obtain i w' where "publish r name flds (snd (sleep_ms (r * 1000) w1)) = (Inr i, w')" by auto
    with qe un show ?thesis by (subst publish.simps) simp
  qed
qed

section \<open>Pending entries\<close>

definition pending_ids :: "streams \<Rightarrow> pystr \<Rightarrow> pystr \<Rightarrow> message_id set" where
  "pending_ids ss name grp =
     (case the_group ss name grp of None \<Rightarrow> {} | Some g \<Rightarrow> fst ` set (cg_pending g))"

text \<open>Only an acknowledgement takes an entry off the pending list.\<close>

lemma the_group_put_stream:
  "sm_groups s = sm_groups (the_stream ss name) \<Longrightarrow> the_group (al_put name s ss) = the_group ss"
  by (auto simp: the_group_def fun_eq_iff)

lemma pending_xadd: "pending_ids (snd (xadd name flds ss)) = pending_ids ss"
  by (auto simp: pending_ids_def xadd_def Let_def fun_eq_iff the_group_put_stream)

lemma pending_xgroup_create: "pending_ids (snd (xgroup_create name grp ss)) = pending_ids ss"
  by (auto simp: pending_ids_def xgroup_create_def Let_def fun_eq_iff the_group_def split: option.splits)

lemma pending_xreadgroup:
  "xreadgroup name grp consumer count now ss = (Inr es, ss') \<Longrightarrow>
     pending_ids ss' = (pending_ids ss)(name := (pending_ids ss name)(grp := pending_ids ss name grp \<union> fst ` set es))"
  by (force simp: pending_ids_def xreadgroup_def Let_def fun_eq_iff split: option.splits if_splits)

lemma pending_xreadgroup_sub: "pending_ids ss n h \<subseteq> pending_ids (snd (xreadgroup name grp consumer count now ss)) n h"
  by (auto simp: pending_ids_def xreadgroup_def Let_def split: option.splits)

lemma pending_xack:
  "pending_ids (snd (xack name grp i ss)) =
     (pending_ids ss)(name := (pending_ids ss name)(grp := pending_ids ss name grp - {i}))"
  by (auto simp: pending_ids_def xack_def Let_def fun_eq_iff map_of_eq_None_iff split: option.splits)

lemma fst_reclaim [simp]: "fst (reclaim now consumer ids p) = fst p"
  by (simp add: reclaim_def)

lemma pending_xautoclaim: "pending_ids (snd (xautoclaim name grp consumer mi cnt now ss)) = pending_ids ss"
  by (simp add: pending_ids_def xautoclaim_def Let_def fun_eq_iff image_image split: option.splits)

lemma pending_xpending: "pending_ids (snd (xpending_each name grp ids ss)) = pending_ids ss"
  by (auto simp: xpending_each_def split: option.splits)

text \<open>\<open>unacked K\<close>: no entry is acknowledged but those of K, a set of (stream, group, id).\<close>

definition unacked :: "(pystr \<times> pystr \<times> message_id) set \<Rightarrow> 'z world_scheme \<Rightarrow> 'z world_scheme \<Rightarrow> bool" where
  "unacked K w w' \<longleftrightarrow>
     (\<forall>name grp i. i \<in> pending_ids (w_streams w) name grp \<longrightarrow> (name, grp, i) \<notin> K
        \<longrightarrow> i \<in> pending_ids (w_streams w') name grp)"

interpretation unacked: monotone_io "unacked K" for K
  by unfold_locales (auto simp: unacked_def)

lemma rs_call_unacked:
  "(\<And>t ss n h i. i \<in> pending_ids ss n h \<Longrightarrow> (n, h, i) \<notin> K \<Longrightarrow> i \<in> pending_ids (snd (act t ss)) n h) \<Longrightarrow>
     always (unacked K) (rs_call act)"
  by (rule alwaysI) (auto dest!: rs_call_world simp: unacked_def)

lemma ack_unacked: "(name, grp, i) \<in> K \<Longrightarrow> always (unacked K) (ack name grp i)"
  unfolding ack_def
  by (intro unacked.always_intros rs_call_unacked) (auto simp: pending_xack)

lemma read_from_unacked: "always (unacked K) (read_from name grp consumer count)"
  unfolding read_from_def
  by (intro unacked.always_intros rs_call_unacked) (use pending_xreadgroup_sub in blast)

lemma autoclaim_unacked: "always (unacked K) (autoclaim name grp consumer mi count)"
  unfolding autoclaim_def
  by (intro unacked.always_bind rs_call_unacked)
    (auto simp: pending_xautoclaim pending_xpending intro!: unacked.always_intros rs_call_unacked)

lemma same_streams_unacked: "w_streams w' = w_streams w \<Longrightarrow> unacked K w w'"
  by (simp add: unacked_def)

lemma pg_frame_streams: "always R m \<Longrightarrow> (\<And>w w'. R w w' \<Longrightarrow> w_streams w' = w_streams w) \<Longrightarrow> always (unacked K) m"
  by (metis alwaysD alwaysI same_streams_unacked)

lemma datetime_now_unacked: "always (unacked K) datetime_now"
  by (rule alwaysI) (auto simp: datetime_now_def Let_def unacked_def)

lemma publish_unacked: "always (unacked K) (publish r name flds)"
proof (rule alwaysI)
  fix w res w'
  assume "publish r name flds w = (res, w')"
  then show "unacked K w w'"
  proof (induction r name flds w rule: publish.induct)
    case (1 r name flds w)
    obtain q w1 where q: "rs_call (\<lambda>_. xadd name flds) w = (q, w1)" by fastforce
    have f: "unacked K w w1"
      by (rule alwaysD [OF rs_call_unacked q]) (simp add: pending_xadd)
    show ?case
    proof (cases "\<exists>e. q = Inl e \<and> is_redis_unreachable e")
      case True
      then obtain e where e: "q = Inl e" "is_redis_unreachable e" by blast
      have "publish r name flds (snd (sleep_ms (r * 1000) w1)) = (res, w')"
        using "1.prems" q e by (simp add: publish.simps [of r name flds w])
      with "1.IH" [of _ w1 e] q e have "unacked K (snd (sleep_ms (r * 1000) w1)) w'" by simp
      moreover have "unacked K w1 (snd (sleep_ms (r * 1000) w1))"
        by (simp add: unacked_def sleep_ms_def modify_def)
      ultimately show ?thesis using f by (meson unacked.R_trans)
    next
      case False
      then have "w' = w1" using "1.prems" q by (subst (asm) publish.simps) (auto split: sum.splits if_splits)
      with f show ?thesis by simp
    qed
  qed
qed

lemma dead_letter_unacked:
  "(name, grp, msg_id m) \<in> K \<Longrightarrow> always (unacked K) (dead_letter r dumps m name grp dl)"
  unfolding dead_letter_def Let_def
  by (intro unacked.always_bind datetime_now_unacked publish_unacked ack_unacked)

text \<open>A message leaves its group for the dead-letter stream only after the dead-letter entry is
  written.\<close>

lemma dead_letter_before_ack:
  assumes "dead_letter r dumps m name grp dl w = (res, w')" and "dl \<noteq> name"
    and "msg_id m \<in> pending_ids (w_streams w) name grp"
    and "msg_id m \<notin> pending_ids (w_streams w') name grp"
  shows "\<exists>i flds. (i, flds) \<in> set (sm_entries (the_stream (w_streams w') dl))
           \<and> map_of flds (u ''message_id'') = Some (message_id_str (msg_id m))
           \<and> map_of flds (u ''fields'') = Some (dumps (msg_fields m))"
proof -
  define flds where "flds t =
    [(u ''message_id'', message_id_str (msg_id m)), (u ''fields'', dumps (msg_fields m)),
     (u ''delivery_count'', dec_digits (case msg_delivery_count m of Some n \<Rightarrow> n | None \<Rightarrow> 1)),
     (u ''failed_at'', isoformat t), (u ''v'', DEAD_LETTER_VERSION)]" for t
  obtain t w1 where t: "datetime_now w = (Inr t, w1)" and w1: "w_streams w1 = w_streams w"
    by (auto simp: datetime_now_def Let_def)
  obtain p w2 where p: "publish r dl (flds t) w1 = (p, w2)" by fastforce
  note P = publish_cases [OF p]
  have pend: "msg_id m \<in> pending_ids (w_streams w2) name grp"
    using alwaysD [OF publish_unacked [of "{}"] p] assms(3) w1 by (simp add: unacked_def)
  show ?thesis
  proof (cases p)
    case (Inl e)
    with assms(1) t p have "w' = w2" by (auto simp: dead_letter_def bind_def flds_def)
    with pend assms(4) show ?thesis by simp
  next
    case (Inr i)
    with assms(1) t p have "ack name grp (msg_id m) w2 = (res, w')"
      by (auto simp: dead_letter_def bind_def flds_def)
    then have "streams_grow (w_streams w2) (w_streams w')"
      using alwaysD [OF ack_grow] by (simp add: world_grow_def)
    moreover have "(i, flds t) \<in> set (sm_entries (the_stream (w_streams w2) dl))"
      using P Inr by simp
    ultimately have "(i, flds t) \<in> set (sm_entries (the_stream (w_streams w') dl))"
      by (meson streams_grow_def set_mono_prefix subsetD)
    then show ?thesis by (intro exI [of _ i] exI [of _ "flds t"]) (simp add: flds_def)
  qed
qed

end
