(* ===== verification/Sapi_Db.thy ===== *)
theory Sapi_Db
  imports Sapi_World
begin

text \<open>
  \<^verbatim>\<open>app/db/connection.py\<close>: the translation of asyncpg's exceptions, the retry of writes, and the
  client's operations, each given the statement's effect on the tables as a function. A
  transaction works on the tables directly and puts the tables of its start back when it does
  not commit: no other session looks at them in between.
\<close>

section \<open>Errors\<close>

fun is_os_error :: "exn \<Rightarrow> bool" where
  "is_os_error (Py OSError) = True"
| "is_os_error (Py TimeoutError) = True"
| "is_os_error _ = False"

text \<open>\<^verbatim>\<open>_TRANSIENT_ERRORS\<close> and \<^verbatim>\<open>_CONNECTION_ERRORS\<close>.\<close>

definition is_transient :: "exn \<Rightarrow> bool" where
  "is_transient e \<longleftrightarrow> e \<in> {Pg TooManyConnectionsError, Pg PostgresConnectionError, Pg CannotConnectNowError}
     \<or> is_os_error e"

definition is_connection_error :: "exn \<Rightarrow> bool" where
  "is_connection_error e \<longleftrightarrow> is_transient e \<or> e = Pg InterfaceError"

text \<open>The clauses of \<^verbatim>\<open>_translated_errors\<close>, in order.\<close>

fun translate_db_error :: "exn \<Rightarrow> exn" where
  "translate_db_error (Pg (UniqueViolationError c)) = Sapi (sapi_err UniqueConstraintError DB)"
| "translate_db_error e =
     (if is_connection_error e then Sapi (sapi_err ServiceUnavailableError DB)
      else case e of Pg _ \<Rightarrow> Sapi (sapi_err DatabaseError DB) | _ \<Rightarrow> e)"

definition translated_errors :: "('w, exn, 'a) io \<Rightarrow> ('w, exn, 'a) io" where
  "translated_errors m = try_except m (\<lambda>e. raise (translate_db_error e))"

text \<open>What the docstrings promise: no exception of the driver or the socket leaves the client.\<close>

fun driver_agnostic :: "exn \<Rightarrow> bool" where
  "driver_agnostic (Pg _) = False"
| "driver_agnostic (Py OSError) = False"
| "driver_agnostic (Py TimeoutError) = False"
| "driver_agnostic _ = True"

lemma driver_agnostic_py: "driver_agnostic (Py v) \<longleftrightarrow> \<not> is_os_error (Py v)"
  by (cases v) simp_all

lemma translate_driver_agnostic: "driver_agnostic (translate_db_error e)"
  by (cases e rule: translate_db_error.cases)
    (auto simp: is_connection_error_def is_transient_def driver_agnostic_py split: pg_exn.splits)

lemma translated_Inl: "translated_errors m w = (Inl e, w') \<Longrightarrow> driver_agnostic e"
  by (auto simp: translated_errors_def io_eqs translate_driver_agnostic)

lemma translated_Inr: "translated_errors m w = (Inr x, w') \<longleftrightarrow> m w = (Inr x, w')"
  by (auto simp: translated_errors_def io_eqs)

section \<open>Retried writes\<close>

text \<open>\<^verbatim>\<open>_db_write_with_retry\<close>: the loop from a given attempt number on.\<close>

function write_attempts :: "database_config \<Rightarrow> ('z, 'a) sapi \<Rightarrow> nat \<Rightarrow> ('z, 'a) sapi" where
  "write_attempts cfg act n = try_except act (\<lambda>e.
     if is_transient e then
       if int n \<ge> db_max_retry cfg then raise e
       else seq (sleep_ms (db_retry_base_wait_ms cfg * 2 ^ (n - 1))) (write_attempts cfg act (Suc n))
     else raise e)"
  by auto
termination by (relation "measure (\<lambda>(cfg, act, n). nat (db_max_retry cfg - int n))") auto

declare write_attempts.simps [simp del]

definition db_write_with_retry :: "database_config \<Rightarrow> ('z, 'a) sapi \<Rightarrow> ('z, 'a) sapi" where
  "db_write_with_retry cfg act = translated_errors (write_attempts cfg act 1)"

section \<open>The client\<close>

type_synonym 'a statement = "db \<Rightarrow> (exn + 'a) \<times> db"

text \<open>\<^verbatim>\<open>execute\<close> and \<^verbatim>\<open>execute_returning\<close> differ only in what they do with the rows.\<close>

definition db_execute_returning :: "database_config \<Rightarrow> 'a statement \<Rightarrow> ('z, 'a) sapi" where
  "db_execute_returning cfg stmt = db_write_with_retry cfg (pg_call stmt)"

definition db_execute :: "database_config \<Rightarrow> 'a statement \<Rightarrow> ('z, unit) sapi" where
  "db_execute cfg stmt = bind (db_write_with_retry cfg (pg_call stmt)) (\<lambda>_. ret ())"

definition db_fetch :: "(db \<Rightarrow> 'a) \<Rightarrow> ('z, 'a) sapi" where
  "db_fetch q = translated_errors (pg_call (\<lambda>d. (Inr (q d), d)))"

definition tx_execute_returning :: "'a statement \<Rightarrow> ('z, 'a) sapi" where
  "tx_execute_returning stmt = translated_errors (pg_call stmt)"

definition tx_execute :: "'a statement \<Rightarrow> ('z, unit) sapi" where
  "tx_execute stmt = bind (translated_errors (pg_call stmt)) (\<lambda>_. ret ())"

text \<open>\<^verbatim>\<open>transaction\<close>: BEGIN with retries; the block; COMMIT, which makes the block's effect
  permanent (and may do so even though its reply is lost); any exception rolls back and is
  raised again. The tables in \<open>tables\<close> are those of the transaction's start.\<close>

definition pg_commit :: "db \<Rightarrow> ('z, unit) sapi" where
  "pg_commit tables = (\<lambda>w.
     case next_fault (w_pg w) of
       Fine \<Rightarrow> (Inr (), w\<lparr> w_pg := tl (w_pg w) \<rparr>)
     | Before e \<Rightarrow> (Inl e, w\<lparr> w_db := tables, w_pg := tl (w_pg w) \<rparr>)
     | After e \<Rightarrow> (Inl e, w\<lparr> w_pg := tl (w_pg w) \<rparr>))"

definition pg_rollback :: "db \<Rightarrow> ('z, unit) sapi" where
  "pg_rollback tables = modify (\<lambda>w. w\<lparr> w_db := tables, w_pg := tl (w_pg w) \<rparr>)"

definition db_begin :: "database_config \<Rightarrow> ('z, unit) sapi" where
  "db_begin cfg = db_write_with_retry cfg (pg_call (\<lambda>d. (Inr (), d)))"

definition db_transaction :: "database_config \<Rightarrow> ('z, 'a) sapi \<Rightarrow> ('z, 'a) sapi" where
  "db_transaction cfg body =
     seq (db_begin cfg)
       (bind (get_w w_db) (\<lambda>tables.
        bind (try_except body (\<lambda>e. seq (pg_rollback tables) (raise e))) (\<lambda>x.
        seq (try_except (translated_errors (pg_commit tables))
               (\<lambda>e. seq (modify (\<lambda>w. w\<lparr> w_pg := tl (w_pg w) \<rparr>)) (raise e)))
            (ret x))))"

section \<open>What the operations do to the world\<close>

text \<open>The tables and the fault script are all a database call touches, retries also let time
  pass.\<close>

definition pg_frame :: "'z world_scheme \<Rightarrow> 'z world_scheme \<Rightarrow> bool" where
  "pg_frame w w' \<longleftrightarrow>
     w_ticks w' = w_ticks w \<and> w_next_uuid w' = w_next_uuid w \<and> w_streams w' = w_streams w
     \<and> w_rs w' = w_rs w \<and> w_state w' = w_state w \<and> w_rt w' = w_rt w \<and> w_scan w' = w_scan w
     \<and> world.more w' = world.more w \<and> w_now w \<le> w_now w'"

interpretation pg_frame: monotone_io pg_frame
  by unfold_locales (auto simp: pg_frame_def)

lemma pg_call_frame: "always pg_frame (pg_call stmt)"
  by (rule alwaysI) (auto dest!: pg_call_world simp: pg_frame_def)

lemma sleep_frame: "always pg_frame (sleep_ms ms)"
  by (simp add: sleep_ms_def always_modify pg_frame_def)

lemma write_attempts_frame:
  "always pg_frame act \<Longrightarrow> always pg_frame (write_attempts cfg act n)"
proof (induction cfg act n rule: write_attempts.induct)
  case (1 cfg act n)
  show ?case
    by (subst write_attempts.simps)
      (use 1 in \<open>auto intro!: pg_frame.always_try pg_frame.always_raise pg_frame.always_bind sleep_frame\<close>)
qed

lemma translated_frame: "always pg_frame act \<Longrightarrow> always pg_frame (translated_errors act)"
  unfolding translated_errors_def by (intro pg_frame.always_intros)

lemma db_execute_returning_frame: "always pg_frame (db_execute_returning cfg stmt)"
  and db_execute_frame: "always pg_frame (db_execute cfg stmt')"
  and db_fetch_frame: "always pg_frame (db_fetch q)"
  and tx_execute_returning_frame: "always pg_frame (tx_execute_returning stmt)"
  and tx_execute_frame: "always pg_frame (tx_execute stmt')"
  and db_begin_frame: "always pg_frame (db_begin cfg)"
  unfolding db_execute_returning_def db_execute_def db_fetch_def tx_execute_returning_def
    tx_execute_def db_begin_def db_write_with_retry_def
  by (intro pg_frame.always_intros translated_frame write_attempts_frame pg_call_frame)+

lemma pg_commit_frame: "always pg_frame (pg_commit d)"
  by (rule alwaysI) (auto simp: pg_commit_def pg_frame_def split: fault.splits)

lemma pg_rollback_frame: "always pg_frame (pg_rollback d)"
  by (simp add: pg_rollback_def always_modify pg_frame_def)

section \<open>The effect of a write\<close>

text \<open>A statement that keeps a preorder of the tables keeps it through every retry, whether the
  write succeeds or not.\<close>

definition db_rel :: "(db \<Rightarrow> db \<Rightarrow> bool) \<Rightarrow> 'z world_scheme \<Rightarrow> 'z world_scheme \<Rightarrow> bool" where
  "db_rel R w w' \<longleftrightarrow> R (w_db w) (w_db w')"

locale db_preorder =
  fixes R :: "db \<Rightarrow> db \<Rightarrow> bool"
  assumes db_refl: "R d d"
    and db_trans: "R d1 d2 \<Longrightarrow> R d2 d3 \<Longrightarrow> R d1 d3"

sublocale db_preorder \<subseteq> io: monotone_io "db_rel R :: 'z world_scheme \<Rightarrow> 'z world_scheme \<Rightarrow> bool"
  by unfold_locales (auto simp: db_rel_def intro: db_refl db_trans)

text \<open>\<open>applied stmt d d'\<close>: d' is d after the statement took effect some number of times, each time
  but perhaps the last with its reply lost.\<close>

definition applied :: "'a statement \<Rightarrow> db \<Rightarrow> db \<Rightarrow> bool" where
  "applied stmt = (\<lambda>d d'. d' = snd (stmt d))\<^sup>*\<^sup>*"

lemma applied_refl [simp]: "applied stmt d d"
  by (simp add: applied_def)

lemma applied_step: "applied stmt d d' \<Longrightarrow> d'' = snd (stmt d') \<Longrightarrow> applied stmt d d''"
  unfolding applied_def by (rule rtranclp.rtrancl_into_rtrancl) auto

lemma applied_trans: "applied stmt d d' \<Longrightarrow> applied stmt d' d'' \<Longrightarrow> applied stmt d d''"
  unfolding applied_def by (rule rtranclp_trans)

lemma pg_call_applied: "pg_call stmt w = (r, w') \<Longrightarrow> applied stmt (w_db w) (w_db w')"
  by (drule pg_call_world) (auto intro: applied_step [OF applied_refl])

lemma sleep_ms_db [simp]: "sleep_ms ms w = (r, w') \<Longrightarrow> w_db w' = w_db w"
  by (auto simp: sleep_ms_def)

lemma write_attempts_applied:
  "write_attempts cfg (pg_call stmt) n w = (r, w') \<Longrightarrow>
     applied stmt (w_db w) (w_db w')
     \<and> (\<forall>x. r = Inr x \<longrightarrow> (\<exists>d. applied stmt (w_db w) d \<and> stmt d = (Inr x, w_db w')))"
proof (induction cfg "pg_call stmt :: ('z, 'a) sapi" n arbitrary: w rule: write_attempts.induct)
  case (1 cfg n)
  from "1.prems" have t: "try_except (pg_call stmt) (\<lambda>e. if is_transient e then
       if int n \<ge> db_max_retry cfg then raise e
       else seq (sleep_ms (db_retry_base_wait_ms cfg * 2 ^ (n - 1))) (write_attempts cfg (pg_call stmt) (Suc n))
     else raise e) w = (r, w')"
    by (subst (asm) write_attempts.simps)
  obtain q w1 where q: "pg_call stmt w = (q, w1)" by fastforce
  show ?case
  proof (cases q)
    case (Inr x)
    with t q have r: "r = Inr x" "w' = w1" by (simp_all add: try_except_def)
    from q Inr pg_call_Inr [of stmt w x w1] have s: "stmt (w_db w) = (Inr x, w_db w1)" by auto
    have "applied stmt (w_db w) (w_db w1)" using q by (rule pg_call_applied)
    moreover have "applied stmt (w_db w) (w_db w) \<and> stmt (w_db w) = (Inr x, w_db w1)" using s by simp
    ultimately show ?thesis unfolding r by blast
  next
    case (Inl e)
    have a1: "applied stmt (w_db w) (w_db w1)" using q by (rule pg_call_applied)
    show ?thesis
    proof (cases "is_transient e \<and> \<not> int n \<ge> db_max_retry cfg")
      case True
      with t q Inl obtain w2 where
        s: "sleep_ms (db_retry_base_wait_ms cfg * 2 ^ (n - 1)) w1 = (Inr (), w2)"
        and wa: "write_attempts cfg (pg_call stmt) (Suc n) w2 = (r, w')"
        by (auto simp: try_except_def bind_def sleep_ms_def modify_def)
      have "w_db w2 = w_db w1" using s by simp
      with "1.hyps" [OF _ _ wa] True a1 show ?thesis by (metis applied_trans)
    next
      case False
      with t q Inl have "r = Inl e \<and> w' = w1"
        by (auto simp: try_except_def split: if_splits)
      with a1 show ?thesis by simp
    qed
  qed
qed

lemma db_write_applied:
  "db_write_with_retry cfg (pg_call stmt) w = (r, w') \<Longrightarrow>
     applied stmt (w_db w) (w_db w')
     \<and> (\<forall>x. r = Inr x \<longrightarrow> (\<exists>d. applied stmt (w_db w) d \<and> stmt d = (Inr x, w_db w')))"
  unfolding db_write_with_retry_def translated_errors_def
  by (cases r) (auto simp: io_eqs dest: write_attempts_applied)

lemma db_begin_db: "db_begin cfg w = (r, w') \<Longrightarrow> w_db w' = w_db w"
proof -
  have id: "applied (\<lambda>d. (Inr (), d)) d d' \<Longrightarrow> d' = d" for d d' :: db
    unfolding applied_def by (induction rule: rtranclp_induct) auto
  show "db_begin cfg w = (r, w') \<Longrightarrow> w_db w' = w_db w"
    unfolding db_begin_def by (drule db_write_applied) (auto dest: id)
qed

text \<open>Atomicity: the tables afterwards are those of the start, or those the whole block left; a
  normal return means the latter.\<close>

lemma db_transaction_cases:
  assumes "db_transaction cfg body w = (r, w')"
  shows "(\<exists>e. r = Inl e) \<and> w_db w' = w_db w
    \<or> (\<exists>w1 w2 x. w_db w1 = w_db w \<and> db_begin cfg w = (Inr (), w1) \<and> body w1 = (Inr x, w2)
         \<and> w_db w' = w_db w2 \<and> pg_frame w2 w' \<and> ((\<exists>e. r = Inl e) \<or> r = Inr x))"
proof -
  obtain q w1 where b: "db_begin cfg w = (q, w1)" by fastforce
  have d: "w_db w1 = w_db w" using b by (rule db_begin_db)
  show ?thesis
  proof (cases q)
    case (Inl e)
    with assms b d show ?thesis by (auto simp: db_transaction_def bind_def)
  next
    case (Inr _)
    obtain q2 w2 where bd: "body w1 = (q2, w2)" by fastforce
    show ?thesis
    proof (cases q2)
      case Inl2: (Inl e)
      with assms b bd Inr d show ?thesis
        by (auto simp: db_transaction_def io_defs pg_rollback_def)
    next
      case Inr2: (Inr x)
      with assms b bd Inr d show ?thesis
        by (auto simp: db_transaction_def io_defs translated_errors_def pg_commit_def pg_frame_def
            split: fault.splits)
    qed
  qed
qed

lemma db_transaction_Inr:
  "db_transaction cfg body w = (Inr x, w') \<Longrightarrow>
     \<exists>w1 w2. w_db w1 = w_db w \<and> db_begin cfg w = (Inr (), w1) \<and> body w1 = (Inr x, w2)
       \<and> w_db w' = w_db w2 \<and> pg_frame w2 w'"
  by (drule db_transaction_cases) auto

lemma db_transaction_agnostic:
  assumes "db_transaction cfg body w = (Inl e, w')"
    and "\<And>w1 e w2. body w1 = (Inl e, w2) \<Longrightarrow> driver_agnostic e"
  shows "driver_agnostic e"
  using assms(1) unfolding db_transaction_def db_begin_def db_write_with_retry_def pg_rollback_def
  by (auto simp: io_eqs dest: translated_Inl assms(2))

context db_preorder
begin

lemma applied_rel: "(\<And>d. R d (snd (stmt d))) \<Longrightarrow> applied stmt d d' \<Longrightarrow> R d d'"
  unfolding applied_def
  by (rotate_tac 1, induction rule: rtranclp_induct) (auto intro: db_refl db_trans)

lemma pg_call_rel: "(\<And>d. R d (snd (stmt d))) \<Longrightarrow> always (db_rel R) (pg_call stmt)"
  by (rule alwaysI) (auto simp: db_rel_def dest!: pg_call_applied intro: applied_rel)

lemma db_write_rel:
  "(\<And>d. R d (snd (stmt d))) \<Longrightarrow> always (db_rel R) (db_write_with_retry cfg (pg_call stmt))"
  by (rule alwaysI) (auto simp: db_rel_def dest!: db_write_applied intro: applied_rel)

lemma db_execute_returning_rel:
  "(\<And>d. R d (snd (stmt d))) \<Longrightarrow> always (db_rel R) (db_execute_returning cfg stmt)"
  unfolding db_execute_returning_def by (rule db_write_rel)

lemma db_execute_rel: "(\<And>d. R d (snd (stmt d))) \<Longrightarrow> always (db_rel R) (db_execute cfg stmt)"
  unfolding db_execute_def by (intro io.always_bind io.always_ret db_write_rel)

lemma translated_rel: "always (db_rel R) m \<Longrightarrow> always (db_rel R) (translated_errors m)"
  unfolding translated_errors_def by (intro io.always_try io.always_raise)

lemma tx_execute_returning_rel:
  "(\<And>d. R d (snd (stmt d))) \<Longrightarrow> always (db_rel R) (tx_execute_returning stmt)"
  unfolding tx_execute_returning_def by (intro translated_rel pg_call_rel)

lemma tx_execute_rel: "(\<And>d. R d (snd (stmt d))) \<Longrightarrow> always (db_rel R) (tx_execute stmt)"
  unfolding tx_execute_def by (intro io.always_bind io.always_ret translated_rel pg_call_rel)

lemma db_fetch_rel: "always (db_rel R) (db_fetch q)"
  unfolding db_fetch_def by (intro translated_rel pg_call_rel) (simp add: db_refl)

lemma db_transaction_rel:
  "always (db_rel R) body \<Longrightarrow> always (db_rel R) (db_transaction cfg body)"
proof (rule alwaysI)
  fix w r w'
  assume b: "always (db_rel R) body" and t: "db_transaction cfg body w = (r, w')"
  from db_transaction_cases [OF t] show "db_rel R w w'"
    by (auto simp: db_rel_def db_refl dest!: alwaysD [OF b])
qed

end

text \<open>Relations that do not look at what a database call changes.\<close>

locale pg_blind = monotone_io R for R :: "'z world_scheme \<Rightarrow> 'z world_scheme \<Rightarrow> bool" +
  assumes pg_blind: "pg_frame w w' \<Longrightarrow> R w w'"
begin

lemma always_pg_frame: "always pg_frame m \<Longrightarrow> always R m"
  unfolding always_def using pg_blind by blast

lemma always_pg:
  "always R (db_execute_returning cfg stmt)" "always R (db_execute cfg stmt')" "always R (db_fetch q)"
  "always R (tx_execute_returning stmt)" "always R (tx_execute stmt')" "always R (db_begin cfg)"
  by (intro always_pg_frame db_execute_returning_frame db_execute_frame db_fetch_frame
      tx_execute_returning_frame tx_execute_frame db_begin_frame)+

lemma always_transaction: "always R body \<Longrightarrow> always R (db_transaction cfg body)"
proof -
  assume b: "always R body"
  have m: "always pg_frame (modify (\<lambda>w. w\<lparr> w_pg := tl (w_pg w) \<rparr>))"
    by (rule always_modify) (simp add: pg_frame_def)
  show ?thesis
    unfolding db_transaction_def
    by (intro always_bind always_try always_get_w always_raise always_ret b always_pg
        always_pg_frame [OF pg_rollback_frame] always_pg_frame [OF m]
        always_pg_frame [OF translated_frame [OF pg_commit_frame]])
qed

end

end
