(* ===== verification/Sapi_Repos.thy ===== *)
theory Sapi_Repos
  imports Sapi_Db "HOL-Library.Product_Lexorder" "HOL-Library.List_Lexorder"
begin

text \<open>
  \<^verbatim>\<open>app/persistent\<close> and the tables of \<^verbatim>\<open>alembic/versions\<close>: each SQL statement as its effect on
  the tables, with the constraints the migrations declare, and the repository operations built
  from them. A violated constraint is the driver's exception. Text orders by code point.
\<close>

section \<open>entity_events\<close>

text \<open>The statement's fifteen values, in order.\<close>

definition entity_event_values :: "entity_event \<Rightarrow> uuid \<Rightarrow> instant \<Rightarrow> entity_event_row" where
  "entity_event_values e new_id now =
     (let llm = v_output (ee_analysis_outcome e)
      in \<lparr> er_entity_event_id = new_id,
           er_exchange = st_exchange (ee_stock e),
           er_source_url = ee_source_url e,
           er_source_name = ee_source_name e,
           er_published_at = ee_published_at e,
           er_stock_code = st_stock_code (ee_stock e),
           er_event_type_primary = ao_event_type_primary llm,
           er_sentiment_label = ao_sentiment_label llm,
           er_sentiment_score = ao_sentiment_score llm,
           er_headline = ao_headline llm,
           er_entity_summary = ao_entity_summary llm,
           er_additional_outcome =
             \<lparr> jo_version = v_version (ee_analysis_outcome e),
               jo_company_name_zh = st_company_name_zh (ee_stock e),
               jo_company_name_en = st_company_name_en (ee_stock e),
               jo_event_type_secondary = ao_event_type_secondary llm,
               jo_headline = ao_headline llm,
               jo_entity_summary = ao_entity_summary llm \<rparr>,
           er_cleaned_id = ee_source_id e,
           er_created_at = now,
           er_updated_at = now \<rparr>)"

text \<open>The \<^verbatim>\<open>VARCHAR(n)\<close> columns; the enum columns are wide enough for every member.\<close>

definition entity_event_fits :: "entity_event_row \<Rightarrow> bool" where
  "entity_event_fits r \<longleftrightarrow>
     length (er_exchange r) \<le> 10 \<and> length (er_source_name r) \<le> 50 \<and> length (er_stock_code r) \<le> 20"

definition insert_entity_event :: "entity_event_row \<Rightarrow> uuid option statement" where
  "insert_entity_event r d =
     (if \<not> entity_event_fits r then (Inl (Pg PostgresError), d)
      else if \<exists>x \<in> set (t_entity_events d).
                er_source_url x = er_source_url r \<and> er_stock_code x = er_stock_code r
      then (Inr None, d)
      else if \<exists>x \<in> set (t_entity_events d). er_entity_event_id x = er_entity_event_id r
      then (Inl (Pg (UniqueViolationError (u ''entity_events_pkey''))), d)
      else (Inr (Some (er_entity_event_id r)), d\<lparr> t_entity_events := t_entity_events d @ [r] \<rparr>))"

definition row_to_entity_event :: "entity_event_row \<Rightarrow> entity_event" where
  "row_to_entity_event r =
     \<lparr> ee_source_id = er_cleaned_id r,
       ee_source_url = er_source_url r,
       ee_source_name = er_source_name r,
       ee_published_at = er_published_at r,
       ee_analysis_outcome =
         \<lparr> v_version = jo_version (er_additional_outcome r),
           v_output =
             \<lparr> ao_stock_code = er_stock_code r,
               ao_event_type_primary = er_event_type_primary r,
               ao_event_type_secondary = jo_event_type_secondary (er_additional_outcome r),
               ao_sentiment_label = er_sentiment_label r,
               ao_sentiment_score = er_sentiment_score r,
               ao_headline = er_headline r,
               ao_entity_summary = er_entity_summary r \<rparr> \<rparr>,
       ee_stock =
         \<lparr> st_stock_code = er_stock_code r,
           st_exchange = er_exchange r,
           st_company_name_zh = jo_company_name_zh (er_additional_outcome r),
           st_company_name_en = jo_company_name_en (er_additional_outcome r) \<rparr>,
       ee_entity_event_id = Some (er_entity_event_id r),
       ee_created_at = Some (er_created_at r) \<rparr>"

definition persist_entities ::
  "database_config \<Rightarrow> entity_event list \<Rightarrow> ('z, entity_event list) sapi" where
  "persist_entities cfg entities =
     db_transaction cfg (fold_io (\<lambda>persisted entity.
       bind uuid4 (\<lambda>new_id.
       bind datetime_now (\<lambda>now.
       bind (tx_execute_returning (insert_entity_event (entity_event_values entity new_id now))) (\<lambda>inserted.
       ret (if inserted \<noteq> None
            then persisted @ [entity\<lparr> ee_entity_event_id := Some new_id, ee_created_at := Some now \<rparr>]
            else persisted))))) [] entities)"

definition fetch_entity_event_ids_by_source_url :: "pystr \<Rightarrow> ('z, uuid list) sapi" where
  "fetch_entity_event_ids_by_source_url url =
     db_fetch (\<lambda>d. map er_entity_event_id (filter (\<lambda>r. er_source_url r = url) (t_entity_events d)))"

definition fetch_entity_event :: "uuid \<Rightarrow> ('z, entity_event option) sapi" where
  "fetch_entity_event i =
     db_fetch (\<lambda>d. map_option row_to_entity_event
       (find (\<lambda>r. er_entity_event_id r = i) (t_entity_events d)))"

text \<open>The join with \<^verbatim>\<open>event_entity_map\<close>.\<close>

definition entity_events_of_event :: "db \<Rightarrow> uuid \<Rightarrow> entity_event_row list" where
  "entity_events_of_event d ev =
     concat (map (\<lambda>m. filter (\<lambda>r. er_entity_event_id r = eem_entity_event_id m) (t_entity_events d))
       (filter (\<lambda>m. eem_event_id m = ev) (t_event_entity_map d)))"

definition fetch_entity_events_for_event :: "uuid \<Rightarrow> ('z, entity_event list) sapi" where
  "fetch_entity_events_for_event ev =
     db_fetch (\<lambda>d. map row_to_entity_event (entity_events_of_event d ev))"

section \<open>events\<close>

definition reported_at :: "entity_event_row \<Rightarrow> instant" where
  "reported_at r = (case er_published_at r of Some t \<Rightarrow> t | None \<Rightarrow> er_created_at r)"

definition constituents :: "uuid list \<Rightarrow> db \<Rightarrow> entity_event_row list" where
  "constituents ids d = filter (\<lambda>r. er_entity_event_id r \<in> set ids) (t_entity_events d)"

text \<open>The two most frequent secondary types, the more recently reported one first on a tie.\<close>

definition secondary_reports :: "entity_event_row list \<Rightarrow> event_type \<Rightarrow> entity_event_row list" where
  "secondary_reports rs t =
     filter (\<lambda>r. jo_event_type_secondary (er_additional_outcome r) = Some t) rs"

definition latest_report :: "entity_event_row list \<Rightarrow> instant" where
  "latest_report rs = foldr max (map reported_at rs) (reported_at (hd rs))"

definition secondary_key :: "entity_event_row list \<Rightarrow> event_type \<Rightarrow> int \<times> int \<times> event_type" where
  "secondary_key rs t =
     (- int (length (secondary_reports rs t)), - latest_report (secondary_reports rs t), t)"

definition computed_secondary :: "entity_event_row list \<Rightarrow> event_type list" where
  "computed_secondary rs =
     take 2 (sort_key (secondary_key rs) (filter (\<lambda>t. secondary_reports rs t \<noteq> []) event_types))"

text \<open>One entry per source, from its most recent report, ordered by source; NULL without a report.\<close>

fun most_recent :: "entity_event_row \<Rightarrow> entity_event_row list \<Rightarrow> entity_event_row" where
  "most_recent r [] = r"
| "most_recent r (x # xs) = most_recent (if reported_at r < reported_at x then x else r) xs"

definition source_of_reports :: "entity_event_row list \<Rightarrow> pystr \<Rightarrow> entity_source" where
  "source_of_reports rs name =
     (let own = filter (\<lambda>r. er_source_name r = name) rs; r = most_recent (hd own) (tl own)
      in \<lparr> src_source_name = name, src_url = er_source_url r, src_published_at = reported_at r \<rparr>)"

definition computed_source_list :: "entity_event_row list \<Rightarrow> entity_source list option" where
  "computed_source_list rs =
     (if rs = [] then None
      else Some (map (source_of_reports rs) (sort (remdups (map er_source_name rs)))))"

definition coalesce :: "'a option \<Rightarrow> 'a option \<Rightarrow> 'a option" where
  "coalesce x y = (case x of Some v \<Rightarrow> Some v | None \<Rightarrow> y)"

text \<open>The row the INSERT proposes (EXCLUDED); None is the violated NOT NULL of \<^verbatim>\<open>source_list\<close>.\<close>

definition proposed_event_row :: "instant \<Rightarrow> event \<Rightarrow> instant \<Rightarrow> uuid list \<Rightarrow> db \<Rightarrow> event_row option" where
  "proposed_event_row now e upd ids d =
     (case coalesce (ev_source_list e) (computed_source_list (constituents ids d)) of
        None \<Rightarrow> None
      | Some srcs \<Rightarrow> Some
          \<lparr> vr_event_id = ev_event_id e,
            vr_exchange = ev_exchange e,
            vr_stock_code = ev_stock_code e,
            vr_event_type_primary = ev_event_type_primary e,
            vr_event_type_secondary =
              the (coalesce (ev_event_type_secondary e) (Some (computed_secondary (constituents ids d)))),
            vr_source_list = srcs,
            vr_first_seen_at = ev_first_seen_at e,
            vr_last_seen_at = ev_last_seen_at e,
            vr_aggregation_updated_at = upd,
            vr_published_aggregation_updated_at = None,
            vr_updated_at = now,
            vr_created_at = now \<rparr>)"

definition find_event :: "uuid \<Rightarrow> db \<Rightarrow> event_row option" where
  "find_event i d = find (\<lambda>r. vr_event_id r = i) (t_events d)"

definition do_update_event :: "event_row \<Rightarrow> event_row \<Rightarrow> event_row" where
  "do_update_event x r = r\<lparr> vr_first_seen_at := vr_first_seen_at x, vr_last_seen_at := vr_last_seen_at x,
     vr_aggregation_updated_at := vr_aggregation_updated_at x,
     vr_event_type_secondary := vr_event_type_secondary x, vr_source_list := vr_source_list x,
     vr_updated_at := vr_updated_at x \<rparr>"

definition map_events :: "uuid \<Rightarrow> (event_row \<Rightarrow> event_row) \<Rightarrow> db \<Rightarrow> db" where
  "map_events i f d = d\<lparr> t_events := map (\<lambda>r. if vr_event_id r = i then f r else r) (t_events d) \<rparr>"

definition upsert_event_stmt ::
  "instant \<Rightarrow> event \<Rightarrow> instant \<Rightarrow> uuid list \<Rightarrow> event_row option statement" where
  "upsert_event_stmt now e upd ids d =
     (case proposed_event_row now e upd ids d of
        None \<Rightarrow> (Inl (Pg PostgresError), d)
      | Some x \<Rightarrow>
          if length (vr_exchange x) > 10 \<or> length (vr_stock_code x) > 20 then (Inl (Pg PostgresError), d)
          else case find_event (ev_event_id e) d of
                 None \<Rightarrow> (Inr (Some x), d\<lparr> t_events := t_events d @ [x] \<rparr>)
               | Some r \<Rightarrow>
                   if vr_aggregation_updated_at r < vr_aggregation_updated_at x
                   then (Inr (Some (do_update_event x r)), map_events (ev_event_id e) (do_update_event x) d)
                   else (Inr None, d))"

text \<open>\<^verbatim>\<open>ON CONFLICT DO NOTHING\<close> absorbs both unique constraints; the foreign keys are checked for a
  row that is inserted.\<close>

definition insert_event_entity_map :: "event_entity_map \<Rightarrow> unit statement" where
  "insert_event_entity_map m d =
     (if \<exists>x \<in> set (t_event_entity_map d). eem_entity_event_id x = eem_entity_event_id m then (Inr (), d)
      else if find_event (eem_event_id m) d = None
        \<or> (\<forall>r \<in> set (t_entity_events d). er_entity_event_id r \<noteq> eem_entity_event_id m)
      then (Inl (Pg PostgresError), d)
      else (Inr (), d\<lparr> t_event_entity_map := t_event_entity_map d @ [m] \<rparr>))"

definition row_to_event :: "event_row \<Rightarrow> event" where
  "row_to_event r =
     \<lparr> ev_event_id = vr_event_id r,
       ev_exchange = vr_exchange r,
       ev_stock_code = vr_stock_code r,
       ev_event_type_primary = vr_event_type_primary r,
       ev_first_seen_at = vr_first_seen_at r,
       ev_last_seen_at = vr_last_seen_at r,
       ev_event_type_secondary = Some (vr_event_type_secondary r),
       ev_source_list = Some (vr_source_list r),
       ev_aggregation_updated_at = Some (vr_aggregation_updated_at r),
       ev_updated_at = Some (vr_updated_at r),
       ev_created_at = Some (vr_created_at r),
       ev_entity_event_ids = None \<rparr>"

definition persist_one :: "instant \<Rightarrow> instant \<Rightarrow> event list \<Rightarrow> event \<Rightarrow> ('z, event list) sapi" where
  "persist_one db_now now written e =
     bind (some_or_assert (ev_aggregation_updated_at e)) (\<lambda>upd.
     bind (some_or_assert (ev_entity_event_ids e)) (\<lambda>ids.
     bind (tx_execute_returning (upsert_event_stmt db_now e upd ids)) (\<lambda>row.
     seq (for_each ids (\<lambda>i. tx_execute (insert_event_entity_map
            \<lparr> eem_event_id = ev_event_id e, eem_entity_event_id = i, eem_created_at = now \<rparr>)))
     (ret (case row of None \<Rightarrow> written | Some r \<Rightarrow> written @ [row_to_event r])))))"

definition persist_events :: "database_config \<Rightarrow> event list \<Rightarrow> ('z, event list) sapi" where
  "persist_events cfg active_events =
     bind datetime_now (\<lambda>now.
     bind (get_w w_now) (\<lambda>db_now.
     db_transaction cfg (fold_io (persist_one db_now now) [] active_events)))"

definition fetch_event :: "uuid \<Rightarrow> ('z, event option) sapi" where
  "fetch_event i = db_fetch (\<lambda>d. map_option row_to_event (find_event i d))"

definition unpublished :: "event_row \<Rightarrow> bool" where
  "unpublished r \<longleftrightarrow> (case vr_published_aggregation_updated_at r of
       None \<Rightarrow> True | Some p \<Rightarrow> p < vr_aggregation_updated_at r)"

definition fetch_unpublished_events :: "uuid list \<Rightarrow> ('z, event list) sapi" where
  "fetch_unpublished_events ids =
     db_fetch (\<lambda>d. map row_to_event
       (filter (\<lambda>r. vr_event_id r \<in> set ids \<and> unpublished r) (t_events d)))"

definition mark_row_published :: "instant \<Rightarrow> event_row \<Rightarrow> event_row" where
  "mark_row_published t r =
     (case vr_published_aggregation_updated_at r of
        None \<Rightarrow> r\<lparr> vr_published_aggregation_updated_at := Some t \<rparr>
      | Some p \<Rightarrow> if p < t then r\<lparr> vr_published_aggregation_updated_at := Some t \<rparr> else r)"

definition mark_published :: "database_config \<Rightarrow> uuid \<Rightarrow> instant \<Rightarrow> ('z, unit) sapi" where
  "mark_published cfg i t = db_execute cfg (\<lambda>d. (Inr (), map_events i (mark_row_published t) d))"

definition fetch_mapped_event_id :: "uuid \<Rightarrow> ('z, uuid option) sapi" where
  "fetch_mapped_event_id i =
     db_fetch (\<lambda>d. map_option eem_event_id (find (\<lambda>m. eem_entity_event_id m = i) (t_event_entity_map d)))"

section \<open>event_scores\<close>

text \<open>Written only while the Event's stored version is the expected one; a second score of the
  Event keeps \<^verbatim>\<open>score_id\<close> and \<^verbatim>\<open>created_at\<close>.\<close>

definition upsert_event_score_stmt ::
  "instant \<Rightarrow> event_score \<Rightarrow> instant \<Rightarrow> event_score option statement" where
  "upsert_event_score_stmt now s expected d =
     (case find_event (es_event_id s) d of
        None \<Rightarrow> (Inr None, d)
      | Some r \<Rightarrow>
          if vr_aggregation_updated_at r \<noteq> expected then (Inr None, d)
          else
            let x = s\<lparr> es_scored_aggregation_updated_at := expected, es_updated_at := now, es_created_at := now \<rparr>
            in case find (\<lambda>y. es_event_id y = es_event_id s) (t_event_scores d) of
                 Some old \<Rightarrow>
                   let new = x\<lparr> es_score_id := es_score_id old, es_created_at := es_created_at old \<rparr>
                   in (Inr (Some new), d\<lparr> t_event_scores :=
                         map (\<lambda>y. if es_event_id y = es_event_id s then new else y) (t_event_scores d) \<rparr>)
               | None \<Rightarrow>
                   if \<exists>y \<in> set (t_event_scores d). es_score_id y = es_score_id s
                   then (Inl (Pg (UniqueViolationError (u ''event_scores_pkey''))), d)
                   else (Inr (Some x), d\<lparr> t_event_scores := t_event_scores d @ [x] \<rparr>))"

definition persist_score_if_not_stale ::
  "database_config \<Rightarrow> event_score \<Rightarrow> instant \<Rightarrow> ('z, event_score option) sapi" where
  "persist_score_if_not_stale cfg s expected =
     bind (get_w w_now) (\<lambda>db_now.
     db_execute_returning cfg (upsert_event_score_stmt db_now s expected))"

end
