(* ===== verification/Sapi_Aggregation.thy ===== *)
theory Sapi_Aggregation
  imports Sapi_Window Sapi_Event_Store Sapi_Stream Sapi_Repos
begin

text \<open>
  \<^verbatim>\<open>app/aggregation/group_coroutine.py\<close> and \<^verbatim>\<open>app/aggregation/aggregation_service.py\<close>: the
  service's memory (the live groups with their queues, the permits, the versions of the last
  flush), the merge of one EntityEvent, the flush and the outbox they share.

  A unit of work is the data its closure captures. A call that has to wait for a permit is
  suspended: it returns its work, which \<open>resume_call\<close> hands to the group once there is a permit.
\<close>

section \<open>State\<close>

record group_key =
  gk_exchange :: pystr
  gk_stock_code :: pystr
  gk_event_type_primary :: event_type

definition group_id_of :: "group_key \<Rightarrow> group_id" where
  "group_id_of g = (gk_exchange g, gk_stock_code g, gk_event_type_primary g)"

text \<open>\<^verbatim>\<open>lambda: self._merge(entity_event, group_key, on_success, on_failure)\<close>, where both callbacks
  capture the EntityEvent's id and the message's id.\<close>

record merge_work =
  mw_entity_event :: entity_event
  mw_group_key :: group_key
  mw_entity_event_id :: uuid
  mw_message_id :: message_id

record agg_world = world +
  m_groups :: "(group_key \<times> merge_work list) list"
  m_permits :: nat
  m_last_flushed :: "(uuid \<times> instant option) list"
  m_enqueued :: "uuid list"

type_synonym ('z, 'a) agg = "('z agg_world_scheme, exn, 'a) io"

section \<open>Groups\<close>

definition group_queue :: "'z agg_world_scheme \<Rightarrow> group_key \<Rightarrow> merge_work list option" where
  "group_queue w g = map_of (m_groups w) g"

text \<open>\<^verbatim>\<open>GroupCoroutine.enqueue\<close>: the queue is unbounded.\<close>

definition group_enqueue :: "group_key \<Rightarrow> merge_work \<Rightarrow> ('z, unit) agg" where
  "group_enqueue g work = modify (\<lambda>w.
     case group_queue w g of
       None \<Rightarrow> w
     | Some q \<Rightarrow> w\<lparr> m_groups := al_put g (q @ [work]) (m_groups w) \<rparr>)"

text \<open>\<^verbatim>\<open>_on_idle\<close>.\<close>

definition on_idle :: "group_key \<Rightarrow> ('z, unit) agg" where
  "on_idle g = modify (\<lambda>w. w\<lparr> m_groups := al_pop g (m_groups w), m_permits := Suc (m_permits w) \<rparr>)"

text \<open>One iteration of \<^verbatim>\<open>_run\<close>: the wait for work ends with a unit of work, which runs and whose
  failure is logged, or with the timeout, which ends the group unless work arrived meanwhile.
  The result tells whether the coroutine goes on.\<close>

definition group_work :: "(merge_work \<Rightarrow> ('z, unit) agg) \<Rightarrow> group_key \<Rightarrow> ('z, bool) agg" where
  "group_work run g = (\<lambda>w.
     case group_queue w g of
       Some (x # q) \<Rightarrow>
         bind (try_except (run x) (\<lambda>e. if is_exception e then ret () else raise e)) (\<lambda>_. ret True)
           (w\<lparr> m_groups := al_put g q (m_groups w) \<rparr>)
     | _ \<Rightarrow> (Inr True, w))"

definition group_timeout :: "group_key \<Rightarrow> ('z, bool) agg" where
  "group_timeout g = (\<lambda>w.
     case group_queue w g of
       None \<Rightarrow> (Inr False, w)
     | Some q \<Rightarrow> if q \<noteq> [] then (Inr True, w) else bind (on_idle g) (\<lambda>_. ret False) w)"

text \<open>\<^verbatim>\<open>_get_group\<close> after the permit: another call may have started the group meanwhile.\<close>

definition start_group :: "group_key \<Rightarrow> ('z, unit) agg" where
  "start_group g = modify (\<lambda>w.
     if group_queue w g \<noteq> None then w\<lparr> m_permits := Suc (m_permits w) \<rparr>
     else w\<lparr> m_groups := al_put g [] (m_groups w) \<rparr>)"

definition take_permit :: "('z, unit) agg" where
  "take_permit = modify (\<lambda>w. w\<lparr> m_permits := m_permits w - 1 \<rparr>)"

text \<open>\<^verbatim>\<open>_get_group\<close> and the enqueue that follows it without suspension; the result is the work of a
  call that has to wait.\<close>

definition submit :: "merge_work \<Rightarrow> ('z, merge_work option) agg" where
  "submit work =
     (let g = mw_group_key work
      in bind (get_w (\<lambda>w. (group_queue w g, m_permits w))) (\<lambda>(q, permits).
         if q \<noteq> None then seq (group_enqueue g work) (ret None)
         else if permits = 0 then ret (Some work)
         else seq take_permit (seq (start_group g) (seq (group_enqueue g work) (ret None)))))"

definition resume_call :: "merge_work \<Rightarrow> ('z, bool) agg" where
  "resume_call work =
     bind (get_w m_permits) (\<lambda>permits.
     if permits = 0 then ret False
     else seq take_permit (seq (start_group (mw_group_key work))
            (seq (group_enqueue (mw_group_key work) work) (ret True))))"

section \<open>The service\<close>

record persist_outcome =
  po_persisted :: nat
  po_published :: nat

definition event_message :: "uuid \<Rightarrow> fields" where
  "event_message i = [(u ''event_id'', uuid_str i), (u ''v'', STREAM_VERSION)]"

definition announce :: "app_config \<Rightarrow> event \<Rightarrow> ('z, unit) sapi" where
  "announce cfg e =
     bind (some_or_assert (ev_aggregation_updated_at e)) (\<lambda>upd.
     seq (publish (redis_reconnect_interval_s (cfg_redis cfg)) EVENT_AGGREGATED
            (event_message (ev_event_id e)))
         (mark_published (cfg_db cfg) (ev_event_id e) upd))"

definition persist_and_publish :: "app_config \<Rightarrow> event list \<Rightarrow> ('z, persist_outcome) sapi" where
  "persist_and_publish cfg active_events =
     bind (persist_events (cfg_db cfg) active_events) (\<lambda>persisted.
     bind (fetch_unpublished_events (map ev_event_id active_events)) (\<lambda>pending.
     seq (for_each pending (announce cfg))
         (ret \<lparr> po_persisted = length persisted, po_published = length pending \<rparr>)))"

definition is_merged :: "entity_event \<Rightarrow> event option \<Rightarrow> ('z, bool) sapi" where
  "is_merged e active =
     bind (some_or_assert (ee_entity_event_id e)) (\<lambda>i.
     bind (case active of
             None \<Rightarrow> ret False
           | Some a \<Rightarrow> bind (some_or_assert (ev_entity_event_ids a)) (\<lambda>ids. ret (i \<in> set ids))) (\<lambda>in_active.
     if in_active then ret True
     else bind (fetch_mapped_event_id i) (\<lambda>m. ret (m \<noteq> None))))"

text \<open>The block of \<^verbatim>\<open>_merge\<close> inside its \<^verbatim>\<open>try\<close>.\<close>

definition merge_body ::
  "app_config \<Rightarrow> entity_event \<Rightarrow> group_key \<Rightarrow> ('z, unit) sapi \<Rightarrow> ('z, unit) sapi" where
  "merge_body cfg e g on_success =
     bind (get_active_event (gk_exchange g) (gk_stock_code g) (gk_event_type_primary g)) (\<lambda>active.
     bind (is_merged e active) (\<lambda>merged.
     if merged then on_success
     else
       bind (case active of
               None \<Rightarrow> ret False
             | Some a \<Rightarrow> some_or_assert (is_late (cfg_aggregation cfg) a e)) (\<lambda>late.
       if late then on_success
       else
         bind (merge_or_create (cfg_aggregation cfg) active e) (\<lambda>updated.
         seq (case active of
                None \<Rightarrow> ret ()
              | Some a \<Rightarrow>
                  if ev_event_id updated \<noteq> ev_event_id a
                  then seq (persist_and_publish cfg [a]) (ret ()) else ret ())
        (seq (upsert_active_event updated (ttl_for (cfg_aggregation cfg) updated))
             on_success)))))"

definition merge ::
  "app_config \<Rightarrow> entity_event \<Rightarrow> group_key \<Rightarrow> ('z, unit) sapi \<Rightarrow> ('z, unit) sapi \<Rightarrow> ('z, unit) sapi" where
  "merge cfg e g on_success on_failure =
     try_except (merge_body cfg e g on_success)
       (\<lambda>exc. if is_exception exc then on_failure else raise exc)"

text \<open>\<^verbatim>\<open>process_entity_event\<close>. \<open>on_success\<close> is the callback for an EntityEvent that does not exist.\<close>

definition group_key_of :: "entity_event \<Rightarrow> group_key" where
  "group_key_of e =
     \<lparr> gk_exchange = st_exchange (ee_stock e), gk_stock_code = st_stock_code (ee_stock e),
       gk_event_type_primary = ao_event_type_primary (v_output (ee_analysis_outcome e)) \<rparr>"

definition process_entity_event ::
  "uuid \<Rightarrow> message_id \<Rightarrow> ('z, unit) agg \<Rightarrow> ('z, merge_work option) agg" where
  "process_entity_event i mid on_success =
     bind (fetch_entity_event i) (\<lambda>r.
     case r of
       None \<Rightarrow> seq on_success (ret None)
     | Some e \<Rightarrow> submit \<lparr> mw_entity_event = e, mw_group_key = group_key_of e,
                         mw_entity_event_id = i, mw_message_id = mid \<rparr>)"

text \<open>\<^verbatim>\<open>flush\<close>.\<close>

definition last_flushed :: "'z agg_world_scheme \<Rightarrow> uuid \<Rightarrow> instant option" where
  "last_flushed w i = (case map_of (m_last_flushed w) i of None \<Rightarrow> None | Some t \<Rightarrow> t)"

definition flushed_versions :: "event list \<Rightarrow> (uuid \<times> instant option) list" where
  "flushed_versions es = fold (\<lambda>e. al_put (ev_event_id e) (ev_aggregation_updated_at e)) es []"

definition flush :: "app_config \<Rightarrow> ('z, unit) agg" where
  "flush cfg =
     bind scan_all (\<lambda>active_events.
     bind (get_w (\<lambda>w. filter (\<lambda>e. last_flushed w (ev_event_id e) \<noteq> ev_aggregation_updated_at e)
                        active_events)) (\<lambda>changed.
     seq (when_io (changed \<noteq> []) (seq (persist_and_publish cfg changed) (ret ())))
         (modify (\<lambda>w. w\<lparr> m_last_flushed := flushed_versions active_events \<rparr>))))"

end
