(* ===== verification/Sapi_Repos_Props.thy ===== *)
theory Sapi_Repos_Props
  imports Sapi_Repos
begin

text \<open>
  What every statement of the repositories does to the tables: rows are never taken away, an
  Event's version and its published mark only move forward, a score keeps its identity
  (\<open>db_le\<close>), and the declared keys hold (\<open>db_ok\<close>). Both are instances of \<open>db_preorder\<close>, so they
  pass through retries, transactions and every operation built from the statements.
\<close>

section \<open>Growth\<close>

definition opt_le :: "instant option \<Rightarrow> instant option \<Rightarrow> bool" where
  "opt_le a b \<longleftrightarrow> (case a of None \<Rightarrow> True | Some x \<Rightarrow> (case b of None \<Rightarrow> False | Some y \<Rightarrow> x \<le> y))"

definition row_le :: "event_row \<Rightarrow> event_row \<Rightarrow> bool" where
  "row_le r r' \<longleftrightarrow>
     vr_event_id r' = vr_event_id r \<and> vr_exchange r' = vr_exchange r \<and> vr_stock_code r' = vr_stock_code r
     \<and> vr_event_type_primary r' = vr_event_type_primary r \<and> vr_created_at r' = vr_created_at r
     \<and> vr_aggregation_updated_at r \<le> vr_aggregation_updated_at r'
     \<and> opt_le (vr_published_aggregation_updated_at r) (vr_published_aggregation_updated_at r')
     \<and> (vr_aggregation_updated_at r' = vr_aggregation_updated_at r \<longrightarrow>
          vr_first_seen_at r' = vr_first_seen_at r \<and> vr_last_seen_at r' = vr_last_seen_at r
          \<and> vr_event_type_secondary r' = vr_event_type_secondary r \<and> vr_source_list r' = vr_source_list r)"

definition score_le :: "event_score \<Rightarrow> event_score \<Rightarrow> bool" where
  "score_le s s' \<longleftrightarrow> es_event_id s' = es_event_id s \<and> es_score_id s' = es_score_id s
     \<and> es_created_at s' = es_created_at s"

text \<open>The rows of the first list are still there, in place, each related to what it was.\<close>

definition grown :: "('a \<Rightarrow> 'a \<Rightarrow> bool) \<Rightarrow> 'a list \<Rightarrow> 'a list \<Rightarrow> bool" where
  "grown R xs ys \<longleftrightarrow> length xs \<le> length ys \<and> (\<forall>i < length xs. R (xs ! i) (ys ! i))"

lemma grown_refl: "(\<And>x. R x x) \<Longrightarrow> grown R xs xs"
  by (simp add: grown_def)

lemma grown_trans:
  "(\<And>x y z. R x y \<Longrightarrow> R y z \<Longrightarrow> R x z) \<Longrightarrow> grown R xs ys \<Longrightarrow> grown R ys zs \<Longrightarrow> grown R xs zs"
  unfolding grown_def by (meson order_less_le_trans order_trans)

lemma grown_append: "(\<And>x. R x x) \<Longrightarrow> grown R xs (xs @ ys)"
  by (simp add: grown_def nth_append)

lemma grown_map: "(\<And>x. x \<in> set xs \<Longrightarrow> R x (f x)) \<Longrightarrow> grown R xs (map f xs)"
  by (simp add: grown_def)

lemma grown_ex: "grown R xs ys \<Longrightarrow> x \<in> set xs \<Longrightarrow> \<exists>y \<in> set ys. R x y"
  unfolding grown_def by (metis in_set_conv_nth order_less_le_trans)

definition db_le :: "db \<Rightarrow> db \<Rightarrow> bool" where
  "db_le d d' \<longleftrightarrow>
     prefix (t_entity_events d) (t_entity_events d')
     \<and> prefix (t_event_entity_map d) (t_event_entity_map d')
     \<and> grown row_le (t_events d) (t_events d')
     \<and> grown score_le (t_event_scores d) (t_event_scores d')"

lemma opt_le_refl [simp]: "opt_le a a"
  by (simp add: opt_le_def split: option.splits)

lemma opt_le_trans: "opt_le a b \<Longrightarrow> opt_le b c \<Longrightarrow> opt_le a c"
  by (auto simp: opt_le_def split: option.splits)

lemma row_le_refl [simp]: "row_le r r"
  by (simp add: row_le_def)

lemma row_le_trans: "row_le r s \<Longrightarrow> row_le s t \<Longrightarrow> row_le r t"
  unfolding row_le_def by (auto intro: opt_le_trans)

lemma score_le_refl [simp]: "score_le s s"
  by (simp add: score_le_def)

lemma score_le_trans: "score_le r s \<Longrightarrow> score_le s t \<Longrightarrow> score_le r t"
  by (simp add: score_le_def)

interpretation le: db_preorder db_le
proof
  show "db_le d d" for d by (simp add: db_le_def grown_refl)
  show "db_le a b \<Longrightarrow> db_le b c \<Longrightarrow> db_le a c" for a b c
    unfolding db_le_def
    by (metis (no_types, lifting) prefix_order.trans grown_trans row_le_trans score_le_trans)
qed

lemma db_le_refl [simp]: "db_le d d"
  by (rule le.db_refl)

lemma find_event_Some: "find_event i d = Some r \<Longrightarrow> r \<in> set (t_events d) \<and> vr_event_id r = i"
  by (auto simp: find_event_def find_Some_iff)

lemma find_event_None: "find_event i d = None \<longleftrightarrow> (\<forall>r \<in> set (t_events d). vr_event_id r \<noteq> i)"
  by (auto simp: find_event_def find_None_iff)

lemma map_events_le:
  "(\<And>r. r \<in> set (t_events d) \<Longrightarrow> vr_event_id r = i \<Longrightarrow> row_le r (f r)) \<Longrightarrow> db_le d (map_events i f d)"
  by (simp add: db_le_def map_events_def grown_refl grown_map)

lemma insert_entity_event_le: "db_le d (snd (insert_entity_event r d))"
  by (simp add: insert_entity_event_def db_le_def grown_refl)

lemma insert_event_entity_map_le: "db_le d (snd (insert_event_entity_map m d))"
  by (simp add: insert_event_entity_map_def db_le_def grown_refl)

lemma mark_row_published_le: "row_le r (mark_row_published t r)"
  by (simp add: row_le_def mark_row_published_def opt_le_def split: option.splits)

text \<open>The tables keep their keys.\<close>

definition keyed :: "('a \<Rightarrow> 'k) \<Rightarrow> 'a list \<Rightarrow> bool" where
  "keyed f xs \<longleftrightarrow> distinct (map f xs)"

definition db_ok :: "db \<Rightarrow> bool" where
  "db_ok d \<longleftrightarrow>
     keyed er_entity_event_id (t_entity_events d)
     \<and> keyed (\<lambda>r. (er_source_url r, er_stock_code r)) (t_entity_events d)
     \<and> keyed vr_event_id (t_events d)
     \<and> keyed eem_entity_event_id (t_event_entity_map d)
     \<and> (\<forall>m \<in> set (t_event_entity_map d).
          eem_event_id m \<in> vr_event_id ` set (t_events d)
          \<and> eem_entity_event_id m \<in> er_entity_event_id ` set (t_entity_events d))
     \<and> keyed es_event_id (t_event_scores d) \<and> keyed es_score_id (t_event_scores d)
     \<and> (\<forall>s \<in> set (t_event_scores d). es_event_id s \<in> vr_event_id ` set (t_events d))"

lemma keyed_append: "keyed f xs \<Longrightarrow> \<forall>y \<in> set xs. f y \<noteq> f x \<Longrightarrow> keyed f (xs @ [x])"
  by (auto simp: keyed_def)

lemma keyed_map: "keyed f xs \<Longrightarrow> (\<And>x. x \<in> set xs \<Longrightarrow> f (g x) = f x) \<Longrightarrow> keyed f (map g xs)"
  by (simp add: keyed_def comp_def cong: map_cong)

lemma keyed_inj: "keyed f xs \<Longrightarrow> x \<in> set xs \<Longrightarrow> y \<in> set xs \<Longrightarrow> f x = f y \<Longrightarrow> x = y"
  by (auto simp: keyed_def distinct_map inj_on_def)

interpretation ok: db_preorder "\<lambda>d d'. db_ok d \<longrightarrow> db_ok d'"
  by unfold_locales auto

lemma insert_entity_event_ok: "db_ok d \<longrightarrow> db_ok (snd (insert_entity_event r d))"
  by (auto simp: insert_entity_event_def db_ok_def intro!: keyed_append)

lemma insert_event_entity_map_ok: "db_ok d \<longrightarrow> db_ok (snd (insert_event_entity_map m d))"
  by (auto simp: insert_event_entity_map_def db_ok_def find_event_None
      intro!: keyed_append intro: rev_image_eqI)

lemma map_events_other [simp]:
  "t_entity_events (map_events i f d) = t_entity_events d"
  "t_event_entity_map (map_events i f d) = t_event_entity_map d"
  "t_event_scores (map_events i f d) = t_event_scores d"
  by (simp_all add: map_events_def)

lemma map_events_ids:
  "(\<And>r. vr_event_id (f r) = vr_event_id r) \<Longrightarrow>
     map vr_event_id (t_events (map_events i f d)) = map vr_event_id (t_events d)"
  by (simp add: map_events_def)

lemma map_events_ok: "(\<And>r. vr_event_id (f r) = vr_event_id r) \<Longrightarrow> db_ok d \<longrightarrow> db_ok (map_events i f d)"
proof -
  assume f: "\<And>r. vr_event_id (f r) = vr_event_id r"
  note ids = map_events_ids [of f i d, OF f]
  have "vr_event_id ` set (t_events (map_events i f d)) = vr_event_id ` set (t_events d)"
    using arg_cong [OF ids, of set] by simp
  then show ?thesis by (simp add: db_ok_def keyed_def ids)
qed

lemma mark_row_published_id [simp]: "vr_event_id (mark_row_published t r) = vr_event_id r"
  by (simp add: mark_row_published_def split: option.splits)

lemma do_update_event_id [simp]: "vr_event_id (do_update_event x r) = vr_event_id r"
  by (simp add: do_update_event_def)

lemma upsert_event_ok: "db_ok d \<longrightarrow> db_ok (snd (upsert_event_stmt now e upd ids d))"
proof (cases "proposed_event_row now e upd ids d")
  case (Some x)
  then have x: "vr_event_id x = ev_event_id e"
    by (auto simp: proposed_event_row_def split: option.splits)
  show ?thesis
  proof (cases "find_event (ev_event_id e) d")
    case None
    then have n: "\<forall>r \<in> set (t_events d). vr_event_id r \<noteq> vr_event_id x"
      by (simp add: find_event_None x)
    have "db_ok d \<longrightarrow> db_ok (d\<lparr> t_events := t_events d @ [x] \<rparr>)"
      using n by (auto simp: db_ok_def intro!: keyed_append)
    then show ?thesis using Some None by (simp add: upsert_event_stmt_def)
  next
    case (Some r)
    then show ?thesis using \<open>proposed_event_row now e upd ids d = Some x\<close>
        map_events_ok [of "do_update_event x" d]
      by (simp add: upsert_event_stmt_def)
  qed
qed (simp add: upsert_event_stmt_def)

lemma do_update_event_le:
  "vr_aggregation_updated_at r < vr_aggregation_updated_at x \<Longrightarrow> row_le r (do_update_event x r)"
  by (simp add: row_le_def do_update_event_def)

lemma upsert_event_le: "db_ok d \<Longrightarrow> db_le d (snd (upsert_event_stmt now e upd ids d))"
proof (cases "proposed_event_row now e upd ids d")
  case (Some x)
  assume ok: "db_ok d"
  show ?thesis
  proof (cases "find_event (ev_event_id e) d")
    case None
    then show ?thesis using Some by (simp add: upsert_event_stmt_def db_le_def grown_refl grown_append)
  next
    case (Some r)
    have "row_le q (do_update_event x q)"
      if "q \<in> set (t_events d)" "vr_event_id q = ev_event_id e"
        "vr_aggregation_updated_at r < vr_aggregation_updated_at x" for q
    proof -
      have "q = r"
        using that ok find_event_Some [OF Some] keyed_inj [of vr_event_id "t_events d" q r]
        by (simp add: db_ok_def)
      with that show ?thesis by (simp add: do_update_event_le)
    qed
    then show ?thesis using Some \<open>proposed_event_row now e upd ids d = Some x\<close>
      by (auto simp: upsert_event_stmt_def intro: map_events_le)
  qed
qed (simp add: upsert_event_stmt_def)

lemma scores_append_ok:
  "db_ok d \<Longrightarrow> es_event_id x \<in> vr_event_id ` set (t_events d) \<Longrightarrow>
     \<forall>y \<in> set (t_event_scores d). es_event_id y \<noteq> es_event_id x \<and> es_score_id y \<noteq> es_score_id x \<Longrightarrow>
     db_ok (d\<lparr> t_event_scores := t_event_scores d @ [x] \<rparr>)"
  by (auto simp: db_ok_def intro!: keyed_append)

lemma scores_map_ok:
  "db_ok d \<Longrightarrow> (\<And>y. y \<in> set (t_event_scores d) \<Longrightarrow> score_le y (f y)) \<Longrightarrow>
     db_ok (d\<lparr> t_event_scores := map f (t_event_scores d) \<rparr>)"
  by (auto simp: db_ok_def score_le_def intro!: keyed_map)

lemma scores_append_le: "db_le d (d\<lparr> t_event_scores := t_event_scores d @ [x] \<rparr>)"
  by (simp add: db_le_def grown_refl grown_append)

lemma scores_map_le:
  "(\<And>y. y \<in> set (t_event_scores d) \<Longrightarrow> score_le y (f y)) \<Longrightarrow>
     db_le d (d\<lparr> t_event_scores := map f (t_event_scores d) \<rparr>)"
  by (simp add: db_le_def grown_refl grown_map)

text \<open>The statement leaves the tables, or appends the Event's first score, or replaces its score.\<close>

lemma upsert_score_cases:
  assumes ok: "db_ok d"
  obtains (same) "snd (upsert_event_score_stmt now s expected d) = d"
  | (new) x where "snd (upsert_event_score_stmt now s expected d) = d\<lparr> t_event_scores := t_event_scores d @ [x] \<rparr>"
      and "es_event_id x \<in> vr_event_id ` set (t_events d)"
      and "\<forall>y \<in> set (t_event_scores d). es_event_id y \<noteq> es_event_id x \<and> es_score_id y \<noteq> es_score_id x"
  | (replaced) f where "snd (upsert_event_score_stmt now s expected d)
        = d\<lparr> t_event_scores := map f (t_event_scores d) \<rparr>"
      and "\<forall>y \<in> set (t_event_scores d). score_le y (f y)"
proof (cases "find_event (es_event_id s) d")
  case None
  then show thesis by (intro same) (simp add: upsert_event_score_stmt_def)
next
  case (Some r)
  then have ev: "es_event_id s \<in> vr_event_id ` set (t_events d)"
    by (auto dest!: find_event_Some intro: rev_image_eqI)
  show thesis
  proof (cases "vr_aggregation_updated_at r = expected")
    case False
    with Some show thesis by (intro same) (simp add: upsert_event_score_stmt_def)
  next
    case eq: True
    show thesis
    proof (cases "find (\<lambda>y. es_event_id y = es_event_id s) (t_event_scores d)")
      case None
      show thesis
      proof (cases "\<exists>y \<in> set (t_event_scores d). es_score_id y = es_score_id s")
        case True
        with Some eq None show thesis by (intro same) (simp add: upsert_event_score_stmt_def Let_def)
      next
        case False
        define x where "x = s\<lparr> es_scored_aggregation_updated_at := expected, es_updated_at := now, es_created_at := now \<rparr>"
        have n: "\<forall>y \<in> set (t_event_scores d). es_event_id y \<noteq> es_event_id s"
          using None by (simp add: find_None_iff)
        show thesis
          by (rule new [of x]) (use Some eq None False n ev in
              \<open>auto simp: upsert_event_score_stmt_def Let_def x_def\<close>)
      qed
    next
      case old: (Some old)
      then have o: "old \<in> set (t_event_scores d)" "es_event_id old = es_event_id s"
        by (auto simp: find_Some_iff)
      have uniq: "y = old" if "y \<in> set (t_event_scores d)" "es_event_id y = es_event_id s" for y
        using that o ok keyed_inj [of es_event_id "t_event_scores d" y old] by (simp add: db_ok_def)
      define f where "f y = (if es_event_id y = es_event_id s
        then s\<lparr> es_scored_aggregation_updated_at := expected, es_updated_at := now,
               es_score_id := es_score_id old, es_created_at := es_created_at old \<rparr> else y)" for y
      show thesis
      proof (rule replaced [of f])
        show "snd (upsert_event_score_stmt now s expected d) = d\<lparr> t_event_scores := map f (t_event_scores d) \<rparr>"
          using Some eq old by (simp add: upsert_event_score_stmt_def Let_def f_def [abs_def])
        show "\<forall>y \<in> set (t_event_scores d). score_le y (f y)"
          using uniq o by (auto simp: f_def score_le_def)
      qed
    qed
  qed
qed

lemma upsert_score_ok: "db_ok d \<Longrightarrow> db_ok (snd (upsert_event_score_stmt now s expected d))"
  by (rule upsert_score_cases [of d now s expected]) (auto intro: scores_append_ok scores_map_ok)

lemma upsert_score_le: "db_ok d \<Longrightarrow> db_le d (snd (upsert_event_score_stmt now s expected d))"
  by (rule upsert_score_cases [of d now s expected]) (auto intro: scores_append_le scores_map_le)

section \<open>Well-formed growth\<close>

text \<open>Growth of well-formed tables that stay well formed: the relation every repository operation
  maintains.\<close>

definition db_step :: "db \<Rightarrow> db \<Rightarrow> bool" where
  "db_step d d' \<longleftrightarrow> (db_ok d \<longrightarrow> db_ok d' \<and> db_le d d')"

interpretation step: db_preorder db_step
  by unfold_locales (auto simp: db_step_def le.db_refl intro: le.db_trans)

lemma stepD:
  "always (db_rel db_step) m \<Longrightarrow> m w = (r, w') \<Longrightarrow> db_ok (w_db w) \<Longrightarrow>
     db_ok (w_db w') \<and> db_le (w_db w) (w_db w')"
  by (drule (1) alwaysD) (simp add: db_rel_def db_step_def)

lemma stmt_steps:
  "db_step d (snd (insert_entity_event r d))"
  "db_step d (snd (insert_event_entity_map m d))"
  "db_step d (snd (upsert_event_stmt now e upd ids d))"
  "db_step d (snd (upsert_event_score_stmt now s expected d))"
  "db_step d (map_events i (mark_row_published t) d)"
  using insert_entity_event_ok [of d r] insert_event_entity_map_ok [of d m]
    upsert_event_ok [of d now e upd ids] upsert_score_ok [of d now s expected]
    map_events_ok [of "mark_row_published t" d i]
  by (simp_all add: db_step_def insert_entity_event_le insert_event_entity_map_le upsert_event_le
      upsert_score_le map_events_le mark_row_published_le)

lemma some_or_assert_step: "always (db_rel db_step) (some_or_assert x)"
  by (simp add: some_or_assert_def step.io.always_ret step.io.always_raise split: option.splits)

lemma clock_uuid_step:
  "always (db_rel db_step) datetime_now" "always (db_rel db_step) uuid4"
  by (rule alwaysI, auto simp: datetime_now_def uuid4_def db_rel_def Let_def step.db_refl)+

lemma persist_entities_step: "always (db_rel db_step) (persist_entities cfg es)"
  unfolding persist_entities_def
  by (intro step.db_transaction_rel step.io.always_fold_io step.io.always_bind step.io.always_ret
      clock_uuid_step step.tx_execute_returning_rel stmt_steps)

lemma persist_events_step: "always (db_rel db_step) (persist_events cfg es)"
  unfolding persist_events_def persist_one_def
  by (intro step.db_transaction_rel step.io.always_fold_io step.io.always_for_each step.io.always_bind
      step.io.always_ret step.io.always_get_w clock_uuid_step some_or_assert_step
      step.tx_execute_returning_rel step.tx_execute_rel stmt_steps)

lemma mark_published_step: "always (db_rel db_step) (mark_published cfg i t)"
  unfolding mark_published_def by (intro step.db_execute_rel) (simp add: stmt_steps)

lemma persist_score_step: "always (db_rel db_step) (persist_score_if_not_stale cfg s expected)"
  unfolding persist_score_if_not_stale_def
  by (intro step.io.always_bind step.io.always_get_w step.db_execute_returning_rel stmt_steps)

lemma fetch_steps:
  "always (db_rel db_step) (fetch_entity_event i)"
  "always (db_rel db_step) (fetch_entity_event_ids_by_source_url url)"
  "always (db_rel db_step) (fetch_entity_events_for_event i)"
  "always (db_rel db_step) (fetch_event i)"
  "always (db_rel db_step) (fetch_unpublished_events ids)"
  "always (db_rel db_step) (fetch_mapped_event_id i)"
  unfolding fetch_entity_event_def fetch_entity_event_ids_by_source_url_def
    fetch_entity_events_for_event_def fetch_event_def fetch_unpublished_events_def
    fetch_mapped_event_id_def
  by (rule step.db_fetch_rel)+

end
