(* ===== verification/Sapi_Outbox.thy ===== *)
theory Sapi_Outbox
  imports Sapi_Aggregation Sapi_Repos_Props
begin

text \<open>
  Persisting and announcing: what \<open>persist_events\<close>, \<open>mark_published\<close> and \<open>persist_and_publish\<close>
  guarantee when they return, and the invariant that an Event is marked published only when its
  announcement is on the stream, whatever fails.
\<close>

section \<open>What each resource's calls leave alone\<close>

definition same_more :: "'z world_scheme \<Rightarrow> 'z world_scheme \<Rightarrow> bool" where
  "same_more w w' \<longleftrightarrow> world.more w' = world.more w"

definition same_streams :: "'z world_scheme \<Rightarrow> 'z world_scheme \<Rightarrow> bool" where
  "same_streams w w' \<longleftrightarrow> w_streams w' = w_streams w"

interpretation more_pg: pg_blind same_more
  by unfold_locales (auto simp: same_more_def pg_frame_def)

interpretation more_rs: rs_blind same_more
  by unfold_locales (auto simp: same_more_def rs_frame_def)

interpretation more_rt: rt_blind same_more
  by unfold_locales (auto simp: same_more_def rt_frame_def)

interpretation streams_pg: pg_blind same_streams
  by unfold_locales (auto simp: same_streams_def pg_frame_def)

interpretation streams_rt: rt_blind same_streams
  by unfold_locales (auto simp: same_streams_def rt_frame_def)

interpretation unacked_pg: pg_blind "unacked K" for K
  by unfold_locales (auto simp: unacked_def pg_frame_def)

interpretation unacked_rt: rt_blind "unacked K" for K
  by unfold_locales (auto simp: unacked_def rt_frame_def)

interpretation grow_pg: pg_blind world_grow
  by unfold_locales (auto simp: world_grow_def pg_frame_def)

interpretation grow_rt: rt_blind world_grow
  by unfold_locales (auto simp: world_grow_def rt_frame_def)

interpretation state_pg: pg_blind same_state
  by unfold_locales (auto simp: same_state_def pg_frame_def)

interpretation state_rs: rs_blind same_state
  by unfold_locales (auto simp: same_state_def rs_frame_def)

interpretation step_rs: rs_blind "db_rel db_step"
  by unfold_locales (auto simp: db_rel_def rs_frame_def step.db_refl intro: step.db_trans)

interpretation step_rt: rt_blind "db_rel db_step"
  by unfold_locales (auto simp: db_rel_def rt_frame_def step.db_refl intro: step.db_trans)

lemma datetime_now_streams: "always same_streams datetime_now"
  by (rule alwaysI) (auto simp: datetime_now_def same_streams_def Let_def)

lemma some_or_assert_always: "(\<And>w. R w w) \<Longrightarrow> always R (some_or_assert x)"
  by (simp add: always_def some_or_assert_def io_defs split: option.splits)

context pg_blind
begin

lemma always_persist_events: "always R datetime_now \<Longrightarrow> always R (persist_events cfg es)"
  unfolding persist_events_def persist_one_def
  by (intro always_transaction always_fold_io always_for_each always_bind always_get_w always_ret
      always_pg some_or_assert_always R_refl)

lemma always_repo:
  "always R (fetch_entity_event i)" "always R (fetch_event i)" "always R (fetch_unpublished_events ids)"
  "always R (fetch_mapped_event_id i)" "always R (mark_published cfg i t)"
  "always R (fetch_entity_events_for_event i)" "always R (fetch_entity_event_ids_by_source_url url)"
  unfolding fetch_entity_event_def fetch_event_def fetch_unpublished_events_def fetch_mapped_event_id_def
    mark_published_def fetch_entity_events_for_event_def fetch_entity_event_ids_by_source_url_def
  by (rule always_pg)+

lemma always_persist_and_publish:
  "always R datetime_now \<Longrightarrow> (\<And>r flds. always R (publish r EVENT_AGGREGATED flds)) \<Longrightarrow>
     always R (persist_and_publish cfg es)"
  unfolding persist_and_publish_def announce_def
  by (intro always_for_each always_bind always_ret always_persist_events always_repo
      some_or_assert_always R_refl)

end

text \<open>The outbox works on the tables and the stream only.\<close>

lemma persist_and_publish_frames:
  "always same_more (persist_and_publish cfg es)"
  "always same_state (persist_and_publish cfg es)"
  "always (unacked K) (persist_and_publish cfg es)"
  "always world_grow (persist_and_publish cfg es)"
proof -
  have g: "always world_grow (publish r name flds)" for r name flds
    by (rule alwaysI) (auto simp: world_grow_def dest: publish_cases)
  have gd: "always world_grow datetime_now"
    by (rule alwaysI) (auto simp: datetime_now_def world_grow_def Let_def)
  show "always same_more (persist_and_publish cfg es)"
    by (intro more_pg.always_persist_and_publish more_rs.always_rs)
  show "always same_state (persist_and_publish cfg es)"
    by (intro state_pg.always_persist_and_publish state_rs.always_rs)
  show "always (unacked K) (persist_and_publish cfg es)"
    by (intro unacked_pg.always_persist_and_publish datetime_now_unacked publish_unacked)
  show "always world_grow (persist_and_publish cfg es)"
    by (intro grow_pg.always_persist_and_publish g gd)
qed

lemma announce_step: "always (db_rel db_step) (announce cfg e)"
  unfolding announce_def
  by (intro step.io.always_bind some_or_assert_step step_rs.always_rs mark_published_step)

lemma persist_and_publish_step: "always (db_rel db_step) (persist_and_publish cfg es)"
  unfolding persist_and_publish_def
  by (intro step.io.always_bind step.io.always_for_each step.io.always_ret persist_events_step
      announce_step fetch_steps)

section \<open>Persisted Events\<close>

text \<open>The tables hold the Event at least at version upd, with the memberships ids.\<close>

definition stored_at :: "uuid \<Rightarrow> instant \<Rightarrow> db \<Rightarrow> bool" where
  "stored_at i upd d \<longleftrightarrow> (\<exists>r \<in> set (t_events d). vr_event_id r = i \<and> upd \<le> vr_aggregation_updated_at r)"

definition mapped :: "uuid \<Rightarrow> db \<Rightarrow> bool" where
  "mapped i d \<longleftrightarrow> (\<exists>m \<in> set (t_event_entity_map d). eem_entity_event_id m = i)"

definition marked_at :: "uuid \<Rightarrow> instant \<Rightarrow> db \<Rightarrow> bool" where
  "marked_at i upd d \<longleftrightarrow> (\<exists>r \<in> set (t_events d). vr_event_id r = i
     \<and> opt_le (Some upd) (vr_published_aggregation_updated_at r))"

definition persisted_event :: "event \<Rightarrow> db \<Rightarrow> bool" where
  "persisted_event e d \<longleftrightarrow>
     (\<forall>upd. ev_aggregation_updated_at e = Some upd \<longrightarrow> stored_at (ev_event_id e) upd d)
     \<and> (\<forall>ids. ev_entity_event_ids e = Some ids \<longrightarrow> (\<forall>i \<in> set ids. mapped i d))"

lemma stored_at_mono: "db_le d d' \<Longrightarrow> stored_at i upd d \<Longrightarrow> stored_at i upd d'"
  unfolding stored_at_def db_le_def
  by (metis grown_ex order_trans row_le_def)

lemma marked_at_mono: "db_le d d' \<Longrightarrow> marked_at i upd d \<Longrightarrow> marked_at i upd d'"
  unfolding marked_at_def db_le_def
  by (metis grown_ex opt_le_trans row_le_def)

lemma mapped_mono: "db_le d d' \<Longrightarrow> mapped i d \<Longrightarrow> mapped i d'"
  unfolding mapped_def db_le_def by (meson set_mono_prefix subsetD)

lemma persisted_event_mono: "db_le d d' \<Longrightarrow> persisted_event e d \<Longrightarrow> persisted_event e d'"
  unfolding persisted_event_def using stored_at_mono mapped_mono by blast

lemma db_stepD: "db_step d d' \<Longrightarrow> db_ok d \<Longrightarrow> db_ok d' \<and> db_le d d'"
  by (simp add: db_step_def)

lemma tx_execute_returning_Inr:
  "tx_execute_returning stmt w = (Inr x, w') \<Longrightarrow>
     stmt (w_db w) = (Inr x, w_db w')"
  by (auto simp: tx_execute_returning_def translated_Inr dest!: pg_call_Inr)

lemma upsert_event_stored:
  assumes "upsert_event_stmt now e upd ids d = (Inr r, d')"
  shows "stored_at (ev_event_id e) upd d'"
proof (cases "proposed_event_row now e upd ids d")
  case None
  with assms show ?thesis by (simp add: upsert_event_stmt_def)
next
  case (Some x)
  then have x: "vr_event_id x = ev_event_id e" "vr_aggregation_updated_at x = upd"
    by (auto simp: proposed_event_row_def split: option.splits)
  show ?thesis
  proof (cases "find_event (ev_event_id e) d")
    case None
    with assms Some x show ?thesis
      by (auto simp: upsert_event_stmt_def stored_at_def split: if_splits)
  next
    case old: (Some q)
    note q = find_event_Some [OF old]
    show ?thesis
    proof (cases "vr_aggregation_updated_at q < upd")
      case True
      have "do_update_event x q \<in> set (t_events (map_events (ev_event_id e) (do_update_event x) d))"
        using q by (auto simp: map_events_def)
      moreover have "vr_aggregation_updated_at (do_update_event x q) = upd"
        by (simp add: do_update_event_def x)
      ultimately show ?thesis using assms Some old True x q
        by (auto simp: upsert_event_stmt_def stored_at_def split: if_splits
            intro!: bexI [of _ "do_update_event x q"])
    next
      case False
      with assms Some old x q show ?thesis
        by (auto simp: upsert_event_stmt_def stored_at_def split: if_splits)
    qed
  qed
qed

lemma insert_map_mapped:
  "insert_event_entity_map m d = (Inr x, d') \<Longrightarrow> mapped (eem_entity_event_id m) d'"
  by (auto simp: insert_event_entity_map_def mapped_def split: if_splits)

lemma persist_one_step: "always (db_rel db_step) (persist_one db_now now z e)"
  unfolding persist_one_def
  by (intro step.io.always_for_each step.io.always_bind step.io.always_ret some_or_assert_step
      step.tx_execute_returning_rel step.tx_execute_rel stmt_steps)

lemma tx_map_Inr:
  assumes "tx_execute (insert_event_entity_map m) w = (Inr (), w')"
  shows "mapped (eem_entity_event_id m) (w_db w')"
proof -
  from assms obtain x where "translated_errors (pg_call (insert_event_entity_map m)) w = (Inr x, w')"
    by (auto simp: tx_execute_def bind_eq_Inr)
  then have "insert_event_entity_map m (w_db w) = (Inr x, w_db w')"
    by (auto simp: translated_Inr dest!: pg_call_Inr)
  then show ?thesis by (rule insert_map_mapped)
qed

lemma some_or_assert_Inr [simp]: "some_or_assert x w = (Inr y, w') \<longleftrightarrow> x = Some y \<and> w' = w"
  by (auto simp: some_or_assert_def split: option.splits)

lemma persist_one_Inr:
  assumes ok: "db_ok (w_db w)" and p: "persist_one db_now now z e w = (Inr z', w')"
  shows "persisted_event e (w_db w')"
proof -
  from p obtain upd ids row w1 where upd: "ev_aggregation_updated_at e = Some upd"
    and ids: "ev_entity_event_ids e = Some ids"
    and u: "tx_execute_returning (upsert_event_stmt db_now e upd ids) w = (Inr row, w1)"
    and l: "for_each ids (\<lambda>i. tx_execute (insert_event_entity_map
            \<lparr> eem_event_id = ev_event_id e, eem_entity_event_id = i, eem_created_at = now \<rparr>)) w1 = (Inr (), w')"
    by (auto simp: persist_one_def bind_eq_Inr)
  have ok1: "db_ok (w_db w1)"
    using stepD [OF step.tx_execute_returning_rel u ok] stmt_steps by blast
  have st: "stored_at (ev_event_id e) upd (w_db w1)"
    using tx_execute_returning_Inr [OF u] by (rule upsert_event_stored)
  have tx: "always (db_rel db_step) (tx_execute (insert_event_entity_map m))" for m
    by (rule step.tx_execute_rel) (rule stmt_steps)
  have "db_ok (w_db w') \<and> (\<forall>y. mapped y (w_db w1) \<longrightarrow> mapped y (w_db w')) \<and> (\<forall>i \<in> set ids. mapped i (w_db w'))"
  proof (rule for_each_establishes [where I = "\<lambda>w. db_ok (w_db w)" and Q = "\<lambda>i w. mapped i (w_db w)", OF l ok1])
    fix i v r v'
    assume "db_ok (w_db v)" "tx_execute (insert_event_entity_map
      \<lparr> eem_event_id = ev_event_id e, eem_entity_event_id = i, eem_created_at = now \<rparr>) v = (r, v')"
    then have "db_ok (w_db v') \<and> db_le (w_db v) (w_db v')" by (intro stepD [OF tx])
    then show "db_ok (w_db v') \<and> (\<forall>y. mapped y (w_db v) \<longrightarrow> mapped y (w_db v'))"
      using mapped_mono by blast
  qed (auto dest: tx_map_Inr)
  moreover have "db_le (w_db w1) (w_db w')"
    using stepD [OF step.io.always_for_each l ok1] tx by blast
  ultimately show ?thesis using st upd ids by (simp add: persisted_event_def stored_at_mono)
qed

lemma fold_persists:
  fixes w :: "'z world_scheme"
  assumes ok: "db_ok (w_db w)" and f: "fold_io (persist_one db_now now) [] es w = (Inr written, w')"
  shows "\<forall>e \<in> set es. persisted_event e (w_db w')"
proof -
  have "db_ok (w_db w') \<and> (\<forall>y. persisted_event y (w_db w) \<longrightarrow> persisted_event y (w_db w'))
      \<and> (\<forall>e \<in> set es. persisted_event e (w_db w'))"
  proof (rule fold_io_establishes [where I = "\<lambda>w. db_ok (w_db w)"
        and Q = "\<lambda>e w. persisted_event e (w_db w)", OF f ok])
    fix z e v r v'
    assume "db_ok (w_db v)" "persist_one db_now now z e v = (r, v')"
    then have "db_ok (w_db v') \<and> db_le (w_db v) (w_db v')" by (intro stepD [OF persist_one_step])
    then show "db_ok (w_db v') \<and> (\<forall>y. persisted_event y (w_db v) \<longrightarrow> persisted_event y (w_db v'))"
      using persisted_event_mono by blast
  qed (auto intro: persist_one_Inr)
  then show ?thesis by simp
qed

lemma persist_events_Inr:
  fixes w :: "'z world_scheme"
  assumes ok: "db_ok (w_db w)" and p: "persist_events cfg es w = (Inr written, w')"
  shows "\<forall>e \<in> set es. persisted_event e (w_db w')"
proof -
  from p obtain now wt where n: "datetime_now w = (Inr now, wt)"
    and t: "db_transaction cfg (fold_io (persist_one (w_now wt) now) [] es) wt = (Inr written, w')"
    by (auto simp: persist_events_def bind_eq_Inr)
  have wt: "w_db wt = w_db w" using n by (auto simp: datetime_now_def Let_def)
  from db_transaction_Inr [OF t] obtain w1 w2 :: "'z world_scheme" where "w_db w1 = w_db wt"
    "fold_io (persist_one (w_now wt) now) [] es w1 = (Inr written, w2)" "w_db w' = w_db w2" by blast
  with fold_persists ok wt show ?thesis by metis
qed

section \<open>Marked as published\<close>

lemma db_execute_Inr:
  "db_execute cfg stmt w = (Inr (), w') \<Longrightarrow> \<exists>d x. applied stmt (w_db w) d \<and> stmt d = (Inr x, w_db w')"
proof -
  assume "db_execute cfg stmt w = (Inr (), w')"
  then obtain x where "db_write_with_retry cfg (pg_call stmt) w = (Inr x, w')"
    by (auto simp: db_execute_def bind_eq_Inr)
  from db_write_applied [OF this] show ?thesis by blast
qed

lemma mark_published_marked:
  assumes ok: "db_ok (w_db w)" and st: "stored_at i upd (w_db w)"
    and m: "mark_published cfg i t w = (Inr (), w')"
  shows "marked_at i t (w_db w')"
proof -
  from db_execute_Inr [OF m [unfolded mark_published_def]] obtain d where
    a: "applied (\<lambda>d. (Inr (), map_events i (mark_row_published t) d)) (w_db w) d"
    and d': "w_db w' = map_events i (mark_row_published t) d" by auto
  have "db_step (w_db w) d"
    by (rule step.applied_rel [OF _ a]) (simp add: stmt_steps)
  then have "stored_at i upd d" using st ok by (metis db_stepD stored_at_mono)
  then obtain r where r: "r \<in> set (t_events d)" "vr_event_id r = i" by (auto simp: stored_at_def)
  have "opt_le (Some t) (vr_published_aggregation_updated_at (mark_row_published t r))"
    by (auto simp: mark_row_published_def opt_le_def split: option.splits)
  moreover have "mark_row_published t r \<in> set (t_events (map_events i (mark_row_published t) d))"
    using r by (auto simp: map_events_def)
  ultimately show ?thesis using r by (auto simp: marked_at_def d' intro!: bexI [of _ "mark_row_published t r"])
qed

lemma announce_Inr:
  assumes ok: "db_ok (w_db w)" and st: "stored_at (ev_event_id e) u0 (w_db w)"
    and a: "announce cfg e w = (Inr (), w')"
  shows "\<exists>upd. ev_aggregation_updated_at e = Some upd \<and> marked_at (ev_event_id e) upd (w_db w')"
    and "\<exists>k. (k, event_message (ev_event_id e)) \<in> set (sm_entries (the_stream (w_streams w') EVENT_AGGREGATED))"
proof -
  from a obtain upd k w1 where upd: "ev_aggregation_updated_at e = Some upd"
    and p: "publish (redis_reconnect_interval_s (cfg_redis cfg)) EVENT_AGGREGATED
      (event_message (ev_event_id e)) w = (Inr k, w1)"
    and m: "mark_published (cfg_db cfg) (ev_event_id e) upd w1 = (Inr (), w')"
    by (auto simp: announce_def bind_eq_Inr)
  have db: "w_db w1 = w_db w" using alwaysD [OF publish_frame p] by (simp add: rs_frame_def)
  show "\<exists>upd. ev_aggregation_updated_at e = Some upd \<and> marked_at (ev_event_id e) upd (w_db w')"
    using mark_published_marked [OF _ _ m] ok st upd by (auto simp: db)
  have "w_streams w' = w_streams w1"
    using alwaysD [OF streams_pg.always_repo(5) m] by (simp add: same_streams_def)
  then show "\<exists>k. (k, event_message (ev_event_id e)) \<in> set (sm_entries (the_stream (w_streams w') EVENT_AGGREGATED))"
    using publish_cases [OF p] by auto
qed

section \<open>The outbox\<close>

text \<open>The announcement of an Event is on the stream.\<close>

definition on_stream :: "uuid \<Rightarrow> streams \<Rightarrow> bool" where
  "on_stream i ss \<longleftrightarrow> (\<exists>k. (k, event_message i) \<in> set (sm_entries (the_stream ss EVENT_AGGREGATED)))"

lemma on_stream_grow: "streams_grow ss ss' \<Longrightarrow> on_stream i ss \<Longrightarrow> on_stream i ss'"
  unfolding on_stream_def streams_grow_def by (meson set_mono_prefix subsetD)

lemma announce_grow: "always world_grow (announce cfg e)"
proof -
  have g: "always world_grow (publish r name flds)" for r name flds
    by (rule alwaysI) (auto simp: world_grow_def dest: publish_cases)
  show ?thesis unfolding announce_def
    by (intro grow.always_bind g grow_pg.always_repo some_or_assert_always) (simp add: world_grow_def)
qed

lemma db_fetch_Inr: "db_fetch q w = (Inr x, w') \<Longrightarrow> x = q (w_db w) \<and> w_db w' = w_db w"
  by (auto simp: db_fetch_def translated_Inr dest!: pg_call_Inr)

lemma persist_and_publish_Inr:
  fixes w :: "'z world_scheme"
  assumes ok: "db_ok (w_db w)" and p: "persist_and_publish cfg es w = (Inr out, w')"
    and e: "e \<in> set es" and upd: "ev_aggregation_updated_at e = Some upd"
  shows "persisted_event e (w_db w')" and "marked_at (ev_event_id e) upd (w_db w')"
proof -
  from p obtain written w1 pending w2 where
    ps: "persist_events (cfg_db cfg) es w = (Inr written, w1)"
    and ft: "fetch_unpublished_events (map ev_event_id es) w1 = (Inr pending, w2)"
    and an: "for_each pending (announce cfg) w2 = (Inr (), w')"
    by (auto simp: persist_and_publish_def bind_eq_Inr)
  have ok1: "db_ok (w_db w1)" using stepD [OF persist_events_step ps ok] by simp
  have pe: "persisted_event e (w_db w1)" using persist_events_Inr [OF ok ps] e by blast
  have ft': "pending = map row_to_event (filter (\<lambda>r. vr_event_id r \<in> set (map ev_event_id es) \<and> unpublished r)
      (t_events (w_db w1)))" "w_db w2 = w_db w1"
    using db_fetch_Inr [OF ft [unfolded fetch_unpublished_events_def]] by auto
  define Q where "Q p v = (\<forall>u. ev_aggregation_updated_at p = Some u \<longrightarrow> marked_at (ev_event_id p) u (w_db v))" 
    for p :: event and v :: "'z world_scheme"
  define I where "I v \<longleftrightarrow> db_ok (w_db v) \<and> db_le (w_db w1) (w_db v)" for v :: "'z world_scheme"
  have I2: "I w2" using ok1 by (simp add: I_def ft')
  have "I w' \<and> (\<forall>y. Q y w2 \<longrightarrow> Q y w') \<and> (\<forall>p \<in> set pending. Q p w')"
  proof (rule for_each_establishes [OF an, where I = I and Q = Q, OF I2])
    fix p v r v'
    assume I: "I v" and a: "announce cfg p v = (r, v')"
    have "db_ok (w_db v') \<and> db_le (w_db v) (w_db v')"
      using stepD [OF announce_step a] I by (simp add: I_def)
    then show "I v' \<and> (\<forall>y. Q y v \<longrightarrow> Q y v')"
      using I by (auto simp: I_def Q_def intro: le.db_trans marked_at_mono)
  next
    fix p v v'
    assume p: "p \<in> set pending" and I: "I v" and a: "announce cfg p v = (Inr (), v')"
    from p ft' obtain r where r: "r \<in> set (t_events (w_db w1))" "p = row_to_event r" by auto
    have "stored_at (ev_event_id p) (vr_aggregation_updated_at r) (w_db w1)"
      using r by (auto simp: stored_at_def row_to_event_def)
    then have "stored_at (ev_event_id p) (vr_aggregation_updated_at r) (w_db v)"
      using I by (auto simp: I_def intro: stored_at_mono)
    then show "Q p v'" using announce_Inr(1) [OF _ _ a] I by (auto simp: Q_def I_def)
  qed
  then have Iw: "I w'" and Qp: "\<forall>p \<in> set pending. Q p w'" by auto
  show "persisted_event e (w_db w')" using Iw pe by (auto simp: I_def intro: persisted_event_mono)
  from pe upd obtain r where r: "r \<in> set (t_events (w_db w1))" "vr_event_id r = ev_event_id e"
      "upd \<le> vr_aggregation_updated_at r"
    by (auto simp: persisted_event_def stored_at_def)
  show "marked_at (ev_event_id e) upd (w_db w')"
  proof (cases "unpublished r")
    case True
    then have "row_to_event r \<in> set pending" using r e by (auto simp: ft')
    then have "marked_at (ev_event_id e) (vr_aggregation_updated_at r) (w_db w')"
      using Qp r by (auto simp: Q_def row_to_event_def)
    then show ?thesis using r(3) by (auto simp: marked_at_def opt_le_def split: option.splits)
  next
    case False
    then have "marked_at (ev_event_id e) upd (w_db w1)"
      using r by (auto simp: marked_at_def unpublished_def opt_le_def split: option.splits intro!: bexI [of _ r])
    then show ?thesis using Iw by (auto simp: I_def intro: marked_at_mono)
  qed
qed

section \<open>Announced before marked\<close>

definition announced :: "streams \<Rightarrow> db \<Rightarrow> bool" where
  "announced ss d \<longleftrightarrow>
     (\<forall>r \<in> set (t_events d). vr_published_aggregation_updated_at r \<noteq> None \<longrightarrow> on_stream (vr_event_id r) ss)"

text \<open>Statements that mark nothing keep the marks they find.\<close>

definition marks_from :: "db \<Rightarrow> db \<Rightarrow> bool" where
  "marks_from d d' \<longleftrightarrow>
     (\<forall>r' \<in> set (t_events d'). vr_published_aggregation_updated_at r' \<noteq> None \<longrightarrow>
        (\<exists>r \<in> set (t_events d). vr_event_id r = vr_event_id r' \<and> vr_published_aggregation_updated_at r \<noteq> None))"

interpretation marks: db_preorder marks_from
proof
  show "marks_from d d" for d by (auto simp: marks_from_def)
  show "marks_from a b \<Longrightarrow> marks_from b c \<Longrightarrow> marks_from a c" for a b c
    unfolding marks_from_def by metis
qed

lemma announced_marks: "announced ss d \<Longrightarrow> marks_from d d' \<Longrightarrow> announced ss d'"
  unfolding announced_def marks_from_def by metis

lemma announced_grow: "announced ss d \<Longrightarrow> streams_grow ss ss' \<Longrightarrow> announced ss' d"
  unfolding announced_def using on_stream_grow by blast

lemma marks_stmts:
  "marks_from d (snd (insert_entity_event r d))"
  "marks_from d (snd (insert_event_entity_map m d))"
  "marks_from d (snd (upsert_event_stmt now e upd ids d))"
  "marks_from d (snd (upsert_event_score_stmt now s expected d))"
proof -
  show "marks_from d (snd (insert_entity_event r d))"
    by (auto simp: marks_from_def insert_entity_event_def)
  show "marks_from d (snd (insert_event_entity_map m d))"
    by (auto simp: marks_from_def insert_event_entity_map_def)
  show "marks_from d (snd (upsert_event_score_stmt now s expected d))"
    by (auto simp: marks_from_def upsert_event_score_stmt_def Let_def split: option.splits)
  show "marks_from d (snd (upsert_event_stmt now e upd ids d))"
    by (auto simp: marks_from_def upsert_event_stmt_def proposed_event_row_def map_events_def
        do_update_event_def split: option.splits if_splits)
qed

definition marks_but :: "uuid \<Rightarrow> db \<Rightarrow> db \<Rightarrow> bool" where
  "marks_but i d d' \<longleftrightarrow>
     (\<forall>r' \<in> set (t_events d'). vr_published_aggregation_updated_at r' \<noteq> None \<longrightarrow> vr_event_id r' \<noteq> i \<longrightarrow>
        (\<exists>r \<in> set (t_events d). vr_event_id r = vr_event_id r' \<and> vr_published_aggregation_updated_at r \<noteq> None))"

interpretation marks_but: db_preorder "marks_but i" for i
proof
  show "marks_but i d d" for d by (auto simp: marks_but_def)
  show "marks_but i a b \<Longrightarrow> marks_but i b c \<Longrightarrow> marks_but i a c" for a b c
    unfolding marks_but_def by metis
qed

lemma mark_stmt_but: "marks_but i d (map_events i (mark_row_published t) d)"
  by (auto simp: marks_but_def map_events_def)

lemma mark_published_but: "always (db_rel (marks_but i)) (mark_published cfg i t)"
  unfolding mark_published_def by (intro marks_but.db_execute_rel) (simp add: mark_stmt_but)

definition announced_in :: "'z world_scheme \<Rightarrow> bool" where
  "announced_in w \<longleftrightarrow> announced (w_streams w) (w_db w)"

lemma keeps_announced_db:
  "always same_streams m \<Longrightarrow> always (db_rel marks_from) m \<Longrightarrow> keeps announced_in m"
proof (rule alwaysI, rule impI)
  fix w r w'
  assume s: "always same_streams m" and d: "always (db_rel marks_from) m"
    and r: "m w = (r, w')" and a: "announced_in w"
  from alwaysD [OF s r] alwaysD [OF d r] a show "announced_in w'"
    by (auto simp: announced_in_def same_streams_def db_rel_def intro: announced_marks)
qed

lemma keeps_announced_rs:
  "always world_grow m \<Longrightarrow> always rs_frame m \<Longrightarrow> keeps announced_in m"
proof (rule alwaysI, rule impI)
  fix w r w'
  assume s: "always world_grow m" and d: "always rs_frame m"
    and r: "m w = (r, w')" and a: "announced_in w"
  from alwaysD [OF s r] alwaysD [OF d r] a show "announced_in w'"
    by (auto simp: announced_in_def world_grow_def rs_frame_def intro: announced_grow)
qed

lemma keeps_announced_persist_events: "keeps announced_in (persist_events cfg es)"
proof (rule keeps_announced_db)
  show "always same_streams (persist_events cfg es)"
    by (intro streams_pg.always_persist_events datetime_now_streams)
  have dt: "always (db_rel marks_from) datetime_now"
    by (rule alwaysI) (auto simp: datetime_now_def db_rel_def Let_def marks.db_refl)
  show "always (db_rel marks_from) (persist_events cfg es)"
    unfolding persist_events_def persist_one_def
    by (intro marks.db_transaction_rel marks.io.always_fold_io marks.io.always_for_each
        marks.io.always_bind marks.io.always_ret marks.io.always_get_w dt some_or_assert_always
        marks.tx_execute_returning_rel marks.tx_execute_rel marks_stmts marks.io.R_refl)
qed

lemma keeps_announced_announce: "keeps announced_in (announce cfg e)"
proof (rule alwaysI, rule impI)
  fix w w' :: "'z world_scheme" and r
  assume a: "announce cfg e w = (r, w')" and inv: "announced_in w"
  show "announced_in w'"
  proof (cases "ev_aggregation_updated_at e")
    case None
    with a inv show ?thesis by (auto simp: announce_def some_or_assert_def)
  next
    case (Some upd)
    obtain q w1 where p: "publish (redis_reconnect_interval_s (cfg_redis cfg)) EVENT_AGGREGATED
        (event_message (ev_event_id e)) w = (q, w1)" by fastforce
    have i1: "announced_in w1"
      using inv publish_cases [OF p] alwaysD [OF publish_frame p]
      by (auto simp: announced_in_def rs_frame_def intro: announced_grow)
    show ?thesis
    proof (cases q)
      case (Inl x)
      with a Some p i1 show ?thesis by (simp add: announce_def some_or_assert_def bind_def ret_def)
    next
      case (Inr k)
      with a Some p have m: "mark_published (cfg_db cfg) (ev_event_id e) upd w1 = (r, w')"
        by (simp add: announce_def some_or_assert_def bind_def ret_def)
      have on: "on_stream (ev_event_id e) (w_streams w1)"
        using publish_cases [OF p] Inr by (auto simp: on_stream_def)
      have "w_streams w' = w_streams w1" "marks_but (ev_event_id e) (w_db w1) (w_db w')"
        using alwaysD [OF streams_pg.always_repo(5) m] alwaysD [OF mark_published_but m]
        by (auto simp: same_streams_def db_rel_def)
      with i1 on show ?thesis
        unfolding announced_in_def announced_def marks_but_def by metis
    qed
  qed
qed

lemma keeps_announced_persist_and_publish: "keeps announced_in (persist_and_publish cfg es)"
proof -
  have "keeps announced_in (fetch_unpublished_events ids)" for ids
    unfolding fetch_unpublished_events_def
    by (intro keeps_announced_db streams_pg.always_pg marks.db_fetch_rel)
  then show ?thesis unfolding persist_and_publish_def
    by (intro keeps.always_bind keeps.always_for_each keeps.always_ret
        keeps_announced_persist_events keeps_announced_announce)
qed

end
