(* ===== verification/Sapi_Aggregation_Consumer.thy ===== *)
theory Sapi_Aggregation_Consumer
  imports Sapi_Outbox
begin

text \<open>
  \<^verbatim>\<open>app/aggregation/aggregation_consumer.py\<close>: routing one message of
  \<^verbatim>\<open>stream:entity_event_completed\<close>, the in-flight set, the callbacks of a merge, and the loops cut
  into the steps between their suspension points. \<open>dumps\<close> stands for \<^verbatim>\<open>json.dumps\<close> of a
  message's fields in a dead letter.
\<close>

section \<open>Routing\<close>

definition get_valid_entity_event_id :: "stream_message \<Rightarrow> uuid option" where
  "get_valid_entity_event_id m =
     (if map_of (msg_fields m) (u ''v'') \<noteq> Some STREAM_VERSION then None
      else case map_of (msg_fields m) (u ''entity_event_id'') of
             None \<Rightarrow> None
           | Some t \<Rightarrow> parse_uuid t)"

definition discard :: "uuid \<Rightarrow> ('z, unit) agg" where
  "discard i = modify (\<lambda>w. w\<lparr> m_enqueued := removeAll i (m_enqueued w) \<rparr>)"

definition add_enqueued :: "uuid \<Rightarrow> ('z, unit) agg" where
  "add_enqueued i = modify (\<lambda>w. w\<lparr> m_enqueued := i # m_enqueued w \<rparr>)"

definition on_success :: "uuid \<Rightarrow> message_id \<Rightarrow> ('z, unit) agg" where
  "on_success i mid = seq (discard i) (ack ENTITY_EVENT_COMPLETED AGGREGATION_GROUP mid)"

definition push_dead_letter :: "app_config \<Rightarrow> (fields \<Rightarrow> pystr) \<Rightarrow> stream_message \<Rightarrow> ('z, unit) agg" where
  "push_dead_letter cfg dumps m =
     dead_letter (redis_reconnect_interval_s (cfg_redis cfg)) dumps m
       ENTITY_EVENT_COMPLETED AGGREGATION_GROUP AGGREGATION_DEAD_LETTER"

text \<open>Every clause of \<^verbatim>\<open>_route_one\<close> takes the id out of the in-flight set; a cancellation and an
  unreachable Redis are raised again, everything else is logged.\<close>

definition route_one :: "uuid \<Rightarrow> message_id \<Rightarrow> ('z, merge_work option) agg" where
  "route_one i mid =
     bind (get_w (\<lambda>w. i \<in> set (m_enqueued w))) (\<lambda>in_flight.
     if in_flight then ret None
     else seq (add_enqueued i)
       (try_except (process_entity_event i mid (on_success i mid))
          (\<lambda>exc. seq (discard i)
             (if is_exception exc \<and> \<not> is_redis_unreachable exc then ret None else raise exc))))"

definition route :: "app_config \<Rightarrow> (fields \<Rightarrow> pystr) \<Rightarrow> stream_message \<Rightarrow> ('z, merge_work option) agg" where
  "route cfg dumps m =
     try_except
       (if (case msg_delivery_count m of None \<Rightarrow> False
            | Some n \<Rightarrow> int n \<ge> agg_max_retry (cfg_aggregation cfg))
        then seq (push_dead_letter cfg dumps m) (ret None)
        else case get_valid_entity_event_id m of
               None \<Rightarrow> seq (push_dead_letter cfg dumps m) (ret None)
             | Some i \<Rightarrow> route_one i (msg_id m))
       (\<lambda>exc. if is_exception exc \<and> \<not> is_redis_unreachable exc then ret None else raise exc)"

text \<open>A unit of work of a group: \<^verbatim>\<open>_merge\<close> with the callbacks it was queued with.\<close>

definition run_work :: "app_config \<Rightarrow> merge_work \<Rightarrow> ('z, unit) agg" where
  "run_work cfg x =
     merge cfg (mw_entity_event x) (mw_group_key x)
       (on_success (mw_entity_event_id x) (mw_message_id x)) (discard (mw_entity_event_id x))"

section \<open>Flushing\<close>

definition flush_logged :: "app_config \<Rightarrow> ('z, unit) agg" where
  "flush_logged cfg = try_except (flush cfg) (\<lambda>exc. if is_exception exc then ret () else raise exc)"

section \<open>The loops\<close>

text \<open>What a loop holds between two of its steps: the messages of its batch still to route, and the
  call that waits for a permit.\<close>

record loop_state =
  l_batch :: "stream_message list"
  l_call :: "merge_work option"

definition idle_loop :: loop_state where
  "idle_loop = \<lparr> l_batch = [], l_call = None \<rparr>"

record agg_system = agg_world +
  s_consumer :: loop_state
  s_reclaimer :: loop_state

type_synonym ('z, 'a) sys = "('z agg_system_scheme, exn, 'a) io"

datatype loop_name = Consumer | Reclaimer

definition the_loop :: "loop_name \<Rightarrow> 'z agg_system_scheme \<Rightarrow> loop_state" where
  "the_loop l w = (case l of Consumer \<Rightarrow> s_consumer w | Reclaimer \<Rightarrow> s_reclaimer w)"

definition set_loop :: "loop_name \<Rightarrow> loop_state \<Rightarrow> 'z agg_system_scheme \<Rightarrow> 'z agg_system_scheme" where
  "set_loop l s w = (case l of Consumer \<Rightarrow> w\<lparr> s_consumer := s \<rparr> | Reclaimer \<Rightarrow> w\<lparr> s_reclaimer := s \<rparr>)"

text \<open>The \<^verbatim>\<open>except _REDIS_UNREACHABLE\<close> of both loops: the unrouted rest of the batch stays pending.\<close>

definition unreachable_pause :: "app_config \<Rightarrow> loop_name \<Rightarrow> ('z, unit) sys" where
  "unreachable_pause cfg l =
     seq (modify (set_loop l idle_loop))
       (sleep_ms (case l of Consumer \<Rightarrow> redis_reconnect_interval_s (cfg_redis cfg) * 1000
                  | Reclaimer \<Rightarrow> redis_stream_claim_timeout_ms (cfg_redis cfg)))"

definition guard_loop :: "app_config \<Rightarrow> loop_name \<Rightarrow> ('z, unit) sys \<Rightarrow> ('z, unit) sys" where
  "guard_loop cfg l m = try_except m (\<lambda>exc.
     if is_redis_unreachable exc then unreachable_pause cfg l
     else if l = Reclaimer \<and> is_exception exc then modify (set_loop l idle_loop)
     else raise exc)"

definition loop_read :: "app_config \<Rightarrow> loop_name \<Rightarrow> ('z, unit) sys" where
  "loop_read cfg l = guard_loop cfg l
     (bind (case l of
              Consumer \<Rightarrow> read_from ENTITY_EVENT_COMPLETED AGGREGATION_GROUP
                            (agg_consumer_name (cfg_aggregation cfg))
                            (Some (agg_batch_size (cfg_aggregation cfg)))
            | Reclaimer \<Rightarrow> autoclaim ENTITY_EVENT_COMPLETED AGGREGATION_GROUP
                            (agg_consumer_name (cfg_aggregation cfg))
                            (redis_stream_claim_timeout_ms (cfg_redis cfg))
                            (agg_batch_size (cfg_aggregation cfg)))
        (\<lambda>ms. modify (set_loop l \<lparr> l_batch = ms, l_call = None \<rparr>)))"

text \<open>Routing the next message of the batch. A call that has to wait keeps the loop.\<close>

definition loop_route :: "app_config \<Rightarrow> (fields \<Rightarrow> pystr) \<Rightarrow> loop_name \<Rightarrow> ('z, unit) sys" where
  "loop_route cfg dumps l =
     bind (get_w (the_loop l)) (\<lambda>s.
     case l_batch s of
       [] \<Rightarrow> ret ()
     | m # ms \<Rightarrow>
         guard_loop cfg l
           (bind (route cfg dumps m) (\<lambda>call.
            modify (set_loop l \<lparr> l_batch = ms, l_call = call \<rparr>))))"

definition loop_resume :: "loop_name \<Rightarrow> ('z, unit) sys" where
  "loop_resume l =
     bind (get_w (the_loop l)) (\<lambda>s.
     case l_call s of
       None \<Rightarrow> ret ()
     | Some x \<Rightarrow> bind (resume_call x) (\<lambda>done.
         when_io done (modify (set_loop l (s\<lparr> l_call := None \<rparr>)))))"

text \<open>The layer's Task crashes or is cancelled, both loops with it: a call waiting for a permit is
  cancelled and its id leaves the in-flight set; the groups live on. A restart starts both loops
  again on the same consumer object.\<close>

definition cancel_call :: "loop_state \<Rightarrow> ('z, unit) agg" where
  "cancel_call s = (case l_call s of None \<Rightarrow> ret () | Some x \<Rightarrow> discard (mw_entity_event_id x))"

definition layer_restart :: "app_config \<Rightarrow> ('z, unit) sys" where
  "layer_restart cfg =
     bind (get_w s_consumer) (\<lambda>c.
     bind (get_w s_reclaimer) (\<lambda>r.
     seq (cancel_call c) (seq (cancel_call r)
     (seq (modify (\<lambda>w. w\<lparr> s_consumer := idle_loop, s_reclaimer := idle_loop \<rparr>))
     (flush_logged cfg)))))"

text \<open>A new process: nothing of the memory is left.\<close>

definition process_restart :: "app_config \<Rightarrow> ('z, unit) sys" where
  "process_restart cfg = modify (\<lambda>w. w\<lparr>
     m_groups := [], m_permits := nat (agg_max_concurrent (cfg_aggregation cfg)),
     m_last_flushed := [], m_enqueued := [], s_consumer := idle_loop, s_reclaimer := idle_loop \<rparr>)"

end
