(* ===== verification/Sapi_Aggregation_Inv.thy ===== *)
theory Sapi_Aggregation_Inv
  imports Sapi_Aggregation_Consumer "HOL-Library.Multiset"
begin

text \<open>
  The invariant of the aggregation layer's memory, kept by every step of its loops, groups,
  restarts and surroundings: permits and live groups add up, every queued unit of work is in its
  own group's queue, and the in-flight set holds exactly the EntityEvents that are queued or wait
  for a permit, each once.
\<close>

section \<open>Memory\<close>

lemma same_more_mem:
  fixes w w' :: "'z agg_world_scheme"
  shows "same_more w w' \<Longrightarrow> m_groups w' = m_groups w \<and> m_permits w' = m_permits w
    \<and> m_last_flushed w' = m_last_flushed w \<and> m_enqueued w' = m_enqueued w \<and> agg_world.more w' = agg_world.more w"
  by (cases w; cases w') (simp add: same_more_def)

definition queued :: "(group_key \<times> merge_work list) list \<Rightarrow> uuid multiset" where
  "queued gs = mset (map mw_entity_event_id (concat (map snd gs)))"

lemma queued_put:
  "distinct (map fst gs) \<Longrightarrow> map_of gs g = Some q \<Longrightarrow>
     queued (al_put g q' gs) + mset (map mw_entity_event_id q) = queued gs + mset (map mw_entity_event_id q')"
proof (induction gs)
  case (Cons p gs)
  then show ?case by (cases p) (auto simp: queued_def ac_simps split: if_splits)
qed simp

lemma queued_put_new:
  "g \<notin> fst ` set gs \<Longrightarrow> queued (al_put g q' gs) = queued gs + mset (map mw_entity_event_id q')"
  by (induction gs) (auto simp: queued_def ac_simps)

lemma queued_pop:
  "distinct (map fst gs) \<Longrightarrow> map_of gs g = Some q \<Longrightarrow>
     queued (al_pop g gs) + mset (map mw_entity_event_id q) = queued gs"
proof (induction gs)
  case (Cons p gs)
  obtain a b where p: "p = (a, b)" by (cases p)
  show ?case
  proof (cases "a = g")
    case True
    with Cons.prems p have "al_pop g gs = gs" by (auto simp: al_pop_def filter_id_conv image_iff)
    with True Cons.prems p show ?thesis by (simp add: al_pop_def queued_def ac_simps)
  next
    case False
    with Cons p show ?thesis by (auto simp: al_pop_def queued_def ac_simps)
  qed
qed simp

text \<open>The works of a group's queue are the group's own.\<close>

definition keyed_queues :: "(group_key \<times> merge_work list) list \<Rightarrow> bool" where
  "keyed_queues gs \<longleftrightarrow> (\<forall>g q x. map_of gs g = Some q \<longrightarrow> x \<in> set q \<longrightarrow> mw_group_key x = g)"

text \<open>\<open>C\<close> are the ids of the calls that wait for a permit.\<close>

definition mem_ok :: "app_config \<Rightarrow> uuid multiset \<Rightarrow> 'z agg_world_scheme \<Rightarrow> bool" where
  "mem_ok cfg C w \<longleftrightarrow>
     distinct (map fst (m_groups w))
     \<and> m_permits w + length (m_groups w) = nat (agg_max_concurrent (cfg_aggregation cfg))
     \<and> keyed_queues (m_groups w)
     \<and> queued (m_groups w) + C = mset_set (set (m_enqueued w))"

lemma mem_ok_same: "same_more w w' \<Longrightarrow> mem_ok cfg C w' = mem_ok cfg C w"
  by (auto dest!: same_more_mem simp: mem_ok_def)

lemma mset_set_insert_new: "i \<notin> set xs \<Longrightarrow> mset_set (set (i # xs)) = add_mset i (mset_set (set xs))"
  by simp

lemma enqueue_existing_ok:
  assumes ok: "mem_ok cfg (add_mset (mw_entity_event_id x) C) w"
    and q: "group_queue w (mw_group_key x) = Some q"
  shows "mem_ok cfg C (w\<lparr> m_groups := al_put (mw_group_key x) (q @ [x]) (m_groups w) \<rparr>)"
proof -
  have d: "distinct (map fst (m_groups w))" and m: "map_of (m_groups w) (mw_group_key x) = Some q"
    using ok q by (auto simp: mem_ok_def group_queue_def)
  have k: "mw_group_key x \<in> fst ` set (m_groups w)"
    using m by (metis domI dom_map_of_conv_image_fst)
  have "queued (al_put (mw_group_key x) (q @ [x]) (m_groups w)) = add_mset (mw_entity_event_id x) (queued (m_groups w))"
    using queued_put [OF d m, of "q @ [x]"] by simp
  moreover have "keyed_queues (al_put (mw_group_key x) (q @ [x]) (m_groups w))"
    using ok m by (auto simp: mem_ok_def keyed_queues_def)
  ultimately show ?thesis using ok k by (simp add: mem_ok_def length_al_put_old)
qed

lemma enqueue_new_ok:
  assumes ok: "mem_ok cfg (add_mset (mw_entity_event_id x) C) w"
    and n: "group_queue w (mw_group_key x) = None" and p: "m_permits w = Suc n"
  shows "mem_ok cfg C (w\<lparr> m_permits := n, m_groups := al_put (mw_group_key x) [x] (m_groups w) \<rparr>)"
proof -
  have m: "mw_group_key x \<notin> fst ` set (m_groups w)"
    using n by (simp add: group_queue_def map_of_eq_None_iff)
  have d: "distinct (map fst (al_put (mw_group_key x) [x] (m_groups w)))"
    using ok by (simp add: mem_ok_def)
  have "keyed_queues (al_put (mw_group_key x) [x] (m_groups w))"
    using ok by (auto simp: mem_ok_def keyed_queues_def)
  then show ?thesis
    using ok p d by (simp add: mem_ok_def queued_put_new [OF m] length_al_put_new [OF m])
qed

lemma al_put_al_put: "al_put k v (al_put k v' xs) = al_put k v xs"
  by (induction xs) auto

text \<open>\<open>submit\<close> either queues the work or hands it back, and \<open>resume_call\<close> queues it.\<close>

lemma submit_ok:
  assumes ok: "mem_ok cfg (add_mset (mw_entity_event_id x) C) w" and s: "submit x w = (r, w')"
  shows "(r = Inr None \<and> mem_ok cfg C w')
    \<or> (r = Inr (Some x) \<and> w' = w \<and> m_permits w = 0 \<and> group_queue w (mw_group_key x) = None)"
proof (cases "group_queue w (mw_group_key x)")
  case (Some q)
  with s have "r = Inr None" "w' = w\<lparr> m_groups := al_put (mw_group_key x) (q @ [x]) (m_groups w) \<rparr>"
    by (auto simp: submit_def Let_def bind_def get_w_def group_enqueue_def modify_def ret_def)
  then show ?thesis using enqueue_existing_ok [OF ok Some] by simp
next
  case None
  show ?thesis
  proof (cases "m_permits w")
    case 0
    with None s show ?thesis by (auto simp: submit_def Let_def bind_def get_w_def ret_def)
  next
    case (Suc n)
    with None s have "r = Inr None"
      "w' = w\<lparr> m_permits := n, m_groups := al_put (mw_group_key x) [x] (m_groups w) \<rparr>"
      by (auto simp: submit_def Let_def bind_def get_w_def ret_def take_permit_def start_group_def
          group_enqueue_def modify_def group_queue_def al_put_al_put)
    then show ?thesis using enqueue_new_ok [OF ok None Suc] by simp
  qed
qed

lemma resume_ok:
  assumes ok: "mem_ok cfg (add_mset (mw_entity_event_id x) C) w" and s: "resume_call x w = (r, w')"
  shows "(r = Inr True \<and> mem_ok cfg C w') \<or> (r = Inr False \<and> w' = w)"
proof (cases "m_permits w")
  case 0
  with s show ?thesis by (auto simp: resume_call_def bind_def get_w_def ret_def)
next
  case (Suc n)
  show ?thesis
  proof (cases "group_queue w (mw_group_key x)")
    case None
    with Suc s have "r = Inr True"
      "w' = w\<lparr> m_permits := n, m_groups := al_put (mw_group_key x) [x] (m_groups w) \<rparr>"
      by (auto simp: resume_call_def bind_def get_w_def ret_def take_permit_def start_group_def
          group_enqueue_def modify_def group_queue_def al_put_al_put)
    then show ?thesis using enqueue_new_ok [OF ok None Suc] by simp
  next
    case (Some q)
    with Suc s have "r = Inr True" "w' = w\<lparr> m_groups := al_put (mw_group_key x) (q @ [x]) (m_groups w) \<rparr>"
      by (auto simp: resume_call_def bind_def get_w_def ret_def take_permit_def start_group_def
          group_enqueue_def modify_def group_queue_def)
    then show ?thesis using enqueue_existing_ok [OF ok Some] by simp
  qed
qed

section \<open>Routing\<close>

lemma ack_same: "ack n g i w = (r, w') \<Longrightarrow> same_more w w'"
  by (rule alwaysD [OF more_rs.always_rs(3)])

lemma on_success_mem:
  "on_success i mid w = (r, w') \<Longrightarrow> same_more (w\<lparr> m_enqueued := removeAll i (m_enqueued w) \<rparr>) w'"
  unfolding on_success_def discard_def run_modify by (rule ack_same)

text \<open>\<open>route_one\<close> either leaves the memory as it was, or the EntityEvent is in flight once more.\<close>

lemma mem_ok_enqueued:
  "mem_ok cfg C w \<Longrightarrow> i \<notin> set (m_enqueued w) \<Longrightarrow>
     mem_ok cfg (add_mset i C) (w\<lparr> m_enqueued := i # m_enqueued w \<rparr>)"
  by (simp add: mem_ok_def)

text \<open>The world still holds the groups of w, and its in-flight set is that of w but for i.\<close>

definition mem_but :: "uuid \<Rightarrow> 'z agg_world_scheme \<Rightarrow> 'z agg_world_scheme \<Rightarrow> bool" where
  "mem_but i w v \<longleftrightarrow> m_groups v = m_groups w \<and> m_permits v = m_permits w
     \<and> set (m_enqueued v) - {i} = set (m_enqueued w)"

lemma mem_but_same: "mem_but i w v \<Longrightarrow> same_more v v' \<Longrightarrow> mem_but i w v'"
  by (drule same_more_mem) (simp add: mem_but_def)

lemma mem_but_discard:
  "mem_but i w v \<Longrightarrow> mem_but i w (v\<lparr> m_enqueued := removeAll i (m_enqueued v) \<rparr>)"
  by (auto simp: mem_but_def)

lemma mem_but_ok: "mem_ok cfg C w \<Longrightarrow> mem_but i w v \<Longrightarrow> i \<notin> set (m_enqueued v) \<Longrightarrow> mem_ok cfg C v"
  by (auto simp: mem_but_def mem_ok_def)

lemma discard_back:
  "mem_ok cfg C w \<Longrightarrow> mem_but i w v \<Longrightarrow> seq (discard i) (if b then ret None else raise e) v = (r, v') \<Longrightarrow>
     mem_ok cfg C v' \<and> (r = Inr None \<or> r = Inl e)"
  using mem_but_ok [OF _ mem_but_discard, of cfg C w i v]
  by (auto simp: bind_def discard_def modify_def split: if_splits)

lemma on_success_back:
  "mem_ok cfg C w \<Longrightarrow> mem_but i w v \<Longrightarrow> on_success i mid v = (r, v') \<Longrightarrow>
     mem_ok cfg C v' \<and> mem_but i w v'"
proof -
  assume ok: "mem_ok cfg C w" and b: "mem_but i w v" and o: "on_success i mid v = (r, v')"
  let ?d = "v\<lparr> m_enqueued := removeAll i (m_enqueued v) \<rparr>"
  have s: "same_more ?d v'" using on_success_mem [OF o] .
  have "mem_ok cfg C ?d" using mem_but_ok [OF ok mem_but_discard [OF b]] by simp
  with s mem_but_same [OF mem_but_discard [OF b] s] show ?thesis by (simp add: mem_ok_same)
qed

text \<open>The result of \<open>process_entity_event\<close> with the id in flight: an error or a final outcome leave
  the memory as before, but for the id; otherwise the work is queued, or handed back.\<close>

lemma process_entity_event_mem:
  assumes ok: "mem_ok cfg C w" and n: "i \<notin> set (m_enqueued w)"
    and w1: "w1 = w\<lparr> m_enqueued := i # m_enqueued w \<rparr>"
    and p: "process_entity_event i mid (on_success i mid) w1 = (r, w')"
  shows "(\<exists>e. r = Inl e \<and> mem_but i w w')
    \<or> (r = Inr None \<and> mem_ok cfg C w')
    \<or> (\<exists>x. r = Inr (Some x) \<and> mem_ok cfg (add_mset (mw_entity_event_id x) C) w')"
proof -
  have b1: "mem_but i w w1" using n by (auto simp: mem_but_def w1)
  obtain q w2 where f: "fetch_entity_event i w1 = (q, w2)" by fastforce
  have s2: "same_more w1 w2" using alwaysD [OF more_pg.always_repo(1) f] .
  note b2 = mem_but_same [OF b1 s2]
  show ?thesis
  proof (cases q)
    case (Inl e)
    with p f b2 show ?thesis by (auto simp: process_entity_event_def bind_def)
  next
    case (Inr opt)
    show ?thesis
    proof (cases opt)
      case None
      with p f Inr have "seq (on_success i mid) (ret None) w2 = (r, w')"
        by (simp add: process_entity_event_def run_Inr)
      then obtain q3 where o: "on_success i mid w2 = (q3, w')"
        and r: "r = Inr None \<or> (\<exists>e. r = Inl e)"
        by (auto dest!: seq_ret_cases)
      with on_success_back [OF ok b2 o] show ?thesis by auto
    next
      case (Some e)
      define x where "x = \<lparr> mw_entity_event = e, mw_group_key = group_key_of e, mw_entity_event_id = i, mw_message_id = mid \<rparr>"
      have "mem_ok cfg (add_mset (mw_entity_event_id x) C) w2"
        using mem_ok_enqueued [OF ok n] mem_ok_same [OF s2] by (simp add: x_def w1)
      moreover have "submit x w2 = (r, w')"
        using p f Inr Some by (simp add: process_entity_event_def run_Inr x_def)
      ultimately show ?thesis using submit_ok by blast
    qed
  qed
qed

definition call_ids :: "exn + merge_work option \<Rightarrow> uuid multiset" where
  "call_ids r = (case r of Inr (Some x) \<Rightarrow> {# mw_entity_event_id x #} | _ \<Rightarrow> {#})"

lemma route_one_ok:
  assumes ok: "mem_ok cfg C w" and r: "route_one i mid w = (r, w')"
  shows "mem_ok cfg (C + call_ids r) w'"
proof (cases "i \<in> set (m_enqueued w)")
  case True
  with r ok show ?thesis by (auto simp: route_one_def bind_def get_w_def call_ids_def)
next
  case False
  define w1 where "w1 = w\<lparr> m_enqueued := i # m_enqueued w \<rparr>"
  obtain q w2 where p: "process_entity_event i mid (on_success i mid) w1 = (q, w2)" by fastforce
  note P = process_entity_event_mem [OF ok False w1_def p]
  have t: "try_except (process_entity_event i mid (on_success i mid)) (\<lambda>exc. seq (discard i)
      (if is_exception exc \<and> \<not> is_redis_unreachable exc then ret None else raise exc)) w1 = (r, w')"
    using r False by (simp add: route_one_def add_enqueued_def w1_def)
  show ?thesis
  proof (cases q)
    case (Inl e)
    with t p have "seq (discard i) (if is_exception e \<and> \<not> is_redis_unreachable e then ret None else raise e) w2 = (r, w')"
      by (simp only: try_Inl)
    with discard_back [OF ok _ this] P Inl show ?thesis by (auto simp: call_ids_def)
  next
    case (Inr _)
    with t p have "r = q" "w' = w2" by (simp_all add: try_Inr)
    with P Inr show ?thesis by (auto simp: call_ids_def)
  qed
qed

lemma route_ok:
  assumes ok: "mem_ok cfg C w" and r: "route cfg dumps m w = (r, w')"
  shows "mem_ok cfg (C + call_ids r) w'"
proof -
  have dl: "mem_ok cfg (C + call_ids q) v'" if "seq (push_dead_letter cfg dumps m) (ret None) w = (q, v')" for q v'
  proof -
    from seq_ret_cases [OF that] obtain q2 where q2: "push_dead_letter cfg dumps m w = (q2, v')"
      and q: "q = Inr None \<or> (\<exists>e. q = Inl e)" by auto
    have "same_more w v'" using q2 unfolding push_dead_letter_def by (rule alwaysD [OF more_rs.always_rs(5)])
    with ok q show ?thesis by (auto simp: mem_ok_same call_ids_def)
  qed
  have wrap: "mem_ok cfg (C + call_ids r) w'"
    if t: "try_except b (\<lambda>exc. if is_exception exc \<and> \<not> is_redis_unreachable exc then ret None else raise exc) w = (r, w')"
      and b: "\<And>q v'. b w = (q, v') \<Longrightarrow> mem_ok cfg (C + call_ids q) v'" for b
  proof -
    obtain q v' where q: "b w = (q, v')" by fastforce
    with b have "mem_ok cfg (C + call_ids q) v'" by blast
    with t q show ?thesis by (cases q) (auto simp: try_except_def call_ids_def split: if_splits)
  qed
  show ?thesis
    by (rule wrap [OF r [unfolded route_def]])
      (use dl route_one_ok [OF ok] in \<open>auto split: if_splits option.splits\<close>)
qed

end
