(* ===== verification/Sapi_Merge.thy ===== *)
theory Sapi_Merge
  imports Sapi_Aggregation_Consumer
begin

text \<open>
  The merge of one EntityEvent, split into what it does before its callback and the callback:
  the outcome (a duplicate, a late report, a merge), what the store and the tables hold then, and
  that every failure ends in the other callback.
\<close>

section \<open>Before the callback\<close>

datatype merge_outcome = Duplicate | Late | Merged "event option" event

definition merge_prepare :: "app_config \<Rightarrow> entity_event \<Rightarrow> group_key \<Rightarrow> ('z, merge_outcome) sapi" where
  "merge_prepare cfg e g =
     bind (get_active_event (gk_exchange g) (gk_stock_code g) (gk_event_type_primary g)) (\<lambda>active.
     bind (is_merged e active) (\<lambda>merged.
     if merged then ret Duplicate
     else
       bind (case active of None \<Rightarrow> ret False | Some a \<Rightarrow> some_or_assert (is_late (cfg_aggregation cfg) a e)) (\<lambda>late.
       if late then ret Late
       else
         bind (merge_or_create (cfg_aggregation cfg) active e) (\<lambda>updated.
         seq (case active of
                None \<Rightarrow> ret ()
              | Some a \<Rightarrow>
                  if ev_event_id updated \<noteq> ev_event_id a then seq (persist_and_publish cfg [a]) (ret ()) else ret ())
         (seq (upsert_active_event updated (ttl_for (cfg_aggregation cfg) updated))
              (ret (Merged active updated)))))))"

lemma bind_if: "bind (if b then m else n) f = (if b then bind m f else bind n f)"
  by simp

lemma merge_body_prepare: "merge_body cfg e g succ = seq (merge_prepare cfg e g) succ"
  unfolding merge_body_def merge_prepare_def
  by (simp add: bind_assoc bind_if cong: if_cong)

text \<open>The ways a merge ends: the callback of a final outcome ran, and perhaps failed; or the merge
  failed before it.\<close>

lemma merge_cases:
  assumes "merge cfg e g succ fail w = (r, w')"
  obtains (succeeded) out w1 where "merge_prepare cfg e g w = (Inr out, w1)" and "succ w1 = (Inr (), w')" and "r = Inr ()"
  | (failed_success) out w1 exc w2 where "merge_prepare cfg e g w = (Inr out, w1)" and "succ w1 = (Inl exc, w2)"
      and "(if is_exception exc then fail else raise exc) w2 = (r, w')"
  | (failed) exc w1 where "merge_prepare cfg e g w = (Inl exc, w1)"
      and "(if is_exception exc then fail else raise exc) w1 = (r, w')"
proof -
  obtain q w1 where p: "merge_prepare cfg e g w = (q, w1)" by fastforce
  show thesis
  proof (cases q)
    case (Inl exc)
    with assms p show thesis
      by (intro failed) (auto simp: merge_def merge_body_prepare try_except_def bind_def)
  next
    case (Inr out)
    obtain q2 w2 where s: "succ w1 = (q2, w2)" by fastforce
    show thesis
    proof (cases q2)
      case (Inl exc)
      with assms p s Inr show thesis
        by (intro failed_success) (auto simp: merge_def merge_body_prepare try_except_def bind_def)
    next
      case (Inr x)
      with assms p s \<open>q = Inr out\<close> show thesis
        by (intro succeeded) (auto simp: merge_def merge_body_prepare try_except_def bind_def)
    qed
  qed
qed

text \<open>A relation of worlds that every call of the merge maintains is maintained by the merge.\<close>

locale merge_calls = monotone_io R for R :: "'z world_scheme \<Rightarrow> 'z world_scheme \<Rightarrow> bool" +
  assumes clock: "always R datetime_now" and fresh: "always R uuid4"
    and reads: "always R (get_active_event x c et)" "always R (fetch_mapped_event_id i)"
    and writes: "always R (persist_and_publish cfg es)" "always R (upsert_active_event ev ttl)"
begin

lemma always_is_merged: "always R (is_merged e a)"
  unfolding is_merged_def
  by (auto intro!: always_bind always_ret some_or_assert_always R_refl reads split: option.splits)

lemma always_merge_or_create: "always R (merge_or_create acfg active e)"
  unfolding merge_or_create_def Let_def
  by (auto intro!: always_bind always_ret always_raise some_or_assert_always R_refl clock fresh
      split: option.splits)

lemma always_merge_prepare: "always R (merge_prepare acfg e g)"
  unfolding merge_prepare_def
  by (auto intro!: always_bind always_ret always_raise some_or_assert_always R_refl always_is_merged
      always_merge_or_create reads writes split: option.splits)

end

lemma uuid4_frames:
  "always same_more uuid4" "always (unacked K) uuid4" "always world_grow uuid4" "always same_streams uuid4"
  "always (db_rel db_step) uuid4" "always same_state uuid4"
  by (rule alwaysI, auto simp: uuid4_def same_more_def unacked_def world_grow_def same_streams_def
      db_rel_def step.db_refl same_state_def)+

lemma datetime_now_frames:
  "always same_more datetime_now" "always world_grow datetime_now" "always (db_rel db_step) datetime_now"
  by (rule alwaysI, auto simp: datetime_now_def Let_def same_more_def world_grow_def db_rel_def step.db_refl)+

interpretation more_merge: merge_calls same_more
  by unfold_locales (intro datetime_now_frames uuid4_frames more_rt.always_rt more_pg.always_repo
      persist_and_publish_frames)+

interpretation unacked_merge: merge_calls "unacked K" for K
  by unfold_locales (intro datetime_now_unacked uuid4_frames unacked_rt.always_rt unacked_pg.always_repo
      persist_and_publish_frames)+

interpretation grow_merge: merge_calls world_grow
  by unfold_locales (intro datetime_now_frames uuid4_frames grow_rt.always_rt grow_pg.always_repo
      persist_and_publish_frames)+

interpretation step_merge: merge_calls "db_rel db_step"
  by unfold_locales (intro datetime_now_frames uuid4_frames step_rt.always_rt fetch_steps
      persist_and_publish_step)+

lemma keeps_announced_rt: "always rt_frame m \<Longrightarrow> keeps announced_in m"
  unfolding always_def by (auto simp: rt_frame_def announced_in_def)

lemma keeps_announced_active:
  "keeps announced_in (get_active_event x c et)" "keeps announced_in (upsert_active_event ev ttl)"
  by (intro keeps_announced_rt get_active_event_frame upsert_active_event_frame)+

lemma keeps_announced_clock: "keeps announced_in datetime_now" "keeps announced_in uuid4"
  by (rule alwaysI, auto simp: datetime_now_def uuid4_def announced_in_def Let_def)+

interpretation announced_merge: merge_calls "\<lambda>w w'. announced_in w \<longrightarrow> announced_in w'"
proof unfold_locales
  show "keeps announced_in (fetch_mapped_event_id i)" for i
    unfolding fetch_mapped_event_id_def
    by (intro keeps_announced_db streams_pg.always_pg marks.db_fetch_rel)
qed (intro keeps_announced_active keeps_announced_clock keeps_announced_persist_and_publish)+

section \<open>What holds when the callback runs\<close>

lemma decode_event_group: "decode_event x c et fs = Inr e \<Longrightarrow> group_of_event e = (x, c, et)"
  unfolding decode_event_def by (auto simp: group_of_event_def rbind_eq_Inr)

lemma lookup_event_group: "lookup_event g now hs = Some e \<Longrightarrow> group_of_event e = g"
  by (auto simp: lookup_event_def dest: decode_event_group split: prod.splits option.splits sum.splits)

text \<open>Every live entry of the store is a well-formed active Event.\<close>

definition store_wf :: "aggregation_config \<Rightarrow> instant \<Rightarrow> hashes \<Rightarrow> bool" where
  "store_wf cfg now hs \<longleftrightarrow> (\<forall>g e. lookup_event g now hs = Some e \<longrightarrow> event_wf cfg e)"

lemma is_merged_True:
  assumes "is_merged e active w = (Inr True, w')"
  shows "\<exists>i. ee_entity_event_id e = Some i \<and>
    ((\<exists>a ids. active = Some a \<and> ev_entity_event_ids a = Some ids \<and> i \<in> set ids) \<or> mapped i (w_db w'))"
proof -
  from assms obtain i b w1 where i: "ee_entity_event_id e = Some i"
    and a: "(case active of None \<Rightarrow> ret False
        | Some a \<Rightarrow> bind (some_or_assert (ev_entity_event_ids a)) (\<lambda>ids. ret (i \<in> set ids))) w = (Inr b, w1)"
    and f: "(if b then ret True else bind (fetch_mapped_event_id i) (\<lambda>m. ret (m \<noteq> None))) w1 = (Inr True, w')"
    by (auto simp: is_merged_def bind_eq_Inr)
  show ?thesis
  proof (cases b)
    case True
    with a i show ?thesis by (auto simp: bind_eq_Inr split: option.splits)
  next
    case False
    with f obtain m where m: "fetch_mapped_event_id i w1 = (Inr m, w')" "m \<noteq> None"
      by (auto simp: bind_eq_Inr)
    have "m = map_option eem_event_id (find (\<lambda>m. eem_entity_event_id m = i) (t_event_entity_map (w_db w1)))"
        "w_db w' = w_db w1"
      using db_fetch_Inr [OF m(1) [unfolded fetch_mapped_event_id_def]] by auto
    with m(2) have "mapped i (w_db w')" by (auto simp: mapped_def find_Some_iff)
    with i show ?thesis by blast
  qed
qed

lemma upsert_active_event_now: "upsert_active_event e ttl w = (r, w') \<Longrightarrow> w_now w' = w_now w"
  by (drule alwaysD [OF upsert_active_event_frame]) (simp add: rt_frame_def)

text \<open>The store holds an Event: the live hash at its group's key has every field of the Event's
  encoding.\<close>

definition holds_event :: "event \<Rightarrow> instant \<Rightarrow> hashes \<Rightarrow> bool" where
  "holds_event e now hs \<longleftrightarrow>
     (\<exists>fs upd ids. live_hash now hs (get_key (ev_exchange e) (ev_stock_code e) (ev_event_type_primary e)) = Some fs
        \<and> ev_aggregation_updated_at e = Some upd \<and> ev_entity_event_ids e = Some ids
        \<and> (\<forall>(k, v) \<in> set (encode_event e upd ids). map_of fs k = Some v))"

text \<open>The Event that the EntityEvent e makes of its group's active one: a new Event of e alone, or the
  active one with e's id appended and its time span widened.\<close>

definition merge_result ::
  "aggregation_config \<Rightarrow> entity_event \<Rightarrow> instant \<Rightarrow> event option \<Rightarrow> event \<Rightarrow> bool" where
  "merge_result cfg e now active updated \<longleftrightarrow>
     (\<exists>p i t. get_published_at e = Some p \<and> ee_entity_event_id e = Some i \<and> now \<le> t \<and>
        ((\<exists>a. active = Some a \<and> in_window cfg a p \<and> updated = merged_event a p i t)
         \<or> (\<forall>a. active = Some a \<longrightarrow> \<not> in_window cfg a p) \<and> (\<exists>new. updated = created_event e p i t new)))"

text \<open>The state a final outcome leaves: the EntityEvent's id is in the group's active Event or
  mapped to a stored one; or it is older than the active Event's window; or the store holds the
  Event it was merged into, and an Event that one replaces is stored and announced.\<close>

definition outcome_final ::
  "app_config \<Rightarrow> entity_event \<Rightarrow> group_id \<Rightarrow> 'z world_scheme \<Rightarrow> merge_outcome \<Rightarrow> 'z world_scheme \<Rightarrow> bool" where
  "outcome_final cfg e g w out w' \<longleftrightarrow>
     (case out of
        Duplicate \<Rightarrow> \<exists>i. ee_entity_event_id e = Some i \<and>
          ((\<exists>a ids. lookup_event g (w_now w) (w_state w) = Some a \<and> ev_entity_event_ids a = Some ids \<and> i \<in> set ids)
           \<or> mapped i (w_db w'))
      | Late \<Rightarrow> \<exists>a p. lookup_event g (w_now w) (w_state w) = Some a \<and> get_published_at e = Some p
          \<and> agg_sliding_window_hours (cfg_aggregation cfg) * us_per_hour < ev_last_seen_at a - p
      | Merged active updated \<Rightarrow>
          active = lookup_event g (w_now w) (w_state w)
          \<and> merge_result (cfg_aggregation cfg) e (w_now w) active updated
          \<and> event_wf (cfg_aggregation cfg) updated \<and> group_of_event updated = g
          \<and> (\<exists>i ids. ee_entity_event_id e = Some i \<and> ev_entity_event_ids updated = Some ids \<and> i \<in> set ids)
          \<comment> \<open>the store\<close>
          \<and> holds_event updated (w_now w') (w_state w')
          \<and> (storable updated \<longrightarrow> lookup_event g (w_now w') (w_state w') = Some updated)
          \<comment> \<open>the replaced Event\<close>
          \<and> (\<forall>a upd. active = Some a \<longrightarrow> ev_event_id updated \<noteq> ev_event_id a \<longrightarrow>
               ev_aggregation_updated_at a = Some upd \<longrightarrow>
               persisted_event a (w_db w') \<and> marked_at (ev_event_id a) upd (w_db w')))"

section \<open>Every outcome is final\<close>

text \<open>The reads of a merge change neither the clock nor the tables nor the store.\<close>

definition looks :: "'z world_scheme \<Rightarrow> 'z world_scheme \<Rightarrow> bool" where
  "looks w w' \<longleftrightarrow> w_now w' = w_now w \<and> w_db w' = w_db w \<and> w_state w' = w_state w"

interpretation looks: monotone_io looks
  by unfold_locales (auto simp: looks_def)

lemma looks_fetch: "always looks (db_fetch q)"
  unfolding db_fetch_def translated_errors_def
  by (intro looks.always_intros alwaysI) (auto simp: looks_def dest!: pg_call_world)

lemma looks_active: "always looks (get_active_event x c et)"
proof (rule alwaysI)
  fix w r w'
  assume g: "get_active_event x c et w = (r, w')"
  from alwaysD [OF get_active_event_frame g] alwaysD [OF get_active_event_state g] show "looks w w'"
    by (simp add: looks_def rt_frame_def same_state_def)
qed

lemma looks_is_merged: "always looks (is_merged e a)"
  unfolding is_merged_def fetch_mapped_event_id_def
  by (auto intro!: looks.always_bind looks.always_ret looks_fetch some_or_assert_always looks.R_refl
      split: option.splits)

lemma get_active_event_value:
  assumes "get_active_event x c et w = (Inr r, w')"
  shows "r = lookup_event (x, c, et) (w_now w) (w_state w)"
proof -
  have "decode_event x c et [] = Inl (Py KeyError)" by (simp add: decode_event_def field_def)
  with get_active_event_lookup [OF assms] show ?thesis by (auto simp: lookup_event_def)
qed

lemma late_iff:
  assumes "window_config_ok cfg" and "is_late cfg a e = Some b"
  shows "\<exists>p. get_published_at e = Some p
    \<and> b = (agg_sliding_window_hours cfg * us_per_hour < ev_last_seen_at a - p)"
  using assms get_hours_le_iff [of "agg_sliding_window_hours cfg"]
  by (auto simp: is_late_def window_config_ok_def not_le [symmetric])

text \<open>The Event a merge leaves belongs to the group and holds the EntityEvent.\<close>

lemma merge_or_create_in_group:
  assumes c: "window_config_ok cfg" and e: "is_persistent_event e"
    and a: "\<And>a. active = Some a \<Longrightarrow> event_wf cfg a \<and> group_of_event a = group_id_of (group_key_of e)"
    and m: "merge_or_create cfg active e w = (Inr ev, w')"
  shows "event_wf cfg ev" and "merge_result cfg e (w_now w) active ev"
    and "group_of_event ev = group_id_of (group_key_of e)"
    and "\<exists>i ids. ee_entity_event_id e = Some i \<and> ev_entity_event_ids ev = Some ids \<and> i \<in> set ids"
proof -
  have a': "is_active_event x \<and> ev_first_seen_at x \<le> ev_last_seen_at x" if "active = Some x" for x
    using a [OF that] by (simp add: event_wf_def)
  show "event_wf cfg ev" using merge_or_create_wf [OF c e _ m] a by blast
  from merge_or_create_result [OF c e a' m] show "merge_result cfg e (w_now w) active ev"
    unfolding merge_result_def by blast
  from merge_or_create_result [OF c e a' m] a
  show "group_of_event ev = group_id_of (group_key_of e)"
    "\<exists>i ids. ee_entity_event_id e = Some i \<and> ev_entity_event_ids ev = Some ids \<and> i \<in> set ids"
    by (auto simp: merged_event_def created_event_def group_of_event_def group_id_of_def group_key_of_def)
qed

text \<open>Storing the Event makes it its group's active one.\<close>

lemma lookup_put_fields:
  "distinct (map fst fs) \<Longrightarrow> (k, v) \<in> set fs \<Longrightarrow> map_of (put_fields fs old) k = Some v"
  by (simp add: map_of_put_fields map_add_find_right)

lemma encode_event_fields: "distinct (map fst (encode_event e upd ids))"
  by (simp add: encode_event_def)

lemma upsert_holds:
  assumes c: "window_config_ok (cfg_aggregation cfg)" and wf: "event_wf (cfg_aggregation cfg) ev"
    and u: "upsert_active_event ev (ttl_for (cfg_aggregation cfg) ev) w = (Inr x, w')"
  shows "holds_event ev (w_now w') (w_state w')"
proof -
  have t: "0 < ttl_for (cfg_aggregation cfg) ev" using ttl_bounds(1) [OF c wf] c by (simp add: window_config_ok_def)
  obtain upd ids where e: "ev_aggregation_updated_at ev = Some upd" "ev_entity_event_ids ev = Some ids"
    using wf active_ids [of ev] by (auto simp: event_wf_def)
  have "\<exists>fs. live_hash (w_now w') (w_state w')
      (get_key (ev_exchange ev) (ev_stock_code ev) (ev_event_type_primary ev)) = Some (put_fields (encode_event ev upd ids) fs)"
    unfolding upsert_active_event_Inr [OF u] upsert_active_event_now [OF u]
    using t by (auto simp: store_event_def group_of_event_def e live_hset us_per_second_def)
  then show ?thesis
    unfolding holds_event_def using e lookup_put_fields [OF encode_event_fields] by blast
qed

lemma upsert_stores:
  assumes c: "window_config_ok (cfg_aggregation cfg)" and wf: "event_wf (cfg_aggregation cfg) ev"
    and u: "upsert_active_event ev (ttl_for (cfg_aggregation cfg) ev) w = (Inr x, w')"
    and st: "storable ev"
  shows "lookup_event (group_of_event ev) (w_now w') (w_state w') = Some ev"
proof -
  have "0 < ttl_for (cfg_aggregation cfg) ev" using ttl_bounds(1) [OF c wf] c by (simp add: window_config_ok_def)
  then show ?thesis
    unfolding upsert_active_event_Inr [OF u] upsert_active_event_now [OF u]
    by (intro active_events.lookup_store) (simp_all add: st us_per_second_def)
qed

lemma merge_prepare_merged:
  fixes w :: "'z world_scheme"
  assumes c: "window_config_ok (cfg_aggregation cfg)" and e: "is_persistent_event e"
    and ok: "db_ok (w_db w)"
    and a: "\<And>a. active = Some a \<Longrightarrow> event_wf (cfg_aggregation cfg) a \<and> group_of_event a = group_id_of (group_key_of e)"
    and m: "merge_or_create (cfg_aggregation cfg) active e w = (Inr ev, w1)"
    and p: "(case active of
                None \<Rightarrow> ret ()
              | Some a \<Rightarrow> if ev_event_id ev \<noteq> ev_event_id a then seq (persist_and_publish cfg [a]) (ret ()) else ret ()) w1
            = (Inr (), w2)"
    and u: "upsert_active_event ev (ttl_for (cfg_aggregation cfg) ev) w2 = (Inr x, w')"
    and upd: "active = Some q" "ev_event_id ev \<noteq> ev_event_id q" "ev_aggregation_updated_at q = Some t"
  shows "persisted_event q (w_db w') \<and> marked_at (ev_event_id q) t (w_db w')"
proof -
  have "db_ok (w_db w1)" using stepD [OF step_merge.always_merge_or_create m ok] by simp
  moreover obtain out where "persist_and_publish cfg [q] w1 = (Inr out, w2)"
    using p upd by (auto simp: bind_eq_Inr)
  moreover have "w_db w' = w_db w2" using alwaysD [OF upsert_active_event_frame u] by (simp add: rt_frame_def)
  ultimately show ?thesis using persist_and_publish_Inr upd by fastforce
qed

lemma merge_prepare_final:
  fixes w :: "'z world_scheme"
  assumes c: "window_config_ok (cfg_aggregation cfg)" and e: "is_persistent_event e"
    and ok: "db_ok (w_db w)" and wf: "store_wf (cfg_aggregation cfg) (w_now w) (w_state w)"
    and m: "merge_prepare cfg e (group_key_of e) w = (Inr out, w')"
  shows "outcome_final cfg e (group_id_of (group_key_of e)) w out w'"
proof -
  define g where "g = group_id_of (group_key_of e)"
  from m obtain active w1 b w2 where
    ga: "get_active_event (gk_exchange (group_key_of e)) (gk_stock_code (group_key_of e))
      (gk_event_type_primary (group_key_of e)) w = (Inr active, w1)"
    and im: "is_merged e active w1 = (Inr b, w2)"
    and rest: "(if b then ret Duplicate
     else
       bind (case active of None \<Rightarrow> ret False | Some a \<Rightarrow> some_or_assert (is_late (cfg_aggregation cfg) a e)) (\<lambda>late.
       if late then ret Late
       else
         bind (merge_or_create (cfg_aggregation cfg) active e) (\<lambda>updated.
         seq (case active of
                None \<Rightarrow> ret ()
              | Some a \<Rightarrow>
                  if ev_event_id updated \<noteq> ev_event_id a then seq (persist_and_publish cfg [a]) (ret ()) else ret ())
         (seq (upsert_active_event updated (ttl_for (cfg_aggregation cfg) updated))
              (ret (Merged active updated)))))) w2 = (Inr out, w')"
    by (auto simp: merge_prepare_def bind_eq_Inr)
  have act: "active = lookup_event g (w_now w) (w_state w)"
    using get_active_event_value [OF ga] by (simp add: g_def group_id_of_def)
  have aok: "event_wf (cfg_aggregation cfg) a \<and> group_of_event a = g" if "active = Some a" for a
    using that wf lookup_event_group [of g "w_now w" "w_state w" a] unfolding act store_wf_def by blast
  have l2: "looks w w2"
    using looks.R_trans [OF alwaysD [OF looks_active ga] alwaysD [OF looks_is_merged im]] .
  show ?thesis unfolding g_def [symmetric]
  proof (cases b)
    case True
    then have "out = Duplicate" "w' = w2" using rest by auto
    then show "outcome_final cfg e g w out w'"
      using is_merged_True im True act by (fastforce simp: outcome_final_def)
  next
    case nb: False
    with rest obtain late where
      l: "(case active of None \<Rightarrow> ret False | Some a \<Rightarrow> some_or_assert (is_late (cfg_aggregation cfg) a e)) w2
          = (Inr late, w2)"
      by (auto simp: bind_eq_Inr split: option.splits)
    show "outcome_final cfg e g w out w'"
    proof (cases late)
      case True
      with rest nb l have "out = Late" by (auto simp: run_Inr)
      moreover obtain a where a: "active = Some a" "is_late (cfg_aggregation cfg) a e = Some True"
        using l True by (auto split: option.splits)
      moreover obtain p where "get_published_at e = Some p"
        "agg_sliding_window_hours (cfg_aggregation cfg) * us_per_hour < ev_last_seen_at a - p"
        using late_iff [OF c a(2)] by blast
      ultimately show ?thesis using act by (auto simp: outcome_final_def)
    next
      case False
      with rest nb l obtain ev w3 w4 x where
        mc: "merge_or_create (cfg_aggregation cfg) active e w2 = (Inr ev, w3)"
        and pp: "(case active of None \<Rightarrow> ret ()
              | Some a \<Rightarrow> if ev_event_id ev \<noteq> ev_event_id a then seq (persist_and_publish cfg [a]) (ret ()) else ret ()) w3
            = (Inr (), w4)"
        and up: "upsert_active_event ev (ttl_for (cfg_aggregation cfg) ev) w4 = (Inr x, w')"
        and out: "out = Merged active ev"
        by (auto simp: run_Inr bind_eq_Inr)
      have aok': "\<And>a. active = Some a \<Longrightarrow> event_wf (cfg_aggregation cfg) a \<and> group_of_event a = group_id_of (group_key_of e)"
        using aok by (simp add: g_def)
      note in_group = merge_or_create_in_group [OF c e aok' mc]
      have ok2: "db_ok (w_db w2)" and now: "w_now w2 = w_now w" using ok l2 by (simp_all add: looks_def)
      have "persisted_event a (w_db w') \<and> marked_at (ev_event_id a) upd (w_db w')"
        if "active = Some a" "ev_event_id ev \<noteq> ev_event_id a" "ev_aggregation_updated_at a = Some upd" for a upd
        by (rule merge_prepare_merged [OF c e ok2 aok' mc pp up that])
      then show ?thesis
        using in_group(1,3,4) in_group(2) [unfolded now] upsert_holds [OF c in_group(1) up]
          upsert_stores [OF c in_group(1) up] act
        by (auto simp: out outcome_final_def g_def)
    qed
  qed
qed

end
