(* ===== verification/Sapi_Aggregation_Steps.thy ===== *)
theory Sapi_Aggregation_Steps
  imports Sapi_Aggregation_Inv Sapi_Merge
begin

text \<open>
  The aggregation layer as a step relation: the consumer loop and the reclaim loop advance one
  message or one suspension at a time, groups run their queued work or idle out, the active Events
  are flushed, the layer or the process restarts, and the rest of the system reads, writes and
  appends beside it. The invariant of the reachable states joins the memory, the tables and the
  announcements.
\<close>

section \<open>One unit of work\<close>

lemma run_work_same:
  fixes w :: "'z agg_world_scheme"
  assumes "merge_prepare cfg e g w = (q, w1)"
  shows "same_more w w1"
  using alwaysD [OF more_merge.always_merge_prepare assms] .

lemma discard_run: "discard i w = (r, w') \<longleftrightarrow> r = Inr () \<and> w' = w\<lparr> m_enqueued := removeAll i (m_enqueued w) \<rparr>"
  by (auto simp: discard_def)

lemma merge_same_more:
  assumes "same_more w w1" and "same_more (w1\<lparr> m_enqueued := removeAll i (m_enqueued w1) \<rparr>) w2"
  shows "m_groups w2 = m_groups w \<and> m_permits w2 = m_permits w \<and> m_last_flushed w2 = m_last_flushed w
    \<and> m_enqueued w2 = removeAll i (m_enqueued w) \<and> agg_world.more w2 = agg_world.more w"
  using same_more_mem [OF assms(1)] same_more_mem [OF assms(2)] by simp

text \<open>Whatever happens in it, a unit of work that is not cancelled ends normally, takes its id out
  of the in-flight set and touches nothing else of the memory.\<close>

lemma run_work_memory:
  fixes w :: "'z agg_world_scheme"
  assumes r: "run_work cfg x w = (r, w')" and ex: "\<And>e. r = Inl e \<Longrightarrow> is_exception e"
  shows "r = Inr () \<and> m_groups w' = m_groups w \<and> m_permits w' = m_permits w
    \<and> m_last_flushed w' = m_last_flushed w
    \<and> m_enqueued w' = removeAll (mw_entity_event_id x) (m_enqueued w)
    \<and> agg_world.more w' = agg_world.more w"
  using r [unfolded run_work_def]
proof (cases rule: merge_cases)
  case (succeeded out w1)
  have "same_more (w1\<lparr> m_enqueued := removeAll (mw_entity_event_id x) (m_enqueued w1) \<rparr>) w'"
    by (rule on_success_mem [OF succeeded(2)])
  from merge_same_more [OF run_work_same [OF succeeded(1)] this] succeeded(3) show ?thesis by simp
next
  case (failed_success out w1 exc w2)
  have s: "same_more (w1\<lparr> m_enqueued := removeAll (mw_entity_event_id x) (m_enqueued w1) \<rparr>) w2"
    by (rule on_success_mem [OF failed_success(2)])
  have "is_exception exc" using failed_success(3) ex by (auto split: if_splits)
  with failed_success(3) have "r = Inr ()" "w' = w2\<lparr> m_enqueued := removeAll (mw_entity_event_id x) (m_enqueued w2) \<rparr>"
    by (auto simp: discard_run)
  with merge_same_more [OF run_work_same [OF failed_success(1)] s] show ?thesis by simp
next
  case (failed exc w1)
  have "is_exception exc" using failed(2) ex by (auto split: if_splits)
  with failed(2) have "r = Inr ()" "w' = w1\<lparr> m_enqueued := removeAll (mw_entity_event_id x) (m_enqueued w1) \<rparr>"
    by (auto simp: discard_run)
  with same_more_mem [OF run_work_same [OF failed(1)]] show ?thesis by simp
qed

lemma group_work_ok:
  assumes ok: "mem_ok cfg C w" and g: "group_work (run_work cfg) g w = (Inr b, w')"
  shows "mem_ok cfg C w' \<and> agg_world.more w' = agg_world.more w"
proof (cases "group_queue w g")
  case None
  with g ok show ?thesis by (simp add: group_work_def)
next
  case (Some q)
  show ?thesis
  proof (cases q)
    case Nil
    with g ok Some show ?thesis by (simp add: group_work_def)
  next
    case (Cons x q')
    define w1 where "w1 = w\<lparr> m_groups := al_put g q' (m_groups w) \<rparr>"
    obtain r w2 where r: "run_work cfg x w1 = (r, w2)" by fastforce
    have t: "bind (try_except (run_work cfg x) (\<lambda>e. if is_exception e then ret () else raise e)) (\<lambda>_. ret True) w1
        = (Inr b, w')"
      using g Some Cons by (simp add: group_work_def w1_def)
    then have ex: "\<And>e. r = Inl e \<Longrightarrow> is_exception e"
      using r by (auto simp: bind_def try_except_def raise_def split: if_splits)
    note R = run_work_memory [OF r ex]
    have w': "w' = w2" using t r R by (auto simp: bind_def try_except_def)
    have q: "map_of (m_groups w) g = Some (x # q')" and d: "distinct (map fst (m_groups w))"
      using Some Cons ok by (simp_all add: group_queue_def mem_ok_def)
    have k: "g \<in> fst ` set (m_groups w)" using q by (metis domI dom_map_of_conv_image_fst)
    have "queued (m_groups w) = add_mset (mw_entity_event_id x) (queued (al_put g q' (m_groups w)))"
      using queued_put [OF d q, of q'] by simp
    moreover have "queued (m_groups w) + C = mset_set (set (m_enqueued w))" using ok by (simp add: mem_ok_def)
    ultimately have m: "mset_set (set (m_enqueued w))
        = add_mset (mw_entity_event_id x) (queued (al_put g q' (m_groups w)) + C)" by simp
    then have "mw_entity_event_id x \<in> set (m_enqueued w)"
      by (metis List.finite_set finite_set_mset_mset_set union_single_eq_member)
    then have "queued (al_put g q' (m_groups w)) + C = mset_set (set (m_enqueued w) - {mw_entity_event_id x})"
      by (simp add: m mset_set_Diff)
    moreover have "keyed_queues (al_put g q' (m_groups w))"
      using ok q by (auto simp: mem_ok_def keyed_queues_def)
    ultimately show ?thesis
      using R ok d k by (simp add: w' w1_def mem_ok_def length_al_put_old)
  qed
qed

lemma group_timeout_ok:
  assumes ok: "mem_ok cfg C w" and g: "group_timeout g w = (Inr b, w')"
  shows "mem_ok cfg C w' \<and> agg_world.more w' = agg_world.more w"
proof (cases "group_queue w g = Some []")
  case False
  with g ok show ?thesis by (auto simp: group_timeout_def split: option.splits if_splits)
next
  case True
  then have q: "map_of (m_groups w) g = Some []" and d: "distinct (map fst (m_groups w))"
    using ok by (simp_all add: group_queue_def mem_ok_def)
  have w': "w' = w\<lparr> m_groups := al_pop g (m_groups w), m_permits := Suc (m_permits w) \<rparr>"
    using g True by (simp add: group_timeout_def on_idle_def)
  have "queued (al_pop g (m_groups w)) = queued (m_groups w)" using queued_pop [OF d q] by simp
  moreover have "Suc (length (al_pop g (m_groups w))) = length (m_groups w)"
    using length_al_pop [OF d] q by (metis domI dom_map_of_conv_image_fst)
  moreover have "keyed_queues (al_pop g (m_groups w))"
    using ok by (simp add: mem_ok_def keyed_queues_def)
  ultimately show ?thesis using ok d by (auto simp: w' mem_ok_def)
qed

section \<open>The steps\<close>

text \<open>What the rest of the system may do meanwhile: it writes entity_events and scores, never a mark
  or a merge state, appends to streams, lets time pass; it does not acknowledge for this group.\<close>

definition env_step :: "'z agg_system_scheme \<Rightarrow> 'z agg_system_scheme \<Rightarrow> bool" where
  "env_step w w' \<longleftrightarrow> same_more w w' \<and> db_rel db_step w w' \<and> marks_from (w_db w) (w_db w')
     \<and> world_grow w w' \<and> unacked {} w w'"

inductive agg_step ::
  "app_config \<Rightarrow> (fields \<Rightarrow> pystr) \<Rightarrow> 'z agg_system_scheme \<Rightarrow> 'z agg_system_scheme \<Rightarrow> bool"
  for cfg dumps where
  Read: "the_loop l w = idle_loop \<Longrightarrow> loop_read cfg l w = (Inr (), w') \<Longrightarrow> agg_step cfg dumps w w'"
| Route: "l_call (the_loop l w) = None \<Longrightarrow> loop_route cfg dumps l w = (Inr (), w') \<Longrightarrow> agg_step cfg dumps w w'"
| Resume: "loop_resume l w = (Inr (), w') \<Longrightarrow> agg_step cfg dumps w w'"
| Read_crash: "the_loop l w = idle_loop \<Longrightarrow> loop_read cfg l w = (Inl e, w1) \<Longrightarrow>
    layer_restart cfg w1 = (Inr (), w') \<Longrightarrow> agg_step cfg dumps w w'"
| Route_crash: "l_call (the_loop l w) = None \<Longrightarrow> loop_route cfg dumps l w = (Inl e, w1) \<Longrightarrow>
    layer_restart cfg w1 = (Inr (), w') \<Longrightarrow> agg_step cfg dumps w w'"
| Flush: "flush_logged cfg w = (Inr (), w') \<Longrightarrow> agg_step cfg dumps w w'"
| Work: "group_work (run_work cfg) g w = (Inr b, w') \<Longrightarrow> agg_step cfg dumps w w'"
| Timeout: "group_timeout g w = (Inr b, w') \<Longrightarrow> agg_step cfg dumps w w'"
| Layer_restart: "layer_restart cfg w = (Inr (), w') \<Longrightarrow> agg_step cfg dumps w w'"
| Process_restart: "process_restart cfg w = (Inr (), w') \<Longrightarrow> agg_step cfg dumps w w'"
| Env: "env_step w w' \<Longrightarrow> agg_step cfg dumps w w'"

inductive reachable ::
  "app_config \<Rightarrow> (fields \<Rightarrow> pystr) \<Rightarrow> 'z agg_system_scheme \<Rightarrow> 'z agg_system_scheme \<Rightarrow> bool"
  for cfg dumps w0 where
  start: "process_restart cfg w0 = (Inr (), w) \<Longrightarrow> reachable cfg dumps w0 w"
| step: "reachable cfg dumps w0 w \<Longrightarrow> agg_step cfg dumps w w' \<Longrightarrow> reachable cfg dumps w0 w'"

text \<open>The ids of the calls that wait for a permit.\<close>

definition waiting :: "'z agg_system_scheme \<Rightarrow> uuid multiset" where
  "waiting w = call_ids (Inr (l_call (s_consumer w))) + call_ids (Inr (l_call (s_reclaimer w)))"

definition memory_inv :: "app_config \<Rightarrow> 'z agg_system_scheme \<Rightarrow> bool" where
  "memory_inv cfg w \<longleftrightarrow> mem_ok cfg (waiting w) w"

section \<open>The memory invariant\<close>

lemma same_more_loops:
  fixes w w' :: "'z agg_system_scheme"
  assumes "agg_world.more w' = agg_world.more w"
  shows "s_consumer w' = s_consumer w \<and> s_reclaimer w' = s_reclaimer w \<and> agg_system.more w' = agg_system.more w"
  using assms by (cases w; cases w') simp

lemma mem_ok_frame:
  "m_groups w' = m_groups w \<Longrightarrow> m_permits w' = m_permits w \<Longrightarrow> m_enqueued w' = m_enqueued w \<Longrightarrow>
     mem_ok cfg C w' = mem_ok cfg C w"
  by (simp add: mem_ok_def)

lemma mem_ok_set_loop [simp]: "mem_ok cfg C (set_loop l s w) = mem_ok cfg C w"
  by (cases l) (simp_all add: set_loop_def mem_ok_def)

lemma waiting_set_loop:
  "waiting (set_loop l s w) + call_ids (Inr (l_call (the_loop l w))) = waiting w + call_ids (Inr (l_call s))"
  by (cases l) (simp_all add: set_loop_def the_loop_def waiting_def ac_simps)

lemma call_ids_None [simp]: "call_ids (Inr None) = {#}" and call_ids_Inl [simp]: "call_ids (Inl e) = {#}"
  and call_ids_Some [simp]: "call_ids (Inr (Some x)) = {# mw_entity_event_id x #}"
  by (simp_all add: call_ids_def)

lemma idle_loop_sel [simp]: "l_call idle_loop = None" "l_batch idle_loop = []"
  by (simp_all add: idle_loop_def)

lemma memory_inv_same: "same_more w w' \<Longrightarrow> memory_inv cfg w' = memory_inv cfg w"
  using same_more_loops same_more_mem mem_ok_frame unfolding memory_inv_def waiting_def by metis

lemma set_loop_inv:
  "mem_ok cfg (waiting w + call_ids (Inr (l_call s))) w \<Longrightarrow> l_call (the_loop l w) = None \<Longrightarrow>
     memory_inv cfg (set_loop l s w)"
  using waiting_set_loop [of l s w] by (simp add: memory_inv_def)

text \<open>What leaves the loops alone, and what leaves the groups and the in-flight set alone too.\<close>

definition same_loops :: "'z agg_world_scheme \<Rightarrow> 'z agg_world_scheme \<Rightarrow> bool" where
  "same_loops w w' \<longleftrightarrow> agg_world.more w' = agg_world.more w"

interpretation same_loops: monotone_io same_loops
  by unfold_locales (auto simp: same_loops_def)

definition same_queues :: "'z agg_world_scheme \<Rightarrow> 'z agg_world_scheme \<Rightarrow> bool" where
  "same_queues w w' \<longleftrightarrow> m_groups w' = m_groups w \<and> m_permits w' = m_permits w
     \<and> m_enqueued w' = m_enqueued w \<and> agg_world.more w' = agg_world.more w"

interpretation same_queues: monotone_io same_queues
  by unfold_locales (auto simp: same_queues_def)

lemma same_more_loops': "always same_more m \<Longrightarrow> always same_loops m"
  using same_more_mem unfolding always_def same_loops_def by blast

lemma same_more_queues: "always same_more m \<Longrightarrow> always same_queues m"
  using same_more_mem unfolding always_def same_queues_def by blast

lemma loops_mem: "always same_loops (discard i)" "always same_loops (add_enqueued i)"
  "always same_loops (submit x)" "always same_loops (resume_call x)"
  unfolding discard_def add_enqueued_def submit_def resume_call_def take_permit_def start_group_def
    group_enqueue_def Let_def
  by (auto intro!: same_loops.always_bind same_loops.always_get_w same_loops.always_ret always_modify
      simp: same_loops_def split: option.splits)

lemma loops_io: "always same_loops (ack n g k)" "always same_loops (dead_letter ri du m n g dl)"
  "always same_loops (fetch_entity_event i)"
  by (intro same_more_loops' more_rs.always_rs more_pg.always_repo)+

lemma queues_io: "always same_queues scan_all" "always same_queues (persist_and_publish cfg es)"
  by (intro same_more_queues more_rt.always_rt persist_and_publish_frames)+

lemma loops_on_success: "always same_loops (on_success i mid)"
  unfolding on_success_def
  by (intro same_loops.always_bind loops_mem loops_io)

lemma loops_route: "always same_loops (route cfg dumps m)"
  unfolding route_def route_one_def process_entity_event_def push_dead_letter_def
  by (auto intro!: same_loops.always_intros loops_mem loops_on_success loops_io split: option.splits)

lemma queues_flush: "always same_queues (flush_logged cfg)"
  unfolding flush_logged_def flush_def
  by (auto intro!: same_queues.always_intros queues_io always_modify simp: same_queues_def)

lemma same_queues_inv: "same_queues w w' \<Longrightarrow> memory_inv cfg w' = memory_inv cfg w"
  using same_more_loops [of w' w] mem_ok_frame [of w' w]
  by (simp add: same_queues_def memory_inv_def waiting_def)

lemma same_loops_waiting:
  "same_loops w w' \<Longrightarrow> waiting w' = waiting w \<and> the_loop l w' = the_loop l w"
  using same_more_loops [of w' w]
  by (simp add: same_loops_def waiting_def the_loop_def split: loop_name.splits)

lemma sleep_same: "always same_more (sleep_ms ms)"
  by (simp add: sleep_ms_def always_modify same_more_def)

lemma guard_loop_inv:
  assumes g: "guard_loop cfg l m w = (r, w')" and m: "m w = (q, v)"
    and ok: "memory_inv cfg v" and c: "\<And>e. q = Inl e \<Longrightarrow> l_call (the_loop l v) = None"
  shows "memory_inv cfg w'"
proof (cases q)
  case (Inr x)
  with g m ok show ?thesis by (simp add: guard_loop_def try_Inr)
next
  case (Inl e)
  have idle: "memory_inv cfg (set_loop l idle_loop v)"
    using set_loop_inv [of cfg v idle_loop l] ok c [OF Inl] by (simp add: memory_inv_def)
  from g m Inl have h: "(if is_redis_unreachable e then unreachable_pause cfg l
      else if l = Reclaimer \<and> is_exception e then modify (set_loop l idle_loop) else raise e) v = (r, w')"
    by (simp add: guard_loop_def try_Inl)
  show ?thesis
  proof (cases "is_redis_unreachable e")
    case True
    with h obtain ms where "sleep_ms ms (set_loop l idle_loop v) = (r, w')"
      by (auto simp: unreachable_pause_def)
    from alwaysD [OF sleep_same this] idle show ?thesis by (simp add: memory_inv_same)
  next
    case False
    with h idle ok show ?thesis by (auto split: if_splits)
  qed
qed

lemma loop_read_inv:
  fixes w :: "'z agg_system_scheme"
  assumes ok: "memory_inv cfg w" and i: "the_loop l w = idle_loop" and r: "loop_read cfg l w = (r, w')"
  shows "memory_inv cfg w'"
proof -
  define rd :: "('z agg_system_scheme, exn, stream_message list) io" where "rd = (case l of
              Consumer \<Rightarrow> read_from ENTITY_EVENT_COMPLETED AGGREGATION_GROUP
                            (agg_consumer_name (cfg_aggregation cfg))
                            (Some (agg_batch_size (cfg_aggregation cfg)))
            | Reclaimer \<Rightarrow> autoclaim ENTITY_EVENT_COMPLETED AGGREGATION_GROUP
                            (agg_consumer_name (cfg_aggregation cfg))
                            (redis_stream_claim_timeout_ms (cfg_redis cfg))
                            (agg_batch_size (cfg_aggregation cfg)))"
  have g: "guard_loop cfg l (bind rd (\<lambda>ms. modify (set_loop l \<lparr> l_batch = ms, l_call = None \<rparr>))) w = (r, w')"
    using r by (simp add: loop_read_def rd_def)
  obtain q v where q: "rd w = (q, v)" by fastforce
  have "always same_more rd"
    by (auto simp: rd_def intro!: more_rs.always_rs split: loop_name.splits)
  then have s: "same_more w v" using q by (rule alwaysD)
  have v: "memory_inv cfg v" "l_call (the_loop l v) = None"
    using ok i memory_inv_same [OF s] same_loops_waiting [of w v l] same_more_mem [OF s]
    by (simp_all add: same_loops_def)
  show ?thesis
  proof (cases q)
    case (Inl e)
    with q have "bind rd (\<lambda>ms. modify (set_loop l \<lparr> l_batch = ms, l_call = None \<rparr>)) w = (Inl e, v)"
      by (simp add: run_Inl)
    from guard_loop_inv [OF g this v(1) v(2)] show ?thesis .
  next
    case (Inr ms)
    with q have "bind rd (\<lambda>ms. modify (set_loop l \<lparr> l_batch = ms, l_call = None \<rparr>)) w
        = (Inr (), set_loop l \<lparr> l_batch = ms, l_call = None \<rparr> v)"
      by (simp add: run_Inr)
    from guard_loop_inv [OF g this] set_loop_inv [OF _ v(2), of cfg "\<lparr> l_batch = ms, l_call = None \<rparr>"] v(1)
    show ?thesis by (simp add: memory_inv_def)
  qed
qed

lemma loop_route_inv:
  assumes ok: "memory_inv cfg w" and i: "l_call (the_loop l w) = None" and r: "loop_route cfg dumps l w = (r, w')"
  shows "memory_inv cfg w'"
proof (cases "l_batch (the_loop l w)")
  case Nil
  with r ok show ?thesis by (simp add: loop_route_def)
next
  case (Cons m ms)
  let ?b = "bind (route cfg dumps m) (\<lambda>call. modify (set_loop l \<lparr> l_batch = ms, l_call = call \<rparr>))"
  have g: "guard_loop cfg l ?b w = (r, w')" using r Cons by (simp add: loop_route_def)
  obtain q v where q: "route cfg dumps m w = (q, v)" by fastforce
  have m: "mem_ok cfg (waiting w + call_ids q) v" using route_ok [OF _ q] ok by (simp add: memory_inv_def)
  have s: "same_loops w v" using alwaysD [OF loops_route q] .
  note sw = same_loops_waiting [OF s, of l]
  show ?thesis
  proof (cases q)
    case (Inl e)
    with q have "?b w = (Inl e, v)" by (simp add: run_Inl)
    with guard_loop_inv [OF g this] m sw Inl i show ?thesis by (simp add: memory_inv_def)
  next
    case (Inr call)
    with q have b: "?b w = (Inr (), set_loop l \<lparr> l_batch = ms, l_call = call \<rparr> v)" by (simp add: run_Inr)
    have "memory_inv cfg (set_loop l \<lparr> l_batch = ms, l_call = call \<rparr> v)"
      using m sw Inr i by (intro set_loop_inv) simp_all
    from guard_loop_inv [OF g b this] show ?thesis by simp
  qed
qed

lemma loop_resume_inv:
  assumes ok: "memory_inv cfg w" and r: "loop_resume l w = (Inr (), w')"
  shows "memory_inv cfg w'"
proof (cases "l_call (the_loop l w)")
  case None
  with r ok show ?thesis by (simp add: loop_resume_def)
next
  case (Some x)
  from r Some obtain b v where q: "resume_call x w = (Inr b, v)"
    and rest: "when_io b (modify (set_loop l ((the_loop l w)\<lparr> l_call := None \<rparr>))) v = (Inr () :: exn + unit, w')"
    by (auto simp: loop_resume_def bind_eq_Inr)
  define C where "C = waiting (set_loop l ((the_loop l w)\<lparr> l_call := None \<rparr>) w)"
  have "waiting w = add_mset (mw_entity_event_id x) C"
    using waiting_set_loop [of l "(the_loop l w)\<lparr> l_call := None \<rparr>" w] Some by (simp add: C_def)
  with ok have "mem_ok cfg (add_mset (mw_entity_event_id x) C) w" by (simp add: memory_inv_def)
  from resume_ok [OF this q] have cs: "(b \<and> mem_ok cfg C v) \<or> (\<not> b \<and> v = w)" by simp
  have sl: "same_loops w v" using alwaysD [OF loops_mem(4) q] .
  have "waiting (set_loop l s v) = waiting (set_loop l s w)" for s
    using same_more_loops [of v w] sl by (cases l) (simp_all add: same_loops_def waiting_def set_loop_def)
  with cs rest ok show ?thesis by (auto simp: when_io_def memory_inv_def C_def)
qed

lemma mset_set_remove: "mset_set (set xs) = add_mset i M \<Longrightarrow> M = mset_set (set xs - {i})"
  by (metis List.finite_set add_mset_remove_trivial finite_set_mset_mset_set mset_set.remove
      union_single_eq_member)

lemma cancel_call_ok:
  assumes "mem_ok cfg (call_ids (Inr (l_call s)) + C) w" and "cancel_call s w = (r, w')"
  shows "r = Inr () \<and> mem_ok cfg C w' \<and> same_loops w w'"
proof (cases "l_call s")
  case None
  with assms show ?thesis by (simp add: cancel_call_def same_loops_def)
next
  case (Some x)
  with assms have "mset_set (set (m_enqueued w)) = add_mset (mw_entity_event_id x) (queued (m_groups w) + C)"
    by (simp add: mem_ok_def)
  from mset_set_remove [OF this] Some assms show ?thesis
    by (auto simp: cancel_call_def discard_run mem_ok_def same_loops_def)
qed

lemma layer_restart_inv:
  assumes ok: "memory_inv cfg w" and r: "layer_restart cfg w = (r, w')"
  shows "memory_inv cfg w'"
proof -
  obtain q1 w1 where 1: "cancel_call (s_consumer w) w = (q1, w1)" by fastforce
  obtain q2 w2 where 2: "cancel_call (s_reclaimer w) w1 = (q2, w2)" by fastforce
  from cancel_call_ok [OF _ 1, of cfg "call_ids (Inr (l_call (s_reclaimer w)))"] ok
  have 11: "q1 = Inr ()" "mem_ok cfg (call_ids (Inr (l_call (s_reclaimer w))) + {#}) w1"
    by (simp_all add: memory_inv_def waiting_def)
  from cancel_call_ok [OF 11(2) 2] have 22: "q2 = Inr ()" "mem_ok cfg {#} w2" by simp_all
  let ?w3 = "w2\<lparr> s_consumer := idle_loop, s_reclaimer := idle_loop \<rparr>"
  have "memory_inv cfg ?w3" using 22(2) by (simp add: memory_inv_def waiting_def mem_ok_def)
  moreover have "flush_logged cfg ?w3 = (r, w')"
    using r 1 2 11(1) 22(1) by (simp add: layer_restart_def run_Inr)
  ultimately show ?thesis using same_queues_inv [OF alwaysD [OF queues_flush]] by blast
qed

lemma process_restart_inv: "process_restart cfg w = (r, w') \<Longrightarrow> memory_inv cfg w'"
  by (auto simp: process_restart_def memory_inv_def waiting_def mem_ok_def queued_def keyed_queues_def)

lemma agg_step_memory: "agg_step cfg dumps w w' \<Longrightarrow> memory_inv cfg w \<Longrightarrow> memory_inv cfg w'"
proof (induction rule: agg_step.induct)
  case (Work g w b w')
  then show ?case using group_work_ok [OF _ Work.hyps] same_more_loops [of w' w]
    by (simp add: memory_inv_def waiting_def)
next
  case (Timeout g w b w')
  then show ?case using group_timeout_ok [OF _ Timeout.hyps] same_more_loops [of w' w]
    by (simp add: memory_inv_def waiting_def)
next
  case (Flush w w')
  then show ?case using same_queues_inv [OF alwaysD [OF queues_flush Flush.hyps]] by simp
next
  case (Env w w')
  then show ?case using memory_inv_same by (auto simp: env_step_def)
qed (blast intro: loop_read_inv loop_route_inv loop_resume_inv layer_restart_inv process_restart_inv)+

lemma reachable_memory: "reachable cfg dumps w0 w \<Longrightarrow> memory_inv cfg w"
  by (induction rule: reachable.induct) (auto intro: process_restart_inv agg_step_memory)

end
