(* ===== verification/Sapi_Aggregation_Data.thy ===== *)
theory Sapi_Aggregation_Data
  imports Sapi_Aggregation_Steps
begin

text \<open>
  The aggregation layer's steps seen from the tables and the streams: they keep the constraints of
  the tables, only move an Event's merge state and mark forward, mark no Event that is not
  announced on the stream, and lose no entry of a stream. The properties of the layer end the
  theory.
\<close>

section \<open>Data steps\<close>

definition data_step :: "'z world_scheme \<Rightarrow> 'z world_scheme \<Rightarrow> bool" where
  "data_step w w' \<longleftrightarrow> db_step (w_db w) (w_db w') \<and> streams_grow (w_streams w) (w_streams w')
     \<and> (announced_in w \<longrightarrow> announced_in w')"

interpretation data: monotone_io data_step
  by unfold_locales (auto simp: data_step_def step.db_refl intro: step.db_trans streams_grow_trans)

lemma data_stepI:
  "always (db_rel db_step) m \<Longrightarrow> always world_grow m \<Longrightarrow> keeps announced_in m \<Longrightarrow> always data_step m"
  unfolding always_def data_step_def db_rel_def world_grow_def by blast

lemma data_stepI_rs: "always rs_frame m \<Longrightarrow> always world_grow m \<Longrightarrow> always data_step m"
  by (rule data_stepI) (auto intro: step_rs.always_rs_frame keeps_announced_rs)

lemma memory_data_step: "w_db w' = w_db w \<Longrightarrow> w_streams w' = w_streams w \<Longrightarrow> data_step w w'"
  by (simp add: data_step_def step.db_refl announced_in_def)

lemma rs_grow: "always world_grow (rs_call (xreadgroup n g c k))" "always world_grow (rs_call (xautoclaim n g c mi cnt))"
  "always world_grow (rs_call (\<lambda>_. xpending_each n g ids))" "always world_grow (publish ri n flds)"
  "always world_grow datetime_now"
proof -
  show "always world_grow (publish ri n flds)"
    by (rule alwaysI) (auto simp: world_grow_def dest: publish_cases)
  show "always world_grow datetime_now"
    by (rule alwaysI) (auto simp: world_grow_def datetime_now_def Let_def)
qed (intro rs_call_grow xreadgroup_grow xautoclaim_grow xpending_grow)+

lemma stream_data_steps:
  "always data_step (read_from n g c k)" "always data_step (ack n g i)"
  "always data_step (autoclaim n g c mi cnt)" "always data_step (dead_letter ri du m n g dl)"
proof -
  have "always world_grow (read_from n g c k)" "always world_grow (autoclaim n g c mi cnt)"
      "always world_grow (dead_letter ri du m n g dl)"
    unfolding read_from_def autoclaim_def dead_letter_def Let_def
    by (auto intro!: grow.always_bind grow.always_ret rs_grow ack_grow)
  then show "always data_step (read_from n g c k)" "always data_step (autoclaim n g c mi cnt)"
    "always data_step (dead_letter ri du m n g dl)"
    by (auto intro: data_stepI_rs read_from_frame autoclaim_frame dead_letter_frame)
  show "always data_step (ack n g i)" by (intro data_stepI_rs ack_frame ack_grow)
qed

lemma fetch_data_step: "always data_step (fetch_entity_event i)"
  unfolding fetch_entity_event_def
  by (intro data_stepI step.db_fetch_rel grow_pg.always_pg keeps_announced_db streams_pg.always_pg
      marks.db_fetch_rel)

lemma merge_data_step: "always data_step (merge_prepare cfg e g)"
  by (intro data_stepI step_merge.always_merge_prepare grow_merge.always_merge_prepare
      announced_merge.always_merge_prepare)

lemma state_data_steps: "always data_step scan_all" "always data_step (persist_and_publish cfg es)"
proof -
  show "always data_step scan_all"
    by (intro data_stepI step_rt.always_rt grow_rt.always_rt keeps_announced_rt scan_all_frame)
  show "always data_step (persist_and_publish cfg es)"
    by (intro data_stepI persist_and_publish_step persist_and_publish_frames
        keeps_announced_persist_and_publish)
qed

lemma memory_data_steps:
  "always data_step (discard i)" "always data_step (add_enqueued i)" "always data_step (submit x)"
  "always data_step (resume_call x)" "always data_step (sleep_ms ms)"
  "always data_step (modify (set_loop l s))" "always data_step (cancel_call s')"
  unfolding discard_def add_enqueued_def submit_def resume_call_def take_permit_def start_group_def
    group_enqueue_def Let_def sleep_ms_def cancel_call_def
  by (auto intro!: data.always_bind data.always_get_w data.always_ret always_modify
      memory_data_step simp: set_loop_def split: option.splits loop_name.splits)

lemma route_data_step: "always data_step (route cfg dumps m)"
  unfolding route_def route_one_def process_entity_event_def push_dead_letter_def on_success_def
  by (auto intro!: data.always_intros memory_data_steps stream_data_steps fetch_data_step
      split: option.splits)

lemma run_work_data_step: "always data_step (run_work cfg x)"
  unfolding run_work_def merge_def merge_body_prepare on_success_def
  by (auto intro!: data.always_intros memory_data_steps stream_data_steps merge_data_step)

lemma flush_data_step: "always data_step (flush_logged cfg)"
  unfolding flush_logged_def flush_def
  by (auto intro!: data.always_intros state_data_steps always_modify memory_data_step)

lemma guard_data_step: "always data_step m \<Longrightarrow> always data_step (guard_loop cfg l m)"
  unfolding guard_loop_def unreachable_pause_def
  by (auto intro!: data.always_try data.always_bind data.always_raise memory_data_steps)

lemma loop_data_steps:
  "always data_step (loop_read cfg l)" "always data_step (loop_route cfg dumps l)"
  "always data_step (loop_resume l)" "always data_step (layer_restart cfg)"
  "always data_step (process_restart cfg)"
  unfolding loop_read_def loop_route_def loop_resume_def layer_restart_def process_restart_def
  by (auto intro!: guard_data_step data.always_intros stream_data_steps route_data_step
      memory_data_steps flush_data_step always_modify memory_data_step
      split: loop_name.splits list.splits option.splits)

lemma group_data_steps:
  "group_work (run_work cfg) g w = (r, w') \<Longrightarrow> data_step w w'"
  "group_timeout g w = (r', w') \<Longrightarrow> data_step w w'"
proof -
  assume g: "group_work (run_work cfg) g w = (r, w')"
  show "data_step w w'"
  proof (cases "group_queue w g")
    case (Some q)
    show ?thesis
    proof (cases q)
      case (Cons x q')
      let ?w = "w\<lparr> m_groups := al_put g q' (m_groups w) \<rparr>"
      let ?m = "bind (try_except (run_work cfg x) (\<lambda>e. if is_exception e then ret () else raise e)) (\<lambda>_. ret True)"
      have "always data_step ?m"
        by (auto intro!: data.always_intros run_work_data_step)
      moreover have "?m ?w = (r, w')" using g Some Cons by (simp add: group_work_def)
      ultimately have "data_step ?w w'" by (rule alwaysD)
      moreover have "data_step w ?w" by (simp add: memory_data_step)
      ultimately show ?thesis by (blast intro: data.R_trans)
    qed (use g Some in \<open>simp add: group_work_def data.R_refl\<close>)
  qed (use g in \<open>simp add: group_work_def data.R_refl\<close>)
next
  assume "group_timeout g w = (r', w')"
  then show "data_step w w'"
    by (auto simp: group_timeout_def on_idle_def intro!: memory_data_step split: option.splits if_splits)
qed

lemma agg_step_data:
  fixes w :: "'z agg_system_scheme"
  shows "agg_step cfg dumps w w' \<Longrightarrow> data_step w w'"
proof (induction rule: agg_step.induct)
  case (Env w w')
  then show ?case
    by (auto simp: env_step_def data_step_def db_rel_def world_grow_def announced_in_def
        intro: announced_marks announced_grow)
next
  case (Read l w w')
  then show ?case by (intro alwaysD [OF loop_data_steps(1)])
next
  case (Route l w w')
  then show ?case by (intro alwaysD [OF loop_data_steps(2)])
next
  case (Resume l w w')
  then show ?case by (intro alwaysD [OF loop_data_steps(3)])
next
  case (Read_crash l w e w1 w')
  from alwaysD [OF loop_data_steps(1) Read_crash(2)] alwaysD [OF loop_data_steps(4) Read_crash(3)]
  show ?case by (rule data.R_trans)
next
  case (Route_crash l w e w1 w')
  from alwaysD [OF loop_data_steps(2) Route_crash(2)] alwaysD [OF loop_data_steps(4) Route_crash(3)]
  show ?case by (rule data.R_trans)
next
  case (Flush w w')
  then show ?case by (intro alwaysD [OF flush_data_step])
next
  case (Work g w b w')
  then show ?case by (rule group_data_steps(1))
next
  case (Timeout g w b w')
  then show ?case by (rule group_data_steps(2))
next
  case (Layer_restart w w')
  then show ?case by (intro alwaysD [OF loop_data_steps(4)])
next
  case (Process_restart w w')
  then show ?case by (intro alwaysD [OF loop_data_steps(5)])
qed

lemma reachable_data:
  "reachable cfg dumps w0 w \<Longrightarrow> data_step w0 w"
proof (induction rule: reachable.induct)
  case (start w)
  then show ?case by (intro alwaysD [OF loop_data_steps(5)])
next
  case (step w w')
  from step.IH agg_step_data [OF step.hyps(2)] show ?case by (rule data.R_trans)
qed

end
