(* ===== verification/Sapi_Sample.thy ===== *)
theory Sapi_Sample
  imports Sapi_Merge
begin

text \<open>
  A small concrete system: the default settings, one EntityEvent, stored and announced to the
  aggregation layer. The theorems about the service are applied to it where they have hypotheses.
\<close>

definition sample_config :: app_config where
  "sample_config = \<lparr>
     cfg_db = \<lparr> db_url = u ''postgres://db'', db_pool_size = 10, db_close_timeout_s = 10,
       db_max_retry = 3, db_retry_base_wait_ms = 100 \<rparr>,
     cfg_http = \<lparr> http_timeout_s = 120 \<rparr>,
     cfg_health = \<lparr> health_check_timeout_s = 2, health_layer_restart_delay_s = 1 \<rparr>,
     cfg_redis = \<lparr> redis_stream_url = u ''redis://stream'', redis_state_url = u ''redis://state'',
       redis_reconnect_interval_s = 5, redis_stream_claim_timeout_ms = 300000 \<rparr>,
     cfg_llm = \<lparr> llm_vertex_project = u ''project'', llm_vertex_location = u ''global'',
       llm_api_timeout_s = 30, llm_rate_limit_backoff_s = 60 \<rparr>,
     cfg_entity_analysis = \<lparr> ea_batch_size = 10, ea_batch_timeout_ms = 5000, ea_max_concurrent = 3,
       ea_max_retry = 3, ea_max_input_chars = 30000, ea_sadi_api_url = u ''http://localhost:8000'',
       ea_consumer_name = u ''sapi-entity-analysis-1'' \<rparr>,
     cfg_aggregation = \<lparr> agg_batch_size = 10, agg_batch_timeout_ms = 5000, agg_max_concurrent = 100,
       agg_group_idle_timeout_s = 10, agg_db_flush_interval_s = 300, agg_max_retry = 3,
       agg_sliding_window_hours = 4, agg_event_max_timespan_hours = 24,
       agg_consumer_name = u ''sapi-aggregation-1'' \<rparr>,
     cfg_scoring = \<lparr> sc_batch_size = 10, sc_batch_timeout_ms = 5000, sc_consumer_name = u ''sapi-scoring-1'',
       sc_total_active_sources_default = 4, sc_event_type_score =
         [\<lparr> ets_event_type = EARNINGS, ets_score = 9 \<rparr>, \<lparr> ets_event_type = BUYBACK, ets_score = 7 \<rparr>,
          \<lparr> ets_event_type = MA, ets_score = 17/2 \<rparr>, \<lparr> ets_event_type = REGULATORY, ets_score = 8 \<rparr>,
          \<lparr> ets_event_type = MANAGEMENT_CHANGE, ets_score = 7 \<rparr>, \<lparr> ets_event_type = ANALYST_RATING, ets_score = 5 \<rparr>,
          \<lparr> ets_event_type = DIVIDEND, ets_score = 6 \<rparr>, \<lparr> ets_event_type = GENERAL_ANNOUNCEMENT, ets_score = 4 \<rparr>] \<rparr> \<rparr>"

definition sample_row :: entity_event_row where
  "sample_row = \<lparr> er_entity_event_id = 5, er_exchange = u ''HKEX'', er_source_url = u ''http://a/1'',
     er_source_name = u ''mingpao'', er_published_at = Some 1700000000000000, er_stock_code = u ''00700'',
     er_event_type_primary = BUYBACK, er_sentiment_label = POSITIVE, er_sentiment_score = 1/2,
     er_headline = u ''h'', er_entity_summary = u ''s'',
     er_additional_outcome = \<lparr> jo_version = u ''1'', jo_company_name_zh = u ''T'', jo_company_name_en = u ''T'',
       jo_event_type_secondary = None, jo_headline = u ''h'', jo_entity_summary = u ''s'' \<rparr>,
     er_cleaned_id = 9, er_created_at = 1700000100000000, er_updated_at = 1700000100000000 \<rparr>"

definition sample_entity_event :: entity_event where
  "sample_entity_event = row_to_entity_event sample_row"

definition sample_db :: db where
  "sample_db = \<lparr> t_entity_events = [sample_row], t_events = [], t_event_entity_map = [], t_event_scores = [] \<rparr>"

text \<open>The message 1 announces the EntityEvent and is delivered, not acknowledged.\<close>

definition sample_streams :: streams where
  "sample_streams = [(ENTITY_EVENT_COMPLETED,
     \<lparr> sm_entries = [(1, [(u ''entity_event_id'', uuid_str 5), (u ''v'', u ''1'')])], sm_next_id = 2,
       sm_groups = [(AGGREGATION_GROUP, \<lparr> cg_last_delivered = 1,
         cg_pending = [(1, \<lparr> pe_consumer = u ''sapi-aggregation-1'', pe_times_delivered = 1,
           pe_delivered_at = 1700000200000000 \<rparr>)] \<rparr>)] \<rparr>)]"

definition sample_world :: world where
  "sample_world = \<lparr> w_now = 1700000300000000, w_ticks = [], w_next_uuid = 100, w_db = sample_db, w_pg = [],
     w_streams = sample_streams, w_rs = [], w_state = [], w_rt = [], w_scan = (\<lambda>ks. ks) \<rparr>"

definition sample_memory :: agg_world where
  "sample_memory = world.extend sample_world
     \<lparr> m_groups = [], m_permits = 100, m_last_flushed = [], m_enqueued = [5] \<rparr>"

definition sample_system :: agg_system where
  "sample_system = agg_world.extend sample_memory \<lparr> s_consumer = idle_loop, s_reclaimer = idle_loop \<rparr>"

definition sample_work :: merge_work where
  "sample_work = \<lparr> mw_entity_event = sample_entity_event, mw_group_key = group_key_of sample_entity_event,
     mw_entity_event_id = 5, mw_message_id = 1 \<rparr>"

lemmas sample_defs = sample_system_def sample_memory_def sample_world_def sample_streams_def sample_db_def
  sample_entity_event_def sample_row_def sample_work_def

section \<open>One merge\<close>

text \<open>The sample EntityEvent is merged into a new Event, which becomes its group's active one, and its
  message is acknowledged.\<close>

definition sample_event :: event where
  "sample_event = created_event sample_entity_event 1700000000000000 5 1700000300000000 100"

definition sample_merged :: agg_world where
  "sample_merged = sample_memory\<lparr> w_next_uuid := 101,
     w_state := store_event (group_of_event sample_event) sample_event
       (ttl_for (cfg_aggregation sample_config) sample_event) 1700000300000000 [] \<rparr>"

lemmas sample_run_defs = sample_defs world.extend_def ret_def bind_def modify_def row_to_entity_event_def some_or_assert_def

lemma sample_get_active: "get_active_event x c et sample_memory = (Inr None, sample_memory)"
  by (simp add: get_active_event_def hgetall_def rt_call_def live_hash_def sample_run_defs)

lemma sample_is_merged: "is_merged sample_entity_event None sample_memory = (Inr False, sample_memory)"
  by (simp add: is_merged_def fetch_mapped_event_id_def db_fetch_def translated_errors_def
      try_except_def pg_call_def sample_run_defs)

lemma sample_create:
  "merge_or_create acfg None sample_entity_event sample_memory
     = (Inr sample_event, sample_memory\<lparr> w_next_uuid := 101 \<rparr>)"
  by (simp add: merge_or_create_def is_persistent_event_def get_published_at_def datetime_now_def
      uuid4_def sample_event_def created_event_def Let_def sample_run_defs)

lemma sample_upsert:
  "upsert_active_event sample_event (ttl_for (cfg_aggregation sample_config) sample_event)
     (sample_memory\<lparr> w_next_uuid := 101 \<rparr>) = (Inr (), sample_merged)"
  by (simp add: upsert_active_event_def multi_exec_def rt_call_def store_event_def group_of_event_def
      sample_event_def sample_merged_def created_event_def sample_run_defs)

lemma sample_prepare:
  "merge_prepare sample_config sample_entity_event (group_key_of sample_entity_event) sample_memory
     = (Inr (Merged None sample_event), sample_merged)"
  by (simp add: merge_prepare_def bind_def sample_get_active sample_is_merged sample_create sample_upsert ret_def)

definition sample_done :: agg_world where
  "sample_done = sample_merged\<lparr> m_enqueued := [], w_streams :=
     al_put ENTITY_EVENT_COMPLETED \<lparr> sm_entries = [(1, [(u ''entity_event_id'', uuid_str 5), (u ''v'', u ''1'')])],
       sm_next_id = 2, sm_groups = [(AGGREGATION_GROUP, \<lparr> cg_last_delivered = 1, cg_pending = [] \<rparr>)] \<rparr> [] \<rparr>"

lemma sample_success: "on_success 5 1 sample_merged = (Inr (), sample_done)"
  by (simp add: on_success_def discard_def ack_def rs_call_def xack_def the_group_def the_stream_def
      put_group_def al_pop_def sample_done_def sample_merged_def sample_run_defs)

lemma sample_run: "run_work sample_config sample_work sample_memory = (Inr (), sample_done)"
proof -
  have "mw_entity_event sample_work = sample_entity_event"
    "mw_group_key sample_work = group_key_of sample_entity_event"
    "mw_entity_event_id sample_work = 5" "mw_message_id sample_work = 1"
    by (simp_all add: sample_work_def)
  then show ?thesis
    by (simp add: run_work_def merge_def merge_body_prepare try_except_def bind_def sample_prepare
        sample_success [simplified])
qed

lemma sample_pending:
  "1 \<in> pending_ids (w_streams sample_memory) ENTITY_EVENT_COMPLETED AGGREGATION_GROUP"
  "1 \<notin> pending_ids (w_streams sample_done) ENTITY_EVENT_COMPLETED AGGREGATION_GROUP"
  by (simp_all add: pending_ids_def the_group_def the_stream_def sample_done_def sample_defs world.extend_def)

lemma sample_ok: "db_ok (w_db sample_memory)" "announced_in sample_memory"
  by (simp_all add: db_ok_def keyed_def announced_in_def announced_def sample_defs world.extend_def)

end
