(* ===== verification/Sapi_Sample_Run.thy ===== *)
theory Sapi_Sample_Run
  imports Sapi_Sample
begin

text \<open>
  Runs without faults: what a call, a statement, a transaction and an announcement do while their
  fault scripts are empty, and with them the flush of the sample system, computed to its end.
\<close>

section \<open>Calls without faults\<close>

lemma calm_pg: "w_pg w = [] \<Longrightarrow> stmt (w_db w) = (Inr x, d) \<Longrightarrow> pg_call stmt w = (Inr x, w\<lparr> w_db := d \<rparr>)"
  by (cases w) (simp add: pg_call_def)

lemma calm_write: "w_pg w = [] \<Longrightarrow> stmt (w_db w) = (Inr x, d) \<Longrightarrow> db_write_with_retry cfg (pg_call stmt) w = (Inr x, w\<lparr> w_db := d \<rparr>)"
  unfolding db_write_with_retry_def translated_Inr
  by (subst write_attempts.simps) (simp add: try_except_def calm_pg)

lemma calm_tx: "w_pg w = [] \<Longrightarrow> stmt (w_db w) = (Inr x, d) \<Longrightarrow> tx_execute_returning stmt w = (Inr x, w\<lparr> w_db := d \<rparr>)"
  unfolding tx_execute_returning_def translated_Inr by (rule calm_pg)

lemma calm_tx': "w_pg w = [] \<Longrightarrow> stmt (w_db w) = (Inr x, d) \<Longrightarrow> tx_execute stmt w = (Inr (), w\<lparr> w_db := d \<rparr>)"
  unfolding tx_execute_def bind_eq_Inr translated_Inr using calm_pg by fastforce

lemma calm_fetch: "w_pg w = [] \<Longrightarrow> db_fetch q w = (Inr (q (w_db w)), w)"
  unfolding db_fetch_def translated_Inr by (subst calm_pg) auto

lemma calm_transaction:
  assumes "w_pg w = []" "body w = (Inr x, w')" "w_pg w' = []"
  shows "db_transaction cfg body w = (Inr x, w')"
proof -
  have b: "db_begin cfg w = (Inr (), w)" unfolding db_begin_def by (subst calm_write) (use assms in auto)
  have "translated_errors (pg_commit (w_db w)) w' = (Inr (), w')"
    unfolding translated_Inr using assms(3) by (cases w') (simp add: pg_commit_def)
  with b assms(2) show ?thesis by (simp add: db_transaction_def bind_def try_except_def get_w_def ret_def)
qed

lemma calm_publish: "w_rs w = [] \<Longrightarrow> \<exists>i ss. publish k n flds w = (Inr i, w\<lparr> w_streams := ss \<rparr>)"
  by (subst publish.simps, cases w) (simp add: rs_call_def xadd_def Let_def)

lemma calm_mark: "w_pg w = [] \<Longrightarrow> mark_published cfg i t w = (Inr (), w\<lparr> w_db := map_events i (mark_row_published t) (w_db w) \<rparr>)"
  unfolding mark_published_def db_execute_def by (simp add: bind_def calm_write ret_def)

lemma calm_announce: "w_pg w = [] \<Longrightarrow> w_rs w = [] \<Longrightarrow> ev_aggregation_updated_at e = Some t \<Longrightarrow>
  \<exists>w'. announce cfg e w = (Inr (), w') \<and> w_pg w' = [] \<and> w_rs w' = []"
  using calm_publish [of w "redis_reconnect_interval_s (cfg_redis cfg)" EVENT_AGGREGATED "event_message (ev_event_id e)"]
  by (auto simp: announce_def some_or_assert_def bind_def calm_mark ret_def)

section \<open>Flushing the sample system\<close>

lemma sample_proposed: "proposed_event_row t sample_event t [5] sample_db = Some 
  \<lparr> vr_event_id = 100, vr_exchange = u ''HKEX'', vr_stock_code = u ''00700'', vr_event_type_primary = BUYBACK,
  vr_event_type_secondary = [],
  vr_source_list = [\<lparr> src_source_name = u ''mingpao'', src_url = u ''http://a/1'', src_published_at = 1700000000000000 \<rparr>],
            vr_first_seen_at = 1700000000000000,
            vr_last_seen_at = 1700000000000000,
            vr_aggregation_updated_at = t,
            vr_published_aggregation_updated_at = None,
            vr_updated_at = t,
            vr_created_at = t \<rparr>"
  by (simp add: proposed_event_row_def sample_event_def created_event_def coalesce_def computed_source_list_def constituents_def
   sample_db_def sample_row_def source_of_reports_def Let_def reported_at_def sample_entity_event_def row_to_entity_event_def
   computed_secondary_def secondary_reports_def)


lemma calm_announces: "w_pg w = [] \<Longrightarrow> w_rs w = [] \<Longrightarrow> \<forall>e \<in> set es. ev_aggregation_updated_at e \<noteq> None \<Longrightarrow>
  \<exists>w'. for_each es (announce cfg) w = (Inr (), w')"
proof (induction es arbitrary: w)
  case (Cons e es)
  then obtain t where "ev_aggregation_updated_at e = Some t" by auto
  with calm_announce [of w e t cfg] Cons.prems obtain w1 where
    "announce cfg e w = (Inr (), w1)" "w_pg w1 = []" "w_rs w1 = []" by blast
  with Cons.IH [of w1] Cons.prems(3) show ?case by (auto simp: bind_def)
qed (simp add: ret_def)

lemma sample_ttl: "600 \<le> ttl_for (cfg_aggregation sample_config) sample_event"
proof -
  have "window_config_ok (cfg_aggregation sample_config)" by (simp add: window_config_ok_def sample_config_def)
  from ttl_bounds(1) [OF this, of sample_event] created_event_wf [OF this] show ?thesis
    by (simp add: sample_event_def) (simp add: sample_config_def)
qed

lemma sample_storable: "storable sample_event"
  by (simp add: storable_def sample_event_def created_event_def valid_uuid_def valid_instant_def
      days_before_year_def us_defs sample_entity_event_def row_to_entity_event_def)

lemma sample_event_values: "ev_event_id sample_event = 100" "ev_aggregation_updated_at sample_event = Some 1700000300000000"
  "ev_entity_event_ids sample_event = Some [5]" "group_of_event sample_event = (u ''HKEX'', u ''00700'', BUYBACK)"
  by (simp_all add: sample_event_def created_event_def group_of_event_def sample_entity_event_def row_to_entity_event_def sample_row_def)

lemma sample_merged_values: "w_now sample_merged = 1700000300000000" "w_db sample_merged = sample_db" "w_pg sample_merged = []"
  "w_rs sample_merged = []" "w_rt sample_merged = []" "w_scan sample_merged = (\<lambda>ks. ks)" "w_ticks sample_merged = []"
  "m_last_flushed sample_merged = []"
  by (simp_all add: sample_merged_def sample_defs world.extend_def)

lemma sample_active: "lookup_event (u ''HKEX'', u ''00700'', BUYBACK) 1700000300000000 (w_state sample_merged) = Some sample_event"
proof -
  have "lookup_event (group_of_event sample_event) 1700000300000000 (w_state sample_merged) = Some sample_event"
    unfolding sample_merged_def using sample_ttl
    by (simp add: active_events.lookup_store sample_storable us_per_second_def)
  then show ?thesis by (simp only: sample_event_values)
qed

lemma sample_persist: "\<exists>rows d. persist_events cfg [sample_event] sample_merged = (Inr rows, sample_merged\<lparr> w_db := d \<rparr>)"
proof -
  have t: "datetime_now sample_merged = (Inr 1700000300000000, sample_merged)"
    by (cases sample_merged) (use sample_merged_values in \<open>simp add: datetime_now_def\<close>)
  obtain x where x: "proposed_event_row 1700000300000000 sample_event 1700000300000000 [5] sample_db = Some x"
    "vr_exchange x = u ''HKEX''" "vr_stock_code x = u ''00700''" "vr_event_id x = 100" by (simp add: sample_proposed)
  define d1 where "d1 = sample_db\<lparr> t_events := [x] \<rparr>"
  have sd: "t_events sample_db = []" "find_event 100 sample_db = None" by (simp_all add: sample_db_def find_event_def)
  define m where "m = \<lparr> eem_event_id = 100, eem_entity_event_id = 5, eem_created_at = 1700000300000000 \<rparr>"
  have u: "upsert_event_stmt 1700000300000000 sample_event 1700000300000000 [5] sample_db = (Inr (Some x), d1)"
    using sd by (simp add: upsert_event_stmt_def x sample_event_values d1_def)
  have i: "insert_event_entity_map m d1 = (Inr (), d1\<lparr> t_event_entity_map := [m] \<rparr>)"
    by (simp add: insert_event_entity_map_def m_def d1_def sample_db_def find_event_def x sample_row_def)
  have p: "persist_one 1700000300000000 1700000300000000 [] sample_event sample_merged
      = (Inr [row_to_event x], sample_merged\<lparr> w_db := d1\<lparr> t_event_entity_map := [m] \<rparr> \<rparr>)"
    unfolding persist_one_def sample_event_values some_or_assert_def option.case
    by (simp add: bind_def ret_def calm_tx sample_merged_values u calm_tx' m_def [symmetric] i)
  have "db_transaction cfg (fold_io (persist_one 1700000300000000 1700000300000000) [] [sample_event]) sample_merged
      = (Inr [row_to_event x], sample_merged\<lparr> w_db := d1\<lparr> t_event_entity_map := [m] \<rparr> \<rparr>)"
    by (rule calm_transaction) (simp_all add: sample_merged_values bind_def p ret_def)
  then show ?thesis by (simp add: persist_events_def bind_def t get_w_def sample_merged_values) blast
qed

lemma sample_publishes: "\<exists>out w'. persist_and_publish cfg [sample_event] sample_merged = (Inr out, w')"
proof -
  obtain rows d where p: "persist_events (cfg_db cfg) [sample_event] sample_merged = (Inr rows, sample_merged\<lparr> w_db := d \<rparr>)"
    using sample_persist by blast
  define pend where "pend = map row_to_event (filter (\<lambda>r. vr_event_id r \<in> set (map ev_event_id [sample_event]) \<and> unpublished r) (t_events d))"
  have "fetch_unpublished_events (map ev_event_id [sample_event]) (sample_merged\<lparr> w_db := d \<rparr>) = (Inr pend, sample_merged\<lparr> w_db := d \<rparr>)"
    unfolding fetch_unpublished_events_def by (subst calm_fetch) (simp_all add: sample_merged_values pend_def)
  moreover obtain w' where "for_each pend (announce cfg) (sample_merged\<lparr> w_db := d \<rparr>) = (Inr (), w')"
    using calm_announces [of "sample_merged\<lparr> w_db := d \<rparr>" pend cfg]
    by (auto simp: sample_merged_values pend_def row_to_event_def)
  ultimately show ?thesis by (simp add: persist_and_publish_def bind_def p ret_def)
qed

lemma calm_rt: "w_rt w = [] \<Longrightarrow> rt_call act w = (fst (act (w_now w) (w_state w)), w\<lparr> w_state := snd (act (w_now w) (w_state w)) \<rparr>)"
  by (cases w) (simp add: rt_call_def split: prod.splits)

lemma calm_hgetall: "w_rt w = [] \<Longrightarrow> hgetall key w =
  (Inr (case live_hash (w_now w) (w_state w) key of None \<Rightarrow> None | Some fs \<Rightarrow> if fs = [] then None else Some fs), w)"
  by (simp add: hgetall_def bind_def calm_rt ret_def)

lemma sample_scan: "scan_all sample_merged = (Inr [sample_event], sample_merged)"
proof -
  let ?k = "get_key (u ''HKEX'') (u ''00700'') BUYBACK"
  have keys: "map fst (w_state sample_merged) = [?k]"
    using sample_ttl by (simp add: sample_merged_def store_event_def sample_event_values hset_expire_def Let_def)
  obtain fs where l: "live_hash 1700000300000000 (w_state sample_merged) ?k = Some fs" and d: "decode_event (u ''HKEX'') (u ''00700'') BUYBACK fs = Inr sample_event"
    using sample_active by (auto simp: lookup_event_def split: option.splits sum.splits)
  have ne: "fs \<noteq> []" using d by (auto simp: decode_event_def field_def)
  have "decode_key ?k = Inr (u ''HKEX'', u ''00700'', BUYBACK)" by (rule decode_get_key) (simp_all add: key_part_def u_def)
  then have "scan_step [] ?k sample_merged = (Inr [sample_event], sample_merged)"
    by (simp add: scan_step_def bind_def calm_hgetall sample_merged_values l ne d of_sum_def ret_def)
  moreover have "scan_prefix (u ''agg:event:'') sample_merged = (Inr [?k], sample_merged)"
    using l keys by (simp add: scan_prefix_def bind_def get_w_def calm_rt sample_merged_values ret_def py_startswith_def get_key_def u_def)
  moreover have "scan_all sample_merged = bind (scan_prefix (u ''agg:event:'')) (fold_io scan_step []) sample_merged"
    unfolding scan_all_def scan_step_def [abs_def] ..
  ultimately show ?thesis by (simp add: bind_def ret_def)
qed

lemma sample_flush: "fst (flush sample_config sample_merged) = Inr ()"
proof -
  obtain out w' where p: "persist_and_publish sample_config [sample_event] sample_merged = (Inr out, w')"
    using sample_publishes by blast
  have "last_flushed sample_merged i = None" for i by (simp add: last_flushed_def sample_merged_values)
  then show ?thesis
    by (simp add: flush_def bind_def sample_scan get_w_def sample_event_values when_io_def p ret_def modify_def)
qed

end
