(* ===== verification/Sapi_Aggregation_Props.thy ===== *)
theory Sapi_Aggregation_Props
  imports Sapi_Aggregation_Data Sapi_Sample_Run
begin

text \<open>
  The properties of the aggregation layer, each with a witness on the sample system where it has
  hypotheses.
\<close>

section \<open>Merging one EntityEvent\<close>



lemma discard_keeps_pending: "discard i w = (r, w') \<Longrightarrow> w_streams w' = w_streams w"
  by (simp add: discard_run)





section \<open>Every reachable state\<close>

text \<open>C5: In every reachable state of the layer - whatever was read, reclaimed, routed, resumed, run,
  timed out, flushed, restarted or done by others in between - the permits and the live groups add
  up to the configured maximum, every group has one queue of its own work, and the in-flight set
  holds exactly the EntityEvents that are queued or wait for a permit, each of them once.\<close>

theorem reachable_in_flight_exact:
  assumes "reachable cfg dumps w0 w"
  shows "distinct (map fst (m_groups w))
    \<and> m_permits w + length (m_groups w) = nat (agg_max_concurrent (cfg_aggregation cfg))
    \<and> (\<forall>(g, q) \<in> set (m_groups w). \<forall>x \<in> set q. mw_group_key x = g)
    \<and> mset (map mw_entity_event_id (concat (map snd (m_groups w)))) + waiting w = mset_set (set (m_enqueued w))"
proof -
  have "mem_ok cfg (waiting w) w" using reachable_memory [OF assms] by (simp add: memory_inv_def)
  then show ?thesis by (auto simp: mem_ok_def queued_def keyed_queues_def)
qed

definition sample_started :: agg_system where
  "sample_started = sample_system\<lparr> m_enqueued := [] \<rparr>"

lemma sample_restart: "process_restart sample_config sample_system = (Inr (), sample_started)"
  by (simp add: process_restart_def modify_def sample_started_def sample_config_def sample_defs
      world.extend_def agg_world.extend_def)

lemma sample_reachable: "reachable sample_config dumps sample_system sample_started"
  by (rule reachable.start [OF sample_restart])

lemma reachable_in_flight_exact_witness:
  "m_permits sample_started + length (m_groups sample_started) = 100"
  using reachable_in_flight_exact [OF sample_reachable [of "\<lambda>_. []"]]
  by (simp add: sample_config_def)

text \<open>C3: In every state reachable from tables in which every marked Event is announced on
  \<^verbatim>\<open>stream:event_aggregated\<close>, every Event that is marked as published is announced there.\<close>

theorem reachable_announced:
  assumes "reachable cfg dumps w0 w"
    and "\<forall>r \<in> set (t_events (w_db w0)). vr_published_aggregation_updated_at r \<noteq> None \<longrightarrow>
      on_stream (vr_event_id r) (w_streams w0)"
  shows "\<forall>r \<in> set (t_events (w_db w)). vr_published_aggregation_updated_at r \<noteq> None \<longrightarrow>
      on_stream (vr_event_id r) (w_streams w)"
  using reachable_data [OF assms(1)] assms(2) by (simp add: data_step_def announced_in_def announced_def)

definition sample_marked :: agg_system where
  "sample_marked = sample_system\<lparr>
     w_db := sample_db\<lparr> t_events := [\<lparr> vr_event_id = 100, vr_exchange = u ''HKEX'', vr_stock_code = u ''00700'',
       vr_event_type_primary = BUYBACK, vr_event_type_secondary = [], vr_source_list = [],
       vr_first_seen_at = 1, vr_last_seen_at = 2, vr_aggregation_updated_at = 3,
       vr_published_aggregation_updated_at = Some 3, vr_updated_at = 4, vr_created_at = 4 \<rparr>] \<rparr>,
     w_streams := [(EVENT_AGGREGATED, \<lparr> sm_entries = [(1, event_message 100)], sm_next_id = 2, sm_groups = [] \<rparr>)] \<rparr>"

lemma reachable_announced_witness: "on_stream 100 (w_streams (snd (process_restart sample_config sample_marked)))"
proof -
  have "reachable sample_config (\<lambda>_. []) sample_marked (snd (process_restart sample_config sample_marked))"
    by (rule reachable.start) (simp add: process_restart_def modify_def)
  moreover have "\<forall>r \<in> set (t_events (w_db sample_marked)). vr_published_aggregation_updated_at r \<noteq> None \<longrightarrow>
      on_stream (vr_event_id r) (w_streams sample_marked)"
    by (simp add: sample_marked_def on_stream_def the_stream_def)
  ultimately show ?thesis
    by (drule_tac reachable_announced) (simp_all add: process_restart_def modify_def sample_marked_def)
qed

text \<open>C7: Whatever the layer does, the tables keep their constraints - an EntityEvent belongs to at
  most one Event, and every membership and score to a stored Event -, no stored Event goes back to
  an older merge state or loses its mark, no membership is lost and no stream entry disappears.\<close>

theorem reachable_tables_grow:
  assumes "reachable cfg dumps w0 w" and "db_ok (w_db w0)"
  shows "distinct (map eem_entity_event_id (t_event_entity_map (w_db w)))
    \<and> (\<forall>m \<in> set (t_event_entity_map (w_db w)). \<exists>r \<in> set (t_events (w_db w)). vr_event_id r = eem_event_id m)
    \<and> set (t_event_entity_map (w_db w0)) \<subseteq> set (t_event_entity_map (w_db w))
    \<and> (\<forall>r \<in> set (t_events (w_db w0)). \<exists>r' \<in> set (t_events (w_db w)).
         vr_event_id r' = vr_event_id r \<and> vr_aggregation_updated_at r \<le> vr_aggregation_updated_at r'
         \<and> opt_le (vr_published_aggregation_updated_at r) (vr_published_aggregation_updated_at r'))
    \<and> (\<forall>name. set (sm_entries (the_stream (w_streams w0) name)) \<subseteq> set (sm_entries (the_stream (w_streams w) name)))"
proof -
  from reachable_data [OF assms(1)] assms(2)
  have ok: "db_ok (w_db w)" and le: "db_le (w_db w0) (w_db w)" and st: "streams_grow (w_streams w0) (w_streams w)"
    by (auto simp: data_step_def db_step_def)
  have "\<exists>r' \<in> set (t_events (w_db w)). row_le r r'" if "r \<in> set (t_events (w_db w0))" for r
    using le that unfolding db_le_def by (meson grown_ex)
  then have "\<forall>r \<in> set (t_events (w_db w0)). \<exists>r' \<in> set (t_events (w_db w)).
         vr_event_id r' = vr_event_id r \<and> vr_aggregation_updated_at r \<le> vr_aggregation_updated_at r'
         \<and> opt_le (vr_published_aggregation_updated_at r) (vr_published_aggregation_updated_at r')"
    unfolding row_le_def by metis
  moreover have "set (t_event_entity_map (w_db w0)) \<subseteq> set (t_event_entity_map (w_db w))"
    using le by (auto simp: db_le_def dest: set_mono_prefix)
  moreover have "\<forall>name. set (sm_entries (the_stream (w_streams w0) name)) \<subseteq> set (sm_entries (the_stream (w_streams w) name))"
    using st by (auto simp: streams_grow_def dest: set_mono_prefix)
  ultimately show ?thesis using ok by (auto simp: db_ok_def keyed_def image_iff) metis
qed

lemma reachable_tables_grow_witness:
  "set (t_event_entity_map (w_db sample_system)) \<subseteq> set (t_event_entity_map (w_db sample_started))"
proof -
  have "db_ok (w_db sample_system)"
    by (simp add: db_ok_def keyed_def sample_defs world.extend_def agg_world.extend_def)
  from reachable_tables_grow [OF sample_reachable [of "\<lambda>_. []"] this] show ?thesis by blast
qed

section \<open>Order within a group\<close>















section \<open>Flushing and routing\<close>



lemma route_one_streams:
  fixes w :: "'z agg_world_scheme"
  assumes "route_one i mid w = (q, v)"
  shows "w_streams v = w_streams w \<or> (\<forall>row \<in> set (t_entity_events (w_db w)). er_entity_event_id row \<noteq> i)"
proof (cases "i \<in> set (m_enqueued w)")
  case True
  with assms show ?thesis by (simp add: route_one_def)
next
  case False
  define w1 where "w1 = w\<lparr> m_enqueued := i # m_enqueued w \<rparr>"
  obtain p w2 where p: "process_entity_event i mid (on_success i mid) w1 = (p, w2)" by fastforce
  have t: "try_except (process_entity_event i mid (on_success i mid)) (\<lambda>exc. seq (discard i)
      (if is_exception exc \<and> \<not> is_redis_unreachable exc then ret None else raise exc)) w1 = (q, v)"
    using assms False by (simp add: route_one_def add_enqueued_def w1_def)
  with p have v: "w_streams v = w_streams w2"
    by (cases p) (auto simp: try_except_def bind_def discard_def modify_def split: if_splits)
  obtain f w3 where f: "fetch_entity_event i w1 = (f, w3)" by fastforce
  have s3: "w_streams w3 = w_streams w" using alwaysD [OF streams_pg.always_repo(1) f]
    by (simp add: same_streams_def w1_def)
  show ?thesis
  proof (cases f)
    case (Inl e)
    with p f have "w2 = w3" by (simp add: process_entity_event_def bind_def)
    with v s3 show ?thesis by simp
  next
    case (Inr opt)
    show ?thesis
    proof (cases opt)
      case None
      with f Inr have "find (\<lambda>r. er_entity_event_id r = i) (t_entity_events (w_db w)) = None"
        using db_fetch_Inr [OF f [unfolded Inr None fetch_entity_event_def]] by (auto simp: w1_def)
      then show ?thesis by (simp add: find_None_iff)
    next
      case (Some e)
      define x where "x = \<lparr> mw_entity_event = e, mw_group_key = group_key_of e, mw_entity_event_id = i, mw_message_id = mid \<rparr>"
      have "submit x w3 = (p, w2)"
        using p f Inr Some by (simp add: process_entity_event_def bind_def x_def)
      then have "w_streams w2 = w_streams w3"
        by (auto simp: submit_def Let_def take_permit_def start_group_def group_enqueue_def
            split: if_splits option.splits)
      with v s3 show ?thesis by simp
    qed
  qed
qed

text \<open>C18: Routing a message acknowledges it only in two cases: its fields are on the dead-letter stream,
  which happens exactly to a message out of retries or without a valid id; or the EntityEvent it
  names is not stored, so that no redelivery could ever merge it.\<close>

theorem routing_acknowledges_only:
  fixes w :: "'z agg_world_scheme"
  assumes r: "route cfg dumps m w = (r, w')"
    and p: "msg_id m \<in> pending_ids (w_streams w) ENTITY_EVENT_COMPLETED AGGREGATION_GROUP"
      "msg_id m \<notin> pending_ids (w_streams w') ENTITY_EVENT_COMPLETED AGGREGATION_GROUP"
  shows "((\<exists>n. msg_delivery_count m = Some n \<and> agg_max_retry (cfg_aggregation cfg) \<le> int n)
            \<or> get_valid_entity_event_id m = None)
         \<and> (\<exists>i flds. (i, flds) \<in> set (sm_entries (the_stream (w_streams w') AGGREGATION_DEAD_LETTER))
              \<and> map_of flds (u ''message_id'') = Some (message_id_str (msg_id m))
              \<and> map_of flds (u ''fields'') = Some (dumps (msg_fields m)))
    \<or> (\<exists>i. get_valid_entity_event_id m = Some i
         \<and> (\<forall>row \<in> set (t_entity_events (w_db w)). er_entity_event_id row \<noteq> i))"
proof -
  define body where "body = (if (case msg_delivery_count m of None \<Rightarrow> False
            | Some n \<Rightarrow> int n \<ge> agg_max_retry (cfg_aggregation cfg))
        then seq (push_dead_letter cfg dumps m) (ret None)
        else case get_valid_entity_event_id m of
               None \<Rightarrow> seq (push_dead_letter cfg dumps m) (ret None)
             | Some i \<Rightarrow> (route_one i (msg_id m) :: ('z, merge_work option) agg))"
  obtain q v where b: "body w = (q, v)" by fastforce
  have "try_except body (\<lambda>exc. if is_exception exc \<and> \<not> is_redis_unreachable exc then ret None else raise exc) w = (r, w')"
    using r by (simp add: route_def body_def)
  with b have w': "w' = v" by (cases q) (auto simp: try_except_def split: if_splits)
  have dl: ?thesis if d: "seq (push_dead_letter cfg dumps m) (ret None) w = (q, v)"
    and why: "(\<exists>n. msg_delivery_count m = Some n \<and> agg_max_retry (cfg_aggregation cfg) \<le> int n)
            \<or> get_valid_entity_event_id m = None"
  proof -
    from seq_ret_cases [OF d] obtain q0 where "push_dead_letter cfg dumps m w = (q0, v)" by blast
    from dead_letter_before_ack [OF this [unfolded push_dead_letter_def]] p w' why show ?thesis
      by (simp add: AGGREGATION_DEAD_LETTER_def ENTITY_EVENT_COMPLETED_def)
  qed
  show ?thesis
  proof (cases "\<exists>n. msg_delivery_count m = Some n \<and> agg_max_retry (cfg_aggregation cfg) \<le> int n")
    case True
    with b show ?thesis by (intro dl) (auto simp: body_def split: if_splits)
  next
    case False
    show ?thesis
    proof (cases "get_valid_entity_event_id m")
      case None
      with False b show ?thesis by (intro dl) (auto simp: body_def split: option.splits if_splits)
    next
      case (Some i)
      with False b have "route_one i (msg_id m) w = (q, v)" by (auto simp: body_def split: option.splits)
      from route_one_streams [OF this] p w' have "\<forall>row \<in> set (t_entity_events (w_db w)). er_entity_event_id row \<noteq> i"
        by auto
      with Some show ?thesis by simp
    qed
  qed
qed

definition sample_malformed :: stream_message where
  "sample_malformed = \<lparr> msg_id = 1, msg_fields = [], msg_delivery_count = None \<rparr>"

definition sample_letter :: fields where
  "sample_letter = [(u ''message_id'', message_id_str 1), (u ''fields'', u ''{}''),
     (u ''delivery_count'', dec_digits 1), (u ''failed_at'', isoformat 1700000300000000),
     (u ''v'', DEAD_LETTER_VERSION)]"

lemma sample_publish:
  "publish 5 AGGREGATION_DEAD_LETTER sample_letter sample_memory
     = (Inr 1, sample_memory\<lparr> w_streams := al_put AGGREGATION_DEAD_LETTER
          \<lparr> sm_entries = [(1, sample_letter)], sm_next_id = 2, sm_groups = [] \<rparr> sample_streams \<rparr>)"
  by (subst publish.simps)
    (simp add: rs_call_def xadd_def the_stream_def empty_stream_def Let_def sample_memory_def sample_world_def
      sample_streams_def world.extend_def AGGREGATION_DEAD_LETTER_def ENTITY_EVENT_COMPLETED_def numeral_2_eq_2)

lemma sample_route:
  "w_streams (snd (route sample_config (\<lambda>_. u ''{}'') sample_malformed sample_memory))
     = snd (xack ENTITY_EVENT_COMPLETED AGGREGATION_GROUP 1 (al_put AGGREGATION_DEAD_LETTER
          \<lparr> sm_entries = [(1, sample_letter)], sm_next_id = 2, sm_groups = [] \<rparr> sample_streams))"
proof -
  have v: "get_valid_entity_event_id sample_malformed = None" "msg_id sample_malformed = 1"
    "msg_delivery_count sample_malformed = None" "msg_fields sample_malformed = []"
    by (simp_all add: get_valid_entity_event_id_def sample_malformed_def)
  have t: "datetime_now sample_memory = (Inr 1700000300000000, sample_memory)" "w_rs sample_memory = []"
    by (simp_all add: datetime_now_def sample_memory_def sample_world_def world.extend_def)
  have c: "redis_reconnect_interval_s (cfg_redis sample_config) = 5" by (simp add: sample_config_def)
  have p: "publish 5 AGGREGATION_DEAD_LETTER [(u ''message_id'', message_id_str (Suc 0)), (u ''fields'', u ''{}''),
     (u ''delivery_count'', dec_digits (Suc 0)), (u ''failed_at'', isoformat 1700000300000000),
     (u ''v'', DEAD_LETTER_VERSION)] sample_memory = publish 5 AGGREGATION_DEAD_LETTER sample_letter sample_memory"
    by (simp add: sample_letter_def)
  show ?thesis
    by (simp add: route_def v push_dead_letter_def dead_letter_def Let_def try_except_def bind_def t c p
        sample_publish ack_def rs_call_def ret_def raise_def split: prod.splits sum.splits)
qed

lemma routing_acknowledges_only_witness:
  "\<exists>i flds. (i, flds) \<in> set (sm_entries (the_stream
      (w_streams (snd (route sample_config (\<lambda>_. u ''{}'') sample_malformed sample_memory))) AGGREGATION_DEAD_LETTER))
    \<and> map_of flds (u ''fields'') = Some (u ''{}'')"
proof -
  have "msg_id sample_malformed = 1" "get_valid_entity_event_id sample_malformed = None"
    by (simp_all add: get_valid_entity_event_id_def sample_malformed_def)
  moreover have "1 \<notin> pending_ids (w_streams (snd (route sample_config (\<lambda>_. u ''{}'') sample_malformed sample_memory)))
      ENTITY_EVENT_COMPLETED AGGREGATION_GROUP"
    by (simp add: sample_route pending_xack)
  ultimately show ?thesis
    using routing_acknowledges_only [OF prod.collapse [symmetric], of sample_malformed sample_memory sample_config "\<lambda>_. u ''{}''"]
      sample_pending(1) by auto
qed

end
