(* ===== verification/Sapi_Storage_Props.thy ===== *)
theory Sapi_Storage_Props
  imports Sapi_Sample_Run
begin

text \<open>
  The properties of the layers below aggregation: the sliding window, the store of active Events,
  the stream client, the database client and the outbox.
\<close>

section \<open>Window\<close>

text \<open>C19: Merging a stored EntityEvent into a group's active Event extends the Event exactly when, in
  whole microseconds, the report lies within the window of the Event's latest report and the span
  stays below the maximum: the floating point hours of the code never change the decision. The
  extended Event keeps the identifier, takes the report in and grows to its time; otherwise a new
  Event starts. Either way the result is well-formed again.\<close>

theorem merge_decides_exactly:
  assumes "window_config_ok cfg" and "is_persistent_event e"
    and "\<forall>a. active = Some a \<longrightarrow> event_wf cfg a"
    and "merge_or_create cfg active e w = (Inr ev, w')"
  shows "\<exists>p i t. get_published_at e = Some p \<and> ee_entity_event_id e = Some i \<and> w_now w \<le> t
    \<and> (if (\<exists>a. active = Some a
            \<and> \<bar>p - ev_last_seen_at a\<bar> \<le> agg_sliding_window_hours cfg * us_per_hour
            \<and> max p (ev_last_seen_at a) - min p (ev_first_seen_at a) < agg_event_max_timespan_hours cfg * us_per_hour)
       then ev = merged_event (the active) p i t else ev = created_event e p i t (w_next_uuid w))
    \<and> event_wf cfg ev"
proof -
  have a: "is_active_event a \<and> ev_first_seen_at a \<le> ev_last_seen_at a" if "active = Some a" for a
    using assms(3) that by (simp add: event_wf_def)
  have "event_wf cfg ev" using merge_or_create_wf [OF assms(1,2) _ assms(4)] assms(3) by blast
  moreover from merge_or_create_result [OF assms(1,2) _ assms(4)] a
  obtain p i t where "get_published_at e = Some p" "ee_entity_event_id e = Some i" "w_now w \<le> t"
    "(\<exists>a. active = Some a \<and> in_window cfg a p \<and> ev = merged_event a p i t)
      \<or> (\<forall>a. active = Some a \<longrightarrow> \<not> in_window cfg a p) \<and> ev = created_event e p i t (w_next_uuid w)"
    by meson
  ultimately show ?thesis unfolding in_window_def
    by (intro exI [of _ p] exI [of _ i] exI [of _ t]) auto
qed

lemma merge_decides_exactly_witness:
  "\<exists>i t. event_wf (cfg_aggregation sample_config) sample_event \<and> sample_event = created_event sample_entity_event 1700000000000000 i t 100"
  using merge_decides_exactly [OF _ _ _ sample_create [of "cfg_aggregation sample_config"]]
  by (auto simp: window_config_ok_def sample_config_def is_persistent_event_def get_published_at_def
      sample_entity_event_def row_to_entity_event_def sample_row_def sample_memory_def sample_world_def
      world.extend_def)

text \<open>C20: A well-formed active Event is kept for at least two flush intervals and at most the sliding
  window longer, so it cannot expire before the flush that persists it.\<close>

theorem ttl_within_bounds:
  assumes "window_config_ok cfg" and "event_wf cfg a"
  shows "2 * agg_db_flush_interval_s cfg \<le> ttl_for cfg a
    \<and> ttl_for cfg a \<le> agg_sliding_window_hours cfg * 3600 + 2 * agg_db_flush_interval_s cfg"
  using ttl_bounds [OF assms] by simp

lemma ttl_within_bounds_witness: "600 \<le> ttl_for (cfg_aggregation sample_config) sample_event"
proof -
  have "window_config_ok (cfg_aggregation sample_config)" by (simp add: window_config_ok_def sample_config_def)
  then have "2 * agg_db_flush_interval_s (cfg_aggregation sample_config) \<le> ttl_for (cfg_aggregation sample_config) sample_event
    \<and> ttl_for (cfg_aggregation sample_config) sample_event
      \<le> agg_sliding_window_hours (cfg_aggregation sample_config) * 3600 + 2 * agg_db_flush_interval_s (cfg_aggregation sample_config)"
    by (intro ttl_within_bounds) (simp_all add: created_event_wf sample_event_def)
  then show ?thesis by (simp add: sample_config_def)
qed

section \<open>The store of active Events\<close>

text \<open>C21: An Event that was stored is read back unchanged for as long as its time to live lasts: every
  later read of its group that succeeds returns exactly the stored Event, and from the end of its
  life on it returns none.\<close>

theorem stored_event_read_back:
  fixes w w1 :: "'z world_scheme"
  assumes st: "storable e" and u: "upsert_active_event e ttl_s w = (Inr (), w1)"
    and t: "w_now w \<le> w_now v" and s: "w_state v = w_state w1"
    and g: "get_active_event (ev_exchange e) (ev_stock_code e) (ev_event_type_primary e) v = (Inr r, v')"
  shows "r = (if w_now v < w_now w + ttl_s * us_per_second then Some e else None)"
proof -
  have "r = lookup_event (group_of_event e) (w_now v) (store_event (group_of_event e) e ttl_s (w_now w) (w_state w))"
    using get_active_event_value [OF g] upsert_active_event_Inr [OF u] s by (simp add: group_of_event_def)
  moreover have "lookup_event (group_of_event e) (w_now v) (store_event (group_of_event e) e ttl_s (w_now w) (w_state w))
      = (if w_now v < w_now w + ttl_s * us_per_second then Some e else None)"
  proof (cases "w_now v < w_now w + ttl_s * us_per_second")
    case True
    with st t show ?thesis by (simp add: active_events.lookup_store)
  next
    case False
    then show ?thesis using active_events.lookup_expired [of "w_now w" ttl_s "w_now v"] by simp
  qed
  ultimately show ?thesis by simp
qed

lemma stored_event_read_back_witness:
  "\<exists>v'. get_active_event (u ''HKEX'') (u ''00700'') BUYBACK (sample_merged\<lparr> w_now := 1700000301000000 \<rparr>)
     = (Inr (Some sample_event), v')"
proof -
  let ?v = "sample_merged\<lparr> w_now := 1700000301000000 \<rparr>"
  have g: "ev_exchange sample_event = u ''HKEX''" "ev_stock_code sample_event = u ''00700''"
    "ev_event_type_primary sample_event = BUYBACK"
    by (simp_all add: sample_event_def created_event_def sample_entity_event_def row_to_entity_event_def sample_row_def)
  have f5: "ev_aggregation_updated_at sample_event = Some 1700000300000000" "ev_entity_event_ids sample_event = Some [5]"
    by (simp_all add: sample_event_def created_event_def)
  obtain q v' where gv: "get_active_event (u ''HKEX'') (u ''00700'') BUYBACK ?v = (q, v')" by fastforce
  have f: "w_rt sample_merged = []" by (simp add: sample_merged_def sample_defs world.extend_def)
  have "\<exists>r. q = Inr r"
  proof -
    have "w_state sample_merged = hset_expire (get_key (u ''HKEX'') (u ''00700'') BUYBACK)
        (encode_event sample_event 1700000300000000 [5]) (ttl_for (cfg_aggregation sample_config) sample_event)
        1700000300000000 []"
      by (simp add: sample_merged_def store_event_def group_of_event_def g f5)
    then have "live_hash 1700000301000000 (w_state sample_merged) (get_key (u ''HKEX'') (u ''00700'') BUYBACK)
        = Some (put_fields (encode_event sample_event 1700000300000000 [5]) [])"
      using sample_ttl by (simp only: live_hset) (simp add: us_per_second_def live_hash_def)
    moreover have "decode_event (u ''HKEX'') (u ''00700'') BUYBACK (put_fields (encode_event sample_event 1700000300000000 [5]) [])
        = Inr sample_event"
      using decode_encode [OF sample_storable f5, of "[]"] by (simp add: g)
    ultimately show ?thesis using gv f
      by (auto simp: get_active_event_def hgetall_def rt_call_def bind_def ret_def of_sum_def split: if_splits list.splits)
  qed
  then obtain r where r: "q = Inr r" ..
  have "r = (if w_now ?v < w_now (sample_memory\<lparr> w_next_uuid := 101 \<rparr>)
      + ttl_for (cfg_aggregation sample_config) sample_event * us_per_second then Some sample_event else None)"
    by (rule stored_event_read_back [OF sample_storable sample_upsert, where v' = v'])
      (use gv r in \<open>simp_all add: g sample_defs world.extend_def\<close>)
  also have "\<dots> = Some sample_event"
    using sample_ttl by (simp add: sample_defs world.extend_def us_per_second_def)
  finally show ?thesis using gv r by simp
qed

section \<open>The stream client\<close>

text \<open>C22: While the stream Redis is only unreachable for a while, a publish returns: it retries through
  every outage, the entry is on the stream under the id it returns, and nothing that was on any
  stream is lost.\<close>

theorem publish_outlasts_outages:
  assumes "outages_only (w_rs w)"
  shows "\<exists>i w'. publish reconnect_s name flds w = (Inr i, w')
    \<and> (i, flds) \<in> set (sm_entries (the_stream (w_streams w') name))
    \<and> (\<forall>n. \<exists>rest. sm_entries (the_stream (w_streams w') n) = sm_entries (the_stream (w_streams w) n) @ rest)"
proof -
  from publish_returns [OF assms] obtain i w' where p: "publish reconnect_s name flds w = (Inr i, w')" by blast
  with publish_cases [OF p] show ?thesis by (auto simp: streams_grow_def prefix_def)
qed

lemma publish_outlasts_outages_witness:
  "\<exists>i w'. publish 5 EVENT_SCORED [] (sample_world\<lparr> w_rs := [Before (Redis RedisConnectionError), After (Redis RedisTimeoutError)] \<rparr>)
     = (Inr i, w')"
  using publish_outlasts_outages [of "sample_world\<lparr> w_rs := [Before (Redis RedisConnectionError), After (Redis RedisTimeoutError)] \<rparr>" 5 EVENT_SCORED "[]"]
  by (auto simp: outages_only_def)

section \<open>The database client\<close>

lemma write_attempts_calls:
  fixes w :: "'z world_scheme" and stmt :: "'b statement"
  shows "write_attempts cfg (pg_call stmt) n w = (r, w') \<Longrightarrow>
     \<exists>k. 1 \<le> k \<and> int k \<le> max 1 (db_max_retry cfg - int n + 1) \<and> w_pg w' = drop k (w_pg w)"
proof (induction cfg "pg_call stmt :: ('z, 'b) sapi" n arbitrary: w rule: write_attempts.induct)
  case (1 cfg n)
  obtain q w1 where q: "pg_call stmt w = (q, w1)" by fastforce
  have d: "w_pg w1 = drop 1 (w_pg w)" using pg_call_world [OF q] by (auto simp: drop_Suc)
  from "1.prems" q have t: "(case q of Inl e \<Rightarrow> (if is_transient e then
       if int n \<ge> db_max_retry cfg then raise e
       else seq (sleep_ms (db_retry_base_wait_ms cfg * 2 ^ (n - 1))) (write_attempts cfg (pg_call stmt) (Suc n))
     else raise e) w1 | Inr x \<Rightarrow> (Inr x, w1)) = (r, w')"
    by (subst (asm) write_attempts.simps) (simp add: try_except_def split: sum.splits)
  show ?case
  proof (cases "\<exists>e. q = Inl e \<and> is_transient e \<and> int n < db_max_retry cfg")
    case False
    with t have "w' = w1" by (auto split: sum.splits if_splits)
    with d show ?thesis by (intro exI [of _ 1]) auto
  next
    case True
    then obtain e where e: "q = Inl e" "is_transient e" "\<not> int n \<ge> db_max_retry cfg" by auto
    obtain v where v: "sleep_ms (db_retry_base_wait_ms cfg * 2 ^ (n - 1)) w1 = (Inr (), v)" "w_pg v = w_pg w1"
      by (simp add: sleep_ms_def modify_def)
    with t e have "write_attempts cfg (pg_call stmt) (Suc n) v = (r, w')" by (simp add: bind_def)
    from "1.hyps" [OF e(2,3) this] obtain k where k: "1 \<le> k" "int k \<le> max 1 (db_max_retry cfg - int (Suc n) + 1)"
      "w_pg w' = drop k (w_pg v)" by blast
    then show ?thesis using d v e by (intro exI [of _ "Suc k"]) (auto simp: drop_drop)
  qed
qed

text \<open>C23: A write reaches Postgres at least once and at most \<^verbatim>\<open>DB_WRITE_MAX_RETRY\<close> times (once, if the
  setting is less), its effect is that of the statement applied a number of times, and an error it
  raises is never one of the driver or the socket but the service's own.\<close>

theorem write_retries_bounded:
  assumes "db_execute_returning cfg stmt w = (r, w')"
  shows "(\<exists>k. 1 \<le> k \<and> int k \<le> max 1 (db_max_retry cfg) \<and> w_pg w' = drop k (w_pg w))
    \<and> applied stmt (w_db w) (w_db w')
    \<and> (case r of Inl e \<Rightarrow> driver_agnostic e | Inr x \<Rightarrow> \<exists>d. applied stmt (w_db w) d \<and> stmt d = (Inr x, w_db w'))"
proof -
  have "\<exists>q. write_attempts cfg (pg_call stmt) 1 w = (q, w')"
    using assms by (auto simp: db_execute_returning_def db_write_with_retry_def translated_errors_def
        try_except_def split: prod.splits sum.splits)
  then have "\<exists>k. 1 \<le> k \<and> int k \<le> max 1 (db_max_retry cfg) \<and> w_pg w' = drop k (w_pg w)"
    using write_attempts_calls by fastforce
  moreover have "case r of Inl e \<Rightarrow> driver_agnostic e | Inr x \<Rightarrow> True"
    using assms by (auto simp: db_execute_returning_def db_write_with_retry_def dest: translated_Inl split: sum.splits)
  ultimately show ?thesis
    using db_write_applied [OF assms [unfolded db_execute_returning_def]] by (auto split: sum.splits)
qed

lemma write_retries_bounded_witness:
  "\<exists>k. 1 \<le> k \<and> int k \<le> 3 \<and> w_pg (snd (db_execute_returning (cfg_db sample_config) (\<lambda>d. (Inr (), d))
     (sample_world\<lparr> w_pg := replicate 5 (Before (Pg CannotConnectNowError)) \<rparr>)))
     = drop k (replicate 5 (Before (Pg CannotConnectNowError)))"
  using write_retries_bounded [OF prod.collapse [symmetric], of "cfg_db sample_config" "\<lambda>d. (Inr (), d)"
      "sample_world\<lparr> w_pg := replicate 5 (Before (Pg CannotConnectNowError)) \<rparr>"]
  by (auto simp: sample_config_def)

section \<open>The outbox\<close>

text \<open>C24: Persisting Events is all or nothing: either the call fails and the tables are those of before,
  or every one of the Events is stored at its merge state or a newer one, with all its members. A
  call that succeeds is of the second kind.\<close>

theorem persist_events_atomic:
  fixes w :: "'z world_scheme"
  assumes "db_ok (w_db w)" and "persist_events cfg es w = (r, w')"
  shows "(w_db w' = w_db w \<and> (\<exists>e. r = Inl e)) \<or> (\<forall>e \<in> set es. persisted_event e (w_db w'))"
proof -
  obtain now wt where n: "datetime_now w = (Inr now, wt)" "w_db wt = w_db w"
    by (auto simp: datetime_now_def Let_def)
  with assms(2) have t: "db_transaction cfg (fold_io (persist_one (w_now wt) now) [] es) wt = (r, w')"
    by (simp add: persist_events_def bind_def get_w_def)
  from db_transaction_cases [OF t] have
    "(\<exists>e. r = Inl e) \<and> w_db w' = w_db wt
     \<or> (\<exists>w1 w2 x. w_db w1 = w_db wt \<and> fold_io (persist_one (w_now wt) now) [] es w1 = (Inr x, w2)
          \<and> w_db w' = w_db (w2 :: 'z world_scheme))"
    by blast
  then show ?thesis using fold_persists assms(1) n by metis
qed

lemma persist_events_atomic_witness:
  "(w_db (snd (persist_events (cfg_db sample_config) [sample_event] sample_world)) = w_db sample_world
      \<and> (\<exists>e. fst (persist_events (cfg_db sample_config) [sample_event] sample_world) = Inl e))
   \<or> persisted_event sample_event (w_db (snd (persist_events (cfg_db sample_config) [sample_event] sample_world)))"
proof -
  have "db_ok (w_db sample_world)" by (simp add: db_ok_def keyed_def sample_defs)
  from persist_events_atomic [OF this prod.collapse [symmetric], of "cfg_db sample_config" "[sample_event]"]
  show ?thesis by simp
qed

end
