(* ===== verification/Sapi_Scoring.thy ===== *)
theory Sapi_Scoring
  imports Sapi_Outbox
begin

text \<open>
  \<^verbatim>\<open>app/scoring\<close>: the rule score of an Event and the sentiment of its reports in floating point,
  their fusion, scoring one stored Event, and the consumer of \<^verbatim>\<open>stream:event_aggregated\<close>.
\<close>

section \<open>Sentiment\<close>

definition direction_coefficient :: "sentiment \<Rightarrow> int" where
  "direction_coefficient s = (case s of POSITIVE \<Rightarrow> 1 | NEUTRAL \<Rightarrow> 0 | NEGATIVE \<Rightarrow> - 1)"

record sentiment_aggregation =
  sa_weighted_signed_score :: pyfloat
  sa_sentiment_strength_score :: pyfloat

type_synonym weights = "(pystr \<times> pyfloat) list"

definition weight_of :: "weights \<Rightarrow> pystr \<Rightarrow> pyfloat" where
  "weight_of ws name = (case map_of ws name of None \<Rightarrow> 0 | Some x \<Rightarrow> x)"

text \<open>One iteration of the loop, on (signed sum, strength sum, total weight).\<close>

definition sentiment_step ::
  "weights \<Rightarrow> entity_event \<Rightarrow> pyfloat \<times> pyfloat \<times> pyfloat \<Rightarrow> pyfloat \<times> pyfloat \<times> pyfloat" where
  "sentiment_step ws e acc =
     (case acc of (signed, strength, tot) \<Rightarrow>
        let weight = weight_of ws (ee_source_name e);
            outcome = v_output (ee_analysis_outcome e);
            coefficient = of_int (direction_coefficient (ao_sentiment_label outcome))
        in (fadd signed (fmul (fmul (ao_sentiment_score outcome) coefficient) weight),
            fadd strength (fmul (ao_sentiment_score outcome) weight),
            fadd tot weight))"

definition compute_sentiment_aggregation :: "entity_event list \<Rightarrow> weights \<Rightarrow> sentiment_aggregation" where
  "compute_sentiment_aggregation es ws =
     (case fold (sentiment_step ws) es (0, 0, 0) of (signed, strength, tot) \<Rightarrow>
        if tot = 0 then \<lparr> sa_weighted_signed_score = 0, sa_sentiment_strength_score = 0 \<rparr>
        else \<lparr> sa_weighted_signed_score = fdiv signed tot,
               sa_sentiment_strength_score = fdiv strength tot \<rparr>)"

section \<open>Source weights\<close>

definition DEFAULT_TIER_WEIGHTS :: "(pystr \<times> pyfloat) list" where
  "DEFAULT_TIER_WEIGHTS = [(u ''P1'', 9), (u ''P2'', 6), (u ''P3'', 4)]"

definition SOURCE_TIER :: "(pystr \<times> pystr) list" where
  "SOURCE_TIER = [(u ''HKEX'', u ''P1''), (u ''MINGPAO'', u ''P2''), (u ''AASTOCKS'', u ''P2''), (u ''YAHOO_HK'', u ''P2'')]"

definition get_fallback_weights :: "pystr list \<Rightarrow> weights" where
  "get_fallback_weights names =
     fold (\<lambda>name ws. al_put name
       (case map_of SOURCE_TIER name of
          None \<Rightarrow> 0
        | Some tier \<Rightarrow> (case map_of DEFAULT_TIER_WEIGHTS tier of None \<Rightarrow> 0 | Some x \<Rightarrow> x)) ws) names []"

definition get_source_weights :: "pystr list \<Rightarrow> weights" where
  "get_source_weights names = get_fallback_weights names"

definition count_active_sources :: "scoring_config \<Rightarrow> int" where
  "count_active_sources cfg = sc_total_active_sources_default cfg"

section \<open>Rule score\<close>

definition RULE_SCORE_VERSION :: pystr where "RULE_SCORE_VERSION = u ''v1.0.0''"

text \<open>\<^verbatim>\<open>next(...)\<close> on an exhausted generator raises \<^verbatim>\<open>StopIteration\<close>.\<close>

definition get_event_type_score :: "event_type \<Rightarrow> scoring_config \<Rightarrow> pyfloat res" where
  "get_event_type_score t cfg =
     (case find (\<lambda>x. ets_event_type x = t) (sc_event_type_score cfg) of
        None \<Rightarrow> Inl (Py StopIteration) | Some x \<Rightarrow> Inr (ets_score x))"

text \<open>\<^verbatim>\<open>max\<close> of an empty iterable raises \<^verbatim>\<open>ValueError\<close>.\<close>

definition py_max :: "pyfloat list \<Rightarrow> pyfloat res" where
  "py_max xs = (case xs of [] \<Rightarrow> Inl (Py ValueError) | y # ys \<Rightarrow> Inr (fold max ys y))"

text \<open>\<^verbatim>\<open>a / b\<close> of two ints.\<close>

definition int_div :: "int \<Rightarrow> int \<Rightarrow> pyfloat res" where
  "int_div a b = (if b = 0 then Inl (Py ZeroDivisionError) else Inr (fl (of_int a / of_int b)))"

definition compute_rule_score ::
  "event \<Rightarrow> sentiment_aggregation \<Rightarrow> weights \<Rightarrow> int \<Rightarrow> scoring_config \<Rightarrow> rule_score versioned res" where
  "compute_rule_score e agg ws total_active_sources cfg =
     (case ev_source_list e of
        None \<Rightarrow> Inl (Py AssertionError)
      | Some sources \<Rightarrow>
          rbind (get_event_type_score (ev_event_type_primary e) cfg) (\<lambda>type_score.
          rbind (py_max (map (\<lambda>s. weight_of ws (src_source_name s)) sources)) (\<lambda>authority.
          rbind (int_div (int (length sources)) total_active_sources) (\<lambda>heat.
          Inr \<lparr> v_version = RULE_SCORE_VERSION,
                v_output = \<lparr> rs_event_type_score = type_score,
                             rs_source_authority_score = authority,
                             rs_sentiment_strength_score = fmul (sa_sentiment_strength_score agg) 10,
                             rs_source_heat_score = min 10 (fmul heat 10) \<rparr> \<rparr>))))"

section \<open>Fusion\<close>

definition LLM_SCORE_PLACEHOLDER :: "llm_score versioned" where
  "LLM_SCORE_PLACEHOLDER =
     \<lparr> v_version = u ''none'', v_output = \<lparr> ls_stock_impact_score = 0, ls_adjustment_reason = [] \<rparr> \<rparr>"

record fused_score =
  fs_direction :: int
  fs_base_rule_score :: pyfloat
  fs_abs_final_score :: pyfloat

definition score_fusion :: "rule_score \<Rightarrow> llm_score \<Rightarrow> sentiment_aggregation \<Rightarrow> fused_score" where
  "score_fusion rule llm agg =
     (let direction =
            (if 0 < ls_stock_impact_score llm then 1
             else if ls_stock_impact_score llm < 0 then - 1
             else if 0 \<le> sa_weighted_signed_score agg then 1 else - 1);
          base = base_rule_score rule;
          raw = fadd (fmul (fmul base (of_int direction)) (fl (67/100)))
                     (fmul (fmul (ls_stock_impact_score llm) (fl (33/100))) 2)
      in \<lparr> fs_direction = direction, fs_base_rule_score = base, fs_abs_final_score = \<bar>raw\<bar> \<rparr>)"

section \<open>Scoring one Event\<close>

text \<open>A \<^verbatim>\<open>StopIteration\<close> leaving a coroutine becomes a \<^verbatim>\<open>RuntimeError\<close>.\<close>

definition coroutine :: "('w, exn, 'a) io \<Rightarrow> ('w, exn, 'a) io" where
  "coroutine m = try_except m (\<lambda>e. raise (if e = Py StopIteration then Py RuntimeError else e))"

definition new_event_score ::
  "uuid \<Rightarrow> uuid \<Rightarrow> rule_score versioned \<Rightarrow> sentiment_aggregation \<Rightarrow> instant \<Rightarrow> instant \<Rightarrow> event_score" where
  "new_event_score score_id event_id rule agg scored_at expected =
     (let llm = LLM_SCORE_PLACEHOLDER; fused = score_fusion (v_output rule) (v_output llm) agg
      in \<lparr> es_score_id = score_id, es_event_id = event_id,
           es_abs_final_score = fs_abs_final_score fused,
           es_base_rule_score = fs_base_rule_score fused,
           es_stock_impact_score = ls_stock_impact_score (v_output llm),
           es_direction = fs_direction fused, es_llm_fallback = True,
           es_rule_score_detail = rule, es_llm_score_detail = llm,
           es_scored_at = scored_at, es_scored_aggregation_updated_at = expected,
           es_updated_at = scored_at, es_created_at = scored_at \<rparr>)"

definition event_scored_message :: "uuid \<Rightarrow> fields" where
  "event_scored_message i = [(u ''event_id'', uuid_str i), (u ''v'', STREAM_VERSION)]"

definition write_score :: "app_config \<Rightarrow> event_score \<Rightarrow> instant \<Rightarrow> ('z, unit) sapi" where
  "write_score cfg s expected =
     bind (persist_score_if_not_stale (cfg_db cfg) s expected) (\<lambda>stored.
     case stored of
       None \<Rightarrow> ret ()
     | Some _ \<Rightarrow> seq (publish (redis_reconnect_interval_s (cfg_redis cfg)) EVENT_SCORED
                       (event_scored_message (es_event_id s))) (ret ()))"

text \<open>\<^verbatim>\<open>score_event\<close> in the three parts between which other tasks can write the tables: reading the Event;
  reading its reports and computing the score; writing it under its guard.\<close>

type_synonym scoring_input = "event \<times> instant \<times> entity_source list"

definition score_read :: "uuid \<Rightarrow> ('z, scoring_input option) sapi" where
  "score_read event_id =
     bind (fetch_event event_id) (\<lambda>found.
      case found of
        None \<Rightarrow> ret None
      | Some e \<Rightarrow>
          bind (some_or_assert (ev_aggregation_updated_at e)) (\<lambda>expected.
          bind (some_or_assert (ev_source_list e)) (\<lambda>sources.
          ret (Some (e, expected, sources)))))"

definition score_compute :: "app_config \<Rightarrow> uuid \<Rightarrow> scoring_input \<Rightarrow> ('z, event_score) sapi" where
  "score_compute cfg event_id = (\<lambda>(e, expected, sources).
          bind (fetch_entity_events_for_event event_id) (\<lambda>reports.
          let ws = get_source_weights (map src_source_name sources);
              tot = count_active_sources (cfg_scoring cfg);
              agg = compute_sentiment_aggregation reports ws
          in bind (of_sum (compute_rule_score e agg ws tot (cfg_scoring cfg))) (\<lambda>rule.
             bind datetime_now (\<lambda>scored_at.
             bind uuid4 (\<lambda>score_id.
             ret (new_event_score score_id event_id rule agg scored_at expected))))))"

definition score_event :: "app_config \<Rightarrow> uuid \<Rightarrow> ('z, unit) sapi" where
  "score_event cfg event_id = coroutine
     (bind (score_read event_id) (\<lambda>found.
      case found of
        None \<Rightarrow> ret ()
      | Some (e, expected, sources) \<Rightarrow>
          bind (score_compute cfg event_id (e, expected, sources)) (\<lambda>s. write_score cfg s expected)))"

section \<open>The consumer\<close>

definition scoring_process_one :: "app_config \<Rightarrow> uuid \<Rightarrow> message_id \<Rightarrow> ('z, unit) sapi" where
  "scoring_process_one cfg event_id mid =
     try_except (seq (score_event cfg event_id) (ack EVENT_AGGREGATED SCORING_GROUP mid))
       (\<lambda>exc. if is_exception exc \<and> \<not> is_redis_unreachable exc then ret () else raise exc)"

definition scoring_route :: "app_config \<Rightarrow> stream_message \<Rightarrow> ('z, unit) sapi" where
  "scoring_route cfg m =
     (case Option.bind (map_of (msg_fields m) (u ''event_id'')) parse_uuid of
        None \<Rightarrow> ret ()
      | Some event_id \<Rightarrow> scoring_process_one cfg event_id (msg_id m))"

text \<open>One iteration of the loop.\<close>

definition scoring_iteration :: "app_config \<Rightarrow> ('z, unit) sapi" where
  "scoring_iteration cfg =
     try_except
       (bind (read_from EVENT_AGGREGATED SCORING_GROUP (sc_consumer_name (cfg_scoring cfg))
                (Some (sc_batch_size (cfg_scoring cfg)))) (\<lambda>ms.
        for_each ms (scoring_route cfg)))
       (\<lambda>exc. if is_redis_unreachable exc
              then sleep_ms (redis_reconnect_interval_s (cfg_redis cfg) * 1000) else raise exc)"

text \<open>\<^verbatim>\<open>start\<close> for a number of iterations of its endless loop.\<close>

definition scoring_start :: "app_config \<Rightarrow> nat \<Rightarrow> ('z, unit) sapi" where
  "scoring_start cfg n =
     seq (create_group_if_not_exists EVENT_AGGREGATED SCORING_GROUP)
         (for_each (replicate n ()) (\<lambda>_. scoring_iteration cfg))"

end
