(* ===== verification/Sapi_Scoring_Steps.thy ===== *)
theory Sapi_Scoring_Steps
  imports Sapi_Scoring
begin

text \<open>
  Scoring an Event as one task among others: its steps are the three parts of \<open>score_event\<close>, and
  between any two of them the rest of the system - merges, flushes, other scores - changes the
  tables as every operation of the repositories does, and everything else as it likes.
\<close>

section \<open>The task's steps\<close>

datatype score_stage =
    To_read
  | To_compute scoring_input
  | To_write event_score instant
  | Ended

inductive score_step ::
  "app_config \<Rightarrow> uuid \<Rightarrow> score_stage \<times> 'z world_scheme \<Rightarrow> score_stage \<times> 'z world_scheme \<Rightarrow> bool"
  for cfg i where
  Read: "score_read i w = (Inr (Some x), w') \<Longrightarrow> score_step cfg i (To_read, w) (To_compute x, w')"
| Read_nothing: "score_read i w = (Inr None, w') \<Longrightarrow> score_step cfg i (To_read, w) (Ended, w')"
| Read_fails: "score_read i w = (Inl exc, w') \<Longrightarrow> score_step cfg i (To_read, w) (Ended, w')"
| Compute: "score_compute cfg i (e, expected, sources) w = (Inr s, w') \<Longrightarrow>
    score_step cfg i (To_compute (e, expected, sources), w) (To_write s expected, w')"
| Compute_fails: "score_compute cfg i x w = (Inl exc, w') \<Longrightarrow> score_step cfg i (To_compute x, w) (Ended, w')"
| Write: "write_score cfg s expected w = (r, w') \<Longrightarrow> score_step cfg i (To_write s expected, w) (Ended, w')"
| Others: "db_rel db_step w w' \<Longrightarrow> score_step cfg i (stage, w) (stage, w')"

text \<open>The task alone is the function \<open>score_event\<close>.\<close>

theorem score_event_steps:
  assumes "score_event cfg i w = (r, w')"
  shows "(score_step cfg i)\<^sup>*\<^sup>* (To_read, w) (Ended, w')"
proof -
  obtain q w1 where q: "score_read i w = (q, w1)" by fastforce
  show ?thesis
  proof (cases "\<exists>e expected sources. q = Inr (Some (e, expected, sources))")
    case False
    have "w' = w1"
    proof (cases q)
      case (Inl e)
      with assms q show ?thesis by (auto simp: score_event_def coroutine_def try_except_def bind_def)
    next
      case (Inr x)
      with False have "x = None" by (cases x) auto
      with assms q Inr show ?thesis by (auto simp: score_event_def coroutine_def try_except_def bind_def ret_def)
    qed
    moreover have "score_step cfg i (To_read, w) (Ended, w1)"
      using False q score_step.Read_nothing score_step.Read_fails by (cases q; cases "projr q") auto
    ultimately show ?thesis by blast
  next
    case True
    then obtain e expected sources where x: "q = Inr (Some (e, expected, sources))" by blast
    obtain p w2 where p: "score_compute cfg i (e, expected, sources) w1 = (p, w2)" by fastforce
    have 1: "score_step cfg i (To_read, w) (To_compute (e, expected, sources), w1)"
      using q x by (intro score_step.Read) simp
    show ?thesis
    proof (cases p)
      case (Inl exc)
      with assms q x p have "w' = w2" by (auto simp: score_event_def coroutine_def try_except_def bind_def)
      with score_step.Compute_fails [OF p [unfolded Inl]] 1 show ?thesis
        by (meson converse_rtranclp_into_rtranclp rtranclp.rtrancl_refl)
    next
      case (Inr s)
      obtain t w3 where t: "write_score cfg s expected w2 = (t, w3)" by fastforce
      with assms q x p Inr have "w' = w3"
        by (cases t) (auto simp: score_event_def coroutine_def try_except_def bind_def)
      with score_step.Compute [OF p [unfolded Inr]] score_step.Write [OF t] 1 show ?thesis
        by (meson converse_rtranclp_into_rtranclp rtranclp.rtrancl_refl)
    qed
  qed
qed

section \<open>What a task knows\<close>

text \<open>A score computed from a stored row's merge state and the given reports.\<close>

definition scored_from :: "app_config \<Rightarrow> event_row \<Rightarrow> entity_event list \<Rightarrow> event_score \<Rightarrow> bool" where
  "scored_from cfg v reports s \<longleftrightarrow>
     (let ws = get_source_weights (map src_source_name (vr_source_list v));
          agg = compute_sentiment_aggregation reports ws
      in \<exists>rule. compute_rule_score (row_to_event v) agg ws (count_active_sources (cfg_scoring cfg)) (cfg_scoring cfg)
              = Inr rule
           \<and> es_rule_score_detail s = rule
           \<and> es_base_rule_score s = base_rule_score (v_output rule)
           \<and> es_abs_final_score s = fs_abs_final_score (score_fusion (v_output rule) (v_output LLM_SCORE_PLACEHOLDER) agg)
           \<and> es_direction s = fs_direction (score_fusion (v_output rule) (v_output LLM_SCORE_PLACEHOLDER) agg))"

text \<open>The tables d hold what has become of the row v of the Event i.\<close>

definition saw_row :: "uuid \<Rightarrow> event_row \<Rightarrow> db \<Rightarrow> bool" where
  "saw_row i v d \<longleftrightarrow> vr_event_id v = i \<and> (\<exists>v' \<in> set (t_events d). row_le v v')"

text \<open>What a task that started on the tables d0 knows when they have become d.\<close>

fun stage_ok :: "app_config \<Rightarrow> uuid \<Rightarrow> db \<Rightarrow> score_stage \<Rightarrow> db \<Rightarrow> bool" where
  "stage_ok cfg i d0 (To_compute (e, expected, sources)) d \<longleftrightarrow>
     (\<exists>v. saw_row i v d \<and> e = row_to_event v \<and> expected = vr_aggregation_updated_at v \<and> sources = vr_source_list v)"
| "stage_ok cfg i d0 (To_write s expected) d \<longleftrightarrow>
     (\<exists>v d2. saw_row i v d \<and> expected = vr_aggregation_updated_at v \<and> db_le d0 d2 \<and> db_le d2 d
        \<and> es_event_id s = i \<and> scored_from cfg v (map row_to_entity_event (entity_events_of_event d2 i)) s)"
| "stage_ok cfg i d0 _ d \<longleftrightarrow> True"

lemma saw_row_mono: "saw_row i v d \<Longrightarrow> db_le d d' \<Longrightarrow> saw_row i v d'"
  unfolding saw_row_def db_le_def by (meson grown_ex row_le_trans)

lemma stage_ok_mono: "stage_ok cfg i d0 st d \<Longrightarrow> db_le d d' \<Longrightarrow> stage_ok cfg i d0 st d'"
proof (induction cfg i d0 st d rule: stage_ok.induct)
  case (1 cfg i d0 e expected sources d)
  then obtain v where "saw_row i v d" "e = row_to_event v" "expected = vr_aggregation_updated_at v" "sources = vr_source_list v"
    by auto
  with saw_row_mono [OF _ 1(2)] show ?case by auto
next
  case (2 cfg i d0 s expected d)
  then obtain v d2 where "saw_row i v d" "expected = vr_aggregation_updated_at v" "db_le d0 d2" "db_le d2 d"
    "es_event_id s = i" "scored_from cfg v (map row_to_entity_event (entity_events_of_event d2 i)) s" by auto
  moreover have "db_le d2 d'" using le.db_trans [OF \<open>db_le d2 d\<close> 2(2)] .
  ultimately show ?case using saw_row_mono [OF _ 2(2)] by auto
qed simp_all

lemma score_read_Inr:
  assumes "score_read i w = (Inr (Some (e, expected, sources)), w')"
  shows "w_db w' = w_db w" and "\<exists>v \<in> set (t_events (w_db w)). vr_event_id v = i \<and> e = row_to_event v
    \<and> expected = vr_aggregation_updated_at v \<and> sources = vr_source_list v"
proof -
  obtain found w1 where f: "fetch_event i w = (Inr found, w1)"
    and rest: "(case found of
        None \<Rightarrow> ret None
      | Some e \<Rightarrow>
          bind (some_or_assert (ev_aggregation_updated_at e)) (\<lambda>expected.
          bind (some_or_assert (ev_source_list e)) (\<lambda>sources.
          ret (Some (e, expected, sources))))) w1 = (Inr (Some (e, expected, sources)), w')"
    using assms by (auto simp: score_read_def bind_eq_Inr)
  from db_fetch_Inr [OF f [unfolded fetch_event_def]] have w1: "w_db w1 = w_db w"
    and found: "found = map_option row_to_event (find_event i (w_db w))" by auto
  from rest found obtain v where v: "find_event i (w_db w) = Some v" "found = Some (row_to_event v)"
    by (cases "find_event i (w_db w)") auto
  with rest have "w' = w1" "e = row_to_event v" "expected = vr_aggregation_updated_at v" "sources = vr_source_list v"
    by (auto simp: bind_def some_or_assert_def row_to_event_def ret_def)
  with find_event_Some [OF v(1)] w1 show "w_db w' = w_db w"
    "\<exists>v \<in> set (t_events (w_db w)). vr_event_id v = i \<and> e = row_to_event v
    \<and> expected = vr_aggregation_updated_at v \<and> sources = vr_source_list v" by auto
qed

lemma score_compute_Inr:
  assumes "score_compute cfg i (row_to_event v, expected, vr_source_list v) w = (Inr s, w')"
  shows "w_db w' = w_db w" and "es_event_id s = i"
    and "scored_from cfg v (map row_to_entity_event (entity_events_of_event (w_db w) i)) s"
proof -
  obtain reports w1 rule w2 t w3 k w4 where f: "fetch_entity_events_for_event i w = (Inr reports, w1)"
    and c: "compute_rule_score (row_to_event v)
      (compute_sentiment_aggregation reports (get_source_weights (map src_source_name (vr_source_list v))))
      (get_source_weights (map src_source_name (vr_source_list v))) (count_active_sources (cfg_scoring cfg))
      (cfg_scoring cfg) = Inr rule"
    and t: "datetime_now w1 = (Inr t, w3)" and k: "uuid4 w3 = (Inr k, w')"
    and s: "s = new_event_score k i rule
      (compute_sentiment_aggregation reports (get_source_weights (map src_source_name (vr_source_list v)))) t expected"
    using assms by (auto simp: score_compute_def bind_eq_Inr Let_def of_sum_def split: sum.splits)
  from db_fetch_Inr [OF f [unfolded fetch_entity_events_for_event_def]] have "w_db w1 = w_db w"
    and r: "reports = map row_to_entity_event (entity_events_of_event (w_db w) i)" by auto
  then show "w_db w' = w_db w" using t k by (auto simp: datetime_now_def uuid4_def Let_def)
  show "es_event_id s = i" by (simp add: s new_event_score_def Let_def)
  show "scored_from cfg v (map row_to_entity_event (entity_events_of_event (w_db w) i)) s"
    using c by (simp add: s scored_from_def r [symmetric] Let_def new_event_score_def) (simp add: score_fusion_def Let_def)
qed

lemma score_read_step: "always (db_rel db_step) (score_read i)"
  unfolding score_read_def
  by (auto intro!: step.io.always_bind step.io.always_ret fetch_steps some_or_assert_step split: option.splits)

lemma score_compute_step: "always (db_rel db_step) (score_compute cfg i x)"
  unfolding score_compute_def Let_def
  by (auto intro!: step.io.always_bind step.io.always_ret step.io.always_of_sum fetch_steps clock_uuid_step
      split: prod.splits)

lemma write_score_step: "always (db_rel db_step) (write_score cfg s expected)"
  unfolding write_score_def
  by (auto intro!: step.io.always_bind step.io.always_ret persist_score_step step_rs.always_rs split: option.splits)

definition task_ok :: "app_config \<Rightarrow> uuid \<Rightarrow> db \<Rightarrow> score_stage \<times> 'z world_scheme \<Rightarrow> bool" where
  "task_ok cfg i d0 p \<longleftrightarrow>
     db_ok (w_db (snd p)) \<and> db_le d0 (w_db (snd p)) \<and> stage_ok cfg i d0 (fst p) (w_db (snd p))"

lemma task_moves:
  assumes "task_ok cfg i d0 (st, w)" and "always (db_rel db_step) m" and "m w = (r, w')"
  shows "db_ok (w_db w')" and "db_le d0 (w_db w')"
  using stepD [OF assms(2,3)] assms(1) le.db_trans [of d0 "w_db w" "w_db w'"] by (auto simp: task_ok_def)

lemma score_step_ok:
  assumes "score_step cfg i p q" and "task_ok cfg i d0 p"
  shows "task_ok cfg i d0 q"
  using assms
proof (cases rule: score_step.cases)
  case (Read w x w')
  obtain e expected sources where x: "x = (e, expected, sources)" by (cases x)
  from score_read_Inr [OF Read(3) [unfolded x]] obtain v where "w_db w' = w_db w" "v \<in> set (t_events (w_db w))"
    "vr_event_id v = i" "e = row_to_event v" "expected = vr_aggregation_updated_at v" "sources = vr_source_list v" by blast
  moreover from this have "saw_row i v (w_db w')" unfolding saw_row_def by (auto intro: bexI [of _ v])
  ultimately show ?thesis using assms(2) Read x by (auto simp: task_ok_def)
next
  case (Read_nothing w w')
  with task_moves [OF assms(2) [unfolded Read_nothing(1)] score_read_step Read_nothing(3)] show ?thesis
    by (simp add: task_ok_def)
next
  case (Read_fails w exc w')
  with task_moves [OF assms(2) [unfolded Read_fails(1)] score_read_step Read_fails(3)] show ?thesis
    by (simp add: task_ok_def)
next
  case (Compute e expected sources w s w')
  from Compute(1) assms(2) obtain v where v: "saw_row i v (w_db w)" "e = row_to_event v"
    "expected = vr_aggregation_updated_at v" "sources = vr_source_list v" by (auto simp: task_ok_def)
  note c = score_compute_Inr [OF Compute(3) [unfolded v(2,4)]]
  have le: "db_le d0 (w_db w)" "db_le (w_db w) (w_db w)" and ok: "db_ok (w_db w)"
    using assms(2) Compute(1) le.db_refl by (simp_all add: task_ok_def)
  have "stage_ok cfg i d0 (To_write s expected) (w_db w)"
    unfolding stage_ok.simps using v(1,3) c(2,3) le by blast
  with le ok have "stage_ok cfg i d0 (To_write s expected) (w_db w')" "db_ok (w_db w')" "db_le d0 (w_db w')"
    unfolding c(1) by simp_all
  then show ?thesis by (simp add: Compute(2) task_ok_def)
next
  case (Compute_fails x w exc w')
  with task_moves [OF assms(2) [unfolded Compute_fails(1)] score_compute_step Compute_fails(3)] show ?thesis
    by (simp add: task_ok_def)
next
  case (Write s expected w r w')
  with task_moves [OF assms(2) [unfolded Write(1)] write_score_step Write(3)] show ?thesis
    by (simp add: task_ok_def)
next
  case (Others w w' stage)
  with assms(2) have o: "db_ok (w_db w')" "db_le (w_db w) (w_db w')" "db_le d0 (w_db w)"
    by (simp_all add: db_rel_def db_step_def task_ok_def)
  with Others assms(2) stage_ok_mono [of cfg i d0 stage "w_db w" "w_db w'"] le.db_trans [OF o(3,2)] show ?thesis
    by (simp add: task_ok_def)
qed

theorem score_path_ok:
  assumes "(score_step cfg i)\<^sup>*\<^sup>* (To_read, w0) q" and "db_ok (w_db w0)"
  shows "task_ok cfg i (w_db w0) q"
  using assms(1)
proof (induction rule: rtranclp_induct)
  case base
  with assms(2) show ?case by (simp add: task_ok_def le.db_refl)
qed (rule score_step_ok)

text \<open>The row the tables hold now, if its version is the one the task read, has the merge state the
  score was computed from.\<close>

lemma scored_from_current:
  assumes ok: "db_ok d" and v: "saw_row i v d" and s: "scored_from cfg v reports s"
    and c: "c \<in> set (t_events d)" "vr_event_id c = i" "vr_aggregation_updated_at c = vr_aggregation_updated_at v"
  shows "scored_from cfg c reports s"
proof -
  from v obtain v' where v': "v' \<in> set (t_events d)" "row_le v v'" "vr_event_id v = i" by (auto simp: saw_row_def)
  then have "vr_event_id v' = i" by (simp add: row_le_def)
  moreover have "inj_on vr_event_id (set (t_events d))" using ok by (simp add: db_ok_def keyed_def distinct_map)
  ultimately have "v' = c" using v'(1) c by (auto dest: inj_onD)
  with v'(2) c(3) have "vr_source_list c = vr_source_list v" "vr_event_type_primary c = vr_event_type_primary v"
    by (auto simp: row_le_def)
  then show ?thesis using s
    by (simp add: scored_from_def compute_rule_score_def row_to_event_def Let_def)
qed

end
