(* ===== verification/Sapi_Scoring_Props.thy ===== *)
theory Sapi_Scoring_Props
  imports Sapi_Scoring_Steps Sapi_Sample_Run
begin

text \<open>
  Scoring: the bounds its docstrings state, in floating point; that a score is written only for the
  merge state it was computed from, whatever other tasks do to the tables meanwhile, replaces the Event's earlier score in place and is announced
  only when written; and when a message is acknowledged.
\<close>

section \<open>Bounds\<close>

lemma fadd_mono: "a \<le> b \<Longrightarrow> c \<le> d \<Longrightarrow> fadd a c \<le> fadd b d"
  by (simp add: fadd_def fl_mono add_mono)

lemma fmul_bounds: "0 \<le> a \<Longrightarrow> a \<le> b \<Longrightarrow> 0 \<le> c \<Longrightarrow> 0 \<le> fmul a c \<and> fmul a c \<le> fmul b c"
  by (simp add: fmul_def fl_mono fl.rnd_nonneg mult_right_mono)

lemma abs_fadd: "\<bar>a\<bar> \<le> c \<Longrightarrow> \<bar>b\<bar> \<le> d \<Longrightarrow> \<bar>fadd a b\<bar> \<le> fadd c d"
  unfolding fadd_def by (metis fl.rnd_abs fl_mono abs_triangle_ineq add_mono order_trans)

lemma fmul_1: "fl x = x \<Longrightarrow> fmul x 1 = x"
  by (simp add: fmul_def)

text \<open>The sums of the loop stay ordered: the signed one within the strength, the strength within the
  weights.\<close>

lemma sentiment_sums:
  assumes "\<forall>e \<in> set es. 0 \<le> ao_sentiment_score (v_output (ee_analysis_outcome e))
      \<and> ao_sentiment_score (v_output (ee_analysis_outcome e)) \<le> 1
      \<and> fl (ao_sentiment_score (v_output (ee_analysis_outcome e))) = ao_sentiment_score (v_output (ee_analysis_outcome e))"
    and "\<forall>name. 0 \<le> weight_of ws name \<and> fl (weight_of ws name) = weight_of ws name"
    and "\<bar>s\<bar> \<le> st" "st \<le> t"
    and "fold (sentiment_step ws) es (s, st, t) = (s', st', t')"
  shows "\<bar>s'\<bar> \<le> st' \<and> st' \<le> t'"
  using assms
proof (induction es arbitrary: s st t)
  case Nil
  then show ?case by simp
next
  case (Cons e es)
  define x where "x = ao_sentiment_score (v_output (ee_analysis_outcome e))"
  define c where "c = rat_of_int (direction_coefficient (ao_sentiment_label (v_output (ee_analysis_outcome e))))"
  define wt where "wt = weight_of ws (ee_source_name e)"
  have x: "0 \<le> x" "x \<le> 1" "fl x = x" and wt: "0 \<le> wt" "fl wt = wt"
    using Cons.prems(1,2) by (simp_all add: x_def wt_def)
  have c: "c = 1 \<or> c = 0 \<or> c = - 1"
    by (simp add: c_def direction_coefficient_def split: sentiment.splits)
  have sg: "\<bar>fmul (fmul x c) wt\<bar> \<le> fmul x wt"
    using c x wt by (auto simp: fmul_def fl_minus fl.rnd_nonneg)
  have stw: "fmul x wt \<le> wt"
    using x wt mult_left_le_one_le [OF wt(1) x(1,2)] by (simp add: fmul_def fl.rnd_le)
  have 1: "\<bar>fadd s (fmul (fmul x c) wt)\<bar> \<le> fadd st (fmul x wt)" using Cons.prems(3) sg by (rule abs_fadd)
  have 2: "fadd st (fmul x wt) \<le> fadd t wt" using Cons.prems(4) stw by (rule fadd_mono)
  have "fold (sentiment_step ws) es (fadd s (fmul (fmul x c) wt), fadd st (fmul x wt), fadd t wt) = (s', st', t')"
  proof -
    have "sentiment_step ws e (s, st, t) = (fadd s (fmul (fmul x c) wt), fadd st (fmul x wt), fadd t wt)"
      by (simp add: sentiment_step_def Let_def x_def c_def wt_def)
    with Cons.prems(5) show ?thesis by simp
  qed
  from Cons.IH [OF _ Cons.prems(2) 1 2 this] Cons.prems(1) show ?case by simp
qed

text \<open>C25: For reports whose sentiment scores lie in [0, 1] and weights that are not negative, the
  aggregated strength lies in [0, 1] and the signed score in [-1, 1] and within the strength - with
  every operation rounded as the code's floats round it.\<close>

theorem sentiment_within_bounds:
  assumes "\<forall>e \<in> set es. 0 \<le> ao_sentiment_score (v_output (ee_analysis_outcome e))
      \<and> ao_sentiment_score (v_output (ee_analysis_outcome e)) \<le> 1
      \<and> fl (ao_sentiment_score (v_output (ee_analysis_outcome e))) = ao_sentiment_score (v_output (ee_analysis_outcome e))"
    and "\<forall>name. 0 \<le> weight_of ws name \<and> fl (weight_of ws name) = weight_of ws name"
  shows "\<bar>sa_weighted_signed_score (compute_sentiment_aggregation es ws)\<bar>
           \<le> sa_sentiment_strength_score (compute_sentiment_aggregation es ws)
    \<and> sa_sentiment_strength_score (compute_sentiment_aggregation es ws) \<le> 1"
proof -
  obtain s st t where f: "fold (sentiment_step ws) es (0, 0, 0) = (s, st, t)" by (cases "fold (sentiment_step ws) es (0, 0, 0)")
  have o: "\<bar>s\<bar> \<le> st" "st \<le> t" using sentiment_sums [OF assms _ _ f] by simp_all
  then have t0: "0 \<le> t" by linarith
  show ?thesis
  proof (cases "t = 0")
    case True
    then show ?thesis by (simp add: compute_sentiment_aggregation_def f)
  next
    case False
    with t0 have t: "0 < t" by simp
    have "\<bar>fdiv s t\<bar> \<le> fdiv st t"
      using o t by (simp add: fdiv_def fl.rnd_abs fl_mono abs_divide divide_right_mono)
    moreover have "fdiv st t \<le> 1" using o t by (simp add: fdiv_def fl.rnd_le)
    ultimately show ?thesis using False by (simp add: compute_sentiment_aggregation_def f)
  qed
qed

lemma tier_weights:
  "(case map_of SOURCE_TIER name of None \<Rightarrow> 0
    | Some tier \<Rightarrow> (case map_of DEFAULT_TIER_WEIGHTS tier of None \<Rightarrow> 0 | Some x \<Rightarrow> x)) \<in> ({0, 4, 6, 9} :: pyfloat set)"
  by (simp add: SOURCE_TIER_def DEFAULT_TIER_WEIGHTS_def)

lemma fold_put_values:
  "\<forall>k. f k \<in> A \<Longrightarrow> \<forall>k x. map_of ws k = Some x \<longrightarrow> x \<in> A \<Longrightarrow>
     map_of (fold (\<lambda>k. al_put k (f k)) ks ws) k = Some x \<Longrightarrow> x \<in> A"
proof (induction ks arbitrary: ws)
  case (Cons a ks)
  have "\<forall>k x. map_of (al_put a (f a) ws) k = Some x \<longrightarrow> x \<in> A" using Cons.prems(1,2) by auto
  from Cons.IH [OF Cons.prems(1) this] Cons.prems(3) show ?case by simp
qed simp

lemma fallback_weights: "weight_of (get_source_weights names) name \<in> {0, 4, 6, 9}"
proof (cases "map_of (get_source_weights names) name")
  case (Some x)
  have "x \<in> {0, 4, 6, 9}"
    by (rule fold_put_values [OF allI [OF tier_weights] _ Some [unfolded get_source_weights_def get_fallback_weights_def]]) simp
  with Some show ?thesis by (simp add: weight_of_def)
qed (simp add: weight_of_def)

lemma sentiment_within_bounds_witness:
  "sa_sentiment_strength_score (compute_sentiment_aggregation [sample_entity_event] (get_source_weights [u ''HKEX''])) \<le> 1"
proof -
  have "0 \<le> weight_of (get_source_weights [u ''HKEX'']) name
      \<and> fl (weight_of (get_source_weights [u ''HKEX'']) name) = weight_of (get_source_weights [u ''HKEX'']) name" for name
    using fallback_weights [of "[u ''HKEX'']" name] by auto
  moreover have "fl (1/2) = 1/2" by code_simp
  ultimately show ?thesis
    using sentiment_within_bounds [of "[sample_entity_event]" "get_source_weights [u ''HKEX'']"]
    by (simp add: sample_entity_event_def row_to_entity_event_def sample_row_def)
qed

text \<open>The weights of the four dimensions, as the nearest doubles.\<close>

lemma weight_30: "fl (3/10) \<le> 3/10" "0 \<le> fl (3/10)" and weight_25: "fl (1/4) = 1/4"
  and weight_15: "fl (3/20) \<le> 3/20" "0 \<le> fl (3/20)"
  and weight_10: "fl (1/10) = 7205759403792794 / 2 ^ 56"
  by code_simp+

lemma fl_in_binade:
  "2 powi e \<le> x \<Longrightarrow> x < 2 powi (e + 1) \<Longrightarrow>
     fl x = of_int (round_half_even (x * 2 powi (52 - e))) * 2 powi (e - 52)"
proof -
  assume a: "2 powi e \<le> x" "x < 2 powi (e + 1)"
  have "0 < (2::rat) powi e" by simp
  with a have "0 < x" by linarith
  with a fexp_unique [of e x] show ?thesis by (simp add: fl_def ulp_def power_int_diff field_simps)
qed

lemma heat_weight: "fmul 10 (fl (1/10)) = 1"
proof -
  define x :: rat where "x = 10 * (7205759403792794 / 2 ^ 56)"
  have f: "\<lfloor>x * 2 ^ 52\<rfloor> = 2 ^ 52" by (rule floor_unique) (simp_all add: x_def)
  have "round_half_even (x * 2 ^ 52) = 2 ^ 52"
    unfolding round_half_even_def f Let_def by (simp add: x_def)
  moreover have "fl x = of_int (round_half_even (x * 2 powi (52 - 0))) * 2 powi (0 - 52)"
    by (rule fl_in_binade) (simp_all add: x_def)
  ultimately have "fl x = 1" by (simp add: power_int_minus)
  then show ?thesis unfolding fmul_def weight_10 x_def .
qed

lemma dimension_bounds:
  assumes x: "0 \<le> x" "x \<le> 10"
  shows "0 \<le> fmul x (fl (3/10)) \<and> fmul x (fl (3/10)) \<le> 3"
    and "0 \<le> fmul x (fl (1/4)) \<and> fmul x (fl (1/4)) \<le> 5/2"
    and "0 \<le> fmul x (fl (3/20)) \<and> fmul x (fl (3/20)) \<le> 3/2"
    and "0 \<le> fmul x (fl (1/10)) \<and> fmul x (fl (1/10)) \<le> 1"
proof -
  have f: "fl (5/2) = 5/2" "fl (3/2) = 3/2" by code_simp+
  have 3: "fmul 10 (fl (3/10)) \<le> 3" unfolding fmul_def by (rule fl.rnd_le) (use weight_30(1) in simp_all)
  have 25: "fmul 10 (fl (1/4)) \<le> 5/2" unfolding fmul_def by (rule fl.rnd_le [OF f(1)]) (simp add: weight_25)
  have 15: "fmul 10 (fl (3/20)) \<le> 3/2" unfolding fmul_def by (rule fl.rnd_le [OF f(2)]) (use weight_15(1) in simp)
  have 10: "fmul 10 (fl (1/10)) \<le> 1" by (simp only: heat_weight)
  have n: "0 \<le> fl (1/4)" "0 \<le> fl (1/10)" by (simp_all add: fl.rnd_nonneg)
  show "0 \<le> fmul x (fl (3/10)) \<and> fmul x (fl (3/10)) \<le> 3"
    using fmul_bounds [OF x weight_30(2)] 3 by (metis order_trans)
  show "0 \<le> fmul x (fl (1/4)) \<and> fmul x (fl (1/4)) \<le> 5/2"
    using fmul_bounds [OF x n(1)] 25 by (metis order_trans)
  show "0 \<le> fmul x (fl (3/20)) \<and> fmul x (fl (3/20)) \<le> 3/2"
    using fmul_bounds [OF x weight_15(2)] 15 by (metis order_trans)
  show "0 \<le> fmul x (fl (1/10)) \<and> fmul x (fl (1/10)) \<le> 1"
    using fmul_bounds [OF x n(2)] 10 by (metis order_trans)
qed

lemma fadd_bounds:
  "0 \<le> a \<and> a \<le> b \<Longrightarrow> 0 \<le> c \<and> c \<le> d \<Longrightarrow> fl (b + d) = b + d \<Longrightarrow> 0 \<le> fadd a c \<and> fadd a c \<le> b + d"
  by (simp add: fadd_def fl.rnd_nonneg fl.rnd_le)

lemma base_rule_score_bounds:
  assumes "\<forall>x \<in> {rs_event_type_score r, rs_source_authority_score r, rs_sentiment_strength_score r,
      rs_source_heat_score r}. 0 \<le> x \<and> x \<le> 10"
  shows "0 \<le> base_rule_score r \<and> base_rule_score r \<le> 8"
proof -
  let ?a = "fmul (rs_event_type_score r) (fl (3/10))" and ?b = "fmul (rs_source_authority_score r) (fl (1/4))"
  let ?c = "fmul (rs_sentiment_strength_score r) (fl (3/20))" and ?d = "fmul (rs_source_heat_score r) (fl (1/10))"
  have s: "fl (3 + 5/2) = 3 + 5/2" "fl (3 + 5/2 + 3/2) = 3 + 5/2 + 3/2" "fl (3 + 5/2 + 3/2 + 1) = 3 + 5/2 + 3/2 + 1"
    by code_simp+
  have "0 \<le> fadd (fadd (fadd ?a ?b) ?c) ?d \<and> fadd (fadd (fadd ?a ?b) ?c) ?d \<le> 3 + 5/2 + 3/2 + 1"
    by (intro fadd_bounds s dimension_bounds) (use assms in auto)
  then show ?thesis by (simp add: base_rule_score_def)
qed

text \<open>C26: The score of an Event: with every dimension in [0, 10] and an impact in [-5, 5], the base rule
  score lies in [0, 8], the direction is 1 or -1 - that of the impact, or of the sentiment when there
  is no impact - and the final score in [0, 10], all in floating point.\<close>

theorem fused_score_within_bounds:
  assumes "\<forall>x \<in> {rs_event_type_score r, rs_source_authority_score r, rs_sentiment_strength_score r,
      rs_source_heat_score r}. 0 \<le> x \<and> x \<le> 10"
    and "\<bar>ls_stock_impact_score llm\<bar> \<le> 5"
  shows "0 \<le> fs_base_rule_score (score_fusion r llm agg) \<and> fs_base_rule_score (score_fusion r llm agg) \<le> 8
    \<and> 0 \<le> fs_abs_final_score (score_fusion r llm agg) \<and> fs_abs_final_score (score_fusion r llm agg) \<le> 10
    \<and> fs_direction (score_fusion r llm agg) \<in> {1, - 1}
    \<and> (ls_stock_impact_score llm \<noteq> 0 \<longrightarrow> sgn (ls_stock_impact_score llm) = of_int (fs_direction (score_fusion r llm agg)))"
proof -
  define d where "d = fs_direction (score_fusion r llm agg)"
  have d: "d \<in> {1, - 1}" "ls_stock_impact_score llm \<noteq> 0 \<longrightarrow> sgn (ls_stock_impact_score llm) = of_int d"
    by (auto simp: d_def score_fusion_def Let_def)
  note b = base_rule_score_bounds [OF assms(1)]
  have "\<bar>base_rule_score r * of_int d\<bar> \<le> 8" using b d(1) by (auto simp: abs_mult)
  then have "\<bar>fmul (base_rule_score r) (of_int d)\<bar> \<le> 8" by (simp add: fmul_def fl.rnd_abs_le)
  moreover have k: "8 * fl (67/100) \<le> 6" "0 \<le> fl (67/100)" "5 * fl (33/100) \<le> 2" "0 \<le> fl (33/100)"
    by code_simp+
  ultimately have "\<bar>fmul (base_rule_score r) (of_int d) * fl (67/100)\<bar> \<le> 8 * fl (67/100)"
    by (simp add: abs_mult mult_right_mono)
  with k(1) have 1: "\<bar>fmul (fmul (base_rule_score r) (of_int d)) (fl (67/100))\<bar> \<le> 6"
    by (simp add: fmul_def fl.rnd_abs_le)
  have "\<bar>ls_stock_impact_score llm * fl (33/100)\<bar> \<le> 5 * fl (33/100)"
    using assms(2) k(4) by (simp add: abs_mult mult_right_mono)
  with k(3) have "\<bar>fmul (ls_stock_impact_score llm) (fl (33/100))\<bar> \<le> 2" by (simp add: fmul_def fl.rnd_abs_le)
  then have 2: "\<bar>fmul (fmul (ls_stock_impact_score llm) (fl (33/100))) 2\<bar> \<le> 4" by (simp add: fmul_def fl.rnd_abs_le)
  have "\<bar>fadd (fmul (fmul (base_rule_score r) (of_int d)) (fl (67/100)))
      (fmul (fmul (ls_stock_impact_score llm) (fl (33/100))) 2)\<bar> \<le> 10"
    using abs_fadd [OF 1 2] by (simp add: fadd_def)
  with b d show ?thesis by (simp add: d_def score_fusion_def Let_def)
qed

lemma fused_score_within_bounds_witness:
  "fs_abs_final_score (score_fusion
     \<lparr> rs_event_type_score = 9, rs_source_authority_score = 6, rs_sentiment_strength_score = 5, rs_source_heat_score = 10 \<rparr>
     (v_output LLM_SCORE_PLACEHOLDER) \<lparr> sa_weighted_signed_score = 0, sa_sentiment_strength_score = 1 \<rparr>) \<le> 10"
  using fused_score_within_bounds [of "\<lparr> rs_event_type_score = 9, rs_source_authority_score = 6,
      rs_sentiment_strength_score = 5, rs_source_heat_score = 10 \<rparr>" "v_output LLM_SCORE_PLACEHOLDER"
      "\<lparr> sa_weighted_signed_score = 0, sa_sentiment_strength_score = 1 \<rparr>"]
  by (simp add: LLM_SCORE_PLACEHOLDER_def)

section \<open>Writing a score\<close>

text \<open>A row that writing the score s leaves for the version it expects, and only while that version is
  the stored one.\<close>

definition written_row :: "event_score \<Rightarrow> instant \<Rightarrow> db \<Rightarrow> event_score \<Rightarrow> bool" where
  "written_row s expected d x \<longleftrightarrow>
     x = s\<lparr> es_score_id := es_score_id x, es_scored_aggregation_updated_at := expected,
            es_updated_at := es_updated_at x, es_created_at := es_created_at x \<rparr>
     \<and> (\<exists>v \<in> set (t_events d). vr_event_id v = es_event_id s \<and> vr_aggregation_updated_at v = expected)"

definition writes_only :: "event_score \<Rightarrow> instant \<Rightarrow> db \<Rightarrow> db \<Rightarrow> bool" where
  "writes_only s expected d d' \<longleftrightarrow> t_events d' = t_events d \<and> t_entity_events d' = t_entity_events d
     \<and> t_event_entity_map d' = t_event_entity_map d
     \<and> (\<forall>x \<in> set (t_event_scores d'). x \<in> set (t_event_scores d) \<or> written_row s expected d' x)"

lemma written_row_events: "t_events d' = t_events d \<Longrightarrow> written_row s expected d' x = written_row s expected d x"
  by (simp add: written_row_def)

interpretation writes: db_preorder "writes_only s expected" for s expected
proof
  show "writes_only s expected d d" for d by (simp add: writes_only_def)
  show "writes_only s expected a b \<Longrightarrow> writes_only s expected b c \<Longrightarrow> writes_only s expected a c" for a b c
    unfolding writes_only_def using written_row_events [of c b s expected] by metis
qed

lemma upsert_writes_only: "writes_only s expected d (snd (upsert_event_score_stmt now s expected d))"
proof (cases "find_event (es_event_id s) d")
  case None
  then show ?thesis by (simp add: upsert_event_score_stmt_def writes.db_refl)
next
  case (Some v)
  note v = find_event_Some [OF Some]
  show ?thesis
  proof (cases "vr_aggregation_updated_at v = expected")
    case False
    with Some show ?thesis by (simp add: upsert_event_score_stmt_def writes.db_refl)
  next
    case True
    have "\<exists>x \<in> set (t_events d). vr_event_id x = es_event_id s \<and> vr_aggregation_updated_at x = expected"
      using v True by (intro bexI [of _ v]) auto
    with Some True show ?thesis
      by (auto simp: upsert_event_score_stmt_def writes_only_def written_row_def Let_def split: option.splits)
  qed
qed

lemma persist_score_writes: "always (db_rel (writes_only s expected)) (persist_score_if_not_stale cfg s expected)"
  unfolding persist_score_if_not_stale_def
  by (intro writes.io.always_bind writes.io.always_get_w writes.db_execute_returning_rel upsert_writes_only)

lemma write_score_writes: "always (db_rel (writes_only s expected)) (write_score cfg s expected)"
proof -
  have "always (db_rel (writes_only s expected)) (publish ri n flds)" for ri n flds
    by (rule alwaysI) (auto dest!: alwaysD [OF publish_frame] simp: rs_frame_def db_rel_def writes.db_refl)
  then show ?thesis unfolding write_score_def
    by (auto intro!: writes.io.always_bind writes.io.always_ret persist_score_writes split: option.splits)
qed

lemma persist_score_streams: "always same_streams (persist_score_if_not_stale cfg s expected)"
  unfolding persist_score_if_not_stale_def
  by (intro streams_pg.always_bind streams_pg.always_get_w streams_pg.always_pg)

text \<open>A statement that finds nothing to do does nothing, however often it is sent.\<close>

lemma applied_idle: "applied stmt d d' \<Longrightarrow> snd (stmt d) = d \<Longrightarrow> d' = d"
  unfolding applied_def by (induction rule: rtranclp_induct) auto

definition stale :: "uuid \<Rightarrow> instant \<Rightarrow> db \<Rightarrow> bool" where
  "stale i expected d \<longleftrightarrow> (\<forall>v \<in> set (t_events d). vr_event_id v = i \<longrightarrow> vr_aggregation_updated_at v \<noteq> expected)"

lemma upsert_stale: "stale (es_event_id s) expected d \<Longrightarrow> upsert_event_score_stmt now s expected d = (Inr None, d)"
  by (auto simp: upsert_event_score_stmt_def stale_def dest!: find_event_Some split: option.splits)

lemma write_score_stale:
  assumes st: "stale (es_event_id s) expected (w_db w)" and w: "write_score cfg s expected w = (r, w')"
  shows "w_db w' = w_db w" and "w_streams w' = w_streams w"
proof -
  let ?stmt = "upsert_event_score_stmt (w_now w) s expected"
  obtain q w1 where q: "persist_score_if_not_stale (cfg_db cfg) s expected w = (q, w1)" by fastforce
  then have "db_write_with_retry (cfg_db cfg) (pg_call ?stmt) w = (q, w1)"
    by (simp add: persist_score_if_not_stale_def db_execute_returning_def bind_def get_w_def)
  from db_write_applied [OF this] have a: "applied ?stmt (w_db w) (w_db w1)"
    and x: "\<And>x. q = Inr x \<Longrightarrow> \<exists>d. applied ?stmt (w_db w) d \<and> ?stmt d = (Inr x, w_db w1)" by auto
  have idle: "d = w_db w" if "applied ?stmt (w_db w) d" for d
    using applied_idle [OF that] by (simp add: upsert_stale [OF st])
  have n: "x = None" if qx: "q = Inr x" for x
  proof -
    from x [OF qx] obtain d where d: "applied ?stmt (w_db w) d" "?stmt d = (Inr x, w_db w1)" by blast
    from d(2) show ?thesis unfolding idle [OF d(1)] upsert_stale [OF st] by simp
  qed
  have "w' = w1"
  proof (cases q)
    case (Inl e)
    with w q show ?thesis by (simp add: write_score_def bind_def)
  next
    case (Inr x)
    with w q n show ?thesis by (simp add: write_score_def bind_def ret_def)
  qed
  moreover have "w_db w1 = w_db w" using idle [OF a] .
  moreover have "w_streams w1 = w_streams w"
    using alwaysD [OF persist_score_streams q] by (simp add: same_streams_def)
  ultimately show "w_db w' = w_db w" "w_streams w' = w_streams w" by simp_all
qed

lemma upsert_current:
  assumes "db_ok d" and "\<not> stale (es_event_id s) expected d" and "upsert_event_score_stmt now s expected d = (Inr x, d')"
  shows "\<exists>y \<in> set (t_event_scores d'). es_event_id y = es_event_id s \<and> es_scored_aggregation_updated_at y = expected"
proof -
  from assms(2) obtain v where v: "v \<in> set (t_events d)" "vr_event_id v = es_event_id s" "vr_aggregation_updated_at v = expected"
    by (auto simp: stale_def)
  have "inj_on vr_event_id (set (t_events d))" using assms(1) by (simp add: db_ok_def keyed_def distinct_map)
  then have f: "find_event (es_event_id s) d = Some v"
  proof (cases "find_event (es_event_id s) d")
    case None
    with v show ?thesis by (simp add: find_event_None)
  next
    case (Some a)
    from find_event_Some [OF Some] v have "vr_event_id a = vr_event_id v" "a \<in> set (t_events d)" by simp_all
    with \<open>inj_on vr_event_id (set (t_events d))\<close> v(1) have "a = v" by (meson inj_onD)
    with Some show ?thesis by simp
  qed
  show ?thesis
  proof (cases "find (\<lambda>y. es_event_id y = es_event_id s) (t_event_scores d)")
    case None
    with assms(3) f v(3) show ?thesis by (auto simp: upsert_event_score_stmt_def Let_def split: if_splits)
  next
    case (Some old)
    then have "old \<in> set (t_event_scores d)" "es_event_id old = es_event_id s" by (auto simp: find_Some_iff)
    moreover define new where "new = s\<lparr> es_scored_aggregation_updated_at := expected, es_updated_at := now,
        es_created_at := now, es_score_id := es_score_id old, es_created_at := es_created_at old \<rparr>"
    ultimately have "new \<in> set (map (\<lambda>y. if es_event_id y = es_event_id s then new else y) (t_event_scores d))"
      by (auto simp: image_iff)
    moreover have "d' = d\<lparr> t_event_scores := map (\<lambda>y. if es_event_id y = es_event_id s then new else y) (t_event_scores d) \<rparr>"
    proof -
      have "snd (upsert_event_score_stmt now s expected d)
          = d\<lparr> t_event_scores := map (\<lambda>y. if es_event_id y = es_event_id s then new else y) (t_event_scores d) \<rparr>"
        unfolding upsert_event_score_stmt_def f option.case Some Let_def new_def by (simp add: v(3))
      with assms(3) show ?thesis by simp
    qed
    moreover have "es_event_id new = es_event_id s" "es_scored_aggregation_updated_at new = expected"
      by (simp_all add: new_def)
    ultimately show ?thesis by (intro bexI [of _ new]) simp_all
  qed
qed

lemma publish_db: "publish k n flds w = (r, w') \<Longrightarrow> w_db w' = w_db w"
  by (drule alwaysD [OF publish_frame]) (simp add: rs_frame_def)

lemma write_score_current:
  assumes ok: "db_ok (w_db w)" and st: "\<not> stale (es_event_id s) expected (w_db w)"
    and w: "write_score cfg s expected w = (Inr (), w')"
  shows "\<exists>y \<in> set (t_event_scores (w_db w')). es_event_id y = es_event_id s \<and> es_scored_aggregation_updated_at y = expected"
proof -
  let ?stmt = "upsert_event_score_stmt (w_now w) s expected"
  obtain x w1 where q: "persist_score_if_not_stale (cfg_db cfg) s expected w = (Inr x, w1)"
    and rest: "(case x of None \<Rightarrow> ret ()
     | Some _ \<Rightarrow> seq (publish (redis_reconnect_interval_s (cfg_redis cfg)) EVENT_SCORED
                       (event_scored_message (es_event_id s))) (ret ())) w1 = (Inr (), w')"
    using w by (auto simp: write_score_def bind_eq_Inr)
  then have "db_write_with_retry (cfg_db cfg) (pg_call ?stmt) w = (Inr x, w1)"
    by (simp add: persist_score_if_not_stale_def db_execute_returning_def bind_def get_w_def)
  from db_write_applied [OF this] obtain d where d: "applied ?stmt (w_db w) d" "?stmt d = (Inr x, w_db w1)" by auto
  have "db_ok d \<and> t_events d = t_events (w_db w)"
    using d(1) unfolding applied_def
  proof (induction rule: rtranclp_induct)
    case base
    with ok show ?case by simp
  next
    case (step a b)
    with upsert_score_ok [of a] upsert_writes_only [of s expected a "w_now w"] show ?case by (simp add: writes_only_def)
  qed
  with st have "db_ok d" "\<not> stale (es_event_id s) expected d" by (simp_all add: stale_def)
  from upsert_current [OF this d(2)] have
    "\<exists>y \<in> set (t_event_scores (w_db w1)). es_event_id y = es_event_id s \<and> es_scored_aggregation_updated_at y = expected" .
  moreover have "w_db w' = w_db w1"
    using rest by (cases x) (auto simp: bind_eq_Inr publish_db)
  ultimately show ?thesis by simp
qed

text \<open>C27: A scoring task reads an Event and its reports and computes a score while merges, flushes and
  other scores go on changing the tables. Whatever happened on the way, its write changes nothing
  but scores; every row it adds or replaces is the Event's, and was computed from the merge state -
  sources, type - of the row stored at that moment, and from the Event's reports as they stood while
  the task ran. If the Event was re-aggregated since it was read, nothing is written and nothing
  announced; if it was not and the write returns, the Event has a score of its stored version.\<close>

theorem stale_score_never_written:
  fixes w0 w :: "'z world_scheme"
  assumes "(score_step cfg i)\<^sup>*\<^sup>* (To_read, w0) (To_write s expected, w)" and "db_ok (w_db w0)"
    and "write_score cfg s expected w = (r, w')"
  shows "t_events (w_db w') = t_events (w_db w) \<and> t_entity_events (w_db w') = t_entity_events (w_db w)
    \<and> t_event_entity_map (w_db w') = t_event_entity_map (w_db w)
    \<and> (\<forall>x \<in> set (t_event_scores (w_db w')). x \<in> set (t_event_scores (w_db w))
         \<or> es_event_id x = i \<and> es_scored_aggregation_updated_at x = expected
           \<and> (\<exists>v \<in> set (t_events (w_db w)). \<exists>d. vr_event_id v = i \<and> vr_aggregation_updated_at v = expected
                \<and> db_le (w_db w0) d \<and> db_le d (w_db w)
                \<and> scored_from cfg v (map row_to_entity_event (entity_events_of_event d i)) x))
    \<and> (stale i expected (w_db w) \<longrightarrow> w_db w' = w_db w \<and> w_streams w' = w_streams w)
    \<and> (\<not> stale i expected (w_db w) \<and> r = Inr () \<longrightarrow>
         (\<exists>x \<in> set (t_event_scores (w_db w')). es_event_id x = i \<and> es_scored_aggregation_updated_at x = expected))"
proof -
  have ok: "db_ok (w_db w)" and st: "stage_ok cfg i (w_db w0) (To_write s expected) (w_db w)"
    using score_path_ok [OF assms(1,2)] by (simp_all add: task_ok_def)
  then obtain v d where v: "saw_row i v (w_db w)" "expected = vr_aggregation_updated_at v"
    and d: "db_le (w_db w0) d" "db_le d (w_db w)" and i: "es_event_id s = i"
    and sc: "scored_from cfg v (map row_to_entity_event (entity_events_of_event d i)) s" by auto
  have wo: "writes_only s expected (w_db w) (w_db w')"
    using alwaysD [OF write_score_writes assms(3)] by (simp add: db_rel_def)
  have row: "es_event_id x = i \<and> es_scored_aggregation_updated_at x = expected
      \<and> (\<exists>c \<in> set (t_events (w_db w)). \<exists>d. vr_event_id c = i \<and> vr_aggregation_updated_at c = expected
           \<and> db_le (w_db w0) d \<and> db_le d (w_db w)
           \<and> scored_from cfg c (map row_to_entity_event (entity_events_of_event d i)) x)"
    if wr: "written_row s expected (w_db w') x" for x
  proof -
    have "t_events (w_db w') = t_events (w_db w)" using wo by (simp add: writes_only_def)
    with wr obtain c where c: "c \<in> set (t_events (w_db w))" "vr_event_id c = i" "vr_aggregation_updated_at c = expected"
      and x: "x = s\<lparr> es_score_id := es_score_id x, es_scored_aggregation_updated_at := expected,
            es_updated_at := es_updated_at x, es_created_at := es_created_at x \<rparr>"
      by (auto simp: written_row_def i)
    have "scored_from cfg c (map row_to_entity_event (entity_events_of_event d i)) s"
      using scored_from_current [OF ok v(1) sc c(1,2)] c(3) v(2) by simp
    then have "scored_from cfg c (map row_to_entity_event (entity_events_of_event d i)) x"
      by (subst x) (simp add: scored_from_def)
    moreover have "es_event_id x = i" "es_scored_aggregation_updated_at x = expected" by (subst x, simp add: i)+
    ultimately show ?thesis using c d by blast
  qed
  have "stale i expected (w_db w) \<longrightarrow> w_db w' = w_db w \<and> w_streams w' = w_streams w"
    using write_score_stale [of s expected w cfg r w'] assms(3) by (simp add: i)
  moreover have "\<not> stale i expected (w_db w) \<and> r = Inr () \<longrightarrow>
      (\<exists>x \<in> set (t_event_scores (w_db w')). es_event_id x = i \<and> es_scored_aggregation_updated_at x = expected)"
    using write_score_current [OF ok, of s expected cfg w'] assms(3) by (simp add: i)
  ultimately show ?thesis using wo row unfolding writes_only_def by blast
qed

text \<open>The sample Event is read and scored; before the score is written, a merge moves the Event to a
  newer state.\<close>

definition sample_event_row :: event_row where
  "sample_event_row = the (proposed_event_row 1700000300000000 sample_event 1700000300000000 [5] sample_db)"

definition sample_reaggregated :: event_row where
  "sample_reaggregated = sample_event_row\<lparr> vr_last_seen_at := 1700000350000000,
     vr_aggregation_updated_at := 1700000360000000 \<rparr>"

definition sample_unscored :: world where
  "sample_unscored = sample_world\<lparr> w_db := sample_db\<lparr> t_events := [sample_event_row] \<rparr> \<rparr>"

definition sample_overtaken :: world where
  "sample_overtaken = sample_unscored\<lparr> w_next_uuid := 101, w_db := sample_db\<lparr> t_events := [sample_reaggregated] \<rparr> \<rparr>"

lemma sample_event_row_fields:
  "vr_event_id sample_event_row = 100" "vr_aggregation_updated_at sample_event_row = 1700000300000000"
  "vr_event_type_primary sample_event_row = BUYBACK"
  "map src_source_name (vr_source_list sample_event_row) = [u ''mingpao'']"
  by (simp_all add: sample_event_row_def sample_proposed)

lemma sample_rule: "\<exists>rule. compute_rule_score (row_to_event sample_event_row) agg ws 4 (cfg_scoring sample_config) = Inr rule"
proof -
  obtain src where "vr_source_list sample_event_row = [src]" using sample_event_row_fields(4) by auto
  then show ?thesis
    by (simp add: compute_rule_score_def row_to_event_def sample_event_row_fields get_event_type_score_def
        py_max_def int_div_def sample_config_def)
qed

lemma sample_scoring_path:
  "\<exists>s. (score_step sample_config 100)\<^sup>*\<^sup>* (To_read, sample_unscored) (To_write s 1700000300000000, sample_overtaken)"
proof -
  define w1 where "w1 = sample_unscored\<lparr> w_next_uuid := 101 \<rparr>"
  have pg: "w_pg sample_unscored = []" "w_ticks sample_unscored = []" "w_next_uuid sample_unscored = 100"
    by (simp_all add: sample_unscored_def sample_world_def)
  have db: "w_db sample_unscored = sample_db\<lparr> t_events := [sample_event_row] \<rparr>" by (simp add: sample_unscored_def)
  have "fetch_event 100 sample_unscored = (Inr (Some (row_to_event sample_event_row)), sample_unscored)"
    unfolding fetch_event_def calm_fetch [OF pg(1)] db by (simp add: find_event_def sample_event_row_fields)
  then have r: "score_read 100 sample_unscored
      = (Inr (Some (row_to_event sample_event_row, 1700000300000000, vr_source_list sample_event_row)), sample_unscored)"
    by (simp add: score_read_def bind_def row_to_event_def some_or_assert_def ret_def sample_event_row_fields)
  obtain s where c: "score_compute sample_config 100
      (row_to_event sample_event_row, 1700000300000000, vr_source_list sample_event_row) sample_unscored = (Inr s, w1)"
  proof -
    define reports where "reports = map row_to_entity_event (entity_events_of_event (w_db sample_unscored) 100)"
    define ws where "ws = get_source_weights (map src_source_name (vr_source_list sample_event_row))"
    obtain rule where "compute_rule_score (row_to_event sample_event_row) (compute_sentiment_aggregation reports ws)
        ws 4 (cfg_scoring sample_config) = Inr rule" using sample_rule by blast
    moreover have "count_active_sources (cfg_scoring sample_config) = 4"
      by (simp add: count_active_sources_def sample_config_def)
    moreover have "fetch_entity_events_for_event 100 sample_unscored = (Inr reports, sample_unscored)"
      unfolding fetch_entity_events_for_event_def calm_fetch [OF pg(1)] by (simp add: reports_def)
    moreover have "datetime_now sample_unscored = (Inr (w_now sample_unscored), sample_unscored)"
      using pg(2) by (cases sample_unscored) (simp add: datetime_now_def)
    moreover have "uuid4 sample_unscored = (Inr 100, w1)" by (simp add: uuid4_def pg(3) w1_def)
    ultimately have "score_compute sample_config 100
      (row_to_event sample_event_row, 1700000300000000, vr_source_list sample_event_row) sample_unscored
        = (Inr (new_event_score 100 100 rule (compute_sentiment_aggregation reports ws) (w_now sample_unscored)
            1700000300000000), w1)"
      by (simp add: score_compute_def bind_def Let_def of_sum_def ret_def ws_def [symmetric])
    then show thesis by (rule that)
  qed
  have "db_rel db_step w1 sample_overtaken"
    by (simp add: db_rel_def db_step_def w1_def db sample_overtaken_def sample_reaggregated_def db_ok_def keyed_def
        sample_db_def db_le_def grown_def row_le_def sample_event_row_fields)
  with score_step.Read [OF r] score_step.Compute [OF c] score_step.Others show ?thesis
    by (meson rtranclp.rtrancl_into_rtrancl rtranclp.rtrancl_refl)
qed

lemma stale_score_never_written_witness:
  "\<exists>s. (score_step sample_config 100)\<^sup>*\<^sup>* (To_read, sample_unscored) (To_write s 1700000300000000, sample_overtaken)
     \<and> w_db (snd (write_score sample_config s 1700000300000000 sample_overtaken)) = w_db sample_overtaken
     \<and> w_streams (snd (write_score sample_config s 1700000300000000 sample_overtaken)) = w_streams sample_overtaken"
proof -
  obtain s where p: "(score_step sample_config 100)\<^sup>*\<^sup>* (To_read, sample_unscored) (To_write s 1700000300000000, sample_overtaken)"
    using sample_scoring_path by blast
  have ok: "db_ok (w_db sample_unscored)"
    by (simp add: sample_unscored_def db_ok_def keyed_def sample_db_def)
  have "stale 100 1700000300000000 (w_db sample_overtaken)"
    by (simp add: stale_def sample_overtaken_def sample_reaggregated_def)
  with stale_score_never_written [OF p ok prod.collapse [symmetric]] p show ?thesis by blast
qed

lemma score_event_step: "always (db_rel db_step) (score_event cfg i)"
  unfolding score_event_def coroutine_def
  by (auto intro!: step.io.always_try step.io.always_bind step.io.always_ret step.io.always_raise
      score_read_step score_compute_step write_score_step split: option.splits prod.splits)

text \<open>A second score of an Event replaces the first in place: whatever scoring does, every score row
  there was keeps its identifier, its Event and its creation time, and there is at most one row per
  Event afterwards.\<close>

theorem rescore_keeps_identity:
  assumes "db_ok (w_db w)" and "score_event cfg i w = (r, w')"
  shows "distinct (map es_event_id (t_event_scores (w_db w')))
    \<and> (\<forall>s \<in> set (t_event_scores (w_db w)). \<exists>s' \<in> set (t_event_scores (w_db w')).
         es_score_id s' = es_score_id s \<and> es_event_id s' = es_event_id s \<and> es_created_at s' = es_created_at s)"
proof -
  have ok: "db_ok (w_db w')" and le: "db_le (w_db w) (w_db w')"
    using stepD [OF score_event_step assms(2,1)] by auto
  have "\<exists>s' \<in> set (t_event_scores (w_db w')). score_le s s'" if "s \<in> set (t_event_scores (w_db w))" for s
    using le that unfolding db_le_def by (meson grown_ex)
  then show ?thesis using ok unfolding db_ok_def keyed_def score_le_def by blast
qed

lemma rescore_keeps_identity_witness:
  "distinct (map es_event_id (t_event_scores (w_db (snd (score_event sample_config 100 sample_world)))))"
proof -
  have "db_ok (w_db sample_world)" by (simp add: db_ok_def keyed_def sample_defs)
  from rescore_keeps_identity [OF this prod.collapse [symmetric], of sample_config 100] show ?thesis by blast
qed

section \<open>Announcing and acknowledging\<close>

text \<open>The Events with a score row.\<close>

definition scored_ids :: "db \<Rightarrow> uuid set" where
  "scored_ids d = es_event_id ` set (t_event_scores d)"

definition announces_scored :: "uuid \<Rightarrow> 'z world_scheme \<Rightarrow> 'z world_scheme \<Rightarrow> bool" where
  "announces_scored i w w' \<longleftrightarrow> scored_ids (w_db w) \<subseteq> scored_ids (w_db w')
     \<and> (w_streams w' = w_streams w \<or> i \<in> scored_ids (w_db w'))"

interpretation announces: monotone_io "announces_scored i" for i
  by unfold_locales (auto simp: announces_scored_def)

interpretation scored: db_preorder "\<lambda>d d'. scored_ids d \<subseteq> scored_ids d'"
  by unfold_locales auto

lemma replaced_image: "f new = k \<Longrightarrow> f ` set (map (\<lambda>y. if f y = k then new else y) xs) = f ` set xs"
  unfolding set_map image_image by (rule image_cong) auto

lemma upsert_scored: "scored_ids d \<subseteq> scored_ids (snd (upsert_event_score_stmt now s expected d))"
  by (auto simp: upsert_event_score_stmt_def scored_ids_def Let_def replaced_image simp del: set_map
      split: option.splits)

lemma find_image: "find (\<lambda>y. f y = k) xs = Some x \<Longrightarrow> k \<in> f ` set xs"
  by (auto simp: find_Some_iff)

lemma upsert_stored:
  "upsert_event_score_stmt now s expected d = (Inr (Some x), d') \<Longrightarrow> es_event_id s \<in> scored_ids d'"
  by (auto simp: upsert_event_score_stmt_def scored_ids_def Let_def replaced_image simp del: set_map
      dest: find_image split: option.splits if_splits)

lemma persist_score_scored: "always (db_rel (\<lambda>d d'. scored_ids d \<subseteq> scored_ids d')) (persist_score_if_not_stale cfg s expected)"
  unfolding persist_score_if_not_stale_def
  by (intro scored.io.always_bind scored.io.always_get_w scored.db_execute_returning_rel upsert_scored)

lemma persist_score_stores:
  "persist_score_if_not_stale cfg s expected w = (Inr (Some x), w') \<Longrightarrow> es_event_id s \<in> scored_ids (w_db w')"
  unfolding persist_score_if_not_stale_def db_execute_returning_def run_get_w
  by (drule db_write_applied) (auto dest: upsert_stored)

lemma announces_db:
  "always same_streams m \<Longrightarrow> always (db_rel (\<lambda>d d'. scored_ids d \<subseteq> scored_ids d')) m \<Longrightarrow> always (announces_scored i) m"
  unfolding always_def announces_scored_def same_streams_def db_rel_def by blast

lemma write_score_announces:
  assumes "es_event_id s = i"
  shows "always (announces_scored i) (write_score cfg s expected)"
proof (rule alwaysI)
  fix w :: "'z world_scheme" and r w'
  assume run: "write_score cfg s expected w = (r, w')"
  obtain q w1 where q: "persist_score_if_not_stale (cfg_db cfg) s expected w = (q, w1)" by fastforce
  have 1: "announces_scored i w w1"
    using alwaysD [OF announces_db [OF persist_score_streams persist_score_scored] q] .
  show "announces_scored i w w'"
  proof (cases "\<exists>x. q = Inr (Some x)")
    case False
    with run q have "w' = w1" by (auto simp: write_score_def bind_def split: sum.splits option.splits)
    with 1 show ?thesis by simp
  next
    case True
    then have "i \<in> scored_ids (w_db w1)" using q assms persist_score_stores by blast
    moreover have "rs_frame w1 w'"
    proof -
      have "seq (publish (redis_reconnect_interval_s (cfg_redis cfg)) EVENT_SCORED
          (event_scored_message (es_event_id s))) (ret ()) w1 = (r, w')"
        using True run q by (auto simp: write_score_def bind_def)
      then show ?thesis
        by (rule alwaysD [rotated]) (intro rs_frame.always_bind rs_frame.always_ret publish_frame)
    qed
    ultimately show ?thesis using 1 by (auto simp: announces_scored_def rs_frame_def)
  qed
qed

lemma quiet_announces: "always (announces_scored i) datetime_now" "always (announces_scored i) uuid4"
  by (rule alwaysI, auto simp: datetime_now_def uuid4_def announces_scored_def Let_def)+

lemma fetch_announces: "always (announces_scored i) (db_fetch q)"
  by (intro announces_db streams_pg.always_pg scored.db_fetch_rel)

lemma announces_bind_result:
  fixes m :: "('z, 'a) sapi"
  assumes "always (announces_scored i) m"
    and "\<And>w x w'. m w = (Inr x, w') \<Longrightarrow> always (announces_scored i) (f x)"
  shows "always (announces_scored i) (bind m f)"
proof (rule alwaysI)
  fix w :: "'z world_scheme" and r w'
  assume b: "bind m f w = (r, w')"
  obtain q w1 where q: "m w = (q, w1)" by fastforce
  show "announces_scored i w w'"
  proof (cases q)
    case (Inl e)
    with b q have "w' = w1" by (simp add: bind_def)
    with alwaysD [OF assms(1) q] show ?thesis by simp
  next
    case (Inr x)
    with b q have "f x w1 = (r, w')" by (simp add: bind_def)
    with announces.R_trans [OF alwaysD [OF assms(1) q]] alwaysD [OF assms(2)] q Inr show ?thesis by blast
  qed
qed

lemma score_compute_event: "score_compute cfg i x w = (Inr s, w') \<Longrightarrow> es_event_id s = i"
  by (cases x) (auto simp: score_compute_def bind_eq_Inr Let_def new_event_score_def)

lemma score_read_announces: "always (announces_scored i) (score_read i)"
  unfolding score_read_def fetch_event_def
  by (auto intro!: announces.always_bind announces.always_ret announces.always_raise fetch_announces
      some_or_assert_always announces.R_refl split: option.splits)

lemma score_compute_announces: "always (announces_scored i) (score_compute cfg i x)"
  unfolding score_compute_def fetch_entity_events_for_event_def Let_def
  by (auto intro!: announces.always_bind announces.always_ret announces.always_of_sum fetch_announces
      quiet_announces split: prod.splits)

lemma score_rest_announces: "always (announces_scored i) (bind (score_compute cfg i x) (\<lambda>s. write_score cfg s expected))"
  by (rule announces_bind_result [OF score_compute_announces]) (intro write_score_announces score_compute_event)

lemma score_event_announces: "always (announces_scored i) (score_event cfg i)"
  unfolding score_event_def coroutine_def
  by (intro announces.always_try announces.always_raise announces.always_bind score_read_announces)
    (simp add: announces.always_ret score_rest_announces split: option.splits prod.splits)

text \<open>Nothing is announced on a stream unless the Event has its score row: if scoring adds any
  entry, the table holds a score of the Event when it ends.\<close>

theorem announced_only_when_stored:
  "w_streams (snd (score_event cfg i w)) = w_streams w
    \<or> (\<exists>s \<in> set (t_event_scores (w_db (snd (score_event cfg i w)))). es_event_id s = i)"
  using alwaysD [OF score_event_announces [of i cfg] prod.collapse [of "score_event cfg i w", symmetric]]
  by (auto simp: announces_scored_def scored_ids_def)

lemma score_event_unacked: "always (unacked K) (score_event cfg i)"
  unfolding score_event_def score_read_def score_compute_def coroutine_def write_score_def persist_score_if_not_stale_def fetch_event_def
    fetch_entity_events_for_event_def Let_def
  by (auto intro!: unacked.always_try unacked.always_bind unacked.always_ret unacked.always_raise
      unacked.always_of_sum unacked.always_get_w unacked_pg.always_pg publish_unacked datetime_now_unacked
      some_or_assert_always unacked.R_refl uuid4_frames split: option.splits)

text \<open>Routing a message of the scoring stream acknowledges at most that message, and only after
  its event_id was valid and scoring the Event returned normally.\<close>

theorem scoring_acknowledges_only:
  assumes "scoring_route cfg m w = (r, w')"
    and "i \<in> pending_ids (w_streams w) n g" and "i \<notin> pending_ids (w_streams w') n g"
  shows "n = EVENT_AGGREGATED \<and> g = SCORING_GROUP \<and> i = msg_id m
    \<and> (\<exists>e w1. Option.bind (map_of (msg_fields m) (u ''event_id'')) parse_uuid = Some e
         \<and> score_event cfg e w = (Inr (), w1))"
proof (cases "Option.bind (map_of (msg_fields m) (u ''event_id'')) parse_uuid")
  case None
  with assms show ?thesis by (simp add: scoring_route_def)
next
  case (Some e)
  obtain q w1 where q: "score_event cfg e w = (q, w1)" by fastforce
  have kept: "i \<in> pending_ids (w_streams w1) n g"
    using alwaysD [OF score_event_unacked [of "{}"] q] assms(2) by (simp add: unacked_def)
  have run: "scoring_process_one cfg e (msg_id m) w = (r, w')"
    using assms(1) Some by (simp add: scoring_route_def)
  show ?thesis
  proof (cases q)
    case (Inl x)
    with run q have "w' = w1" by (auto simp: scoring_process_one_def bind_def try_except_def split: if_splits)
    with kept assms(3) show ?thesis by simp
  next
    case (Inr x)
    obtain a w2 where a: "ack EVENT_AGGREGATED SCORING_GROUP (msg_id m) w1 = (a, w2)" by fastforce
    with run q Inr have "w' = w2"
      by (cases a) (auto simp: scoring_process_one_def bind_def try_except_def split: if_splits)
    with alwaysD [OF ack_unacked [of _ _ _ "{(EVENT_AGGREGATED, SCORING_GROUP, msg_id m)}"] a] kept assms(3)
    have "(n, g, i) = (EVENT_AGGREGATED, SCORING_GROUP, msg_id m)" by (auto simp: unacked_def)
    with Some q Inr show ?thesis by auto
  qed
qed

text \<open>A message about an Event that is not stored: nothing to score, and nothing left to wait for.\<close>

definition sample_scored_message :: stream_message where
  "sample_scored_message = \<lparr> msg_id = 1, msg_fields = [(u ''event_id'', uuid_str 7)], msg_delivery_count = None \<rparr>"

definition sample_scoring_world :: world where
  "sample_scoring_world = sample_world\<lparr> w_streams := [(EVENT_AGGREGATED,
     \<lparr> sm_entries = [(1, [(u ''event_id'', uuid_str 7)])], sm_next_id = 2,
       sm_groups = [(SCORING_GROUP, \<lparr> cg_last_delivered = 1,
         cg_pending = [(1, \<lparr> pe_consumer = u ''sapi-scoring-1'', pe_times_delivered = 1,
           pe_delivered_at = 1700000200000000 \<rparr>)] \<rparr>)] \<rparr>)] \<rparr>"

lemma sample_unstored: "score_event sample_config 7 sample_scoring_world = (Inr (), sample_scoring_world)"
  by (simp add: score_event_def score_read_def coroutine_def fetch_event_def db_fetch_def translated_errors_def try_except_def
      pg_call_def sample_scoring_world_def sample_run_defs find_event_def)

lemma sample_scoring_route:
  "\<exists>w'. scoring_route sample_config sample_scored_message sample_scoring_world = (Inr (), w')
     \<and> pending_ids (w_streams w') EVENT_AGGREGATED SCORING_GROUP = {}"
proof -
  have "w_rs sample_scoring_world = []" by (simp add: sample_scoring_world_def sample_world_def)
  moreover obtain q ss where x: "xack EVENT_AGGREGATED SCORING_GROUP 1 (w_streams sample_scoring_world) = (Inr q, ss)"
    by (simp add: xack_def Let_def sample_scoring_world_def the_group_def the_stream_def)
  moreover have "pending_ids ss EVENT_AGGREGATED SCORING_GROUP = {}"
    using pending_xack [of EVENT_AGGREGATED SCORING_GROUP 1 "w_streams sample_scoring_world", unfolded x]
    by (simp add: sample_scoring_world_def pending_ids_def the_group_def the_stream_def)
  ultimately show ?thesis
    by (simp add: scoring_route_def sample_scored_message_def parse_uuid_str scoring_process_one_def try_except_def
        bind_def sample_unstored ack_def rs_call_def ret_def del: One_nat_def)
qed

lemma scoring_acknowledges_only_witness:
  "1 \<in> pending_ids (w_streams sample_scoring_world) EVENT_AGGREGATED SCORING_GROUP
     \<and> (\<exists>e w1. Option.bind (map_of (msg_fields sample_scored_message) (u ''event_id'')) parse_uuid = Some e
         \<and> score_event sample_config e sample_scoring_world = (Inr (), w1))"
proof -
  obtain w' where w': "scoring_route sample_config sample_scored_message sample_scoring_world = (Inr (), w')"
    "1 \<notin> pending_ids (w_streams w') EVENT_AGGREGATED SCORING_GROUP"
    using sample_scoring_route by auto
  have p: "1 \<in> pending_ids (w_streams sample_scoring_world) EVENT_AGGREGATED SCORING_GROUP"
    by (simp add: sample_scoring_world_def pending_ids_def the_group_def the_stream_def)
  from scoring_acknowledges_only [OF w'(1) p w'(2)] p show ?thesis by blast
qed

end
