(* ===== verification/Py_Regex.thy ===== *)
theory Py_Regex
  imports Py_Prelude
begin

text \<open>
  The part of \<^verbatim>\<open>re\<close> the two services use: a backtracking matcher that gives the ends of the
  matches from a position in the order Python tries them, and \<^verbatim>\<open>search\<close>, \<^verbatim>\<open>fullmatch\<close>, \<^verbatim>\<open>sub\<close>
  and \<^verbatim>\<open>split\<close> on top of it. A pattern of the source is written as one value of \<open>rx\<close>.
\<close>

section \<open>Character classes\<close>

text \<open>\<^verbatim>\<open>\d\<close> of a text pattern matches every Unicode decimal digit (Unicode 15.0).\<close>

definition decimal_zeros :: "nat list" where
  "decimal_zeros = [48, 1632, 1776, 1984, 2406, 2534, 2662, 2790, 2918, 3046, 3174, 3302, 3430, 3558, 3664,
    3792, 3872, 4160, 4240, 6112, 6160, 6470, 6608, 6784, 6800, 6992, 7088, 7232, 7248, 42528, 43216, 43264,
    43472, 43504, 43600, 44016, 65296, 66720, 68912, 69734, 69872, 69942, 70096, 70384, 70736, 70864, 71248,
    71360, 71472, 71904, 72016, 72784, 73040, 73120, 73552, 92768, 92864, 93008, 120782, 120792, 120802,
    120812, 120822, 123200, 123632, 124144, 125264, 130032]"

definition decimal_value :: "nat \<Rightarrow> nat option" where
  "decimal_value c = map_option (\<lambda>z. c - z) (find (\<lambda>z. z \<le> c \<and> c < z + 10) decimal_zeros)"

definition py_isdecimal :: "nat \<Rightarrow> bool" where
  "py_isdecimal c \<longleftrightarrow> decimal_value c \<noteq> None"

lemma py_isdecimal_ascii [simp]: "c < 128 \<Longrightarrow> py_isdecimal c \<longleftrightarrow> is_digit c"
  by (auto simp: py_isdecimal_def decimal_value_def decimal_zeros_def is_digit_def)

lemma decimal_value_digit: "is_digit c \<Longrightarrow> decimal_value c = Some (c - 48)"
  by (simp add: decimal_value_def decimal_zeros_def is_digit_def)

lemma decimal_value_less: "decimal_value c = Some d \<Longrightarrow> d < 10"
  by (auto simp: decimal_value_def find_Some_iff)

text \<open>\<^verbatim>\<open>int(s)\<close> of a matched run of decimal digits.\<close>

definition decimal_int :: "pystr \<Rightarrow> nat" where
  "decimal_int s = foldl (\<lambda>a c. 10 * a + (case decimal_value c of Some d \<Rightarrow> d | None \<Rightarrow> 0)) 0 s"

lemma decimal_int_digits: "list_all is_digit s \<Longrightarrow> decimal_int s = digits_value s"
proof -
  have "list_all is_digit s \<Longrightarrow>
      foldl (\<lambda>a c. 10 * a + (case decimal_value c of Some d \<Rightarrow> d | None \<Rightarrow> 0)) a s
      = foldl (\<lambda>a c. 10 * a + (c - 48)) a s" for a
    by (induction s arbitrary: a) (simp_all add: decimal_value_digit)
  then show "list_all is_digit s \<Longrightarrow> ?thesis" by (simp add: decimal_int_def digits_value_def)
qed

section \<open>Patterns\<close>

datatype rx =
    Sat "nat \<Rightarrow> bool"          \<comment> \<open>one character\<close>
  | Empty
  | Cat rx rx
  | Alt rx rx
  | Rep rx nat "nat option"     \<comment> \<open>greedy \<open>{m,n}\<close>\<close>
  | Ahead rx                    \<comment> \<open>\<open>(?=r)\<close>\<close>
  | NotAhead rx                 \<comment> \<open>\<open>(?!r)\<close>\<close>
  | Behind "nat \<Rightarrow> bool"        \<comment> \<open>\<open>(?<=c)\<close>\<close>
  | NotBehind "nat \<Rightarrow> bool"     \<comment> \<open>\<open>(?<!c)\<close>\<close>
  | AtEnd                       \<comment> \<open>\<open>$\<close> without MULTILINE\<close>
  | Grp nat rx

abbreviation plus_rx :: "rx \<Rightarrow> rx" where "plus_rx r \<equiv> Rep r (Suc 0) None"
abbreviation star_rx :: "rx \<Rightarrow> rx" where "star_rx r \<equiv> Rep r 0 None"
abbreviation opt_rx :: "rx \<Rightarrow> rx" where "opt_rx r \<equiv> Rep r 0 (Some (Suc 0))"

definition chr_rx :: "nat \<Rightarrow> rx" where "chr_rx c = Sat (\<lambda>x. x = c)"

primrec lit_rx :: "pystr \<Rightarrow> rx" where
  "lit_rx [] = Empty"
| "lit_rx (c # cs) = Cat (chr_rx c) (lit_rx cs)"

text \<open>A literal under IGNORECASE: a letter matches both its cases; k and s also match the Kelvin
  sign and the long s, which fold to them.\<close>

definition lower_ascii :: "nat \<Rightarrow> nat" where
  "lower_ascii c = (if 65 \<le> c \<and> c \<le> 90 then c + 32 else c)"

definition upper_ascii :: "nat \<Rightarrow> nat" where
  "upper_ascii c = (if 97 \<le> c \<and> c \<le> 122 then c - 32 else c)"

definition same_letter :: "nat \<Rightarrow> nat \<Rightarrow> bool" where
  "same_letter c x \<longleftrightarrow> lower_ascii x = lower_ascii c
     \<or> lower_ascii c = 107 \<and> x = 8490 \<or> lower_ascii c = 115 \<and> x = 383"

primrec ilit_rx :: "pystr \<Rightarrow> rx" where
  "ilit_rx [] = Empty"
| "ilit_rx (c # cs) = Cat (Sat (same_letter c)) (ilit_rx cs)"

section \<open>Matching\<close>

text \<open>A state is a position and the groups captured so far, the latest capture first.\<close>

type_synonym captures = "(nat \<times> nat \<times> nat) list"
type_synonym mstate = "nat \<times> captures"

primrec times :: "(mstate \<Rightarrow> mstate list) \<Rightarrow> nat \<Rightarrow> mstate \<Rightarrow> mstate list" where
  "times f 0 st = [st]"
| "times f (Suc m) st = concat (map (times f m) (f st))"

text \<open>Up to n more iterations, the longest first; an iteration that matches nothing ends the loop.\<close>

primrec greedy :: "(mstate \<Rightarrow> mstate list) \<Rightarrow> nat \<Rightarrow> mstate \<Rightarrow> mstate list" where
  "greedy f 0 st = [st]"
| "greedy f (Suc n) st = concat (map (greedy f n) (filter (\<lambda>t. fst st < fst t) (f st))) @ [st]"

primrec ends :: "pystr \<Rightarrow> rx \<Rightarrow> mstate \<Rightarrow> mstate list" where
  "ends s (Sat p) = (\<lambda>(i, g). if i < length s \<and> p (s ! i) then [(Suc i, g)] else [])"
| "ends s Empty = (\<lambda>st. [st])"
| "ends s (Cat a b) = (\<lambda>st. concat (map (ends s b) (ends s a st)))"
| "ends s (Alt a b) = (\<lambda>st. ends s a st @ ends s b st)"
| "ends s (Rep a m n) = (\<lambda>st. concat (map
     (\<lambda>t. greedy (ends s a) (case n of None \<Rightarrow> length s - fst t | Some n \<Rightarrow> n - m) t) (times (ends s a) m st)))"
| "ends s (Ahead a) = (\<lambda>st. map (\<lambda>t. (fst st, snd t)) (take 1 (ends s a st)))"
| "ends s (NotAhead a) = (\<lambda>st. if ends s a st = [] then [st] else [])"
| "ends s (Behind p) = (\<lambda>st. if 0 < fst st \<and> p (s ! (fst st - 1)) then [st] else [])"
| "ends s (NotBehind p) = (\<lambda>st. if 0 < fst st \<and> p (s ! (fst st - 1)) then [] else [st])"
| "ends s AtEnd = (\<lambda>st. if fst st = length s \<or> Suc (fst st) = length s \<and> s ! fst st = 10 then [st] else [])"
| "ends s (Grp k a) = (\<lambda>st. map (\<lambda>t. (fst t, (k, fst st, fst t) # snd t)) (ends s a st))"

text \<open>The match Python takes from position i: the first it finds.\<close>

definition match_at :: "rx \<Rightarrow> pystr \<Rightarrow> nat \<Rightarrow> mstate option" where
  "match_at r s i = (case ends s r (i, []) of [] \<Rightarrow> None | t # _ \<Rightarrow> Some t)"

definition rx_search :: "rx \<Rightarrow> pystr \<Rightarrow> (nat \<times> mstate) option" where
  "rx_search r s = (case filter (\<lambda>i. match_at r s i \<noteq> None) [0 ..< Suc (length s)] of
     [] \<Rightarrow> None | i # _ \<Rightarrow> map_option (Pair i) (match_at r s i))"

definition rx_found :: "rx \<Rightarrow> pystr \<Rightarrow> bool" where
  "rx_found r s \<longleftrightarrow> rx_search r s \<noteq> None"

definition rx_fullmatch :: "rx \<Rightarrow> pystr \<Rightarrow> bool" where
  "rx_fullmatch r s \<longleftrightarrow> list_ex (\<lambda>t. fst t = length s) (ends s r (0, []))"

definition slice :: "pystr \<Rightarrow> nat \<Rightarrow> nat \<Rightarrow> pystr" where
  "slice s i j = take (j - i) (drop i s)"

text \<open>\<^verbatim>\<open>match.group(k)\<close> of a group that took part in the match.\<close>

definition rx_group :: "pystr \<Rightarrow> mstate \<Rightarrow> nat \<Rightarrow> pystr option" where
  "rx_group s t k = map_option (\<lambda>(i, j). slice s i j) (map_of (snd t) k)"

text \<open>\<^verbatim>\<open>re.sub\<close> and \<^verbatim>\<open>re.split\<close> for patterns that match no empty text, as all those used with them. The
  fuel is the number of characters left.\<close>

primrec sub_from :: "nat \<Rightarrow> rx \<Rightarrow> pystr \<Rightarrow> pystr \<Rightarrow> nat \<Rightarrow> pystr" where
  "sub_from 0 r new s i = []"
| "sub_from (Suc k) r new s i =
     (if length s \<le> i then []
      else case match_at r s i of
             Some (j, _) \<Rightarrow> if i < j then new @ sub_from k r new s j else s ! i # sub_from k r new s (Suc i)
           | None \<Rightarrow> s ! i # sub_from k r new s (Suc i))"

definition rx_sub :: "rx \<Rightarrow> pystr \<Rightarrow> pystr \<Rightarrow> pystr" where
  "rx_sub r new s = sub_from (length s) r new s 0"

primrec split_from :: "nat \<Rightarrow> rx \<Rightarrow> pystr \<Rightarrow> pystr \<Rightarrow> nat \<Rightarrow> pystr list" where
  "split_from 0 r acc s i = [acc]"
| "split_from (Suc k) r acc s i =
     (if length s \<le> i then [acc]
      else case match_at r s i of
             Some (j, _) \<Rightarrow> if i < j then acc # split_from k r [] s j else split_from k r (acc @ [s ! i]) s (Suc i)
           | None \<Rightarrow> split_from k r (acc @ [s ! i]) s (Suc i))"

definition rx_split :: "rx \<Rightarrow> pystr \<Rightarrow> pystr list" where
  "rx_split r s = split_from (length s) r [] s 0"

section \<open>Positions\<close>

text \<open>A match never moves backwards and never leaves the text.\<close>

definition forward :: "nat \<Rightarrow> (mstate \<Rightarrow> mstate list) \<Rightarrow> bool" where
  "forward n f \<longleftrightarrow> (\<forall>st t. t \<in> set (f st) \<longrightarrow> fst st \<le> n \<longrightarrow> fst st \<le> fst t \<and> fst t \<le> n)"

lemma forwardD: "forward n f \<Longrightarrow> t \<in> set (f st) \<Longrightarrow> fst st \<le> n \<Longrightarrow> fst st \<le> fst t \<and> fst t \<le> n"
  unfolding forward_def by blast

lemma forward_concat:
  "forward n f \<Longrightarrow> forward n g \<Longrightarrow> forward n (\<lambda>st. concat (map g (f st)))"
  unfolding forward_def by (auto; meson order_trans)

lemma forward_times: "forward n f \<Longrightarrow> forward n (times f m)"
proof (induction m)
  case (Suc m)
  from forward_concat [OF Suc.prems Suc.IH [OF Suc.prems]] show ?case by simp
qed (simp add: forward_def)

lemma forward_greedy: "forward n f \<Longrightarrow> forward n (greedy f m)"
proof (induction m)
  case (Suc m)
  have "forward n (\<lambda>st. filter (\<lambda>t. fst st < fst t) (f st))"
    using Suc.prems unfolding forward_def by fastforce
  from forward_concat [OF this Suc.IH [OF Suc.prems]] show ?case by (auto simp: forward_def)
qed (simp add: forward_def)

lemma forward_ends: "forward (length s) (ends s r)"
proof (induction r)
  case (Cat a b)
  from forward_concat [OF this] show ?case by simp
next
  case (Rep a m n)
  have "forward (length s) (\<lambda>t. greedy (ends s a) (case n of None \<Rightarrow> length s - fst t | Some n \<Rightarrow> n - m) t)"
    using forward_greedy [OF Rep.IH] by (simp add: forward_def)
  from forward_concat [OF forward_times [OF Rep.IH] this] show ?case by simp
next
  case (Alt a b)
  then show ?case unfolding forward_def by fastforce
next
  case (Ahead a)
  then show ?case by (auto simp: forward_def)
next
  case (Grp k a)
  then show ?case unfolding forward_def by fastforce
qed (auto simp: forward_def split: if_splits)

lemmas ends_bounds = forwardD [OF forward_ends]

lemma match_at_bounds: "match_at r s i = Some (j, g) \<Longrightarrow> i \<le> length s \<Longrightarrow> i \<le> j \<and> j \<le> length s"
proof -
  assume m: "match_at r s i = Some (j, g)" and i: "i \<le> length s"
  from m have "(j, g) \<in> set (ends s r (i, []))"
    by (auto simp: match_at_def split: list.splits)
  from ends_bounds [OF this] i show ?thesis by simp
qed

lemma match_at_Some_end: "match_at r s (length s) = Some (j, g) \<Longrightarrow> j = length s"
  using match_at_bounds [of r s "length s" j g] by simp

text \<open>Deleting the matches never makes a text longer.\<close>

lemma length_sub_from: "length (sub_from k r [] s i) \<le> length s - i"
proof (induction k arbitrary: i)
  case (Suc k)
  show ?case
  proof (cases "length s \<le> i")
    case False
    have 1: "length (sub_from k r [] s (Suc i)) \<le> length s - Suc i" by (rule Suc.IH)
    have 2: "length (sub_from k r [] s j) \<le> length s - i" if "i < j" for j
      using Suc.IH [of j] that by linarith
    from 1 2 False show ?thesis by (auto split: option.splits)
  qed simp
qed simp

lemma length_rx_sub: "length (rx_sub r [] s) \<le> length s"
  using length_sub_from [of "length s" r s 0] by (simp add: rx_sub_def)

section \<open>Bounded runs and literals\<close>

text \<open>\<open>p{m,n}\<close> ends after every number of characters of the class it may take.\<close>

lemma greedy_Sat_iff:
  "i \<le> length s \<Longrightarrow> t \<in> set (greedy (ends s (Sat p)) n (i, g)) \<longleftrightarrow>
     (\<exists>k \<le> n. i + k \<le> length s \<and> t = (i + k, g) \<and> (\<forall>j < k. p (s ! (i + j))))"
proof (induction n arbitrary: i)
  case (Suc n)
  have ex: "(\<exists>k \<le> Suc n. Q k) \<longleftrightarrow> Q 0 \<or> (\<exists>k \<le> n. Q (Suc k))" for Q
    by (metis Suc_le_mono le0 not0_implies_Suc)
  show ?case
  proof (cases "i < length s \<and> p (s ! i)")
    case True
    with Suc.IH [of "Suc i"] show ?thesis by (auto simp: ex All_less_Suc2)
  next
    case False
    with Suc.prems show ?thesis by (auto simp: ex All_less_Suc2)
  qed
qed auto

lemma times_Sat_iff:
  "i \<le> length s \<Longrightarrow> t \<in> set (times (ends s (Sat p)) m (i, g)) \<longleftrightarrow>
     i + m \<le> length s \<and> t = (i + m, g) \<and> (\<forall>j < m. p (s ! (i + j)))"
proof (induction m arbitrary: i)
  case (Suc m)
  show ?case
  proof (cases "i < length s \<and> p (s ! i)")
    case True
    with Suc.IH [of "Suc i"] show ?thesis by (auto simp: All_less_Suc2)
  qed (auto simp: All_less_Suc2)
qed auto

lemma ends_bounded_run:
  assumes i: "i \<le> length s" and mn: "m \<le> n"
  shows "t \<in> set (ends s (Rep (Sat p) m (Some n)) (i, g)) \<longleftrightarrow>
     (\<exists>k. m \<le> k \<and> k \<le> n \<and> i + k \<le> length s \<and> t = (i + k, g) \<and> (\<forall>j < k. p (s ! (i + j))))"
  (is "_ \<longleftrightarrow> ?R")
proof -
  have "t \<in> set (ends s (Rep (Sat p) m (Some n)) (i, g)) \<longleftrightarrow>
      (\<exists>t'. t' \<in> set (times (ends s (Sat p)) m (i, g)) \<and> t \<in> set (greedy (ends s (Sat p)) (n - m) t'))"
    by (auto simp del: ends.simps(1))
  also have "\<dots> \<longleftrightarrow> (\<exists>k \<le> n - m. i + m + k \<le> length s \<and> t = (i + m + k, g)
      \<and> (\<forall>j < m. p (s ! (i + j))) \<and> (\<forall>j < k. p (s ! (i + m + j))))"
    by (auto simp: times_Sat_iff [OF i] greedy_Sat_iff simp del: ends.simps(1))
  also have "\<dots> \<longleftrightarrow> ?R"
  proof
    assume "\<exists>k \<le> n - m. i + m + k \<le> length s \<and> t = (i + m + k, g)
      \<and> (\<forall>j < m. p (s ! (i + j))) \<and> (\<forall>j < k. p (s ! (i + m + j)))"
    then obtain k where k: "k \<le> n - m" "i + m + k \<le> length s" "t = (i + m + k, g)"
      "\<forall>j < m. p (s ! (i + j))" "\<forall>j < k. p (s ! (i + m + j))" by blast
    have "p (s ! (i + j))" if "j < m + k" for j
      using k(4) k(5) [rule_format, of "j - m"] that by (cases "j < m") auto
    with k mn show ?R by (intro exI [of _ "m + k"]) auto
  next
    assume ?R
    then obtain k where k: "m \<le> k" "k \<le> n" "i + k \<le> length s" "t = (i + k, g)" "\<forall>j < k. p (s ! (i + j))" by blast
    then show "\<exists>k \<le> n - m. i + m + k \<le> length s \<and> t = (i + m + k, g)
      \<and> (\<forall>j < m. p (s ! (i + j))) \<and> (\<forall>j < k. p (s ! (i + m + j)))"
      by (intro exI [of _ "k - m"]) (auto simp: add.assoc)
  qed
  finally show ?thesis .
qed

section \<open>Runs\<close>

text \<open>A run \<open>p+\<close> of a character class takes all the characters of the class there are.\<close>

lemma greedy_run:
  "i + n = length s \<Longrightarrow> hd (greedy (ends s (Sat p)) n (i, g)) = (i + length (takeWhile p (drop i s)), g)"
proof (induction n arbitrary: i)
  case (Suc n)
  then have i: "i < length s" by simp
  have d: "drop i s = s ! i # drop (Suc i) s" using i by (rule Cons_nth_drop_Suc [symmetric])
  have ne: "greedy f m st \<noteq> []" for f m st by (cases m) auto
  show ?case
  proof (cases "p (s ! i)")
    case True
    with Suc.IH [of "Suc i"] Suc.prems i d show ?thesis by (simp add: hd_append ne)
  qed (simp add: i d)
qed simp

lemma greedy_ne [simp]: "greedy f m st \<noteq> []"
  by (cases m) auto

lemma match_run:
  "match_at (plus_rx (Sat p)) s i =
     (if i < length s \<and> p (s ! i) then Some (i + length (takeWhile p (drop i s)), []) else None)"
proof (cases "i < length s \<and> p (s ! i)")
  case True
  then have d: "drop i s = s ! i # drop (Suc i) s" by (simp add: Cons_nth_drop_Suc)
  have "Suc i + (length s - Suc i) = length s" using True by linarith
  from greedy_run [OF this] have "hd (greedy (ends s (Sat p)) (length s - Suc i) (Suc i, []))
      = (Suc i + length (takeWhile p (drop (Suc i) s)), [])" .
  moreover have "ends s (plus_rx (Sat p)) (i, []) = greedy (ends s (Sat p)) (length s - Suc i) (Suc i, [])"
    using True by simp
  moreover obtain t ts where "greedy (ends s (Sat p)) (length s - Suc i) (Suc i, []) = t # ts"
    by (meson greedy_ne list.exhaust)
  ultimately show ?thesis using True d by (simp add: match_at_def)
qed (auto simp: match_at_def)

text \<open>Replacing every run, character by character.\<close>

fun squeeze :: "(nat \<Rightarrow> bool) \<Rightarrow> pystr \<Rightarrow> bool \<Rightarrow> pystr \<Rightarrow> pystr" where
  "squeeze p new inside [] = []"
| "squeeze p new inside (c # cs) =
     (if p c then (if inside then [] else new) @ squeeze p new True cs else c # squeeze p new False cs)"

lemma squeeze_run: "squeeze p new True s = squeeze p new False (dropWhile p s)"
  by (induction s) auto

lemma sub_from_run:
  "length s - i \<le> k \<Longrightarrow> sub_from k (plus_rx (Sat p)) new s i = squeeze p new False (drop i s)"
proof (induction k arbitrary: i)
  case (Suc k)
  show ?case
  proof (cases "length s \<le> i")
    case False
    then have d: "drop i s = s ! i # drop (Suc i) s" by (simp add: Cons_nth_drop_Suc)
    have w: "drop (i + length (takeWhile p (drop i s))) s = dropWhile p (drop i s)"
      by (metis add.commute drop_drop dropWhile_eq_drop)
    from Suc.IH [of "Suc i"] Suc.IH [of "i + length (takeWhile p (drop i s))"] Suc.prems False d w
    show ?thesis by (auto simp: match_run squeeze_run)
  qed simp
qed simp

lemma rx_sub_run: "rx_sub (plus_rx (Sat p)) new s = squeeze p new False s"
  by (simp add: rx_sub_def sub_from_run)

text \<open>Splitting at every run of such characters: what lies between them.\<close>

function between_runs :: "(nat \<Rightarrow> bool) \<Rightarrow> pystr \<Rightarrow> pystr list" where
  "between_runs p s =
     (case dropWhile p s of
        [] \<Rightarrow> []
      | c # cs \<Rightarrow> (c # takeWhile (\<lambda>x. \<not> p x) cs) # between_runs p (dropWhile (\<lambda>x. \<not> p x) cs))"
  by auto
termination
proof (relation "measure (\<lambda>(p, s). length s)")
  fix p :: "nat \<Rightarrow> bool" and s c cs
  assume "dropWhile p s = c # cs"
  then have "Suc (length cs) \<le> length s" by (metis length_Cons length_dropWhile_le)
  moreover have "length (dropWhile (\<lambda>x. \<not> p x) cs) \<le> length cs" by (rule length_dropWhile_le)
  ultimately show "((p, dropWhile (\<lambda>x. \<not> p x) cs), p, s) \<in> measure (\<lambda>(p, s). length s)" by simp
qed simp

declare between_runs.simps [simp del]

lemma between_runs_skip: "between_runs p (dropWhile p s) = between_runs p s"
  by (subst (1 2) between_runs.simps) simp

lemma between_runs_sep: "p c \<Longrightarrow> between_runs p (c # s) = between_runs p s"
  using between_runs_skip [of p "c # s"] between_runs_skip [of p s] by simp

lemma between_runs_word:
  assumes "w \<noteq> []" and "\<forall>c \<in> set w. \<not> p c" and "s = [] \<or> p (hd s)"
  shows "between_runs p (w @ s) = w # between_runs p s"
proof -
  obtain c cs where w: "w = c # cs" using assms(1) by (cases w) auto
  have "takeWhile (\<lambda>x. \<not> p x) (cs @ s) = cs" "dropWhile (\<lambda>x. \<not> p x) (cs @ s) = s"
    using assms(2,3) w by (auto simp: takeWhile_append takeWhile_eq_Nil_iff dropWhile_append dropWhile_eq_self_iff)
  moreover have "dropWhile p (w @ s) = w @ s" using assms(2) w by simp
  ultimately show ?thesis by (subst between_runs.simps) (simp add: w)
qed

lemma between_runs_Nil_iff: "between_runs p s = [] \<longleftrightarrow> (\<forall>c \<in> set s. p c)"
  by (subst between_runs.simps) (auto split: list.splits simp: dropWhile_eq_Nil_conv [symmetric] simp del: dropWhile_eq_Nil_conv)

lemma split_from_run:
  "length s - i \<le> k \<Longrightarrow> \<forall>c \<in> set acc. \<not> p c \<Longrightarrow>
     filter (\<lambda>t. t \<noteq> []) (split_from k (plus_rx (Sat p)) acc s i) = between_runs p (acc @ drop i s)"
proof (induction k arbitrary: acc i)
  case 0
  then have "drop i s = []" by simp
  with 0 between_runs_word [of acc p "[]"] show ?case by (cases "acc = []") (simp_all add: between_runs.simps [of p "[]"])
next
  case (Suc k)
  show ?case
  proof (cases "length s \<le> i")
    case True
    with Suc.prems between_runs_word [of acc p "[]"] show ?thesis
      by (cases "acc = []") (simp_all add: between_runs.simps [of p "[]"])
  next
    case False
    then have d: "drop i s = s ! i # drop (Suc i) s" by (simp add: Cons_nth_drop_Suc)
    show ?thesis
    proof (cases "p (s ! i)")
      case True
      have w: "drop (i + length (takeWhile p (drop i s))) s = dropWhile p (drop i s)"
        by (metis add.commute drop_drop dropWhile_eq_drop)
      have "0 < length (takeWhile p (drop i s))" using True d by simp
      then have "filter (\<lambda>t. t \<noteq> []) (split_from (Suc k) (plus_rx (Sat p)) acc s i)
          = filter (\<lambda>t. t \<noteq> []) [acc] @ filter (\<lambda>t. t \<noteq> []) (split_from k (plus_rx (Sat p)) [] s (i + length (takeWhile p (drop i s))))"
        using False True by (simp add: match_run)
      also have "\<dots> = filter (\<lambda>t. t \<noteq> []) [acc] @ between_runs p (dropWhile p (drop i s))"
      proof -
        have "length s - (i + length (takeWhile p (drop i s))) \<le> k"
          using Suc.prems(1) False \<open>0 < length (takeWhile p (drop i s))\<close> by linarith
        from Suc.IH [OF this, of "[]"] show ?thesis by (simp only: w) simp
      qed
      also have "\<dots> = between_runs p (acc @ drop i s)"
        using between_runs_word [of acc p "drop i s"] Suc.prems(2) True d
        by (cases "acc = []") (simp_all add: between_runs_skip between_runs_sep)
      finally show ?thesis .
    next
      case no: False
      with False have "filter (\<lambda>t. t \<noteq> []) (split_from (Suc k) (plus_rx (Sat p)) acc s i)
          = filter (\<lambda>t. t \<noteq> []) (split_from k (plus_rx (Sat p)) (acc @ [s ! i]) s (Suc i))"
        by (simp add: match_run)
      also have "\<dots> = between_runs p ((acc @ [s ! i]) @ drop (Suc i) s)"
        by (rule Suc.IH) (use Suc.prems no in auto)
      finally show ?thesis by (simp add: d)
    qed
  qed
qed

lemma rx_split_run: "filter (\<lambda>t. t \<noteq> []) (rx_split (plus_rx (Sat p)) s) = between_runs p s"
  by (simp add: rx_split_def split_from_run)

lemma between_runs_trail: "\<forall>c \<in> set b. p c \<Longrightarrow> between_runs p (s @ b) = between_runs p s"
proof (induction p s rule: between_runs.induct)
  case (1 p s)
  show ?case
  proof (cases "dropWhile p s")
    case Nil
    then have "\<forall>c \<in> set s. p c" by (simp add: dropWhile_eq_Nil_conv)
    with 1(2) have "between_runs p (s @ b) = []" "between_runs p s = []" by (auto simp: between_runs_Nil_iff)
    then show ?thesis by simp
  next
    case (Cons c cs)
    have b: "takeWhile (\<lambda>x. \<not> p x) b = []" "dropWhile (\<lambda>x. \<not> p x) b = b" using 1(2) by (cases b; simp)+
    have "dropWhile p (s @ b) = c # (cs @ b)"
      using Cons by (metis append_Cons dropWhile_append dropWhile_eq_Nil_conv list.distinct(1) append_Nil)
    then have "between_runs p (s @ b) = (c # takeWhile (\<lambda>x. \<not> p x) (cs @ b)) # between_runs p (dropWhile (\<lambda>x. \<not> p x) (cs @ b))"
      by (subst between_runs.simps) simp
    moreover have "takeWhile (\<lambda>x. \<not> p x) (cs @ b) = takeWhile (\<lambda>x. \<not> p x) cs"
      using b(1) by (induction cs) simp_all
    moreover have "between_runs p (dropWhile (\<lambda>x. \<not> p x) (cs @ b)) = between_runs p (dropWhile (\<lambda>x. \<not> p x) cs)"
    proof (cases "dropWhile (\<lambda>x. \<not> p x) cs = []")
      case True
      then have "dropWhile (\<lambda>x. \<not> p x) (cs @ b) = b" using b(2) by (simp add: dropWhile_append dropWhile_eq_Nil_conv [symmetric] del: dropWhile_eq_Nil_conv)
      moreover have "between_runs p b = []" "between_runs p [] = []" using 1(2) by (simp_all add: between_runs_Nil_iff)
      ultimately show ?thesis by (simp only: True)
    next
      case False
      then have "dropWhile (\<lambda>x. \<not> p x) (cs @ b) = dropWhile (\<lambda>x. \<not> p x) cs @ b"
        by (auto simp: dropWhile_append dropWhile_eq_Nil_conv)
      with 1(1) [OF Cons 1(2)] show ?thesis by simp
    qed
    moreover have "between_runs p s = (c # takeWhile (\<lambda>x. \<not> p x) cs) # between_runs p (dropWhile (\<lambda>x. \<not> p x) cs)"
      by (subst between_runs.simps) (simp add: Cons)
    ultimately show ?thesis by simp
  qed
qed

lemma between_runs_strip:
  assumes "\<And>c. py_isspace c \<Longrightarrow> p c"
  shows "between_runs p (py_strip s) = between_runs p s"
proof -
  define t where "t = dropWhile py_isspace s"
  have lead: "between_runs p (a @ x) = between_runs p x" if "\<forall>c \<in> set a. p c" for a x
    using that by (induction a) (simp_all add: between_runs_sep)
  have "s = takeWhile py_isspace s @ t" by (simp add: t_def)
  moreover have "\<forall>c \<in> set (takeWhile py_isspace s). p c" using assms by (auto dest: set_takeWhileD)
  ultimately have s: "between_runs p s = between_runs p t" using lead by metis
  have "t = py_strip s @ rev (takeWhile py_isspace (rev t))"
    by (simp add: py_strip_def t_def [symmetric] flip: rev_append)
  moreover have "\<forall>c \<in> set (rev (takeWhile py_isspace (rev t))). p c" using assms by (auto dest: set_takeWhileD)
  ultimately have "between_runs p t = between_runs p (py_strip s)" using between_runs_trail by metis
  with s show ?thesis by simp
qed

end
