(* ===== verification/Sapi_Stock_Names.thy ===== *)
theory Sapi_Stock_Names
  imports Sapi_Models Sapi_Config Py_Regex "HOL-Library.List_Lexorder"
begin

text \<open>
  \<^verbatim>\<open>app/common/hk_stock_list.py\<close>, the matching half: normalization of company names, their
  variants, the name index, the scores of a match and the search by name. The Chinese converter
  (opencc) is a parameter, as is the part of Unicode's case folding outside ASCII.
\<close>

record text_lib =
  tl_t2s :: "pystr \<Rightarrow> pystr"     \<comment> \<open>\<^verbatim>\<open>opencc.OpenCC("t2s").convert\<close>\<close>
  tl_fold :: "nat \<Rightarrow> pystr"        \<comment> \<open>\<^verbatim>\<open>str.casefold\<close> of a character outside ASCII\<close>

definition casefold :: "text_lib \<Rightarrow> pystr \<Rightarrow> pystr" where
  "casefold L s = concat (map (\<lambda>c. if c < 128 then [lower_ascii c] else tl_fold L c) s)"

section \<open>Constants\<close>

definition COUNTER_MARKER_RE :: rx where
  "COUNTER_MARKER_RE =
     Cat (Sat (\<lambda>c. c = 65293 \<or> c = 45))
    (Cat (Rep (Sat (\<lambda>c. (65 \<le> c \<and> c \<le> 90) \<or> (65313 \<le> c \<and> c \<le> 65338))) 1 (Some 3)) AtEnd)"

definition FULLWIDTH :: "nat \<Rightarrow> nat" where
  "FULLWIDTH c = (if 65281 \<le> c \<and> c < 65375 then c - 65248 else c)"

definition latin_char :: "nat \<Rightarrow> bool" where
  "latin_char c \<longleftrightarrow> (97 \<le> c \<and> c \<le> 122) \<or> (48 \<le> c \<and> c \<le> 57)"

definition SPACE_BETWEEN_LATIN_RE :: rx where
  "SPACE_BETWEEN_LATIN_RE = Cat (Behind latin_char) (Cat (plus_rx (Sat py_isspace)) (Ahead (Sat latin_char)))"

definition EN_WORD_SPLIT_RE :: rx where
  "EN_WORD_SPLIT_RE = plus_rx (Sat (\<lambda>c. py_isspace c \<or> c = 46 \<or> c = 44))"

definition ZH_LEGAL_SUFFIX_RE :: rx where
  "ZH_LEGAL_SUFFIX_RE =
     Alt (Cat (opt_rx (lit_rx [32929, 20221])) (Cat (lit_rx [26377, 38480, 20844, 21496]) AtEnd))
         (Cat (lit_rx [20844, 21496]) AtEnd)"

definition ZH_GENERIC_TAIL_RE :: rx where
  "ZH_GENERIC_TAIL_RE =
     Cat (plus_rx (Alt (lit_rx [25511, 32929]) (lit_rx [32929, 20221]))) AtEnd"

definition EN_LEGAL_WORDS :: "pystr list" where
  "EN_LEGAL_WORDS = map u [''limited'', ''ltd'', ''co'', ''company'', ''corporation'', ''corp'', ''inc'',
     ''plc'', ''llc'', ''the'']"

definition EN_GENERIC_WORDS :: "pystr list" where
  "EN_GENERIC_WORDS = map u [''holdings'', ''holding'', ''hldg'', ''hldgs'', ''group'', ''gp'',
     ''international'', ''intl'', ''int'' @ [CHR 0x27] @ ''l'', ''and'', ''&'']"

definition LATIN_PREFIX_LEN :: nat where "LATIN_PREFIX_LEN = 3"
definition CJK_MIN_QUERY_LEN :: nat where "CJK_MIN_QUERY_LEN = 2"
definition NAME_IN_QUERY_MIN_RATIO :: pyfloat where "NAME_IN_QUERY_MIN_RATIO = fl (6/10)"

section \<open>Normalization\<close>

text \<open>A space between two Latin words becomes a NUL, every other space goes, and the NULs become
  spaces again.\<close>

definition normalize_name :: "text_lib \<Rightarrow> pystr \<Rightarrow> pystr" where
  "normalize_name L text =
     (let t = casefold L (tl_t2s L (map FULLWIDTH (rx_sub COUNTER_MARKER_RE [] text)));
          t = py_strip (rx_sub (plus_rx (Sat py_isspace)) [32] t)
      in map (\<lambda>c. if c = 0 then 32 else c)
           (filter (\<lambda>c. c \<noteq> 32) (rx_sub SPACE_BETWEEN_LATIN_RE [0] t)))"

definition name_variants :: "text_lib \<Rightarrow> pystr \<Rightarrow> pystr list" where
  "name_variants L raw =
     (let full = normalize_name L raw;
          legal = (if py_isascii full
                   then py_join [32] (filter (\<lambda>t. t \<noteq> [] \<and> t \<notin> set EN_LEGAL_WORDS) (rx_split EN_WORD_SPLIT_RE full))
                   else rx_sub ZH_LEGAL_SUFFIX_RE [] full);
          generic = (if py_isascii full
                     then py_join [32] (filter (\<lambda>t. t \<notin> set EN_GENERIC_WORDS) (py_words legal))
                     else rx_sub ZH_GENERIC_TAIL_RE [] legal)
      in py_fromkeys (filter (\<lambda>v. v \<noteq> []) [full, legal, generic]))"

section \<open>The name index\<close>

record name_entry =
  ne_stock_code :: pystr
  ne_variants :: "pystr list"
  ne_latin :: bool

record stock_name_index =
  ni_names :: "name_entry list"
  ni_names_by_code :: "(pystr \<times> name_entry list) list"
  ni_names_by_latin_prefix :: "(pystr \<times> name_entry list) list"

type_synonym stock_entries = "(pystr \<times> stock) list"

text \<open>\<^verbatim>\<open>d.setdefault(k, []).append(x)\<close>, and \<^verbatim>\<open>d.get(k, [])\<close>.\<close>

definition al_list :: "('k \<times> 'v list) list \<Rightarrow> 'k \<Rightarrow> 'v list" where
  "al_list d k = (case map_of d k of None \<Rightarrow> [] | Some xs \<Rightarrow> xs)"

definition al_append :: "'k \<Rightarrow> 'v \<Rightarrow> ('k \<times> 'v list) list \<Rightarrow> ('k \<times> 'v list) list" where
  "al_append k x d = al_put k (al_list d k @ [x]) d"

definition latin_prefixes :: "pystr list \<Rightarrow> pystr list" where
  "latin_prefixes variants =
     py_fromkeys (map (take LATIN_PREFIX_LEN)
       (filter (\<lambda>w. LATIN_PREFIX_LEN \<le> length w) (concat (map py_words variants))))"

definition index_name :: "text_lib \<Rightarrow> pystr \<Rightarrow> pystr \<Rightarrow> stock_name_index \<Rightarrow> stock_name_index" where
  "index_name L code raw idx =
     (case name_variants L raw of
        [] \<Rightarrow> idx
      | v # vs \<Rightarrow>
          let entry = \<lparr> ne_stock_code = code, ne_variants = v # vs, ne_latin = py_isascii v \<rparr>
          in \<lparr> ni_names = ni_names idx @ [entry],
               ni_names_by_code = al_append code entry (ni_names_by_code idx),
               ni_names_by_latin_prefix =
                 (if ne_latin entry
                  then fold (\<lambda>p. al_append p entry) (latin_prefixes (v # vs)) (ni_names_by_latin_prefix idx)
                  else ni_names_by_latin_prefix idx) \<rparr>)"

definition index_stock :: "text_lib \<Rightarrow> pystr \<times> stock \<Rightarrow> stock_name_index \<Rightarrow> stock_name_index" where
  "index_stock L cs =
     fold (index_name L (fst cs)) (py_fromkeys [st_company_name_zh (snd cs), st_company_name_en (snd cs)])"

definition build_name_index :: "text_lib \<Rightarrow> stock_entries \<Rightarrow> stock_name_index" where
  "build_name_index L entries =
     fold (index_stock L) entries
       \<lparr> ni_names = [], ni_names_by_code = [], ni_names_by_latin_prefix = [] \<rparr>"

section \<open>Subsequences\<close>

text \<open>\<^verbatim>\<open>ch in chars\<close> on an iterator takes what comes up to the first ch.\<close>

fun take_through :: "nat \<Rightarrow> pystr \<Rightarrow> pystr option" where
  "take_through ch [] = None"
| "take_through ch (c # cs) = (if c = ch then Some cs else take_through ch cs)"

fun is_subsequence :: "pystr \<Rightarrow> pystr \<Rightarrow> bool" where
  "is_subsequence [] chars = True"
| "is_subsequence (ch # short) chars =
     (case take_through ch chars of None \<Rightarrow> False | Some rest \<Rightarrow> is_subsequence short rest)"

text \<open>The two loops of \<^verbatim>\<open>_subsequence_span\<close>: forwards to the end of the earliest-ending match, then
  backwards from there, with j and k one more than the source's. Both callers pass a short of two
  characters or more.\<close>

fun span_end :: "pystr \<Rightarrow> nat \<Rightarrow> nat \<Rightarrow> pystr \<Rightarrow> nat option" where
  "span_end short i pos [] = None"
| "span_end short i pos (ch # rest) =
     (if ch = short ! i
      then if Suc i = length short then Some (Suc pos) else span_end short (Suc i) (Suc pos) rest
      else span_end short i (Suc pos) rest)"

fun span_start :: "pystr \<Rightarrow> pystr \<Rightarrow> nat \<Rightarrow> nat \<Rightarrow> nat" where
  "span_start short long j 0 = 0"
| "span_start short long j (Suc k) =
     (if j = 0 then Suc k
      else span_start short long (if long ! k = short ! (j - 1) then j - 1 else j) k)"

definition subsequence_span :: "pystr \<Rightarrow> pystr \<Rightarrow> (nat \<times> nat) option" where
  "subsequence_span short long =
     (case span_end short 0 0 long of
        None \<Rightarrow> None
      | Some e \<Rightarrow> Some (span_start short long (length short) e, e))"

section \<open>Scores\<close>

definition latin_word_hits :: "pystr list \<Rightarrow> pystr list \<Rightarrow> nat" where
  "latin_word_hits words others =
     length (filter (\<lambda>w. list_ex (\<lambda>x. x = w \<or> LATIN_PREFIX_LEN \<le> length w \<and> py_startswith x w) others) words)"

text \<open>\<^verbatim>\<open>a / b\<close> of two lengths.\<close>

definition len_div :: "nat \<Rightarrow> nat \<Rightarrow> pyfloat res" where
  "len_div a b = (if b = 0 then Inl (Py ZeroDivisionError) else Inr (fl (of_nat a / of_nat b)))"

type_synonym match_score = "pyfloat list"

definition score_latin :: "pystr \<Rightarrow> pystr \<Rightarrow> match_score option res" where
  "score_latin q n =
     (let qw = py_words q; nw = py_words n; name_hits = latin_word_hits nw qw
      in if name_hits = length nw \<and> LATIN_PREFIX_LEN \<le> sum_list (map length nw)
         then rbind (len_div name_hits (length qw)) (\<lambda>x. Inr (Some [4, x, of_nat (length nw)]))
         else let query_hits = latin_word_hits qw nw
              in if query_hits = length qw
                 then rbind (len_div query_hits (length nw)) (\<lambda>x. Inr (Some [3, x, - of_nat (length n)]))
                 else Inr None)"

definition score_cjk :: "pystr \<Rightarrow> pystr \<Rightarrow> match_score option res" where
  "score_cjk q n =
     (if length q < CJK_MIN_QUERY_LEN then Inr None
      else if \<not> (set q \<subseteq> set n \<or> set n \<subseteq> set q) then Inr None
      else case (if length q \<le> length n then subsequence_span q n else None) of
             Some (s, e) \<Rightarrow>
               rbind (len_div (length q) (e - s)) (\<lambda>x.
               rbind (len_div (length q) (length n)) (\<lambda>y.
               Inr (Some [5, x, (if s = 0 then 1 else 0), y, - of_nat (length n)])))
           | None \<Rightarrow>
               if 3 \<le> length n \<and> length n < length q \<and> subsequence_span n q \<noteq> None
               then rbind (len_div (length n) (length q)) (\<lambda>x. Inr (Some [4, x, of_nat (length n)]))
               else Inr None)"

definition name_score :: "pystr \<Rightarrow> pystr \<Rightarrow> match_score option res" where
  "name_score q n =
     (if py_isascii q \<noteq> py_isascii n then Inr None
      else if py_isascii q then score_latin q n else score_cjk q n)"

section \<open>The search\<close>

definition scoring_pool :: "stock_name_index \<Rightarrow> pystr list \<Rightarrow> name_entry list" where
  "scoring_pool idx variants =
     (case variants of
        [] \<Rightarrow> []
      | v # _ \<Rightarrow>
          if py_isascii v
          then py_fromkeys (concat (map (\<lambda>w. al_list (ni_names_by_latin_prefix idx) (take LATIN_PREFIX_LEN w))
                 (filter (\<lambda>w. LATIN_PREFIX_LEN \<le> length w) (concat (map py_words variants)))))
          else filter (\<lambda>e. \<not> ne_latin e) (ni_names idx))"

text \<open>The scores of one name against the query, in order.\<close>

definition entry_scores :: "pystr list \<Rightarrow> name_entry \<Rightarrow> match_score list res" where
  "entry_scores variants e =
     rbind (rmap_list (\<lambda>(q, n). name_score q n) (List.product variants (ne_variants e))) (\<lambda>xs.
     Inr (List.map_filter id xs))"

definition best_step ::
  "pystr list \<Rightarrow> name_entry \<Rightarrow> (match_score option \<times> pystr list) res \<Rightarrow> (match_score option \<times> pystr list) res" where
  "best_step variants e acc =
     rbind acc (\<lambda>(best, codes).
     rbind (entry_scores variants e) (\<lambda>scores.
     case scores of
       [] \<Rightarrow> Inr (best, codes)
     | x # xs \<Rightarrow>
         let score = fold max xs x
         in Inr (case best of
                   None \<Rightarrow> (Some score, [ne_stock_code e])
                 | Some b \<Rightarrow>
                     if b < score then (Some score, [ne_stock_code e])
                     else if score = b then (best, List.insert (ne_stock_code e) codes)
                     else (best, codes))))"

definition best_scoring_codes :: "name_entry list \<Rightarrow> pystr list \<Rightarrow> pystr list res" where
  "best_scoring_codes pool variants =
     rbind (fold (best_step variants) pool (Inr (None, []))) (\<lambda>(best, codes). Inr codes)"

definition exact_codes :: "stock_name_index \<Rightarrow> pystr list \<Rightarrow> pystr list" where
  "exact_codes idx variants =
     py_fromkeys (map ne_stock_code
       (filter (\<lambda>e. list_ex (\<lambda>v. v \<in> set variants) (ne_variants e)) (ni_names idx)))"

definition search :: "text_lib \<Rightarrow> stock_name_index \<Rightarrow> pystr \<Rightarrow> pystr option res" where
  "search L idx name =
     (let variants = name_variants L name; exact = exact_codes idx variants
      in rbind (if exact \<noteq> [] then Inr exact else best_scoring_codes (scoring_pool idx variants) variants) (\<lambda>codes.
         Inr (case codes of [code] \<Rightarrow> Some code | _ \<Rightarrow> None)))"

section \<open>The cache\<close>

record hk_stock_list_cache =
  hc_entries :: stock_entries
  hc_name_index :: stock_name_index

definition make_cache :: "text_lib \<Rightarrow> stock_entries \<Rightarrow> hk_stock_list_cache" where
  "make_cache L entries = \<lparr> hc_entries = entries, hc_name_index = build_name_index L entries \<rparr>"

definition reload :: "text_lib \<Rightarrow> stock_entries \<Rightarrow> hk_stock_list_cache \<Rightarrow> hk_stock_list_cache" where
  "reload L entries c = c\<lparr> hc_entries := entries, hc_name_index := build_name_index L entries \<rparr>"

definition get_hk_stock_list_cache :: "hk_stock_list_cache option \<Rightarrow> hk_stock_list_cache res" where
  "get_hk_stock_list_cache c =
     (case c of None \<Rightarrow> Inl (Sapi (sapi_err ServiceUnavailableError STOCK_LIST)) | Some x \<Rightarrow> Inr x)"

definition lookup_stock :: "text_lib \<Rightarrow> hk_stock_list_cache option \<Rightarrow> pystr \<Rightarrow> stock option res" where
  "lookup_stock L cache name =
     rbind (get_hk_stock_list_cache cache) (\<lambda>c.
     rbind (search L (hc_name_index c) name) (\<lambda>code.
     case code of
       None \<Rightarrow> Inr None
     | Some code \<Rightarrow>
         (if code = [] then Inr None
          else (case map_of (hc_entries c) code of
                  None \<Rightarrow> Inl (Py KeyError) | Some s \<Rightarrow> Inr (Some s)))))"

definition name_matches_stock :: "text_lib \<Rightarrow> hk_stock_list_cache option \<Rightarrow> pystr \<Rightarrow> stock \<Rightarrow> bool res" where
  "name_matches_stock L cache name s =
     rbind (get_hk_stock_list_cache cache) (\<lambda>c.
     Inr (list_ex (\<lambda>q. list_ex (\<lambda>entry. list_ex (\<lambda>n.
            is_subsequence q n
            \<or> fmul NAME_IN_QUERY_MIN_RATIO (of_nat (length q)) \<le> of_nat (length n) \<and> is_subsequence n q)
          (ne_variants entry)) (al_list (ni_names_by_code (hc_name_index c)) (st_stock_code s)))
        (name_variants L name)))"

end
