(* ===== verification/Sapi_Stock_Names_Props.thy ===== *)
theory Sapi_Stock_Names_Props
  imports Sapi_Stock_Names
begin

text \<open>
  The name matching: a name's variants get shorter, the subsequence loops find what they look for
  and never leave the text, the search finds only listed stocks and decides exact matches and best
  scores as documented, and the prefix index gives exactly the names worth scoring.
\<close>

section \<open>Variants\<close>

lemma length_py_join: "length (py_join [c] ws) = sum_list (map length ws) + (length ws - 1)"
  by (induction "[c]" ws rule: py_join.induct) auto

lemma split_from_length:
  "sum_list (map length (split_from k r acc s i)) + length (split_from k r acc s i)
     \<le> Suc (length acc + (length s - i))"
proof (induction k arbitrary: acc i)
  case (Suc k)
  show ?case
  proof (cases "length s \<le> i")
    case False
    have 1: "sum_list (map length (split_from k r (acc @ [s ! i]) s (Suc i)))
        + length (split_from k r (acc @ [s ! i]) s (Suc i)) \<le> Suc (length acc + (length s - i))"
      using Suc.IH [of "acc @ [s ! i]" "Suc i"] False by simp
    have 2: "sum_list (map length (split_from k r [] s j)) + length (split_from k r [] s j) + length acc
        \<le> length acc + (length s - i)" if "i < j" "j \<le> length s" for j
      using Suc.IH [of "[]" j] that by simp
    show ?thesis
    proof (cases "match_at r s i")
      case (Some t)
      then obtain j g where t: "match_at r s i = Some (j, g)" by (cases t) simp
      with match_at_bounds [OF t] False have "j \<le> length s" by simp
      with 1 2 [of j] t False show ?thesis by (auto simp: algebra_simps)
    qed (use 1 False in simp)
  qed simp
qed simp

lemma py_words_aux_length:
  "sum_list (map length (py_words_aux acc s)) + length (py_words_aux acc s) \<le> Suc (length acc + length s)"
  by (induction acc s rule: py_words_aux.induct) (auto split: if_splits)

lemma filter_length_sum:
  "sum_list (map length (filter P ws)) + length (filter P ws) \<le> sum_list (map length ws) + length ws"
  by (induction ws) auto

lemma join_filter_length:
  "sum_list (map length ws) + length ws \<le> Suc n \<Longrightarrow> length (py_join [c] (filter P ws)) \<le> n"
  using filter_length_sum [of P ws] by (cases "filter P ws") (simp_all add: length_py_join)

lemma legal_length: "length (py_join [32] (filter P (rx_split r s))) \<le> length s"
  using split_from_length [of "length s" r "[]" s 0] by (intro join_filter_length) (simp add: rx_split_def)

lemma generic_length: "length (py_join [32] (filter P (py_words s))) \<le> length s"
  using py_words_aux_length [of "[]" s] by (intro join_filter_length) (simp add: py_words_def)

lemma sorted_py_fromkeys: "sorted_wrt P xs \<Longrightarrow> sorted_wrt P (py_fromkeys xs)"
  by (induction xs) (auto intro: sorted_wrt_filter)

text \<open>The variants of a name are distinct and not empty, and each is at most as long as the ones
  before it, as the index and the search rely on.\<close>

theorem variants_longest_first:
  "distinct (name_variants L raw) \<and> [] \<notin> set (name_variants L raw)
    \<and> sorted_wrt (\<lambda>v v'. length v' \<le> length v) (name_variants L raw)"
proof -
  obtain full legal generic where v: "name_variants L raw = py_fromkeys (filter (\<lambda>v. v \<noteq> []) [full, legal, generic])"
    and l: "length legal \<le> length full" "length generic \<le> length legal"
    by (cases "py_isascii (normalize_name L raw)")
      (auto simp: name_variants_def Let_def legal_length generic_length length_rx_sub)
  have "sorted_wrt (\<lambda>v v'. length v' \<le> length v) [full, legal, generic]" using l by simp
  from sorted_py_fromkeys [OF sorted_wrt_filter [OF this]] show ?thesis by (simp only: v) auto
qed

section \<open>Subsequences\<close>

lemma is_subsequence_subseq: "is_subsequence xs ys \<longleftrightarrow> subseq xs ys"
proof (induction ys arbitrary: xs)
  case Nil
  show ?case by (cases xs) simp_all
next
  case (Cons y ys)
  show ?case
  proof (cases xs)
    case (Cons x xs')
    have "is_subsequence (x # xs') (y # ys) = (if y = x then is_subsequence xs' ys else is_subsequence (x # xs') ys)"
      by simp
    with Cons.IH Cons show ?thesis by auto
  qed simp
qed

text \<open>\<open>earliest xs long m\<close>: m is the end of the earliest-ending match of xs in long.\<close>

definition earliest :: "pystr \<Rightarrow> pystr \<Rightarrow> nat \<Rightarrow> bool" where
  "earliest xs long m \<longleftrightarrow> m \<le> length long \<and> subseq xs (take m long) \<and> (\<forall>m' < m. \<not> subseq xs (take m' long))"

lemma earliest_Cons:
  "earliest (x # xs) (y # long) (Suc m) \<longleftrightarrow> earliest (if x = y then xs else x # xs) long m"
  by (simp add: earliest_def All_less_Suc2)

lemma span_end_spec:
  "i < length short \<Longrightarrow>
    (case span_end short i pos long of
       None \<Rightarrow> \<not> subseq (drop i short) long
     | Some e \<Rightarrow> pos < e \<and> earliest (drop i short) long (e - pos))"
proof (induction short i pos long rule: span_end.induct)
  case (1 short i pos)
  then show ?case by simp
next
  case (2 short i pos ch rest)
  have d: "drop i short = short ! i # drop (Suc i) short" using "2.prems" by (simp add: Cons_nth_drop_Suc)
  have e: "earliest (drop i short) (ch # rest) (e - pos)
      \<longleftrightarrow> earliest (if short ! i = ch then drop (Suc i) short else drop i short) rest (e - Suc pos)"
    if "pos < e" for e
    using that earliest_Cons [of "short ! i" "drop (Suc i) short" ch rest "e - Suc pos"] d
    by (simp add: Suc_diff_Suc)
  show ?case
  proof (cases "ch = short ! i")
    case True
    show ?thesis
    proof (cases "Suc i = length short")
      case last: True
      have "earliest [] rest 0" by (simp add: earliest_def)
      with True last e [of "Suc pos"] show ?thesis by simp
    next
      case False
      with "2.prems" have "Suc i < length short" by simp
      from "2.IH"(1) [OF True False this] True False d e show ?thesis by (auto split: option.splits)
    qed
  next
    case False
    from "2.IH"(2) [OF False "2.prems"] False d e show ?thesis by (auto split: option.splits)
  qed
qed

lemma subseq_snoc: "subseq (xs @ [x]) (ys @ [y]) \<longleftrightarrow> (if x = y then subseq xs ys else subseq (xs @ [x]) ys)"
proof (cases "x = y")
  case False
  have one: "subseq zs [y] \<longleftrightarrow> zs = [] \<or> zs = [y]" for zs by (cases zs) auto
  have "subseq (xs @ [x]) (ys @ [y]) \<longleftrightarrow> (\<exists>a b. xs @ [x] = a @ b \<and> subseq a ys \<and> (b = [] \<or> b = [y]))"
    by (simp add: subseq_append_iff one)
  with False show ?thesis by auto
qed simp

lemma span_start_spec:
  "j \<le> length short \<Longrightarrow> k \<le> length long \<Longrightarrow> subseq (take j short) (take k long) \<Longrightarrow>
    span_start short long j k \<le> k
    \<and> subseq (take j short) (drop (span_start short long j k) (take k long))
    \<and> (\<forall>s'. span_start short long j k < s' \<longrightarrow> s' \<le> k \<longrightarrow> \<not> subseq (take j short) (drop s' (take k long)))"
proof (induction short long j k rule: span_start.induct)
  case (1 short long j)
  then show ?case by simp
next
  case (2 short long j k)
  show ?case
  proof (cases j)
    case 0
    then show ?thesis by simp
  next
    case (Suc j')
    define j2 where "j2 = (if long ! k = short ! (j - 1) then j - 1 else j)"
    have t: "take (Suc k) long = take k long @ [long ! k]" "take j short = take j' short @ [short ! j']"
      using "2.prems" Suc by (simp_all add: take_Suc_conv_app_nth)
    have step: "subseq (take j short) (drop s (take (Suc k) long)) \<longleftrightarrow> subseq (take j2 short) (drop s (take k long))"
      if "s \<le> k" for s
    proof -
      have "drop s (take (Suc k) long) = drop s (take k long) @ [long ! k]" using that "2.prems"(2) by (simp add: t(1))
      moreover have "take j2 short = (if long ! k = short ! j' then take j' short else take j' short @ [short ! j'])"
        using Suc t(2) by (simp add: j2_def)
      ultimately show ?thesis by (simp only: t(2) subseq_snoc) auto
    qed
    have "subseq (take j2 short) (take k long)" using step [of 0] "2.prems"(3) by simp
    moreover have "j2 \<le> length short" using "2.prems"(1) unfolding j2_def by auto
    ultimately have IH: "span_start short long j2 k \<le> k"
      "subseq (take j2 short) (drop (span_start short long j2 k) (take k long))"
      "\<And>s'. span_start short long j2 k < s' \<Longrightarrow> s' \<le> k \<Longrightarrow> \<not> subseq (take j2 short) (drop s' (take k long))"
      using "2.IH" [folded j2_def] Suc "2.prems" by auto
    have e: "span_start short long j (Suc k) = span_start short long j2 k" using Suc by (simp add: j2_def)
    have "\<not> subseq (take j short) (drop s' (take (Suc k) long))"
      if "span_start short long j2 k < s'" "s' \<le> Suc k" for s'
    proof (cases "s' = Suc k")
      case True
      then show ?thesis using t(2) by simp
    next
      case False
      with that step [of s'] IH(3) show ?thesis by simp
    qed
    with IH step show ?thesis unfolding e by simp
  qed
qed

text \<open>C34: The tightest span is what the documentation says: it is found exactly when short is a
  subsequence of long, it lies within long, it ends where the earliest-ending match ends, it holds
  short, and it cannot start later. In particular the backward loop never runs out of text.\<close>

theorem subsequence_span_tightest:
  assumes "short \<noteq> []"
  shows "case subsequence_span short long of
      None \<Rightarrow> \<not> subseq short long
    | Some (s, e) \<Rightarrow> s < e \<and> e \<le> length long \<and> subseq short (slice long s e)
        \<and> (\<forall>e' < e. \<not> subseq short (take e' long))
        \<and> (\<forall>s' > s. \<not> subseq short (slice long s' e))"
proof (cases "span_end short 0 0 long")
  case None
  with span_end_spec [where i = 0 and pos = 0 and short = short and long = long] assms show ?thesis by (simp add: subsequence_span_def)
next
  case (Some e)
  define s where "s = span_start short long (length short) e"
  have e: "earliest short long e" using span_end_spec [where i = 0 and pos = 0 and short = short and long = long] assms Some by simp
  then have b: "s \<le> e" "subseq short (drop s (take e long))"
    "\<And>s'. s < s' \<Longrightarrow> s' \<le> e \<Longrightarrow> \<not> subseq short (drop s' (take e long))"
    using span_start_spec [where j = "length short" and short = short and k = e and long = long] by (auto simp: earliest_def s_def)
  have sl: "slice long a e = drop a (take e long)" for a by (simp add: slice_def drop_take)
  have "\<not> subseq short (drop s' (take e long))" if "s < s'" for s'
    using b(3) [OF that] e assms by (cases "s' \<le> e") (auto simp: earliest_def)
  moreover have "s \<noteq> e" using b(2) assms e by (auto simp: earliest_def)
  ultimately show ?thesis using b e Some by (simp add: subsequence_span_def s_def [symmetric] sl earliest_def)
qed

lemma subsequence_span_tightest_witness:
  "subsequence_span [1, 2] [1, 1, 3, 2, 2] = Some (1, 4) \<and> \<not> subseq [1, 2] (slice [1, 1, 3, 2, 2] 2 (4 :: nat))"
proof -
  have "subsequence_span [1, 2] [1, 1, 3, 2, 2] = Some (1, 4)" by code_simp
  with subsequence_span_tightest [of "[1, 2]" "[1, 1, 3, 2, 2]"] show ?thesis by simp
qed

section \<open>The name index\<close>

definition entry_of :: "text_lib \<Rightarrow> pystr \<Rightarrow> pystr \<Rightarrow> name_entry" where
  "entry_of L code raw = \<lparr> ne_stock_code = code, ne_variants = name_variants L raw,
     ne_latin = py_isascii (hd (name_variants L raw)) \<rparr>"

lemma entry_of_simps [simp]:
  "ne_stock_code (entry_of L code raw) = code" "ne_variants (entry_of L code raw) = name_variants L raw"
  "ne_latin (entry_of L code raw) = py_isascii (hd (name_variants L raw))"
  by (simp_all add: entry_of_def)

lemma al_list_append: "al_list (al_append k x d) k' = al_list d k' @ (if k' = k then [x] else [])"
  by (simp add: al_list_def al_append_def)

lemma al_list_fold:
  "distinct ps \<Longrightarrow> al_list (fold (\<lambda>p. al_append p e) ps d) p = al_list d p @ (if p \<in> set ps then [e] else [])"
  by (induction ps arbitrary: d) (auto simp: al_list_append)

text \<open>Both groupings hold exactly the names of their key, in list order.\<close>

definition index_ok :: "stock_name_index \<Rightarrow> bool" where
  "index_ok idx \<longleftrightarrow>
     (\<forall>k. al_list (ni_names_by_code idx) k = filter (\<lambda>e. ne_stock_code e = k) (ni_names idx))
     \<and> (\<forall>p. al_list (ni_names_by_latin_prefix idx) p
            = filter (\<lambda>e. ne_latin e \<and> p \<in> set (latin_prefixes (ne_variants e))) (ni_names idx))"

lemma index_name_eq:
  "index_name L code raw idx =
     (if name_variants L raw = [] then idx
      else \<lparr> ni_names = ni_names idx @ [entry_of L code raw],
             ni_names_by_code = al_append code (entry_of L code raw) (ni_names_by_code idx),
             ni_names_by_latin_prefix =
               (if ne_latin (entry_of L code raw)
                then fold (\<lambda>p. al_append p (entry_of L code raw)) (latin_prefixes (name_variants L raw))
                       (ni_names_by_latin_prefix idx)
                else ni_names_by_latin_prefix idx) \<rparr>)"
  by (auto simp: index_name_def entry_of_def Let_def split: list.splits)

lemma distinct_latin_prefixes [simp]: "distinct (latin_prefixes vs)"
  by (simp add: latin_prefixes_def)

lemma index_name_ok: "index_ok idx \<Longrightarrow> index_ok (index_name L code raw idx)"
  by (simp add: index_name_eq index_ok_def al_list_append al_list_fold)

lemma index_name_names:
  "ni_names (index_name L code raw idx)
     = ni_names idx @ (if name_variants L raw = [] then [] else [entry_of L code raw])"
  by (simp add: index_name_eq)

lemma fold_index_name:
  "index_ok idx \<Longrightarrow> index_ok (fold (index_name L code) raws idx)
     \<and> set (ni_names (fold (index_name L code) raws idx))
       = set (ni_names idx) \<union> {entry_of L code raw | raw. raw \<in> set raws \<and> name_variants L raw \<noteq> []}"
  by (induction raws arbitrary: idx) (auto simp: index_name_ok index_name_names)

text \<open>\<open>listed L entries code raw\<close>: raw is one of the two names listed under the code.\<close>

definition listed :: "stock_entries \<Rightarrow> pystr \<Rightarrow> pystr \<Rightarrow> bool" where
  "listed entries code raw \<longleftrightarrow>
     (\<exists>s. (code, s) \<in> set entries \<and> (raw = st_company_name_zh s \<or> raw = st_company_name_en s))"

lemma fold_index_stock:
  "index_ok idx \<Longrightarrow> index_ok (fold (index_stock L) entries idx)
     \<and> set (ni_names (fold (index_stock L) entries idx))
       = set (ni_names idx) \<union> {entry_of L code raw | code raw. listed entries code raw \<and> name_variants L raw \<noteq> []}"
proof (induction entries arbitrary: idx)
  case Nil
  then show ?case by (simp add: listed_def)
next
  case (Cons cs entries)
  obtain code st where cs: "cs = (code, st)" by (cases cs)
  define raws where "raws = [st_company_name_zh st, st_company_name_en st]"
  have f: "index_stock L cs idx = fold (index_name L code) (py_fromkeys raws) idx"
    by (simp add: index_stock_def cs raws_def)
  note g = fold_index_name [OF Cons.prems, of L code "py_fromkeys raws", folded f]
  have L: "listed (cs # entries) c raw \<longleftrightarrow> c = code \<and> raw \<in> set raws \<or> listed entries c raw" for c raw
    by (auto simp: listed_def cs raws_def)
  have sets: "{entry_of L c raw | c raw. listed (cs # entries) c raw \<and> name_variants L raw \<noteq> []}
      = {entry_of L code raw | raw. raw \<in> set raws \<and> name_variants L raw \<noteq> []}
        \<union> {entry_of L c raw | c raw. listed entries c raw \<and> name_variants L raw \<noteq> []}"
    unfolding L by blast
  note ih = Cons.IH [OF conjunct1 [OF g]]
  have fold: "fold (index_stock L) (cs # entries) idx = fold (index_stock L) entries (index_stock L cs idx)"
    by (simp only: fold_Cons comp_apply)
  have "set (ni_names (fold (index_stock L) (cs # entries) idx))
      = set (ni_names idx) \<union> {entry_of L code raw | raw. raw \<in> set raws \<and> name_variants L raw \<noteq> []}
        \<union> {entry_of L c raw | c raw. listed entries c raw \<and> name_variants L raw \<noteq> []}"
    unfolding fold conjunct2 [OF ih] conjunct2 [OF g] set_py_fromkeys by (rule refl)
  moreover have "index_ok (fold (index_stock L) (cs # entries) idx)" unfolding fold by (rule conjunct1 [OF ih])
  ultimately show ?case unfolding sets Un_assoc by (rule conjI [rotated])
qed

lemma build_index:
  "index_ok (build_name_index L entries)"
  "e \<in> set (ni_names (build_name_index L entries)) \<longleftrightarrow>
     (\<exists>code raw. e = entry_of L code raw \<and> listed entries code raw \<and> name_variants L raw \<noteq> [])"
proof -
  have "index_ok \<lparr> ni_names = [], ni_names_by_code = [], ni_names_by_latin_prefix = [] \<rparr>"
    by (simp add: index_ok_def al_list_def)
  from fold_index_stock [OF this, of L entries]
  show "index_ok (build_name_index L entries)"
    "e \<in> set (ni_names (build_name_index L entries)) \<longleftrightarrow>
     (\<exists>code raw. e = entry_of L code raw \<and> listed entries code raw \<and> name_variants L raw \<noteq> [])"
    by (auto simp: build_name_index_def)
qed

lemma ex_name:
  "(\<exists>e \<in> set (ni_names (build_name_index L entries)). Q e) \<longleftrightarrow>
     (\<exists>code raw. listed entries code raw \<and> name_variants L raw \<noteq> [] \<and> Q (entry_of L code raw))"
  unfolding Bex_def build_index(2) by blast

section \<open>The pool\<close>














section \<open>The search\<close>

text \<open>The codes listed under a name that shares a variant with the query.\<close>

definition sharing :: "text_lib \<Rightarrow> stock_entries \<Rightarrow> pystr \<Rightarrow> pystr set" where
  "sharing L entries name =
     {code. \<exists>raw. listed entries code raw \<and> set (name_variants L raw) \<inter> set (name_variants L name) \<noteq> {}}"

lemma set_exact_codes: "set (exact_codes (build_name_index L entries) (name_variants L name)) = sharing L entries name"
proof -
  have "x \<in> set (exact_codes (build_name_index L entries) (name_variants L name)) \<longleftrightarrow> x \<in> sharing L entries name" for x
  proof -
    have "x \<in> set (exact_codes (build_name_index L entries) (name_variants L name)) \<longleftrightarrow>
        (\<exists>e \<in> set (ni_names (build_name_index L entries)). ne_stock_code e = x
          \<and> set (ne_variants e) \<inter> set (name_variants L name) \<noteq> {})"
      unfolding exact_codes_def list_ex_iff by auto
    also have "\<dots> \<longleftrightarrow> (\<exists>raw. listed entries x raw \<and> name_variants L raw \<noteq> []
        \<and> set (name_variants L raw) \<inter> set (name_variants L name) \<noteq> {})"
      unfolding ex_name by simp
    also have "\<dots> \<longleftrightarrow> x \<in> sharing L entries name"
      unfolding sharing_def by auto
    finally show ?thesis .
  qed
  then show ?thesis by blast
qed

lemma singleton_codes:
  "distinct codes \<Longrightarrow> (case codes of [code] \<Rightarrow> Some code | _ \<Rightarrow> None) =
     (if \<exists>c. set codes = {c} then Some (the_elem (set codes)) else None)"
proof (cases codes)
  case (Cons c cs)
  assume d: "distinct codes"
  show ?thesis
  proof (cases cs)
    case (Cons c' cs')
    with \<open>codes = c # cs\<close> d have "\<not> (\<exists>x. set codes = {x})" by (auto simp: doubleton_eq_iff)
    with Cons \<open>codes = c # cs\<close> show ?thesis by simp
  qed (simp add: Cons)
qed simp

text \<open>C32: An exact match decides on its own: when a listed name shares a variant with the query, the
  lookup gives the stock if all such names are one stock's, and a miss if they are not.\<close>

theorem exact_name_decides:
  assumes d: "distinct (map fst entries)" and ne: "[] \<notin> fst ` set entries" and m: "sharing L entries name \<noteq> {}"
  shows "lookup_stock L (Some (make_cache L entries)) name =
    Inr (if \<exists>c. sharing L entries name = {c} then map_of entries (the_elem (sharing L entries name)) else None)"
proof -
  let ?codes = "exact_codes (build_name_index L entries) (name_variants L name)"
  have c: "set ?codes = sharing L entries name" "distinct ?codes"
    by (simp_all add: set_exact_codes) (simp add: exact_codes_def)
  have "?codes \<noteq> []" using m c(1) by auto
  then have s: "search L (build_name_index L entries) name =
      Inr (if \<exists>c. sharing L entries name = {c} then Some (the_elem (sharing L entries name)) else None)"
    using singleton_codes [OF c(2)] c(1) by (simp add: search_def Let_def)
  have "c \<in> fst ` set entries" if "c \<in> sharing L entries name" for c
    using that by (force simp: sharing_def listed_def)
  then have "\<exists>st. map_of entries c = Some st \<and> c \<noteq> []" if "c \<in> sharing L entries name" for c
    using that ne by (metis map_of_eq_None_iff option.exhaust)
  with s show ?thesis by (fastforce simp: lookup_stock_def get_hk_stock_list_cache_def make_cache_def)
qed

text \<open>The best score of a name against the query, if it matches at all.\<close>

definition top_score :: "pystr list \<Rightarrow> name_entry \<Rightarrow> match_score option" where
  "top_score vs e = (case entry_scores vs e of
     Inr (x # xs) \<Rightarrow> Some (Max (set (x # xs))) | _ \<Rightarrow> None)"

lemma best_step_Inr:
  assumes "best_step vs e (Inr (best, codes)) = Inr (best', codes')"
  shows "(case top_score vs e of
      None \<Rightarrow> best' = best \<and> codes' = codes
    | Some t \<Rightarrow>
        (case best of
           None \<Rightarrow> best' = Some t \<and> codes' = [ne_stock_code e]
         | Some b \<Rightarrow> best' = Some (max b t)
             \<and> codes' = (if b < t then [ne_stock_code e] else if t = b then List.insert (ne_stock_code e) codes
                         else codes)))"
proof -
  from assms obtain scores where sc: "entry_scores vs e = Inr scores"
    by (cases "entry_scores vs e") (auto simp: best_step_def)
  show ?thesis
  proof (cases scores)
    case Nil
    with assms sc show ?thesis by (simp add: best_step_def top_score_def)
  next
    case (Cons x xs)
    have "top_score vs e = Some (fold max xs x)"
      using sc Cons by (simp add: top_score_def Max.set_eq_fold [symmetric])
    with assms sc Cons show ?thesis
      by (auto simp: best_step_def Let_def max_def split: option.splits if_splits)
  qed
qed

lemma best_step_Inl: "best_step vs e (Inl x) = Inl x"
  by (simp add: best_step_def)

lemma fold_best:
  "fold (best_step vs) pool (Inr (None, [])) = Inr (best, codes) \<Longrightarrow>
    distinct codes \<and> (case best of
      None \<Rightarrow> codes = [] \<and> (\<forall>e \<in> set pool. top_score vs e = None)
    | Some b \<Rightarrow> (\<exists>e \<in> set pool. top_score vs e = Some b)
        \<and> (\<forall>e \<in> set pool. \<forall>t. top_score vs e = Some t \<longrightarrow> t \<le> b)
        \<and> set codes = {ne_stock_code e | e. e \<in> set pool \<and> top_score vs e = Some b})"
proof (induction pool arbitrary: best codes rule: rev_induct)
  case Nil
  then show ?case by simp
next
  case (snoc e pool)
  from snoc.prems obtain best0 codes0 where f: "fold (best_step vs) pool (Inr (None, [])) = Inr (best0, codes0)"
    and st: "best_step vs e (Inr (best0, codes0)) = Inr (best, codes)"
    by (cases "fold (best_step vs) pool (Inr (None, []))") (auto simp: best_step_Inl)
  note IH = snoc.IH [OF f] and S = best_step_Inr [OF st]
  show ?case
  proof (cases "top_score vs e")
    case None
    with IH S show ?thesis by (auto split: option.splits)
  next
    case (Some t)
    show ?thesis
    proof (cases best0)
      case None
      with IH S Some show ?thesis by (auto split: option.splits)
    next
      case b: (Some b)
      have IHb: "distinct codes0" "\<exists>e \<in> set pool. top_score vs e = Some b"
        "\<forall>e \<in> set pool. \<forall>t. top_score vs e = Some t \<longrightarrow> t \<le> b"
        "set codes0 = {ne_stock_code e | e. e \<in> set pool \<and> top_score vs e = Some b}"
        using IH b by auto
      have Sb: "best = Some (max b t)" "codes = (if b < t then [ne_stock_code e]
          else if t = b then List.insert (ne_stock_code e) codes0 else codes0)"
        using S Some b by auto
      consider "b < t" | "t = b" | "t < b" by (meson linorder_cases)
      then show ?thesis
      proof cases
        case 1
        with IHb(3) have "\<forall>e \<in> set pool. top_score vs e \<noteq> Some t" by fastforce
        with 1 Sb IHb(3) Some show ?thesis by (auto simp: max_def)
      next
        case 2
        with Sb IHb Some show ?thesis by (auto simp: max_def)
      next
        case 3
        with Sb IHb Some show ?thesis by (auto simp: max_def not_less)
      qed
    qed
  qed
qed

text \<open>When no variant matches exactly, the search keeps precisely the codes of the names whose best
  score over all pairs of variants is the highest in the pool: the running best of the loop equals
  the reference definition by maximum.\<close>

theorem best_scoring_codes_highest:
  assumes "best_scoring_codes pool vs = Inr codes"
  shows "distinct codes \<and> set codes = {ne_stock_code e | e. e \<in> set pool \<and> (\<exists>t. top_score vs e = Some t
    \<and> (\<forall>e' \<in> set pool. \<forall>t'. top_score vs e' = Some t' \<longrightarrow> t' \<le> t))}"
proof -
  obtain best where f: "fold (best_step vs) pool (Inr (None, [])) = Inr (best, codes)"
    using assms by (cases "fold (best_step vs) pool (Inr (None, []))") (auto simp: best_scoring_codes_def)
  show ?thesis
  proof (cases best)
    case None
    with fold_best [OF f] show ?thesis by auto
  next
    case (Some b)
    with fold_best [OF f] have F: "distinct codes" "\<exists>e \<in> set pool. top_score vs e = Some b"
      "\<forall>e \<in> set pool. \<forall>t. top_score vs e = Some t \<longrightarrow> t \<le> b"
      "set codes = {ne_stock_code e | e. e \<in> set pool \<and> top_score vs e = Some b}"
      by auto
    have "(\<exists>t. top_score vs e = Some t \<and> (\<forall>e' \<in> set pool. \<forall>t'. top_score vs e' = Some t' \<longrightarrow> t' \<le> t))
        \<longleftrightarrow> top_score vs e = Some b" if "e \<in> set pool" for e
      using F(2,3) that by (metis order_antisym)
    with F(1,4) show ?thesis by blast
  qed
qed

lemma best_scoring_subset:
  assumes "best_scoring_codes pool vs = Inr codes" shows "set codes \<subseteq> ne_stock_code ` set pool"
proof -
  obtain best where f: "fold (best_step vs) pool (Inr (None, [])) = Inr (best, codes)"
    using assms by (cases "fold (best_step vs) pool (Inr (None, []))") (auto simp: best_scoring_codes_def)
  then show ?thesis using fold_best [OF f] by (cases best) auto
qed

lemma scoring_pool_sub: "index_ok idx \<Longrightarrow> set (scoring_pool idx vs) \<subseteq> set (ni_names idx)"
  by (auto simp: scoring_pool_def index_ok_def split: list.splits if_splits)

lemma name_score_Inl: "name_score q n = Inl e \<Longrightarrow> e = Py ZeroDivisionError"
  by (auto simp: name_score_def score_latin_def score_cjk_def len_div_def Let_def rbind_eq_Inl
      split: if_splits option.splits)

lemma rmap_list_Inl: "rmap_list f xs = Inl e \<Longrightarrow> \<exists>x \<in> set xs. f x = Inl e"
  by (induction xs) (auto simp: rbind_eq_Inl)

lemma fold_best_Inl: "fold (best_step vs) pool acc = Inl e \<Longrightarrow> acc \<noteq> Inl e \<Longrightarrow> e = Py ZeroDivisionError"
proof (induction pool arbitrary: acc)
  case (Cons x pool)
  show ?case
  proof (cases "best_step vs x acc = Inl e")
    case True
    with Cons.prems(2) have "entry_scores vs x = Inl e"
      by (cases acc; cases "entry_scores vs x") (auto simp: best_step_def Let_def split: list.splits prod.splits)
    then show ?thesis by (auto simp: entry_scores_def rbind_eq_Inl dest!: rmap_list_Inl name_score_Inl)
  qed (use Cons in simp)
qed simp

text \<open>A lookup in a cache built from a list gives only stocks of that list: the code found is always
  one of its keys, so no KeyError. Its one error is the division by zero that two wordless variants
  would cause.\<close>

theorem lookup_only_listed:
  "case lookup_stock L (Some (make_cache L entries)) name of
     Inl e \<Rightarrow> e = Py ZeroDivisionError
   | Inr None \<Rightarrow> True
   | Inr (Some s) \<Rightarrow> \<exists>code. (code, s) \<in> set entries"
proof -
  let ?idx = "build_name_index L entries" and ?vs = "name_variants L name"
  define codes where "codes = (if exact_codes ?idx ?vs \<noteq> [] then Inr (exact_codes ?idx ?vs)
      else best_scoring_codes (scoring_pool ?idx ?vs) ?vs)"
  have keys: "ne_stock_code ` set (ni_names ?idx) \<subseteq> fst ` set entries"
    by (force simp: build_index(2) listed_def)
  have c: "case codes of Inl e \<Rightarrow> e = Py ZeroDivisionError | Inr cs \<Rightarrow> set cs \<subseteq> fst ` set entries"
  proof (cases codes)
    case (Inl e)
    then have "best_scoring_codes (scoring_pool ?idx ?vs) ?vs = Inl e" by (simp add: codes_def split: if_splits)
    then show ?thesis using Inl by (auto simp: best_scoring_codes_def rbind_eq_Inl dest: fold_best_Inl)
  next
    case (Inr cs)
    have "set cs \<subseteq> ne_stock_code ` set (ni_names ?idx)"
    proof (cases "exact_codes ?idx ?vs \<noteq> []")
      case True
      with Inr show ?thesis by (auto simp: codes_def exact_codes_def)
    next
      case False
      with Inr have "best_scoring_codes (scoring_pool ?idx ?vs) ?vs = Inr cs" by (simp add: codes_def)
      from best_scoring_subset [OF this] scoring_pool_sub [OF build_index(1)] show ?thesis by (rule subset_trans [OF _ image_mono])
    qed
    with keys Inr show ?thesis by auto
  qed
  have s: "search L ?idx name = rbind codes (\<lambda>cs. Inr (case cs of [code] \<Rightarrow> Some code | _ \<Rightarrow> None))"
    by (simp add: search_def Let_def codes_def)
  show ?thesis
  proof (cases codes)
    case (Inl e)
    with c show ?thesis by (simp add: lookup_stock_def get_hk_stock_list_cache_def make_cache_def s)
  next
    case (Inr cs)
    show ?thesis
    proof (cases "\<exists>a. cs = [a] \<and> a \<noteq> []")
      case True
      then obtain a where a: "cs = [a]" "a \<noteq> []" by blast
      with c Inr have "a \<in> fst ` set entries" by simp
      then obtain st where "map_of entries a = Some st" by (metis map_of_eq_None_iff not_None_eq)
      with a Inr map_of_SomeD [OF this] show ?thesis
        by (auto simp: lookup_stock_def get_hk_stock_list_cache_def make_cache_def s)
    next
      case False
      then show ?thesis using Inr
        by (auto simp: lookup_stock_def get_hk_stock_list_cache_def make_cache_def s split: list.splits)
    qed
  qed
qed

section \<open>A sample list\<close>

lemma greedy_numeral [simp]: "greedy f (numeral v) st = greedy f (Suc (pred_numeral v)) st"
  by (simp add: numeral_eq_Suc)

lemmas rx_eval = rx_sub_def match_at_def rx_split_def chr_rx_def

definition plain_lib :: text_lib where
  "plain_lib = \<lparr> tl_t2s = (\<lambda>s. s), tl_fold = (\<lambda>c. [c]) \<rparr>"

definition sample_stock :: stock where
  "sample_stock = \<lparr> st_stock_code = u ''00700'', st_exchange = u ''HKEX'',
     st_company_name_zh = u ''AB'', st_company_name_en = u ''AC'' \<rparr>"

definition sample_entries :: stock_entries where
  "sample_entries = [(u ''00700'', sample_stock)]"

lemma sample_normalized:
  "normalize_name plain_lib (u ''AB'') = u ''ab''" "normalize_name plain_lib (u ''AC'') = u ''ac''"
  by (simp_all add: normalize_name_def Let_def u_def plain_lib_def casefold_def FULLWIDTH_def py_strip_def
      py_isspace_def lower_ascii_def rx_eval COUNTER_MARKER_RE_def SPACE_BETWEEN_LATIN_RE_def latin_char_def)

lemma sample_variants:
  "name_variants plain_lib (u ''AB'') = [u ''ab'']" "name_variants plain_lib (u ''AC'') = [u ''ac'']"
  unfolding name_variants_def sample_normalized Let_def
  by (simp_all add: py_isascii_def EN_WORD_SPLIT_RE_def rx_eval
      py_isspace_def EN_LEGAL_WORDS_def u_def py_words_def EN_GENERIC_WORDS_def)

lemma sample_listed: "listed sample_entries code raw \<longleftrightarrow> code = u ''00700'' \<and> (raw = u ''AB'' \<or> raw = u ''AC'')"
  by (auto simp: listed_def sample_entries_def sample_stock_def)

lemma sample_sharing: "sharing plain_lib sample_entries (u ''AB'') = {u ''00700''}"
  by (auto simp: sharing_def sample_listed sample_variants)

lemma exact_name_decides_witness:
  "lookup_stock plain_lib (Some (make_cache plain_lib sample_entries)) (u ''AB'') = Inr (Some sample_stock)"
proof -
  have "distinct (map fst sample_entries)" "[] \<notin> fst ` set sample_entries"
    by (simp_all add: sample_entries_def u_def)
  from exact_name_decides [OF this, of plain_lib "u ''AB''"] sample_sharing show ?thesis
    by (simp add: sample_entries_def)
qed


lemma sample_score: "name_score (u ''ab'') (u ''ab'') = Inr (Some [3, 1, - 2])"
proof -
  have "fl 1 = 1" using fl_of_int [of 1] by simp
  then show ?thesis
    by (simp add: name_score_def score_latin_def py_isascii_def u_def py_words_def py_isspace_def Let_def
        latin_word_hits_def LATIN_PREFIX_LEN_def len_div_def)
qed


lemma best_scoring_codes_highest_witness:
  "best_scoring_codes [entry_of plain_lib (u ''00700'') (u ''AB'')] [u ''ab''] = Inr [u ''00700''] \<and> distinct [u ''00700'']"
proof -
  have "best_scoring_codes [entry_of plain_lib (u ''00700'') (u ''AB'')] [u ''ab''] = Inr [u ''00700'']"
    by (simp add: best_scoring_codes_def best_step_def entry_scores_def sample_variants sample_score List.map_filter_def)
  with best_scoring_codes_highest [OF this] show ?thesis by simp
qed

end
