(* ===== verification/Sapi_Stock_List.thy ===== *)
theory Sapi_Stock_List
  imports Sapi_World Sapi_Stock_Names
begin

text \<open>
  \<^verbatim>\<open>app/common/hk_stock_list.py\<close>, the loading half: fetching HKEX's files with retries, parsing and
  joining them, and refreshing the process-wide cache; with \<^verbatim>\<open>app/common/http_client.py\<close>. The files'
  formats (JSON, the spreadsheet) are read by libraries, which are parameters.
\<close>

section \<open>The network\<close>

record http_response =
  hr_status :: int
  hr_content :: "nat list"

text \<open>\<open>n_server k url\<close> is what the k-th request of the process meets: a response, or the exception of
  the HTTP library. \<open>n_client\<close> tells whether the shared client has been created, and \<open>n_cache\<close> is
  \<^verbatim>\<open>_hk_stock_list_cache\<close>.\<close>

record net_world = world +
  n_client :: bool
  n_server :: "nat \<Rightarrow> pystr \<Rightarrow> exn + http_response"
  n_requests :: nat
  n_cache :: "hk_stock_list_cache option"

type_synonym ('z, 'a) net = "('z net_world_scheme, exn, 'a) io"

definition get_http_client :: "('z, unit) net" where
  "get_http_client = bind (get_w n_client) (\<lambda>b.
     if b then ret () else raise (Sapi (sapi_err ServiceUnavailableError COMMON)))"

definition http_get :: "pystr \<Rightarrow> ('z, http_response) net" where
  "http_get url = (\<lambda>w. (n_server w (n_requests w) url, w\<lparr> n_requests := Suc (n_requests w) \<rparr>))"

definition raise_for_status :: "http_response \<Rightarrow> ('w, exn, unit) io" where
  "raise_for_status r = (if 200 \<le> hr_status r \<and> hr_status r < 300 then ret () else raise HttpxError)"

fun is_httpx :: "exn \<Rightarrow> bool" where
  "is_httpx HttpxError = True"
| "is_httpx HttpxConnectError = True"
| "is_httpx _ = False"

text \<open>\<^verbatim>\<open>translate_client_errors\<close>.\<close>

definition translate_client_errors :: "error_category \<Rightarrow> ('w, exn, 'a) io \<Rightarrow> ('w, exn, 'a) io" where
  "translate_client_errors category m = try_except m (\<lambda>exc.
     if is_httpx exc then raise (Sapi (upstream_unavailable category))
     else if exc = ValidationError then raise (Sapi (sapi_err ParseError category))
     else raise exc)"

section \<open>Constants\<close>

definition ACTIVESTOCK_EN_URL :: pystr where
  "ACTIVESTOCK_EN_URL = u ''https://www1.hkexnews.hk/ncms/script/eds/activestock_sehk_e.json''"
definition ACTIVESTOCK_ZH_URL :: pystr where
  "ACTIVESTOCK_ZH_URL = u ''https://www1.hkexnews.hk/ncms/script/eds/activestock_sehk_c.json''"
definition LIST_OF_SECURITIES_URL :: pystr where
  "LIST_OF_SECURITIES_URL =
     u ''https://www.hkex.com.hk/eng/services/trading/securities/securitieslists/ListOfSecurities.xlsx''"

definition EXCHANGE :: pystr where "EXCHANGE = u ''HKEX''"
definition STOCK_CODE_HEADER :: pystr where "STOCK_CODE_HEADER = u ''Stock Code''"
definition CATEGORY_HEADER :: pystr where "CATEGORY_HEADER = u ''Category''"
definition EQUITY_CATEGORY :: pystr where "EQUITY_CATEGORY = u ''Equity''"

definition CONNECT_RETRY_WAITS_S :: "int list" where "CONNECT_RETRY_WAITS_S = [1, 2]"

section \<open>Parsing\<close>

datatype json =
    JStr pystr
  | JArr "json list"
  | JObj "(pystr \<times> json) list"
  | JOther      \<comment> \<open>a number, a boolean or null\<close>

text \<open>A cell of a sheet: text, or another value with its \<^verbatim>\<open>str()\<close>.\<close>

datatype cell = Text pystr | Other pystr

record parse_lib =
  pl_json :: "nat list \<Rightarrow> json res"             \<comment> \<open>\<^verbatim>\<open>json.loads\<close>\<close>
  pl_rows :: "nat list \<Rightarrow> cell list list res"   \<comment> \<open>the rows of the first sheet, as openpyxl reads them\<close>
  pl_order :: "pystr list \<Rightarrow> pystr list"        \<comment> \<open>the iteration order of a set\<close>

definition json_iter :: "json \<Rightarrow> json list res" where
  "json_iter j = (case j of
     JArr xs \<Rightarrow> Inr xs
   | JObj fs \<Rightarrow> Inr (map (\<lambda>f. JStr (fst f)) fs)
   | JStr s \<Rightarrow> Inr (map (\<lambda>c. JStr [c]) s)
   | JOther \<Rightarrow> Inl (Py TypeError))"

definition json_item :: "json \<Rightarrow> pystr \<Rightarrow> json res" where
  "json_item j k = (case j of
     JObj fs \<Rightarrow> (case map_of fs k of None \<Rightarrow> Inl (Py KeyError) | Some x \<Rightarrow> Inr x)
   | _ \<Rightarrow> Inl (Py TypeError))"

text \<open>A list or an object is not hashable. Only string keys can equal a stock code later.\<close>

fun hashable :: "json \<Rightarrow> bool" where
  "hashable (JStr s) = True" | "hashable JOther = True" | "hashable _ = False"

fun name_step :: "json \<Rightarrow> (pystr \<times> json) list res \<Rightarrow> (pystr \<times> json) list res" where
  "name_step entry acc =
     rbind acc (\<lambda>d.
     rbind (json_item entry (u ''c'')) (\<lambda>c.
     rbind (json_item entry (u ''n'')) (\<lambda>n.
     if \<not> hashable c then Inl (Py TypeError)
     else Inr (case c of JStr code \<Rightarrow> al_put code n d | _ \<Rightarrow> d))))"

definition parse_names :: "parse_lib \<Rightarrow> nat list \<Rightarrow> (pystr \<times> json) list res" where
  "parse_names P content =
     rbind (pl_json P content) (\<lambda>j. rbind (json_iter j) (\<lambda>entries. fold name_step entries (Inr [])))"

fun cell_str :: "cell \<Rightarrow> pystr" where
  "cell_str (Text s) = s" | "cell_str (Other s) = s"

fun index_of :: "'a \<Rightarrow> 'a list \<Rightarrow> nat" where
  "index_of x [] = 0"
| "index_of x (y # ys) = (if x = y then 0 else Suc (index_of x ys))"

text \<open>The header row's two columns, and the rows below it.\<close>

fun find_header :: "cell list list \<Rightarrow> (nat \<times> nat \<times> cell list list) option" where
  "find_header [] = None"
| "find_header (row # rows) =
     (if Text STOCK_CODE_HEADER \<in> set row \<and> Text CATEGORY_HEADER \<in> set row
      then Some (index_of (Text STOCK_CODE_HEADER) row, index_of (Text CATEGORY_HEADER) row, rows)
      else find_header rows)"

definition row_item :: "cell list \<Rightarrow> nat \<Rightarrow> cell res" where
  "row_item row i = (if i < length row then Inr (row ! i) else Inl (Py IndexError))"

definition equity_code :: "nat \<Rightarrow> nat \<Rightarrow> cell list \<Rightarrow> pystr list res" where
  "equity_code code_col category_col row =
     rbind (row_item row category_col) (\<lambda>c.
     if c = Text EQUITY_CATEGORY then rbind (row_item row code_col) (\<lambda>x. Inr [cell_str x]) else Inr [])"

definition parse_equity_codes :: "parse_lib \<Rightarrow> nat list \<Rightarrow> pystr list res" where
  "parse_equity_codes P content =
     rbind (pl_rows P content) (\<lambda>rows.
     case find_header rows of
       None \<Rightarrow> Inl (Sapi (sapi_err ParseError STOCK_LIST))
     | Some (code_col, category_col, rest) \<Rightarrow>
         rbind (rmap_list (equity_code code_col category_col) rest) (\<lambda>codes. Inr (py_fromkeys (concat codes))))"

definition is_extra_counter :: "pystr \<Rightarrow> pystr \<Rightarrow> pystr \<Rightarrow> bool" where
  "is_extra_counter code zh_name en_name \<longleftrightarrow>
     (py_startswith code (u ''8'') \<and> py_endswith zh_name [65330])
     \<or> py_endswith zh_name [65332] \<or> py_endswith en_name (u ''-T'')"

text \<open>\<^verbatim>\<open>names.get(code, "")\<close>; a name that is no text has no \<^verbatim>\<open>endswith\<close>.\<close>

definition name_text :: "(pystr \<times> json) list \<Rightarrow> pystr \<Rightarrow> pystr res" where
  "name_text names code = (case map_of names code of
     None \<Rightarrow> Inr [] | Some (JStr s) \<Rightarrow> Inr s | Some _ \<Rightarrow> Inl (Py AttributeError))"

definition entry_step ::
  "(pystr \<times> json) list \<Rightarrow> (pystr \<times> json) list \<Rightarrow> pystr \<Rightarrow> stock_entries res \<Rightarrow> stock_entries res" where
  "entry_step en_names zh_names code acc =
     rbind acc (\<lambda>entries.
     if map_of en_names code = None \<and> map_of zh_names code = None then Inr entries
     else
       rbind (name_text zh_names code) (\<lambda>zh_name.
       if py_startswith code (u ''8'') \<and> py_endswith zh_name [65330] \<or> py_endswith zh_name [65332]
       then Inr entries
       else
         rbind (name_text en_names code) (\<lambda>en_name.
         if is_extra_counter code zh_name en_name then Inr entries
         else Inr (al_put code
           \<lparr> st_stock_code = code, st_exchange = EXCHANGE,
             st_company_name_zh = zh_name, st_company_name_en = en_name \<rparr> entries))))"

definition parse_hk_stock_list ::
  "parse_lib \<Rightarrow> nat list \<Rightarrow> nat list \<Rightarrow> nat list \<Rightarrow> stock_entries res" where
  "parse_hk_stock_list P en_content zh_content securities_content =
     rbind (parse_names P en_content) (\<lambda>en_names.
     rbind (parse_names P zh_content) (\<lambda>zh_names.
     rbind (parse_equity_codes P securities_content) (\<lambda>codes.
     fold (entry_step en_names zh_names) (pl_order P codes) (Inr []))))"

section \<open>Fetching\<close>

text \<open>\<^verbatim>\<open>_get\<close>: one wait before each retry.\<close>

fun get_retrying :: "int list \<Rightarrow> pystr \<Rightarrow> ('z, http_response) net" where
  "get_retrying [] url = http_get url"
| "get_retrying (wait_s # waits) url =
     try_except (http_get url) (\<lambda>exc.
       if exc = HttpxConnectError then seq (sleep_ms (wait_s * 1000)) (get_retrying waits url)
       else raise exc)"

definition get_ok :: "pystr \<Rightarrow> ('z, nat list) net" where
  "get_ok url = bind (get_retrying CONNECT_RETRY_WAITS_S url) (\<lambda>r. seq (raise_for_status r) (ret (hr_content r)))"

definition download_files :: "('z, nat list \<times> nat list \<times> nat list) net" where
  "download_files =
     bind (get_ok ACTIVESTOCK_EN_URL) (\<lambda>en.
     bind (get_ok ACTIVESTOCK_ZH_URL) (\<lambda>zh.
     bind (get_ok LIST_OF_SECURITIES_URL) (\<lambda>sec. ret (en, zh, sec))))"

text \<open>The second \<^verbatim>\<open>try\<close>: any error of the parser means that the response shape changed.\<close>

definition shape_error :: "exn \<Rightarrow> exn" where
  "shape_error exc =
     (if \<not> is_exception exc then exc
      else case exc of
             Sapi e \<Rightarrow> (if is_subclass (err_class e) ParseError then exc else Sapi (sapi_err ParseError STOCK_LIST))
           | _ \<Rightarrow> Sapi (sapi_err ParseError STOCK_LIST))"

definition parse_files :: "parse_lib \<Rightarrow> nat list \<times> nat list \<times> nat list \<Rightarrow> ('w, exn, stock_entries) io" where
  "parse_files P = (\<lambda>(en, zh, sec).
     try_except (of_sum (parse_hk_stock_list P en zh sec)) (\<lambda>exc. raise (shape_error exc)))"

definition fetch_and_filter_hk_stock_list :: "parse_lib \<Rightarrow> ('z, stock_entries) net" where
  "fetch_and_filter_hk_stock_list P =
     bind (try_except download_files
             (\<lambda>exc. raise (if is_httpx exc then Sapi (upstream_unavailable STOCK_LIST) else exc)))
       (parse_files P)"

definition load_cache :: "text_lib \<Rightarrow> stock_entries \<Rightarrow> ('z, unit) net" where
  "load_cache L entries = modify (\<lambda>w. w\<lparr> n_cache := Some (case n_cache w of
     None \<Rightarrow> make_cache L entries | Some c \<Rightarrow> reload L entries c) \<rparr>)"

definition refresh_attempt :: "text_lib \<Rightarrow> parse_lib \<Rightarrow> ('z, nat) net" where
  "refresh_attempt L P =
     seq get_http_client
     (bind (fetch_and_filter_hk_stock_list P) (\<lambda>new_entries.
      if new_entries = [] then raise (Sapi (sapi_err ParseError STOCK_LIST))
      else seq (load_cache L new_entries) (ret (length new_entries))))"

definition refresh_hk_stock_list :: "text_lib \<Rightarrow> parse_lib \<Rightarrow> ('z, nat) net" where
  "refresh_hk_stock_list L P =
     try_except (refresh_attempt L P)
       (\<lambda>exc.
          if is_exception exc
          then seq (modify (\<lambda>w. if n_cache w = None then w\<lparr> n_cache := Some (make_cache L []) \<rparr> else w)) (raise exc)
          else raise exc)"

end
