(* ===== verification/Sapi_Stock_List_Props.thy ===== *)
theory Sapi_Stock_List_Props
  imports Sapi_Stock_List Sapi_Stock_Names_Props
begin

text \<open>
  Loading the stock list: connection retries, what a parsed list holds, and that a refresh either
  replaces the cache by a complete new one or leaves a loaded one alone.
\<close>

section \<open>Requests\<close>

lemma get_retrying_spec:
  "get_retrying waits url w = (r, w') \<Longrightarrow>
    \<exists>k \<le> length waits. n_requests w' = n_requests w + Suc k \<and> n_server w' = n_server w
      \<and> (\<forall>i < k. n_server w (n_requests w + i) url = Inl HttpxConnectError)
      \<and> r = n_server w (n_requests w + k) url
      \<and> (k < length waits \<longrightarrow> r \<noteq> Inl HttpxConnectError)
      \<and> w_now w' = w_now w + (\<Sum>s \<leftarrow> take k waits. max 0 (s * 1000) * 1000)
      \<and> n_cache w' = n_cache w"
proof (induction waits url arbitrary: w rule: get_retrying.induct)
  case (1 url)
  then show ?case by (intro exI [of _ 0]) (auto simp: http_get_def)
next
  case (2 wait_s waits url)
  define w1 where "w1 = w\<lparr> n_requests := Suc (n_requests w) \<rparr>"
  have g: "http_get url w = (n_server w (n_requests w) url, w1)" by (simp add: http_get_def w1_def)
  show ?case
  proof (cases "n_server w (n_requests w) url = Inl HttpxConnectError")
    case False
    with 2(2) g have "r = n_server w (n_requests w) url" "w' = w1"
      by (auto simp: try_except_def split: sum.splits if_splits)
    with False show ?thesis by (intro exI [of _ 0]) (simp add: w1_def)
  next
    case True
    define w2 where "w2 = w1\<lparr> w_now := w_now w1 + max 0 (wait_s * 1000) * 1000 \<rparr>"
    have "get_retrying waits url w2 = (r, w')"
      using 2(2) g True by (simp add: try_except_def bind_def sleep_ms_def w2_def modify_def)
    from 2(1) [OF refl this] obtain k where k: "k \<le> length waits" "n_requests w' = Suc (n_requests w) + Suc k"
      "n_server w' = n_server w" "\<forall>i < k. n_server w (Suc (n_requests w) + i) url = Inl HttpxConnectError"
      "r = n_server w (Suc (n_requests w) + k) url" "k < length waits \<longrightarrow> r \<noteq> Inl HttpxConnectError"
      "w_now w' = w_now w2 + (\<Sum>s \<leftarrow> take k waits. max 0 (s * 1000) * 1000)" "n_cache w' = n_cache w"
      by (auto simp: w2_def w1_def)
    then show ?thesis using True
      by (intro exI [of _ "Suc k"]) (auto simp: All_less_Suc2 w2_def w1_def)
  qed
qed

text \<open>A request is sent at most three times: again only after a failed connection, one second and
  then two seconds later, and its outcome is that of the last attempt.\<close>

theorem connect_retries_bounded:
  assumes "get_retrying CONNECT_RETRY_WAITS_S url w = (r, w')"
  shows "\<exists>k \<le> 2. n_requests w' = n_requests w + Suc k
    \<and> (\<forall>i < k. n_server w (n_requests w + i) url = Inl HttpxConnectError)
    \<and> r = n_server w (n_requests w + k) url \<and> (k < 2 \<longrightarrow> r \<noteq> Inl HttpxConnectError)
    \<and> w_now w' = w_now w + (if k = 0 then 0 else if k = 1 then 1 else 3) * us_per_second"
proof -
  from get_retrying_spec [OF assms] obtain k where k: "k \<le> 2" "n_requests w' = n_requests w + Suc k"
    "\<forall>i < k. n_server w (n_requests w + i) url = Inl HttpxConnectError"
    "r = n_server w (n_requests w + k) url" "k < 2 \<longrightarrow> r \<noteq> Inl HttpxConnectError"
    "w_now w' = w_now w + (\<Sum>s \<leftarrow> take k CONNECT_RETRY_WAITS_S. max 0 (s * 1000) * 1000)"
    by (auto simp: CONNECT_RETRY_WAITS_S_def)
  have "k = 0 \<or> k = 1 \<or> k = 2" using k(1) by linarith
  then have "(\<Sum>s \<leftarrow> take k CONNECT_RETRY_WAITS_S. max 0 (s * 1000) * 1000)
      = (if k = 0 then 0 else if k = 1 then 1 else 3) * us_per_second"
    by (auto simp: CONNECT_RETRY_WAITS_S_def us_per_second_def)
  with k show ?thesis by (intro exI [of _ k]) simp
qed

section \<open>The parsed list\<close>

definition entry_ok :: "(pystr \<times> json) list \<Rightarrow> (pystr \<times> json) list \<Rightarrow> pystr \<times> stock \<Rightarrow> bool" where
  "entry_ok en zh e \<longleftrightarrow> st_stock_code (snd e) = fst e \<and> st_exchange (snd e) = EXCHANGE
     \<and> name_text zh (fst e) = Inr (st_company_name_zh (snd e)) \<and> name_text en (fst e) = Inr (st_company_name_en (snd e))
     \<and> (map_of en (fst e) \<noteq> None \<or> map_of zh (fst e) \<noteq> None)
     \<and> \<not> is_extra_counter (fst e) (st_company_name_zh (snd e)) (st_company_name_en (snd e))"

lemma set_al_put: "set (al_put k v xs) \<subseteq> insert (k, v) (set xs)"
  by (induction xs) (auto split: if_splits)

lemma entry_step_Inr:
  assumes "entry_step en zh code (Inr entries) = Inr entries'"
  shows "entries' = entries \<or> (\<exists>s. entries' = al_put code s entries \<and> entry_ok en zh (code, s))"
  using assms by (auto simp: entry_step_def rbind_eq_Inr entry_ok_def split: if_splits)

lemma entry_step_Inl: "entry_step en zh code (Inl e) = Inl e"
  by (simp add: entry_step_def)

lemma fold_entries:
  "fold (entry_step en zh) codes acc = Inr entries \<Longrightarrow>
    \<exists>es. acc = Inr es \<and> (distinct (map fst es) \<longrightarrow> distinct (map fst entries))
      \<and> fst ` set entries \<subseteq> fst ` set es \<union> set codes
      \<and> ((\<forall>e \<in> set es. entry_ok en zh e) \<longrightarrow> (\<forall>e \<in> set entries. entry_ok en zh e))"
proof (induction codes arbitrary: acc)
  case (Cons code codes)
  from Cons.IH [of "entry_step en zh code acc"] Cons.prems obtain es where
    es: "entry_step en zh code acc = Inr es" "distinct (map fst es) \<longrightarrow> distinct (map fst entries)"
    "fst ` set entries \<subseteq> fst ` set es \<union> set codes"
    "(\<forall>e \<in> set es. entry_ok en zh e) \<longrightarrow> (\<forall>e \<in> set entries. entry_ok en zh e)" by auto
  then obtain es0 where acc: "acc = Inr es0" by (cases acc) (auto simp: entry_step_Inl)
  from entry_step_Inr [OF es(1) [unfolded acc]] consider "es = es0"
    | s where "es = al_put code s es0" "entry_ok en zh (code, s)" by blast
  then show ?case
  proof cases
    case 1
    with es acc show ?thesis by auto
  next
    case 2
    have "\<forall>e \<in> set es. entry_ok en zh e" if "\<forall>e \<in> set es0. entry_ok en zh e"
      using that 2 set_al_put [of code s es0] by auto
    moreover have "distinct (map fst es)" if "distinct (map fst es0)" using that 2 by simp
    moreover have "fst ` set es = insert code (fst ` set es0)" using 2 by simp
    ultimately show ?thesis using es(2-4) acc by (intro exI [of _ es0]) auto
  qed
qed simp

text \<open>No code with a name and no second counter is lost.\<close>

lemma entry_step_keeps: "entry_step en zh code (Inr es) = Inr es' \<Longrightarrow> fst ` set es \<subseteq> fst ` set es'"
  by (drule entry_step_Inr) (elim disjE exE conjE; simp add: subset_insertI)

lemma fold_entries_keeps: "fold (entry_step en zh) codes (Inr es) = Inr es' \<Longrightarrow> fst ` set es \<subseteq> fst ` set es'"
proof (induction codes arbitrary: es)
  case (Cons code codes)
  from fold_entries [of en zh codes "entry_step en zh code (Inr es)" es'] Cons.prems obtain es1 where
    "entry_step en zh code (Inr es) = Inr es1" by auto
  then have "fst ` set es \<subseteq> fst ` set es1" and "fold (entry_step en zh) codes (Inr es1) = Inr es'"
    using Cons.prems by (simp_all add: entry_step_keeps)
  from subset_trans [OF this(1) Cons.IH [OF this(2)]] show ?case .
qed simp

lemma entry_step_takes:
  "entry_step en zh code (Inr es) = Inr es' \<Longrightarrow> map_of en code \<noteq> None \<or> map_of zh code \<noteq> None \<Longrightarrow>
     name_text zh code = Inr z \<Longrightarrow> name_text en code = Inr e \<Longrightarrow> \<not> is_extra_counter code z e \<Longrightarrow> code \<in> fst ` set es'"
  by (auto simp: entry_step_def is_extra_counter_def split: if_splits)

lemma fold_entries_takes:
  "fold (entry_step en zh) codes (Inr es) = Inr es' \<Longrightarrow> code \<in> set codes \<Longrightarrow>
     map_of en code \<noteq> None \<or> map_of zh code \<noteq> None \<Longrightarrow>
     name_text zh code = Inr z \<Longrightarrow> name_text en code = Inr e \<Longrightarrow> \<not> is_extra_counter code z e \<Longrightarrow> code \<in> fst ` set es'"
proof (induction codes arbitrary: es)
  case (Cons c codes)
  from fold_entries [of en zh codes "entry_step en zh c (Inr es)" es'] Cons.prems obtain es1 where
    es1: "entry_step en zh c (Inr es) = Inr es1" by auto
  with Cons.prems(1) have f: "fold (entry_step en zh) codes (Inr es1) = Inr es'" by simp
  show ?case
  proof (cases "code = c")
    case True
    from entry_step_takes [OF es1 [folded True] Cons.prems(3-6)] fold_entries_keeps [OF f] show ?thesis by blast
  next
    case False
    with Cons.IH [OF f _ Cons.prems(3-6)] Cons.prems(2) show ?thesis by simp
  qed
qed simp

text \<open>What the files say, stated without the parser: the name a file gives a code, and the rows of the
  sheet below its header.\<close>

definition file_name :: "json list \<Rightarrow> pystr \<Rightarrow> json option" where
  "file_name entries code =
     (case find (\<lambda>e. json_item e (u ''c'') = Inr (JStr code)) (rev entries) of
        None \<Rightarrow> None
      | Some e \<Rightarrow> (case json_item e (u ''n'') of Inl _ \<Rightarrow> None | Inr n \<Rightarrow> Some n))"

definition name_or_empty :: "json option \<Rightarrow> pystr option" where
  "name_or_empty x = (case x of None \<Rightarrow> Some [] | Some (JStr s) \<Rightarrow> Some s | Some _ \<Rightarrow> None)"

definition second_counter :: "pystr \<Rightarrow> pystr \<Rightarrow> pystr \<Rightarrow> bool" where
  "second_counter code zh en \<longleftrightarrow>
     (\<exists>c z. code = 56 # c \<and> zh = z @ [65330]) \<or> (\<exists>z. zh = z @ [65332]) \<or> (\<exists>e. en = e @ u ''-T'')"

definition first_at :: "nat \<Rightarrow> 'a \<Rightarrow> 'a list \<Rightarrow> bool" where
  "first_at i x xs \<longleftrightarrow> i < length xs \<and> xs ! i = x \<and> x \<notin> set (take i xs)"

lemma index_of_first: "x \<in> set xs \<Longrightarrow> first_at (index_of x xs) x xs"
  by (induction xs) (auto simp: first_at_def)

lemma find_header_Some:
  "find_header rows = Some (cc, kc, below) \<Longrightarrow> \<exists>above header. rows = above @ header # below
     \<and> (\<forall>r \<in> set above. \<not> (Text STOCK_CODE_HEADER \<in> set r \<and> Text CATEGORY_HEADER \<in> set r))
     \<and> first_at cc (Text STOCK_CODE_HEADER) header \<and> first_at kc (Text CATEGORY_HEADER) header"
proof (induction rows)
  case (Cons row rows)
  show ?case
  proof (cases "Text STOCK_CODE_HEADER \<in> set row \<and> Text CATEGORY_HEADER \<in> set row")
    case True
    with Cons.prems show ?thesis by (intro exI [of _ "[]"] exI [of _ row]) (auto intro: index_of_first)
  next
    case False
    with Cons.prems have "find_header rows = Some (cc, kc, below)" by auto
    from Cons.IH [OF this] obtain above header where "rows = above @ header # below"
      "\<forall>r \<in> set above. \<not> (Text STOCK_CODE_HEADER \<in> set r \<and> Text CATEGORY_HEADER \<in> set r)"
      "first_at cc (Text STOCK_CODE_HEADER) header" "first_at kc (Text CATEGORY_HEADER) header" by blast
    with False show ?thesis by (intro exI [of _ "row # above"] exI [of _ header]) auto
  qed
qed simp

lemma rmap_equity_codes:
  "rmap_list (equity_code cc kc) below = Inr codes \<Longrightarrow>
     (code \<in> set (concat codes) \<longleftrightarrow> (\<exists>row \<in> set below. cc < length row \<and> kc < length row
        \<and> row ! kc = Text EQUITY_CATEGORY \<and> code = cell_str (row ! cc)))"
  by (induction below arbitrary: codes)
    (auto simp: rbind_eq_Inr equity_code_def row_item_def split: if_splits)

lemma find_in_set: "find P xs = Some x \<Longrightarrow> x \<in> set xs \<and> P x"
  by (auto simp: find_Some_iff)

lemma name_step_Inl: "fold name_step entries (Inl x) = Inl x"
  by (induction entries) simp_all

lemma fold_names:
  "fold name_step entries (Inr d) = Inr names \<Longrightarrow>
     map_of names code = (if \<exists>e \<in> set entries. json_item e (u ''c'') = Inr (JStr code) then file_name entries code else map_of d code)"
proof (induction entries arbitrary: d)
  case (Cons e entries)
  obtain d1 where d1: "name_step e (Inr d) = Inr d1"
  proof (cases "name_step e (Inr d)")
    case (Inl x)
    with Cons.prems name_step_Inl [of entries x] show thesis by (simp del: name_step.simps)
  qed (rule that)
  then obtain c n where e: "json_item e (u ''c'') = Inr c" "json_item e (u ''n'') = Inr n"
    "d1 = (case c of JStr code \<Rightarrow> al_put code n d | _ \<Rightarrow> d)"
    by (auto simp: rbind_eq_Inr split: if_splits)
  have IH: "map_of names code = (if \<exists>e \<in> set entries. json_item e (u ''c'') = Inr (JStr code)
      then file_name entries code else map_of d1 code)"
    using Cons.IH Cons.prems d1 by simp
  have "find P (xs @ [y]) = (case find P xs of None \<Rightarrow> (if P y then Some y else None) | Some z \<Rightarrow> Some z)"
    for P :: "json \<Rightarrow> bool" and xs y by (induction xs) auto
  moreover have "find (\<lambda>e. json_item e (u ''c'') = Inr (JStr code)) (rev entries) = None
      \<longleftrightarrow> \<not> (\<exists>e \<in> set entries. json_item e (u ''c'') = Inr (JStr code))"
    by (auto simp: find_None_iff)
  ultimately have "file_name (e # entries) code = (if \<exists>e \<in> set entries. json_item e (u ''c'') = Inr (JStr code)
      then file_name entries code else if c = JStr code then Some n else None)"
    by (auto simp: file_name_def e split: option.splits)
  with IH e show ?case by (auto split: json.splits)
qed simp

lemma parse_names_Inr:
  assumes "parse_names P content = Inr names"
  obtains j entries where "pl_json P content = Inr j" "json_iter j = Inr entries" "\<And>code. map_of names code = file_name entries code"
proof -
  from assms obtain j entries where j: "pl_json P content = Inr j" "json_iter j = Inr entries"
    and f: "fold name_step entries (Inr []) = Inr names" by (auto simp: parse_names_def rbind_eq_Inr)
  have "map_of names code = file_name entries code" for code
    using fold_names [OF f, of code]
    by (auto simp: file_name_def find_None_iff dest!: find_in_set split: option.splits if_splits)
  with j show thesis by (rule that)
qed

lemma name_text_iff: "name_text names code = Inr z \<longleftrightarrow> name_or_empty (map_of names code) = Some z"
  by (auto simp: name_text_def name_or_empty_def split: option.splits json.splits)

lemma endswith_iff: "py_endswith s p \<longleftrightarrow> (\<exists>x. s = x @ p)"
  unfolding py_endswith_def by (metis append_take_drop_id append_eq_conv_conj diff_add_inverse2 le_add2 length_append)

lemma extra_counter_iff: "is_extra_counter code zh en \<longleftrightarrow> second_counter code zh en"
proof -
  have "py_startswith code (u ''8'') \<longleftrightarrow> (\<exists>c. code = 56 # c)"
    by (cases code) (simp_all add: py_startswith_def u_def)
  then show ?thesis by (auto simp: is_extra_counter_def second_counter_def endswith_iff)
qed

text \<open>C38: A parsed list has one stock per code, each under its own code and on HKEX with the names the
  two files give that code (an absent one is empty). Its codes are exactly those of the sheet's
  equities - the cells in the Stock Code column of the rows below the header row whose Category cell
  is the text Equity - that at least one of the two name files lists and that are no second counter
  of a company listed under another code: no RMB counter (a code that starts with 8 and a Chinese
  name that ends in a full-width R) and no trading-only line (a Chinese name that ends in a
  full-width T, or an English one that ends in -T).\<close>

theorem parsed_list_entries:
  assumes "parse_hk_stock_list P en zh sec = Inr entries" and "\<forall>xs. set (pl_order P xs) = set xs"
  shows "\<exists>above header below cc kc j_en en_file j_zh zh_file.
    \<comment> \<open>the sheet\<close>
    pl_rows P sec = Inr (above @ header # below)
    \<and> (\<forall>r \<in> set above. \<not> (Text STOCK_CODE_HEADER \<in> set r \<and> Text CATEGORY_HEADER \<in> set r))
    \<and> first_at cc (Text STOCK_CODE_HEADER) header \<and> first_at kc (Text CATEGORY_HEADER) header
    \<comment> \<open>the name files\<close>
    \<and> pl_json P en = Inr j_en \<and> json_iter j_en = Inr en_file \<and> pl_json P zh = Inr j_zh \<and> json_iter j_zh = Inr zh_file
    \<comment> \<open>the list\<close>
    \<and> distinct (map fst entries)
    \<and> (\<forall>(code, s) \<in> set entries. st_stock_code s = code \<and> st_exchange s = EXCHANGE
         \<and> name_or_empty (file_name zh_file code) = Some (st_company_name_zh s)
         \<and> name_or_empty (file_name en_file code) = Some (st_company_name_en s))
    \<and> (\<forall>code. code \<in> fst ` set entries \<longleftrightarrow>
         (\<exists>row \<in> set below. cc < length row \<and> kc < length row \<and> row ! kc = Text EQUITY_CATEGORY
            \<and> code = cell_str (row ! cc))
         \<and> (file_name en_file code \<noteq> None \<or> file_name zh_file code \<noteq> None)
         \<and> (\<exists>z e. name_or_empty (file_name zh_file code) = Some z \<and> name_or_empty (file_name en_file code) = Some e
              \<and> \<not> second_counter code z e))"
proof -
  from assms(1) obtain en_names zh_names codes where p: "parse_names P en = Inr en_names"
    "parse_names P zh = Inr zh_names" "parse_equity_codes P sec = Inr codes"
    "fold (entry_step en_names zh_names) (pl_order P codes) (Inr []) = Inr entries"
    by (auto simp: parse_hk_stock_list_def rbind_eq_Inr)
  obtain j_en en_file where en: "pl_json P en = Inr j_en" "json_iter j_en = Inr en_file"
    "\<And>code. map_of en_names code = file_name en_file code" using parse_names_Inr [OF p(1)] by blast
  obtain j_zh zh_file where zh: "pl_json P zh = Inr j_zh" "json_iter j_zh = Inr zh_file"
    "\<And>code. map_of zh_names code = file_name zh_file code" using parse_names_Inr [OF p(2)] by blast
  from p(3) obtain rows cc kc below css where rows: "pl_rows P sec = Inr rows" "find_header rows = Some (cc, kc, below)"
    and css: "rmap_list (equity_code cc kc) below = Inr css" "codes = py_fromkeys (concat css)"
    by (auto simp: parse_equity_codes_def rbind_eq_Inr split: option.splits)
  from find_header_Some [OF rows(2)] obtain above header where sheet: "rows = above @ header # below"
    "\<forall>r \<in> set above. \<not> (Text STOCK_CODE_HEADER \<in> set r \<and> Text CATEGORY_HEADER \<in> set r)"
    "first_at cc (Text STOCK_CODE_HEADER) header" "first_at kc (Text CATEGORY_HEADER) header" by blast
  note equity = rmap_equity_codes [OF css(1)]
  from fold_entries [OF p(4)] have d: "distinct (map fst entries)" and sub: "fst ` set entries \<subseteq> set codes"
    and ok: "\<forall>e \<in> set entries. entry_ok en_names zh_names e" using assms(2) by auto
  have fields: "\<forall>(code, s) \<in> set entries. st_stock_code s = code \<and> st_exchange s = EXCHANGE
      \<and> name_or_empty (file_name zh_file code) = Some (st_company_name_zh s)
      \<and> name_or_empty (file_name en_file code) = Some (st_company_name_en s)"
    using ok by (auto simp: entry_ok_def name_text_iff en zh)
  have "code \<in> fst ` set entries \<longleftrightarrow> code \<in> set codes
         \<and> (file_name en_file code \<noteq> None \<or> file_name zh_file code \<noteq> None)
         \<and> (\<exists>z e. name_or_empty (file_name zh_file code) = Some z \<and> name_or_empty (file_name en_file code) = Some e
              \<and> \<not> second_counter code z e)" for code
  proof
    assume "code \<in> fst ` set entries"
    with ok sub show "code \<in> set codes
         \<and> (file_name en_file code \<noteq> None \<or> file_name zh_file code \<noteq> None)
         \<and> (\<exists>z e. name_or_empty (file_name zh_file code) = Some z \<and> name_or_empty (file_name en_file code) = Some e
              \<and> \<not> second_counter code z e)"
      unfolding entry_ok_def name_text_iff en(3) zh(3) extra_counter_iff by fastforce
  next
    assume "code \<in> set codes
         \<and> (file_name en_file code \<noteq> None \<or> file_name zh_file code \<noteq> None)
         \<and> (\<exists>z e. name_or_empty (file_name zh_file code) = Some z \<and> name_or_empty (file_name en_file code) = Some e
              \<and> \<not> second_counter code z e)"
    then show "code \<in> fst ` set entries"
      using fold_entries_takes [OF p(4), of code] assms(2)
      unfolding name_text_iff en(3) zh(3) extra_counter_iff by blast
  qed
  moreover have "code \<in> set codes \<longleftrightarrow> (\<exists>row \<in> set below. cc < length row \<and> kc < length row
      \<and> row ! kc = Text EQUITY_CATEGORY \<and> code = cell_str (row ! cc))" for code
    unfolding css(2) set_py_fromkeys equity ..
  ultimately have exact: "\<forall>code. code \<in> fst ` set entries \<longleftrightarrow>
         (\<exists>row \<in> set below. cc < length row \<and> kc < length row \<and> row ! kc = Text EQUITY_CATEGORY
            \<and> code = cell_str (row ! cc))
         \<and> (file_name en_file code \<noteq> None \<or> file_name zh_file code \<noteq> None)
         \<and> (\<exists>z e. name_or_empty (file_name zh_file code) = Some z \<and> name_or_empty (file_name en_file code) = Some e
              \<and> \<not> second_counter code z e)" by simp
  from rows(1) sheet(1) have "pl_rows P sec = Inr (above @ header # below)" by simp
  with sheet(2-4) en(1,2) zh(1,2) d fields exact show ?thesis by blast
qed

section \<open>The refresh\<close>

definition same_cache :: "'z net_world_scheme \<Rightarrow> 'z net_world_scheme \<Rightarrow> bool" where
  "same_cache w w' \<longleftrightarrow> n_cache w' = n_cache w \<and> n_server w' = n_server w"

interpretation same_cache: monotone_io same_cache
  by unfold_locales (auto simp: same_cache_def)

lemma get_retrying_same: "always same_cache (get_retrying ws url)"
  by (rule alwaysI) (auto dest!: get_retrying_spec simp: same_cache_def)

lemma get_ok_same: "always same_cache (get_ok url)"
  unfolding get_ok_def raise_for_status_def
  by (auto intro!: same_cache.always_bind same_cache.always_ret same_cache.always_raise get_retrying_same)

lemma fetch_same_cache: "always same_cache (fetch_and_filter_hk_stock_list P)"
  unfolding fetch_and_filter_hk_stock_list_def download_files_def parse_files_def
  by (auto intro!: same_cache.always_bind same_cache.always_try same_cache.always_ret same_cache.always_raise
      same_cache.always_of_sum get_ok_same split: prod.splits exn.splits)

lemma reload_make: "reload L entries c = make_cache L entries"
  by (simp add: reload_def make_cache_def)

text \<open>A refresh that succeeds installs a cache whose entries and name index are those of one
  non-empty list; one that fails leaves a loaded cache alone and installs an empty one only if there
  was none; a cancelled one changes nothing.\<close>

theorem refresh_replaces_or_keeps:
  fixes w :: "'z net_world_scheme"
  assumes "refresh_hk_stock_list L P w = (r, w')"
  shows "case r of
      Inr n \<Rightarrow> \<exists>entries. entries \<noteq> [] \<and> length entries = n \<and> n_cache w' = Some (make_cache L entries)
    | Inl e \<Rightarrow> n_cache w' = (if is_exception e \<and> n_cache w = None then Some (make_cache L []) else n_cache w)"
proof -
  obtain q v where b: "refresh_attempt L P w = (q, v)" by fastforce
  have body: "case q of Inr n \<Rightarrow> \<exists>entries. entries \<noteq> [] \<and> length entries = n \<and> n_cache v = Some (make_cache L entries)
      | Inl e \<Rightarrow> n_cache v = n_cache w"
  proof (cases "n_client w")
    case False
    with b show ?thesis by (auto simp: refresh_attempt_def get_http_client_def io_defs)
  next
    case True
    obtain q1 v1 where f: "fetch_and_filter_hk_stock_list P w = (q1, v1)" by fastforce
    have same: "n_cache v1 = n_cache w" using alwaysD [OF fetch_same_cache f] by (simp add: same_cache_def)
    show ?thesis
    proof (cases q1)
      case (Inl e)
      with b True f same show ?thesis by (auto simp: refresh_attempt_def get_http_client_def io_defs)
    next
      case (Inr entries)
      with b True f same show ?thesis
        by (cases "entries = []"; cases "n_cache w")
          (auto simp: refresh_attempt_def get_http_client_def load_cache_def reload_make io_defs)
    qed
  qed
  with b assms show ?thesis
    by (cases q) (auto simp: refresh_hk_stock_list_def io_defs split: if_splits)
qed

lemma get_ok_errors:
  assumes "get_ok url w = (Inl e, w')" and "\<forall>k v e. n_server w k v = Inl e \<longrightarrow> is_httpx e"
  shows "is_httpx e"
proof -
  obtain q v where g: "get_retrying CONNECT_RETRY_WAITS_S url w = (q, v)" by fastforce
  have q: "is_httpx x" if "q = Inl x" for x
  proof -
    from get_retrying_spec [OF g] obtain k where "q = n_server w (n_requests w + k) url" by blast
    with that assms(2) show ?thesis by metis
  qed
  show ?thesis
  proof (cases q)
    case (Inl x)
    with assms(1) g q show ?thesis by (auto simp: get_ok_def bind_def)
  next
    case (Inr resp)
    with assms(1) g show ?thesis
      by (auto simp: get_ok_def bind_def raise_for_status_def raise_def ret_def split: if_splits)
  qed
qed

lemma bind_get_ok_errors:
  assumes "bind (get_ok url) f w = (Inl e, w')" and "\<forall>k v e. n_server w k v = Inl e \<longrightarrow> is_httpx e"
    and "\<And>x v. n_server v = n_server w \<Longrightarrow> f x v = (Inl e, w') \<Longrightarrow> is_httpx e"
  shows "is_httpx e"
proof -
  obtain q v where g: "get_ok url w = (q, v)" by fastforce
  with alwaysD [OF get_ok_same g] assms get_ok_errors show ?thesis
    by (cases q) (auto simp: bind_def same_cache_def)
qed

lemma download_errors:
  assumes "download_files w = (Inl e, w')" and s: "\<forall>k v e. n_server w k v = Inl e \<longrightarrow> is_httpx e"
  shows "is_httpx e"
  using assms(1) unfolding download_files_def
  by (elim bind_get_ok_errors) (use s in \<open>auto elim!: bind_get_ok_errors\<close>)

text \<open>While the HTTP library raises only its own errors, a failed refresh raises only
  ServiceUnavailableError or ParseError, whatever the responses hold.\<close>

theorem refresh_errors:
  fixes w :: "'z net_world_scheme"
  assumes "refresh_hk_stock_list L P w = (Inl e, w')" and s: "\<forall>k v x. n_server w k v = Inl x \<longrightarrow> is_httpx x"
    and p: "\<forall>a b c x. parse_hk_stock_list P a b c = Inl x \<longrightarrow> is_exception x"
  shows "\<exists>x. e = Sapi x \<and> err_class x \<in> {ServiceUnavailableError, ParseError}"
proof -
  have parse: "is_subclass c ParseError \<longleftrightarrow> c = ParseError" for c by (cases c) (simp_all add: is_subclass_def mro_simps)
  have shape: "\<exists>y. shape_error x = Sapi y \<and> err_class y = ParseError" if "is_exception x" for x
    using that parse by (cases x) (auto simp: shape_error_def)
  have f: "\<exists>x. y = Sapi x \<and> err_class x \<in> {ServiceUnavailableError, ParseError}"
    if "fetch_and_filter_hk_stock_list P w = (Inl y, v)" for y v
  proof -
    obtain q u where d: "download_files w = (q, u)" by fastforce
    show ?thesis
    proof (cases q)
      case (Inl z)
      with d download_errors [OF _ s] have "is_httpx z" by blast
      with that d Inl show ?thesis by (auto simp: fetch_and_filter_hk_stock_list_def bind_def try_except_def raise_def)
    next
      case (Inr c)
      with that d have "parse_files P c u = (Inl y, v)"
        by (simp add: fetch_and_filter_hk_stock_list_def bind_def try_except_def)
      then obtain x en zh sec where "parse_hk_stock_list P en zh sec = Inl x" "y = shape_error x"
        by (cases c) (auto simp: parse_files_def try_except_def of_sum_def split: sum.splits)
      moreover from this p have "is_exception x" by blast
      ultimately show ?thesis using shape [of x] by auto
    qed
  qed
  obtain q v where b: "refresh_attempt L P w = (q, v)" by fastforce
  have "q = Inl e"
    using assms(1) b by (cases q) (auto simp: refresh_hk_stock_list_def io_defs split: if_splits)
  show ?thesis
  proof (cases "n_client w")
    case False
    with b \<open>q = Inl e\<close> show ?thesis by (auto simp: refresh_attempt_def get_http_client_def io_defs)
  next
    case True
    obtain q1 v1 where g: "fetch_and_filter_hk_stock_list P w = (q1, v1)" by fastforce
    with b \<open>q = Inl e\<close> True f show ?thesis
      by (cases q1) (auto simp: refresh_attempt_def get_http_client_def load_cache_def io_defs split: if_splits)
  qed
qed

section \<open>A sample refresh\<close>

definition sample_parse_lib :: parse_lib where
  "sample_parse_lib = \<lparr>
     pl_json = (\<lambda>_. Inr (JArr [JObj [(u ''c'', JStr (u ''00700'')), (u ''n'', JStr (u ''AB''))],
                             JObj [(u ''c'', JStr (u ''04338'')), (u ''n'', JStr (u ''CD''))]])),
     pl_rows = (\<lambda>_. Inr [[Text STOCK_CODE_HEADER, Text CATEGORY_HEADER], [Text (u ''00700''), Text EQUITY_CATEGORY],
        [Text (u ''04338''), Text (u ''Bond'')]]),
     pl_order = (\<lambda>xs. xs) \<rparr>"

definition sample_net :: "(nat \<Rightarrow> pystr \<Rightarrow> exn + http_response) \<Rightarrow> net_world" where
  "sample_net server = \<lparr> w_now = 1700000300000000, w_ticks = [], w_next_uuid = 100,
     w_db = \<lparr> t_entity_events = [], t_events = [], t_event_entity_map = [], t_event_scores = [] \<rparr>,
     w_pg = [], w_streams = [], w_rs = [], w_state = [], w_rt = [], w_scan = (\<lambda>ks. ks),
     n_client = True, n_server = server, n_requests = 0, n_cache = None \<rparr>"

lemma sample_parsed:
  "parse_hk_stock_list sample_parse_lib a b c = Inr [(u ''00700'', \<lparr> st_stock_code = u ''00700'',
     st_exchange = EXCHANGE, st_company_name_zh = u ''AB'', st_company_name_en = u ''AB'' \<rparr>)]"
proof -
  have h: "u ''Stock Code'' \<noteq> u ''Category''" by simp
  have c: "parse_equity_codes sample_parse_lib c = Inr [u ''00700'']"
    by (simp add: parse_equity_codes_def sample_parse_lib_def STOCK_CODE_HEADER_def CATEGORY_HEADER_def
        equity_code_def row_item_def EQUITY_CATEGORY_def)
  have n: "parse_names sample_parse_lib d = Inr [(u ''00700'', JStr (u ''AB'')), (u ''04338'', JStr (u ''CD''))]" for d
    by (simp add: parse_names_def sample_parse_lib_def json_iter_def json_item_def)
  show ?thesis
    by (simp add: parse_hk_stock_list_def c n)
      (simp add: sample_parse_lib_def entry_step_def name_text_def is_extra_counter_def py_startswith_def
        py_endswith_def u_def)
qed

text \<open>Both of the sample's securities have names; only the equity is taken.\<close>

lemma parsed_list_entries_witness:
  "\<exists>above header below cc kc. pl_rows sample_parse_lib [] = Inr (above @ header # below)
     \<and> first_at cc (Text STOCK_CODE_HEADER) header \<and> first_at kc (Text CATEGORY_HEADER) header
     \<and> (\<exists>row \<in> set below. row ! kc = Text EQUITY_CATEGORY \<and> u ''00700'' = cell_str (row ! cc))
     \<and> \<not> (\<exists>row \<in> set below. cc < length row \<and> kc < length row \<and> row ! kc = Text EQUITY_CATEGORY
            \<and> u ''04338'' = cell_str (row ! cc))"
proof -
  define s where "s = \<lparr> st_stock_code = u ''00700'', st_exchange = EXCHANGE,
     st_company_name_zh = u ''AB'', st_company_name_en = u ''AB'' \<rparr>"
  note run = sample_parsed [of "[]" "[]" "[]", folded s_def]
  have o: "\<forall>xs. set (pl_order sample_parse_lib xs) = set xs" by (simp add: sample_parse_lib_def)
  from parsed_list_entries [OF run o] obtain above header below cc kc j_en en_file j_zh zh_file where
    r: "pl_rows sample_parse_lib [] = Inr (above @ header # below)" and
    f: "first_at cc (Text STOCK_CODE_HEADER) header" "first_at kc (Text CATEGORY_HEADER) header"
    and j: "pl_json sample_parse_lib [] = Inr j_en" "json_iter j_en = Inr en_file"
      "pl_json sample_parse_lib [] = Inr j_zh" "json_iter j_zh = Inr zh_file"
    and l: "\<forall>code. code \<in> fst ` set [(u ''00700'', s)] \<longleftrightarrow>
         (\<exists>row \<in> set below. cc < length row \<and> kc < length row \<and> row ! kc = Text EQUITY_CATEGORY
            \<and> code = cell_str (row ! cc))
         \<and> (file_name en_file code \<noteq> None \<or> file_name zh_file code \<noteq> None)
         \<and> (\<exists>z e. name_or_empty (file_name zh_file code) = Some z \<and> name_or_empty (file_name en_file code) = Some e
              \<and> \<not> second_counter code z e)"
    by (elim exE conjE) (rule that; assumption)
  have "file_name es (u ''04338'') = Some (JStr (u ''CD''))"
    if "json_iter x = Inr es" "pl_json sample_parse_lib [] = Inr x" for x es
    using that by (auto simp: sample_parse_lib_def json_iter_def file_name_def json_item_def)
  with j have "file_name en_file (u ''04338'') = Some (JStr (u ''CD''))" "file_name zh_file (u ''04338'') = Some (JStr (u ''CD''))"
    by blast+
  moreover have "\<not> second_counter (u ''04338'') (u ''CD'') (u ''CD'')"
    unfolding extra_counter_iff [symmetric] by (simp add: is_extra_counter_def py_endswith_def py_startswith_def u_def)
  moreover have "u ''04338'' \<notin> fst ` set [(u ''00700'', s)]" by simp
  ultimately have no: "\<not> (\<exists>row \<in> set below. cc < length row \<and> kc < length row \<and> row ! kc = Text EQUITY_CATEGORY
            \<and> u ''04338'' = cell_str (row ! cc))"
    using l [rule_format, of "u ''04338''"] by (simp add: name_or_empty_def)
  have "u ''00700'' \<in> fst ` set [(u ''00700'', s)]" by simp
  then have yes: "\<exists>row \<in> set below. row ! kc = Text EQUITY_CATEGORY \<and> u ''00700'' = cell_str (row ! cc)"
    unfolding l [rule_format] by blast
  from r f yes no show ?thesis by blast
qed

lemma sample_refresh:
  "\<exists>w'. refresh_hk_stock_list L sample_parse_lib (sample_net (\<lambda>_ _. Inr \<lparr> hr_status = 200, hr_content = [] \<rparr>)) = (Inr 1, w')"
  by (simp add: refresh_hk_stock_list_def refresh_attempt_def get_http_client_def fetch_and_filter_hk_stock_list_def
      download_files_def get_ok_def CONNECT_RETRY_WAITS_S_def http_get_def raise_for_status_def parse_files_def
      sample_parsed load_cache_def io_defs sample_net_def)

lemma refresh_replaces_or_keeps_witness:
  "\<exists>entries. entries \<noteq> [] \<and> length entries = 1 \<and> n_cache (snd (refresh_hk_stock_list plain_lib sample_parse_lib
     (sample_net (\<lambda>_ _. Inr \<lparr> hr_status = 200, hr_content = [] \<rparr>)))) = Some (make_cache plain_lib entries)"
proof -
  obtain w' where w': "refresh_hk_stock_list plain_lib sample_parse_lib
      (sample_net (\<lambda>_ _. Inr \<lparr> hr_status = 200, hr_content = [] \<rparr>)) = (Inr 1, w')"
    using sample_refresh by blast
  from refresh_replaces_or_keeps [OF this] w' show ?thesis by simp
qed

lemma refresh_errors_witness:
  "\<exists>x. fst (refresh_hk_stock_list plain_lib sample_parse_lib (sample_net (\<lambda>_ _. Inl HttpxError))) = Inl (Sapi x)
     \<and> err_class x \<in> {ServiceUnavailableError, ParseError}"
proof -
  have "\<exists>e w'. refresh_hk_stock_list plain_lib sample_parse_lib (sample_net (\<lambda>_ _. Inl HttpxError)) = (Inl e, w')"
    by (simp add: refresh_hk_stock_list_def refresh_attempt_def get_http_client_def fetch_and_filter_hk_stock_list_def
        download_files_def get_ok_def CONNECT_RETRY_WAITS_S_def http_get_def io_defs sample_net_def)
  then obtain e w' where r: "refresh_hk_stock_list plain_lib sample_parse_lib (sample_net (\<lambda>_ _. Inl HttpxError)) = (Inl e, w')"
    by blast
  have "\<exists>x. e = Sapi x \<and> err_class x \<in> {ServiceUnavailableError, ParseError}"
    by (rule refresh_errors [OF r]) (simp_all add: sample_net_def sample_parsed)
  with r show ?thesis by auto
qed

lemma connect_retries_bounded_witness:
  "\<exists>k. k \<le> 2 \<and> n_requests (snd (get_retrying CONNECT_RETRY_WAITS_S [] (sample_net (\<lambda>_ _. Inl HttpxConnectError)))) = Suc k"
proof -
  obtain r w' where r: "get_retrying CONNECT_RETRY_WAITS_S [] (sample_net (\<lambda>_ _. Inl HttpxConnectError)) = (r, w')"
    by fastforce
  from connect_retries_bounded [OF r] obtain k where "k \<le> 2"
    "n_requests w' = n_requests (sample_net (\<lambda>_ _. Inl HttpxConnectError)) + Suc k" by blast
  with r show ?thesis by (intro exI [of _ k]) (simp add: sample_net_def)
qed

end
