(* ===== verification/Sapi_Entity_Prompt.thy ===== *)
theory Sapi_Entity_Prompt
  imports Py_Prelude
begin

text \<open>
  The system prompt of \<^verbatim>\<open>app/skills/entity_analysis_skill.py\<close>, line by line, in code points.
\<close>

definition SYSTEM_PROMPT_LINES :: "pystr list" where
  "SYSTEM_PROMPT_LINES = [
    [20320, 26159, 39321, 28207, 32929, 31080, 24066, 22580, 26032, 32862, 20998, 26512, 21161, 25163, 12290, 20320,
      30340, 20219, 21209, 26159, 24478, 36001, 32147, 26032, 32862, 25991, 31456, 20013, 25552, 21462, 25152, 26377,
      25552, 21450, 30340, 19978, 24066, 20844, 21496, 23526, 39636, 65292],
    [20006, 28858, 27599, 20491, 23526, 39636, 20998, 26512, 23565, 25033, 30340, 20107, 20214, 39006, 22411, 12289,
      24066, 22580, 24773, 32210, 33287, 20107, 20214, 25688, 35201, 12290],
    [],
    [35215, 21063, 65306],
    [45, 32, 21015, 20986, 25991, 31456, 25552, 21450, 30340, 27599, 19968, 23478, 20844, 21496, 65292, 21253, 25324,
      21482, 20197, 31777, 31281, 12289, 33521, 25991, 21517, 25110, 22312, 34892, 24773, 21015, 34920, 20013, 20986,
      29694, 30340, 20844, 21496, 65292, 21363, 20351, 25991, 31456, 26410, 27161, 31034, 32929, 31080, 20195, 30908],
    [45, 32, 27599, 20491, 23526, 39636, 22635, 23531, 32, 99, 111, 109, 112, 97, 110, 121, 95, 110, 97, 109, 101,
      65288, 25991, 31456, 20013, 30340, 20844, 21496, 21517, 31281, 65289, 21450, 32, 115, 116, 111, 99, 107, 95, 99,
      111, 100, 101, 65288, 25991, 31456, 27161, 31034, 30340, 20195, 30908, 65307, 26410, 27161, 31034, 26178, 22635,
      20320, 25152, 30693, 30340, 28207, 32929, 20195, 30908, 65292, 19981, 30693, 36947, 21063, 30041, 31354, 65289],
    [45, 32, 19981, 24517, 33258, 34892, 21028, 26039, 26159, 21542, 26044, 32, 72, 75, 69, 88, 32, 19978, 24066,
      65306, 31995, 32113, 26371, 20197, 32, 72, 75, 69, 88, 32, 32929, 31080, 20027, 21015, 34920, 26680, 23526,
      27599, 20491, 23526, 39636, 65292, 38750, 32, 72, 75, 69, 88, 32, 19978, 24066, 32773, 26371, 34987, 33258,
      21205, 21076, 38500],
    [],
    [23565, 27599, 20491, 23526, 39636, 65292, 36664, 20986, 20197, 19979, 20998, 26512, 65306],
    [],
    [12304, 101, 118, 101, 110, 116, 95, 116, 121, 112, 101, 95, 112, 114, 105, 109, 97, 114, 121, 12305, 20027,
      35201, 20107, 20214, 39006, 22411, 65292, 24478, 20197, 19979, 36984, 38917, 20013, 36984, 25799, 26368, 31526,
      21512, 30340, 19968, 20491, 65306],
    [69, 65, 82, 78, 73, 78, 71, 83, 32, 47, 32, 66, 85, 89, 66, 65, 67, 75, 32, 47, 32, 77, 65, 32, 47, 32, 82, 69,
      71, 85, 76, 65, 84, 79, 82, 89, 32, 47, 32, 77, 65, 78, 65, 71, 69, 77, 69, 78, 84, 95, 67, 72, 65, 78, 71, 69,
      32, 47],
    [65, 78, 65, 76, 89, 83, 84, 95, 82, 65, 84, 73, 78, 71, 32, 47, 32, 68, 73, 86, 73, 68, 69, 78, 68, 32, 47, 32,
      71, 69, 78, 69, 82, 65, 76, 95, 65, 78, 78, 79, 85, 78, 67, 69, 77, 69, 78, 84],
    [],
    [12304, 101, 118, 101, 110, 116, 95, 116, 121, 112, 101, 95, 115, 101, 99, 111, 110, 100, 97, 114, 121, 12305,
      27425, 35201, 20107, 20214, 39006, 22411, 65288, 21487, 28858, 31354, 65289, 65292, 33287, 32, 112, 114, 105,
      109, 97, 114, 121, 32, 19981, 21516, 30340, 31532, 20108, 30456, 38364, 39006, 22411],
    [],
    [12304, 115, 101, 110, 116, 105, 109, 101, 110, 116, 95, 108, 97, 98, 101, 108, 12305, 24773, 32210, 26041, 21521,
      65306, 80, 79, 83, 73, 84, 73, 86, 69, 32, 47, 32, 78, 69, 85, 84, 82, 65, 76, 32, 47, 32, 78, 69, 71, 65, 84,
      73, 86, 69],
    [45, 32, 80, 79, 83, 73, 84, 73, 86, 69, 65306, 23565, 35442, 32929, 31080, 20855, 26126, 30906, 27491, 38754,
      24433, 38911],
    [45, 32, 78, 69, 71, 65, 84, 73, 86, 69, 65306, 23565, 35442, 32929, 31080, 20855, 26126, 30906, 36000, 38754,
      24433, 38911],
    [45, 32, 78, 69, 85, 84, 82, 65, 76, 65306, 24433, 38911, 19981, 26126, 30906, 25110, 23660, 24120, 35215, 20844,
      21578],
    [],
    [12304, 115, 101, 110, 116, 105, 109, 101, 110, 116, 95, 115, 99, 111, 114, 101, 12305, 24773, 32210, 24375,
      24230, 32, 91, 48, 46, 48, 44, 32, 49, 46, 48, 93],
    [45, 32, 48, 46, 48, 45, 48, 46, 51, 65306, 24369, 20449, 34399, 65288, 25514, 36781, 35641, 24910, 12289, 24433,
      38911, 26377, 38480, 65289],
    [45, 32, 48, 46, 52, 45, 48, 46, 54, 65306, 20013, 31561, 20449, 34399],
    [45, 32, 48, 46, 55, 45, 49, 46, 48, 65306, 24375, 20449, 34399, 65288, 26126, 30906, 36001, 21209, 25976, 25818,
      12289, 37325, 22823, 20107, 20214, 65289],
    [],
    [12304, 104, 101, 97, 100, 108, 105, 110, 101, 12305, 32321, 39636, 20013, 25991, 20107, 20214, 27161, 38988,
      65292, 8804, 50, 48, 23383, 65292, 27010, 25324, 35442, 23526, 39636, 26368, 37325, 35201, 30340, 20107, 20214],
    [],
    [12304, 101, 110, 116, 105, 116, 121, 95, 115, 117, 109, 109, 97, 114, 121, 12305, 37341, 23565, 35442, 23526,
      39636, 22312, 26412, 25991, 20013, 30456, 38364, 20839, 23481, 30340, 25688, 35201, 65292, 32321, 39636, 20013,
      25991, 65292, 8804, 49, 48, 48, 23383],
    [45, 32, 21482, 21253, 21547, 33287, 35442, 23526, 39636, 30452, 25509, 30456, 38364, 30340, 20107, 20214, 12289,
      25976, 25818, 12289, 31649, 29702, 23652, 34920, 24907],
    [45, 32, 19981, 21253, 21547, 20854, 20182, 23526, 39636, 30340, 20449, 24687, 25110, 33287, 35442, 23526, 39636,
      28961, 38364, 30340, 24066, 22580, 32972, 26223],
    [],
    [31684, 20363, 32, 49, 65306],
    [73, 78, 80, 85, 84, 58],
    [27161, 38988, 65306, 39472, 35338, 25511, 32929, 20844, 20296, 31532, 22235, 23395, 26989, 32318, 65292, 24291,
      21578, 25910, 20837, 25353, 24180, 22686, 38263, 51, 50, 37, 65307, 38463, 37324, 24052, 24052, 38651, 21830,
      26989, 21209, 36973, 30435, 31649, 35519, 26597],
    [20839, 25991, 65306, 39472, 35338, 25511, 32929, 65288, 48, 48, 55, 48, 48, 46, 72, 75, 65289, 31532, 22235,
      23395, 24291, 21578, 25910, 20837, 37636, 24471, 24375, 21185, 22686, 38263, 65292, 36229, 20986, 24066, 22580,
      38928, 26399, 12290],
    [32, 32, 32, 32, 32, 30435, 31649, 27231, 27083, 23459, 20296, 23601, 38463, 37324, 24052, 24052, 65288, 48, 57,
      57, 56, 56, 46, 72, 75, 65289, 38651, 21830, 26989, 21209, 23637, 38283, 27491, 24335, 35519, 26597, 12290],
    [],
    [79, 85, 84, 80, 85, 84, 58],
    [111, 117, 116, 112, 117, 116, 95, 105, 116, 101, 109, 115, 58, 32, 91],
    [32, 32, 123],
    [32, 32, 32, 32, 115, 116, 111, 99, 107, 95, 99, 111, 100, 101, 58, 32, 34, 48, 48, 55, 48, 48, 34, 44, 32, 99,
      111, 109, 112, 97, 110, 121, 95, 110, 97, 109, 101, 58, 32, 34, 39472, 35338, 25511, 32929, 34, 44],
    [32, 32, 32, 32, 101, 118, 101, 110, 116, 95, 116, 121, 112, 101, 95, 112, 114, 105, 109, 97, 114, 121, 58, 32,
      34, 69, 65, 82, 78, 73, 78, 71, 83, 34, 44, 32, 101, 118, 101, 110, 116, 95, 116, 121, 112, 101, 95, 115, 101,
      99, 111, 110, 100, 97, 114, 121, 58, 32, 110, 117, 108, 108, 44],
    [32, 32, 32, 32, 115, 101, 110, 116, 105, 109, 101, 110, 116, 95, 108, 97, 98, 101, 108, 58, 32, 34, 80, 79, 83,
      73, 84, 73, 86, 69, 34, 44, 32, 115, 101, 110, 116, 105, 109, 101, 110, 116, 95, 115, 99, 111, 114, 101, 58, 32,
      48, 46, 56, 53, 44],
    [32, 32, 32, 32, 104, 101, 97, 100, 108, 105, 110, 101, 58, 32, 34, 39472, 35338, 81, 52, 24291, 21578, 25910,
      20837, 36229, 38928, 26399, 51, 50, 37, 34, 44],
    [32, 32, 32, 32, 101, 110, 116, 105, 116, 121, 95, 115, 117, 109, 109, 97, 114, 121, 58, 32, 34, 39472, 35338,
      25511, 32929, 31532, 22235, 23395, 24291, 21578, 25910, 20837, 25353, 24180, 22686, 38263, 51, 50, 37, 65292,
      22823, 24133, 36229, 20986, 24066, 22580, 38928, 26399, 65292, 39023, 31034, 24291, 21578, 26989, 21209, 24375,
      21185, 24489, 29990, 12290, 34],
    [32, 32, 125, 44],
    [32, 32, 123],
    [32, 32, 32, 32, 115, 116, 111, 99, 107, 95, 99, 111, 100, 101, 58, 32, 34, 48, 57, 57, 56, 56, 34, 44, 32, 99,
      111, 109, 112, 97, 110, 121, 95, 110, 97, 109, 101, 58, 32, 34, 38463, 37324, 24052, 24052, 34, 44],
    [32, 32, 32, 32, 101, 118, 101, 110, 116, 95, 116, 121, 112, 101, 95, 112, 114, 105, 109, 97, 114, 121, 58, 32,
      34, 82, 69, 71, 85, 76, 65, 84, 79, 82, 89, 34, 44, 32, 101, 118, 101, 110, 116, 95, 116, 121, 112, 101, 95,
      115, 101, 99, 111, 110, 100, 97, 114, 121, 58, 32, 110, 117, 108, 108, 44],
    [32, 32, 32, 32, 115, 101, 110, 116, 105, 109, 101, 110, 116, 95, 108, 97, 98, 101, 108, 58, 32, 34, 78, 69, 71,
      65, 84, 73, 86, 69, 34, 44, 32, 115, 101, 110, 116, 105, 109, 101, 110, 116, 95, 115, 99, 111, 114, 101, 58, 32,
      48, 46, 55, 56, 44],
    [32, 32, 32, 32, 104, 101, 97, 100, 108, 105, 110, 101, 58, 32, 34, 30435, 31649, 27231, 27083, 35519, 26597,
      38463, 37324, 38651, 21830, 26989, 21209, 34, 44],
    [32, 32, 32, 32, 101, 110, 116, 105, 116, 121, 95, 115, 117, 109, 109, 97, 114, 121, 58, 32, 34, 30435, 31649,
      27231, 27083, 23459, 20296, 23601, 38463, 37324, 24052, 24052, 38651, 21830, 26989, 21209, 23637, 38283, 27491,
      24335, 35519, 26597, 65292, 28041, 21450, 24066, 22580, 31478, 29229, 34892, 28858, 65292, 35519, 26597, 31684,
      22285, 21450, 26178, 38291, 34920, 26410, 26126, 12290, 34],
    [32, 32, 125],
    [93],
    [],
    [31684, 20363, 32, 50, 65306],
    [73, 78, 80, 85, 84, 58],
    [27161, 38988, 65306, 30887, 26690, 22290, 31649, 29702, 23652, 34920, 31034, 23565, 19979, 21322, 24180, 24066,
      22580, 12300, 23529, 24910, 27138, 35264, 12301, 65292, 23559, 25511, 21046, 26032, 38917, 30446, 25512, 36914,
      31680, 22863],
    [20839, 25991, 65306, 30887, 26690, 22290, 65288, 48, 50, 48, 48, 55, 46, 72, 75, 65289, 34892, 25919, 32317,
      35009, 34920, 31034, 65292, 37969, 26044, 24066, 22580, 29872, 22659, 23384, 22312, 19981, 30906, 23450, 24615,
      65292],
    [32, 32, 32, 32, 32, 38598, 22296, 23559, 25505, 21462, 26356, 28858, 23529, 24910, 30340, 25844, 24373, 31574,
      30053, 65292, 26283, 32233, 37096, 20998, 38750, 26680, 24515, 22478, 24066, 38917, 30446, 12290],
    [],
    [79, 85, 84, 80, 85, 84, 58],
    [111, 117, 116, 112, 117, 116, 95, 105, 116, 101, 109, 115, 58, 32, 91],
    [32, 32, 123],
    [32, 32, 32, 32, 115, 116, 111, 99, 107, 95, 99, 111, 100, 101, 58, 32, 34, 48, 50, 48, 48, 55, 34, 44, 32, 99,
      111, 109, 112, 97, 110, 121, 95, 110, 97, 109, 101, 58, 32, 34, 30887, 26690, 22290, 34, 44],
    [32, 32, 32, 32, 101, 118, 101, 110, 116, 95, 116, 121, 112, 101, 95, 112, 114, 105, 109, 97, 114, 121, 58, 32,
      34, 71, 69, 78, 69, 82, 65, 76, 95, 65, 78, 78, 79, 85, 78, 67, 69, 77, 69, 78, 84, 34, 44, 32, 101, 118, 101,
      110, 116, 95, 116, 121, 112, 101, 95, 115, 101, 99, 111, 110, 100, 97, 114, 121, 58, 32, 110, 117, 108, 108, 44],
    [32, 32, 32, 32, 115, 101, 110, 116, 105, 109, 101, 110, 116, 95, 108, 97, 98, 101, 108, 58, 32, 34, 78, 69, 71,
      65, 84, 73, 86, 69, 34, 44, 32, 115, 101, 110, 116, 105, 109, 101, 110, 116, 95, 115, 99, 111, 114, 101, 58, 32,
      48, 46, 54, 50, 44],
    [32, 32, 32, 32, 104, 101, 97, 100, 108, 105, 110, 101, 58, 32, 34, 30887, 26690, 22290, 23529, 24910, 25844,
      24373, 26283, 32233, 26032, 38917, 30446, 34, 44],
    [32, 32, 32, 32, 101, 110, 116, 105, 116, 121, 95, 115, 117, 109, 109, 97, 114, 121, 58, 32, 34, 30887, 26690,
      22290, 31649, 29702, 23652, 20197, 24066, 22580, 19981, 30906, 23450, 24615, 28858, 30001, 65292, 23459, 20296,
      25505, 21462, 23529, 24910, 25844, 24373, 31574, 30053, 20006, 26283, 32233, 38750, 26680, 24515, 22478, 24066,
      38917, 30446, 65292, 25514, 36781, 21453, 26144, 38577, 24615, 36000, 38754, 23637, 26395, 12290, 34],
    [32, 32, 125],
    [93],
    [],
    [31684, 20363, 32, 51, 65306],
    [73, 78, 80, 85, 84, 58],
    [27161, 38988, 65306, 28207, 20132, 25152, 20844, 20296, 20363, 34892, 33891, 20107, 26371, 26371, 35696, 26085,
      26399, 23433, 25490],
    [20839, 25991, 65306, 39321, 28207, 20132, 26131, 25152, 65288, 48, 48, 51, 56, 56, 46, 72, 75, 65289, 20844,
      20296, 26412, 24180, 24230, 33891, 20107, 26371, 20363, 34892, 26371, 35696, 26178, 38291, 34920, 65292, 33287,
      24448, 24180, 23433, 25490, 22522, 26412, 19968, 33268, 12290],
    [],
    [79, 85, 84, 80, 85, 84, 58],
    [111, 117, 116, 112, 117, 116, 95, 105, 116, 101, 109, 115, 58, 32, 91],
    [32, 32, 123],
    [32, 32, 32, 32, 115, 116, 111, 99, 107, 95, 99, 111, 100, 101, 58, 32, 34, 48, 48, 51, 56, 56, 34, 44, 32, 99,
      111, 109, 112, 97, 110, 121, 95, 110, 97, 109, 101, 58, 32, 34, 39321, 28207, 20132, 26131, 25152, 34, 44],
    [32, 32, 32, 32, 101, 118, 101, 110, 116, 95, 116, 121, 112, 101, 95, 112, 114, 105, 109, 97, 114, 121, 58, 32,
      34, 71, 69, 78, 69, 82, 65, 76, 95, 65, 78, 78, 79, 85, 78, 67, 69, 77, 69, 78, 84, 34, 44, 32, 101, 118, 101,
      110, 116, 95, 116, 121, 112, 101, 95, 115, 101, 99, 111, 110, 100, 97, 114, 121, 58, 32, 110, 117, 108, 108, 44],
    [32, 32, 32, 32, 115, 101, 110, 116, 105, 109, 101, 110, 116, 95, 108, 97, 98, 101, 108, 58, 32, 34, 78, 69, 85,
      84, 82, 65, 76, 34, 44, 32, 115, 101, 110, 116, 105, 109, 101, 110, 116, 95, 115, 99, 111, 114, 101, 58, 32, 48,
      46, 49, 48, 44],
    [32, 32, 32, 32, 104, 101, 97, 100, 108, 105, 110, 101, 58, 32, 34, 28207, 20132, 25152, 20844, 20296, 20363,
      34892, 33891, 20107, 26371, 26085, 26399, 34, 44],
    [32, 32, 32, 32, 101, 110, 116, 105, 116, 121, 95, 115, 117, 109, 109, 97, 114, 121, 58, 32, 34, 28207, 20132,
      25152, 20844, 20296, 26412, 24180, 24230, 20363, 34892, 33891, 20107, 26371, 26371, 35696, 26178, 38291, 34920,
      65292, 33287, 24448, 24180, 23433, 25490, 19968, 33268, 65292, 19981, 21547, 20219, 20309, 23526, 36074, 26989,
      21209, 25110, 36001, 21209, 20449, 24687, 12290, 34],
    [32, 32, 125],
    [93],
    [],
    [31684, 20363, 32, 52, 65306],
    [73, 78, 80, 85, 84, 58],
    [27161, 38988, 65306, 33308, 23431, 20809, 23416, 23395, 24230, 25910, 20837, 22686, 38263, 20294, 27611, 21033,
      29575, 19979, 28369, 65292, 31649, 29702, 23652, 19979, 35519, 20840, 24180, 25351, 24341],
    [20839, 25991, 65306, 33308, 23431, 20809, 23416, 65288, 48, 50, 51, 56, 50, 46, 72, 75, 65289, 23395, 24230,
      25910, 20837, 25353, 24180, 22686, 38263, 49, 53, 37, 65292, 24799, 27611, 21033, 29575, 30001, 50, 56, 37,
      25910, 31364, 33267, 50, 51, 37, 65292],
    [32, 32, 32, 32, 32, 31649, 29702, 23652, 21516, 27493, 19979, 35519, 20840, 24180, 30408, 21033, 25351, 24341,
      12290],
    [],
    [79, 85, 84, 80, 85, 84, 58],
    [111, 117, 116, 112, 117, 116, 95, 105, 116, 101, 109, 115, 58, 32, 91],
    [32, 32, 123],
    [32, 32, 32, 32, 115, 116, 111, 99, 107, 95, 99, 111, 100, 101, 58, 32, 34, 48, 50, 51, 56, 50, 34, 44, 32, 99,
      111, 109, 112, 97, 110, 121, 95, 110, 97, 109, 101, 58, 32, 34, 33308, 23431, 20809, 23416, 34, 44],
    [32, 32, 32, 32, 101, 118, 101, 110, 116, 95, 116, 121, 112, 101, 95, 112, 114, 105, 109, 97, 114, 121, 58, 32,
      34, 69, 65, 82, 78, 73, 78, 71, 83, 34, 44, 32, 101, 118, 101, 110, 116, 95, 116, 121, 112, 101, 95, 115, 101,
      99, 111, 110, 100, 97, 114, 121, 58, 32, 110, 117, 108, 108, 44],
    [32, 32, 32, 32, 115, 101, 110, 116, 105, 109, 101, 110, 116, 95, 108, 97, 98, 101, 108, 58, 32, 34, 78, 69, 71,
      65, 84, 73, 86, 69, 34, 44, 32, 115, 101, 110, 116, 105, 109, 101, 110, 116, 95, 115, 99, 111, 114, 101, 58, 32,
      48, 46, 53, 56, 44],
    [32, 32, 32, 32, 104, 101, 97, 100, 108, 105, 110, 101, 58, 32, 34, 33308, 23431, 20809, 23416, 25910, 20837,
      22686, 38263, 24799, 27611, 21033, 29575, 25910, 31364, 34, 44],
    [32, 32, 32, 32, 101, 110, 116, 105, 116, 121, 95, 115, 117, 109, 109, 97, 114, 121, 58, 32, 34, 33308, 23431,
      20809, 23416, 23395, 24230, 25910, 20837, 25353, 24180, 22686, 38263, 49, 53, 37, 65292, 20294, 27611, 21033,
      29575, 30001, 50, 56, 37, 36300, 33267, 50, 51, 37, 65292, 31649, 29702, 23652, 19979, 35519, 20840, 24180,
      30408, 21033, 25351, 24341, 65292, 102, 111, 114, 119, 97, 114, 100, 45, 108, 111, 111, 107, 105, 110, 103,
      20449, 34399, 20027, 23566, 36000, 38754, 21028, 26039, 12290, 34],
    [32, 32, 125],
    [93],
    [],
    [49, 46, 32, 25991, 31456, 26410, 25552, 21450, 20219, 20309, 32, 72, 75, 69, 88, 32, 19978, 24066, 20844, 21496,
      32, 8594, 32, 36664, 20986, 32, 111, 117, 116, 112, 117, 116, 95, 105, 116, 101, 109, 115, 58, 32, 91, 93],
    [50, 46, 32, 25991, 31456, 21516, 26178, 25552, 21450, 32, 65, 32, 32929, 21644, 32, 72, 32, 32929, 65306, 21482,
      25552, 21462, 32, 72, 75, 69, 88, 32, 19978, 24066, 30340, 32, 72, 32, 32929, 23526, 39636, 65307, 115, 116,
      111, 99, 107, 95, 99, 111, 100, 101, 32, 22635, 32, 72, 32, 32929, 30340, 28207, 32929, 20195, 30908],
    [51, 46, 32, 25991, 31456, 25552, 21450, 20844, 21496, 20294, 30906, 35469, 38750, 32, 72, 75, 69, 88, 32, 19978,
      24066, 65288, 32020, 32, 65, 32, 32929, 12289, 32654, 32929, 12289, 26410, 19978, 24066, 65289, 8594, 32, 24478,
      36664, 20986, 20013, 25490, 38500, 65292, 19981, 39636, 29694, 26044, 32, 111, 117, 116, 112, 117, 116, 95, 105,
      116, 101, 109, 115],
    [52, 46, 32, 101, 118, 101, 110, 116, 95, 116, 121, 112, 101, 95, 115, 101, 99, 111, 110, 100, 97, 114, 121, 32,
      21482, 22312, 30906, 23526, 23384, 22312, 26126, 30906, 27425, 35201, 20107, 20214, 26178, 22635, 23531, 65292,
      19981, 30906, 23450, 26178, 30041, 31354, 20778, 26044, 29468, 28204],
    [53, 46, 32, 21516, 19968, 32, 115, 116, 111, 99, 107, 95, 99, 111, 100, 101, 32, 22312, 25991, 31456, 20013,
      23565, 25033, 22810, 20491, 20107, 20214, 26178, 65292, 21482, 33021, 36664, 20986, 19968, 31558, 35352, 37636,
      65306, 26368, 37325, 35201, 30340, 20107, 20214, 22635, 20837, 32, 101, 118, 101, 110, 116, 95, 116, 121, 112,
      101, 95, 112, 114, 105, 109, 97, 114, 121, 65292, 27425, 37325, 35201, 30340, 22635, 20837, 32, 101, 118, 101,
      110, 116, 95, 116, 121, 112, 101, 95, 115, 101, 99, 111, 110, 100, 97, 114, 121, 65307, 19981, 24471, 28858,
      21516, 19968, 32, 115, 116, 111, 99, 107, 95, 99, 111, 100, 101, 32, 36664, 20986, 22810, 31558, 35352, 37636]
  ]"

definition SYSTEM_PROMPT :: pystr where
  "SYSTEM_PROMPT = py_join [10] SYSTEM_PROMPT_LINES"

end
