(* ===== verification/Sapi_Entity_Skill.thy ===== *)
theory Sapi_Entity_Skill
  imports Sapi_Stock_List Sapi_Entity_Prompt
begin

text \<open>
  \<^verbatim>\<open>app/skills\<close> and \<^verbatim>\<open>app/llm\<close>: the adapter's classification of provider errors and of responses,
  the skill that finds the listed companies of an article, its verification of an extracted
  company against the stock list and its business constraints. The provider and the schema
  validation (pydantic) are parameters; a sentiment score is a number, never NaN.
\<close>

section \<open>The adapter\<close>

datatype role = SYSTEM | USER | ASSISTANT

record generation_config =
  gc_model :: pystr
  gc_temperature :: pyfloat
  gc_max_output_tokens :: int

record message =
  ms_role :: role
  ms_content :: pystr

record 'o structured_response =
  sr_output :: 'o
  sr_input_tokens :: int
  sr_output_tokens :: int
  sr_latency_ms :: int

text \<open>What the SDK raises: an \<^verbatim>\<open>APIError\<close> with its code, a \<^verbatim>\<open>ClientError\<close> or not, or any other
  exception, or the task is cancelled.\<close>

datatype provider_exn = Api_error int bool | Other_error | Provider_cancelled

record usage_metadata =
  um_prompt_token_count :: "int option"
  um_candidates_token_count :: "int option"
  um_thoughts_token_count :: "int option"

record provider_request =
  pr_model :: pystr
  pr_system_instruction :: "pystr list"
  pr_contents :: "(pystr \<times> pystr) list"
  pr_temperature :: pyfloat
  pr_max_output_tokens :: int

text \<open>A reply, with the time the call took in milliseconds.\<close>

record provider_response =
  pv_text :: "pystr option"
  pv_usage :: "usage_metadata option"
  pv_latency_ms :: int

record llm_world = net_world +
  l_adapter :: bool
  l_provider :: "nat \<Rightarrow> provider_request \<Rightarrow> provider_exn + provider_response"
  l_calls :: nat

type_synonym ('z, 'a) llm = "('z llm_world_scheme, exn, 'a) io"

fun provider_role :: "role \<Rightarrow> pystr option" where
  "provider_role USER = Some (u ''user'')"
| "provider_role ASSISTANT = Some (u ''model'')"
| "provider_role SYSTEM = None"

definition AUTHENTICATION_CODES :: "int list" where "AUTHENTICATION_CODES = [401, 403]"

definition call_error :: "provider_exn \<Rightarrow> sapi_error" where
  "call_error exc =
     (case exc of
        Api_error code client \<Rightarrow>
          if code = 429 then sapi_err LLMRateLimitError LLM_CATEGORY
          else if code \<in> set AUTHENTICATION_CODES then sapi_err LLMAuthenticationError LLM_CATEGORY
          else if client then sapi_err LLMRequestError LLM_CATEGORY
          else sapi_err LLMProviderError LLM_CATEGORY
      | _ \<Rightarrow> sapi_err LLMProviderError LLM_CATEGORY)"

definition get_llm_adapter :: "('z, unit) llm" where
  "get_llm_adapter = bind (get_w l_adapter) (\<lambda>b.
     if b then ret () else raise (Sapi (sapi_err ServiceUnavailableError LLM_CATEGORY)))"

definition or_zero :: "int option \<Rightarrow> int" where
  "or_zero x = (case x of None \<Rightarrow> 0 | Some n \<Rightarrow> n)"

definition provider_call :: "provider_request \<Rightarrow> ('z, provider_exn + provider_response) llm" where
  "provider_call req = (\<lambda>w. (Inr (l_provider w (l_calls w) req), w\<lparr> l_calls := Suc (l_calls w) \<rparr>))"

definition generate_structured ::
  "(pystr \<Rightarrow> 'o option) \<Rightarrow> message list \<Rightarrow> generation_config \<Rightarrow> ('z, 'o structured_response) llm" where
  "generate_structured validate messages cfg =
     bind (provider_call
       \<lparr> pr_model = gc_model cfg,
         pr_system_instruction = map ms_content (filter (\<lambda>m. ms_role m = SYSTEM) messages),
         pr_contents = List.map_filter (\<lambda>m. map_option (\<lambda>r. (r, ms_content m)) (provider_role (ms_role m))) messages,
         pr_temperature = gc_temperature cfg,
         pr_max_output_tokens = gc_max_output_tokens cfg \<rparr>) (\<lambda>reply.
     case reply of
       Inl Provider_cancelled \<Rightarrow> raise Cancelled
     | Inl exc \<Rightarrow> raise (Sapi (call_error exc))
     | Inr r \<Rightarrow>
         (case validate (case pv_text r of None \<Rightarrow> [] | Some t \<Rightarrow> t) of
            None \<Rightarrow> raise (Sapi (sapi_err LLMSchemaViolationError LLM_CATEGORY))
          | Some out \<Rightarrow>
              let usage = (case pv_usage r of
                    None \<Rightarrow> \<lparr> um_prompt_token_count = None, um_candidates_token_count = None,
                              um_thoughts_token_count = None \<rparr>
                  | Some x \<Rightarrow> x)
              in ret \<lparr> sr_output = out, sr_input_tokens = or_zero (um_prompt_token_count usage),
                       sr_output_tokens = or_zero (um_candidates_token_count usage)
                                        + or_zero (um_thoughts_token_count usage),
                       sr_latency_ms = pv_latency_ms r \<rparr>))"

section \<open>The skill's data\<close>

definition ENTITY_SKILL_VERSION :: pystr where "ENTITY_SKILL_VERSION = u ''v1.0.0''"

definition GENERATION_CONFIG :: generation_config where
  "GENERATION_CONFIG =
     \<lparr> gc_model = u ''gemini-3.1-flash-lite'', gc_temperature = 0, gc_max_output_tokens = 16384 \<rparr>"

definition HEADLINE_MAX_CHARS :: nat where "HEADLINE_MAX_CHARS = 20"
definition ENTITY_SUMMARY_MAX_CHARS :: nat where "ENTITY_SUMMARY_MAX_CHARS = 100"
definition BUSINESS_VALIDATION_ERROR :: pystr where
  "BUSINESS_VALIDATION_ERROR = u ''BusinessValidationError''"
definition NOT_IN_HK_STOCK_LIST :: pystr where "NOT_IN_HK_STOCK_LIST = u ''not_in_hk_stock_list''"

record llm_call_metric =
  cm_call_index :: int
  cm_purpose :: pystr
  cm_input_tokens :: int
  cm_output_tokens :: int
  cm_latency_ms :: int

text \<open>The detail of an error of the LLM is its dev_message, left out like every dev_message.\<close>

record llm_error_entry =
  le_call_index :: int
  le_error_type :: "pystr + sapi_class"
  le_error_detail :: "pystr option"
  le_retried :: bool

record entity_analysis_input =
  in_title :: pystr
  in_body :: pystr

record extracted_entity =
  xe_stock_code :: "pystr option"
  xe_company_name :: pystr
  xe_event_type_primary :: event_type
  xe_event_type_secondary :: "event_type option"
  xe_sentiment_label :: sentiment
  xe_sentiment_score :: pyfloat
  xe_headline :: pystr
  xe_entity_summary :: pystr

type_synonym llm_output = "extracted_entity list"

record unverified_entity =
  ue_stock_code :: "pystr option"
  ue_company_name :: pystr
  ue_reason :: pystr

record verified_entity =
  ve_stock :: stock
  ve_outcome :: analysis_outcome

record skill_log =
  sl_skill_version :: pystr
  sl_verified_entities :: "pystr list"
  sl_unverified_entities :: "unverified_entity list"
  sl_input_truncated :: bool
  sl_llm_calls :: "llm_call_metric list"
  sl_total_input_tokens :: int
  sl_total_output_tokens :: int
  sl_total_latency_ms :: int
  sl_llm_errors :: "llm_error_entry list"
  sl_timestamp :: instant

record entity_analysis_result =
  rs_entity_events :: "verified_entity list option"
  rs_skill_log :: skill_log
  rs_failure_reason :: "sapi_error option"

text \<open>The skill's instance.\<close>

record skill =
  sk_input :: entity_analysis_input
  sk_llm_calls :: "llm_call_metric list"
  sk_llm_errors :: "llm_error_entry list"
  sk_verified_entities :: "pystr list"
  sk_unverified_entities :: "unverified_entity list"
  sk_input_truncated :: bool

definition new_skill :: "entity_analysis_input \<Rightarrow> skill" where
  "new_skill x = \<lparr> sk_input = x, sk_llm_calls = [], sk_llm_errors = [], sk_verified_entities = [],
     sk_unverified_entities = [], sk_input_truncated = False \<rparr>"

section \<open>Verification\<close>

definition STOCK_CODE_INPUT :: rx where
  "STOCK_CODE_INPUT = Cat (Rep (Sat py_isdecimal) 2 (Some 5)) (opt_rx (ilit_rx (u ''.HK'')))"

definition parse_stock_code :: "pystr option \<Rightarrow> pystr option" where
  "parse_stock_code raw =
     (let text = py_strip (case raw of None \<Rightarrow> [] | Some s \<Rightarrow> s)
      in if \<not> rx_fullmatch STOCK_CODE_INPUT text then None
         else Some (py_zfill 5 (py_removesuffix (map upper_ascii text) (u ''.HK''))))"

text \<open>The four alternatives of the pattern, for the number's decimal text: in brackets, before .HK,
  after "Stock Code", after its Chinese form.\<close>

definition code_pattern :: "pystr \<Rightarrow> rx" where
  "code_pattern number =
     (let sp = star_rx (Sat py_isspace);
          num = Cat (star_rx (chr_rx 48)) (lit_rx number);
          colon = opt_rx (Sat (\<lambda>c. c = 58 \<or> c = 65306));
          no_digit = NotAhead (Sat py_isdecimal)
      in Alt (Cat (Sat (\<lambda>c. c = 65288 \<or> c = 40)) (Cat sp (Cat (Ahead (Rep (Sat py_isdecimal) 3 (Some 3)))
                (Cat num (Cat (opt_rx (lit_rx (u ''.HK''))) (Cat sp (Sat (\<lambda>c. c = 41 \<or> c = 65289))))))))
        (Alt (Cat (NotBehind py_isdecimal) (Cat num (lit_rx (u ''.HK''))))
        (Alt (Cat (ilit_rx (u ''stock'')) (Cat sp (Cat (ilit_rx (u ''code'')) (Cat (opt_rx (Sat (same_letter 115)))
                (Cat sp (Cat colon (Cat sp (Cat num no_digit))))))))
             (Cat (lit_rx [32929, 20221, 20195, 34399]) (Cat sp (Cat colon (Cat sp (Cat num no_digit))))))))"

text \<open>\<^verbatim>\<open>int(code)\<close> fails on a text that is not a number.\<close>

definition code_printed :: "pystr \<Rightarrow> pystr \<Rightarrow> bool res" where
  "code_printed code article_text =
     (if code = [] \<or> \<not> list_all py_isdecimal code then Inl (Py ValueError)
      else Inr (rx_found (code_pattern (dec_digits (decimal_int code))) article_text))"

definition verify_entity ::
  "text_lib \<Rightarrow> hk_stock_list_cache \<Rightarrow> extracted_entity \<Rightarrow> pystr \<Rightarrow> stock option res" where
  "verify_entity L cache extracted article_text =
     (let stock = (case parse_stock_code (xe_stock_code extracted) of
            None \<Rightarrow> None
          | Some code \<Rightarrow> if code = [] then None else map_of (hc_entries cache) code)
      in case stock of
           None \<Rightarrow> lookup_stock L (Some cache) (xe_company_name extracted)
         | Some s \<Rightarrow>
             rbind (name_matches_stock L (Some cache) (xe_company_name extracted) s) (\<lambda>fits.
             if fits then Inr (Some s)
             else rbind (code_printed (st_stock_code s) article_text) (\<lambda>printed.
                  if printed then Inr (Some s) else lookup_stock L (Some cache) (xe_company_name extracted))))"

section \<open>Business constraints\<close>

definition validation_error :: "pystr \<Rightarrow> llm_error_entry" where
  "validation_error detail = \<lparr> le_call_index = 1, le_error_type = Inl BUSINESS_VALIDATION_ERROR,
     le_error_detail = Some detail, le_retried = False \<rparr>"

definition clip_score :: "analysis_outcome \<times> llm_error_entry list \<Rightarrow> analysis_outcome \<times> llm_error_entry list" where
  "clip_score = (\<lambda>(o1, errs).
     if \<not> (0 \<le> ao_sentiment_score o1 \<and> ao_sentiment_score o1 \<le> 1)
     then (o1\<lparr> ao_sentiment_score := min (max (ao_sentiment_score o1) 0) 1 \<rparr>,
           errs @ [validation_error (ao_stock_code o1 @ u '' sentiment_score clipped'')])
     else (o1, errs))"

definition truncate_headline :: "analysis_outcome \<times> llm_error_entry list \<Rightarrow> analysis_outcome \<times> llm_error_entry list" where
  "truncate_headline = (\<lambda>(o1, errs).
     if HEADLINE_MAX_CHARS < length (ao_headline o1)
     then (o1\<lparr> ao_headline := take HEADLINE_MAX_CHARS (ao_headline o1) \<rparr>,
           errs @ [validation_error (ao_stock_code o1 @ u '' headline truncated'')])
     else (o1, errs))"

definition truncate_summary :: "analysis_outcome \<times> llm_error_entry list \<Rightarrow> analysis_outcome \<times> llm_error_entry list" where
  "truncate_summary = (\<lambda>(o1, errs).
     if ENTITY_SUMMARY_MAX_CHARS < length (ao_entity_summary o1)
     then (o1\<lparr> ao_entity_summary := take ENTITY_SUMMARY_MAX_CHARS (ao_entity_summary o1) \<rparr>,
           errs @ [validation_error (ao_stock_code o1 @ u '' entity_summary truncated'')])
     else (o1, errs))"

definition clear_secondary :: "analysis_outcome \<times> llm_error_entry list \<Rightarrow> analysis_outcome \<times> llm_error_entry list" where
  "clear_secondary = (\<lambda>(o1, errs).
     if ao_event_type_secondary o1 = Some (ao_event_type_primary o1)
     then (o1\<lparr> ao_event_type_secondary := None \<rparr>,
           errs @ [validation_error (ao_stock_code o1 @ u '' event_type_secondary cleared'')])
     else (o1, errs))"

definition enforce_constraints ::
  "analysis_outcome \<Rightarrow> llm_error_entry list \<Rightarrow> analysis_outcome \<times> llm_error_entry list" where
  "enforce_constraints outcome errs =
     clear_secondary (truncate_summary (truncate_headline (clip_score (outcome, errs))))"

section \<open>Running the skill\<close>

definition create_skill_log :: "skill \<Rightarrow> ('z, skill_log) sapi" where
  "create_skill_log sk = bind datetime_now (\<lambda>now. ret
     \<lparr> sl_skill_version = ENTITY_SKILL_VERSION,
       sl_verified_entities = sk_verified_entities sk,
       sl_unverified_entities = sk_unverified_entities sk,
       sl_input_truncated = sk_input_truncated sk,
       sl_llm_calls = sk_llm_calls sk,
       sl_total_input_tokens = sum_list (map cm_input_tokens (sk_llm_calls sk)),
       sl_total_output_tokens = sum_list (map cm_output_tokens (sk_llm_calls sk)),
       sl_total_latency_ms = sum_list (map cm_latency_ms (sk_llm_calls sk)),
       sl_llm_errors = sk_llm_errors sk,
       sl_timestamp = now \<rparr>)"

definition outcome_of :: "stock \<Rightarrow> extracted_entity \<Rightarrow> analysis_outcome" where
  "outcome_of s x = \<lparr> ao_stock_code = st_stock_code s,
     ao_event_type_primary = xe_event_type_primary x, ao_event_type_secondary = xe_event_type_secondary x,
     ao_sentiment_label = xe_sentiment_label x, ao_sentiment_score = xe_sentiment_score x,
     ao_headline = xe_headline x, ao_entity_summary = xe_entity_summary x \<rparr>"

text \<open>One iteration of the loop over the extracted companies.\<close>

definition entity_step ::
  "text_lib \<Rightarrow> hk_stock_list_cache \<Rightarrow> pystr \<Rightarrow> extracted_entity
     \<Rightarrow> (skill \<times> verified_entity list) res \<Rightarrow> (skill \<times> verified_entity list) res" where
  "entity_step L cache article_text extracted acc =
     rbind acc (\<lambda>(sk, entities).
     rbind (verify_entity L cache extracted article_text) (\<lambda>found.
     Inr (case found of
        None \<Rightarrow>
          (sk\<lparr> sk_unverified_entities := sk_unverified_entities sk @
             [\<lparr> ue_stock_code = xe_stock_code extracted, ue_company_name = xe_company_name extracted,
                ue_reason = NOT_IN_HK_STOCK_LIST \<rparr>] \<rparr>, entities)
      | Some s \<Rightarrow>
          (case enforce_constraints (outcome_of s extracted) (sk_llm_errors sk) of
             (outcome, errs) \<Rightarrow>
               if ao_stock_code outcome \<in> set (sk_verified_entities sk)
               then (sk\<lparr> sk_llm_errors := errs @
                       [validation_error (ao_stock_code outcome @ u '' duplicate dropped'')] \<rparr>, entities)
               else (sk\<lparr> sk_llm_errors := errs,
                       sk_verified_entities := sk_verified_entities sk @ [ao_stock_code outcome] \<rparr>,
                     entities @ [\<lparr> ve_stock = s, ve_outcome = outcome \<rparr>])))))"

definition truncate_input :: "entity_analysis_config \<Rightarrow> skill \<Rightarrow> pystr \<times> skill" where
  "truncate_input cfg sk =
     (let body = take (nat (ea_max_input_chars cfg)) (in_body (sk_input sk))
      in (body, sk\<lparr> sk_input_truncated := length body < length (in_body (sk_input sk)) \<rparr>))"

definition skill_messages :: "pystr \<Rightarrow> pystr \<Rightarrow> message list" where
  "skill_messages title body =
     [\<lparr> ms_role = SYSTEM, ms_content = SYSTEM_PROMPT \<rparr>,
      \<lparr> ms_role = USER,
        ms_content = [27161, 38988, 65306] @ title @ [10, 20839, 25991, 65306] @ body \<rparr>]"

definition llm_process ::
  "text_lib \<Rightarrow> (pystr \<Rightarrow> llm_output option) \<Rightarrow> hk_stock_list_cache \<Rightarrow> pystr \<times> skill
     \<Rightarrow> ('z, entity_analysis_result) llm" where
  "llm_process L validate cache = (\<lambda>(body, sk).
     bind (generate_structured validate (skill_messages (in_title (sk_input sk)) body) GENERATION_CONFIG) (\<lambda>response.
     let sk = sk\<lparr> sk_llm_calls := sk_llm_calls sk @
           [\<lparr> cm_call_index = 1, cm_purpose = u ''structured_output'',
              cm_input_tokens = sr_input_tokens response, cm_output_tokens = sr_output_tokens response,
              cm_latency_ms = sr_latency_ms response \<rparr>] \<rparr>
     in bind (of_sum (fold (entity_step L cache (in_title (sk_input sk) @ body)) (sr_output response) (Inr (sk, [])))) (\<lambda>(sk, entities).
        bind (create_skill_log sk) (\<lambda>log.
        ret \<lparr> rs_entity_events = Some entities, rs_skill_log = log, rs_failure_reason = None \<rparr>))))"

definition build_fail_result :: "skill \<Rightarrow> sapi_error \<Rightarrow> ('z, entity_analysis_result) llm" where
  "build_fail_result sk err = bind (create_skill_log sk) (\<lambda>log.
     ret \<lparr> rs_entity_events = None, rs_skill_log = log, rs_failure_reason = Some err \<rparr>)"

definition is_llm_error :: "exn \<Rightarrow> bool" where
  "is_llm_error exc = (case exc of Sapi e \<Rightarrow> is_subclass (err_class e) LLMError | _ \<Rightarrow> False)"

text \<open>\<^verbatim>\<open>SkillBase.run\<close>. Only the call raises an LLMError, when the instance has done nothing but cut the
  body.\<close>

definition run_skill ::
  "text_lib \<Rightarrow> (pystr \<Rightarrow> llm_output option) \<Rightarrow> hk_stock_list_cache \<Rightarrow> entity_analysis_config \<Rightarrow> skill
     \<Rightarrow> ('z, entity_analysis_result) llm" where
  "run_skill L validate cache cfg sk =
     try_except (llm_process L validate cache (truncate_input cfg sk))
       (\<lambda>exc. case exc of
          Sapi err \<Rightarrow>
            (if is_subclass (err_class err) LLMError
             then let sk = snd (truncate_input cfg sk)
                  in build_fail_result (sk\<lparr> sk_llm_errors := sk_llm_errors sk @
                       [\<lparr> le_call_index = int (length (sk_llm_calls sk)) + 1, le_error_type = Inr (err_class err),
                          le_error_detail = None, le_retried = False \<rparr>] \<rparr>) err
             else raise exc)
        | _ \<Rightarrow> raise exc)"

end
