(* ===== verification/Sapi_Entity_Analysis.thy ===== *)
theory Sapi_Entity_Analysis
  imports Sapi_Entity_Skill Sapi_Aggregation_Consumer
begin

text \<open>
  \<^verbatim>\<open>app/clients/news_client.py\<close> and \<^verbatim>\<open>app/entity_analysis\<close>: fetching a cleaned article from the
  ingestion service, turning it into stored and announced EntityEvents, the worker pool with its
  permits and its pause after a rate limit, and the consumer of \<^verbatim>\<open>stream:raw_news_cleaned\<close>.

  A batch is routed concurrently and the loop goes on when all of it is done, so the consumer is a set
  of tasks. A task waits for a permit, then for the end of a pause, then fetches and analyses the
  article (one step), then stores and announces the result and acknowledges the message (another):
  the calls within a step are not interleaved with other tasks.
\<close>

section \<open>The news client\<close>

record cleaned_news =
  cn_cleaned_id :: uuid
  cn_title :: pystr
  cn_body :: pystr
  cn_source_url :: pystr
  cn_source_name :: pystr
  cn_published_at :: "instant option"

text \<open>The libraries: the text library, pydantic's validation of an article and of the model's output.\<close>

record analysis_lib =
  al_text :: text_lib
  al_validate_news :: "nat list \<Rightarrow> cleaned_news option"
  al_validate_output :: "pystr \<Rightarrow> llm_output option"

definition cleaned_news_url :: "pystr \<Rightarrow> uuid \<Rightarrow> pystr" where
  "cleaned_news_url base_url cleaned_id = base_url @ u ''/v1/cleaned_news/'' @ uuid_str cleaned_id"

definition fetch_cleaned_news ::
  "(nat list \<Rightarrow> cleaned_news option) \<Rightarrow> pystr \<Rightarrow> uuid \<Rightarrow> ('z, cleaned_news option) net" where
  "fetch_cleaned_news validate base_url cleaned_id = translate_client_errors NEWS_CLIENT
     (bind (http_get (cleaned_news_url base_url cleaned_id)) (\<lambda>response.
      if hr_status response = 404 then ret None
      else seq (raise_for_status response)
             (case validate (hr_content response) of
                None \<Rightarrow> raise ValidationError
              | Some article \<Rightarrow> ret (Some article))))"

section \<open>Finding the events of an article\<close>

definition completed_message :: "pystr \<Rightarrow> fields" where
  "completed_message i = [(u ''entity_event_id'', i), (u ''v'', STREAM_VERSION)]"

definition publish_completed :: "app_config \<Rightarrow> pystr list \<Rightarrow> ('z, unit) sapi" where
  "publish_completed cfg ids = for_each ids (\<lambda>i.
     seq (publish (redis_reconnect_interval_s (cfg_redis cfg)) ENTITY_EVENT_COMPLETED (completed_message i)) (ret ()))"

text \<open>What reading has found; a failed analysis is raised.\<close>

datatype finding =
    No_article
  | Already_stored "uuid list"
  | Analysed cleaned_news entity_analysis_result

definition stock_list_cache :: "('z, hk_stock_list_cache) net" where
  "stock_list_cache = bind (get_w n_cache) (\<lambda>c. of_sum (get_hk_stock_list_cache c))"

definition run_analysis :: "app_config \<Rightarrow> analysis_lib \<Rightarrow> cleaned_news \<Rightarrow> ('z, entity_analysis_result) llm" where
  "run_analysis cfg L article =
     seq get_llm_adapter (bind stock_list_cache (\<lambda>cache.
       run_skill (al_text L) (al_validate_output L) cache (cfg_entity_analysis cfg)
         (new_skill \<lparr> in_title = cn_title article, in_body = cn_body article \<rparr>)))"

definition find_read :: "app_config \<Rightarrow> analysis_lib \<Rightarrow> uuid \<Rightarrow> ('z, finding) llm" where
  "find_read cfg L cleaned_id =
     bind (fetch_cleaned_news (al_validate_news L) (ea_sadi_api_url (cfg_entity_analysis cfg)) cleaned_id) (\<lambda>found.
     case found of
       None \<Rightarrow> ret No_article
     | Some article \<Rightarrow>
         bind (fetch_entity_event_ids_by_source_url (cn_source_url article)) (\<lambda>existing_ids.
         if existing_ids \<noteq> [] then ret (Already_stored existing_ids)
         else bind (run_analysis cfg L article) (\<lambda>result.
              case rs_failure_reason result of
                Some err \<Rightarrow> raise (Sapi err)
              | None \<Rightarrow> ret (Analysed article result))))"

definition new_entity_event :: "cleaned_news \<Rightarrow> skill_log \<Rightarrow> verified_entity \<Rightarrow> entity_event" where
  "new_entity_event article slog entity =
     \<lparr> ee_source_id = cn_cleaned_id article, ee_source_url = cn_source_url article,
       ee_source_name = cn_source_name article, ee_published_at = cn_published_at article,
       ee_analysis_outcome = \<lparr> v_version = sl_skill_version slog, v_output = ve_outcome entity \<rparr>,
       ee_stock = ve_stock entity, ee_entity_event_id = None, ee_created_at = None \<rparr>"

definition entity_event_id_str :: "entity_event \<Rightarrow> pystr" where
  "entity_event_id_str e = (case ee_entity_event_id e of Some i \<Rightarrow> uuid_str i | None \<Rightarrow> u ''None'')"

definition find_write :: "app_config \<Rightarrow> finding \<Rightarrow> ('z, entity_event list) sapi" where
  "find_write cfg found = (case found of
       No_article \<Rightarrow> ret []
     | Already_stored ids \<Rightarrow> seq (publish_completed cfg (map uuid_str ids)) (ret [])
     | Analysed article result \<Rightarrow>
         bind (persist_entities (cfg_db cfg)
                 (map (new_entity_event article (rs_skill_log result))
                   (case rs_entity_events result of None \<Rightarrow> [] | Some es \<Rightarrow> es))) (\<lambda>persisted.
         seq (publish_completed cfg (map entity_event_id_str persisted)) (ret persisted)))"

definition find_entity_events :: "app_config \<Rightarrow> analysis_lib \<Rightarrow> uuid \<Rightarrow> ('z, entity_event list) llm" where
  "find_entity_events cfg L cleaned_id = bind (find_read cfg L cleaned_id) (find_write cfg)"

section \<open>The worker pool and the tasks\<close>

datatype task_phase = Waiting | Slotted | Running | Writing finding

record analysis_task =
  at_loop :: loop_name
  at_position :: nat
  at_cleaned_id :: uuid
  at_message_id :: message_id
  at_phase :: task_phase

text \<open>A loop: the messages of its batch still to start, with their positions in the batch, the errors
  of those that are done, whether the batch is still open, and when the loop goes on after a sleep.\<close>

record batch_loop =
  bl_batch :: "(nat \<times> stream_message) list"
  bl_errors :: "(nat \<times> exn) list"
  bl_open :: bool
  bl_wake :: instant

definition closed_loop :: "instant \<Rightarrow> batch_loop" where
  "closed_loop t = \<lparr> bl_batch = [], bl_errors = [], bl_open = False, bl_wake = t \<rparr>"

text \<open>\<open>a_permits\<close> is the semaphore's value, \<open>a_rate_limit_until\<close> the pool's deadline on the loop clock,
  \<open>a_processing\<close> the in-flight set; \<open>a_up\<close> tells whether the layer's loops run.\<close>

record analysis_world = llm_world +
  a_permits :: nat
  a_rate_limit_until :: instant
  a_processing :: "uuid list"
  a_tasks :: "analysis_task list"
  a_consumer :: batch_loop
  a_reclaimer :: batch_loop
  a_up :: bool

type_synonym ('z, 'a) news = "('z analysis_world_scheme, exn, 'a) io"

definition trigger_backoff :: "app_config \<Rightarrow> ('z, unit) news" where
  "trigger_backoff cfg =
     seq (modify (\<lambda>w. w\<lparr> a_rate_limit_until := w_now w + llm_rate_limit_backoff_s (cfg_llm cfg) * us_per_second \<rparr>))
         (bind datetime_now (\<lambda>_. ret ()))"

section \<open>Analysing one message\<close>

text \<open>The \<^verbatim>\<open>except\<close> clauses of \<^verbatim>\<open>_analyse\<close>.\<close>

definition analysis_failed :: "app_config \<Rightarrow> exn \<Rightarrow> ('z, unit) news" where
  "analysis_failed cfg exc =
     (if is_redis_unreachable exc then raise exc
      else case exc of
             Sapi e \<Rightarrow> when_io (is_subclass (err_class e) LLMRateLimitError) (trigger_backoff cfg)
           | _ \<Rightarrow> if is_exception exc then ret () else raise exc)"

definition ack_news :: "message_id \<Rightarrow> ('z, unit) sapi" where
  "ack_news mid = ack RAW_NEWS_CLEANED ENTITY_ANALYSIS_GROUP mid"

definition analyse :: "app_config \<Rightarrow> analysis_lib \<Rightarrow> uuid \<Rightarrow> message_id \<Rightarrow> ('z, unit) news" where
  "analyse cfg L cleaned_id mid =
     try_except (seq (find_entity_events cfg L cleaned_id) (ack_news mid)) (analysis_failed cfg)"

text \<open>Its two steps; None after a failure that was handled.\<close>

definition analyse_read :: "app_config \<Rightarrow> analysis_lib \<Rightarrow> uuid \<Rightarrow> ('z, finding option) news" where
  "analyse_read cfg L cleaned_id =
     try_except (bind (find_read cfg L cleaned_id) (\<lambda>found. ret (Some found)))
       (\<lambda>exc. seq (analysis_failed cfg exc) (ret None))"

definition analyse_write :: "app_config \<Rightarrow> finding \<Rightarrow> message_id \<Rightarrow> ('z, unit) news" where
  "analyse_write cfg found mid =
     try_except (seq (find_write cfg found) (ack_news mid)) (analysis_failed cfg)"

section \<open>Routing\<close>

definition get_valid_cleaned_id :: "stream_message \<Rightarrow> uuid option" where
  "get_valid_cleaned_id m =
     (if map_of (msg_fields m) (u ''v'') \<noteq> Some STREAM_VERSION then None
      else case map_of (msg_fields m) (u ''cleaned_id'') of
             None \<Rightarrow> None
           | Some t \<Rightarrow> parse_uuid t)"

definition dead_letter_news :: "app_config \<Rightarrow> (fields \<Rightarrow> pystr) \<Rightarrow> stream_message \<Rightarrow> ('z, unit) sapi" where
  "dead_letter_news cfg dumps m =
     dead_letter (redis_reconnect_interval_s (cfg_redis cfg)) dumps m
       RAW_NEWS_CLEANED ENTITY_ANALYSIS_GROUP ENTITY_ANALYSIS_DEAD_LETTER"

text \<open>\<^verbatim>\<open>_process_one\<close> up to the dispatch: whether there is a task to queue.\<close>

definition process_news :: "uuid \<Rightarrow> ('z, bool) news" where
  "process_news cleaned_id =
     bind stock_list_cache (\<lambda>cache.
     if hc_entries cache = [] then ret False
     else bind (get_w (\<lambda>w. cleaned_id \<in> set (a_processing w))) (\<lambda>in_flight.
          if in_flight then ret False
          else seq (modify (\<lambda>w. w\<lparr> a_processing := cleaned_id # a_processing w \<rparr>)) (ret True)))"

definition route_news ::
  "app_config \<Rightarrow> (fields \<Rightarrow> pystr) \<Rightarrow> stream_message \<Rightarrow> ('z, uuid option) news" where
  "route_news cfg dumps m =
     try_except
       (if (case msg_delivery_count m of None \<Rightarrow> False
            | Some n \<Rightarrow> int n \<ge> ea_max_retry (cfg_entity_analysis cfg))
        then seq (dead_letter_news cfg dumps m) (ret None)
        else case get_valid_cleaned_id m of
               None \<Rightarrow> seq (dead_letter_news cfg dumps m) (ret None)
             | Some i \<Rightarrow> bind (process_news i) (\<lambda>b. ret (if b then Some i else None)))
       (\<lambda>exc. if is_exception exc \<and> \<not> is_redis_unreachable exc then ret None else raise exc)"

section \<open>The steps of the consumer\<close>

definition news_loop :: "loop_name \<Rightarrow> 'z analysis_world_scheme \<Rightarrow> batch_loop" where
  "news_loop l w = (case l of Consumer \<Rightarrow> a_consumer w | Reclaimer \<Rightarrow> a_reclaimer w)"

definition set_news_loop :: "loop_name \<Rightarrow> batch_loop \<Rightarrow> 'z analysis_world_scheme \<Rightarrow> 'z analysis_world_scheme" where
  "set_news_loop l s w = (case l of Consumer \<Rightarrow> w\<lparr> a_consumer := s \<rparr> | Reclaimer \<Rightarrow> w\<lparr> a_reclaimer := s \<rparr>)"

text \<open>Closing the batch and sleeping: the reclaimer sleeps before every sweep.\<close>

definition news_sleep :: "app_config \<Rightarrow> loop_name \<Rightarrow> int \<Rightarrow> ('z, unit) news" where
  "news_sleep cfg l ms = modify (\<lambda>w. set_news_loop l (closed_loop (w_now w + max 0 ms * 1000)) w)"

definition next_sweep :: "app_config \<Rightarrow> loop_name \<Rightarrow> int" where
  "next_sweep cfg l = (case l of Consumer \<Rightarrow> 0 | Reclaimer \<Rightarrow> redis_stream_claim_timeout_ms (cfg_redis cfg))"

definition news_guard :: "app_config \<Rightarrow> loop_name \<Rightarrow> ('z, unit) news \<Rightarrow> ('z, unit) news" where
  "news_guard cfg l m = try_except m (\<lambda>exc.
     if l = Consumer \<and> is_redis_unreachable exc
     then news_sleep cfg l (redis_reconnect_interval_s (cfg_redis cfg) * 1000)
     else if l = Reclaimer \<and> is_exception exc then news_sleep cfg l (next_sweep cfg l)
     else raise exc)"

definition news_read :: "app_config \<Rightarrow> loop_name \<Rightarrow> ('z, unit) news" where
  "news_read cfg l = news_guard cfg l
     (bind (case l of
              Consumer \<Rightarrow> read_from RAW_NEWS_CLEANED ENTITY_ANALYSIS_GROUP
                            (ea_consumer_name (cfg_entity_analysis cfg))
                            (Some (ea_batch_size (cfg_entity_analysis cfg)))
            | Reclaimer \<Rightarrow> autoclaim RAW_NEWS_CLEANED ENTITY_ANALYSIS_GROUP
                            (ea_consumer_name (cfg_entity_analysis cfg))
                            (redis_stream_claim_timeout_ms (cfg_redis cfg))
                            (ea_batch_size (cfg_entity_analysis cfg)))
        (\<lambda>ms. if ms = [] then news_sleep cfg l (next_sweep cfg l)
              else modify (set_news_loop l
                \<lparr> bl_batch = enumerate 0 ms, bl_errors = [], bl_open = True, bl_wake = 0 \<rparr>)))"

text \<open>\<^verbatim>\<open>gather(..., return_exceptions=True)\<close> keeps the error of a message.\<close>

definition news_error :: "loop_name \<Rightarrow> nat \<Rightarrow> exn \<Rightarrow> 'z analysis_world_scheme \<Rightarrow> 'z analysis_world_scheme" where
  "news_error l n exc w = set_news_loop l ((news_loop l w)\<lparr> bl_errors := (n, exc) # bl_errors (news_loop l w) \<rparr>) w"

definition news_route :: "app_config \<Rightarrow> (fields \<Rightarrow> pystr) \<Rightarrow> loop_name \<Rightarrow> ('z, unit) news" where
  "news_route cfg dumps l =
     bind (get_w (news_loop l)) (\<lambda>s.
     case bl_batch s of
       [] \<Rightarrow> ret ()
     | (n, m) # rest \<Rightarrow>
         seq (modify (set_news_loop l (s\<lparr> bl_batch := rest \<rparr>)))
         (try_except
           (bind (route_news cfg dumps m) (\<lambda>queued.
            case queued of
              None \<Rightarrow> ret ()
            | Some i \<Rightarrow> modify (\<lambda>w. w\<lparr> a_tasks := a_tasks w @
                [\<lparr> at_loop = l, at_position = n, at_cleaned_id = i, at_message_id = msg_id m, at_phase = Waiting \<rparr>] \<rparr>)))
           (\<lambda>exc. modify (news_error l n exc))))"

definition set_phase :: "uuid \<Rightarrow> task_phase \<Rightarrow> analysis_task list \<Rightarrow> analysis_task list" where
  "set_phase i p = map (\<lambda>t. if at_cleaned_id t = i then t\<lparr> at_phase := p \<rparr> else t)"

text \<open>A free slot goes to the task that has waited longest.\<close>

definition grant_slot :: "('z, unit) news" where
  "grant_slot = modify (\<lambda>w.
     case find (\<lambda>t. at_phase t = Waiting) (a_tasks w) of
       None \<Rightarrow> w
     | Some t \<Rightarrow> if a_permits w = 0 then w
                 else w\<lparr> a_permits := a_permits w - 1, a_tasks := set_phase (at_cleaned_id t) Slotted (a_tasks w) \<rparr>)"

definition start_task :: "analysis_task \<Rightarrow> ('z, unit) news" where
  "start_task t = modify (\<lambda>w.
     if 0 < a_rate_limit_until w - w_now w then w
     else w\<lparr> a_tasks := set_phase (at_cleaned_id t) Running (a_tasks w) \<rparr>)"

text \<open>The end of a dispatch: the slot is released, the id leaves the in-flight set.\<close>

definition finish_task :: "analysis_task \<Rightarrow> ('z, unit) news" where
  "finish_task t = modify (\<lambda>w. w\<lparr> a_permits := Suc (a_permits w),
     a_tasks := filter (\<lambda>x. at_cleaned_id x \<noteq> at_cleaned_id t) (a_tasks w),
     a_processing := removeAll (at_cleaned_id t) (a_processing w) \<rparr>)"

definition task_error :: "analysis_task \<Rightarrow> exn \<Rightarrow> ('z, unit) news" where
  "task_error t exc = seq (finish_task t) (modify (news_error (at_loop t) (at_position t) exc))"

definition task_read :: "app_config \<Rightarrow> analysis_lib \<Rightarrow> analysis_task \<Rightarrow> ('z, unit) news" where
  "task_read cfg L t =
     try_except
       (bind (analyse_read cfg L (at_cleaned_id t)) (\<lambda>found.
        case found of
          None \<Rightarrow> finish_task t
        | Some f \<Rightarrow> modify (\<lambda>w. w\<lparr> a_tasks := set_phase (at_cleaned_id t) (Writing f) (a_tasks w) \<rparr>)))
       (task_error t)"

definition task_write :: "app_config \<Rightarrow> analysis_task \<Rightarrow> finding \<Rightarrow> ('z, unit) news" where
  "task_write cfg t found =
     try_except (seq (analyse_write cfg found (at_message_id t)) (finish_task t)) (task_error t)"

text \<open>All messages of the batch are done: the error of the first one that failed is raised.\<close>

definition first_error :: "(nat \<times> exn) list \<Rightarrow> exn option" where
  "first_error es = (case es of [] \<Rightarrow> None | _ \<Rightarrow> map_of es (Min (fst ` set es)))"

definition batch_done :: "app_config \<Rightarrow> loop_name \<Rightarrow> ('z, unit) news" where
  "batch_done cfg l =
     bind (get_w (news_loop l)) (\<lambda>s.
     news_guard cfg l (case first_error (bl_errors s) of
       Some exc \<Rightarrow> raise exc
     | None \<Rightarrow> news_sleep cfg l (next_sweep cfg l)))"

text \<open>When a loop stops, the tasks of both are cancelled, which releases the slots and empties the
  in-flight set; a pause stays in force. \<^verbatim>\<open>start\<close> then runs both loops again on the same consumer and pool.\<close>

definition news_stop :: "app_config \<Rightarrow> ('z, unit) news" where
  "news_stop cfg = modify (\<lambda>w. w\<lparr> a_permits := nat (ea_max_concurrent (cfg_entity_analysis cfg)),
     a_processing := [], a_tasks := [], a_consumer := closed_loop 0, a_reclaimer := closed_loop 0, a_up := False \<rparr>)"

definition news_start :: "app_config \<Rightarrow> ('z, unit) news" where
  "news_start cfg =
     seq (create_group_if_not_exists RAW_NEWS_CLEANED ENTITY_ANALYSIS_GROUP)
     (seq (news_sleep cfg Consumer 0)
     (seq (news_sleep cfg Reclaimer (next_sweep cfg Reclaimer))
       (modify (\<lambda>w. w\<lparr> a_up := True \<rparr>))))"

end
