(* ===== verification/Sapi_Entity_Analysis_Steps.thy ===== *)
theory Sapi_Entity_Analysis_Steps
  imports Sapi_Entity_Analysis
begin

text \<open>
  The entity-analysis layer as a step relation over its two loops and its tasks, and the invariant of
  the pool: permits and running tasks add up, and the in-flight set holds exactly the tasks' articles.
\<close>

section \<open>What the calls of an analysis respect\<close>

text \<open>A preorder on the layer's world that no call to the databases, the streams, the ingestion service
  or the LLM provider and no pause breaks: then no part of an analysis breaks it.\<close>

locale news_frame = pg_blind R + rs_blind R
  for R :: "'z analysis_world_scheme \<Rightarrow> 'z analysis_world_scheme \<Rightarrow> bool" +
  fixes cfg :: app_config
  assumes uuid4_R: "always R uuid4" and http_get_R: "always R (http_get url)"
    and provider_R: "always R (provider_call req)"
    and backoff_R: "R w (w\<lparr> a_rate_limit_until := w_now w + llm_rate_limit_backoff_s (cfg_llm cfg) * us_per_second \<rparr>)"
begin

lemma now_R: "always R datetime_now"
  by (rule always_rs(7))

lemma run_skill_R: "always R (run_skill L validate cache c sk)"
  unfolding run_skill_def llm_process_def build_fail_result_def create_skill_log_def generate_structured_def Let_def
  by (auto intro!: always_try always_bind always_ret always_raise always_of_sum now_R provider_R
      split: prod.splits exn.splits sum.splits option.splits provider_exn.splits)

lemma fetch_R: "always R (fetch_cleaned_news validate base i)"
  unfolding fetch_cleaned_news_def translate_client_errors_def raise_for_status_def
  by (auto intro!: always_try always_bind always_ret always_raise http_get_R split: option.splits)

lemma find_read_R: "always R (find_read c L i)"
  unfolding find_read_def run_analysis_def stock_list_cache_def get_llm_adapter_def
    fetch_entity_event_ids_by_source_url_def
  by (auto intro!: always_bind always_ret always_raise always_get_w always_of_sum fetch_R run_skill_R always_pg
      split: option.splits)

lemma find_write_R: "always R (find_write c f)"
  unfolding find_write_def publish_completed_def persist_entities_def
  by (auto intro!: always_bind always_ret always_for_each always_rs always_transaction always_fold_io always_pg
      uuid4_R now_R split: finding.splits)

lemma analysis_failed_R: "always R (analysis_failed cfg e)"
  unfolding analysis_failed_def trigger_backoff_def
  by (auto intro!: always_raise always_ret always_when always_bind now_R always_modify backoff_R split: exn.splits)

lemma analyse_read_R: "always R (analyse_read cfg L i)"
  unfolding analyse_read_def by (intro always_try always_bind always_ret find_read_R analysis_failed_R)

lemma analyse_write_R: "always R (analyse_write cfg f mid)"
  unfolding analyse_write_def ack_news_def
  by (intro always_try always_bind find_write_R always_rs analysis_failed_R)

lemma dead_letter_R: "always R (dead_letter_news c dumps m)"
  unfolding dead_letter_news_def by (rule always_rs)

end

section \<open>What leaves the layer's memory alone\<close>

definition same_news :: "'z analysis_world_scheme \<Rightarrow> 'z analysis_world_scheme \<Rightarrow> bool" where
  "same_news w w' \<longleftrightarrow> a_permits w' = a_permits w \<and> a_processing w' = a_processing w \<and> a_tasks w' = a_tasks w
     \<and> a_consumer w' = a_consumer w \<and> a_reclaimer w' = a_reclaimer w \<and> a_up w' = a_up w"

lemma more_same_news:
  fixes w w' :: "'z analysis_world_scheme"
  shows "world.more w' = world.more w \<Longrightarrow> same_news w w' \<and> a_rate_limit_until w' = a_rate_limit_until w"
  by (cases w; cases w') (simp add: same_news_def)

interpretation same_news: news_frame "same_news :: 'z analysis_world_scheme \<Rightarrow> _" cfg for cfg
  by unfold_locales
    (auto intro!: alwaysI simp: pg_frame_def rs_frame_def uuid4_def http_get_def provider_call_def
      dest: more_same_news, auto simp: same_news_def)

text \<open>The two steps one after the other are \<^verbatim>\<open>_analyse\<close>.\<close>

lemma analyse_steps:
  "analyse cfg L i mid = bind (analyse_read cfg L i) (\<lambda>f. case f of None \<Rightarrow> ret () | Some f \<Rightarrow> analyse_write cfg f mid)"
proof (rule ext)
  fix w :: "'z analysis_world_scheme"
  obtain q v where q: "find_read cfg L i w = (q, v)" by fastforce
  show "analyse cfg L i mid w = bind (analyse_read cfg L i)
      (\<lambda>f. case f of None \<Rightarrow> ret () | Some f \<Rightarrow> analyse_write cfg f mid) w"
  proof (cases q)
    case (Inl e)
    obtain r u where "analysis_failed cfg e v = (r, u)" by fastforce
    with q Inl show ?thesis
      by (cases r) (auto simp: analyse_def analyse_read_def find_entity_events_def bind_def try_except_def ret_def)
  next
    case (Inr f)
    with q show ?thesis
      by (simp add: analyse_def analyse_read_def analyse_write_def find_entity_events_def bind_def try_except_def ret_def)
  qed
qed

section \<open>The steps\<close>

text \<open>The other layers and services meanwhile: they leave the layer's memory alone and let time pass.\<close>

definition news_env :: "'z analysis_world_scheme \<Rightarrow> 'z analysis_world_scheme \<Rightarrow> bool" where
  "news_env w w' \<longleftrightarrow> same_news w w' \<and> a_rate_limit_until w' = a_rate_limit_until w \<and> w_now w \<le> w_now w'"

inductive news_step ::
  "app_config \<Rightarrow> (fields \<Rightarrow> pystr) \<Rightarrow> analysis_lib \<Rightarrow> 'z analysis_world_scheme \<Rightarrow> 'z analysis_world_scheme \<Rightarrow> bool"
  for cfg dumps L where
  Read: "a_up w \<Longrightarrow> \<not> bl_open (news_loop l w) \<Longrightarrow> bl_wake (news_loop l w) \<le> w_now w \<Longrightarrow>
    news_read cfg l w = (Inr (), w') \<Longrightarrow> news_step cfg dumps L w w'"
| Read_crash: "a_up w \<Longrightarrow> \<not> bl_open (news_loop l w) \<Longrightarrow> bl_wake (news_loop l w) \<le> w_now w \<Longrightarrow>
    news_read cfg l w = (Inl e, w1) \<Longrightarrow> news_stop cfg w1 = (Inr (), w') \<Longrightarrow> news_step cfg dumps L w w'"
| Route: "a_up w \<Longrightarrow> news_route cfg dumps l w = (Inr (), w') \<Longrightarrow> news_step cfg dumps L w w'"
| Grant: "grant_slot w = (Inr (), w') \<Longrightarrow> news_step cfg dumps L w w'"
| Begin: "t \<in> set (a_tasks w) \<Longrightarrow> at_phase t = Slotted \<Longrightarrow> start_task t w = (Inr (), w') \<Longrightarrow> news_step cfg dumps L w w'"
| Analyse: "t \<in> set (a_tasks w) \<Longrightarrow> at_phase t = Running \<Longrightarrow> task_read cfg L t w = (Inr (), w') \<Longrightarrow> news_step cfg dumps L w w'"
| Store: "t \<in> set (a_tasks w) \<Longrightarrow> at_phase t = Writing f \<Longrightarrow> task_write cfg t f w = (Inr (), w') \<Longrightarrow> news_step cfg dumps L w w'"
| Batch_done: "a_up w \<Longrightarrow> bl_open (news_loop l w) \<Longrightarrow> bl_batch (news_loop l w) = [] \<Longrightarrow>
    l \<notin> at_loop ` set (a_tasks w) \<Longrightarrow> batch_done cfg l w = (Inr (), w') \<Longrightarrow> news_step cfg dumps L w w'"
| Batch_crash: "a_up w \<Longrightarrow> bl_open (news_loop l w) \<Longrightarrow> bl_batch (news_loop l w) = [] \<Longrightarrow>
    l \<notin> at_loop ` set (a_tasks w) \<Longrightarrow> batch_done cfg l w = (Inl e, w1) \<Longrightarrow> news_stop cfg w1 = (Inr (), w') \<Longrightarrow>
    news_step cfg dumps L w w'"
| Start: "\<not> a_up w \<Longrightarrow> news_start cfg w = (r, w') \<Longrightarrow> news_step cfg dumps L w w'"
| Stop: "news_stop cfg w = (Inr (), w') \<Longrightarrow> news_step cfg dumps L w w'"
| Env: "news_env w w' \<Longrightarrow> news_step cfg dumps L w w'"

inductive news_reachable ::
  "app_config \<Rightarrow> (fields \<Rightarrow> pystr) \<Rightarrow> analysis_lib \<Rightarrow> 'z analysis_world_scheme \<Rightarrow> 'z analysis_world_scheme \<Rightarrow> bool"
  for cfg dumps L w0 where
  start: "news_stop cfg w0 = (Inr (), w) \<Longrightarrow> news_reachable cfg dumps L w0 w"
| step: "news_reachable cfg dumps L w0 w \<Longrightarrow> news_step cfg dumps L w w' \<Longrightarrow> news_reachable cfg dumps L w0 w'"

section \<open>The invariant of the pool\<close>

definition in_slot :: "analysis_task \<Rightarrow> bool" where
  "in_slot t \<longleftrightarrow> at_phase t \<noteq> Waiting"

definition pool_ok :: "app_config \<Rightarrow> 'z analysis_world_scheme \<Rightarrow> bool" where
  "pool_ok cfg w \<longleftrightarrow> distinct (map at_cleaned_id (a_tasks w)) \<and> distinct (a_processing w)
     \<and> set (a_processing w) = at_cleaned_id ` set (a_tasks w)
     \<and> a_permits w + length (filter in_slot (a_tasks w)) = nat (ea_max_concurrent (cfg_entity_analysis cfg))"

lemma pool_ok_same: "same_news w w' \<Longrightarrow> pool_ok cfg w' = pool_ok cfg w"
  by (simp add: pool_ok_def same_news_def)

lemma pool_ok_loop [simp]: "pool_ok cfg (set_news_loop l s w) = pool_ok cfg w"
  by (cases l) (simp_all add: set_news_loop_def pool_ok_def)

lemma pool_ok_error [simp]: "pool_ok cfg (news_error l n e w) = pool_ok cfg w"
  by (simp add: news_error_def)

lemma pool_ok_sleep: "news_sleep cfg l ms w = (r, w') \<Longrightarrow> pool_ok cfg w' = pool_ok cfg w"
  by (auto simp: news_sleep_def)

text \<open>Changing the phase of one task.\<close>

lemma set_phase_ids [simp]: "map at_cleaned_id (set_phase i p ts) = map at_cleaned_id ts"
  by (induction ts) (auto simp: set_phase_def)

lemma set_phase_image [simp]: "at_cleaned_id ` set (set_phase i p ts) = at_cleaned_id ` set ts"
  by (metis set_map set_phase_ids)

lemma set_phase_none: "i \<notin> at_cleaned_id ` set ts \<Longrightarrow> set_phase i p ts = ts"
  by (induction ts) (auto simp: set_phase_def)

lemma set_phase_slots:
  "distinct (map at_cleaned_id ts) \<Longrightarrow> t \<in> set ts \<Longrightarrow>
     length (filter in_slot (set_phase (at_cleaned_id t) p ts)) + (if in_slot t then 1 else 0)
       = length (filter in_slot ts) + (if p \<noteq> Waiting then 1 else 0)"
proof (induction ts)
  case (Cons x ts)
  show ?case
  proof (cases "x = t")
    case True
    with Cons.prems have "set_phase (at_cleaned_id t) p ts = ts" by (intro set_phase_none) auto
    with True show ?thesis by (simp add: set_phase_def in_slot_def)
  next
    case False
    with Cons.prems have "t \<in> set ts" "at_cleaned_id x \<noteq> at_cleaned_id t" by auto
    with Cons show ?thesis by (simp add: set_phase_def)
  qed
qed simp

lemma finish_slots:
  "distinct (map at_cleaned_id ts) \<Longrightarrow> t \<in> set ts \<Longrightarrow> in_slot t \<Longrightarrow>
     Suc (length (filter in_slot (filter (\<lambda>x. at_cleaned_id x \<noteq> at_cleaned_id t) ts))) = length (filter in_slot ts)"
proof (induction ts)
  case (Cons x ts)
  show ?case
  proof (cases "x = t")
    case True
    with Cons.prems have "filter (\<lambda>x. at_cleaned_id x \<noteq> at_cleaned_id t) ts = ts"
      by (auto simp: filter_id_conv image_iff)
    with True Cons.prems show ?thesis by simp
  next
    case False
    with Cons show ?thesis by auto
  qed
qed simp

lemma finish_task_ok:
  assumes "pool_ok cfg w" and "t \<in> set (a_tasks w)" and "in_slot t" and "finish_task t w = (r, w')"
  shows "pool_ok cfg w'"
proof -
  have d: "distinct (map at_cleaned_id (a_tasks w))" using assms(1) by (simp add: pool_ok_def)
  have "distinct (map at_cleaned_id (filter (\<lambda>x. at_cleaned_id x \<noteq> at_cleaned_id t) (a_tasks w)))"
    using d by (rule distinct_map_filter)
  with finish_slots [OF d assms(2,3)] assms(1,4) show ?thesis
    by (auto simp: finish_task_def pool_ok_def distinct_removeAll)
qed

lemma set_phase_ok:
  assumes "pool_ok cfg w" and "t \<in> set (a_tasks w)" and "in_slot t" and "p \<noteq> Waiting"
  shows "pool_ok cfg (w\<lparr> a_tasks := set_phase (at_cleaned_id t) p (a_tasks w) \<rparr>)"
  using set_phase_slots [of "a_tasks w" t p] assms by (simp add: pool_ok_def)

lemma grant_slot_ok:
  assumes "pool_ok cfg w" and "grant_slot w = (r, w')"
  shows "pool_ok cfg w'"
proof (cases "find (\<lambda>t. at_phase t = Waiting) (a_tasks w)")
  case None
  with assms show ?thesis by (simp add: grant_slot_def)
next
  case (Some t)
  then have "t \<in> set (a_tasks w)" "\<not> in_slot t" by (auto simp: find_Some_iff in_slot_def)
  with set_phase_slots [of "a_tasks w" t Slotted] assms Some show ?thesis
    by (auto simp: grant_slot_def pool_ok_def split: if_splits)
qed

lemma task_error_ok:
  assumes "pool_ok cfg w" and "t \<in> set (a_tasks w)" and "in_slot t" and "task_error t e w = (r, w')"
  shows "pool_ok cfg w'"
proof -
  obtain v where "finish_task t w = (Inr (), v)" by (simp add: finish_task_def modify_def)
  with finish_task_ok [OF assms(1-3) this] assms(4) show ?thesis by (auto simp: task_error_def bind_def)
qed

lemma task_read_ok:
  assumes ok: "pool_ok cfg w" and t: "t \<in> set (a_tasks w)" "in_slot t" and run: "task_read cfg L t w = (r, w')"
  shows "pool_ok cfg w'"
proof -
  obtain q v where q: "analyse_read cfg L (at_cleaned_id t) w = (q, v)" by fastforce
  have s: "same_news w v" using alwaysD [OF same_news.analyse_read_R q] .
  then have v: "pool_ok cfg v" "t \<in> set (a_tasks v)"
    using ok t pool_ok_same [OF s] by (simp_all add: same_news_def)
  show ?thesis
  proof (cases q)
    case (Inl e)
    with run q have "task_error t e v = (r, w')" by (simp add: task_read_def bind_def try_except_def)
    with v t show ?thesis by (blast intro: task_error_ok)
  next
    case (Inr f)
    show ?thesis
    proof (cases f)
      case None
      obtain u where "finish_task t v = (Inr (), u)" by (simp add: finish_task_def modify_def)
      with finish_task_ok [OF v t(2) this] run q Inr None show ?thesis
        by (simp add: task_read_def bind_def try_except_def)
    next
      case (Some g)
      with set_phase_ok [OF v t(2), of "Writing g"] run q Inr show ?thesis
        by (simp add: task_read_def bind_def try_except_def modify_def)
    qed
  qed
qed

lemma task_write_ok:
  assumes ok: "pool_ok cfg w" and t: "t \<in> set (a_tasks w)" "in_slot t" and run: "task_write cfg t f w = (r, w')"
  shows "pool_ok cfg w'"
proof -
  obtain q v where q: "analyse_write cfg f (at_message_id t) w = (q, v)" by fastforce
  have s: "same_news w v" using alwaysD [OF same_news.analyse_write_R q] .
  then have v: "pool_ok cfg v" "t \<in> set (a_tasks v)"
    using ok t pool_ok_same [OF s] by (simp_all add: same_news_def)
  show ?thesis
  proof (cases q)
    case (Inl e)
    with run q have "task_error t e v = (r, w')" by (simp add: task_write_def bind_def try_except_def)
    with v t show ?thesis by (blast intro: task_error_ok)
  next
    case (Inr f)
    obtain u where "finish_task t v = (Inr (), u)" by (simp add: finish_task_def modify_def)
    with finish_task_ok [OF v t(2) this] run q Inr show ?thesis
      by (simp add: task_write_def bind_def try_except_def)
  qed
qed

text \<open>Routing leaves everything alone, or adds one article to the in-flight set and hands it on.\<close>

lemma process_news_cases:
  "process_news i w = (r, w') \<Longrightarrow>
     w' = w \<and> r \<noteq> Inr True \<or> r = Inr True \<and> i \<notin> set (a_processing w) \<and> w' = w\<lparr> a_processing := i # a_processing w \<rparr>"
  by (auto simp: process_news_def stock_list_cache_def get_hk_stock_list_cache_def io_defs split: option.splits if_splits)

lemma route_news_cases:
  fixes w :: "'z analysis_world_scheme"
  assumes "route_news cfg dumps m w = (r, w')"
  shows "same_news w w' \<and> (\<forall>i. r \<noteq> Inr (Some i))
    \<or> (\<exists>i. r = Inr (Some i) \<and> i \<notin> set (a_processing w) \<and> w' = w\<lparr> a_processing := i # a_processing w \<rparr>)"
proof -
  let ?dead = "seq (dead_letter_news cfg dumps m) (ret None) :: ('z, uuid option) news"
  have dead: "same_news w v \<and> (\<forall>i. q \<noteq> Inr (Some i))" if "?dead w = (q, v)" for q v
    using that alwaysD [OF same_news.always_bind [OF same_news.dead_letter_R same_news.always_ret] that]
    by (cases "dead_letter_news cfg dumps m w") (auto simp: bind_def ret_def split: sum.splits)
  define body :: "('z, uuid option) news" where "body = (if (case msg_delivery_count m of None \<Rightarrow> False
      | Some n \<Rightarrow> int n \<ge> ea_max_retry (cfg_entity_analysis cfg)) then ?dead
    else case get_valid_cleaned_id m of None \<Rightarrow> ?dead
      | Some i \<Rightarrow> bind (process_news i) (\<lambda>b. ret (if b then Some i else None)))"
  obtain q v where b: "body w = (q, v)" by fastforce
  have "same_news w v \<and> (\<forall>i. q \<noteq> Inr (Some i))
      \<or> (\<exists>i. q = Inr (Some i) \<and> i \<notin> set (a_processing w) \<and> v = w\<lparr> a_processing := i # a_processing w \<rparr>)"
  proof (cases "body = ?dead")
    case True
    with dead b show ?thesis by metis
  next
    case False
    then obtain i where "body = bind (process_news i) (\<lambda>b. ret (if b then Some i else None))"
      by (auto simp: body_def split: option.splits if_splits)
    with b obtain q0 where "process_news i w = (q0, v)" "q = Inr (Some i) \<longleftrightarrow> q0 = Inr True" "\<forall>j. q = Inr (Some j) \<longrightarrow> j = i"
      by (cases "process_news i w") (auto simp: bind_def ret_def split: sum.splits if_splits)
    with process_news_cases [of i w q0 v] show ?thesis
      by (metis same_news.R_refl)
  qed
  moreover have "w' = v \<and> (r = q \<or> (\<exists>e. q = Inl e) \<and> (\<forall>i. r \<noteq> Inr (Some i)))"
    using assms b by (cases q) (auto simp: route_news_def body_def [symmetric] try_except_def ret_def raise_def split: if_splits)
  ultimately show ?thesis by auto
qed

lemma news_route_ok:
  assumes ok: "pool_ok cfg w" and run: "news_route cfg dumps l w = (r, w')"
  shows "pool_ok cfg w'"
proof (cases "bl_batch (news_loop l w)")
  case Nil
  with run ok show ?thesis by (simp add: news_route_def get_w_def bind_def)
next
  case (Cons nm rest)
  obtain n m where nm: "nm = (n, m)" by fastforce
  define v where "v = set_news_loop l ((news_loop l w)\<lparr> bl_batch := rest \<rparr>) w"
  have v: "pool_ok cfg v" using ok by (simp add: v_def)
  obtain q u where q: "route_news cfg dumps m v = (q, u)" by fastforce
  from route_news_cases [OF q] show ?thesis
  proof (elim disjE conjE exE)
    assume "same_news v u" "\<forall>i. q \<noteq> Inr (Some i)"
    moreover from pool_ok_same [OF \<open>same_news v u\<close>] v have "pool_ok cfg u" by simp
    ultimately show ?thesis using run Cons nm q
      by (cases q) (auto simp: news_route_def v_def [symmetric] bind_def try_except_def ret_def modify_def get_w_def
          split: option.splits)
  next
    fix i
    assume "q = Inr (Some i)" "i \<notin> set (a_processing v)" "u = v\<lparr> a_processing := i # a_processing v \<rparr>"
    with run Cons nm q v show ?thesis
      by (auto simp: news_route_def v_def [symmetric] bind_def try_except_def ret_def modify_def get_w_def pool_ok_def in_slot_def)
  qed
qed

lemma news_guard_ok:
  assumes "\<And>q v. m w = (q, v) \<Longrightarrow> pool_ok cfg v" and "news_guard cfg l m w = (r, w')"
  shows "pool_ok cfg w'"
proof -
  obtain q v where q: "m w = (q, v)" by fastforce
  with assms show ?thesis
    by (cases q) (auto simp: news_guard_def try_except_def raise_def pool_ok_sleep split: if_splits)
qed

lemma news_read_ok:
  fixes w :: "'z analysis_world_scheme"
  assumes ok: "pool_ok cfg w" and run: "news_read cfg l w = (r, w')"
  shows "pool_ok cfg w'"
proof (rule news_guard_ok [OF _ run [unfolded news_read_def]])
  fix q v
  define read :: "('z, stream_message list) news" where "read = (case l of
      Consumer \<Rightarrow> read_from RAW_NEWS_CLEANED ENTITY_ANALYSIS_GROUP (ea_consumer_name (cfg_entity_analysis cfg))
        (Some (ea_batch_size (cfg_entity_analysis cfg)))
    | Reclaimer \<Rightarrow> autoclaim RAW_NEWS_CLEANED ENTITY_ANALYSIS_GROUP (ea_consumer_name (cfg_entity_analysis cfg))
        (redis_stream_claim_timeout_ms (cfg_redis cfg)) (ea_batch_size (cfg_entity_analysis cfg)))"
  assume "bind (case l of
      Consumer \<Rightarrow> read_from RAW_NEWS_CLEANED ENTITY_ANALYSIS_GROUP (ea_consumer_name (cfg_entity_analysis cfg))
        (Some (ea_batch_size (cfg_entity_analysis cfg)))
    | Reclaimer \<Rightarrow> autoclaim RAW_NEWS_CLEANED ENTITY_ANALYSIS_GROUP (ea_consumer_name (cfg_entity_analysis cfg))
        (redis_stream_claim_timeout_ms (cfg_redis cfg)) (ea_batch_size (cfg_entity_analysis cfg)))
     (\<lambda>ms. if ms = [] then news_sleep cfg l (next_sweep cfg l)
        else modify (set_news_loop l \<lparr> bl_batch = enumerate 0 ms, bl_errors = [], bl_open = True, bl_wake = 0 \<rparr>)) w = (q, v)"
  then have b: "bind read (\<lambda>ms. if ms = [] then news_sleep cfg l (next_sweep cfg l)
        else modify (set_news_loop l \<lparr> bl_batch = enumerate 0 ms, bl_errors = [], bl_open = True, bl_wake = 0 \<rparr>)) w = (q, v)"
    by (simp only: read_def)
  obtain p u where p: "read w = (p, u)" by fastforce
  have "always same_news read" by (cases l) (simp_all add: read_def same_news.always_rs)
  from pool_ok_same [OF alwaysD [OF this p]] ok have "pool_ok cfg u" by simp
  with b p show "pool_ok cfg v" by (cases p) (auto simp: bind_def modify_def pool_ok_sleep split: if_splits)
qed

lemma batch_done_ok:
  assumes "pool_ok cfg w" and "batch_done cfg l w = (r, w')"
  shows "pool_ok cfg w'"
proof (rule news_guard_ok)
  show "news_guard cfg l (case first_error (bl_errors (news_loop l w)) of
      Some exc \<Rightarrow> raise exc | None \<Rightarrow> news_sleep cfg l (next_sweep cfg l)) w = (r, w')"
    using assms(2) by (simp add: batch_done_def bind_def get_w_def)
qed (use assms(1) in \<open>auto simp: pool_ok_sleep split: option.splits\<close>)

lemma news_stop_ok: "news_stop cfg w = (r, w') \<Longrightarrow> pool_ok cfg w'"
  by (auto simp: news_stop_def pool_ok_def)

lemma keeps_pool_same: "always same_news m \<Longrightarrow> keeps (pool_ok cfg) m"
  unfolding always_def using pool_ok_same by blast

lemma keeps_pool_sleep: "keeps (pool_ok cfg) (news_sleep cfg' l ms)"
  unfolding news_sleep_def by (rule always_modify) simp

lemma news_start_ok: "news_start cfg w = (r, w') \<Longrightarrow> pool_ok cfg w \<Longrightarrow> pool_ok cfg w'"
proof -
  have "keeps (pool_ok cfg) (modify (\<lambda>w. w\<lparr> a_up := True \<rparr>))"
    by (rule always_modify) (simp add: pool_ok_def)
  then have "keeps (pool_ok cfg) (news_start cfg)"
    unfolding news_start_def
    by (intro keeps.always_bind keeps_pool_sleep keeps_pool_same [OF same_news.always_rs(6)])
  then show "news_start cfg w = (r, w') \<Longrightarrow> pool_ok cfg w \<Longrightarrow> pool_ok cfg w'"
    by (blast dest: alwaysD)
qed

lemma news_step_ok:
  assumes "news_step cfg dumps L w w'" and "pool_ok cfg w"
  shows "pool_ok cfg w'"
  using assms
proof (induction rule: news_step.induct)
  case (Begin t w w')
  then show ?case
    using set_phase_ok [of cfg w t Running] by (auto simp: start_task_def in_slot_def split: if_splits)
next
  case (Analyse t w w')
  then show ?case by (metis task_read_ok in_slot_def task_phase.distinct(3))
next
  case (Store t w f w')
  then show ?case by (metis task_write_ok in_slot_def task_phase.distinct(5))
next
  case (Env w w')
  then have "same_news w w'" by (simp add: news_env_def)
  from pool_ok_same [OF this] Env show ?case by simp
qed (blast intro: news_read_ok news_route_ok grant_slot_ok batch_done_ok news_stop_ok news_start_ok)+

lemma news_reachable_ok: "news_reachable cfg dumps L w0 w \<Longrightarrow> pool_ok cfg w"
  by (induction rule: news_reachable.induct) (auto intro: news_stop_ok news_step_ok)

end
