(* ===== verification/Sapi_Entity_Skill_Props.thy ===== *)
theory Sapi_Entity_Skill_Props
  imports Sapi_Entity_Skill Sapi_Stock_List_Props
begin

text \<open>
  What the entity-analysis skill guarantees: every company it returns is listed, appears once and
  satisfies the business constraints; a failed LLM call is a failed result; a stock code is read in
  its five-digit form; a bare number in an article never verifies a code.
\<close>

section \<open>Constraints\<close>

definition constrained :: "analysis_outcome \<Rightarrow> bool" where
  "constrained o1 \<longleftrightarrow> 0 \<le> ao_sentiment_score o1 \<and> ao_sentiment_score o1 \<le> 1
     \<and> length (ao_headline o1) \<le> HEADLINE_MAX_CHARS \<and> length (ao_entity_summary o1) \<le> ENTITY_SUMMARY_MAX_CHARS
     \<and> ao_event_type_secondary o1 \<noteq> Some (ao_event_type_primary o1)"

lemmas constraint_defs = enforce_constraints_def clip_score_def truncate_headline_def truncate_summary_def
  clear_secondary_def

lemma enforce_constrained: "enforce_constraints o1 errs = (o2, errs') \<Longrightarrow> constrained o2"
  by (auto simp: constraint_defs constrained_def min_def max_def split: if_splits)

lemma enforce_code: "enforce_constraints o1 errs = (o2, errs') \<Longrightarrow> ao_stock_code o2 = ao_stock_code o1"
  by (auto simp: constraint_defs split: if_splits)

text \<open>A constrained outcome is left as it is, without an error entry.\<close>

lemma enforce_id: "constrained o1 \<Longrightarrow> enforce_constraints o1 errs = (o1, errs)"
  by (auto simp: constraint_defs constrained_def)

section \<open>Verified companies\<close>

lemma lookup_stock_listed:
  assumes "lookup_stock L (Some cache) name = Inr (Some s)"
  shows "\<exists>code. map_of (hc_entries cache) code = Some s"
proof -
  from assms obtain found where "(case found of None \<Rightarrow> Inr None | Some code \<Rightarrow>
      if code = [] then Inr None
      else (case map_of (hc_entries cache) code of None \<Rightarrow> Inl (Py KeyError) | Some s \<Rightarrow> Inr (Some s))) = Inr (Some s)"
    by (auto simp: lookup_stock_def get_hk_stock_list_cache_def rbind_eq_Inr)
  then show ?thesis by (cases found) (auto split: if_splits option.splits)
qed

lemma verify_entity_listed:
  "verify_entity L cache x text = Inr (Some s) \<Longrightarrow> \<exists>code. map_of (hc_entries cache) code = Some s"
  by (auto simp: verify_entity_def Let_def rbind_eq_Inr dest: lookup_stock_listed split: option.splits if_splits)

definition entity_ok :: "hk_stock_list_cache \<Rightarrow> verified_entity \<Rightarrow> bool" where
  "entity_ok cache v \<longleftrightarrow> ve_stock v \<in> snd ` set (hc_entries cache)
     \<and> ao_stock_code (ve_outcome v) = st_stock_code (ve_stock v) \<and> constrained (ve_outcome v)"

definition codes_of :: "verified_entity list \<Rightarrow> pystr list" where
  "codes_of vs = map (\<lambda>v. ao_stock_code (ve_outcome v)) vs"

definition entities_ok :: "hk_stock_list_cache \<Rightarrow> skill \<times> verified_entity list \<Rightarrow> bool" where
  "entities_ok cache = (\<lambda>(sk, vs). list_all (entity_ok cache) vs \<and> distinct (codes_of vs)
     \<and> sk_verified_entities sk = codes_of vs)"

lemma entity_step_Inl: "entity_step L cache text x (Inl e) = Inl e"
  by (simp add: entity_step_def)

lemma entity_step_ok:
  assumes "entity_step L cache text x (Inr (sk, vs)) = Inr (sk', vs')" and "entities_ok cache (sk, vs)"
  shows "entities_ok cache (sk', vs')"
proof -
  from assms(1) obtain found where v: "verify_entity L cache x text = Inr found"
    by (auto simp: entity_step_def rbind_eq_Inr)
  show ?thesis
  proof (cases found)
    case None
    with assms v show ?thesis by (auto simp: entity_step_def entities_ok_def)
  next
    case (Some s)
    obtain o1 errs where e: "enforce_constraints (outcome_of s x) (sk_llm_errors sk) = (o1, errs)" by fastforce
    have code: "ao_stock_code o1 = st_stock_code s" using enforce_code [OF e] by (simp add: outcome_of_def)
    have "ve_stock v = s \<Longrightarrow> ve_outcome v = o1 \<Longrightarrow> entity_ok cache v" for v
      using verify_entity_listed [OF v [unfolded Some]] code enforce_constrained [OF e]
      by (force simp: entity_ok_def dest: map_of_SomeD)
    with assms v Some e code show ?thesis
      by (auto simp: entity_step_def entities_ok_def codes_of_def split: if_splits)
  qed
qed

lemma fold_entities_ok:
  "fold (entity_step L cache text) xs acc = Inr r \<Longrightarrow> \<forall>a. acc = Inr a \<longrightarrow> entities_ok cache a \<Longrightarrow> entities_ok cache r"
proof (induction xs arbitrary: acc)
  case (Cons x xs)
  show ?case
  proof (rule Cons.IH)
    show "fold (entity_step L cache text) xs (entity_step L cache text x acc) = Inr r" using Cons.prems(1) by simp
    show "\<forall>a. entity_step L cache text x acc = Inr a \<longrightarrow> entities_ok cache a"
      using Cons.prems(2) entity_step_ok by (cases acc) (auto simp: entity_step_Inl)
  qed
qed simp

lemma create_skill_log_entities:
  "create_skill_log sk w = (r, w') \<Longrightarrow> \<exists>log. r = Inr log \<and> sl_verified_entities log = sk_verified_entities sk
     \<and> sl_skill_version log = ENTITY_SKILL_VERSION \<and> sl_llm_errors log = sk_llm_errors sk"
  by (auto simp: create_skill_log_def datetime_now_def io_defs Let_def)

lemma llm_process_Inr:
  assumes "llm_process L validate cache (body, sk) w = (Inr res, w')"
  obtains xs calls sk1 vs where
    "fold (entity_step L cache (in_title (sk_input sk) @ body)) xs (Inr (sk\<lparr> sk_llm_calls := calls \<rparr>, [])) = Inr (sk1, vs)"
    "rs_entity_events res = Some vs" "rs_failure_reason res = None"
    "sl_verified_entities (rs_skill_log res) = sk_verified_entities sk1"
proof -
  from assms obtain calls xs sk1 vs log v where f:
    "Inr (sk1, vs) = fold (entity_step L cache (in_title (sk_input sk) @ body)) xs (Inr (sk\<lparr> sk_llm_calls := calls \<rparr>, []))"
    and l: "create_skill_log sk1 v = (Inr log, w')"
    "res = \<lparr> rs_entity_events = Some vs, rs_skill_log = log, rs_failure_reason = None \<rparr>"
    by (auto simp: llm_process_def Let_def bind_eq_Inr)
  with create_skill_log_entities [OF l(1)] show ?thesis by (intro that [OF f [symmetric]]) auto
qed

text \<open>A run either is the body of the skill, which raised no error of the LLM, or its failed result.\<close>

definition failed_with :: "sapi_error \<Rightarrow> skill \<Rightarrow> entity_analysis_result \<Rightarrow> bool" where
  "failed_with err sk res \<longleftrightarrow> rs_entity_events res = None \<and> rs_failure_reason res = Some err
     \<and> sl_verified_entities (rs_skill_log res) = sk_verified_entities sk
     \<and> sl_llm_errors (rs_skill_log res) = sk_llm_errors sk @ [\<lparr> le_call_index = int (length (sk_llm_calls sk)) + 1,
          le_error_type = Inr (err_class err), le_error_detail = None, le_retried = False \<rparr>]"

lemma run_skill_cases:
  assumes "run_skill L validate cache cfg sk w = (r, w')"
  obtains (body) "llm_process L validate cache (truncate_input cfg sk) w = (r, w')" "\<And>e. r = Inl e \<Longrightarrow> \<not> is_llm_error e"
  | (failed) err v res where "llm_process L validate cache (truncate_input cfg sk) w = (Inl (Sapi err), v)"
      "is_subclass (err_class err) LLMError" "r = Inr res" "failed_with err (snd (truncate_input cfg sk)) res"
proof -
  obtain q v where q: "llm_process L validate cache (truncate_input cfg sk) w = (q, v)" by fastforce
  show ?thesis
  proof (cases "\<exists>err. q = Inl (Sapi err) \<and> is_subclass (err_class err) LLMError")
    case True
    then obtain err where err: "q = Inl (Sapi err)" "is_subclass (err_class err) LLMError" by blast
    with assms q obtain res where "r = Inr res" "failed_with err (snd (truncate_input cfg sk)) res"
      by (auto simp: run_skill_def try_except_def build_fail_result_def bind_def Let_def failed_with_def
          create_skill_log_def datetime_now_def ret_def)
    from failed [OF _ _ this] q err show ?thesis by simp
  next
    case False
    have "r = q \<and> w' = v"
      using assms q False by (auto simp: run_skill_def try_except_def raise_def split: sum.splits exn.splits if_splits)
    with q False show ?thesis
      by (intro body) (auto simp: is_llm_error_def split: exn.splits)
  qed
qed

text \<open>C10: Every company of a successful result is a stock of the list, under that stock's code, with a
  score between 0 and 1, a headline of at most 20 and a summary of at most 100 characters, and a
  secondary event type other than the primary one; no code appears twice, and the log names exactly
  the companies returned.\<close>

theorem skill_result_verified:
  assumes "run_skill L validate cache cfg (new_skill inp) w = (Inr res, w')" and "rs_entity_events res = Some vs"
  shows "(\<forall>v \<in> set vs. ve_stock v \<in> snd ` set (hc_entries cache)
      \<and> ao_stock_code (ve_outcome v) = st_stock_code (ve_stock v)
      \<and> 0 \<le> ao_sentiment_score (ve_outcome v) \<and> ao_sentiment_score (ve_outcome v) \<le> 1
      \<and> length (ao_headline (ve_outcome v)) \<le> 20 \<and> length (ao_entity_summary (ve_outcome v)) \<le> 100
      \<and> ao_event_type_secondary (ve_outcome v) \<noteq> Some (ao_event_type_primary (ve_outcome v)))
    \<and> distinct (map (\<lambda>v. st_stock_code (ve_stock v)) vs)
    \<and> sl_verified_entities (rs_skill_log res) = map (\<lambda>v. st_stock_code (ve_stock v)) vs"
proof -
  from assms have "llm_process L validate cache (truncate_input cfg (new_skill inp)) w = (Inr res, w')"
    by (cases rule: run_skill_cases [case_names body failed]) (auto simp: failed_with_def)
  moreover obtain body sk1 where t: "truncate_input cfg (new_skill inp) = (body, sk1)" by fastforce
  moreover from t have "sk_verified_entities sk1 = []" by (auto simp: truncate_input_def Let_def new_skill_def)
  ultimately have "sk_verified_entities sk1 = []" "llm_process L validate cache (body, sk1) w = (Inr res, w')" by simp_all
  note run = this
  obtain tx xs calls sk where f: "fold (entity_step L cache tx) xs (Inr (sk1\<lparr> sk_llm_calls := calls \<rparr>, [])) = Inr (sk, vs)"
    and log: "sl_verified_entities (rs_skill_log res) = sk_verified_entities sk"
    using llm_process_Inr [OF run(2)] assms(2) by (metis option.inject)
  then have ok: "entities_ok cache (sk, vs)"
    using fold_entities_ok [OF f] run(1) by (simp add: entities_ok_def codes_of_def)
  then have codes: "codes_of vs = map (\<lambda>v. st_stock_code (ve_stock v)) vs"
    by (auto simp: entities_ok_def entity_ok_def codes_of_def list_all_iff)
  from ok show ?thesis unfolding codes [symmetric] log
    by (auto simp: entities_ok_def entity_ok_def constrained_def list_all_iff HEADLINE_MAX_CHARS_def
        ENTITY_SUMMARY_MAX_CHARS_def)
qed

text \<open>C28: A run never raises an error of the LLM: the error is the failure reason of a result without
  companies, and the last entry of its error log. A result without a failure reason has companies.\<close>

theorem skill_returns_llm_errors:
  assumes "run_skill L validate cache cfg (new_skill inp) w = (r, w')"
  shows "case r of
      Inl e \<Rightarrow> \<not> is_llm_error e
    | Inr res \<Rightarrow> (rs_failure_reason res = None \<longleftrightarrow> rs_entity_events res \<noteq> None)
        \<and> (\<forall>err. rs_failure_reason res = Some err \<longrightarrow> is_subclass (err_class err) LLMError
             \<and> map le_error_type (sl_llm_errors (rs_skill_log res)) = [Inr (err_class err)]
             \<and> sl_verified_entities (rs_skill_log res) = [])"
  using assms
proof (cases rule: run_skill_cases)
  case body
  obtain b sk where "truncate_input cfg (new_skill inp) = (b, sk)" by fastforce
  with body show ?thesis by (cases r) (auto elim!: llm_process_Inr)
next
  case (failed err v res)
  then show ?thesis by (simp add: failed_with_def truncate_input_def new_skill_def Let_def)
qed

section \<open>Printed codes\<close>

lemma ends_Sat_in: "t \<in> set (ends s (Sat p) st) \<Longrightarrow> \<exists>c \<in> set s. p c"
  by (cases st) (auto split: if_splits)

lemma ends_Cat_1: "t \<in> set (ends s (Cat a b) st) \<Longrightarrow> \<exists>t'. t' \<in> set (ends s a st)"
  and ends_Cat_2: "t \<in> set (ends s (Cat a b) st) \<Longrightarrow> \<exists>t'. t \<in> set (ends s b t')"
  by auto

lemma ends_Alt: "t \<in> set (ends s (Alt a b) st) \<longleftrightarrow> t \<in> set (ends s a st) \<or> t \<in> set (ends s b st)"
  by simp

lemma ends_lit: "t \<in> set (ends s (lit_rx (c # cs)) st) \<Longrightarrow> c \<in> set s"
  unfolding lit_rx.simps chr_rx_def by (drule ends_Cat_1, elim exE, drule ends_Sat_in) blast

lemma ends_ilit: "t \<in> set (ends s (ilit_rx (c # cs)) st) \<Longrightarrow> \<exists>x \<in> set s. same_letter c x"
  unfolding ilit_rx.simps by (drule ends_Cat_1, elim exE, drule ends_Sat_in) blast

lemma same_letter_s: "same_letter 115 x \<Longrightarrow> x \<in> {83, 115, 383}"
  by (auto simp: same_letter_def lower_ascii_def split: if_splits)

text \<open>A bare number never verifies a code: an article in which a code counts as printed has an opening
  bracket, a full stop, an s (of "Stock code"), or the first character of its Chinese form.\<close>

theorem bare_number_not_printed:
  assumes "code_printed code article_text = Inr True"
  shows "\<exists>c \<in> set article_text. c \<in> {40, 65288, 46, 83, 115, 383, 32929}"
proof -
  let ?n = "dec_digits (decimal_int code)"
  from assms have "rx_found (code_pattern ?n) article_text" by (auto simp: code_printed_def split: if_splits)
  then obtain i where "match_at (code_pattern ?n) article_text i \<noteq> None"
    by (auto simp: rx_found_def rx_search_def dest: filter_eq_ConsD split: list.splits)
  then obtain t st where t: "t \<in> set (ends article_text (code_pattern ?n) st)"
    by (auto simp: match_at_def split: list.splits) (metis list.set_intros(1))
  have dot: "u ''.HK'' = 46 # u ''HK''" and s: "u ''stock'' = 115 # u ''tock''" by (simp_all add: u_def)
  from t [unfolded code_pattern_def Let_def ends_Alt] show ?thesis
    by (elim disjE; unfold dot s)
      ((drule ends_Cat_1, elim exE, drule ends_Sat_in, blast)
       | (drule ends_Cat_2, elim exE, drule ends_Cat_2, elim exE, drule ends_lit, blast)
       | (drule ends_Cat_1, elim exE, drule ends_ilit, blast dest: same_letter_s)
       | (drule ends_Cat_1, elim exE, drule ends_lit, blast))+
qed

section \<open>Parsed codes\<close>

lemma ilit_ends:
  "i \<le> length s \<Longrightarrow> t \<in> set (ends s (ilit_rx cs) (i, g)) \<longleftrightarrow>
     i + length cs \<le> length s \<and> t = (i + length cs, g) \<and> (\<forall>j < length cs. same_letter (cs ! j) (s ! (i + j)))"
  by (induction cs arbitrary: i) (auto simp: All_less_Suc2 less_Suc_eq_0_disj)

lemma decimal_not_space: "py_isdecimal c \<Longrightarrow> \<not> py_isspace c"
proof -
  assume "py_isdecimal c"
  then obtain z where z: "z \<in> set decimal_zeros" "z \<le> c" "c < z + 10"
    by (auto simp: py_isdecimal_def decimal_value_def find_None_iff)
  have "\<forall>z \<in> set decimal_zeros. z = 48 \<or> 160 < z \<and> (z + 10 \<le> 5760 \<or> 5760 < z) \<and> (z + 10 \<le> 8192 \<or> 12288 < z)"
    by (simp add: decimal_zeros_def)
  from this [rule_format, OF z(1)] z(2,3) show ?thesis by (auto simp: py_isspace_def)
qed

lemma decimal_upper: "py_isdecimal c \<Longrightarrow> upper_ascii c = c"
  by (cases "c < 128") (auto simp: upper_ascii_def is_digit_def)

text \<open>The two shapes of a text the pattern matches.\<close>

lemma code_input_shape:
  "rx_fullmatch STOCK_CODE_INPUT s \<longleftrightarrow>
     (\<exists>ds rest. s = ds @ rest \<and> 2 \<le> length ds \<and> length ds \<le> 5 \<and> list_all py_isdecimal ds
        \<and> (rest = [] \<or> list_all2 same_letter (u ''.HK'') rest))" (is "_ \<longleftrightarrow> ?R")
proof -
  let ?d = "Rep (Sat py_isdecimal) 2 (Some 5)" and ?hk = "opt_rx (ilit_rx (u ''.HK''))"
  have d: "t' \<in> set (ends s ?d (0, [])) \<longleftrightarrow>
      (\<exists>k. 2 \<le> k \<and> k \<le> 5 \<and> k \<le> length s \<and> t' = (k, []) \<and> (\<forall>j < k. py_isdecimal (s ! j)))" for t'
    using ends_bounded_run [of 0 s 2 5 t' py_isdecimal "[]"] by (simp del: ends.simps)
  have "rx_fullmatch STOCK_CODE_INPUT s \<longleftrightarrow>
      (\<exists>t' t. t' \<in> set (ends s ?d (0, [])) \<and> t \<in> set (ends s ?hk t') \<and> fst t = length s)"
    unfolding rx_fullmatch_def list_ex_iff STOCK_CODE_INPUT_def by (simp only: ends.simps(3) set_concat set_map) blast
  also have "\<dots> \<longleftrightarrow> (\<exists>k t. 2 \<le> k \<and> k \<le> 5 \<and> k \<le> length s \<and> (\<forall>j < k. py_isdecimal (s ! j))
      \<and> t \<in> set (ends s ?hk (k, [])) \<and> fst t = length s)"
    unfolding d by blast
  also have "\<dots> \<longleftrightarrow> (\<exists>k. 2 \<le> k \<and> k \<le> 5 \<and> k \<le> length s \<and> (\<forall>j < k. py_isdecimal (s ! j))
      \<and> (k = length s \<or> k + 3 = length s \<and> (\<forall>j < 3. same_letter (u ''.HK'' ! j) (s ! (k + j)))))"
    by (intro ex_cong1) (auto simp: ilit_ends)
  also have "\<dots> \<longleftrightarrow> ?R"
  proof
    assume "\<exists>k. 2 \<le> k \<and> k \<le> 5 \<and> k \<le> length s \<and> (\<forall>j < k. py_isdecimal (s ! j))
      \<and> (k = length s \<or> k + 3 = length s \<and> (\<forall>j < 3. same_letter (u ''.HK'' ! j) (s ! (k + j))))"
    then obtain k where k: "2 \<le> k" "k \<le> 5" "k \<le> length s" "\<forall>j < k. py_isdecimal (s ! j)"
      "k = length s \<or> k + 3 = length s \<and> (\<forall>j < 3. same_letter (u ''.HK'' ! j) (s ! (k + j)))" by blast
    then show ?R
      by (intro exI [of _ "take k s"] exI [of _ "drop k s"])
        (auto simp: list_all_length list_all2_conv_all_nth)
  next
    assume ?R
    then obtain ds rest where r: "s = ds @ rest" "2 \<le> length ds" "length ds \<le> 5" "list_all py_isdecimal ds"
      "rest = [] \<or> list_all2 same_letter (u ''.HK'') rest" by blast
    then show "\<exists>k. 2 \<le> k \<and> k \<le> 5 \<and> k \<le> length s \<and> (\<forall>j < k. py_isdecimal (s ! j))
      \<and> (k = length s \<or> k + 3 = length s \<and> (\<forall>j < 3. same_letter (u ''.HK'' ! j) (s ! (k + j))))"
      by (intro exI [of _ "length ds"]) (auto simp: list_all_length nth_append list_all2_conv_all_nth)
  qed
  finally show ?thesis .
qed

lemma map_upper_decimals: "list_all py_isdecimal ds \<Longrightarrow> map upper_ascii ds = ds"
  by (induction ds) (simp_all add: decimal_upper)

lemma dropWhile_none: "(\<forall>c \<in> set s. \<not> p c) \<Longrightarrow> dropWhile p s = s"
  by (cases s) auto

lemma strip_none: "(\<forall>c \<in> set s. \<not> py_isspace c) \<Longrightarrow> py_strip s = s"
  by (simp add: py_strip_def dropWhile_none)

lemma same_letter_HK:
  "list_all2 same_letter (u ''.HK'') rest \<Longrightarrow> 8490 \<notin> set rest \<Longrightarrow> map upper_ascii rest = u ''.HK''"
  by (auto simp: u_def list_all2_Cons1 same_letter_def lower_ascii_def upper_ascii_def split: if_splits)

lemma not_suffix_HK: "list_all py_isdecimal ds \<Longrightarrow> \<not> py_endswith ds (u ''.HK'')"
proof
  assume ds: "list_all py_isdecimal ds" and e: "py_endswith ds (u ''.HK'')"
  from e have "set (u ''.HK'') \<subseteq> set ds" by (metis py_endswith_def set_drop_subset)
  then have "46 \<in> set ds" by (auto simp: u_def)
  with ds have "py_isdecimal 46" by (auto simp: list_all_iff)
  then show False by (simp add: is_digit_def)
qed

lemma removesuffix_HK: "py_removesuffix (ds @ u ''.HK'') (u ''.HK'') = ds"
  by (simp add: py_removesuffix_def py_endswith_def)

lemma parse_decimals:
  assumes "list_all py_isdecimal ds" "2 \<le> length ds" "length ds \<le> 5"
    and "rest = [] \<or> list_all2 same_letter (u ''.HK'') rest \<and> 8490 \<notin> set rest"
    and "py_strip raw = ds @ rest"
  shows "parse_stock_code (Some raw) = Some (py_zfill 5 ds)"
proof -
  have "rx_fullmatch STOCK_CODE_INPUT (ds @ rest)" using assms(1-4) by (auto simp: code_input_shape)
  moreover have "py_removesuffix (map upper_ascii (ds @ rest)) (u ''.HK'') = ds"
    using assms(4)
  proof
    assume "rest = []"
    with assms(1) not_suffix_HK [OF assms(1)] show ?thesis by (simp add: map_upper_decimals py_removesuffix_def)
  next
    assume "list_all2 same_letter (u ''.HK'') rest \<and> 8490 \<notin> set rest"
    with assms(1) show ?thesis by (simp add: map_upper_decimals same_letter_HK removesuffix_HK)
  qed
  ultimately show ?thesis using assms(5) by (simp add: parse_stock_code_def Let_def)
qed

lemma set_py_strip: "set (py_strip s) \<subseteq> set s"
  unfolding py_strip_def by (metis set_dropWhileD set_rev subsetI)

lemma same_letter_Kelvin:
  "list_all2 same_letter (u ''.HK'') rest \<Longrightarrow> 8490 \<in> set rest \<Longrightarrow> map upper_ascii rest = [46, 72, 8490]"
  by (auto simp: u_def list_all2_Cons1 same_letter_def lower_ascii_def upper_ascii_def split: if_splits)

text \<open>The pattern ignores case as Unicode has it, so it takes the Kelvin sign for a K; upper() keeps that sign,
  and the suffix stays.\<close>

lemma parse_Kelvin:
  assumes ds: "list_all py_isdecimal ds" "2 \<le> length ds" "length ds \<le> 5"
    and k: "list_all2 same_letter (u ''.HK'') rest" "8490 \<in> set rest" and raw: "py_strip raw = ds @ rest"
  shows "parse_stock_code (Some raw) = Some (py_zfill 5 (ds @ [46, 72, 8490]))"
proof -
  have "rx_fullmatch STOCK_CODE_INPUT (ds @ rest)" unfolding code_input_shape using ds k(1) by blast
  moreover have "map upper_ascii (ds @ rest) = ds @ [46, 72, 8490]"
    using ds(1) by (simp add: map_upper_decimals same_letter_Kelvin [OF k])
  moreover have "py_removesuffix (ds @ [46, 72, 8490]) (u ''.HK'') = ds @ [46, 72, 8490]"
    by (simp add: py_removesuffix_def py_endswith_def u_def)
  ultimately show ?thesis using raw by (simp add: parse_stock_code_def Let_def)
qed

text \<open>The code of some digits: zeros before them up to five, and stable under a second reading, with the
  suffix or without.\<close>

definition canonical_code :: "pystr \<Rightarrow> pystr \<Rightarrow> bool" where
  "canonical_code ds code \<longleftrightarrow> code = replicate (5 - length ds) 48 @ ds \<and> length code = 5 \<and> list_all py_isdecimal code
     \<and> parse_stock_code (Some code) = Some code \<and> parse_stock_code (Some (code @ u ''.HK'')) = Some code"

lemma canonical_zfill:
  assumes ds: "list_all py_isdecimal ds" "2 \<le> length ds" "length ds \<le> 5"
  shows "canonical_code ds (py_zfill 5 ds)"
proof -
  define code where "code = py_zfill 5 ds"
  have z: "py_isdecimal 48" by (simp add: is_digit_def)
  have sign: "c \<noteq> 43 \<and> c \<noteq> 45" if "py_isdecimal c" for c using that by (auto simp: is_digit_def)
  have shape: "code = replicate (5 - length ds) 48 @ ds"
    using ds(1) sign by (cases ds) (auto simp: code_def py_zfill_def)
  with ds z have c: "length code = 5" "list_all py_isdecimal code" by (auto simp: list_all_iff)
  have "\<forall>c \<in> set (u ''.HK''). \<not> py_isspace c" by (simp add: u_def py_isspace_def)
  moreover have "\<forall>c \<in> set code. \<not> py_isspace c" using c(2) decimal_not_space by (simp add: list_all_iff)
  ultimately have n: "\<forall>c \<in> set (code @ rest). \<not> py_isspace c" if "rest = [] \<or> rest = u ''.HK''" for rest
    using that by auto
  have pad: "py_zfill 5 code = code" using c(1) by (simp add: py_zfill_def)
  have hk: "list_all2 same_letter (u ''.HK'') (u ''.HK'')" "8490 \<notin> set (u ''.HK'')"
    by (simp_all add: u_def same_letter_def)
  have "parse_stock_code (Some (code @ rest)) = Some code" if "rest = [] \<or> rest = u ''.HK''" for rest
  proof -
    from that hk have "rest = [] \<or> list_all2 same_letter (u ''.HK'') rest \<and> 8490 \<notin> set rest" by blast
    from parse_decimals [OF c(2) _ _ this strip_none [OF n [OF that]]] c(1) pad show ?thesis by simp
  qed
  from this [of "[]"] this [of "u ''.HK''"] c shape show ?thesis
    unfolding canonical_code_def code_def [symmetric] by simp
qed

text \<open>C29: A model-written code that is read is two to five decimal digits between blanks, bare or with
  .HK in either case. Its code is those digits, padded with zeros to five; reading that code again, with
  or without the suffix, gives the same code. Only when the K of the suffix is the Kelvin sign does the
  suffix stay in the code.\<close>

theorem parsed_code_canonical:
  assumes "parse_stock_code (Some raw) = Some code"
  shows "\<exists>ds rest. py_strip raw = ds @ rest \<and> 2 \<le> length ds \<and> length ds \<le> 5 \<and> list_all py_isdecimal ds
    \<and> (rest = [] \<or> list_all2 same_letter (u ''.HK'') rest)
    \<and> (if 8490 \<in> set rest then code = py_zfill 5 (ds @ [46, 72, 8490]) \<and> \<not> list_all py_isdecimal code
       else canonical_code ds code)"
proof -
  from assms have "rx_fullmatch STOCK_CODE_INPUT (py_strip raw)"
    by (auto simp: parse_stock_code_def Let_def split: if_splits)
  then obtain ds rest where s: "py_strip raw = ds @ rest" "2 \<le> length ds" "length ds \<le> 5" "list_all py_isdecimal ds"
    and r: "rest = [] \<or> list_all2 same_letter (u ''.HK'') rest" unfolding code_input_shape by blast
  have "if 8490 \<in> set rest then code = py_zfill 5 (ds @ [46, 72, 8490]) \<and> \<not> list_all py_isdecimal code
      else canonical_code ds code"
  proof (cases "8490 \<in> set rest")
    case True
    with r have "list_all2 same_letter (u ''.HK'') rest" by auto
    from parse_Kelvin [OF s(4,2,3) this True s(1)] assms have k: "code = py_zfill 5 (ds @ [46, 72, 8490])" by simp
    then have "46 \<in> set code" by (simp add: py_zfill_def)
    moreover have "\<not> py_isdecimal 46" by (simp add: is_digit_def)
    ultimately have "\<not> list_all py_isdecimal code" unfolding list_all_iff by blast
    with True k show ?thesis by simp
  next
    case False
    with parse_decimals [OF s(4,2,3) _ s(1)] r assms have "code = py_zfill 5 ds" by auto
    with canonical_zfill [OF s(4,2,3)] False show ?thesis by simp
  qed
  with s r show ?thesis by blast
qed

text \<open>Both cases occur: 700 and 700.HK, and 700 with the Kelvin sign in its suffix.\<close>

lemma parsed_code_canonical_witness:
  "(\<exists>ds rest. u ''700'' = ds @ rest \<and> canonical_code ds (u ''00700''))
   \<and> (\<exists>ds rest. u ''700.H'' @ [8490] = ds @ rest \<and> 8490 \<in> set rest \<and> \<not> list_all py_isdecimal (u ''700.H'' @ [8490]))"
proof
  have d: "list_all py_isdecimal (u ''700'')" "2 \<le> length (u ''700'')" "length (u ''700'') \<le> 5"
    by (simp_all add: u_def is_digit_def)
  have n: "py_strip (u ''700'') = u ''700''" "py_strip (u ''700.H'' @ [8490]) = u ''700.H'' @ [8490]"
    by (rule strip_none, simp add: u_def py_isspace_def)+
  have p: "parse_stock_code (Some (u ''700'')) = Some (u ''00700'')"
    using parse_decimals [OF d, of "[]" "u ''700''"] n by (simp add: py_zfill_def u_def numeral_eq_Suc)
  from parsed_code_canonical [OF p] n
  show "\<exists>ds rest. u ''700'' = ds @ rest \<and> canonical_code ds (u ''00700'')"
    by (auto split: if_splits simp: u_def is_digit_def)
  have k: "list_all2 same_letter (u ''.HK'') (u ''.H'' @ [8490])" by (simp add: u_def same_letter_def lower_ascii_def)
  define raw where "raw = u ''700.H'' @ [8490]"
  have raw: "py_strip raw = raw" using n(2) by (simp only: raw_def)
  have p: "parse_stock_code (Some raw) = Some raw"
    using parse_Kelvin [OF d k _, of raw] n by (simp add: raw_def py_zfill_def u_def)
  have nd: "\<not> list_all py_isdecimal raw" by (simp add: raw_def u_def is_digit_def)
  from parsed_code_canonical [OF p, unfolded raw] obtain ds rest where s: "raw = ds @ rest"
    and c: "if 8490 \<in> set rest then raw = py_zfill 5 (ds @ [46, 72, 8490]) \<and> \<not> list_all py_isdecimal raw
      else canonical_code ds raw" by (elim exE conjE) (rule that; assumption)
  have "8490 \<in> set rest"
  proof (rule ccontr)
    assume "8490 \<notin> set rest"
    with c have "canonical_code ds raw" by (simp only: if_False)
    with nd show False by (simp only: canonical_code_def simp_thms)
  qed
  with s nd show "\<exists>ds rest. u ''700.H'' @ [8490] = ds @ rest \<and> 8490 \<in> set rest
      \<and> \<not> list_all py_isdecimal (u ''700.H'' @ [8490])" unfolding raw_def by blast
qed

lemma bare_number_not_printed_witness:
  "code_printed (u ''1'') (u ''1.HK'') = Inr True \<and> (\<exists>c \<in> set (u ''1.HK''). c \<in> {40, 65288, 46, 83, 115, 383, 32929})"
proof -
  have "code_printed (u ''1'') (u ''1.HK'') = Inr True"
    by (simp add: code_printed_def u_def is_digit_def decimal_int_def decimal_value_digit dec_digits.simps
        rx_found_def rx_search_def match_at_def code_pattern_def chr_rx_def Let_def upt_rec)
  with bare_number_not_printed [OF this] show ?thesis by blast
qed

section \<open>A sample run\<close>

definition sample_cache :: hk_stock_list_cache where
  "sample_cache = \<lparr> hc_entries = sample_entries, hc_name_index =
     \<lparr> ni_names = [], ni_names_by_code =
         [(u ''00700'', [\<lparr> ne_stock_code = u ''00700'', ne_variants = [u ''ab''], ne_latin = True \<rparr>])],
       ni_names_by_latin_prefix = [] \<rparr> \<rparr>"

definition sample_extracted :: extracted_entity where
  "sample_extracted = \<lparr> xe_stock_code = Some (u ''700''), xe_company_name = u ''AB'',
     xe_event_type_primary = EARNINGS, xe_event_type_secondary = None, xe_sentiment_label = POSITIVE,
     xe_sentiment_score = 1, xe_headline = u ''H'', xe_entity_summary = u ''S'' \<rparr>"

definition sample_input :: entity_analysis_input where
  "sample_input = \<lparr> in_title = u ''T'', in_body = u ''B'' \<rparr>"

definition sample_llm :: "provider_exn + provider_response \<Rightarrow> llm_world" where
  "sample_llm reply = net_world.extend (sample_net (\<lambda>_ _. Inl HttpxError))
     \<lparr> l_adapter = True, l_provider = (\<lambda>_ _. reply), l_calls = 0 \<rparr>"

definition sample_reply :: provider_response where
  "sample_reply = \<lparr> pv_text = Some (u ''[]''), pv_usage = None, pv_latency_ms = 5 \<rparr>"

definition sample_entity_cfg :: entity_analysis_config where
  "sample_entity_cfg = \<lparr> ea_batch_size = 10, ea_batch_timeout_ms = 5000, ea_max_concurrent = 2, ea_max_retry = 3,
     ea_max_input_chars = 100, ea_sadi_api_url = u ''http://sadi'', ea_consumer_name = u ''c'' \<rparr>"

lemma sample_verified: "verify_entity plain_lib sample_cache sample_extracted article = Inr (Some sample_stock)"
proof -
  have "list_all py_isdecimal (u ''700'')" "\<forall>c \<in> set (u ''700''). \<not> py_isspace c"
    by (simp_all add: u_def is_digit_def py_isspace_def)
  then have "parse_stock_code (Some (u ''700'')) = Some (u ''00700'')"
    using parse_decimals [of "u ''700''" "[]" "u ''700''"] by (simp add: strip_none py_zfill_def u_def numeral_eq_Suc)
  moreover have "is_subsequence (u ''ab'') (u ''ab'')" by (simp add: u_def)
  moreover have "u ''00700'' \<noteq> []" by (simp add: u_def)
  ultimately show ?thesis
    by (simp add: verify_entity_def sample_extracted_def sample_cache_def sample_entries_def name_matches_stock_def
        get_hk_stock_list_cache_def sample_variants al_list_def sample_stock_def)
qed

definition sample_entity :: verified_entity where
  "sample_entity = \<lparr> ve_stock = sample_stock, ve_outcome = outcome_of sample_stock sample_extracted \<rparr>"

lemma sample_entity_step:
  assumes "sk_verified_entities sk = []"
  shows "entity_step plain_lib sample_cache article sample_extracted (Inr (sk, [])) =
     Inr (sk\<lparr> sk_verified_entities := [u ''00700''] \<rparr>, [sample_entity])"
proof -
  have "constrained (outcome_of sample_stock sample_extracted)"
    by (simp add: constrained_def outcome_of_def sample_extracted_def HEADLINE_MAX_CHARS_def ENTITY_SUMMARY_MAX_CHARS_def)
  with assms show ?thesis
    by (simp add: entity_step_def sample_verified enforce_id sample_entity_def)
      (simp add: outcome_of_def sample_stock_def)
qed

lemma sample_skill_run:
  "\<exists>res w'. run_skill plain_lib (\<lambda>_. Some [sample_extracted]) sample_cache sample_entity_cfg (new_skill sample_input)
     (sample_llm (Inr sample_reply)) = (Inr res, w') \<and> rs_entity_events res = Some [sample_entity]"
  by (simp add: run_skill_def llm_process_def truncate_input_def new_skill_def generate_structured_def
      provider_call_def sample_llm_def sample_reply_def sample_entity_cfg_def sample_input_def io_defs Let_def
      create_skill_log_def datetime_now_def net_world.defs sample_net_def sample_entity_step)

lemma skill_result_verified_witness:
  "ve_stock sample_entity \<in> snd ` set (hc_entries sample_cache) \<and> ao_sentiment_score (ve_outcome sample_entity) \<le> 1"
proof -
  obtain res w' where r: "run_skill plain_lib (\<lambda>_. Some [sample_extracted]) sample_cache sample_entity_cfg
      (new_skill sample_input) (sample_llm (Inr sample_reply)) = (Inr res, w')"
    "rs_entity_events res = Some [sample_entity]" using sample_skill_run by blast
  from skill_result_verified [OF r] show ?thesis by simp
qed

lemma skill_returns_llm_errors_witness:
  "\<exists>res w'. run_skill plain_lib (\<lambda>_. None) sample_cache sample_entity_cfg (new_skill sample_input)
     (sample_llm (Inl (Api_error 429 True))) = (Inr res, w')
     \<and> rs_failure_reason res = Some (sapi_err LLMRateLimitError LLM_CATEGORY) \<and> rs_entity_events res = None"
proof -
  have sub: "is_subclass LLMRateLimitError LLMError" by (simp add: is_subclass_def mro_simps)
  have "\<exists>res w'. run_skill plain_lib (\<lambda>_. None) sample_cache sample_entity_cfg (new_skill sample_input)
      (sample_llm (Inl (Api_error 429 True))) = (Inr res, w')
      \<and> rs_failure_reason res = Some (sapi_err LLMRateLimitError LLM_CATEGORY)"
    by (simp add: run_skill_def llm_process_def truncate_input_def new_skill_def generate_structured_def sub
        provider_call_def sample_llm_def sample_entity_cfg_def sample_input_def io_defs Let_def build_fail_result_def
        create_skill_log_def datetime_now_def net_world.defs sample_net_def call_error_def)
  then obtain res w' where r: "run_skill plain_lib (\<lambda>_. None) sample_cache sample_entity_cfg (new_skill sample_input)
      (sample_llm (Inl (Api_error 429 True))) = (Inr res, w')"
    "rs_failure_reason res = Some (sapi_err LLMRateLimitError LLM_CATEGORY)" by blast
  from skill_returns_llm_errors [OF r(1)] r show ?thesis by auto
qed

end
