(* ===== verification/Sapi_Entity_Analysis_Props.thy ===== *)
theory Sapi_Entity_Analysis_Props
  imports Sapi_Entity_Analysis_Steps Sapi_Entity_Skill_Props Sapi_Sample
begin

text \<open>
  What the entity-analysis layer guarantees: a message is acknowledged only when its article's outcome
  is final, the worker pool's books always balance, and a rate limit holds back new work.
\<close>

section \<open>Acknowledgements\<close>

lemma unacked_news_calls:
  shows "always (unacked K) uuid4"
    and "always (unacked K) (http_get url)"
    and "always (unacked K) (provider_call req)"
  by (rule alwaysI, auto simp: uuid4_def http_get_def provider_call_def intro: same_streams_unacked)+

lemma find_read_unacked: "always (unacked K :: 'z llm_world_scheme \<Rightarrow> _) (find_read cfg L i)"
proof -
  have log: "always (unacked K :: 'z llm_world_scheme \<Rightarrow> _) (create_skill_log sk)" for sk
    unfolding create_skill_log_def by (intro unacked.always_bind unacked.always_ret datetime_now_unacked)
  have skill: "always (unacked K :: 'z llm_world_scheme \<Rightarrow> _) (run_skill T v c e sk)" for T v c e sk
    unfolding run_skill_def llm_process_def build_fail_result_def generate_structured_def Let_def
    by (auto intro!: unacked.always_try unacked.always_bind unacked.always_ret unacked.always_raise
        unacked.always_of_sum unacked_news_calls log
        split: prod.splits exn.splits sum.splits option.splits provider_exn.splits)
  show ?thesis
    unfolding find_read_def run_analysis_def stock_list_cache_def get_llm_adapter_def fetch_cleaned_news_def
      translate_client_errors_def raise_for_status_def fetch_entity_event_ids_by_source_url_def
    by (auto intro!: unacked.always_try unacked.always_bind unacked.always_ret unacked.always_raise
        unacked.always_get_w unacked.always_of_sum unacked_news_calls skill unacked_pg.always_pg split: option.splits)
qed

lemma find_write_unacked: "always (unacked K) (find_write cfg f)"
  unfolding find_write_def publish_completed_def persist_entities_def
  by (auto intro!: unacked.always_bind unacked.always_ret unacked.always_for_each publish_unacked
      unacked_pg.always_transaction unacked.always_fold_io unacked_pg.always_pg unacked_news_calls datetime_now_unacked
      split: finding.splits)

definition same_tables :: "'z world_scheme \<Rightarrow> 'z world_scheme \<Rightarrow> bool" where
  "same_tables w w' \<longleftrightarrow> w_db w' = w_db w \<and> w_streams w' = w_streams w"

interpretation same_tables: monotone_io same_tables
  by unfold_locales (auto simp: same_tables_def)

lemma analysis_failed_quiet: "always same_tables (analysis_failed cfg e)"
proof -
  have "always same_tables datetime_now"
    by (rule alwaysI) (auto simp: datetime_now_def Let_def same_tables_def)
  then show ?thesis
    unfolding analysis_failed_def trigger_backoff_def
    by (auto intro!: same_tables.always_raise same_tables.always_ret same_tables.always_when same_tables.always_bind
        always_modify simp: same_tables_def split: exn.splits)
qed

section \<open>Reading an article\<close>

definition same_db :: "'z world_scheme \<Rightarrow> 'z world_scheme \<Rightarrow> bool" where
  "same_db w w' \<longleftrightarrow> w_db w' = w_db w"

interpretation same_db: monotone_io same_db
  by unfold_locales (auto simp: same_db_def)

lemma run_analysis_db: "always (same_db :: 'z llm_world_scheme \<Rightarrow> _) (run_analysis cfg L a)"
proof -
  have calls: "always (same_db :: 'z llm_world_scheme \<Rightarrow> _) (provider_call req)"
    "always (same_db :: 'z llm_world_scheme \<Rightarrow> _) datetime_now" for req
    by (rule alwaysI, auto simp: provider_call_def datetime_now_def Let_def same_db_def)+
  show ?thesis
    unfolding run_analysis_def stock_list_cache_def get_llm_adapter_def run_skill_def llm_process_def
      build_fail_result_def generate_structured_def create_skill_log_def Let_def
    by (auto intro!: same_db.always_try same_db.always_bind same_db.always_ret same_db.always_raise
        same_db.always_of_sum same_db.always_get_w calls
        split: prod.splits exn.splits sum.splits option.splits provider_exn.splits)
qed

text \<open>The rows of an article's address.\<close>

definition rows_of :: "pystr \<Rightarrow> db \<Rightarrow> entity_event_row list" where
  "rows_of url d = filter (\<lambda>r. er_source_url r = url) (t_entity_events d)"

lemma fetch_cleaned_news_Inr:
  assumes "fetch_cleaned_news validate base i w = (Inr found, w')"
  obtains response where "n_server w (n_requests w) (cleaned_news_url base i) = Inr response"
    "found = None \<Longrightarrow> hr_status response = 404"
    "\<And>a. found = Some a \<Longrightarrow> validate (hr_content response) = Some a"
proof -
  have "\<exists>response. n_server w (n_requests w) (cleaned_news_url base i) = Inr response
      \<and> (found = None \<longrightarrow> hr_status response = 404) \<and> (\<forall>a. found = Some a \<longrightarrow> validate (hr_content response) = Some a)"
    using assms
    by (cases found) (auto simp: fetch_cleaned_news_def translate_client_errors_def http_get_def raise_for_status_def io_defs
        split: sum.splits option.splits if_splits)
  then show ?thesis using that by blast
qed

lemma find_read_Inr:
  assumes "find_read cfg L i w = (Inr f, w')"
  obtains response where
    "n_server w (n_requests w) (cleaned_news_url (ea_sadi_api_url (cfg_entity_analysis cfg)) i) = Inr response"
    "f = No_article \<Longrightarrow> hr_status response = 404"
    "\<And>ids. f = Already_stored ids \<Longrightarrow> \<exists>a. al_validate_news L (hr_content response) = Some a
       \<and> ids = map er_entity_event_id (rows_of (cn_source_url a) (w_db w'))"
    "\<And>a res. f = Analysed a res \<Longrightarrow> al_validate_news L (hr_content response) = Some a \<and> rows_of (cn_source_url a) (w_db w') = []"
proof -
  from assms obtain found v where fetch: "fetch_cleaned_news (al_validate_news L)
      (ea_sadi_api_url (cfg_entity_analysis cfg)) i w = (Inr found, v)"
    and rest: "(case found of None \<Rightarrow> ret No_article | Some article \<Rightarrow>
         bind (fetch_entity_event_ids_by_source_url (cn_source_url article)) (\<lambda>existing_ids.
         if existing_ids \<noteq> [] then ret (Already_stored existing_ids)
         else bind (run_analysis cfg L article) (\<lambda>result.
              case rs_failure_reason result of
                Some err \<Rightarrow> raise (Sapi err)
              | None \<Rightarrow> ret (Analysed article result)))) v = (Inr f, w')"
    by (auto simp: find_read_def bind_eq_Inr)
  from fetch_cleaned_news_Inr [OF fetch] obtain response where
    r: "n_server w (n_requests w) (cleaned_news_url (ea_sadi_api_url (cfg_entity_analysis cfg)) i) = Inr response"
    "found = None \<Longrightarrow> hr_status response = 404"
    "\<And>a. found = Some a \<Longrightarrow> al_validate_news L (hr_content response) = Some a" by blast
  show ?thesis
  proof (cases found)
    case None
    with rest have "f = No_article" by simp
    with that [OF r(1)] r(2) None show ?thesis by simp
  next
    case (Some a)
    with rest obtain ids u where ids: "fetch_entity_event_ids_by_source_url (cn_source_url a) v = (Inr ids, u)"
      and f: "(if ids \<noteq> [] then ret (Already_stored ids)
         else bind (run_analysis cfg L a) (\<lambda>result. case rs_failure_reason result of
                Some err \<Rightarrow> raise (Sapi err) | None \<Rightarrow> ret (Analysed a result))) u = (Inr f, w')"
      by (auto simp: bind_eq_Inr)
    have i: "ids = map er_entity_event_id (rows_of (cn_source_url a) (w_db u))"
      using db_fetch_Inr [OF ids [unfolded fetch_entity_event_ids_by_source_url_def]] by (simp add: rows_of_def)
    show ?thesis
    proof (cases "ids = []")
      case False
      with f have "f = Already_stored ids" "w' = u" by simp_all
      with that [OF r(1)] r(3) Some i show ?thesis by simp
    next
      case True
      with f obtain res q where res: "run_analysis cfg L a u = (Inr res, q)"
        and "(case rs_failure_reason res of Some err \<Rightarrow> raise (Sapi err) | None \<Rightarrow> ret (Analysed a res)) q = (Inr f, w')"
        by (auto simp: bind_eq_Inr)
      then have "f = Analysed a res" "q = w'" by (auto split: option.splits)
      moreover have "w_db q = w_db u" using alwaysD [OF run_analysis_db res] by (simp add: same_db_def)
      ultimately show ?thesis using that [OF r(1)] r(3) Some i True by simp
    qed
  qed
qed

section \<open>Storing and announcing\<close>

definition announced_id :: "pystr \<Rightarrow> 'z world_scheme \<Rightarrow> bool" where
  "announced_id i w \<longleftrightarrow>
     (\<exists>k. (k, completed_message i) \<in> set (sm_entries (the_stream (w_streams w) ENTITY_EVENT_COMPLETED)))"

lemma announced_id_grow: "world_grow w w' \<Longrightarrow> announced_id i w \<Longrightarrow> announced_id i w'"
  unfolding announced_id_def world_grow_def streams_grow_def by (meson set_mono_prefix subsetD)

lemma publish_completed_announces:
  assumes "publish_completed cfg ids w = (Inr (), w')"
  shows "(\<forall>i \<in> set ids. announced_id i w') \<and> w_db w' = w_db w"
proof -
  have "w_db w' = w_db w"
  proof -
    have "always same_db (publish_completed cfg ids)"
      unfolding publish_completed_def
      by (intro same_db.always_for_each same_db.always_bind same_db.always_ret alwaysI)
        (auto dest!: alwaysD [OF publish_frame] simp: rs_frame_def same_db_def)
    from alwaysD [OF this assms] show ?thesis by (simp add: same_db_def)
  qed
  moreover have "True \<and> (\<forall>i. announced_id i w \<longrightarrow> announced_id i w') \<and> (\<forall>i \<in> set ids. announced_id i w')"
  proof (rule for_each_establishes [OF assms [unfolded publish_completed_def], where I = "\<lambda>_. True"])
    fix i and v v' :: "'a world_scheme" and r
    assume run: "seq (publish (redis_reconnect_interval_s (cfg_redis cfg)) ENTITY_EVENT_COMPLETED (completed_message i)) (ret ()) v = (r, v')"
    then obtain q where q: "publish (redis_reconnect_interval_s (cfg_redis cfg)) ENTITY_EVENT_COMPLETED (completed_message i) v = (q, v')"
      by (auto dest: seq_ret_cases)
    have "world_grow v v'" using publish_cases [OF q] by (simp add: world_grow_def)
    then show "True \<and> (\<forall>y. announced_id y v \<longrightarrow> announced_id y v')" using announced_id_grow by blast
  next
    fix i and v v' :: "'a world_scheme"
    assume run: "seq (publish (redis_reconnect_interval_s (cfg_redis cfg)) ENTITY_EVENT_COMPLETED (completed_message i)) (ret ()) v = (Inr (), v')"
    then obtain k where "publish (redis_reconnect_interval_s (cfg_redis cfg)) ENTITY_EVENT_COMPLETED (completed_message i) v = (Inr k, v')"
      by (auto simp: bind_eq_Inr)
    from publish_cases [OF this] show "announced_id i v'" by (auto simp: announced_id_def)
  qed simp
  ultimately show ?thesis by blast
qed

text \<open>Every row that storing adds is one of those it returns.\<close>

definition rows_from :: "db \<Rightarrow> entity_event list \<Rightarrow> db \<Rightarrow> bool" where
  "rows_from d ps d' \<longleftrightarrow> (\<forall>r \<in> set (t_entity_events d'). r \<in> set (t_entity_events d)
     \<or> (\<exists>p \<in> set ps. ee_entity_event_id p = Some (er_entity_event_id r)))"

lemma insert_entity_event_rows:
  "insert_entity_event r d = (Inr x, d') \<Longrightarrow>
     d' = d \<and> x = None \<or> x = Some (er_entity_event_id r) \<and> t_entity_events d' = t_entity_events d @ [r]"
  by (auto simp: insert_entity_event_def split: if_splits)

lemma persist_fold_rows:
  "fold_io (\<lambda>persisted entity.
       bind uuid4 (\<lambda>new_id.
       bind datetime_now (\<lambda>now.
       bind (tx_execute_returning (insert_entity_event (entity_event_values entity new_id now))) (\<lambda>inserted.
       ret (if inserted \<noteq> None
            then persisted @ [entity\<lparr> ee_entity_event_id := Some new_id, ee_created_at := Some now \<rparr>]
            else persisted))))) acc es w = (Inr ps, w') \<Longrightarrow> rows_from d acc (w_db w) \<Longrightarrow> rows_from d ps (w_db w')"
proof (induction es arbitrary: acc w)
  case (Cons e es)
  from Cons.prems(1) obtain new_id w1 now w2 inserted w3 where
    1: "uuid4 w = (Inr new_id, w1)" "datetime_now w1 = (Inr now, w2)"
    and 2: "tx_execute_returning (insert_entity_event (entity_event_values e new_id now)) w2 = (Inr inserted, w3)"
    and rest: "fold_io (\<lambda>persisted entity.
       bind uuid4 (\<lambda>new_id.
       bind datetime_now (\<lambda>now.
       bind (tx_execute_returning (insert_entity_event (entity_event_values entity new_id now))) (\<lambda>inserted.
       ret (if inserted \<noteq> None
            then persisted @ [entity\<lparr> ee_entity_event_id := Some new_id, ee_created_at := Some now \<rparr>]
            else persisted)))))
      (if inserted \<noteq> None then acc @ [e\<lparr> ee_entity_event_id := Some new_id, ee_created_at := Some now \<rparr>] else acc)
      es w3 = (Inr ps, w')"
    by (auto simp: bind_eq_Inr)
  have "w_db w2 = w_db w" using 1 by (auto simp: uuid4_def datetime_now_def Let_def)
  with 2 have i: "insert_entity_event (entity_event_values e new_id now) (w_db w) = (Inr inserted, w_db w3)"
    by (auto simp: tx_execute_returning_def translated_Inr dest!: pg_call_Inr)
  have id: "er_entity_event_id (entity_event_values e new_id now) = new_id"
    by (simp add: entity_event_values_def Let_def)
  from insert_entity_event_rows [OF i] Cons.prems(2) id
  have "rows_from d (if inserted \<noteq> None then acc @ [e\<lparr> ee_entity_event_id := Some new_id, ee_created_at := Some now \<rparr>]
      else acc) (w_db w3)"
    by (auto simp: rows_from_def)
  with Cons.IH rest show ?case by blast
qed simp

lemma persist_entities_rows:
  assumes "persist_entities cfg es w = (Inr ps, w')"
  shows "rows_from (w_db w) ps (w_db w')"
proof -
  have id: "rows_from (w_db w) [] (w_db w)" by (simp add: rows_from_def)
  from db_transaction_Inr [OF assms [unfolded persist_entities_def]] show ?thesis
    by (elim exE conjE) (drule persist_fold_rows [where d = "w_db w"]; simp add: id)
qed

text \<open>What is final: SADI has no such article, or every stored report of its address is announced.\<close>

definition article_final :: "app_config \<Rightarrow> analysis_lib \<Rightarrow> uuid \<Rightarrow> 'z llm_world_scheme \<Rightarrow> 'z llm_world_scheme \<Rightarrow> bool" where
  "article_final cfg L i w w' \<longleftrightarrow>
     (\<exists>response. n_server w (n_requests w) (cleaned_news_url (ea_sadi_api_url (cfg_entity_analysis cfg)) i) = Inr response
        \<and> (hr_status response = 404
           \<or> (\<exists>a. al_validate_news L (hr_content response) = Some a
                \<and> (\<forall>r \<in> set (t_entity_events (w_db w')). er_source_url r = cn_source_url a
                      \<longrightarrow> announced_id (uuid_str (er_entity_event_id r)) w'))))"

lemma find_entity_events_final:
  assumes "find_entity_events cfg L i w = (Inr es, w')"
  shows "article_final cfg L i w w'"
proof -
  from assms obtain f v where read: "find_read cfg L i w = (Inr f, v)" and wr: "find_write cfg f v = (Inr es, w')"
    by (auto simp: find_entity_events_def bind_eq_Inr)
  from find_read_Inr [OF read] obtain response where
    r: "n_server w (n_requests w) (cleaned_news_url (ea_sadi_api_url (cfg_entity_analysis cfg)) i) = Inr response"
    "f = No_article \<Longrightarrow> hr_status response = 404"
    "\<And>ids. f = Already_stored ids \<Longrightarrow> \<exists>a. al_validate_news L (hr_content response) = Some a
       \<and> ids = map er_entity_event_id (rows_of (cn_source_url a) (w_db v))"
    "\<And>a res. f = Analysed a res \<Longrightarrow> al_validate_news L (hr_content response) = Some a \<and> rows_of (cn_source_url a) (w_db v) = []"
    by blast
  have "hr_status response = 404 \<or> (\<exists>a. al_validate_news L (hr_content response) = Some a
      \<and> (\<forall>r \<in> set (t_entity_events (w_db w')). er_source_url r = cn_source_url a
           \<longrightarrow> announced_id (uuid_str (er_entity_event_id r)) w'))"
  proof (cases f)
    case No_article
    with r(2) show ?thesis by simp
  next
    case (Already_stored ids)
    with r(3) obtain a where a: "al_validate_news L (hr_content response) = Some a"
      "ids = map er_entity_event_id (rows_of (cn_source_url a) (w_db v))" by blast
    from wr Already_stored have "publish_completed cfg (map uuid_str ids) v = (Inr (), w')"
      by (auto simp: find_write_def bind_eq_Inr)
    from publish_completed_announces [OF this] a show ?thesis by (auto simp: rows_of_def)
  next
    case (Analysed a res)
    with wr obtain ps q where p: "persist_entities (cfg_db cfg) (map (new_entity_event a (rs_skill_log res))
          (case rs_entity_events res of None \<Rightarrow> [] | Some es \<Rightarrow> es)) v = (Inr ps, q)"
      and pub: "publish_completed cfg (map entity_event_id_str ps) q = (Inr (), w')"
      by (auto simp: find_write_def bind_eq_Inr)
    from r(4) [OF Analysed] have a: "al_validate_news L (hr_content response) = Some a" "rows_of (cn_source_url a) (w_db v) = []"
      by simp_all
    have "announced_id (uuid_str (er_entity_event_id x)) w'"
      if "x \<in> set (t_entity_events (w_db w'))" "er_source_url x = cn_source_url a" for x
    proof -
      have x: "x \<in> set (t_entity_events (w_db q))" "x \<notin> set (t_entity_events (w_db v))"
        using that a(2) publish_completed_announces [OF pub] by (auto simp: rows_of_def filter_empty_conv)
      with persist_entities_rows [OF p] obtain e where "e \<in> set ps" "ee_entity_event_id e = Some (er_entity_event_id x)"
        by (auto simp: rows_from_def)
      then have "uuid_str (er_entity_event_id x) \<in> set (map entity_event_id_str ps)"
        by (force simp: entity_event_id_str_def)
      with publish_completed_announces [OF pub] show ?thesis by blast
    qed
    with a show ?thesis by blast
  qed
  with r(1) show ?thesis unfolding article_final_def by blast
qed

text \<open>C9: Analysing an article acknowledges at most its own message, and only when the outcome is final:
  SADI answered that it has no such article, or every stored EntityEvent of the article's address is
  announced on the stream the aggregation layer reads.\<close>

theorem article_acknowledged_only_when_final:
  fixes w :: "'z analysis_world_scheme"
  assumes "analyse cfg L i mid w = (r, w')"
    and "k \<in> pending_ids (w_streams w) n g" and "k \<notin> pending_ids (w_streams w') n g"
  shows "n = RAW_NEWS_CLEANED \<and> g = ENTITY_ANALYSIS_GROUP \<and> k = mid \<and> article_final cfg L i w w'"
proof -
  obtain q v where q: "find_entity_events cfg L i w = (q, v)" by fastforce
  have "always (unacked {} :: 'z analysis_world_scheme \<Rightarrow> _) (find_entity_events cfg L i)"
    unfolding find_entity_events_def by (intro unacked.always_bind find_read_unacked find_write_unacked)
  from alwaysD [OF this q] assms(2) have kept: "k \<in> pending_ids (w_streams v) n g" by (simp add: unacked_def)
  show ?thesis
  proof (cases q)
    case (Inl e)
    with assms(1) q have "analysis_failed cfg e v = (r, w')" by (simp add: analyse_def bind_def try_except_def)
    from alwaysD [OF analysis_failed_quiet this] kept assms(3) show ?thesis by (simp add: same_tables_def)
  next
    case (Inr es)
    obtain a u where a: "ack_news mid v = (a, u)" by fastforce
    have "world_grow v u" by (rule alwaysD [OF ack_grow a [unfolded ack_news_def]])
    moreover have "w_db u = w_db v"
      using alwaysD [OF ack_frame a [unfolded ack_news_def]] by (simp add: rs_frame_def)
    ultimately have final: "article_final cfg L i w u"
      using find_entity_events_final [OF q [unfolded Inr]] announced_id_grow unfolding article_final_def by metis
    have same: "same_tables u w'"
    proof (cases a)
      case (Inr x)
      with assms(1) q \<open>q = Inr es\<close> a show ?thesis by (simp add: analyse_def bind_def try_except_def same_tables_def)
    next
      case (Inl e)
      with assms(1) q \<open>q = Inr es\<close> a have "analysis_failed cfg e u = (r, w')"
        by (simp add: analyse_def bind_def try_except_def)
      then show ?thesis by (rule alwaysD [OF analysis_failed_quiet])
    qed
    have "unacked {(RAW_NEWS_CLEANED, ENTITY_ANALYSIS_GROUP, mid)} v u"
      by (rule alwaysD [OF ack_unacked a [unfolded ack_news_def]]) simp
    with kept assms(3) same have "(n, g, k) = (RAW_NEWS_CLEANED, ENTITY_ANALYSIS_GROUP, mid)"
      by (auto simp: unacked_def same_tables_def)
    with final same show ?thesis by (simp add: article_final_def announced_id_def same_tables_def)
  qed
qed

section \<open>The worker pool\<close>

text \<open>C30: In every reachable state of the layer the free slots and the tasks that hold one make up
  max_concurrent, so never more analyses run; no article has two tasks, and the in-flight set holds
  exactly the articles of the tasks, so none is left behind to be skipped for ever.\<close>

theorem reachable_slots_exact:
  assumes "news_reachable cfg dumps L w0 w"
  shows "a_permits w + length (filter (\<lambda>t. at_phase t \<noteq> Waiting) (a_tasks w))
      = nat (ea_max_concurrent (cfg_entity_analysis cfg))
    \<and> distinct (map at_cleaned_id (a_tasks w)) \<and> set (a_processing w) = at_cleaned_id ` set (a_tasks w)"
  using news_reachable_ok [OF assms] by (simp add: pool_ok_def in_slot_def [abs_def])

section \<open>The pause after a rate limit\<close>

definition backoff_us :: "app_config \<Rightarrow> int" where
  "backoff_us cfg = llm_rate_limit_backoff_s (cfg_llm cfg) * us_per_second"

text \<open>The clock never goes back, and a deadline T within the backoff of the clock is never shortened.\<close>

definition holds_back :: "app_config \<Rightarrow> instant \<Rightarrow> 'z analysis_world_scheme \<Rightarrow> 'z analysis_world_scheme \<Rightarrow> bool" where
  "holds_back cfg T w w' \<longleftrightarrow> w_now w \<le> w_now w'
     \<and> (T \<le> a_rate_limit_until w \<and> T \<le> w_now w + backoff_us cfg \<longrightarrow> T \<le> a_rate_limit_until w')"

interpretation hold: news_frame "holds_back cfg T" cfg for cfg T
  by unfold_locales
    (auto intro!: alwaysI simp: pg_frame_def rs_frame_def uuid4_def http_get_def provider_call_def holds_back_def
      backoff_us_def dest: more_same_news)

lemma holds_modify: "(\<And>w. w_now (f w) = w_now w \<and> a_rate_limit_until (f w) = a_rate_limit_until w) \<Longrightarrow> always (holds_back cfg T) (modify f)"
  by (rule always_modify) (simp add: holds_back_def)

lemma set_news_loop_clock [simp]:
  "w_now (set_news_loop l s w) = w_now w" "a_rate_limit_until (set_news_loop l s w) = a_rate_limit_until w"
  "a_tasks (set_news_loop l s w) = a_tasks w"
  by (cases l; simp add: set_news_loop_def)+

lemma news_error_clock [simp]:
  "w_now (news_error l n e w) = w_now w" "a_rate_limit_until (news_error l n e w) = a_rate_limit_until w"
  "a_tasks (news_error l n e w) = a_tasks w"
  by (simp_all add: news_error_def)

lemma hold_guard: "always (holds_back cfg T) m \<Longrightarrow> always (holds_back cfg T) (news_guard c l m)"
  unfolding news_guard_def news_sleep_def by (auto intro!: hold.always_try hold.always_raise holds_modify)

lemma hold_process: "always (holds_back cfg T) (process_news i)"
  unfolding process_news_def stock_list_cache_def
  by (auto intro!: hold.always_bind hold.always_ret hold.always_get_w hold.always_of_sum holds_modify)

lemma hold_route: "always (holds_back cfg T) (news_route c dumps l)"
  unfolding news_route_def route_news_def
  by (auto intro!: hold.always_bind hold.always_try hold.always_ret hold.always_raise hold.always_get_w hold.dead_letter_R
      hold_process holds_modify split: list.splits option.splits prod.splits)

lemma hold_read: "always (holds_back cfg T) (news_read c l)"
  unfolding news_read_def news_sleep_def
  by (auto intro!: hold_guard hold.always_bind hold.always_rs holds_modify split: loop_name.splits)

lemma hold_done: "always (holds_back cfg T) (batch_done c l)"
  unfolding batch_done_def news_sleep_def
  by (auto intro!: hold_guard hold.always_bind hold.always_get_w hold.always_raise holds_modify split: option.splits)

lemma hold_tasks:
  "always (holds_back cfg T) (task_read cfg L t)" "always (holds_back cfg T) (task_write cfg t f)"
  unfolding task_read_def task_write_def task_error_def finish_task_def
  by (auto intro!: hold.always_try hold.always_bind hold.analyse_read_R hold.analyse_write_R holds_modify split: option.splits)

lemma hold_layer: "always (holds_back cfg T) (news_start c)" "always (holds_back cfg T) (news_stop c)"
  "always (holds_back cfg T) grant_slot" "always (holds_back cfg T) (start_task t)"
  unfolding news_start_def news_sleep_def news_stop_def grant_slot_def start_task_def
  by (auto intro!: hold.always_bind hold.always_rs holds_modify split: option.splits)

lemma news_step_holds: "news_step cfg dumps L w w' \<Longrightarrow> holds_back cfg T w w'"
proof (induction rule: news_step.induct)
  case (Env w w')
  then show ?case by (simp add: news_env_def holds_back_def)
next
  case (Read_crash w l e w1 w')
  show ?case by (rule hold.R_trans [OF alwaysD [OF hold_read Read_crash(4)] alwaysD [OF hold_layer(2) Read_crash(5)]])
next
  case (Batch_crash w l e w1 w')
  show ?case by (rule hold.R_trans [OF alwaysD [OF hold_done Batch_crash(5)] alwaysD [OF hold_layer(2) Batch_crash(6)]])
qed (erule alwaysD [OF hold_read] alwaysD [OF hold_route] alwaysD [OF hold_done] alwaysD [OF hold_tasks(1)]
    alwaysD [OF hold_tasks(2)] alwaysD [OF hold_layer(1)] alwaysD [OF hold_layer(2)] alwaysD [OF hold_layer(3)]
    alwaysD [OF hold_layer(4)])+

text \<open>The articles whose analysis has begun and is not over.\<close>

definition begun :: "'z analysis_world_scheme \<Rightarrow> uuid set" where
  "begun w = {at_cleaned_id t |t. t \<in> set (a_tasks w) \<and> at_phase t \<noteq> Waiting \<and> at_phase t \<noteq> Slotted}"

lemma begun_same: "a_tasks w' = a_tasks w \<Longrightarrow> begun w' = begun w"
  by (simp add: begun_def)

lemma begun_set_phase:
  "p = Waiting \<or> p = Slotted \<or> i \<in> begun w \<Longrightarrow> begun (w\<lparr> a_tasks := set_phase i p (a_tasks w) \<rparr>) \<subseteq> begun w"
  by (auto simp: begun_def set_phase_def)

text \<open>The layer's own tasks and loops during an operation.\<close>

lemma same_begun: "same_news w w' \<Longrightarrow> begun w' = begun w"
  by (simp add: same_news_def begun_def)

definition same_at :: "'z analysis_world_scheme \<Rightarrow> 'z analysis_world_scheme \<Rightarrow> bool" where
  "same_at w w' \<longleftrightarrow> a_tasks w' = a_tasks w"

interpretation same_at: news_frame "same_at :: 'z analysis_world_scheme \<Rightarrow> _" cfg for cfg
  by unfold_locales
    (auto intro!: alwaysI simp: pg_frame_def rs_frame_def uuid4_def http_get_def provider_call_def same_at_def
      dest!: more_same_news, auto simp: same_news_def)

lemma at_modify: "(\<And>w. a_tasks (f w) = a_tasks w) \<Longrightarrow> always same_at (modify f)"
  by (rule always_modify) (simp add: same_at_def)

lemma at_guard: "always same_at m \<Longrightarrow> always same_at (news_guard c l m)"
  unfolding news_guard_def news_sleep_def by (auto intro!: same_at.always_try same_at.always_raise at_modify)

lemma at_loops: "always same_at (news_read c l)" "always same_at (batch_done c l)" "always same_at (news_start c)"
  unfolding news_read_def batch_done_def news_start_def news_sleep_def
  by (auto intro!: at_guard same_at.always_bind same_at.always_rs same_at.always_get_w same_at.always_raise at_modify
      split: loop_name.splits option.splits)

lemma finish_begun: "finish_task t w = (r, w') \<Longrightarrow> begun w' \<subseteq> begun w"
  by (auto simp: finish_task_def begun_def)

lemma task_error_begun: "task_error t e w = (r, w') \<Longrightarrow> begun w' \<subseteq> begun w"
  by (auto simp: task_error_def finish_task_def begun_def bind_def modify_def)

lemma task_read_begun:
  assumes "task_read cfg L t w = (r, w')" and "t \<in> set (a_tasks w)" and "at_phase t = Running"
  shows "begun w' \<subseteq> begun w"
proof -
  obtain q v where q: "analyse_read cfg L (at_cleaned_id t) w = (q, v)" by fastforce
  have s: "same_news w v" using alwaysD [OF same_news.analyse_read_R q] .
  then have b: "begun v = begun w" and t: "at_cleaned_id t \<in> begun v"
    using assms(2,3) by (auto simp: begun_def same_news_def)
  show ?thesis
  proof (cases q)
    case (Inl e)
    with assms(1) q have "task_error t e v = (r, w')" by (simp add: task_read_def bind_def try_except_def)
    with b task_error_begun show ?thesis by blast
  next
    case (Inr f)
    show ?thesis
    proof (cases f)
      case None
      obtain u where "finish_task t v = (Inr (), u)" by (simp add: finish_task_def modify_def)
      with finish_begun [OF this] assms(1) q Inr None b show ?thesis by (simp add: task_read_def bind_def try_except_def)
    next
      case (Some g)
      with assms(1) q Inr have "w' = v\<lparr> a_tasks := set_phase (at_cleaned_id t) (Writing g) (a_tasks v) \<rparr>"
        by (simp add: task_read_def bind_def try_except_def modify_def)
      with begun_set_phase [of "Writing g" "at_cleaned_id t" v] t b show ?thesis by simp
    qed
  qed
qed

lemma task_write_begun:
  assumes "task_write cfg t f w = (r, w')"
  shows "begun w' \<subseteq> begun w"
proof -
  obtain q v where q: "analyse_write cfg f (at_message_id t) w = (q, v)" by fastforce
  have b: "begun v = begun w" by (rule same_begun [OF alwaysD [OF same_news.analyse_write_R q]])
  show ?thesis
  proof (cases q)
    case (Inl e)
    with assms q have "task_error t e v = (r, w')" by (simp add: task_write_def bind_def try_except_def)
    with b task_error_begun show ?thesis by blast
  next
    case (Inr x)
    obtain u where "finish_task t v = (Inr (), u)" by (simp add: finish_task_def modify_def)
    with finish_begun [OF this] assms q Inr b show ?thesis by (simp add: task_write_def bind_def try_except_def)
  qed
qed

lemma route_begun:
  assumes "news_route cfg dumps l w = (r, w')"
  shows "begun w' \<subseteq> begun w"
proof (cases "bl_batch (news_loop l w)")
  case Nil
  with assms show ?thesis by (simp add: news_route_def get_w_def bind_def)
next
  case (Cons nm rest)
  obtain n m where nm: "nm = (n, m)" by fastforce
  define v where "v = set_news_loop l ((news_loop l w)\<lparr> bl_batch := rest \<rparr>) w"
  have v: "begun v = begun w" by (simp add: v_def begun_def)
  obtain q u where q: "route_news cfg dumps m v = (q, u)" by fastforce
  have u: "begun u = begun v"
    using route_news_cases [OF q]
  proof (elim disjE exE conjE)
    assume "same_news v u"
    then show ?thesis by (rule same_begun)
  next
    fix i
    assume "u = v\<lparr> a_processing := i # a_processing v \<rparr>"
    then show ?thesis by (intro begun_same) simp
  qed
  have "a_tasks w' = a_tasks u \<or> (\<exists>t. at_phase t = Waiting \<and> a_tasks w' = a_tasks u @ [t])"
    using assms Cons nm q
    by (cases q) (auto simp: news_route_def v_def [symmetric] bind_def try_except_def ret_def modify_def get_w_def split: option.splits)
  then have "begun w' = begun u" by (auto simp: begun_def)
  with u v show ?thesis by simp
qed

lemma step_during_pause:
  assumes "news_step cfg dumps L w w'" and "w_now w < a_rate_limit_until w"
  shows "begun w' \<subseteq> begun w"
  using assms
proof (induction rule: news_step.induct)
  case (Read w l w')
  from alwaysD [OF at_loops(1) Read(4)] begun_same [of w' w] show ?case by (simp add: same_at_def)
next
  case (Read_crash w l e w1 w')
  then show ?case by (simp add: news_stop_def modify_def begun_def) auto
next
  case (Route w l w')
  then show ?case by (blast dest: route_begun)
next
  case (Grant w w')
  have "w' = w \<or> (\<exists>i. a_tasks w' = set_phase i Slotted (a_tasks w))"
    using Grant(1) by (auto simp: grant_slot_def modify_def split: option.splits if_splits)
  then show ?case by (auto simp: begun_def set_phase_def)
next
  case (Begin t w w')
  then show ?case by (simp add: start_task_def modify_def)
next
  case (Analyse t w w')
  then show ?case by (blast dest: task_read_begun)
next
  case (Store t w f w')
  then show ?case by (blast dest: task_write_begun)
next
  case (Batch_done w l w')
  from alwaysD [OF at_loops(2) Batch_done(5)] begun_same [of w' w] show ?case by (simp add: same_at_def)
next
  case (Batch_crash w l e w1 w')
  then show ?case by (simp add: news_stop_def modify_def begun_def) auto
next
  case (Start w r w')
  from alwaysD [OF at_loops(3) Start(2)] begun_same [of w' w] show ?case by (simp add: same_at_def)
next
  case (Stop w w')
  then show ?case by (simp add: news_stop_def modify_def begun_def) auto
next
  case (Env w w')
  then have "same_news w w'" by (simp add: news_env_def)
  from same_begun [OF this] show ?case by simp
qed

text \<open>C31: After an analysis was refused with a rate limit, no analysis begins until the backoff has
  passed since then, whatever the loops, the running tasks and the other layers do meanwhile.\<close>

theorem rate_limit_pauses_starts:
  fixes w :: "'z analysis_world_scheme"
  assumes "find_read cfg L (at_cleaned_id t) w = (Inl (Sapi e), v)" and "err_class e = LLMRateLimitError"
    and "task_read cfg L t w = (r, w1)" and "(news_step cfg dumps L)\<^sup>*\<^sup>* w1 w2"
    and "w_now w2 < w_now v + llm_rate_limit_backoff_s (cfg_llm cfg) * us_per_second"
  shows "begun w2 \<subseteq> begun w1"
proof -
  define T where "T = w_now v + backoff_us cfg"
  have "is_subclass LLMRateLimitError LLMRateLimitError" by (simp add: is_subclass_def mro_simps)
  with assms(1-3) have w1: "w_now v \<le> w_now w1" "T \<le> a_rate_limit_until w1"
    by (auto simp: task_read_def analyse_read_def analysis_failed_def trigger_backoff_def datetime_now_def finish_task_def
        T_def backoff_us_def io_defs Let_def split: list.splits)
  have "w_now w1 \<le> w_now w2 \<and> T \<le> a_rate_limit_until w2 \<and> (w_now w2 < T \<longrightarrow> begun w2 \<subseteq> begun w1)"
    using assms(4)
  proof (induction rule: rtranclp_induct)
    case base
    with w1 show ?case by simp
  next
    case (step y z)
    from news_step_holds [OF step(2), of T] step(3) w1 have z: "w_now y \<le> w_now z" "T \<le> a_rate_limit_until z"
      by (auto simp: holds_back_def T_def)
    have "begun z \<subseteq> begun w1" if "w_now z < T"
      using step_during_pause [OF step(2)] step(3) z that by force
    with step(3) z show ?case by auto
  qed
  then show ?thesis using assms(5) by (simp add: T_def backoff_us_def)
qed

section \<open>A sample layer\<close>

definition sample_article :: cleaned_news where
  "sample_article = \<lparr> cn_cleaned_id = 9, cn_title = u ''T'', cn_body = u ''B'', cn_source_url = u ''http://a/2'',
     cn_source_name = u ''HKEX'', cn_published_at = None \<rparr>"

definition sample_analysis_lib :: analysis_lib where
  "sample_analysis_lib = \<lparr> al_text = plain_lib, al_validate_news = (\<lambda>_. Some sample_article), al_validate_output = (\<lambda>_. None) \<rparr>"

definition sample_running :: analysis_task where
  "sample_running = \<lparr> at_loop = Consumer, at_position = 0, at_cleaned_id = 9, at_message_id = 1, at_phase = Running \<rparr>"

definition sample_slotted :: analysis_task where
  "sample_slotted = \<lparr> at_loop = Consumer, at_position = 1, at_cleaned_id = 8, at_message_id = 2, at_phase = Slotted \<rparr>"

text \<open>SADI answers with the given status, the provider with a rate limit; message 1 is pending.\<close>

definition sample_news :: "int \<Rightarrow> analysis_world" where
  "sample_news status = llm_world.extend
     ((sample_llm (Inl (Api_error 429 True)))\<lparr>
        n_server := (\<lambda>_ _. Inr \<lparr> hr_status = status, hr_content = [] \<rparr>), n_cache := Some sample_cache,
        w_streams := [(RAW_NEWS_CLEANED, \<lparr> sm_entries = [], sm_next_id = 2,
          sm_groups = [(ENTITY_ANALYSIS_GROUP, \<lparr> cg_last_delivered = 1,
            cg_pending = [(1, \<lparr> pe_consumer = u ''c'', pe_times_delivered = 1, pe_delivered_at = 0 \<rparr>)] \<rparr>)] \<rparr>)] \<rparr>)
     \<lparr> a_permits = 1, a_rate_limit_until = 0, a_processing = [8, 9], a_tasks = [sample_running, sample_slotted],
       a_consumer = closed_loop 0, a_reclaimer = closed_loop 0, a_up = True \<rparr>"

lemmas sample_news_defs = sample_news_def sample_llm_def sample_net_def llm_world.defs net_world.defs

lemma sample_pending_news: "1 \<in> pending_ids (w_streams (sample_news s)) RAW_NEWS_CLEANED ENTITY_ANALYSIS_GROUP"
  by (simp add: sample_news_defs pending_ids_def the_group_def the_stream_def)

lemma sample_not_found:
  "\<exists>w'. analyse sample_config sample_analysis_lib 9 1 (sample_news 404) = (Inr (), w')
     \<and> pending_ids (w_streams w') RAW_NEWS_CLEANED ENTITY_ANALYSIS_GROUP = {}"
proof -
  obtain q ss where x: "xack RAW_NEWS_CLEANED ENTITY_ANALYSIS_GROUP 1 (w_streams (sample_news 404)) = (Inr q, ss)"
    by (simp add: xack_def Let_def sample_news_defs the_group_def the_stream_def)
  moreover have "pending_ids ss RAW_NEWS_CLEANED ENTITY_ANALYSIS_GROUP = {}"
    using pending_xack [of RAW_NEWS_CLEANED ENTITY_ANALYSIS_GROUP 1 "w_streams (sample_news 404)", unfolded x]
    by (simp add: sample_news_defs pending_ids_def the_group_def the_stream_def)
  moreover have r: "find_entity_events sample_config sample_analysis_lib 9 (sample_news 404)
      = (Inr [], (sample_news 404)\<lparr> n_requests := 1 \<rparr>)"
    by (simp add: find_entity_events_def find_read_def fetch_cleaned_news_def translate_client_errors_def http_get_def
        find_write_def io_defs sample_news_defs)
  ultimately show ?thesis
    by (simp add: analyse_def try_except_def bind_def ack_news_def ack_def rs_call_def ret_def sample_news_defs)
qed

lemma article_acknowledged_only_when_final_witness:
  "\<exists>w'. analyse sample_config sample_analysis_lib 9 1 (sample_news 404) = (Inr (), w')
     \<and> article_final sample_config sample_analysis_lib 9 (sample_news 404) w'"
proof -
  obtain w' where w': "analyse sample_config sample_analysis_lib 9 1 (sample_news 404) = (Inr (), w')"
    "pending_ids (w_streams w') RAW_NEWS_CLEANED ENTITY_ANALYSIS_GROUP = {}" using sample_not_found by blast
  from article_acknowledged_only_when_final [OF w'(1) sample_pending_news] w' show ?thesis by simp
qed

lemma reachable_slots_exact_witness:
  "\<exists>w. news_reachable sample_config (\<lambda>_. []) sample_analysis_lib (sample_news 404) w
     \<and> a_permits w + length (filter (\<lambda>t. at_phase t \<noteq> Waiting) (a_tasks w)) = 3"
proof -
  obtain w where "news_stop sample_config (sample_news 404) = (Inr (), w)" by (simp add: news_stop_def modify_def)
  then have r: "news_reachable sample_config (\<lambda>_. []) sample_analysis_lib (sample_news 404) w"
    by (rule news_reachable.start)
  from reachable_slots_exact [OF r] have "a_permits w + length (filter (\<lambda>t. at_phase t \<noteq> Waiting) (a_tasks w)) = 3"
    by (simp add: sample_config_def)
  with r show ?thesis by blast
qed

lemma sample_refused:
  "find_read sample_config sample_analysis_lib 9 (sample_news 200) =
     (Inl (Sapi (sapi_err LLMRateLimitError LLM_CATEGORY)), (sample_news 200)\<lparr> n_requests := 1, l_calls := 1 \<rparr>)"
proof -
  have sub: "is_subclass LLMRateLimitError LLMError" by (simp add: is_subclass_def mro_simps)
  show ?thesis
    by (simp add: find_read_def fetch_cleaned_news_def translate_client_errors_def http_get_def raise_for_status_def
        fetch_entity_event_ids_by_source_url_def db_fetch_def translated_errors_def pg_call_def run_analysis_def
        get_llm_adapter_def stock_list_cache_def get_hk_stock_list_cache_def run_skill_def llm_process_def
        truncate_input_def new_skill_def generate_structured_def provider_call_def call_error_def build_fail_result_def
        create_skill_log_def datetime_now_def sub io_defs Let_def sample_analysis_lib_def sample_news_defs)
qed

text \<open>The refused task is over, the other one keeps its slot and waits.\<close>

definition sample_paused :: analysis_world where
  "sample_paused = (sample_news 200)\<lparr> n_requests := 1, l_calls := 1, a_permits := 2, a_processing := [8],
     a_tasks := [sample_slotted], a_rate_limit_until := w_now (sample_news 200) + 60 * us_per_second \<rparr>"

lemma sample_refused_task: "task_read sample_config sample_analysis_lib sample_running (sample_news 200) = (Inr (), sample_paused)"
proof -
  have id: "at_cleaned_id sample_running = 9" by (simp add: sample_running_def)
  have b: "llm_rate_limit_backoff_s (cfg_llm sample_config) = 60" by (simp add: sample_config_def)
  show ?thesis
    unfolding task_read_def analyse_read_def id bind_def try_except_def sample_refused
    by (simp add: analysis_failed_def trigger_backoff_def datetime_now_def finish_task_def is_subclass_def mro_simps
        io_defs Let_def b sample_paused_def id)
      (simp add: sample_news_defs sample_running_def sample_slotted_def)
qed

lemma rate_limit_pauses_starts_witness:
  "start_task sample_slotted sample_paused = (Inr (), sample_paused) \<and> begun sample_paused \<subseteq> {}"
proof -
  have now: "w_now sample_paused < a_rate_limit_until sample_paused" by (simp add: sample_paused_def us_per_second_def)
  then have s: "start_task sample_slotted sample_paused = (Inr (), sample_paused)"
    by (simp add: start_task_def modify_def)
  have "news_step sample_config (\<lambda>_. []) sample_analysis_lib sample_paused sample_paused"
    by (rule news_step.Begin [OF _ _ s]) (simp_all add: sample_paused_def sample_slotted_def)
  then have path: "(news_step sample_config (\<lambda>_. []) sample_analysis_lib)\<^sup>*\<^sup>* sample_paused sample_paused" by blast
  have read: "find_read sample_config sample_analysis_lib (at_cleaned_id sample_running) (sample_news 200) =
      (Inl (Sapi (sapi_err LLMRateLimitError LLM_CATEGORY)), (sample_news 200)\<lparr> n_requests := 1, l_calls := 1 \<rparr>)"
    using sample_refused by (simp add: sample_running_def)
  from rate_limit_pauses_starts [OF read _ sample_refused_task path]
  have "begun sample_paused \<subseteq> begun sample_paused"
    by (simp add: sample_config_def us_per_second_def sample_paused_def)
  moreover have "begun sample_paused = {}" by (auto simp: begun_def sample_paused_def sample_slotted_def)
  ultimately show ?thesis using s by simp
qed

end
