(* ===== verification/Sadi_Errors.thy ===== *)
theory Sadi_Errors
  imports Sapi_Errors
begin

text \<open>
  The errors of the data-ingestion service: the catalog of \<^verbatim>\<open>app/common/error_codes.py\<close>, the
  exception classes that carry its entries (\<^verbatim>\<open>app/common/exceptions.py\<close>, \<^verbatim>\<open>app/crawl/exceptions.py\<close>,
  the ones of the fetchers and the parsers), and the two exceptions of the database client
  (\<^verbatim>\<open>app/db/exceptions.py\<close>). An exception carries the text it was raised with.
\<close>

section \<open>The catalog\<close>

record error_code_entry =
  ec_error_type :: pystr
  ec_error_code :: pystr
  ec_dev_message :: pystr
  ec_message :: pystr
  ec_log_level :: log_level

text \<open>The em dash of the texts.\<close>

definition dash :: pystr where "dash = [8212]"

definition SADI_MALFORMED_REQUEST :: error_code_entry where
  "SADI_MALFORMED_REQUEST = \<lparr> ec_error_type = u ''COMMON'', ec_error_code = u ''COMMON-4000'',
     ec_dev_message = u ''Malformed request '' @ dash @ u '' unparseable JSON or missing Content-Type'',
     ec_message = u ''Malformed request'', ec_log_level = WARNING \<rparr>"

definition SADI_VALIDATION_FAILED :: error_code_entry where
  "SADI_VALIDATION_FAILED = \<lparr> ec_error_type = u ''COMMON'', ec_error_code = u ''COMMON-4001'',
     ec_dev_message = u ''Request validation failed '' @ dash @ u '' one or more fields failed validation'',
     ec_message = u ''Request validation failed'', ec_log_level = WARNING \<rparr>"

definition SADI_NOT_FOUND :: error_code_entry where
  "SADI_NOT_FOUND = \<lparr> ec_error_type = u ''COMMON'', ec_error_code = u ''COMMON-4004'',
     ec_dev_message = u ''Requested resource does not exist'',
     ec_message = u ''Resource not found'', ec_log_level = WARNING \<rparr>"

definition SADI_INTERNAL_ERROR :: error_code_entry where
  "SADI_INTERNAL_ERROR = \<lparr> ec_error_type = u ''COMMON'', ec_error_code = u ''COMMON-5000'',
     ec_dev_message = u ''Unexpected internal server error'',
     ec_message = u ''Internal server error'', ec_log_level = ERROR \<rparr>"

definition SADI_SERVICE_UNAVAILABLE :: error_code_entry where
  "SADI_SERVICE_UNAVAILABLE = \<lparr> ec_error_type = u ''COMMON'', ec_error_code = u ''COMMON-5001'',
     ec_dev_message = u ''Dependency unreachable '' @ dash @ u '' database or Redis'',
     ec_message = u ''Service unavailable'', ec_log_level = ERROR \<rparr>"

definition SADI_RATE_LIMITED :: error_code_entry where
  "SADI_RATE_LIMITED = \<lparr> ec_error_type = u ''COMMON'', ec_error_code = u ''COMMON-4029'',
     ec_dev_message = u ''Rate limited '' @ dash @ u '' too many requests to upstream source'',
     ec_message = u ''Rate limited'', ec_log_level = WARNING \<rparr>"

definition URL_GET_FAILED :: error_code_entry where
  "URL_GET_FAILED = \<lparr> ec_error_type = u ''CRAWL'', ec_error_code = u ''SADI-6101'',
     ec_dev_message = u ''Failed to access the page '' @ dash
       @ u '' HTTP error, timeout, DNS, connection reset, or TLS error'',
     ec_message = u ''Failed to fetch article'', ec_log_level = WARNING \<rparr>"

definition BROWSER_FETCH_FAILED :: error_code_entry where
  "BROWSER_FETCH_FAILED = \<lparr> ec_error_type = u ''CRAWL'', ec_error_code = u ''SADI-6104'',
     ec_dev_message = u ''Playwright browser fetch failed (navigation timeout or context crash)'',
     ec_message = u ''Browser fetch failed'', ec_log_level = WARNING \<rparr>"

definition SADI_PARSE_ERROR :: error_code_entry where
  "SADI_PARSE_ERROR = \<lparr> ec_error_type = u ''PARSE'', ec_error_code = u ''SADI-6201'',
     ec_dev_message = u ''HTML/text content extraction raised an exception'',
     ec_message = u ''Content extraction failed'', ec_log_level = WARNING \<rparr>"

definition PDF_ENCRYPTED :: error_code_entry where
  "PDF_ENCRYPTED = \<lparr> ec_error_type = u ''PARSE'', ec_error_code = u ''SADI-6202'',
     ec_dev_message = u ''PDF document is encrypted/password-protected and cannot be read'',
     ec_message = u ''PDF is encrypted'', ec_log_level = WARNING \<rparr>"

definition PDF_PARSE_ERROR :: error_code_entry where
  "PDF_PARSE_ERROR = \<lparr> ec_error_type = u ''PARSE'', ec_error_code = u ''SADI-6203'',
     ec_dev_message = u ''PDF content extraction raised an exception'',
     ec_message = u ''PDF parse failed'', ec_log_level = WARNING \<rparr>"

section \<open>The exceptions\<close>

text \<open>The subclasses of \<^verbatim>\<open>SADIException\<close> and the \<^verbatim>\<open>error_code\<close> each sets; the base class sets none and is
  never raised itself.\<close>

datatype sadi_class =
    NotFoundException
  | ServiceUnavailableException
  | CrawlBlockedException
  | CrawlRateLimitedException
  | CrawlFatalException
  | FeedFetchException
  | PdfEncryptedException
  | PdfParseException

fun sadi_error_code :: "sadi_class \<Rightarrow> error_code_entry" where
  "sadi_error_code NotFoundException = SADI_NOT_FOUND"
| "sadi_error_code ServiceUnavailableException = SADI_SERVICE_UNAVAILABLE"
| "sadi_error_code CrawlBlockedException = URL_GET_FAILED"
| "sadi_error_code CrawlRateLimitedException = SADI_RATE_LIMITED"
| "sadi_error_code CrawlFatalException = SADI_INTERNAL_ERROR"
| "sadi_error_code FeedFetchException = URL_GET_FAILED"
| "sadi_error_code PdfEncryptedException = PDF_ENCRYPTED"
| "sadi_error_code PdfParseException = PDF_PARSE_ERROR"

text \<open>asyncpg's exceptions, by the clauses that tell them apart; \<open>PgConnectionError\<close> and \<open>PgError\<close> are
  all others of \<^verbatim>\<open>PostgresConnectionError\<close> and of \<^verbatim>\<open>PostgresError\<close>.\<close>

datatype asyncpg_exn =
    PgUniqueViolation "pystr option" pystr
  | PgDataError pystr
  | PgNotNullViolation pystr
  | PgTooManyConnections
  | PgConnectionDoesNotExist
  | PgConnectionError
  | PgInterfaceError
  | PgError pystr

text \<open>\<open>Lib\<close> is an exception of Redis, of Python itself or a cancellation; \<open>Foreign\<close> any other
  exception of a library, with its text.\<close>

datatype sadi_exn =
    Sadi sadi_class pystr
  | SadiDatabaseError pystr
  | SadiUniqueConstraintError "pystr option"
  | Asyncpg asyncpg_exn
  | HttpStatusError pystr
  | HttpRequestError pystr
  | Foreign pystr
  | Lib exn

text \<open>\<^verbatim>\<open>except Exception\<close> catches everything but a cancellation.\<close>

fun sadi_is_exception :: "sadi_exn \<Rightarrow> bool" where
  "sadi_is_exception (Lib e) = is_exception e"
| "sadi_is_exception _ = True"

text \<open>\<^verbatim>\<open>SADIException.__init__\<close> gives the base class the message or the detail, which \<^verbatim>\<open>str\<close> returns.
  \<open>lib_str\<close> is the text of the exceptions of Redis, asyncpg and Python.\<close>

definition sadi_message :: "sadi_class \<Rightarrow> pystr \<Rightarrow> pystr" where
  "sadi_message c detail = (if detail = [] then ec_message (sadi_error_code c) else detail)"

fun sadi_str :: "(sadi_exn \<Rightarrow> pystr) \<Rightarrow> sadi_exn \<Rightarrow> pystr" where
  "sadi_str lib_str (Sadi c detail) = sadi_message c detail"
| "sadi_str lib_str (SadiDatabaseError t) = t"
| "sadi_str lib_str (SadiUniqueConstraintError c) = []"
| "sadi_str lib_str (HttpStatusError t) = t"
| "sadi_str lib_str (HttpRequestError t) = t"
| "sadi_str lib_str (Foreign t) = t"
| "sadi_str lib_str e = lib_str e"

lemma sadi_message_ne: "sadi_message c detail \<noteq> []"
  by (cases c) (simp_all add: sadi_message_def u_def SADI_NOT_FOUND_def SADI_SERVICE_UNAVAILABLE_def URL_GET_FAILED_def
      SADI_RATE_LIMITED_def SADI_INTERNAL_ERROR_def PDF_ENCRYPTED_def PDF_PARSE_ERROR_def)

text \<open>What a caller of the database client may meet: no exception of asyncpg.\<close>

fun not_asyncpg :: "sadi_exn \<Rightarrow> bool" where
  "not_asyncpg (Asyncpg _) = False"
| "not_asyncpg _ = True"

end
