(* ===== verification/Sadi_Config.thy ===== *)
theory Sadi_Config
  imports Sadi_Errors Sapi_Config
begin

text \<open>
  \<^verbatim>\<open>app/config.py\<close> of the data-ingestion service: the settings from the environment and from
  \<^verbatim>\<open>config/crawl_sources.yaml\<close>, and the module singleton. The parsed YAML is an association list
  from the names of the sources to their fields; a field may be missing.
\<close>

section \<open>Records\<close>

record crawl_source_config =
  cs_max_concurrent :: int
  cs_request_interval_min_ms :: int
  cs_request_interval_max_ms :: int

record crawl_config =
  cr_max_retry :: int
  cr_retry_base_wait_ms :: int
  cr_request_timeout_s :: int
  cr_browser_navigation_timeout_ms :: int
  cr_sources :: "(pystr \<times> crawl_source_config) list"

record clean_config =
  cl_worker_concurrency :: int
  cl_body_min_length :: int
  cl_stream_claim_timeout_ms :: int

record sadi_database_config =
  sd_url :: pystr
  sd_pool_size :: int
  sd_max_retry :: int
  sd_retry_base_wait_ms :: int

record sadi_config =
  sg_db :: sadi_database_config
  sg_redis_url :: pystr
  sg_crawl :: crawl_config
  sg_clean :: clean_config

section \<open>Loading\<close>

type_synonym yaml_sources = "(pystr \<times> (pystr \<times> int) list) list"

definition sadi_require :: "environ \<Rightarrow> string \<Rightarrow> pystr res" where
  "sadi_require env name = (case env (u name) of None \<Rightarrow> Inl (Py ValueError) | Some v \<Rightarrow> Inr v)"

definition yaml_field :: "(pystr \<times> int) list \<Rightarrow> string \<Rightarrow> int res" where
  "yaml_field fs name = (case map_of fs (u name) of None \<Rightarrow> Inl (Py KeyError) | Some n \<Rightarrow> Inr n)"

definition load_crawl_source :: "(pystr \<times> int) list \<Rightarrow> crawl_source_config res" where
  "load_crawl_source fs =
     rbind (yaml_field fs ''max_concurrent'') (\<lambda>mc.
     rbind (yaml_field fs ''request_interval_min_ms'') (\<lambda>mi.
     rbind (yaml_field fs ''request_interval_max_ms'') (\<lambda>ma.
     Inr \<lparr> cs_max_concurrent = mc, cs_request_interval_min_ms = mi, cs_request_interval_max_ms = ma \<rparr>)))"

definition load_sadi_db :: "environ \<Rightarrow> sadi_database_config res" where
  "load_sadi_db env =
     rbind (sadi_require env ''DATABASE_URL'') (\<lambda>url.
     rbind (env_int env ''DB_POOL_SIZE'' ''10'') (\<lambda>ps.
     rbind (env_int env ''DB_MAX_RETRY'' ''3'') (\<lambda>mr.
     rbind (env_int env ''DB_RETRY_BASE_WAIT_MS'' ''100'') (\<lambda>bw.
     Inr \<lparr> sd_url = url, sd_pool_size = ps, sd_max_retry = mr, sd_retry_base_wait_ms = bw \<rparr>))))"

definition load_crawl_sources :: "yaml_sources \<Rightarrow> (pystr \<times> crawl_source_config) list res" where
  "load_crawl_sources raw =
     rmap_list (\<lambda>(name, values). rbind (load_crawl_source values) (\<lambda>c. Inr (name, c))) raw"

definition load_crawl :: "environ \<Rightarrow> (pystr \<times> crawl_source_config) list \<Rightarrow> crawl_config res" where
  "load_crawl env sources =
     rbind (env_int env ''CRAWL_MAX_RETRY'' ''3'') (\<lambda>mr.
     rbind (env_int env ''CRAWL_RETRY_BASE_WAIT_MS'' ''500'') (\<lambda>bw.
     rbind (env_int env ''CRAWL_REQUEST_TIMEOUT_S'' ''10'') (\<lambda>rt.
     rbind (env_int env ''CRAWL_BROWSER_NAV_TIMEOUT_MS'' ''15000'') (\<lambda>nt.
     Inr \<lparr> cr_max_retry = mr, cr_retry_base_wait_ms = bw, cr_request_timeout_s = rt,
           cr_browser_navigation_timeout_ms = nt, cr_sources = sources \<rparr>))))"

definition load_clean :: "environ \<Rightarrow> clean_config res" where
  "load_clean env =
     rbind (env_int env ''CLEAN_WORKER_CONCURRENCY'' ''5'') (\<lambda>wc.
     rbind (env_int env ''CLEAN_BODY_MIN_LENGTH'' ''50'') (\<lambda>bl.
     rbind (env_int env ''STREAM_CLAIM_TIMEOUT_MS'' ''30000'') (\<lambda>ct.
     Inr \<lparr> cl_worker_concurrency = wc, cl_body_min_length = bl, cl_stream_claim_timeout_ms = ct \<rparr>)))"

text \<open>The YAML file is read between the database's settings and the others; reading it may fail.\<close>

definition load_sadi_config :: "yaml_sources res \<Rightarrow> environ \<Rightarrow> sadi_config res" where
  "load_sadi_config yaml env =
     rbind (load_sadi_db env) (\<lambda>db.
     rbind yaml (\<lambda>raw.
     rbind (load_crawl_sources raw) (\<lambda>sources.
     rbind (load_crawl env sources) (\<lambda>crawl.
     rbind (load_clean env) (\<lambda>clean.
     rbind (sadi_require env ''REDIS_URL'') (\<lambda>redis_url.
     Inr \<lparr> sg_db = db, sg_redis_url = redis_url, sg_crawl = crawl, sg_clean = clean \<rparr>))))))"

definition get_sadi_config :: "sadi_config option \<Rightarrow> sadi_config res" where
  "get_sadi_config c = (case c of None \<Rightarrow> Inl (Py RuntimeError) | Some x \<Rightarrow> Inr x)"

text \<open>Every source of a loaded configuration has its three settings.\<close>

lemma load_crawl_sources_names:
  "load_crawl_sources raw = Inr sources \<Longrightarrow> map fst sources = map fst raw"
  by (induction raw arbitrary: sources) (auto simp: load_crawl_sources_def rbind_eq_Inr)

lemma load_sadi_config_sources:
  assumes "load_sadi_config yaml env = Inr c"
  shows "\<exists>raw. yaml = Inr raw \<and> map fst (cr_sources (sg_crawl c)) = map fst raw"
  using assms by (auto simp: load_sadi_config_def load_crawl_def rbind_eq_Inr dest: load_crawl_sources_names)

end
