(* ===== verification/Sadi_World.thy ===== *)
theory Sadi_World
  imports Sadi_Config Sapi_Stream
begin

text \<open>
  What the data-ingestion service works against: its tables (\<^verbatim>\<open>alembic/versions\<close>), the stream Redis,
  the clock and fresh identifiers, with scripts of faults as in \<^verbatim>\<open>Py_Io\<close>; its database client
  (\<^verbatim>\<open>app/db/connection.py\<close>) and its stream client (\<^verbatim>\<open>app/redis/stream_client.py\<close>). The commands of
  the stream Redis are those of \<^verbatim>\<open>Sapi_Stream\<close>: both services use the same server.
\<close>

section \<open>Tables\<close>

text \<open>\<open>RawNews\<close>. Its metadata is an object in the service and JSON text in the table.\<close>

record 'm raw_news =
  rn_raw_id :: uuid
  rn_source_name :: pystr
  rn_source_url :: pystr
  rn_title :: pystr
  rn_body :: pystr
  rn_published_at :: "instant option"
  rn_created_at :: instant
  rn_raw_hash :: pystr
  rn_extra_metadata :: "'m option"
  rn_is_deleted :: bool
  rn_deleted_reason :: "pystr option"

record sadi_cleaned_news =
  sc_cleaned_id :: uuid
  sc_raw_id :: uuid
  sc_title_cleaned :: pystr
  sc_body_cleaned :: pystr
  sc_created_at :: instant

record crawl_error_log =
  el_error_id :: uuid
  el_execution_id :: "pystr option"
  el_source_name :: pystr
  el_url :: pystr
  el_error_type :: pystr
  el_error_code :: pystr
  el_attempt_count :: int
  el_created_at :: instant

type_synonym raw_row = "pystr raw_news"

record sadi_db =
  s_raw_news :: "raw_row list"
  s_cleaned_news :: "sadi_cleaned_news list"
  s_crawl_error_log :: "crawl_error_log list"

section \<open>The world\<close>

record sadi_world =
  d_now :: instant
  d_next_uuid :: nat
  d_db :: sadi_db
  d_pg :: "sadi_exn fault list"
  d_streams :: streams
  d_rs :: "sadi_exn fault list"

type_synonym ('z, 'a) sadi = "('z sadi_world_scheme, sadi_exn, 'a) io"

definition sadi_now :: "('z, instant) sadi" where
  "sadi_now = get_w d_now"

definition sadi_uuid4 :: "('z, uuid) sadi" where
  "sadi_uuid4 = (\<lambda>w. (Inr (d_next_uuid w), w\<lparr> d_next_uuid := Suc (d_next_uuid w) \<rparr>))"

text \<open>\<^verbatim>\<open>asyncio.sleep\<close>, in microseconds.\<close>

definition sadi_sleep_us :: "int \<Rightarrow> ('z, unit) sadi" where
  "sadi_sleep_us us = modify (\<lambda>w. w\<lparr> d_now := d_now w + max 0 us \<rparr>)"

type_synonym 'a sadi_stmt = "sadi_db \<Rightarrow> (sadi_exn + 'a) \<times> sadi_db"

definition sadi_pg_call :: "'a sadi_stmt \<Rightarrow> ('z, 'a) sadi" where
  "sadi_pg_call stmt = (\<lambda>w.
     let (r, d) = faulty (next_fault (d_pg w)) stmt (d_db w)
     in (r, w\<lparr> d_db := d, d_pg := tl (d_pg w) \<rparr>))"

text \<open>A command's own error is one of Redis.\<close>

definition sadi_rs_call :: "(instant \<Rightarrow> streams \<Rightarrow> (exn + 'a) \<times> streams) \<Rightarrow> ('z, 'a) sadi" where
  "sadi_rs_call act = (\<lambda>w.
     let (r, s) = faulty (next_fault (d_rs w)) (\<lambda>ss. map_prod (map_sum Lib id) id (act (d_now w) ss)) (d_streams w)
     in (r, w\<lparr> d_streams := s, d_rs := tl (d_rs w) \<rparr>))"

lemma sadi_pg_call_world:
  "sadi_pg_call stmt w = (r, w') \<Longrightarrow>
     \<exists>d. w' = w\<lparr> d_db := d, d_pg := tl (d_pg w) \<rparr> \<and> (d = d_db w \<or> d = snd (stmt (d_db w)))"
  using faulty_state [of "next_fault (d_pg w)" stmt "d_db w"]
  by (auto simp: sadi_pg_call_def split: prod.splits)

lemma sadi_pg_call_Inr:
  "sadi_pg_call stmt w = (Inr x, w') \<Longrightarrow>
     \<exists>d. stmt (d_db w) = (Inr x, d) \<and> w' = w\<lparr> d_db := d, d_pg := tl (d_pg w) \<rparr>"
  by (auto simp: sadi_pg_call_def split: prod.splits dest: faulty_Inr)

lemma sadi_rs_call_world:
  "sadi_rs_call act w = (r, w') \<Longrightarrow>
     \<exists>s. w' = w\<lparr> d_streams := s, d_rs := tl (d_rs w) \<rparr>
       \<and> (s = d_streams w \<or> s = snd (act (d_now w) (d_streams w)))"
  using faulty_state [of "next_fault (d_rs w)" "\<lambda>ss. map_prod (map_sum Lib id) id (act (d_now w) ss)" "d_streams w"]
  by (auto simp: sadi_rs_call_def split: prod.splits)

lemma map_sum_eq_Inr [simp]: "map_sum f g r = Inr x \<longleftrightarrow> (\<exists>y. r = Inr y \<and> x = g y)"
  and map_sum_eq_Inl [simp]: "map_sum f g r = Inl e \<longleftrightarrow> (\<exists>y. r = Inl y \<and> e = f y)"
  by (cases r; auto)+

lemma sadi_rs_call_Inr:
  "sadi_rs_call act w = (Inr x, w') \<Longrightarrow>
     \<exists>s. act (d_now w) (d_streams w) = (Inr x, s) \<and> w' = w\<lparr> d_streams := s, d_rs := tl (d_rs w) \<rparr>"
  by (cases "act (d_now w) (d_streams w)") (auto simp: sadi_rs_call_def split: prod.splits dest!: faulty_Inr)

text \<open>A call keeps what its effect keeps.\<close>

lemma always_pg_call:
  "(\<And>w d. d = d_db w \<or> d = snd (stmt (d_db w)) \<Longrightarrow> R w (w\<lparr> d_db := d, d_pg := tl (d_pg w) \<rparr>)) \<Longrightarrow>
     always R (sadi_pg_call stmt)"
  by (rule alwaysI) (drule sadi_pg_call_world, elim exE conjE, simp)

lemma always_rs_call:
  "(\<And>w s. s = d_streams w \<or> s = snd (act (d_now w) (d_streams w)) \<Longrightarrow>
       R w (w\<lparr> d_streams := s, d_rs := tl (d_rs w) \<rparr>)) \<Longrightarrow>
     always R (sadi_rs_call act)"
  by (rule alwaysI) (drule sadi_rs_call_world, elim exE conjE, simp)

section \<open>The database client\<close>

fun sadi_transient :: "asyncpg_exn \<Rightarrow> bool" where
  "sadi_transient PgTooManyConnections = True"
| "sadi_transient PgConnectionDoesNotExist = True"
| "sadi_transient _ = False"

text \<open>The clauses that do not retry, in order; the text of a server error is its \<^verbatim>\<open>str\<close>.\<close>

fun write_error :: "asyncpg_exn \<Rightarrow> sadi_exn" where
  "write_error (PgUniqueViolation c t) = SadiUniqueConstraintError c"
| "write_error (PgDataError t) = SadiDatabaseError t"
| "write_error (PgNotNullViolation t) = SadiDatabaseError t"
| "write_error (PgError t) = SadiDatabaseError t"
| "write_error _ = Sadi ServiceUnavailableException (u ''DB connection error'')"

text \<open>\<^verbatim>\<open>_run_with_retry\<close>: the loop from a given attempt number on. A loop that is over without an
  attempt returns None.\<close>

function run_attempts :: "sadi_database_config \<Rightarrow> ('z, 'a option) sadi \<Rightarrow> nat \<Rightarrow> ('z, 'a option) sadi" where
  "run_attempts cfg act n =
     (if int n > sd_max_retry cfg then ret None
      else try_except act (\<lambda>e. case e of
        Asyncpg p \<Rightarrow>
          if sadi_transient p then
            if int n = sd_max_retry cfg
            then raise (Sadi ServiceUnavailableException (u ''DB connection retries exhausted''))
            else seq (sadi_sleep_us (sd_retry_base_wait_ms cfg * 2 ^ (n - 1) * 1000)) (run_attempts cfg act (Suc n))
          else raise (write_error p)
      | _ \<Rightarrow> raise e))"
  by auto
termination by (relation "measure (\<lambda>(cfg, act, n). nat (sd_max_retry cfg + 1 - int n))") auto

declare run_attempts.simps [simp del]

definition run_with_retry :: "sadi_database_config \<Rightarrow> ('z, 'a option) sadi \<Rightarrow> ('z, 'a option) sadi" where
  "run_with_retry cfg act = run_attempts cfg act 1"

definition sadi_execute :: "sadi_database_config \<Rightarrow> 'a sadi_stmt \<Rightarrow> ('z, unit) sadi" where
  "sadi_execute cfg stmt = seq (run_with_retry cfg (bind (sadi_pg_call stmt) (\<lambda>x. ret (Some x)))) (ret ())"

definition sadi_execute_returning ::
  "sadi_database_config \<Rightarrow> 'a option sadi_stmt \<Rightarrow> ('z, 'a option) sadi" where
  "sadi_execute_returning cfg stmt = run_with_retry cfg (sadi_pg_call stmt)"

fun read_error :: "asyncpg_exn \<Rightarrow> sadi_exn" where
  "read_error (PgUniqueViolation c t) = SadiDatabaseError t"
| "read_error (PgDataError t) = SadiDatabaseError t"
| "read_error (PgNotNullViolation t) = SadiDatabaseError t"
| "read_error (PgError t) = SadiDatabaseError t"
| "read_error _ = Sadi ServiceUnavailableException (u ''DB connection error during read'')"

definition run_read :: "('z, 'a) sadi \<Rightarrow> ('z, 'a) sadi" where
  "run_read act = try_except act (\<lambda>e. case e of Asyncpg p \<Rightarrow> raise (read_error p) | _ \<Rightarrow> raise e)"

text \<open>\<^verbatim>\<open>fetch_one\<close> and \<^verbatim>\<open>fetch_all\<close> differ in what the query gives.\<close>

definition fetch_one :: "(sadi_db \<Rightarrow> 'a option) \<Rightarrow> ('z, 'a option) sadi" where
  "fetch_one q = run_read (sadi_pg_call (\<lambda>d. (Inr (q d), d)))"

definition fetch_all :: "(sadi_db \<Rightarrow> 'a list) \<Rightarrow> ('z, 'a list) sadi" where
  "fetch_all q = run_read (sadi_pg_call (\<lambda>d. (Inr (q d), d)))"

section \<open>The stream client\<close>

definition STREAM_RAW_NEWS_INSERTED :: pystr where
  "STREAM_RAW_NEWS_INSERTED = u ''stream:raw_news_inserted''"
definition STREAM_RAW_NEWS_CLEANED :: pystr where
  "STREAM_RAW_NEWS_CLEANED = u ''stream:raw_news_cleaned''"
definition STREAM_CRAWL_COMPLETED :: pystr where
  "STREAM_CRAWL_COMPLETED = u ''stream:crawl_completed''"

lemma sadi_stream_names_distinct [simp]:
  "STREAM_RAW_NEWS_INSERTED \<noteq> STREAM_RAW_NEWS_CLEANED" "STREAM_RAW_NEWS_CLEANED \<noteq> STREAM_RAW_NEWS_INSERTED"
  "STREAM_RAW_NEWS_INSERTED \<noteq> STREAM_CRAWL_COMPLETED" "STREAM_CRAWL_COMPLETED \<noteq> STREAM_RAW_NEWS_INSERTED"
  "STREAM_RAW_NEWS_CLEANED \<noteq> STREAM_CRAWL_COMPLETED" "STREAM_CRAWL_COMPLETED \<noteq> STREAM_RAW_NEWS_CLEANED"
  by (simp_all add: STREAM_RAW_NEWS_INSERTED_def STREAM_RAW_NEWS_CLEANED_def STREAM_CRAWL_COMPLETED_def)

definition sadi_publish :: "pystr \<Rightarrow> fields \<Rightarrow> ('z, message_id) sadi" where
  "sadi_publish name flds = sadi_rs_call (\<lambda>_. xadd name flds)"

text \<open>A message: its id and its fields.\<close>

type_synonym sadi_entry = "message_id \<times> fields"

definition sadi_read_group :: "pystr \<Rightarrow> pystr \<Rightarrow> pystr \<Rightarrow> int \<Rightarrow> ('z, sadi_entry list) sadi" where
  "sadi_read_group name grp consumer count = sadi_rs_call (xreadgroup name grp consumer (Some count))"

definition sadi_ack :: "pystr \<Rightarrow> pystr \<Rightarrow> message_id \<Rightarrow> ('z, unit) sadi" where
  "sadi_ack name grp i = seq (sadi_rs_call (\<lambda>_. xack name grp i)) (ret ())"

definition sadi_autoclaim :: "pystr \<Rightarrow> pystr \<Rightarrow> pystr \<Rightarrow> int \<Rightarrow> int \<Rightarrow> ('z, sadi_entry list) sadi" where
  "sadi_autoclaim name grp consumer min_idle_ms count =
     sadi_rs_call (xautoclaim name grp consumer min_idle_ms count)"

text \<open>\<^verbatim>\<open>needle in text\<close>.\<close>

definition py_contains :: "pystr \<Rightarrow> pystr \<Rightarrow> bool" where
  "py_contains needle hay \<longleftrightarrow> list_ex (\<lambda>i. py_startswith (drop i hay) needle) [0 ..< Suc (length hay)]"

definition sadi_create_group :: "pystr \<Rightarrow> pystr \<Rightarrow> ('z, unit) sadi" where
  "sadi_create_group name grp =
     try_except (sadi_rs_call (\<lambda>_. xgroup_create name grp))
       (\<lambda>e. case e of
          Lib (Redis (RedisResponseError txt)) \<Rightarrow> if py_contains (u ''BUSYGROUP'') txt then ret () else raise e
        | _ \<Rightarrow> raise e)"

definition sadi_ping :: "('z, unit) sadi" where
  "sadi_ping = sadi_rs_call (\<lambda>_ ss. (Inr (), ss))"

section \<open>What the clients keep\<close>

text \<open>A preorder that neither the passing of time nor a used-up fault breaks: what its statements and
  commands keep, the clients keep, retries and errors included.\<close>

locale sadi_calls = monotone_io R
  for R :: "'z sadi_world_scheme \<Rightarrow> 'z sadi_world_scheme \<Rightarrow> bool" +
  assumes now_keeps: "R w (w\<lparr> d_now := t \<rparr>)"
begin

lemma sleep_keeps: "always R (sadi_sleep_us us)"
  by (simp add: sadi_sleep_us_def always_modify now_keeps)

lemma attempts_keep: "always R act \<Longrightarrow> always R (run_attempts cfg act n)"
proof (induction cfg act n rule: run_attempts.induct)
  case (1 cfg act n)
  show ?case
    by (subst run_attempts.simps)
      (use 1 in \<open>auto intro!: always_try always_raise always_ret always_bind sleep_keeps split: sadi_exn.splits\<close>)
qed

lemma execute_keeps: "always R (sadi_pg_call stmt) \<Longrightarrow> always R (sadi_execute cfg stmt)"
  unfolding sadi_execute_def run_with_retry_def by (intro always_bind attempts_keep always_ret)

lemma execute_returning_keeps: "always R (sadi_pg_call stmt) \<Longrightarrow> always R (sadi_execute_returning cfg stmt)"
  unfolding sadi_execute_returning_def run_with_retry_def by (rule attempts_keep)

lemma run_read_keeps: "always R act \<Longrightarrow> always R (run_read act)"
  unfolding run_read_def by (auto intro!: always_try always_raise split: sadi_exn.splits)

end

section \<open>What the client promises\<close>

lemma write_error_translated: "\<not> sadi_transient p \<Longrightarrow> not_asyncpg (write_error p)"
  by (cases p) simp_all

lemma run_attempts_errors: "run_attempts cfg act n w = (Inl e, w') \<Longrightarrow> not_asyncpg e"
proof (induction cfg act n arbitrary: w rule: run_attempts.induct)
  case (1 cfg act n)
  have n: "int n \<le> sd_max_retry cfg"
    using "1.prems" by (subst (asm) run_attempts.simps) (simp split: if_splits)
  then obtain e0 w1 where a: "act w = (Inl e0, w1)"
    and h: "(case e0 of
        Asyncpg p \<Rightarrow>
          if sadi_transient p then
            if int n = sd_max_retry cfg
            then raise (Sadi ServiceUnavailableException (u ''DB connection retries exhausted''))
            else seq (sadi_sleep_us (sd_retry_base_wait_ms cfg * 2 ^ (n - 1) * 1000)) (run_attempts cfg act (Suc n))
          else raise (write_error p)
      | _ \<Rightarrow> raise e0) w1 = (Inl e, w')"
    using "1.prems" by (subst (asm) run_attempts.simps) (auto simp: try_eq_Inl)
  show ?case
  proof (cases "\<exists>p. e0 = Asyncpg p \<and> sadi_transient p \<and> int n \<noteq> sd_max_retry cfg")
    case True
    with h obtain p w2 where "e0 = Asyncpg p" "sadi_transient p" "int n \<noteq> sd_max_retry cfg"
      and r: "run_attempts cfg act (Suc n) w2 = (Inl e, w')"
      by (auto simp: bind_eq_Inl sadi_sleep_us_def)
    with n show ?thesis by (intro "1.IH" [OF _ _ _ _ r]) auto
  next
    case False
    with h show ?thesis by (cases e0) (auto simp: write_error_translated split: if_splits)
  qed
qed

lemma execute_errors: "sadi_execute cfg stmt w = (Inl e, w') \<Longrightarrow> not_asyncpg e"
  by (auto simp: sadi_execute_def run_with_retry_def bind_eq_Inl dest: run_attempts_errors)

lemma execute_returning_errors: "sadi_execute_returning cfg stmt w = (Inl e, w') \<Longrightarrow> not_asyncpg e"
  by (auto simp: sadi_execute_returning_def run_with_retry_def dest: run_attempts_errors)

lemma read_error_translated: "not_asyncpg (read_error p)"
  by (cases p) simp_all

lemma run_read_errors: "run_read act w = (Inl e, w') \<Longrightarrow> not_asyncpg e"
  unfolding run_read_def try_eq_Inl
  apply (elim exE conjE)
  subgoal for e0 w1 by (cases e0) (auto simp: read_error_translated)
  done

end
