(* ===== verification/Sadi_Triples.thy ===== *)
theory Sadi_Triples
  imports Sadi_World
begin

text \<open>
  Triples for the calls of the data-ingestion service, over conditions on its tables and streams: what a
  statement or a command establishes, the retried write, the read, the publish and the acknowledgement
  establish too. A condition does not see the clock and the fault scripts, so that retries, pauses and
  failed calls keep it.
\<close>

definition holds :: "(sadi_db \<Rightarrow> streams \<Rightarrow> bool) \<Rightarrow> 'z sadi_world_scheme \<Rightarrow> bool" where
  "holds P w \<longleftrightarrow> P (d_db w) (d_streams w)"

lemma holds_updates [simp]:
  "holds P (w\<lparr> d_now := t \<rparr>) = holds P w" "holds P (w\<lparr> d_pg := fs \<rparr>) = holds P w"
  "holds P (w\<lparr> d_rs := fs \<rparr>) = holds P w" "holds P (w\<lparr> d_next_uuid := n \<rparr>) = holds P w"
  "holds P (w\<lparr> d_db := d \<rparr>) = P d (d_streams w)" "holds P (w\<lparr> d_streams := ss \<rparr>) = P (d_db w) ss"
  by (simp_all add: holds_def)

lemma holds_conj: "holds (\<lambda>d ss. P d ss \<and> Q d ss) w \<longleftrightarrow> holds P w \<and> holds Q w"
  by (simp add: holds_def)

interpretation holding: sadi_calls "\<lambda>w w'. holds P w \<longrightarrow> holds P w'" for P
  by unfold_locales auto

text \<open>Every exit of a computation of this kind satisfies its condition; the normal one, R besides.\<close>

abbreviation triple ::
  "(sadi_db \<Rightarrow> streams \<Rightarrow> bool) \<Rightarrow> ('z, 'a) sadi \<Rightarrow> ('a \<Rightarrow> sadi_db \<Rightarrow> streams \<Rightarrow> bool)
     \<Rightarrow> (sadi_db \<Rightarrow> streams \<Rightarrow> bool) \<Rightarrow> bool" where
  "triple P m R E \<equiv> valid (holds P) m (\<lambda>x. holds (R x)) (\<lambda>_. holds E)"

lemma triple_keeps:
  assumes "always (\<lambda>w w'. holds P w \<longrightarrow> holds P w') m"
  shows "triple P m (\<lambda>_. P) P"
  using assms by (intro validI) (blast dest: alwaysD)+

lemma triple_weaken:
  "triple P m R E \<Longrightarrow> (\<And>d ss. P' d ss \<Longrightarrow> P d ss) \<Longrightarrow> (\<And>x d ss. R x d ss \<Longrightarrow> R' x d ss) \<Longrightarrow>
     (\<And>d ss. E d ss \<Longrightarrow> E' d ss) \<Longrightarrow> triple P' m R' E'"
  by (erule valid_weaken) (auto simp: holds_def)

lemma triple_conj:
  "triple P m R E \<Longrightarrow> triple P' m R' E' \<Longrightarrow>
     triple (\<lambda>d ss. P d ss \<and> P' d ss) m (\<lambda>x d ss. R x d ss \<and> R' x d ss) (\<lambda>d ss. E d ss \<and> E' d ss)"
  unfolding holds_conj by (rule valid_conj)

lemma triple_ret: "(\<And>d ss. P d ss \<Longrightarrow> R x d ss) \<Longrightarrow> triple P (ret x) R E"
  and triple_raise: "(\<And>d ss. P d ss \<Longrightarrow> E d ss) \<Longrightarrow> triple P (raise e) R E"
  by (auto simp: valid_def io_defs holds_def)

lemma triple_get: "(\<And>x. triple P (f x) R E) \<Longrightarrow> triple P (bind (get_w g) f) R E"
  by (auto simp: valid_def io_defs)

lemmas triple_bind = valid_bind [where P = "holds P" and Q = "\<lambda>x. holds (R x)" and R = "\<lambda>x. holds (S x)"
    and E = "\<lambda>_. holds E" for P R S E]
  and triple_try = valid_try [where P = "holds P" and Q = "\<lambda>x. holds (R x)" and R = "\<lambda>_. holds S"
    and E = "\<lambda>_. holds E" for P R S E]

lemma triple_pg:
  assumes "\<And>d ss x d'. P d ss \<Longrightarrow> stmt d = (Inr x, d') \<Longrightarrow> R x d' ss"
    and "\<And>d ss. P d ss \<Longrightarrow> P (snd (stmt d)) ss"
  shows "triple P (sadi_pg_call stmt) R P"
proof (rule validI)
  fix w :: "'z sadi_world_scheme" and x w'
  assume "holds P w" and "sadi_pg_call stmt w = (Inr x, w')"
  then show "holds (R x) w'" using assms(1) by (auto simp: holds_def dest!: sadi_pg_call_Inr)
next
  fix w :: "'z sadi_world_scheme" and e w'
  assume "holds P w" and "sadi_pg_call stmt w = (Inl e, w')"
  then show "holds P w'" using assms(2) by (auto simp: holds_def dest!: sadi_pg_call_world)
qed

lemma triple_rs:
  assumes "\<And>t d ss x ss'. P d ss \<Longrightarrow> act t ss = (Inr x, ss') \<Longrightarrow> R x d ss'"
    and "\<And>d ss. P d ss \<Longrightarrow> E d ss" and "\<And>t d ss. P d ss \<Longrightarrow> E d (snd (act t ss))"
  shows "triple P (sadi_rs_call act) R E"
proof (rule validI)
  fix w :: "'z sadi_world_scheme" and x w'
  assume "holds P w" and "sadi_rs_call act w = (Inr x, w')"
  then show "holds (R x) w'" using assms(1) by (auto simp: holds_def dest!: sadi_rs_call_Inr)
next
  fix w :: "'z sadi_world_scheme" and e w'
  assume "holds P w" and "sadi_rs_call act w = (Inl e, w')"
  then show "holds E w'" using assms(2,3) by (auto simp: holds_def dest!: sadi_rs_call_world)
qed

text \<open>A retried write that makes at least one attempt returns what its statement returned.\<close>

lemma triple_attempts:
  "triple P act R P \<Longrightarrow> int n \<le> sd_max_retry cfg \<Longrightarrow> triple P (run_attempts cfg act n) R P"
proof (induction cfg act n rule: run_attempts.induct)
  case (1 cfg act n)
  have s: "triple P (sadi_sleep_us us) (\<lambda>_. P) P" for us
    by (rule triple_keeps) (rule holding.sleep_keeps)
  define h where "h e = (case e of
        Asyncpg p \<Rightarrow>
          if sadi_transient p then
            if int n = sd_max_retry cfg
            then raise (Sadi ServiceUnavailableException (u ''DB connection retries exhausted''))
            else seq (sadi_sleep_us (sd_retry_base_wait_ms cfg * 2 ^ (n - 1) * 1000)) (run_attempts cfg act (Suc n))
          else raise (write_error p)
      | _ \<Rightarrow> raise e)" for e
  have step: "triple P (h e) R P" for e
  proof (cases "\<exists>p. e = Asyncpg p \<and> sadi_transient p \<and> int n \<noteq> sd_max_retry cfg")
    case True
    then obtain p where p: "e = Asyncpg p" "sadi_transient p" "int n \<noteq> sd_max_retry cfg" by blast
    have "triple P (run_attempts cfg act (Suc n)) R P"
      by (rule "1.IH") (use p 1(2,3) in auto)
    then show ?thesis using p s by (simp add: h_def) (rule triple_bind [where S = "\<lambda>_. P"])
  next
    case False
    then show ?thesis by (cases e) (auto simp: h_def intro: triple_raise)
  qed
  have "run_attempts cfg act n = try_except act h"
    by (subst run_attempts.simps) (use 1(3) in \<open>simp add: h_def [abs_def]\<close>)
  with triple_try [OF 1(2) step] show ?case by simp
qed

lemma triple_execute:
  assumes "1 \<le> sd_max_retry cfg"
    and "\<And>d ss x d'. P d ss \<Longrightarrow> stmt d = (Inr x, d') \<Longrightarrow> R d' ss"
    and "\<And>d ss. P d ss \<Longrightarrow> P (snd (stmt d)) ss"
  shows "triple P (sadi_execute cfg stmt) (\<lambda>_. R) P"
  unfolding sadi_execute_def run_with_retry_def
  by (intro triple_bind [where S = "\<lambda>_. R"] triple_attempts triple_pg [where R = "\<lambda>_. R"] triple_ret) (use assms in auto)

lemma triple_execute_returning:
  assumes "1 \<le> sd_max_retry cfg"
    and "\<And>d ss x d'. P d ss \<Longrightarrow> stmt d = (Inr x, d') \<Longrightarrow> R x d' ss"
    and "\<And>d ss. P d ss \<Longrightarrow> P (snd (stmt d)) ss"
  shows "triple P (sadi_execute_returning cfg stmt) R P"
  unfolding sadi_execute_returning_def run_with_retry_def
  by (intro triple_attempts triple_pg) (use assms in auto)

lemma triple_execute_keeps:
  assumes "\<And>d ss. P d ss \<Longrightarrow> P (snd (stmt d)) ss"
  shows "triple P (sadi_execute cfg stmt) (\<lambda>_. P) P"
  by (intro triple_keeps holding.execute_keeps always_pg_call) (use assms in \<open>auto simp: holds_def\<close>)

lemma triple_returning_keeps:
  assumes "\<And>d ss. P d ss \<Longrightarrow> P (snd (stmt d)) ss"
  shows "triple P (sadi_execute_returning cfg stmt) (\<lambda>_. P) P"
  by (intro triple_keeps holding.execute_returning_keeps always_pg_call) (use assms in \<open>auto simp: holds_def\<close>)

lemma triple_read:
  assumes "triple P act R P"
  shows "triple P (run_read act) R P"
  unfolding run_read_def
  by (intro triple_try [where S = P] assms) (auto split: sadi_exn.splits intro: triple_raise)

lemma triple_fetch_one:
  assumes "\<And>d ss. P d ss \<Longrightarrow> R (q d) d ss"
  shows "triple P (fetch_one q) R P"
  unfolding fetch_one_def by (intro triple_read triple_pg) (use assms in auto)

lemma triple_fetch_all:
  assumes "\<And>d ss. P d ss \<Longrightarrow> R (q d) d ss"
  shows "triple P (fetch_all q) R P"
  unfolding fetch_all_def by (intro triple_read triple_pg) (use assms in auto)

lemma triple_publish:
  assumes "\<And>d ss i ss'. P d ss \<Longrightarrow> xadd name flds ss = (Inr i, ss') \<Longrightarrow> R i d ss'"
    and "\<And>d ss. P d ss \<Longrightarrow> E d ss" and "\<And>d ss. P d ss \<Longrightarrow> E d (snd (xadd name flds ss))"
  shows "triple P (sadi_publish name flds) R E"
  unfolding sadi_publish_def by (rule triple_rs) (use assms in auto)

lemma triple_ack:
  assumes "\<And>d ss. P d ss \<Longrightarrow> R d ss" and "\<And>d ss. P d ss \<Longrightarrow> R d (snd (xack name grp i ss))"
  shows "triple P (sadi_ack name grp i) (\<lambda>_. R) R"
  unfolding sadi_ack_def
proof (rule triple_bind)
  show "triple P (sadi_rs_call (\<lambda>_. xack name grp i)) (\<lambda>_. R) R"
    by (rule triple_rs) (use assms in \<open>auto dest: arg_cong [where f = snd]\<close>, metis snd_conv)
qed (rule triple_ret)

lemma triple_uuid4: "triple P sadi_uuid4 (\<lambda>_. P) P"
  and triple_now: "triple P sadi_now (\<lambda>_. P) P"
  by (auto simp: valid_def sadi_uuid4_def sadi_now_def io_defs)

text \<open>A condition on the streams alone survives every call of the database.\<close>

lemma db_blind:
  assumes "\<And>d d' ss. P d ss \<Longrightarrow> P d' ss"
  shows "always (\<lambda>w w'. holds P w \<longrightarrow> holds P w') (sadi_execute cfg stmt)"
    and "always (\<lambda>w w'. holds P w \<longrightarrow> holds P w') (sadi_execute_returning cfg stmt')"
    and "always (\<lambda>w w'. holds P w \<longrightarrow> holds P w') (fetch_one q)"
    and "always (\<lambda>w w'. holds P w \<longrightarrow> holds P w') (fetch_all q')"
  unfolding fetch_one_def fetch_all_def
  by (intro holding.execute_keeps holding.execute_returning_keeps holding.run_read_keeps always_pg_call;
      simp add: holds_def; blast intro: assms)+

lemma uuid4_keeps: "always (\<lambda>w w'. holds P w \<longrightarrow> holds P w') sadi_uuid4"
  and now_keeps: "always (\<lambda>w w'. holds P w \<longrightarrow> holds P w') sadi_now"
  by (simp_all add: always_def sadi_uuid4_def sadi_now_def get_w_def)

section \<open>What the calls do not touch\<close>

interpretation same_more: sadi_calls "\<lambda>w w'. sadi_world.more w' = sadi_world.more w"
  by unfold_locales auto

lemma pg_more: "always (\<lambda>w w'. sadi_world.more w' = sadi_world.more w) (sadi_pg_call stmt)"
  and rs_more: "always (\<lambda>w w'. sadi_world.more w' = sadi_world.more w) (sadi_rs_call act)"
  by (rule always_pg_call always_rs_call, simp)+

lemma uuid4_more: "always (\<lambda>w w'. sadi_world.more w' = sadi_world.more w) sadi_uuid4"
  by (simp add: always_def sadi_uuid4_def)

end
