(* ===== verification/Sadi_Fetch.thy ===== *)
theory Sadi_Fetch
  imports Sadi_World Py_Regex
begin

text \<open>
  \<^verbatim>\<open>app/crawl/fetchers\<close> and \<^verbatim>\<open>app/crawl/parsers\<close>: pages with retries, RSS feeds, and the extraction of
  plain text from HTML and from PDFs. The HTTP client, feedparser, trafilatura, BeautifulSoup and
  the two PDF libraries are parameters, or part of the world where they meet the network.
\<close>

section \<open>The network\<close>

text \<open>A response: its status, its decoded text, its bytes, and the text of the error that
  \<^verbatim>\<open>raise_for_status\<close> would raise.\<close>

record page_response =
  pg_status :: int
  pg_text :: pystr
  pg_content :: "nat list"
  pg_status_error :: pystr

text \<open>What feedparser gives: \<^verbatim>\<open>bozo\<close>, the text of \<^verbatim>\<open>bozo_exception\<close>, the entries with the keys used here.
  A parsed date is a \<^verbatim>\<open>struct_time\<close> in UTC: year, month, day, hour, minute, second.\<close>

record rss_entry =
  re_title :: "pystr option"
  re_link :: "pystr option"
  re_published_parsed :: "(nat \<times> nat \<times> nat \<times> nat \<times> nat \<times> nat) option"
  re_summary :: "pystr option"

record rss_feed =
  rf_bozo :: bool
  rf_bozo_exception :: pystr
  rf_entries :: "rss_entry list"

text \<open>What a row of the HKEX filings table answers: its PDF link with the link's address, and the texts
  of its cells; an absent element or attribute is None.\<close>

record hkex_row =
  hr_pdf_link :: "pystr option option"
  hr_headline :: "pystr option"
  hr_release_time :: "pystr option"
  hr_stock_code :: "pystr option"

text \<open>A browser session on a search page: the failures of starting the browser, of opening a context and of
  loading the page; the text of the counter at each reading, the failure of each click with its wait, the
  rows, or the failure of reading one; the failures of closing the context and the browser.\<close>

record browser_session =
  bs_start :: "sadi_exn option"
  bs_context :: "sadi_exn option"
  bs_goto :: "sadi_exn option"
  bs_counter :: "nat \<Rightarrow> sadi_exn + pystr option"
  bs_click :: "nat \<Rightarrow> sadi_exn option"
  bs_rows :: "sadi_exn + (sadi_exn + hkex_row) list"
  bs_release :: "sadi_exn option"
  bs_stop :: "sadi_exn option"

text \<open>\<open>d_web k url\<close> is what the k-th request of the process meets, \<open>d_feeds\<close> likewise for feeds; \<open>d_browser url\<close>
  is the browser session on that address; \<open>d_jitter\<close> are the random numbers, \<open>d_choices\<close> decides which of several coroutines goes on.\<close>

record crawl_world = sadi_world +
  d_web :: "nat \<Rightarrow> pystr \<Rightarrow> sadi_exn + page_response"
  d_feeds :: "nat \<Rightarrow> pystr \<Rightarrow> sadi_exn + rss_feed"
  d_browser :: "pystr \<Rightarrow> browser_session"
  d_requests :: nat
  d_jitter :: "nat list"
  d_choices :: "nat list"

type_synonym ('z, 'a) crawl = "('z crawl_world_scheme, sadi_exn, 'a) io"

definition page_get :: "pystr \<Rightarrow> ('z, page_response) crawl" where
  "page_get url = (\<lambda>w. (d_web w (d_requests w) url, w\<lparr> d_requests := Suc (d_requests w) \<rparr>))"

definition page_raise_for_status :: "page_response \<Rightarrow> ('z, unit) crawl" where
  "page_raise_for_status r =
     (if 200 \<le> pg_status r \<and> pg_status r < 300 then ret () else raise (HttpStatusError (pg_status_error r)))"

section \<open>Fetching a page\<close>

definition int_str :: "int \<Rightarrow> pystr" where
  "int_str n = (if n < 0 then 45 # dec_digits (nat (- n)) else dec_digits (nat n))"

text \<open>One attempt: the request and the reading of the status.\<close>

definition fetch_attempt :: "pystr \<Rightarrow> ('z, page_response) crawl" where
  "fetch_attempt url =
     bind (page_get url) (\<lambda>response.
     if pg_status response = 429
     then raise (Sadi CrawlRateLimitedException (u ''HTTP 429 for '' @ url))
     else if 400 \<le> pg_status response \<and> pg_status response < 500
     then raise (Sadi CrawlBlockedException (u ''HTTP '' @ int_str (pg_status response) @ u '' for '' @ url))
     else seq (page_raise_for_status response) (ret response))"

definition retries_exhausted :: "(sadi_exn \<Rightarrow> pystr) \<Rightarrow> crawl_config \<Rightarrow> pystr \<Rightarrow> sadi_exn option \<Rightarrow> sadi_exn" where
  "retries_exhausted lib_str cfg url last_exc = Sadi CrawlBlockedException
     (u ''All '' @ int_str (cr_max_retry cfg) @ u '' retries exhausted for '' @ url @ u '': ''
      @ (case last_exc of None \<Rightarrow> u ''None'' | Some e \<Rightarrow> sadi_str lib_str e))"

fun retryable :: "sadi_exn \<Rightarrow> bool" where
  "retryable (HttpStatusError _) = True"
| "retryable (HttpRequestError _) = True"
| "retryable _ = False"

text \<open>The loop from a given attempt number on.\<close>

function fetch_attempts ::
  "(sadi_exn \<Rightarrow> pystr) \<Rightarrow> crawl_config \<Rightarrow> pystr \<Rightarrow> nat \<Rightarrow> sadi_exn option \<Rightarrow> ('z, page_response) crawl" where
  "fetch_attempts lib_str cfg url n last_exc =
     (if int n > cr_max_retry cfg then raise (retries_exhausted lib_str cfg url last_exc)
      else try_except (fetch_attempt url) (\<lambda>exc.
        if retryable exc
        then seq (when_io (int n < cr_max_retry cfg) (sadi_sleep_us (cr_retry_base_wait_ms cfg * 2 ^ (n - 1) * 1000)))
                 (fetch_attempts lib_str cfg url (Suc n) (Some exc))
        else raise exc))"
  by auto
termination by (relation "measure (\<lambda>(l, cfg, url, n, e). nat (cr_max_retry cfg + 1 - int n))") auto

declare fetch_attempts.simps [simp del]

definition page_fetch :: "(sadi_exn \<Rightarrow> pystr) \<Rightarrow> crawl_config \<Rightarrow> pystr \<Rightarrow> ('z, page_response) crawl" where
  "page_fetch lib_str cfg url = fetch_attempts lib_str cfg url 1 None"

section \<open>Fetching a feed\<close>

record feed_entry =
  fe_title :: pystr
  fe_url :: pystr
  fe_published_at :: "instant option"
  fe_description :: "pystr option"

definition feed_parse :: "pystr \<Rightarrow> ('z, rss_feed) crawl" where
  "feed_parse url = (\<lambda>w. (d_feeds w (d_requests w) url, w\<lparr> d_requests := Suc (d_requests w) \<rparr>))"

text \<open>\<^verbatim>\<open>calendar.timegm\<close> and \<^verbatim>\<open>fromtimestamp\<close>: the instant of a \<^verbatim>\<open>struct_time\<close> in UTC.\<close>

definition instant_of_struct :: "nat \<times> nat \<times> nat \<times> nat \<times> nat \<times> nat \<Rightarrow> instant" where
  "instant_of_struct = (\<lambda>(y, m, d, h, mi, s).
     (int (days_of_date y m 1) + int d - 1) * us_per_day + (int h * 3600 + int mi * 60 + int s) * us_per_second)"

definition get_text :: "pystr option \<Rightarrow> pystr" where
  "get_text t = py_strip (case t of None \<Rightarrow> [] | Some x \<Rightarrow> x)"

definition feed_entry_of :: "rss_entry \<Rightarrow> feed_entry option" where
  "feed_entry_of e =
     (let title = get_text (re_title e); link = get_text (re_link e); summary = get_text (re_summary e)
      in if title = [] \<or> link = [] then None
         else Some \<lparr> fe_title = title, fe_url = link,
                     fe_published_at = map_option instant_of_struct (re_published_parsed e),
                     fe_description = (if summary = [] then None else Some summary) \<rparr>)"

definition fetch_rss :: "pystr \<Rightarrow> ('z, feed_entry list) crawl" where
  "fetch_rss url =
     bind (feed_parse url) (\<lambda>feed.
     if rf_bozo feed \<and> rf_entries feed = []
     then raise (Sadi FeedFetchException
            (u ''Failed to parse RSS feed at '' @ url @ u '': '' @ rf_bozo_exception feed))
     else if rf_entries feed = []
     then raise (Sadi FeedFetchException (u ''RSS feed at '' @ url @ u '' returned no entries''))
     else ret (List.map_filter feed_entry_of (rf_entries feed)))"

section \<open>The parsers\<close>

text \<open>An element of a parsed page, and an opened PDF: whether it is encrypted and the text of each page.\<close>

record element =
  el_href :: "pystr option"
  el_classes :: "pystr list"
  el_html :: pystr
  el_text :: pystr

record pdf_doc =
  pd_encrypted :: bool
  pd_pages :: "(sadi_exn + pystr) list"

text \<open>The libraries: \<^verbatim>\<open>trafilatura.extract\<close>; \<^verbatim>\<open>soup.select\<close> of a page and a selector; the text of the
  page's title; \<^verbatim>\<open>fitz.open\<close>; pdfminer; the text of the exceptions of libraries.\<close>

record page_lib =
  pl_trafilatura :: "pystr \<Rightarrow> sadi_exn + pystr option"
  pl_select :: "pystr \<Rightarrow> pystr \<Rightarrow> sadi_exn + element list"
  pl_title :: "pystr \<Rightarrow> sadi_exn + pystr option"
  pl_fitz :: "nat list \<Rightarrow> sadi_exn + pdf_doc"
  pl_pdfminer :: "nat list \<Rightarrow> sadi_exn + pystr"
  pl_str :: "sadi_exn \<Rightarrow> pystr"

definition extract_body_auto :: "page_lib \<Rightarrow> pystr \<Rightarrow> ('z, pystr option) crawl" where
  "extract_body_auto L html =
     bind (of_sum (pl_trafilatura L html)) (\<lambda>result.
     ret (case result of
            None \<Rightarrow> None
          | Some t \<Rightarrow> if py_strip t = [] then None else Some (py_strip t)))"

text \<open>\<^verbatim>\<open>select_one\<close> is the first element selected; \<open>el_text\<close> is its \<^verbatim>\<open>get_text(separator=" ", strip=True)\<close>.\<close>

definition extract_body_css :: "page_lib \<Rightarrow> pystr \<Rightarrow> pystr \<Rightarrow> ('z, pystr option) crawl" where
  "extract_body_css L html selector =
     bind (of_sum (pl_select L html selector)) (\<lambda>elements.
     ret (case elements of
            [] \<Rightarrow> None
          | e # _ \<Rightarrow> if el_text e = [] then None else Some (el_text e)))"

fun sum_list_res :: "(sadi_exn + 'a) list \<Rightarrow> sadi_exn + 'a list" where
  "sum_list_res [] = Inr []"
| "sum_list_res (Inl e # xs) = Inl e"
| "sum_list_res (Inr x # xs) = map_sum id (Cons x) (sum_list_res xs)"

definition parse_primary :: "page_lib \<Rightarrow> nat list \<Rightarrow> ('z, pystr) crawl" where
  "parse_primary L content =
     bind (of_sum (pl_fitz L content)) (\<lambda>doc.
     if pd_encrypted doc then raise (Sadi PdfEncryptedException (u ''PDF is encrypted''))
     else bind (of_sum (sum_list_res (pd_pages doc))) (\<lambda>parts. ret (py_strip (concat parts))))"

definition parse_fallback :: "page_lib \<Rightarrow> nat list \<Rightarrow> ('z, pystr) crawl" where
  "parse_fallback L content = bind (of_sum (pl_pdfminer L content)) (\<lambda>t. ret (py_strip t))"

definition parse_pdf :: "page_lib \<Rightarrow> nat list \<Rightarrow> ('z, pystr) crawl" where
  "parse_pdf L content =
     bind (parse_primary L content) (\<lambda>txt.
     if txt \<noteq> [] then ret txt
     else bind (try_except (parse_fallback L content) (\<lambda>exc.
            if sadi_is_exception exc
            then raise (Sadi PdfParseException (u ''Fallback parser failed: '' @ sadi_str (pl_str L) exc))
            else raise exc)) (\<lambda>txt.
          if txt = []
          then raise (Sadi PdfParseException (u ''Both primary and fallback parsers returned empty text''))
          else ret txt))"

section \<open>The retries\<close>

text \<open>An attempt makes one request; what it raises decides whether there is another.\<close>

lemma fetch_attempt_requests: "fetch_attempt url w = (r, w') \<Longrightarrow> w' = w\<lparr> d_requests := Suc (d_requests w) \<rparr>"
  by (auto simp: fetch_attempt_def page_get_def page_raise_for_status_def io_defs split: if_splits prod.splits sum.splits)

lemma fetch_attempt_status:
  assumes "d_web w (d_requests w) url = Inr response"
  shows "fetch_attempt url w =
    ((if pg_status response = 429 then Inl (Sadi CrawlRateLimitedException (u ''HTTP 429 for '' @ url))
      else if 400 \<le> pg_status response \<and> pg_status response < 500
      then Inl (Sadi CrawlBlockedException (u ''HTTP '' @ int_str (pg_status response) @ u '' for '' @ url))
      else if 200 \<le> pg_status response \<and> pg_status response < 300 then Inr response
      else Inl (HttpStatusError (pg_status_error response))), w\<lparr> d_requests := Suc (d_requests w) \<rparr>)"
  using assms by (simp add: fetch_attempt_def page_get_def page_raise_for_status_def io_defs)

text \<open>What each of the requests before the last met: an error of the server or of the network.\<close>

definition passing_failure :: "sadi_exn + page_response \<Rightarrow> bool" where
  "passing_failure r = (case r of
     Inl e \<Rightarrow> retryable e
   | Inr p \<Rightarrow> pg_status p < 200 \<or> 300 \<le> pg_status p \<and> \<not> (400 \<le> pg_status p \<and> pg_status p < 500))"

lemma fetch_attempt_failure:
  assumes "fetch_attempt url w = (Inl e, w')"
  shows "retryable e = passing_failure (d_web w (d_requests w) url)"
  using assms
  by (cases "d_web w (d_requests w) url")
    (auto simp: passing_failure_def fetch_attempt_def page_get_def page_raise_for_status_def io_defs split: if_splits)

lemma fetch_attempts_requests:
  "fetch_attempts lib_str cfg url n last_exc w = (r, w') \<Longrightarrow> 1 \<le> n \<Longrightarrow> int n \<le> cr_max_retry cfg + 1 \<Longrightarrow>
     \<exists>k. d_requests w' = d_requests w + k \<and> int k \<le> cr_max_retry cfg + 1 - int n
       \<and> (\<forall>j. Suc j < k \<longrightarrow> passing_failure (d_web w (d_requests w + j) url))
       \<and> (\<forall>p. r = Inr p \<longrightarrow> 0 < k \<and> d_web w (d_requests w + (k - 1)) url = Inr p \<and> 200 \<le> pg_status p \<and> pg_status p < 300)
       \<and> (\<forall>e. r = Inl e \<longrightarrow> int k = cr_max_retry cfg + 1 - int n
             \<or> 0 < k \<and> \<not> passing_failure (d_web w (d_requests w + (k - 1)) url))
       \<and> d_web w' = d_web w"
proof (induction lib_str cfg url n last_exc arbitrary: w rule: fetch_attempts.induct)
  case (1 lib_str cfg url n last_exc)
  show ?case
  proof (cases "int n > cr_max_retry cfg")
    case True
    with "1.prems" show ?thesis by (subst (asm) fetch_attempts.simps) auto
  next
    case False
    obtain q w1 where q: "fetch_attempt url w = (q, w1)" by fastforce
    note w1 = fetch_attempt_requests [OF q]
    show ?thesis
    proof (cases "\<exists>e. q = Inl e \<and> retryable e")
      case True
      then obtain e where e: "q = Inl e" "retryable e" by blast
      have pf: "passing_failure (d_web w (d_requests w) url)"
        using fetch_attempt_failure [OF q [unfolded e(1)]] e(2) by simp
      define w2 where "w2 = snd (when_io (int n < cr_max_retry cfg)
          (sadi_sleep_us (cr_retry_base_wait_ms cfg * 2 ^ (n - 1) * 1000)) w1)"
      have w2: "d_requests w2 = Suc (d_requests w)" "d_web w2 = d_web w"
        by (simp_all add: w2_def w1 when_io_def sadi_sleep_us_def io_defs)
      have r: "fetch_attempts lib_str cfg url (Suc n) (Some e) w2 = (r, w')"
        using "1.prems"(1) q e False
        by (subst (asm) fetch_attempts.simps) (auto simp: try_except_def bind_def w2_def when_io_def sadi_sleep_us_def io_defs)
      obtain k where k: "d_requests w' = d_requests w2 + k" "int k \<le> cr_max_retry cfg + 1 - int (Suc n)"
        "\<forall>j. Suc j < k \<longrightarrow> passing_failure (d_web w2 (d_requests w2 + j) url)"
        "\<forall>p. r = Inr p \<longrightarrow> 0 < k \<and> d_web w2 (d_requests w2 + (k - 1)) url = Inr p \<and> 200 \<le> pg_status p \<and> pg_status p < 300"
        "\<forall>e. r = Inl e \<longrightarrow> int k = cr_max_retry cfg + 1 - int (Suc n)
             \<or> 0 < k \<and> \<not> passing_failure (d_web w2 (d_requests w2 + (k - 1)) url)"
        "d_web w' = d_web w2"
        using "1.IH" [OF False e(2) r] False by auto
      have shift: "Suc (d_requests w) + (k - 1) = d_requests w + (Suc k - 1)" if "0 < k" using that by simp
      show ?thesis
      proof (intro exI [of _ "Suc k"] conjI allI impI)
        fix j assume "Suc j < Suc k"
        then show "passing_failure (d_web w (d_requests w + j) url)"
          using k(3) pf w2 by (cases j) auto
      next
        fix x assume "r = Inl x"
        with k(5) w2 shift show "int (Suc k) = cr_max_retry cfg + 1 - int n
             \<or> 0 < Suc k \<and> \<not> passing_failure (d_web w (d_requests w + (Suc k - 1)) url)"
          by auto
      qed (use k w2 shift in auto)
    next
      case stop: False
      then have "r = q" "w' = w1"
        using "1.prems"(1) q False
        by (subst (asm) fetch_attempts.simps, auto simp: try_except_def split: sum.splits)+
      moreover have "\<not> passing_failure (d_web w (d_requests w) url)" if "q = Inl e" for e
        using fetch_attempt_failure [OF q [unfolded that]] stop that by simp
      moreover have "d_web w (d_requests w) url = Inr p \<and> 200 \<le> pg_status p \<and> pg_status p < 300" if "q = Inr p" for p
        using q that by (auto simp: fetch_attempt_def page_get_def page_raise_for_status_def io_defs
            split: if_splits prod.splits sum.splits)
      ultimately show ?thesis using w1 False by (intro exI [of _ 1]) auto
    qed
  qed
qed

end
