(* ===== verification/Sadi_Crawlers.thy ===== *)
theory Sadi_Crawlers
  imports Sadi_Fetch
begin

text \<open>
  \<^verbatim>\<open>app/crawl/crawlers\<close>: what a crawler returns, the check against the error log, the pool of article
  workers that three of the crawlers run, and the crawlers of MingPao, AAStocks and Yahoo HK.

  The workers of a pool run concurrently, at most \<^verbatim>\<open>max_concurrent\<close> of them past the semaphore. A worker
  goes on at its calls: the check of the error log, the start once it has a permit, and the fetch with
  what follows it. Which worker goes on is the world's choice (\<open>d_choices\<close>), so every interleaving of
  these steps is one of some world. When a worker fails, \<^verbatim>\<open>gather\<close> raises its error; the workers still
  running then can only read.
\<close>

section \<open>Results\<close>

record crawl_success_item =
  si_title :: pystr
  si_body :: pystr
  si_source_url :: pystr
  si_published_at :: "instant option"
  si_stock_codes :: "pystr list option"   \<comment> \<open>\<^verbatim>\<open>extra_metadata\<close>: \<open>{"stock_code": codes}\<close>\<close>

record crawl_fail_item =
  fi_source_url :: pystr
  fi_error_type :: pystr
  fi_error_code :: pystr
  fi_attempt_count :: int

record crawl_result =
  cr_successes :: "crawl_success_item list"
  cr_failures :: "crawl_fail_item list"

definition empty_result :: crawl_result where
  "empty_result = \<lparr> cr_successes = [], cr_failures = [] \<rparr>"

definition is_url_in_error_log :: "pystr \<Rightarrow> ('z, bool) sadi" where
  "is_url_in_error_log url =
     bind (fetch_one (\<lambda>d. Some (url \<in> el_url ` set (s_crawl_error_log d)))) (\<lambda>row.
     ret (case row of None \<Rightarrow> False | Some b \<Rightarrow> b))"

text \<open>What becomes of one article: nothing, an entry of the successes, or one of the failures.\<close>

datatype crawl_outcome =
    Left_out
  | Success crawl_success_item
  | Failure crawl_fail_item

fun add_outcome :: "crawl_outcome \<Rightarrow> crawl_result \<Rightarrow> crawl_result" where
  "add_outcome Left_out r = r"
| "add_outcome (Success s) r = r\<lparr> cr_successes := cr_successes r @ [s] \<rparr>"
| "add_outcome (Failure f) r = r\<lparr> cr_failures := cr_failures r @ [f] \<rparr>"

definition fail_item :: "pystr \<Rightarrow> error_code_entry \<Rightarrow> int \<Rightarrow> crawl_outcome" where
  "fail_item url code attempts = Failure
     \<lparr> fi_source_url = url, fi_error_type = ec_error_type code, fi_error_code = ec_error_code code,
       fi_attempt_count = attempts \<rparr>"

section \<open>The worker pool\<close>

datatype 'i crawl_task = Checking 'i | Waiting_slot 'i | Fetching 'i

fun task_item :: "'i crawl_task \<Rightarrow> 'i" where
  "task_item (Checking i) = i"
| "task_item (Waiting_slot i) = i"
| "task_item (Fetching i) = i"

fun task_ready :: "nat \<Rightarrow> 'i crawl_task \<Rightarrow> bool" where
  "task_ready permits (Waiting_slot i) \<longleftrightarrow> 0 < permits"
| "task_ready permits _ \<longleftrightarrow> True"

fun task_weight :: "'i crawl_task \<Rightarrow> nat" where
  "task_weight (Checking i) = 3"
| "task_weight (Waiting_slot i) = 2"
| "task_weight (Fetching i) = 1"

definition next_choice :: "('z, nat) crawl" where
  "next_choice = (\<lambda>w. (Inr (case d_choices w of [] \<Rightarrow> 0 | c # _ \<Rightarrow> c), w\<lparr> d_choices := tl (d_choices w) \<rparr>))"

definition remove_at :: "nat \<Rightarrow> 'a list \<Rightarrow> 'a list" where
  "remove_at j xs = take j xs @ drop (Suc j) xs"

definition ready_tasks :: "nat \<Rightarrow> 'i crawl_task list \<Rightarrow> nat list" where
  "ready_tasks permits ts = filter (\<lambda>j. task_ready permits (ts ! j)) [0 ..< length ts]"

definition chosen_task :: "nat \<Rightarrow> nat \<Rightarrow> 'i crawl_task list \<Rightarrow> nat" where
  "chosen_task s permits ts = ready_tasks permits ts ! (s mod length (ready_tasks permits ts))"

lemma chosen_task:
  "ready_tasks permits ts \<noteq> [] \<Longrightarrow> chosen_task s permits ts < length ts \<and> task_ready permits (ts ! chosen_task s permits ts)"
proof -
  assume "ready_tasks permits ts \<noteq> []"
  then have "chosen_task s permits ts \<in> set (ready_tasks permits ts)"
    unfolding chosen_task_def by (intro nth_mem mod_less_divisor) simp
  then show ?thesis by (simp add: ready_tasks_def)
qed

lemma remove_at_split: "j < length xs \<Longrightarrow> xs = take j xs @ xs ! j # drop (Suc j) xs"
  by (rule id_take_nth_drop)

lemma weight_remove: "j < length ts \<Longrightarrow> sum_list (map task_weight (remove_at j ts)) < sum_list (map task_weight ts)"
proof -
  assume "j < length ts"
  then have "sum_list (map task_weight ts) = sum_list (map task_weight (take j ts @ ts ! j # drop (Suc j) ts))"
    by (simp flip: remove_at_split)
  moreover have "0 < task_weight (ts ! j)" by (cases "ts ! j") simp_all
  ultimately show ?thesis by (simp add: remove_at_def)
qed

lemma weight_update:
  "j < length ts \<Longrightarrow> task_weight t < task_weight (ts ! j) \<Longrightarrow>
     sum_list (map task_weight (ts[j := t])) < sum_list (map task_weight ts)"
proof -
  assume j: "j < length ts" and t: "task_weight t < task_weight (ts ! j)"
  then have "sum_list (map task_weight ts) = sum_list (map task_weight (take j ts @ ts ! j # drop (Suc j) ts))"
    by (simp flip: remove_at_split)
  with j t show ?thesis by (simp add: upd_conv_take_nth_drop)
qed

text \<open>The pool from the tasks that are left on. Without a permit for any of them it waits forever.\<close>

function gather ::
  "('i \<Rightarrow> ('z, bool) crawl) \<Rightarrow> ('i \<Rightarrow> ('z, crawl_outcome) crawl) \<Rightarrow> nat \<Rightarrow> 'i crawl_task list \<Rightarrow> crawl_result
     \<Rightarrow> ('z, crawl_result) crawl" where
  "gather check fetch permits ts result =
     (if ready_tasks permits ts = [] then (if ts = [] then ret result else raise (Lib Suspended))
      else bind next_choice (\<lambda>s.
        let j = chosen_task s permits ts
        in case ts ! j of
             Checking i \<Rightarrow> bind (check i) (\<lambda>skip.
               if skip then gather check fetch permits (remove_at j ts) result
               else gather check fetch permits (ts[j := Waiting_slot i]) result)
           | Waiting_slot i \<Rightarrow> gather check fetch (permits - 1) (ts[j := Fetching i]) result
           | Fetching i \<Rightarrow> bind (fetch i) (\<lambda>outcome.
               gather check fetch (Suc permits) (remove_at j ts) (add_outcome outcome result))))"
  by pat_completeness auto

lemma chosen_weights:
  assumes "ready_tasks permits ts \<noteq> []"
  shows "sum_list (map task_weight (remove_at (chosen_task s permits ts) ts)) < sum_list (map task_weight ts)"
    and "ts ! chosen_task s permits ts = Checking i \<Longrightarrow>
      sum_list (map task_weight (ts[chosen_task s permits ts := Waiting_slot i])) < sum_list (map task_weight ts)"
    and "ts ! chosen_task s permits ts = Waiting_slot i \<Longrightarrow>
      sum_list (map task_weight (ts[chosen_task s permits ts := Fetching i])) < sum_list (map task_weight ts)"
  using chosen_task [OF assms, of s] by (simp_all add: weight_remove weight_update)

termination gather
  by (relation "measure (\<lambda>(check, fetch, permits, ts, result). sum_list (map task_weight ts))")
    (simp_all add: chosen_weights)

declare gather.simps [simp del]

text \<open>\<^verbatim>\<open>_crawl_articles\<close>: the semaphore, a worker for each article. A negative value raises.\<close>

definition crawl_articles ::
  "crawl_source_config \<Rightarrow> ('i \<Rightarrow> pystr) \<Rightarrow> ('i \<Rightarrow> ('z, crawl_outcome) crawl) \<Rightarrow> 'i list \<Rightarrow> crawl_result
     \<Rightarrow> ('z, crawl_result) crawl" where
  "crawl_articles sc url_of fetch items result =
     (if cs_max_concurrent sc < 0 then raise (Lib (Py ValueError))
      else gather (\<lambda>i. is_url_in_error_log (url_of i)) fetch (nat (cs_max_concurrent sc)) (map Checking items) result)"

text \<open>\<^verbatim>\<open>random.uniform\<close> between the two intervals, and the sleep.\<close>

definition jitter_sleep :: "crawl_source_config \<Rightarrow> ('z, unit) crawl" where
  "jitter_sleep sc =
     bind (\<lambda>w. (Inr (case d_jitter w of [] \<Rightarrow> 0 | c # _ \<Rightarrow> c), w\<lparr> d_jitter := tl (d_jitter w) \<rparr>)) (\<lambda>x.
     (let lo = min (cs_request_interval_min_ms sc) (cs_request_interval_max_ms sc) * 1000;
          hi = max (cs_request_interval_min_ms sc) (cs_request_interval_max_ms sc) * 1000
      in sadi_sleep_us (lo + int x mod (hi - lo + 1))))"

text \<open>The part the three workers share: after the sleep, a rate limit leaves the article out, a blocked page is
  a failure, and what the page becomes is \<open>parse\<close>.\<close>

definition fetch_article ::
  "crawl_config \<Rightarrow> page_lib \<Rightarrow> crawl_source_config \<Rightarrow> pystr \<Rightarrow> (page_response \<Rightarrow> ('z, crawl_outcome) crawl)
     \<Rightarrow> ('z, crawl_outcome) crawl" where
  "fetch_article cfg L sc url parse =
     seq (jitter_sleep sc)
      (bind (try_except (bind (page_fetch (pl_str L) cfg url) (\<lambda>response. ret (Inr response)))
              (\<lambda>exc. case exc of
                 Sadi CrawlRateLimitedException d \<Rightarrow> ret (Inl Left_out)
               | Sadi CrawlBlockedException d \<Rightarrow> ret (Inl (fail_item url URL_GET_FAILED (cr_max_retry cfg)))
               | _ \<Rightarrow> raise exc)) (\<lambda>r.
       case r of Inl outcome \<Rightarrow> ret outcome | Inr response \<Rightarrow> parse response))"

text \<open>A body that is missing or blank leaves the article out; a failed extraction is a failure.\<close>

definition extracted ::
  "pystr \<Rightarrow> ('z, pystr option) crawl \<Rightarrow> (pystr \<Rightarrow> ('z, crawl_outcome) crawl) \<Rightarrow> ('z, crawl_outcome) crawl" where
  "extracted url extract k =
     bind (try_except (bind extract (\<lambda>body. ret (Inr body)))
            (\<lambda>exc. if sadi_is_exception exc then ret (Inl (fail_item url SADI_PARSE_ERROR 1)) else raise exc)) (\<lambda>r.
     case r of
       Inl outcome \<Rightarrow> ret outcome
     | Inr None \<Rightarrow> ret Left_out
     | Inr (Some body) \<Rightarrow> if py_strip body = [] then ret Left_out else k (py_strip body))"

definition fatal :: "pystr \<Rightarrow> sadi_exn \<Rightarrow> page_lib \<Rightarrow> sadi_exn" where
  "fatal what exc L = Sadi CrawlFatalException (what @ sadi_str (pl_str L) exc)"

section \<open>MingPao\<close>

definition MINGPAO_RSS_URL :: pystr where
  "MINGPAO_RSS_URL = u ''https://news.mingpao.com/rss/pns/s00004.xml''"

definition mingpao_process_entry :: "feed_entry \<Rightarrow> crawl_result \<Rightarrow> ('z, crawl_result) crawl" where
  "mingpao_process_entry entry result =
     bind (is_url_in_error_log (fe_url entry)) (\<lambda>b.
     if b then ret result
     else case fe_description entry of
            None \<Rightarrow> ret result
          | Some description \<Rightarrow>
              if description = [] \<or> py_strip description = [] then ret result
              else ret (add_outcome (Success
                     \<lparr> si_title = fe_title entry, si_body = py_strip description, si_source_url = fe_url entry,
                       si_published_at = fe_published_at entry, si_stock_codes = None \<rparr>) result))"

definition mingpao_run :: "page_lib \<Rightarrow> ('z, crawl_result) crawl" where
  "mingpao_run L =
     bind (try_except (fetch_rss MINGPAO_RSS_URL)
            (\<lambda>exc. case exc of
               Sadi FeedFetchException d \<Rightarrow> raise (fatal (u ''MingPao RSS fetch failed: '') exc L)
             | _ \<Rightarrow> raise exc)) (\<lambda>entries.
     fold_io (\<lambda>result entry. mingpao_process_entry entry result) empty_result entries)"

section \<open>AAStocks\<close>

definition AASTOCKS_LIST_URL :: pystr where
  "AASTOCKS_LIST_URL = u ''https://www.aastocks.com/tc/stocks/news/aafn/latest-news''"
definition AASTOCKS_BASE_URL :: pystr where
  "AASTOCKS_BASE_URL = u ''https://www.aastocks.com''"
definition ARTICLE_LINK_SELECTOR :: pystr where
  "ARTICLE_LINK_SELECTOR = u ''a[href*='' @ [39] @ u ''/aafn-con/NOW.'' @ [39] @ u '']''"
definition ARTICLE_BODY_SELECTOR :: pystr where
  "ARTICLE_BODY_SELECTOR = u ''[class*='' @ [39] @ u ''newscon'' @ [39] @ u '']''"
definition PUBLISHED_AT_SELECTOR :: pystr where
  "PUBLISHED_AT_SELECTOR = u ''div.newstime5''"

text \<open>\<^verbatim>\<open>(\d{4})/(\d{2})/(\d{2})\s+(\d{2}):(\d{2})\<close>.\<close>

definition digits_rx :: "nat \<Rightarrow> nat \<Rightarrow> rx" where
  "digits_rx k n = Grp k (Rep (Sat py_isdecimal) n (Some n))"

definition PUBLISHED_AT_PATTERN :: rx where
  "PUBLISHED_AT_PATTERN =
     Cat (digits_rx 1 4) (Cat (chr_rx 47) (Cat (digits_rx 2 2) (Cat (chr_rx 47) (Cat (digits_rx 3 2)
       (Cat (plus_rx (Sat py_isspace)) (Cat (digits_rx 4 2) (Cat (chr_rx 58) (digits_rx 5 2))))))))"

definition full_url :: "pystr \<Rightarrow> pystr \<Rightarrow> pystr" where
  "full_url base href = (if py_startswith href (u ''http'') then href else base @ href)"

text \<open>The addresses of the links, each once and in order; a link without an address is skipped.\<close>

definition extract_article_urls :: "page_lib \<Rightarrow> pystr \<Rightarrow> ('z, pystr list) crawl" where
  "extract_article_urls L html =
     bind (of_sum (pl_select L html ARTICLE_LINK_SELECTOR)) (\<lambda>links.
     ret (py_fromkeys (List.map_filter (\<lambda>e. case el_href e of
            None \<Rightarrow> None
          | Some href \<Rightarrow> if href = [] then None else Some (full_url AASTOCKS_BASE_URL href)) links)))"

definition extract_title :: "page_lib \<Rightarrow> pystr \<Rightarrow> ('z, pystr option) crawl" where
  "extract_title L html =
     bind (of_sum (pl_title L html)) (\<lambda>t.
     ret (case t of None \<Rightarrow> None | Some x \<Rightarrow> if x = [] then None else Some (py_strip x)))"

text \<open>\<^verbatim>\<open>datetime(...)\<close> of a time in Hong Kong, in UTC. A field out of range raises.\<close>

definition hkt_instant :: "nat \<Rightarrow> nat \<Rightarrow> nat \<Rightarrow> nat \<Rightarrow> nat \<Rightarrow> sadi_exn + instant" where
  "hkt_instant y m d h mi =
     (if 1 \<le> y \<and> y \<le> 9999 \<and> 1 \<le> m \<and> m \<le> 12 \<and> 1 \<le> d \<and> d \<le> days_in_month y m \<and> h < 24 \<and> mi < 60
      then (let t = int (days_of_date y m d) * us_per_day + (int h * 3600 + int mi * 60) * us_per_second - 8 * us_per_hour
            in if t < 0 then Inl (Foreign (u ''date value out of range'')) else Inr t)
      else Inl (Lib (Py ValueError)))"

definition group_int :: "pystr \<Rightarrow> mstate \<Rightarrow> nat \<Rightarrow> nat" where
  "group_int s t k = (case rx_group s t k of None \<Rightarrow> 0 | Some g \<Rightarrow> decimal_int g)"

fun find_published_at :: "element list \<Rightarrow> sadi_exn + instant option" where
  "find_published_at [] = Inr None"
| "find_published_at (e # es) =
     (if u ''newshead-Source'' \<in> set (el_classes e) then find_published_at es
      else case rx_search PUBLISHED_AT_PATTERN (el_html e) of
             None \<Rightarrow> find_published_at es
           | Some (i, t) \<Rightarrow> map_sum id Some
               (hkt_instant (group_int (el_html e) t 1) (group_int (el_html e) t 2) (group_int (el_html e) t 3)
                  (group_int (el_html e) t 4) (group_int (el_html e) t 5)))"

definition parse_published_at :: "page_lib \<Rightarrow> pystr \<Rightarrow> ('z, instant option) crawl" where
  "parse_published_at L html =
     bind (of_sum (pl_select L html PUBLISHED_AT_SELECTOR)) (\<lambda>divs. of_sum (find_published_at divs))"

definition aastocks_fetch_one_article ::
  "crawl_config \<Rightarrow> page_lib \<Rightarrow> crawl_source_config \<Rightarrow> pystr \<Rightarrow> ('z, crawl_outcome) crawl" where
  "aastocks_fetch_one_article cfg L sc url =
     fetch_article cfg L sc url (\<lambda>response.
       extracted url (extract_body_css L (pg_text response) ARTICLE_BODY_SELECTOR) (\<lambda>body.
         bind (extract_title L (pg_text response)) (\<lambda>title.
         bind (parse_published_at L (pg_text response)) (\<lambda>published_at.
         ret (Success
           \<lparr> si_title = (case title of None \<Rightarrow> [] | Some t \<Rightarrow> t), si_body = body, si_source_url = url,
             si_published_at = published_at, si_stock_codes = None \<rparr>)))))"

definition aastocks_run :: "crawl_config \<Rightarrow> page_lib \<Rightarrow> crawl_source_config \<Rightarrow> ('z, crawl_result) crawl" where
  "aastocks_run cfg L sc =
     bind (try_except (page_fetch (pl_str L) cfg AASTOCKS_LIST_URL)
            (\<lambda>exc. case exc of
               Sadi CrawlBlockedException d \<Rightarrow> raise (fatal (u ''AAStocks list page fetch failed: '') exc L)
             | _ \<Rightarrow> raise exc)) (\<lambda>list_response.
     bind (extract_article_urls L (pg_text list_response)) (\<lambda>urls.
     if urls = [] then ret empty_result
     else crawl_articles sc (\<lambda>url. url) (aastocks_fetch_one_article cfg L sc) urls empty_result))"

section \<open>Yahoo HK\<close>

definition YAHOO_HK_RSS_URL :: pystr where
  "YAHOO_HK_RSS_URL = u ''https://hk.finance.yahoo.com/news/rssindex''"
definition YAHOO_HK_URL_PREFIX_FILTER :: pystr where
  "YAHOO_HK_URL_PREFIX_FILTER = u ''hk.finance.yahoo.com/news/''"

definition get_previous_crawl_time :: "('z, instant option) sadi" where
  "get_previous_crawl_time =
     fetch_one (\<lambda>d. case map rn_created_at (filter (\<lambda>r. rn_source_name r = u ''YAHOO_HK'') (s_raw_news d)) of
       [] \<Rightarrow> None | t # ts \<Rightarrow> Some (fold max ts t))"

text \<open>Whether the gap is logged; nothing else depends on it.\<close>

definition check_coverage_gap :: "feed_entry list \<Rightarrow> ('z, bool) crawl" where
  "check_coverage_gap entries =
     (case List.map_filter fe_published_at entries of
        [] \<Rightarrow> ret False
      | t # ts \<Rightarrow> bind get_previous_crawl_time (\<lambda>previous.
          ret (case previous of None \<Rightarrow> False | Some p \<Rightarrow> fold min ts t > p)))"

definition yahoo_fetch_one_article ::
  "crawl_config \<Rightarrow> page_lib \<Rightarrow> crawl_source_config \<Rightarrow> feed_entry \<Rightarrow> ('z, crawl_outcome) crawl" where
  "yahoo_fetch_one_article cfg L sc entry =
     fetch_article cfg L sc (fe_url entry) (\<lambda>response.
       extracted (fe_url entry) (extract_body_auto L (pg_text response)) (\<lambda>body.
         ret (Success
           \<lparr> si_title = fe_title entry, si_body = body, si_source_url = fe_url entry,
             si_published_at = fe_published_at entry, si_stock_codes = None \<rparr>)))"

definition yahoo_run :: "crawl_config \<Rightarrow> page_lib \<Rightarrow> crawl_source_config \<Rightarrow> ('z, crawl_result) crawl" where
  "yahoo_run cfg L sc =
     bind (try_except (fetch_rss YAHOO_HK_RSS_URL)
            (\<lambda>exc. case exc of
               Sadi FeedFetchException d \<Rightarrow> raise (fatal (u ''Yahoo HK RSS fetch failed: '') exc L)
             | _ \<Rightarrow> raise exc)) (\<lambda>entries.
     let filtered = filter (\<lambda>e. py_contains YAHOO_HK_URL_PREFIX_FILTER (fe_url e)) entries
     in seq (check_coverage_gap filtered)
          (if filtered = [] then ret empty_result
           else crawl_articles sc fe_url (yahoo_fetch_one_article cfg L sc) filtered empty_result))"

end
