(* ===== verification/Sadi_Hkex.thy ===== *)
theory Sadi_Hkex
  imports Sadi_Crawlers
begin

text \<open>
  \<^verbatim>\<open>app/crawl/crawlers/hkex_crawler.py\<close>: the paging through HKEX's filings in a browser, the reading of
  the table's rows, and the download of the PDFs in the worker pool. The browser is part of the world
  (\<open>browser_session\<close>): what its page answers.
\<close>

section \<open>Constants\<close>

definition HKEX_BASE_URL :: pystr where
  "HKEX_BASE_URL = u ''https://www1.hkexnews.hk''"

definition hkex_search_url :: "nat \<times> nat \<times> nat \<Rightarrow> pystr" where
  "hkex_search_url = (\<lambda>(y, m, d). (let s = pad_digits 4 y @ pad_digits 2 m @ pad_digits 2 d in
     u ''https://www1.hkexnews.hk/search/titlesearch.xhtml''
     @ u ''?lang=EN&category=0&market=SEHK&searchType=0&stockId=''
     @ u ''&from='' @ s @ u ''&to='' @ s @ u ''&title=''))"

definition MAX_LOAD_MORE_CLICKS :: nat where "MAX_LOAD_MORE_CLICKS = 30"

record hkex_announcement =
  ha_pdf_url :: pystr
  ha_title :: pystr
  ha_published_at :: "instant option"
  ha_stock_codes :: "pystr list"

section \<open>Parsing\<close>

text \<open>\<^verbatim>\<open>(\d{2}/\d{2}/\d{4} \d{2}:\d{2})\<close>.\<close>

abbreviation dig_rx :: "nat \<Rightarrow> rx" where "dig_rx n \<equiv> Rep (Sat py_isdecimal) n (Some n)"

definition RELEASE_TIME_PATTERN :: rx where
  "RELEASE_TIME_PATTERN = Grp 1 (Cat (dig_rx 2) (Cat (chr_rx 47) (Cat (dig_rx 2) (Cat (chr_rx 47) (Cat (dig_rx 4)
     (Cat (chr_rx 32) (Cat (dig_rx 2) (Cat (chr_rx 58) (dig_rx 2)))))))))"

text \<open>The two digits of a field of \<^verbatim>\<open>strptime\<close>: the first one is ASCII, the second any decimal digit where
  the field's pattern has \<^verbatim>\<open>\d\<close>.\<close>

definition two_digits :: "nat \<Rightarrow> nat \<Rightarrow> nat" where
  "two_digits a b = decimal_int [a, b]"

definition strptime_day :: "nat \<Rightarrow> nat \<Rightarrow> bool" where
  "strptime_day a b \<longleftrightarrow> a = 51 \<and> (b = 48 \<or> b = 49) \<or> (a = 49 \<or> a = 50) \<and> py_isdecimal b \<or> a = 48 \<and> 49 \<le> b \<and> b \<le> 57"

definition strptime_month :: "nat \<Rightarrow> nat \<Rightarrow> bool" where
  "strptime_month a b \<longleftrightarrow> a = 49 \<and> 48 \<le> b \<and> b \<le> 50 \<or> a = 48 \<and> 49 \<le> b \<and> b \<le> 57"

definition strptime_hour :: "nat \<Rightarrow> nat \<Rightarrow> bool" where
  "strptime_hour a b \<longleftrightarrow> a = 50 \<and> 48 \<le> b \<and> b \<le> 51 \<or> (a = 48 \<or> a = 49) \<and> py_isdecimal b"

definition strptime_minute :: "nat \<Rightarrow> nat \<Rightarrow> bool" where
  "strptime_minute a b \<longleftrightarrow> 48 \<le> a \<and> a \<le> 53 \<and> py_isdecimal b"

text \<open>\<^verbatim>\<open>strptime(s, "%d/%m/%Y %H:%M")\<close> of a text the pattern has found, in Hong Kong time. A text that is no
  date raises ValueError, an instant before the year 1 OverflowError.\<close>

definition parse_hkt :: "pystr \<Rightarrow> sadi_exn + instant" where
  "parse_hkt s =
     (if strptime_day (s ! 0) (s ! 1) \<and> strptime_month (s ! 3) (s ! 4)
         \<and> strptime_hour (s ! 11) (s ! 12) \<and> strptime_minute (s ! 14) (s ! 15)
      then hkt_instant (decimal_int (slice s 6 10)) (two_digits (s ! 3) (s ! 4)) (two_digits (s ! 0) (s ! 1))
             (two_digits (s ! 11) (s ! 12)) (two_digits (s ! 14) (s ! 15))
      else Inl (Lib (Py ValueError)))"

definition parse_release_time :: "pystr \<Rightarrow> sadi_exn + instant" where
  "parse_release_time raw = (case rx_search RELEASE_TIME_PATTERN raw of
       None \<Rightarrow> Inl (Lib (Py ValueError))
     | Some (i, t) \<Rightarrow> (case rx_group raw t 1 of None \<Rightarrow> Inl (Lib (Py ValueError)) | Some s \<Rightarrow> parse_hkt s))"

text \<open>\<^verbatim>\<open>(\d+)\D+(\d+)\<close>.\<close>

definition PAGINATION_PATTERN :: rx where
  "PAGINATION_PATTERN =
     Cat (Grp 1 (plus_rx (Sat py_isdecimal))) (Cat (plus_rx (Sat (\<lambda>c. \<not> py_isdecimal c))) (Grp 2 (plus_rx (Sat py_isdecimal))))"

definition parse_pagination_counts :: "pystr \<Rightarrow> sadi_exn + (nat \<times> nat)" where
  "parse_pagination_counts t = (case rx_search PAGINATION_PATTERN t of
       None \<Rightarrow> Inl (Lib (Py ValueError))
     | Some (i, m) \<Rightarrow> Inr (group_int t m 1, group_int t m 2))"

definition parse_stock_codes :: "pystr \<Rightarrow> pystr list" where
  "parse_stock_codes raw =
     (if raw = [] then []
      else filter (\<lambda>t. t \<noteq> []) (rx_split (plus_rx (Sat (\<lambda>c. py_isspace c \<or> c = 44))) (py_strip raw)))"

section \<open>Phase 1: the announcements\<close>

definition text_or_empty :: "pystr option \<Rightarrow> pystr" where
  "text_or_empty t = (case t of None \<Rightarrow> [] | Some x \<Rightarrow> x)"

text \<open>\<^verbatim>\<open>_extract_row\<close>; None for a row that is dropped.\<close>

definition extract_row :: "hkex_row \<Rightarrow> ('z, hkex_announcement option) crawl" where
  "extract_row row = (case hr_pdf_link row of
       None \<Rightarrow> ret None
     | Some None \<Rightarrow> ret None
     | Some (Some href) \<Rightarrow>
         if href = [] then ret None
         else bind (try_except
                 (bind (of_sum (parse_release_time (py_strip (text_or_empty (hr_release_time row))))) (\<lambda>t. ret (Some t)))
                 (\<lambda>exc. if exc = Lib (Py ValueError) then ret None else raise exc)) (\<lambda>published_at.
              ret (Some \<lparr> ha_pdf_url = full_url HKEX_BASE_URL href,
                          ha_title = py_strip (text_or_empty (hr_headline row)),
                          ha_published_at = published_at,
                          ha_stock_codes = parse_stock_codes (text_or_empty (hr_stock_code row)) \<rparr>)))"

definition check_failure :: "sadi_exn option \<Rightarrow> ('z, unit) crawl" where
  "check_failure f = (case f of None \<Rightarrow> ret () | Some e \<Rightarrow> raise e)"

text \<open>The clicks that are left, and the number of those done.\<close>

primrec load_more :: "browser_session \<Rightarrow> nat \<Rightarrow> nat \<Rightarrow> ('z, nat) crawl" where
  "load_more b 0 k = ret k"
| "load_more b (Suc left) k =
     bind (of_sum (bs_counter b k)) (\<lambda>t.
     bind (of_sum (parse_pagination_counts (text_or_empty t))) (\<lambda>(showing, all_rows).
     if showing \<ge> all_rows then ret k
     else seq (check_failure (bs_click b k)) (load_more b left (Suc k))))"

text \<open>\<^verbatim>\<open>try: m finally: ...\<close>, where the cleaning up may fail: its failure takes the place of what came before.\<close>

definition finally_do :: "sadi_exn option \<Rightarrow> ('z, 'a) crawl \<Rightarrow> ('z, 'a) crawl" where
  "finally_do failure m =
     bind (try_except m (\<lambda>e. seq (check_failure failure) (raise e))) (\<lambda>x.
     seq (check_failure failure) (ret x))"

definition collect_announcements :: "browser_session \<Rightarrow> ('z, hkex_announcement list) crawl" where
  "collect_announcements b =
     seq (check_failure (bs_context b))
      (finally_do (bs_release b)
        (seq (check_failure (bs_goto b))
        (seq (load_more b MAX_LOAD_MORE_CLICKS 0)
        (bind (of_sum (bs_rows b)) (\<lambda>rows.
         bind (map_io (\<lambda>row. bind (of_sum row) extract_row) rows) (\<lambda>parsed. ret (List.map_filter id parsed)))))))"

definition hkex_phase1 :: "page_lib \<Rightarrow> nat \<times> nat \<times> nat \<Rightarrow> ('z, hkex_announcement list) crawl" where
  "hkex_phase1 L target_date =
     bind (get_w (\<lambda>w. d_browser w (hkex_search_url target_date))) (\<lambda>b.
     seq (check_failure (bs_start b))
      (finally_do (bs_stop b)
        (try_except (collect_announcements b)
          (\<lambda>exc. case exc of
             Sadi CrawlFatalException d \<Rightarrow> raise exc
           | _ \<Rightarrow> if sadi_is_exception exc
                  then raise (fatal (u ''HKEX Phase 1 (playwright pagination) failed: '') exc L)
                  else raise exc))))"

section \<open>Phase 2: the PDFs\<close>

definition pdf_outcome :: "hkex_announcement \<Rightarrow> pystr \<Rightarrow> crawl_outcome" where
  "pdf_outcome a body =
     (if py_strip body = [] then Left_out
      else Success \<lparr> si_title = ha_title a, si_body = py_strip body, si_source_url = ha_pdf_url a,
                     si_published_at = ha_published_at a, si_stock_codes = Some (ha_stock_codes a) \<rparr>)"

definition hkex_fetch_one_pdf ::
  "crawl_config \<Rightarrow> page_lib \<Rightarrow> crawl_source_config \<Rightarrow> hkex_announcement \<Rightarrow> ('z, crawl_outcome) crawl" where
  "hkex_fetch_one_pdf cfg L sc a =
     fetch_article cfg L sc (ha_pdf_url a) (\<lambda>response.
       try_except
         (bind (parse_pdf L (pg_content response)) (\<lambda>body. ret (pdf_outcome a body)))
         (\<lambda>exc. case exc of
            Sadi PdfEncryptedException d \<Rightarrow> ret (fail_item (ha_pdf_url a) PDF_ENCRYPTED 1)
          | Sadi PdfParseException d \<Rightarrow> ret (fail_item (ha_pdf_url a) PDF_PARSE_ERROR 1)
          | _ \<Rightarrow> if sadi_is_exception exc then ret (fail_item (ha_pdf_url a) SADI_PARSE_ERROR 1) else raise exc))"

definition fetch_pdfs ::
  "crawl_config \<Rightarrow> page_lib \<Rightarrow> crawl_source_config \<Rightarrow> hkex_announcement list \<Rightarrow> crawl_result
     \<Rightarrow> ('z, crawl_result) crawl" where
  "fetch_pdfs cfg L sc announcements result =
     (if announcements = [] then ret result
      else crawl_articles sc ha_pdf_url (hkex_fetch_one_pdf cfg L sc) announcements result)"

text \<open>A date is a year, a month and a day; without one it is today's, in UTC.\<close>

definition hkex_run ::
  "crawl_config \<Rightarrow> page_lib \<Rightarrow> crawl_source_config \<Rightarrow> (nat \<times> nat \<times> nat) option \<Rightarrow> ('z, crawl_result) crawl" where
  "hkex_run cfg L sc crawl_date =
     bind (case crawl_date of
             Some d \<Rightarrow> ret d
           | None \<Rightarrow> get_w (\<lambda>w. date_of_days (nat (d_now w div us_per_day)))) (\<lambda>target_date.
     bind (hkex_phase1 L target_date) (\<lambda>announcements. fetch_pdfs cfg L sc announcements empty_result))"

end
