(* ===== verification/Sadi_Text.thy ===== *)
theory Sadi_Text
  imports Sadi_World Py_Regex
begin

text \<open>
  \<^verbatim>\<open>app/common/text_utils.py\<close>: the normalisation of titles and bodies, shown to be the words of the
  text joined by single spaces, and the hash that identifies a title. Unicode normalisation and
  SHA-256 are parameters.
\<close>

section \<open>Operations\<close>

text \<open>\<open>nfkc\<close> is \<^verbatim>\<open>unicodedata.normalize("NFKC", text)\<close>, None when it raises.\<close>

definition normalise :: "(pystr \<Rightarrow> pystr option) \<Rightarrow> pystr \<Rightarrow> pystr" where
  "normalise nfkc txt = (case nfkc txt of
       None \<Rightarrow> txt
     | Some normalised \<Rightarrow> py_strip (rx_sub (plus_rx (Sat py_isspace)) [32] normalised))"

text \<open>\<^verbatim>\<open>text.encode("utf-8")\<close>: a surrogate code point has no encoding.\<close>

definition utf8_char :: "nat \<Rightarrow> nat list" where
  "utf8_char c =
     (if c < 128 then [c]
      else if c < 2048 then [192 + c div 64, 128 + c mod 64]
      else if c < 65536 then [224 + c div 4096, 128 + c div 64 mod 64, 128 + c mod 64]
      else [240 + c div 262144, 128 + c div 4096 mod 64, 128 + c div 64 mod 64, 128 + c mod 64])"

definition is_surrogate :: "nat \<Rightarrow> bool" where
  "is_surrogate c \<longleftrightarrow> 55296 \<le> c \<and> c \<le> 57343"

definition utf8_encode :: "pystr \<Rightarrow> sadi_exn + nat list" where
  "utf8_encode s = (if list_ex is_surrogate s then Inl (Lib (Py ValueError)) else Inr (concat (map utf8_char s)))"

text \<open>\<open>sha256\<close> gives the hexadecimal digest of a byte string.\<close>

definition compute_hash :: "(nat list \<Rightarrow> pystr) \<Rightarrow> pystr \<Rightarrow> sadi_exn + pystr" where
  "compute_hash sha256 txt = map_sum id sha256 (utf8_encode txt)"

section \<open>Normalised text\<close>

lemma py_join_Cons: "ws \<noteq> [] \<Longrightarrow> py_join sep (w # ws) = w @ sep @ py_join sep ws"
  by (cases ws) simp_all

lemma py_words_aux_plain: "w \<in> set (py_words_aux acc s) \<Longrightarrow> \<forall>c \<in> set acc. \<not> py_isspace c \<Longrightarrow> \<forall>c \<in> set w. \<not> py_isspace c"
  by (induction acc s rule: py_words_aux.induct) (auto split: if_splits)

lemma py_words_plain: "w \<in> set (py_words s) \<Longrightarrow> \<forall>c \<in> set w. \<not> py_isspace c"
  unfolding py_words_def by (rule py_words_aux_plain) auto

lemma py_words_aux_acc: "acc \<noteq> [] \<Longrightarrow> py_words_aux acc s \<noteq> []"
  by (induction acc s rule: py_words_aux.induct) auto

text \<open>What the substitution leaves is the joined words, with at most a space on either side.\<close>

lemma squeeze_words:
  "(acc \<noteq> [] \<longrightarrow> (\<exists>b \<in> {[], [32]}. rev acc @ squeeze py_isspace [32] False s = py_join [32] (py_words_aux acc s) @ b))
   \<and> (acc = [] \<longrightarrow> (\<exists>b \<in> {[], [32]}. squeeze py_isspace [32] True s = py_join [32] (py_words_aux [] s) @ b
        \<and> (py_words_aux [] s = [] \<longrightarrow> b = [])))"
proof (induction acc s rule: py_words_aux.induct)
  case (1 acc)
  then show ?case by simp
next
  case (2 acc c cs)
  show ?case
  proof (cases "py_isspace c")
    case True
    then have IH: "\<exists>b \<in> {[], [32]}. squeeze py_isspace [32] True cs = py_join [32] (py_words_aux [] cs) @ b
        \<and> (py_words_aux [] cs = [] \<longrightarrow> b = [])"
      using "2.IH"(1) by simp
    show ?thesis
    proof (cases "acc = []")
      case True
      with IH \<open>py_isspace c\<close> show ?thesis by simp
    next
      case False
      from IH obtain b where b: "b \<in> {[], [32]}"
        "squeeze py_isspace [32] True cs = py_join [32] (py_words_aux [] cs) @ b"
        "py_words_aux [] cs = [] \<longrightarrow> b = []" by blast
      show ?thesis
      proof (cases "py_words_aux [] cs = []")
        case True
        with b False \<open>py_isspace c\<close> show ?thesis by simp
      next
        case words: False
        with b False \<open>py_isspace c\<close> show ?thesis by (auto simp: py_join_Cons)
      qed
    qed
  next
    case False
    then have "\<exists>b \<in> {[], [32]}. rev (c # acc) @ squeeze py_isspace [32] False cs
        = py_join [32] (py_words_aux (c # acc) cs) @ b"
      using "2.IH"(2) by simp
    with False py_words_aux_acc [of "[c]" cs] show ?thesis by auto
  qed
qed

lemma squeeze_lead: "squeeze p new False s = (if s \<noteq> [] \<and> p (hd s) then new else []) @ squeeze p new True s"
  by (cases s) auto

lemma py_join_words_ends:
  "ws \<noteq> [] \<Longrightarrow> \<forall>w \<in> set ws. w \<noteq> [] \<Longrightarrow>
     py_join sep ws \<noteq> [] \<and> hd (py_join sep ws) = hd (hd ws) \<and> last (py_join sep ws) = last (last ws)"
  by (induction sep ws rule: py_join.induct) auto

lemma py_strip_around:
  "\<forall>c \<in> set a \<union> set b. py_isspace c \<Longrightarrow> m = [] \<or> \<not> py_isspace (hd m) \<and> \<not> py_isspace (last m) \<Longrightarrow>
     py_strip (a @ m @ b) = m"
proof -
  assume ab: "\<forall>c \<in> set a \<union> set b. py_isspace c" and m: "m = [] \<or> \<not> py_isspace (hd m) \<and> \<not> py_isspace (last m)"
  show ?thesis
  proof (cases "m = []")
    case True
    with ab show ?thesis by (auto simp: py_strip_def dest!: set_dropWhileD)
  next
    case False
    with m have "\<not> py_isspace (hd m)" "\<not> py_isspace (last m)" by auto
    with False have d: "dropWhile py_isspace (m @ b) = m @ b" and r: "dropWhile py_isspace (rev m) = rev m"
      by (simp_all add: dropWhile_eq_self_iff hd_rev)
    from ab have "dropWhile py_isspace (a @ m @ b) = m @ b"
      by (subst dropWhile_append2) (auto simp: d)
    moreover from ab have "dropWhile py_isspace (rev b @ rev m) = rev m"
      by (subst dropWhile_append2) (auto simp: r)
    ultimately show ?thesis by (simp add: py_strip_def)
  qed
qed

lemma py_words_ends: "py_words s = [] \<or> \<not> py_isspace (hd (py_join [32] (py_words s))) \<and> \<not> py_isspace (last (py_join [32] (py_words s)))"
proof (cases "py_words s = []")
  case False
  then have "hd (py_words s) \<in> set (py_words s)" "last (py_words s) \<in> set (py_words s)" by simp_all
  then have "hd (hd (py_words s)) \<in> set (hd (py_words s))" "last (last (py_words s)) \<in> set (last (py_words s))"
    by (auto dest: py_words_ne)
  then have "\<not> py_isspace (hd (hd (py_words s)))" "\<not> py_isspace (last (last (py_words s)))"
    using py_words_plain \<open>hd (py_words s) \<in> set (py_words s)\<close> \<open>last (py_words s) \<in> set (py_words s)\<close> by blast+
  moreover have "\<forall>w \<in> set (py_words s). w \<noteq> []" using py_words_ne by blast
  ultimately show ?thesis using py_join_words_ends [OF False, of "[32]"] by simp
qed simp

lemma space_32: "py_isspace 32"
  by (simp add: py_isspace_def)

lemma collapse_words: "py_strip (rx_sub (plus_rx (Sat py_isspace)) [32] s) = py_join [32] (py_words s)"
proof -
  obtain b where b: "b \<in> {[], [32]}" "squeeze py_isspace [32] True s = py_join [32] (py_words s) @ b"
    "py_words s = [] \<longrightarrow> b = []"
    using squeeze_words [of "[]" s] unfolding py_words_def by blast
  define a :: pystr where "a = (if s \<noteq> [] \<and> py_isspace (hd s) then [32] else [])"
  have "rx_sub (plus_rx (Sat py_isspace)) [32] s = a @ squeeze py_isspace [32] True s"
    unfolding a_def rx_sub_run by (rule squeeze_lead)
  then have eq: "rx_sub (plus_rx (Sat py_isspace)) [32] s = a @ py_join [32] (py_words s) @ b"
    unfolding b(2) .
  have sp: "\<forall>c \<in> set a \<union> set b. py_isspace c"
    unfolding a_def using b(1) by (cases "s \<noteq> [] \<and> py_isspace (hd s)") (auto simp: space_32)
  have "py_join [32] (py_words s) = [] \<or> \<not> py_isspace (hd (py_join [32] (py_words s)))
      \<and> \<not> py_isspace (last (py_join [32] (py_words s)))"
    using py_words_ends [of s] by (elim disjE) simp_all
  then show ?thesis unfolding eq by (rule py_strip_around [OF sp])
qed

text \<open>Normalising a text is Python's \<^verbatim>\<open>" ".join(text.split())\<close> of its NFKC form: no leading or trailing white
  space, one space between words; a text that has no NFKC form is left as it is.\<close>

theorem normalise_is_split_join:
  "normalise nfkc txt = (case nfkc txt of None \<Rightarrow> txt | Some n \<Rightarrow> py_join [32] (py_words n))"
  by (simp add: normalise_def collapse_words split: option.splits)

end
