(* ===== verification/Sadi_Crawl_Service.thy ===== *)
theory Sadi_Crawl_Service
  imports Sadi_Hkex Sadi_Text
begin

text \<open>
  \<^verbatim>\<open>app/crawl/crawl_service.py\<close>: one crawl execution. The crawler of the source runs, its failures and its
  articles are stored, the new articles announced on \<^verbatim>\<open>stream:raw_news_inserted\<close>, and the end of the
  execution is announced on \<^verbatim>\<open>stream:crawl_completed\<close>.
\<close>

section \<open>Sources\<close>

datatype crawl_source_name = HKEX | MINGPAO | AASTOCKS | YAHOO_HK

fun source_value :: "crawl_source_name \<Rightarrow> pystr" where
  "source_value HKEX = u ''HKEX''"
| "source_value MINGPAO = u ''MINGPAO''"
| "source_value AASTOCKS = u ''AASTOCKS''"
| "source_value YAHOO_HK = u ''YAHOO_HK''"

text \<open>The libraries: those of the parsers, Unicode normalisation, SHA-256.\<close>

record crawl_lib =
  xl_parse :: page_lib
  xl_nfkc :: "pystr \<Rightarrow> pystr option"
  xl_sha256 :: "nat list \<Rightarrow> pystr"

definition crawler_run ::
  "crawl_config \<Rightarrow> page_lib \<Rightarrow> crawl_source_name \<Rightarrow> crawl_source_config \<Rightarrow> (nat \<times> nat \<times> nat) option
     \<Rightarrow> ('z, crawl_result) crawl" where
  "crawler_run cfg L source sc crawl_date = (case source of
       HKEX \<Rightarrow> hkex_run cfg L sc crawl_date
     | MINGPAO \<Rightarrow> mingpao_run L
     | AASTOCKS \<Rightarrow> aastocks_run cfg L sc
     | YAHOO_HK \<Rightarrow> yahoo_run cfg L sc)"

text \<open>\<^verbatim>\<open>_create_crawler\<close>: the source's settings; a source without any raises KeyError.\<close>

definition create_crawler :: "crawl_config \<Rightarrow> crawl_source_name \<Rightarrow> ('z, crawl_source_config) crawl" where
  "create_crawler cfg source = (case map_of (cr_sources cfg) (source_value source) of
       None \<Rightarrow> raise (Lib (Py KeyError)) | Some sc \<Rightarrow> ret sc)"

section \<open>Statements\<close>

text \<open>\<^verbatim>\<open>json.dumps\<close> of a text in ASCII, and of \<^verbatim>\<open>{"stock_code": codes}\<close>.\<close>

definition json_hex :: "nat \<Rightarrow> pystr" where
  "json_hex c = 92 # 117 # hex_digits 4 c"

definition json_char :: "nat \<Rightarrow> pystr" where
  "json_char c =
     (if c = 34 then [92, 34] else if c = 92 then [92, 92] else if c = 10 then [92, 110]
      else if c = 13 then [92, 114] else if c = 9 then [92, 116] else if c = 12 then [92, 102]
      else if c = 8 then [92, 98] else if 32 \<le> c \<and> c < 127 then [c]
      else if c < 65536 then json_hex c
      else json_hex (55296 + (c - 65536) div 1024) @ json_hex (56320 + (c - 65536) mod 1024))"

definition json_text :: "pystr \<Rightarrow> pystr" where
  "json_text s = 34 # concat (map json_char s) @ [34]"

definition dumps_metadata :: "pystr list \<Rightarrow> pystr" where
  "dumps_metadata codes =
     u ''{'' @ json_text (u ''stock_code'') @ u '': ['' @ py_join (u '', '') (map json_text codes) @ u '']}''"

text \<open>\<^verbatim>\<open>_INSERT_RAW_NEWS_SQL\<close>: a row with the same address makes it a no-op that returns no row; any other
  conflict is an error.\<close>

definition insert_raw_news_stmt :: "raw_row \<Rightarrow> uuid option sadi_stmt" where
  "insert_raw_news_stmt r d =
     (if rn_source_url r \<in> rn_source_url ` set (s_raw_news d) then (Inr None, d)
      else if rn_raw_id r \<in> rn_raw_id ` set (s_raw_news d)
      then (Inl (Asyncpg (PgUniqueViolation (Some (u ''raw_news_pkey'')) (u ''duplicate key''))), d)
      else if rn_raw_hash r \<in> rn_raw_hash ` set (s_raw_news d)
      then (Inl (Asyncpg (PgUniqueViolation (Some (u ''uq_raw_news_raw_hash'')) (u ''duplicate key''))), d)
      else (Inr (Some (rn_raw_id r)), d\<lparr> s_raw_news := s_raw_news d @ [r] \<rparr>))"

definition insert_crawl_error_stmt :: "crawl_error_log \<Rightarrow> unit sadi_stmt" where
  "insert_crawl_error_stmt e d =
     (if (case el_execution_id e of None \<Rightarrow> False | Some x \<Rightarrow> 100 < length x)
      then (Inl (Asyncpg (PgDataError (u ''value too long''))), d)
      else if el_error_id e \<in> el_error_id ` set (s_crawl_error_log d)
      then (Inl (Asyncpg (PgUniqueViolation (Some (u ''crawl_error_log_pkey'')) (u ''duplicate key''))), d)
      else (Inr (), d\<lparr> s_crawl_error_log := s_crawl_error_log d @ [e] \<rparr>))"

section \<open>Storing the result\<close>

text \<open>\<^verbatim>\<open>except Exception\<close>: what it logs is left out.\<close>

definition or_else :: "('w, sadi_exn, 'a) io \<Rightarrow> 'a \<Rightarrow> ('w, sadi_exn, 'a) io" where
  "or_else m x = try_except m (\<lambda>exc. if sadi_is_exception exc then ret x else raise exc)"

definition raw_inserted_message :: "uuid \<Rightarrow> fields" where
  "raw_inserted_message i = [(u ''raw_id'', uuid_str i)]"

text \<open>One article. A conflict and a failure skip the announcement.\<close>

definition persist_success ::
  "sadi_config \<Rightarrow> crawl_lib \<Rightarrow> crawl_source_name \<Rightarrow> crawl_success_item \<Rightarrow> ('z, unit) sadi" where
  "persist_success cfg L source item =
     bind sadi_uuid4 (\<lambda>raw_id.
     case compute_hash (xl_sha256 L) (normalise (xl_nfkc L) (si_title item)) of
       Inl e \<Rightarrow> ret ()
     | Inr raw_hash \<Rightarrow>
         bind (or_else (bind sadi_now (\<lambda>now. sadi_execute_returning (sg_db cfg) (insert_raw_news_stmt
           \<lparr> rn_raw_id = raw_id, rn_source_name = source_value source, rn_source_url = si_source_url item,
             rn_title = si_title item, rn_body = si_body item, rn_published_at = si_published_at item,
             rn_created_at = now, rn_raw_hash = raw_hash,
             rn_extra_metadata = map_option dumps_metadata (si_stock_codes item),
             rn_is_deleted = False, rn_deleted_reason = None \<rparr>))) None) (\<lambda>row.
         case row of
           None \<Rightarrow> ret ()
         | Some i \<Rightarrow> or_else (seq (sadi_publish STREAM_RAW_NEWS_INSERTED (raw_inserted_message raw_id)) (ret ())) ()))"

definition persist_successes ::
  "sadi_config \<Rightarrow> crawl_lib \<Rightarrow> crawl_source_name \<Rightarrow> crawl_success_item list \<Rightarrow> ('z, unit) sadi" where
  "persist_successes cfg L source successes = for_each successes (persist_success cfg L source)"

definition save_crawl_error ::
  "sadi_config \<Rightarrow> pystr \<Rightarrow> crawl_source_name \<Rightarrow> crawl_fail_item \<Rightarrow> ('z, unit) sadi" where
  "save_crawl_error cfg execution_id source failure =
     or_else (bind sadi_uuid4 (\<lambda>error_id. bind sadi_now (\<lambda>now.
       sadi_execute (sg_db cfg) (insert_crawl_error_stmt
         \<lparr> el_error_id = error_id, el_execution_id = Some execution_id, el_source_name = source_value source,
           el_url = fi_source_url failure, el_error_type = fi_error_type failure,
           el_error_code = fi_error_code failure, el_attempt_count = fi_attempt_count failure,
           el_created_at = now \<rparr>)))) ()"

definition persist_failures ::
  "sadi_config \<Rightarrow> pystr \<Rightarrow> crawl_source_name \<Rightarrow> crawl_fail_item list \<Rightarrow> ('z, unit) sadi" where
  "persist_failures cfg execution_id source failures = for_each failures (save_crawl_error cfg execution_id source)"

section \<open>An execution\<close>

definition completed_payload :: "pystr \<Rightarrow> pystr \<Rightarrow> pystr option \<Rightarrow> fields" where
  "completed_payload execution_id status error_detail =
     [(u ''execution_id'', execution_id), (u ''status'', status)]
     @ (case error_detail of None \<Rightarrow> [] | Some t \<Rightarrow> [(u ''error_detail'', t)])"

definition publish_crawl_completed :: "pystr \<Rightarrow> pystr \<Rightarrow> pystr option \<Rightarrow> ('z, unit) sadi" where
  "publish_crawl_completed execution_id status error_detail =
     seq (sadi_publish STREAM_CRAWL_COMPLETED (completed_payload execution_id status error_detail)) (ret ())"

text \<open>The body of the outer \<^verbatim>\<open>try\<close>; an unrecoverable failure of the source ends it early.\<close>

definition execute_body ::
  "sadi_config \<Rightarrow> crawl_lib \<Rightarrow> pystr \<Rightarrow> crawl_source_name \<Rightarrow> (nat \<times> nat \<times> nat) option \<Rightarrow> ('z, unit) crawl" where
  "execute_body cfg L execution_id source crawl_date =
     bind (create_crawler (sg_crawl cfg) source) (\<lambda>sc.
     bind (try_except
             (bind (crawler_run (sg_crawl cfg) (xl_parse L) source sc crawl_date) (\<lambda>result. ret (Inr result)))
             (\<lambda>exc. case exc of Sadi CrawlFatalException d \<Rightarrow> ret (Inl exc) | _ \<Rightarrow> raise exc)) (\<lambda>r.
     case r of
       Inl exc \<Rightarrow> publish_crawl_completed execution_id (u ''FAILED'') (Some (sadi_str (pl_str (xl_parse L)) exc))
     | Inr result \<Rightarrow>
         seq (persist_failures cfg execution_id source (cr_failures result))
         (seq (persist_successes cfg L source (cr_successes result))
              (publish_crawl_completed execution_id (u ''SUCCESS'') None))))"

definition crawl_execute ::
  "sadi_config \<Rightarrow> crawl_lib \<Rightarrow> pystr \<Rightarrow> crawl_source_name \<Rightarrow> (nat \<times> nat \<times> nat) option \<Rightarrow> ('z, unit) crawl" where
  "crawl_execute cfg L execution_id source crawl_date =
     try_except (execute_body cfg L execution_id source crawl_date)
       (\<lambda>exc. if sadi_is_exception exc
              then or_else (publish_crawl_completed execution_id (u ''FAILED'')
                     (Some (sadi_str (pl_str (xl_parse L)) exc))) ()
              else raise exc)"

end
