(* ===== verification/Sadi_Crawl_Inv.thy ===== *)
theory Sadi_Crawl_Inv
  imports Sadi_Triples Sadi_Crawl_Service
begin

text \<open>
  What a crawl does to the tables and the streams: the crawlers only read; an announced article is stored;
  what the two insertions and the two announcements keep, an execution keeps; and the end is announced.
\<close>

section \<open>Crawlers only read\<close>

text \<open>A preorder that a request, a used-up fault, a random number and a scheduling choice keep: no crawler
  breaks it.\<close>

locale crawl_reading = sadi_calls R for R :: "'z crawl_world_scheme \<Rightarrow> 'z crawl_world_scheme \<Rightarrow> bool" +
  assumes fault_keeps: "R w (w\<lparr> d_pg := tl (d_pg w) \<rparr>)"
    and request_keeps: "R w (w\<lparr> d_requests := n \<rparr>)"
    and choice_keeps: "R w (w\<lparr> d_choices := tl (d_choices w) \<rparr>)"
    and jitter_keeps: "R w (w\<lparr> d_jitter := tl (d_jitter w) \<rparr>)"
begin

lemma fetch_one_reads: "always R (fetch_one q)"
  unfolding fetch_one_def
  by (intro run_read_keeps always_pg_call) (auto simp: fault_keeps)

lemma page_get_reads: "always R (page_get url)"
  and feed_parse_reads: "always R (feed_parse url)"
  and next_choice_reads: "always R next_choice"
  by (simp_all add: always_def page_get_def feed_parse_def next_choice_def request_keeps choice_keeps)

lemma fetch_attempt_reads: "always R (fetch_attempt url)"
  unfolding fetch_attempt_def page_raise_for_status_def
  by (auto intro!: always_bind page_get_reads always_raise always_ret)

lemma fetch_attempts_reads: "always R (fetch_attempts lib_str cfg url n e)"
proof (induction lib_str cfg url n e rule: fetch_attempts.induct)
  case (1 lib_str cfg url n e)
  then show ?case
    by (subst fetch_attempts.simps)
      (auto intro!: always_try always_bind always_raise always_when
        fetch_attempt_reads sleep_keeps)
qed

lemma page_fetch_reads: "always R (page_fetch lib_str cfg url)"
  unfolding page_fetch_def by (rule fetch_attempts_reads)

lemma fetch_rss_reads: "always R (fetch_rss url)"
  unfolding fetch_rss_def by (auto intro!: always_bind feed_parse_reads always_raise always_ret)

lemma error_log_reads: "always R (is_url_in_error_log url)"
  unfolding is_url_in_error_log_def by (intro always_bind always_ret fetch_one_reads)

lemma gather_reads:
  assumes "\<And>i. always R (check i)" and "\<And>i. always R (fetch i)"
  shows "always R (gather check fetch permits ts result)"
  using assms
proof (induction check fetch permits ts result rule: gather.induct)
  case (1 check fetch permits ts result)
  show ?case
  proof (cases "ready_tasks permits ts = []")
    case True
    then show ?thesis by (subst gather.simps) (simp add: always_ret always_raise)
  next
    case False
    have "always R (case ts ! chosen_task s permits ts of
             Checking i \<Rightarrow> bind (check i) (\<lambda>skip.
               if skip then gather check fetch permits (remove_at (chosen_task s permits ts) ts) result
               else gather check fetch permits (ts[chosen_task s permits ts := Waiting_slot i]) result)
           | Waiting_slot i \<Rightarrow> gather check fetch (permits - 1) (ts[chosen_task s permits ts := Fetching i]) result
           | Fetching i \<Rightarrow> bind (fetch i) (\<lambda>outcome.
               gather check fetch (Suc permits) (remove_at (chosen_task s permits ts) ts) (add_outcome outcome result)))" for s
      using "1.IH" [OF False refl] "1.prems"
      by (cases "ts ! chosen_task s permits ts") (auto intro!: always_bind)
    with False show ?thesis
      by (subst gather.simps) (auto intro!: always_bind next_choice_reads simp: Let_def)
  qed
qed

lemma crawl_articles_reads:
  "(\<And>i. always R (fetch i)) \<Longrightarrow> always R (crawl_articles sc url_of fetch items result)"
  unfolding crawl_articles_def by (auto intro!: gather_reads error_log_reads always_raise)

lemma jitter_reads: "always R (jitter_sleep sc)"
  unfolding jitter_sleep_def Let_def
  by (intro always_bind sleep_keeps) (simp add: always_def jitter_keeps)

lemma fetch_article_reads:
  "(\<And>r. always R (parse r)) \<Longrightarrow> always R (fetch_article cfg L sc url parse)"
  unfolding fetch_article_def
  by (auto intro!: always_bind always_try jitter_reads page_fetch_reads always_ret
      always_raise split: sum.splits sadi_exn.splits sadi_class.splits)

lemma extracted_reads:
  "always R extract \<Longrightarrow> (\<And>b. always R (k b)) \<Longrightarrow> always R (extracted url extract k)"
  unfolding extracted_def
  by (auto intro!: always_bind always_try always_ret always_raise
      split: sum.splits option.splits)

lemma parsers_read:
  "always R (extract_body_css L html sel)" "always R (extract_body_auto L html)"
  "always R (extract_title L html)" "always R (parse_published_at L html)"
  "always R (extract_article_urls L html)"
  unfolding extract_body_css_def extract_body_auto_def extract_title_def parse_published_at_def extract_article_urls_def
  by (intro always_bind always_of_sum always_ret)+

lemma parse_pdf_reads: "always R (parse_pdf L content)"
  unfolding parse_pdf_def parse_primary_def parse_fallback_def
  by (auto intro!: always_bind always_try always_of_sum always_ret always_raise)

lemma mingpao_reads: "always R (mingpao_run L)"
  unfolding mingpao_run_def mingpao_process_entry_def
  by (auto intro!: always_bind always_try always_fold_io fetch_rss_reads error_log_reads
      always_ret always_raise split: sadi_exn.splits sadi_class.splits option.splits)

lemma aastocks_reads: "always R (aastocks_run cfg L sc)"
  unfolding aastocks_run_def aastocks_fetch_one_article_def
  by (auto intro!: always_bind always_try page_fetch_reads parsers_read crawl_articles_reads
      fetch_article_reads extracted_reads always_ret always_raise split: sadi_exn.splits sadi_class.splits)

lemma yahoo_reads: "always R (yahoo_run cfg L sc)"
proof -
  have g: "always R (check_coverage_gap es)" for es
    unfolding check_coverage_gap_def get_previous_crawl_time_def
    by (auto intro!: always_bind always_ret fetch_one_reads split: list.splits)
  show ?thesis
    unfolding yahoo_run_def yahoo_fetch_one_article_def Let_def
    by (auto intro!: always_bind always_try fetch_rss_reads g parsers_read crawl_articles_reads
        fetch_article_reads extracted_reads always_ret always_raise split: sadi_exn.splits sadi_class.splits)
qed

lemma check_failure_reads: "always R (check_failure f)"
  by (cases f) (simp_all add: check_failure_def always_ret always_raise)

lemma load_more_reads: "always R (load_more b left k)"
  by (induction left arbitrary: k)
    (auto intro!: always_bind always_of_sum always_ret check_failure_reads split: prod.splits)

lemma extract_row_reads: "always R (extract_row row)"
  unfolding extract_row_def
  by (auto intro!: always_bind always_try always_of_sum always_ret always_raise
      split: option.splits)

lemma finally_reads: "always R m \<Longrightarrow> always R (finally_do f m)"
  unfolding finally_do_def
  by (intro always_bind always_try check_failure_reads always_raise always_ret)

lemma hkex_reads: "always R (hkex_run cfg L sc date)"
proof -
  have c: "always R (collect_announcements b)" for b
    unfolding collect_announcements_def
    by (intro always_bind finally_reads check_failure_reads load_more_reads always_of_sum
        always_map_io extract_row_reads always_ret)
  have p: "always R (hkex_phase1 L d)" for d
    unfolding hkex_phase1_def
    by (auto intro!: always_bind finally_reads check_failure_reads always_try always_get_w
        always_raise c split: sadi_exn.splits sadi_class.splits)
  have f: "always R (hkex_fetch_one_pdf cfg L sc a)" for a
    unfolding hkex_fetch_one_pdf_def
    by (auto intro!: fetch_article_reads always_try always_bind parse_pdf_reads always_ret
        always_raise split: sadi_exn.splits sadi_class.splits)
  show ?thesis
    unfolding hkex_run_def fetch_pdfs_def
    by (auto intro!: always_bind always_ret always_get_w p crawl_articles_reads f split: option.splits)
qed

lemma crawler_reads: "always R (crawler_run cfg L source sc date)"
  unfolding crawler_run_def
  by (cases source) (simp_all add: hkex_reads mingpao_reads aastocks_reads yahoo_reads)

end

text \<open>In particular they leave the tables and the streams alone.\<close>

definition same_stores :: "'z sadi_world_scheme \<Rightarrow> 'z sadi_world_scheme \<Rightarrow> bool" where
  "same_stores w w' \<longleftrightarrow> d_db w' = d_db w \<and> d_streams w' = d_streams w \<and> d_rs w' = d_rs w"

interpretation reading: crawl_reading same_stores
  by unfold_locales (auto simp: same_stores_def)

lemma crawler_holds: "triple P (crawler_run cfg L source sc date) (\<lambda>_. P) P"
  by (rule triple_keeps, rule alwaysI) (auto dest!: alwaysD [OF reading.crawler_reads] simp: same_stores_def holds_def)

section \<open>An execution\<close>

lemma or_else_triple: "triple P m (\<lambda>_. P) P \<Longrightarrow> triple P (or_else m x) (\<lambda>_. P) P"
  unfolding or_else_def
  by (rule triple_try [where S = P]) (auto intro: triple_ret triple_raise)

lemma triple_for_each: "(\<And>x. x \<in> set xs \<Longrightarrow> triple P (f x) (\<lambda>_. P) P) \<Longrightarrow> triple P (for_each xs f) (\<lambda>_. P) P"
  by (rule valid_for_each)

lemma triple_uuid_now: "(\<And>i. triple P (f i) R E) \<Longrightarrow> triple P (bind sadi_uuid4 f) R E"
  "(\<And>t. triple P (g t) R E) \<Longrightarrow> triple P (bind sadi_now g) R E"
  by (auto simp: valid_def sadi_uuid4_def sadi_now_def get_w_def bind_def)

text \<open>A row that \<^verbatim>\<open>RETURNING\<close> gives back is stored.\<close>

definition raw_stored :: "uuid option \<Rightarrow> sadi_db \<Rightarrow> bool" where
  "raw_stored row d \<longleftrightarrow> (\<forall>i. row = Some i \<longrightarrow> i \<in> rn_raw_id ` set (s_raw_news d))"

lemma insert_raw_stored: "insert_raw_news_stmt r d = (Inr row, d') \<Longrightarrow> raw_stored row d' \<and> (row = Some i \<longrightarrow> i = rn_raw_id r)"
  by (auto simp: insert_raw_news_stmt_def raw_stored_def split: if_splits)

text \<open>What the two insertions and the two announcements keep; an article is announced only when stored.\<close>

definition crawl_keeps :: "(sadi_db \<Rightarrow> streams \<Rightarrow> bool) \<Rightarrow> bool" where
  "crawl_keeps P \<longleftrightarrow>
     (\<forall>r d ss. \<not> rn_is_deleted r \<longrightarrow> P d ss \<longrightarrow> P (snd (insert_raw_news_stmt r d)) ss)
     \<and> (\<forall>e d ss. P d ss \<longrightarrow> P (snd (insert_crawl_error_stmt e d)) ss)
     \<and> (\<forall>i d ss. P d ss \<longrightarrow> i \<in> rn_raw_id ` set (s_raw_news d)
          \<longrightarrow> P d (snd (xadd STREAM_RAW_NEWS_INSERTED (raw_inserted_message i) ss)))"

lemma insert_raw_triple:
  assumes P: "crawl_keeps P" and r: "\<not> rn_is_deleted r" "rn_raw_id r = i"
  shows "triple P (or_else (bind sadi_now (\<lambda>now. sadi_execute_returning cfg (insert_raw_news_stmt (r\<lparr> rn_created_at := now \<rparr>)))) None)
    (\<lambda>row d ss. P d ss \<and> (row \<noteq> None \<longrightarrow> i \<in> rn_raw_id ` set (s_raw_news d))) P"
proof -
  have at: "triple P (run_attempts cfg (sadi_pg_call (insert_raw_news_stmt (r\<lparr> rn_created_at := now \<rparr>))) 1)
      (\<lambda>row d ss. P d ss \<and> (row \<noteq> None \<longrightarrow> i \<in> rn_raw_id ` set (s_raw_news d))) P" for now
  proof (cases "int 1 \<le> sd_max_retry cfg")
    case True
    show ?thesis
    proof (rule triple_attempts [OF _ True], rule triple_pg)
      fix d ss row d'
      assume "P d ss" and s: "insert_raw_news_stmt (r\<lparr> rn_created_at := now \<rparr>) d = (Inr row, d')"
      have "\<not> rn_is_deleted (r\<lparr> rn_created_at := now \<rparr>)" using r by simp
      with P \<open>P d ss\<close> have "P (snd (insert_raw_news_stmt (r\<lparr> rn_created_at := now \<rparr>) d)) ss"
        unfolding crawl_keeps_def by blast
      with s have "P d' ss" by simp
      moreover have "row \<noteq> None \<longrightarrow> i \<in> rn_raw_id ` set (s_raw_news d')"
        using insert_raw_stored [OF s] r by (auto simp: raw_stored_def)
      ultimately show "P d' ss \<and> (row \<noteq> None \<longrightarrow> i \<in> rn_raw_id ` set (s_raw_news d'))" ..
    qed (use P r in \<open>simp add: crawl_keeps_def\<close>)
  next
    case False
    then show ?thesis by (subst run_attempts.simps) (simp add: triple_ret)
  qed
  show ?thesis unfolding or_else_def sadi_execute_returning_def run_with_retry_def
    by (rule triple_try [where S = P], rule triple_uuid_now(2), rule at) (auto intro: triple_ret triple_raise)
qed

lemma persist_success_triple:
  assumes P: "crawl_keeps P"
  shows "triple P (persist_success cfg L source item) (\<lambda>_. P) P"
  unfolding persist_success_def
proof (rule triple_uuid_now(1))
  fix raw_id
  define row0 where "row0 raw_hash = \<lparr> rn_raw_id = raw_id, rn_source_name = source_value source,
     rn_source_url = si_source_url item, rn_title = si_title item, rn_body = si_body item,
     rn_published_at = si_published_at item, rn_created_at = 0, rn_raw_hash = raw_hash,
     rn_extra_metadata = map_option dumps_metadata (si_stock_codes item), rn_is_deleted = False,
     rn_deleted_reason = None \<rparr>" for raw_hash
  have x: "P d (snd (xadd STREAM_RAW_NEWS_INSERTED (raw_inserted_message raw_id) ss))"
    if "P d ss \<and> raw_id \<in> rn_raw_id ` set (s_raw_news d)" for d ss
    using P that unfolding crawl_keeps_def by blast
  have pub: "triple (\<lambda>d ss. P d ss \<and> raw_id \<in> rn_raw_id ` set (s_raw_news d))
      (seq (sadi_publish STREAM_RAW_NEWS_INSERTED (raw_inserted_message raw_id)) (ret ())) (\<lambda>_. P) P"
  proof (rule triple_bind [where S = "\<lambda>_. P"])
    show "triple (\<lambda>d ss. P d ss \<and> raw_id \<in> rn_raw_id ` set (s_raw_news d))
        (sadi_publish STREAM_RAW_NEWS_INSERTED (raw_inserted_message raw_id)) (\<lambda>_. P) P"
    proof (rule triple_publish)
      fix d ss i ss'
      assume pre: "P d ss \<and> raw_id \<in> rn_raw_id ` set (s_raw_news d)"
        and s: "xadd STREAM_RAW_NEWS_INSERTED (raw_inserted_message raw_id) ss = (Inr i, ss')"
      from x [OF pre] s show "P d ss'" by simp
    qed (use x in simp_all)
  qed (simp add: triple_ret)
  show "triple P (case compute_hash (xl_sha256 L) (normalise (xl_nfkc L) (si_title item)) of
       Inl e \<Rightarrow> ret ()
     | Inr raw_hash \<Rightarrow>
         bind (or_else (bind sadi_now (\<lambda>now. sadi_execute_returning (sg_db cfg) (insert_raw_news_stmt
           \<lparr> rn_raw_id = raw_id, rn_source_name = source_value source, rn_source_url = si_source_url item,
             rn_title = si_title item, rn_body = si_body item, rn_published_at = si_published_at item,
             rn_created_at = now, rn_raw_hash = raw_hash,
             rn_extra_metadata = map_option dumps_metadata (si_stock_codes item),
             rn_is_deleted = False, rn_deleted_reason = None \<rparr>))) None) (\<lambda>row.
         case row of
           None \<Rightarrow> ret ()
         | Some i \<Rightarrow> or_else (seq (sadi_publish STREAM_RAW_NEWS_INSERTED (raw_inserted_message raw_id)) (ret ())) ())) (\<lambda>_. P) P"
  proof (cases "compute_hash (xl_sha256 L) (normalise (xl_nfkc L) (si_title item))")
    case (Inl e)
    then show ?thesis by (simp add: triple_ret)
  next
    case (Inr raw_hash)
    have ins: "triple P (or_else (bind sadi_now (\<lambda>now. sadi_execute_returning (sg_db cfg) (insert_raw_news_stmt
         ((row0 raw_hash)\<lparr> rn_created_at := now \<rparr>)))) None)
      (\<lambda>row d ss. P d ss \<and> (row \<noteq> None \<longrightarrow> raw_id \<in> rn_raw_id ` set (s_raw_news d))) P"
      by (rule insert_raw_triple [OF P]) (simp_all add: row0_def)
    have step: "triple (\<lambda>d ss. P d ss \<and> (row \<noteq> None \<longrightarrow> raw_id \<in> rn_raw_id ` set (s_raw_news d)))
       (case row of None \<Rightarrow> ret ()
         | Some i \<Rightarrow> or_else (seq (sadi_publish STREAM_RAW_NEWS_INSERTED (raw_inserted_message raw_id)) (ret ())) ())
       (\<lambda>_. P) P" for row :: "uuid option"
    proof (cases row)
      case None
      then show ?thesis by (simp add: triple_ret)
    next
      case (Some i)
      have "triple (\<lambda>d ss. P d ss \<and> raw_id \<in> rn_raw_id ` set (s_raw_news d))
        (or_else (seq (sadi_publish STREAM_RAW_NEWS_INSERTED (raw_inserted_message raw_id)) (ret ())) ()) (\<lambda>_. P) P"
        unfolding or_else_def by (rule triple_try [OF pub]) (auto intro: triple_ret triple_raise)
      with Some show ?thesis by simp
    qed
    from Inr show ?thesis using triple_bind [OF ins step] by (simp add: row0_def)
  qed
qed

lemma crawl_stores_triple:
  assumes P: "crawl_keeps P"
  shows "triple P (persist_failures cfg eid source fs) (\<lambda>_. P) P"
    and "triple P (persist_successes cfg L source ss) (\<lambda>_. P) P"
proof -
  have "triple P (save_crawl_error cfg eid source f) (\<lambda>_. P) P" for f
    unfolding save_crawl_error_def
    by (rule or_else_triple, rule triple_uuid_now(1), rule triple_uuid_now(2), rule triple_execute_keeps)
      (use P in \<open>simp add: crawl_keeps_def\<close>)
  then show "triple P (persist_failures cfg eid source fs) (\<lambda>_. P) P"
    unfolding persist_failures_def by (rule triple_for_each)
  show "triple P (persist_successes cfg L source ss) (\<lambda>_. P) P"
    unfolding persist_successes_def by (rule triple_for_each, rule persist_success_triple [OF P])
qed

end
