(* ===== verification/Sadi_Cleaning.thy ===== *)
theory Sadi_Cleaning
  imports Sadi_Text Sadi_Fetch
begin

text \<open>
  \<^verbatim>\<open>app/cleaner\<close>: the stream handler, the cleaning of one raw news record, and the service's loops: a
  reader and a reclaimer that put messages into a queue, and the workers that take them out.

  A worker's turn has two steps: it takes a message and checks the record (fetch, validation,
  normalisation, the test whether it is cleaned already); then it stores and announces the cleaned
  record and acknowledges the message. Other workers and loops may run between the two.
\<close>

section \<open>The stream handler\<close>

definition GROUP_NAME :: pystr where "GROUP_NAME = u ''sadi-cleaner''"
definition CONSUMER_NAME :: pystr where "CONSUMER_NAME = u ''sadi-cleaner-1''"

record clean_message =
  cm_message_id :: message_id
  cm_raw_id :: pystr

definition ensure_consumer_group :: "('z, unit) sadi" where
  "ensure_consumer_group = sadi_create_group STREAM_RAW_NEWS_INSERTED GROUP_NAME"

definition to_stream_message :: "sadi_entry \<Rightarrow> ('z, clean_message) sadi" where
  "to_stream_message entry = (case map_of (snd entry) (u ''raw_id'') of
       None \<Rightarrow> raise (Lib (Py KeyError))
     | Some r \<Rightarrow> ret \<lparr> cm_message_id = fst entry, cm_raw_id = r \<rparr>)"

definition to_stream_messages :: "sadi_entry list \<Rightarrow> ('z, clean_message list) sadi" where
  "to_stream_messages raw = map_io to_stream_message raw"

definition read_messages :: "('z, clean_message list) sadi" where
  "read_messages =
     bind (sadi_read_group STREAM_RAW_NEWS_INSERTED GROUP_NAME CONSUMER_NAME 10) to_stream_messages"

definition reclaim_pending :: "int \<Rightarrow> ('z, clean_message list) sadi" where
  "reclaim_pending min_idle_ms =
     bind (sadi_autoclaim STREAM_RAW_NEWS_INSERTED GROUP_NAME CONSUMER_NAME min_idle_ms 10) to_stream_messages"

definition handler_ack :: "message_id \<Rightarrow> ('z, unit) sadi" where
  "handler_ack mid = sadi_ack STREAM_RAW_NEWS_INSERTED GROUP_NAME mid"

definition cleaned_message :: "uuid \<Rightarrow> fields" where
  "cleaned_message i = [(u ''cleaned_id'', uuid_str i), (u ''v'', u ''1'')]"

definition publish_cleaned :: "uuid \<Rightarrow> ('z, unit) sadi" where
  "publish_cleaned i = seq (sadi_publish STREAM_RAW_NEWS_CLEANED (cleaned_message i)) (ret ())"

section \<open>Statements\<close>

text \<open>The libraries: Unicode normalisation, and \<^verbatim>\<open>json.loads\<close> of the metadata, None where it raises.\<close>

type_synonym metadata = "(pystr \<times> pystr list) list"

record clean_lib =
  kl_nfkc :: "pystr \<Rightarrow> pystr option"
  kl_loads :: "pystr \<Rightarrow> metadata option"

definition parse_extra_metadata :: "(pystr \<Rightarrow> metadata option) \<Rightarrow> pystr option \<Rightarrow> metadata option" where
  "parse_extra_metadata loads v = (case v of None \<Rightarrow> None | Some t \<Rightarrow> loads t)"

definition raw_of_row :: "(pystr \<Rightarrow> metadata option) \<Rightarrow> raw_row \<Rightarrow> metadata raw_news" where
  "raw_of_row loads r =
     \<lparr> rn_raw_id = rn_raw_id r, rn_source_name = rn_source_name r, rn_source_url = rn_source_url r,
       rn_title = rn_title r, rn_body = rn_body r, rn_published_at = rn_published_at r,
       rn_created_at = rn_created_at r, rn_raw_hash = rn_raw_hash r,
       rn_extra_metadata = parse_extra_metadata loads (rn_extra_metadata r),
       rn_is_deleted = rn_is_deleted r, rn_deleted_reason = rn_deleted_reason r \<rparr>"

definition fetch_raw_news :: "clean_lib \<Rightarrow> uuid \<Rightarrow> ('z, metadata raw_news option) sadi" where
  "fetch_raw_news L raw_id =
     bind (fetch_one (\<lambda>d. find (\<lambda>r. rn_raw_id r = raw_id \<and> \<not> rn_is_deleted r) (s_raw_news d))) (\<lambda>row.
     ret (map_option (raw_of_row (kl_loads L)) row))"

definition already_cleaned :: "uuid \<Rightarrow> ('z, bool) sadi" where
  "already_cleaned raw_id =
     bind (fetch_one (\<lambda>d. find (\<lambda>c. sc_raw_id c = raw_id) (s_cleaned_news d))) (\<lambda>row. ret (row \<noteq> None))"

definition mark_row :: "uuid \<Rightarrow> pystr \<Rightarrow> raw_row \<Rightarrow> raw_row" where
  "mark_row raw_id reason r =
     (if rn_raw_id r = raw_id then r\<lparr> rn_is_deleted := True, rn_deleted_reason := Some reason \<rparr> else r)"

definition mark_deleted_stmt :: "uuid \<Rightarrow> pystr \<Rightarrow> unit sadi_stmt" where
  "mark_deleted_stmt raw_id reason d =
     (Inr (), d\<lparr> s_raw_news := map (mark_row raw_id reason) (s_raw_news d) \<rparr>)"

definition mark_deleted :: "sadi_database_config \<Rightarrow> uuid \<Rightarrow> pystr \<Rightarrow> ('z, unit) sadi" where
  "mark_deleted cfg raw_id reason = sadi_execute cfg (mark_deleted_stmt raw_id reason)"

text \<open>The primary key and the reference to raw_news; raw_id is not unique here.\<close>

definition insert_cleaned_stmt :: "sadi_cleaned_news \<Rightarrow> unit sadi_stmt" where
  "insert_cleaned_stmt c d =
     (if sc_cleaned_id c \<in> sc_cleaned_id ` set (s_cleaned_news d)
      then (Inl (Asyncpg (PgUniqueViolation (Some (u ''cleaned_news_pkey'')) (u ''duplicate key''))), d)
      else if sc_raw_id c \<notin> rn_raw_id ` set (s_raw_news d)
      then (Inl (Asyncpg (PgError (u ''foreign key violation''))), d)
      else (Inr (), d\<lparr> s_cleaned_news := s_cleaned_news d @ [c] \<rparr>))"

definition insert_cleaned_news :: "sadi_database_config \<Rightarrow> sadi_cleaned_news \<Rightarrow> ('z, unit) sadi" where
  "insert_cleaned_news cfg c = sadi_execute cfg (insert_cleaned_stmt c)"

section \<open>Cleaning one record\<close>

definition EMPTY_FIELD :: pystr where "EMPTY_FIELD = u ''EMPTY_FIELD''"
definition BODY_TOO_SHORT :: pystr where "BODY_TOO_SHORT = u ''BODY_TOO_SHORT''"

text \<open>Steps 1 to 4: the cleaned title and body of a record still to be stored.\<close>

definition process_check ::
  "sadi_config \<Rightarrow> clean_lib \<Rightarrow> uuid \<Rightarrow> ('z, (pystr \<times> pystr) option) sadi" where
  "process_check cfg L raw_id =
     bind (fetch_raw_news L raw_id) (\<lambda>found.
     case found of
       None \<Rightarrow> ret None
     | Some raw \<Rightarrow>
         if rn_title raw = [] \<or> rn_body raw = []
         then seq (mark_deleted (sg_db cfg) raw_id EMPTY_FIELD) (ret None)
         else
           (let title_cleaned = normalise (kl_nfkc L) (rn_title raw);
                body_cleaned = normalise (kl_nfkc L) (rn_body raw)
            in if int (length body_cleaned) < cl_body_min_length (sg_clean cfg)
               then seq (mark_deleted (sg_db cfg) raw_id BODY_TOO_SHORT) (ret None)
               else bind (already_cleaned raw_id) (\<lambda>b.
                    ret (if b then None else Some (title_cleaned, body_cleaned)))))"

definition process_store :: "sadi_config \<Rightarrow> uuid \<Rightarrow> pystr \<times> pystr \<Rightarrow> ('z, unit) sadi" where
  "process_store cfg raw_id tb =
     bind sadi_uuid4 (\<lambda>i. bind sadi_now (\<lambda>t.
     seq (insert_cleaned_news (sg_db cfg)
            \<lparr> sc_cleaned_id = i, sc_raw_id = raw_id, sc_title_cleaned = fst tb, sc_body_cleaned = snd tb,
              sc_created_at = t \<rparr>)
         (publish_cleaned i)))"

definition process_record :: "sadi_config \<Rightarrow> clean_lib \<Rightarrow> uuid \<Rightarrow> ('z, unit) sadi" where
  "process_record cfg L raw_id = bind (process_check cfg L raw_id) (\<lambda>tb.
     case tb of None \<Rightarrow> ret () | Some tb \<Rightarrow> process_store cfg raw_id tb)"

section \<open>A worker's turn\<close>

definition uuid_of_text :: "pystr \<Rightarrow> ('z, uuid) sadi" where
  "uuid_of_text t = (case parse_uuid t of None \<Rightarrow> raise (Lib (Py ValueError)) | Some i \<Rightarrow> ret i)"

text \<open>Whatever goes wrong short of a cancellation leaves the message unacknowledged.\<close>

definition leave_unacked :: "sadi_exn \<Rightarrow> ('z, unit) sadi" where
  "leave_unacked exc = (if sadi_is_exception exc then ret () else raise exc)"

definition clean_one :: "sadi_config \<Rightarrow> clean_lib \<Rightarrow> clean_message \<Rightarrow> ('z, unit) sadi" where
  "clean_one cfg L m =
     try_except
       (bind (uuid_of_text (cm_raw_id m)) (\<lambda>raw_id.
        seq (process_record cfg L raw_id) (handler_ack (cm_message_id m))))
       leave_unacked"

text \<open>Its two steps; what the first one leaves to do.\<close>

definition clean_check ::
  "sadi_config \<Rightarrow> clean_lib \<Rightarrow> clean_message \<Rightarrow> ('z, (uuid \<times> pystr \<times> pystr) option) sadi" where
  "clean_check cfg L m =
     try_except
       (bind (uuid_of_text (cm_raw_id m)) (\<lambda>raw_id.
        bind (process_check cfg L raw_id) (\<lambda>tb.
        case tb of
          None \<Rightarrow> seq (handler_ack (cm_message_id m)) (ret None)
        | Some tb \<Rightarrow> ret (Some (raw_id, tb)))))
       (\<lambda>exc. seq (leave_unacked exc) (ret None))"

definition clean_store ::
  "sadi_config \<Rightarrow> clean_message \<Rightarrow> uuid \<times> pystr \<times> pystr \<Rightarrow> ('z, unit) sadi" where
  "clean_store cfg m w =
     try_except (seq (process_store cfg (fst w) (snd w)) (handler_ack (cm_message_id m))) leave_unacked"

lemma clean_steps:
  "clean_one cfg L m = bind (clean_check cfg L m) (\<lambda>r. case r of None \<Rightarrow> ret () | Some w \<Rightarrow> clean_store cfg m w)"
proof (rule ext)
  fix w :: "'a sadi_world_scheme"
  obtain q w1 where q: "uuid_of_text (cm_raw_id m) w = (q, w1)" by fastforce
  show "clean_one cfg L m w = bind (clean_check cfg L m) (\<lambda>r. case r of None \<Rightarrow> ret () | Some v \<Rightarrow> clean_store cfg m v) w"
  proof (cases q)
    case (Inl e)
    with q show ?thesis
      by (simp add: clean_one_def clean_check_def leave_unacked_def io_defs)
  next
    case (Inr i)
    obtain p w2 where p: "process_check cfg L i w1 = (p, w2)" by fastforce
    show ?thesis
    proof (cases p)
      case (Inl e)
      with q Inr p show ?thesis
        by (simp add: clean_one_def clean_check_def process_record_def leave_unacked_def io_defs)
    next
      case P: (Inr tb)
      show ?thesis
      proof (cases tb)
        case None
        with q Inr p P show ?thesis
          by (simp add: clean_one_def clean_check_def process_record_def leave_unacked_def io_defs
              split: prod.splits sum.splits)
      next
        case (Some v)
        with q Inr p P show ?thesis
          by (simp add: clean_one_def clean_check_def clean_store_def process_record_def leave_unacked_def io_defs
              split: prod.splits sum.splits)
      qed
    qed
  qed
qed

section \<open>The loops\<close>

text \<open>\<open>k_queue\<close> is the queue, \<open>k_workers\<close> what each worker holds between its steps, \<open>k_reader_wake\<close> and
  \<open>k_reclaimer_wake\<close> when the loops go on after a sleep; \<open>k_up\<close> tells whether \<^verbatim>\<open>start\<close> has run.\<close>

record cleaning_world = crawl_world +
  k_queue :: "clean_message list"
  k_workers :: "(clean_message \<times> uuid \<times> pystr \<times> pystr) option list"
  k_reader_wake :: instant
  k_reclaimer_wake :: instant
  k_up :: bool

type_synonym ('z, 'a) cleaning = "('z cleaning_world_scheme, sadi_exn, 'a) io"

definition enqueue :: "clean_message list \<Rightarrow> ('z, unit) cleaning" where
  "enqueue ms = modify (\<lambda>w. w\<lparr> k_queue := k_queue w @ ms \<rparr>)"

definition reader_sleep :: "int \<Rightarrow> ('z, unit) cleaning" where
  "reader_sleep s = modify (\<lambda>w. w\<lparr> k_reader_wake := d_now w + s * 1000000 \<rparr>)"

text \<open>One turn of \<^verbatim>\<open>_stream_reader\<close>.\<close>

definition stream_reader :: "('z, unit) cleaning" where
  "stream_reader =
     try_except (bind read_messages enqueue)
       (\<lambda>exc. if sadi_is_exception exc then reader_sleep 5 else raise exc)"

definition reclaimer_sleep :: "sadi_config \<Rightarrow> ('z, unit) cleaning" where
  "reclaimer_sleep cfg =
     modify (\<lambda>w. w\<lparr> k_reclaimer_wake := d_now w + max 0 (cl_stream_claim_timeout_ms (sg_clean cfg)) * 1000 \<rparr>)"

text \<open>One turn of \<^verbatim>\<open>_reclaim_loop\<close> after its sleep, up to the next.\<close>

definition reclaim_turn :: "sadi_config \<Rightarrow> ('z, unit) cleaning" where
  "reclaim_turn cfg =
     seq (try_except
            (bind (reclaim_pending (cl_stream_claim_timeout_ms (sg_clean cfg))) enqueue)
            (\<lambda>exc. if sadi_is_exception exc then ret () else raise exc))
         (reclaimer_sleep cfg)"

definition worker_take :: "sadi_config \<Rightarrow> clean_lib \<Rightarrow> nat \<Rightarrow> ('z, unit) cleaning" where
  "worker_take cfg L n =
     bind (get_w k_queue) (\<lambda>q.
     case q of
       [] \<Rightarrow> ret ()
     | m # rest \<Rightarrow>
         seq (modify (\<lambda>w. w\<lparr> k_queue := rest \<rparr>))
         (bind (clean_check cfg L m) (\<lambda>r.
          modify (\<lambda>w. w\<lparr> k_workers := (k_workers w)[n := map_option (Pair m) r] \<rparr>))))"

definition worker_store :: "sadi_config \<Rightarrow> nat \<Rightarrow> ('z, unit) cleaning" where
  "worker_store cfg n =
     bind (get_w (\<lambda>w. k_workers w ! n)) (\<lambda>held.
     case held of
       None \<Rightarrow> ret ()
     | Some (m, v) \<Rightarrow>
         seq (clean_store cfg m v) (modify (\<lambda>w. w\<lparr> k_workers := (k_workers w)[n := None] \<rparr>)))"

text \<open>\<^verbatim>\<open>ensure_consumer_group\<close> and \<^verbatim>\<open>start\<close>: a new queue and idle workers. The reclaimer sleeps first.\<close>

definition cleaning_start :: "sadi_config \<Rightarrow> ('z, unit) cleaning" where
  "cleaning_start cfg =
     seq (modify (\<lambda>w. w\<lparr> k_queue := [], k_workers := replicate (nat (cl_worker_concurrency (sg_clean cfg))) None,
            k_reader_wake := d_now w, k_up := True \<rparr>))
         (reclaimer_sleep cfg)"

text \<open>A cancellation ends the gathered loops and the workers with them.\<close>

definition cleaning_stop :: "('z, unit) cleaning" where
  "cleaning_stop = modify (\<lambda>w. w\<lparr> k_queue := [], k_workers := [], k_up := False \<rparr>)"

end
