(* ===== verification/Sadi_Api.thy ===== *)
theory Sadi_Api
  imports Sadi_Cleaning Sadi_Crawl_Service
begin

text \<open>
  \<^verbatim>\<open>app/api\<close>: the requests for cleaned articles, the health check, the acceptance of a crawl, and the
  responses the exception handlers give. The framework's routing and its validation of a request are
  parameters: a route starts with the validated request.
\<close>

section \<open>Cleaned articles\<close>

record cleaned_news_record =
  cnr_cleaned_id :: uuid
  cnr_raw_id :: uuid
  cnr_title_cleaned :: pystr
  cnr_body_cleaned :: pystr
  cnr_published_at :: "instant option"
  cnr_source_name :: pystr
  cnr_source_url :: pystr
  cnr_created_at :: instant

text \<open>The rows of the join on raw_id that a condition on the cleaned row selects.\<close>

definition cleaned_join ::
  "(sadi_cleaned_news \<Rightarrow> bool) \<Rightarrow> sadi_db \<Rightarrow> (sadi_cleaned_news \<times> raw_row) list" where
  "cleaned_join sel d = concat (map (\<lambda>c. map (Pair c) (filter (\<lambda>r. rn_raw_id r = sc_raw_id c) (s_raw_news d)))
     (filter sel (s_cleaned_news d)))"

definition row_to_record :: "sadi_cleaned_news \<times> raw_row \<Rightarrow> cleaned_news_record" where
  "row_to_record = (\<lambda>(c, r).
     \<lparr> cnr_cleaned_id = sc_cleaned_id c, cnr_raw_id = sc_raw_id c, cnr_title_cleaned = sc_title_cleaned c,
       cnr_body_cleaned = sc_body_cleaned c, cnr_published_at = rn_published_at r,
       cnr_source_name = rn_source_name r, cnr_source_url = rn_source_url r, cnr_created_at = sc_created_at c \<rparr>)"

definition get_cleaned_news :: "uuid \<Rightarrow> ('z, cleaned_news_record) sadi" where
  "get_cleaned_news cleaned_id =
     bind (fetch_one (\<lambda>d. case cleaned_join (\<lambda>c. sc_cleaned_id c = cleaned_id) d of [] \<Rightarrow> None | x # _ \<Rightarrow> Some x)) (\<lambda>row.
     case row of
       None \<Rightarrow> raise (Sadi NotFoundException (u ''cleaned_id '' @ uuid_str cleaned_id @ u '' not found''))
     | Some x \<Rightarrow> ret (row_to_record x))"

definition post_cleaned_news_batch :: "uuid list \<Rightarrow> ('z, cleaned_news_record list) sadi" where
  "post_cleaned_news_batch cleaned_ids =
     bind (fetch_all (cleaned_join (\<lambda>c. sc_cleaned_id c \<in> set cleaned_ids))) (\<lambda>rows.
     ret (map row_to_record rows))"

section \<open>Health\<close>

datatype component_status = Component_ok | Component_error
datatype health_status = HEALTHY | DEGRADED | UNHEALTHY

record sadi_health_response =
  shr_status :: health_status
  shr_database :: component_status
  shr_redis :: component_status

definition ping_db :: "('z, component_status) sadi" where
  "ping_db = or_else (seq (fetch_one (\<lambda>d. Some ())) (ret Component_ok)) Component_error"

definition ping_redis :: "('z, component_status) sadi" where
  "ping_redis = or_else (seq sadi_ping (ret Component_ok)) Component_error"

text \<open>With the status code of the response.\<close>

definition get_health :: "('z, nat \<times> sadi_health_response) sadi" where
  "get_health =
     bind ping_db (\<lambda>db_status. bind ping_redis (\<lambda>redis_status.
     ret (if db_status = Component_ok \<and> redis_status = Component_ok
          then (200, \<lparr> shr_status = HEALTHY, shr_database = db_status, shr_redis = redis_status \<rparr>)
          else (503, \<lparr> shr_status = UNHEALTHY, shr_database = db_status, shr_redis = redis_status \<rparr>))))"

section \<open>The exception handlers\<close>

datatype response_detail = Detail_text pystr | Detail_errors "(pystr \<times> pystr) list"

record error_response =
  res_status :: nat
  res_error_code :: pystr
  res_message :: pystr
  res_detail :: response_detail

fun http_status :: "sadi_class \<Rightarrow> nat" where
  "http_status NotFoundException = 404"
| "http_status ServiceUnavailableException = 503"
| "http_status _ = 500"

definition code_response :: "nat \<Rightarrow> error_code_entry \<Rightarrow> error_response" where
  "code_response status code =
     \<lparr> res_status = status, res_error_code = ec_error_code code, res_message = ec_message code,
       res_detail = Detail_text (ec_dev_message code) \<rparr>"

definition sadi_exception_handler :: "sadi_class \<Rightarrow> pystr \<Rightarrow> error_response" where
  "sadi_exception_handler c detail =
     \<lparr> res_status = http_status c, res_error_code = ec_error_code (sadi_error_code c),
       res_message = ec_message (sadi_error_code c),
       res_detail = Detail_text (if detail \<noteq> [] then detail else ec_dev_message (sadi_error_code c)) \<rparr>"

text \<open>An error of pydantic: its kind, its place and its text. A part of a place is a name or an index.\<close>

datatype loc_part = Loc_name pystr | Loc_index nat

record validation_issue =
  vi_type :: pystr
  vi_loc :: "loc_part list"
  vi_msg :: pystr

definition LOCATION_MARKERS :: "pystr list" where
  "LOCATION_MARKERS = [u ''body'', u ''query'', u ''path'', u ''header'', u ''cookie'']"

fun loc_text :: "loc_part \<Rightarrow> pystr" where
  "loc_text (Loc_name t) = t"
| "loc_text (Loc_index n) = dec_digits n"

fun is_marker :: "loc_part \<Rightarrow> bool" where
  "is_marker (Loc_name t) \<longleftrightarrow> t \<in> set LOCATION_MARKERS"
| "is_marker (Loc_index n) \<longleftrightarrow> False"

definition format_validation_errors :: "validation_issue list \<Rightarrow> (pystr \<times> pystr) list" where
  "format_validation_errors errors =
     map (\<lambda>e. (py_join (u ''.'') (map loc_text (filter (\<lambda>p. \<not> is_marker p) (vi_loc e))), vi_msg e)) errors"

definition validation_error_handler :: "validation_issue list \<Rightarrow> error_response" where
  "validation_error_handler errors =
     (if list_ex (\<lambda>e. vi_type e = u ''json_invalid'') errors then code_response 400 SADI_MALFORMED_REQUEST
      else \<lparr> res_status = 400, res_error_code = ec_error_code SADI_VALIDATION_FAILED,
             res_message = ec_message SADI_VALIDATION_FAILED,
             res_detail = Detail_errors (format_validation_errors errors) \<rparr>)"

text \<open>The handler of the exception's class: a \<^verbatim>\<open>SADIException\<close>, Redis' \<^verbatim>\<open>ConnectionError\<close>, any other.\<close>

fun error_response_of :: "sadi_exn \<Rightarrow> error_response" where
  "error_response_of (Sadi c detail) = sadi_exception_handler c detail"
| "error_response_of (Lib (Redis RedisConnectionError)) = code_response 503 SADI_SERVICE_UNAVAILABLE"
| "error_response_of e = code_response 500 SADI_INTERNAL_ERROR"

text \<open>A request that is answered: the value of the route, or the response of a handler.\<close>

definition answered :: "('w, sadi_exn, 'a) io \<Rightarrow> ('w, sadi_exn, error_response + 'a) io" where
  "answered route = try_except (bind route (\<lambda>x. ret (Inr x)))
     (\<lambda>exc. if sadi_is_exception exc then ret (Inl (error_response_of exc)) else raise exc)"

section \<open>Accepting a crawl\<close>

record crawl_request =
  cq_execution_id :: pystr
  cq_source_name :: crawl_source_name
  cq_crawl_date :: "(nat \<times> nat \<times> nat) option"

text \<open>The service: the cleaning world and the crawls that were accepted and have not run.\<close>

record service_world = cleaning_world +
  v_crawls :: "crawl_request list"

type_synonym ('z, 'a) service = "('z service_world_scheme, sadi_exn, 'a) io"

text \<open>\<^verbatim>\<open>create_task\<close>, and the response 202 with the execution's id.\<close>

definition post_crawl :: "crawl_request \<Rightarrow> ('z, nat \<times> pystr) service" where
  "post_crawl request =
     seq (modify (\<lambda>w. w\<lparr> v_crawls := v_crawls w @ [request] \<rparr>)) (ret (202, cq_execution_id request))"

text \<open>A crawl task runs; an exception that escapes it is only logged.\<close>

definition run_crawl :: "sadi_config \<Rightarrow> crawl_lib \<Rightarrow> nat \<Rightarrow> ('z, unit) service" where
  "run_crawl cfg L j =
     bind (get_w v_crawls) (\<lambda>cs.
     if length cs \<le> j then ret ()
     else seq (modify (\<lambda>w. w\<lparr> v_crawls := remove_at j cs \<rparr>))
            (try_except (crawl_execute cfg L (cq_execution_id (cs ! j)) (cq_source_name (cs ! j)) (cq_crawl_date (cs ! j)))
               (\<lambda>_. ret ())))"

section \<open>Starting and stopping\<close>

text \<open>\<^verbatim>\<open>lifespan\<close>: the stream client's first PING, the consumer group, the cleaning service; and its end.\<close>

definition service_start :: "sadi_config \<Rightarrow> ('z, unit) service" where
  "service_start cfg = seq sadi_ping (seq ensure_consumer_group (cleaning_start cfg))"

definition service_stop :: "('z, unit) service" where
  "service_stop = cleaning_stop"

end
