(* ===== verification/Sadi_Sample.thy ===== *)
theory Sadi_Sample
  imports Sadi_Api
begin

text \<open>
  A small concrete system: two sources, one raw record that is announced and delivered to the cleaner, no
  cleaned record yet, and a web that has nothing. The theorems about the service are applied to it where
  they have hypotheses.
\<close>

definition small_source :: crawl_source_config where
  "small_source = \<lparr> cs_max_concurrent = 2, cs_request_interval_min_ms = 0, cs_request_interval_max_ms = 0 \<rparr>"

definition small_config :: sadi_config where
  "small_config = \<lparr>
     sg_db = \<lparr> sd_url = u ''postgres://db'', sd_pool_size = 10, sd_max_retry = 3, sd_retry_base_wait_ms = 100 \<rparr>,
     sg_redis_url = u ''redis://stream'',
     sg_crawl = \<lparr> cr_max_retry = 3, cr_retry_base_wait_ms = 500, cr_request_timeout_s = 10,
       cr_browser_navigation_timeout_ms = 15000,
       cr_sources = [(u ''MINGPAO'', small_source), (u ''YAHOO_HK'', small_source)] \<rparr>,
     sg_clean = \<lparr> cl_worker_concurrency = 2, cl_body_min_length = 2, cl_stream_claim_timeout_ms = 30000 \<rparr> \<rparr>"

text \<open>Libraries that find nothing, and text that is normalised already.\<close>

definition small_pages :: page_lib where
  "small_pages = \<lparr> pl_trafilatura = (\<lambda>_. Inr None), pl_select = (\<lambda>_ _. Inr []), pl_title = (\<lambda>_. Inr None),
     pl_fitz = (\<lambda>_. Inr \<lparr> pd_encrypted = False, pd_pages = [] \<rparr>), pl_pdfminer = (\<lambda>_. Inr []), pl_str = (\<lambda>_. u ''error'') \<rparr>"

definition small_lib :: clean_lib where
  "small_lib = \<lparr> kl_nfkc = Some, kl_loads = (\<lambda>_. None) \<rparr>"

definition small_crawl_lib :: crawl_lib where
  "small_crawl_lib = \<lparr> xl_parse = small_pages, xl_nfkc = Some, xl_sha256 = (\<lambda>bs. bs) \<rparr>"

definition small_raw :: raw_row where
  "small_raw = \<lparr> rn_raw_id = 7, rn_source_name = u ''MINGPAO'', rn_source_url = u ''http://m/1'', rn_title = u ''T'',
     rn_body = u ''bc'', rn_published_at = None, rn_created_at = 1700000000000000, rn_raw_hash = u ''h'',
     rn_extra_metadata = None, rn_is_deleted = False, rn_deleted_reason = None \<rparr>"

definition small_db :: sadi_db where
  "small_db = \<lparr> s_raw_news = [small_raw], s_cleaned_news = [], s_crawl_error_log = [] \<rparr>"

text \<open>The message 1 announces the raw record; it is delivered, not acknowledged.\<close>

definition small_streams :: streams where
  "small_streams = [(STREAM_RAW_NEWS_INSERTED,
     \<lparr> sm_entries = [(1, raw_inserted_message 7)], sm_next_id = 2,
       sm_groups = [(GROUP_NAME, \<lparr> cg_last_delivered = 1,
         cg_pending = [(1, \<lparr> pe_consumer = CONSUMER_NAME, pe_times_delivered = 1,
           pe_delivered_at = 1700000200000000 \<rparr>)] \<rparr>)] \<rparr>)]"

definition small_message :: clean_message where
  "small_message = \<lparr> cm_message_id = 1, cm_raw_id = uuid_str 7 \<rparr>"

text \<open>Every page is missing and no feed can be read.\<close>

definition small_world :: crawl_world where
  "small_world = \<lparr> d_now = 1700000300000000, d_next_uuid = 100, d_db = small_db, d_pg = [], d_streams = small_streams,
     d_rs = [], d_web = (\<lambda>_ _. Inr \<lparr> pg_status = 404, pg_text = [], pg_content = [], pg_status_error = [] \<rparr>),
     d_feeds = (\<lambda>_ _. Inr \<lparr> rf_bozo = True, rf_bozo_exception = u ''no feed'', rf_entries = [] \<rparr>),
     d_browser = (\<lambda>_. \<lparr> bs_start = None, bs_context = None, bs_goto = None, bs_counter = (\<lambda>_. Inr None),
       bs_click = (\<lambda>_. None), bs_rows = Inr [], bs_release = None, bs_stop = None \<rparr>),
     d_requests = 0, d_jitter = [], d_choices = [] \<rparr>"

definition small_service :: service_world where
  "small_service = cleaning_world.extend
     (crawl_world.extend small_world
       \<lparr> k_queue = [], k_workers = [], k_reader_wake = 0, k_reclaimer_wake = 0, k_up = False \<rparr>)
     \<lparr> v_crawls = [] \<rparr>"

lemmas small_defs = small_service_def small_world_def small_streams_def small_db_def small_raw_def
  crawl_world.defs cleaning_world.defs service_world.defs

lemma small_uuid [simp]: "parse_uuid (uuid_str 7) = Some 7"
  by (rule parse_uuid_str) simp

lemma small_normalise [simp]:
  "normalise (kl_nfkc small_lib) (u ''T'') = u ''T''" "normalise (kl_nfkc small_lib) (u ''bc'') = u ''bc''"
  by (simp_all add: small_lib_def normalise_def collapse_words py_words_def u_def py_isspace_def)

lemma small_fields [simp]:
  "cm_raw_id small_message = uuid_str 7" "cm_message_id small_message = 1"
  "d_pg small_world = []" "d_rs small_world = []" "d_db small_world = small_db" "d_streams small_world = small_streams"
  "d_next_uuid small_world = 100" "d_now small_world = 1700000300000000"
  "s_raw_news small_db = [small_raw]" "s_cleaned_news small_db = []" "rn_raw_id small_raw = 7"
  by (simp_all add: small_message_def small_world_def small_db_def small_raw_def)

end
