(* ===== verification/Sadi_Crawl_Props.thy ===== *)
theory Sadi_Crawl_Props
  imports Sadi_Crawl_Inv Sadi_Sample
begin

text \<open>
  The properties of crawling: the retries of a page, the worker pool, the articles a crawler returns, the
  storing and announcing of articles, and the signal at the end of an execution.
\<close>

section \<open>The signal at the end\<close>

abbreviation completed :: "streams \<Rightarrow> (message_id \<times> fields) list" where
  "completed ss \<equiv> sm_entries (the_stream ss STREAM_CRAWL_COMPLETED)"

definition end_signal :: "pystr \<Rightarrow> fields \<Rightarrow> bool" where
  "end_signal eid f \<longleftrightarrow> f = completed_payload eid (u ''SUCCESS'') None
     \<or> (\<exists>t. f = completed_payload eid (u ''FAILED'') (Some t))"

definition signals :: "pystr \<Rightarrow> (message_id \<times> fields) list \<Rightarrow> nat \<Rightarrow> sadi_db \<Rightarrow> streams \<Rightarrow> bool" where
  "signals eid old k d ss \<longleftrightarrow> (\<exists>new. completed ss = old @ new \<and> length new \<le> k \<and> (\<forall>f \<in> snd ` set new. end_signal eid f))"

lemma xadd_completed:
  "completed (snd (xadd STREAM_CRAWL_COMPLETED f ss)) = completed ss @ [(sm_next_id (the_stream ss STREAM_CRAWL_COMPLETED), f)]"
  "name \<noteq> STREAM_CRAWL_COMPLETED \<Longrightarrow> completed (snd (xadd name f ss)) = completed ss"
  by (auto simp: xadd_def Let_def)

lemma signals_kept: "crawl_keeps (signals eid old k)"
  by (simp add: crawl_keeps_def signals_def xadd_completed)

lemma signals_more: "signals eid old k d ss \<Longrightarrow> k \<le> l \<Longrightarrow> signals eid old l d ss"
  unfolding signals_def by (meson le_trans)

lemma signals_xadd:
  assumes "signals eid old k d ss" and "end_signal eid f"
  shows "signals eid old (Suc k) d (snd (xadd STREAM_CRAWL_COMPLETED f ss))"
proof -
  from assms(1) obtain new where new: "completed ss = old @ new" "length new \<le> k" "\<forall>f \<in> snd ` set new. end_signal eid f"
    by (auto simp: signals_def)
  then show ?thesis unfolding signals_def xadd_completed using assms(2)
    by (intro exI [of _ "new @ [(sm_next_id (the_stream ss STREAM_CRAWL_COMPLETED), f)]"]) auto
qed

lemma publish_completed_triple:
  assumes "end_signal eid (completed_payload eid status detail)"
  shows "triple (signals eid old k) (publish_crawl_completed eid status detail)
    (\<lambda>_. signals eid old (Suc k)) (signals eid old (Suc k))"
  unfolding publish_crawl_completed_def
proof (rule triple_bind)
  show "triple (signals eid old k) (sadi_publish STREAM_CRAWL_COMPLETED (completed_payload eid status detail))
    (\<lambda>_. signals eid old (Suc k)) (signals eid old (Suc k))"
  proof (rule triple_publish)
    fix d ss i ss'
    assume "signals eid old k d ss" and "xadd STREAM_CRAWL_COMPLETED (completed_payload eid status detail) ss = (Inr i, ss')"
    with signals_xadd [OF _ assms] show "signals eid old (Suc k) d ss'" by (metis snd_conv)
  qed (use signals_xadd [OF _ assms] signals_more in auto)
qed (rule triple_ret)

lemma success_signal [simp]: "end_signal eid (completed_payload eid (u ''SUCCESS'') None)"
  and failed_signal [simp]: "end_signal eid (completed_payload eid (u ''FAILED'') (Some t))"
  by (auto simp: end_signal_def)

lemma execute_body_signals:
  "triple (signals eid old 0) (execute_body cfg L eid source date) (\<lambda>_. signals eid old (Suc 0)) (signals eid old (Suc 0))"
proof -
  have c: "triple (signals eid old 0) (create_crawler (sg_crawl cfg) source) (\<lambda>_. signals eid old 0) (signals eid old (Suc 0))"
    unfolding create_crawler_def
    by (auto split: option.splits intro: triple_ret triple_raise signals_more)
  have t: "triple (signals eid old 0)
     (try_except (bind (crawler_run (sg_crawl cfg) (xl_parse L) source sc date) (\<lambda>result. ret (Inr result)))
        (\<lambda>exc. case exc of Sadi CrawlFatalException d \<Rightarrow> ret (Inl exc) | _ \<Rightarrow> raise exc))
     (\<lambda>_. signals eid old 0) (signals eid old (Suc 0))" for sc
    by (rule triple_try [where S = "signals eid old 0"],
        rule triple_bind [OF crawler_holds], rule triple_ret, assumption)
      (auto split: sadi_exn.splits sadi_class.splits intro: triple_ret triple_raise signals_more)
  have p: "triple (signals eid old 0) (publish_crawl_completed eid status detail) (\<lambda>_. signals eid old (Suc 0)) (signals eid old (Suc 0))"
    if "end_signal eid (completed_payload eid status detail)" for status detail
    using publish_completed_triple [OF that, of old 0] by simp
  have s1: "triple (signals eid old 0) (persist_failures cfg eid source fs) (\<lambda>_. signals eid old 0) (signals eid old (Suc 0))" for fs
    by (rule triple_weaken [OF crawl_stores_triple(1) [OF signals_kept [of eid old 0]]]) (auto intro: signals_more)
  have s2: "triple (signals eid old 0) (persist_successes cfg L source xs) (\<lambda>_. signals eid old 0) (signals eid old (Suc 0))" for xs
    by (rule triple_weaken [OF crawl_stores_triple(2) [OF signals_kept [of eid old 0]]]) (auto intro: signals_more)
  show ?thesis unfolding execute_body_def
    by (rule triple_bind [OF c], rule triple_bind [OF t])
      (auto split: sum.splits intro!: p triple_bind [OF s1] triple_bind [OF s2])
qed

lemma execute_signals:
  "triple (signals eid old 0) (crawl_execute cfg L eid source date) (\<lambda>_. signals eid old 2) (signals eid old 2)"
proof -
  have p: "triple (signals eid old (Suc 0)) (publish_crawl_completed eid (u ''FAILED'') (Some t))
      (\<lambda>_. signals eid old 2) (signals eid old 2)" for t
    using publish_completed_triple [OF failed_signal [of eid t], of old "Suc 0"] by (simp add: numeral_2_eq_2)
  have h: "triple (signals eid old (Suc 0))
      (or_else (publish_crawl_completed eid (u ''FAILED'') (Some t)) ()) (\<lambda>_. signals eid old 2) (signals eid old 2)" for t
    unfolding or_else_def
    by (rule triple_try [OF p]) (auto intro: triple_ret triple_raise)
  have m: "signals eid old k d ss \<Longrightarrow> k \<le> 2 \<Longrightarrow> signals eid old 2 d ss" for k d ss
    by (rule signals_more)
  show ?thesis unfolding crawl_execute_def
  proof (rule triple_try [where S = "signals eid old (Suc 0)"])
    show "triple (signals eid old 0) (execute_body cfg L eid source date) (\<lambda>_. signals eid old 2) (signals eid old (Suc 0))"
      by (rule triple_weaken [OF execute_body_signals]) (auto intro: m)
    show "triple (signals eid old (Suc 0)) (if sadi_is_exception exc
        then or_else (publish_crawl_completed eid (u ''FAILED'') (Some (sadi_str (pl_str (xl_parse L)) exc))) ()
        else raise exc) (\<lambda>_. signals eid old 2) (signals eid old 2)" for exc
      by (cases "sadi_is_exception exc") (simp_all add: h, rule triple_raise, rule m, auto)
  qed
qed

lemma or_else_result: "or_else m x w = (Inl e, w') \<Longrightarrow> \<not> sadi_is_exception e"
  by (auto simp: or_else_def io_eqs split: if_splits)

lemma execute_result:
  "crawl_execute cfg L eid source date w = (r, w') \<Longrightarrow> r = Inr () \<or> (\<exists>e. r = Inl e \<and> \<not> sadi_is_exception e)"
  by (cases r) (auto simp: crawl_execute_def try_eq_Inl dest: or_else_result split: if_splits)

text \<open>Without a fault of the stream Redis.\<close>

definition quiet :: "(message_id \<times> fields) list \<Rightarrow> 'z sadi_world_scheme \<Rightarrow> bool" where
  "quiet old w \<longleftrightarrow> d_rs w = [] \<and> completed (d_streams w) = old"

interpretation quiet: sadi_calls "\<lambda>w w'. quiet old w \<longrightarrow> quiet old w'" for old
  by unfold_locales (auto simp: quiet_def)

lemma quiet_pg: "always (\<lambda>w w'. quiet old w \<longrightarrow> quiet old w') (sadi_pg_call stmt)"
  by (rule always_pg_call) (simp add: quiet_def)

lemma quiet_publish:
  "name \<noteq> STREAM_CRAWL_COMPLETED \<Longrightarrow> always (\<lambda>w w'. quiet old w \<longrightarrow> quiet old w') (sadi_publish name f)"
  unfolding sadi_publish_def by (rule always_rs_call) (auto simp: quiet_def xadd_completed)

lemma quiet_crawler: "always (\<lambda>w w'. quiet old w \<longrightarrow> quiet old w') (crawler_run cfg L source sc date)"
  by (rule alwaysI) (auto dest!: alwaysD [OF reading.crawler_reads] simp: same_stores_def quiet_def)

lemma quiet_uuid_now: "always (\<lambda>w w'. quiet old w \<longrightarrow> quiet old w') sadi_uuid4"
  "always (\<lambda>w w'. quiet old w \<longrightarrow> quiet old w') sadi_now"
  by (simp_all add: always_def sadi_uuid4_def sadi_now_def get_w_def quiet_def)

lemma quiet_or_else:
  "always (\<lambda>w w'. quiet old w \<longrightarrow> quiet old w') m \<Longrightarrow> always (\<lambda>w w'. quiet old w \<longrightarrow> quiet old w') (or_else m x)"
  unfolding or_else_def by (auto intro!: keeps.always_try keeps.always_ret keeps.always_raise)

lemma quiet_stores:
  "always (\<lambda>w w'. quiet old w \<longrightarrow> quiet old w') (persist_failures cfg eid source fs)"
  "always (\<lambda>w w'. quiet old w \<longrightarrow> quiet old w') (persist_successes cfg L source xs)"
  unfolding persist_failures_def persist_successes_def save_crawl_error_def persist_success_def
  by (auto intro!: keeps.always_for_each quiet_or_else keeps.always_bind quiet_uuid_now quiet.execute_keeps
      quiet.execute_returning_keeps quiet_pg quiet_publish keeps.always_ret split: sum.splits option.splits)

lemma quiet_signal:
  assumes "quiet old w"
  shows "\<exists>k w'. publish_crawl_completed eid status detail w = (Inr (), w')
    \<and> completed (d_streams w') = old @ [(k, completed_payload eid status detail)]"
proof -
  obtain i ss' where x: "xadd STREAM_CRAWL_COMPLETED (completed_payload eid status detail) (d_streams w) = (Inr i, ss')"
    using xadd_Inr by blast
  with assms xadd_completed(1) [of "completed_payload eid status detail" "d_streams w"] show ?thesis
    by (simp add: publish_crawl_completed_def sadi_publish_def sadi_rs_call_def quiet_def io_defs)
qed

lemma quiet_publishes:
  "valid (quiet old) (publish_crawl_completed eid status detail)
     (\<lambda>_ w. \<exists>k. completed (d_streams w) = old @ [(k, completed_payload eid status detail)]) (\<lambda>_ w. False)"
proof (rule validI)
  fix w :: "'a sadi_world_scheme" and x w'
  assume "quiet old w" and "publish_crawl_completed eid status detail w = (Inr x, w')"
  then show "\<exists>k. completed (d_streams w') = old @ [(k, completed_payload eid status detail)]"
    using quiet_signal [of old w eid status detail] by auto
next
  fix w :: "'a sadi_world_scheme" and e w'
  assume "quiet old w" and "publish_crawl_completed eid status detail w = (Inl e, w')"
  then show False using quiet_signal [of old w eid status detail] by auto
qed

lemma quiet_keeps:
  "always (\<lambda>w w'. quiet old w \<longrightarrow> quiet old w') m \<Longrightarrow> valid (quiet old) m (\<lambda>_. quiet old) (\<lambda>_. quiet old)"
  by (intro validI) (blast dest: alwaysD)+

lemma quiet_execute:
  "valid (quiet old) (crawl_execute cfg L eid source date)
     (\<lambda>_ w. \<exists>k f. completed (d_streams w) = old @ [(k, f)]) (\<lambda>_ w. True)"
proof -
  have p: "valid (quiet old) (publish_crawl_completed eid status detail)
     (\<lambda>_ w. \<exists>k f. completed (d_streams w) = old @ [(k, f)]) (\<lambda>_. quiet old)" for status detail
    by (rule valid_weaken [OF quiet_publishes]) auto
  have c: "always (\<lambda>w w'. quiet old w \<longrightarrow> quiet old w') (create_crawler (sg_crawl cfg) source)"
    unfolding create_crawler_def by (auto split: option.splits intro: keeps.always_ret keeps.always_raise)
  have t: "always (\<lambda>w w'. quiet old w \<longrightarrow> quiet old w')
     (try_except (bind (crawler_run (sg_crawl cfg) (xl_parse L) source sc date) (\<lambda>result. ret (Inr result)))
        (\<lambda>exc. case exc of Sadi CrawlFatalException d \<Rightarrow> ret (Inl exc) | _ \<Rightarrow> raise exc))" for sc
    by (intro keeps.always_try keeps.always_bind quiet_crawler keeps.always_ret)
      (auto split: sadi_exn.splits sadi_class.splits intro: keeps.always_ret keeps.always_raise)
  have b: "valid (quiet old) (execute_body cfg L eid source date)
     (\<lambda>_ w. \<exists>k f. completed (d_streams w) = old @ [(k, f)]) (\<lambda>_. quiet old)"
    unfolding execute_body_def
    by (rule valid_bind [OF quiet_keeps [OF c]], rule valid_bind [OF quiet_keeps [OF t]])
      (auto split: sum.splits intro!: p valid_bind [OF quiet_keeps [OF quiet_stores(1)]]
        valid_bind [OF quiet_keeps [OF quiet_stores(2)]])
  have h: "valid (quiet old) (or_else (publish_crawl_completed eid status detail) ())
     (\<lambda>_ w. \<exists>k f. completed (d_streams w) = old @ [(k, f)]) (\<lambda>_ w. True)" for status detail
  proof -
    have f: "valid (quiet old) (publish_crawl_completed eid status detail)
       (\<lambda>_ w. \<exists>k f. completed (d_streams w) = old @ [(k, f)]) (\<lambda>_ w. False)"
      by (rule valid_weaken [OF quiet_publishes]) auto
    show ?thesis unfolding or_else_def by (rule valid_try [OF f]) (simp add: valid_def)
  qed
  show ?thesis unfolding crawl_execute_def
  proof (rule valid_try [OF b])
    fix exc
    show "valid (quiet old) (if sadi_is_exception exc
        then or_else (publish_crawl_completed eid (u ''FAILED'') (Some (sadi_str (pl_str (xl_parse L)) exc))) ()
        else raise exc) (\<lambda>_ w. \<exists>k f. completed (d_streams w) = old @ [(k, f)]) (\<lambda>_ w. True)"
      by (cases "sadi_is_exception exc") (simp_all add: h, simp add: valid_def io_defs)
  qed
qed

text \<open>C6: An execution returns unless it is cancelled or waits forever, and announces its end: at most twice, each
  time as SUCCESS without or as FAILED with a detail, under its own id; exactly once when the stream Redis does
  not fail.\<close>

theorem execute_signals_end:
  assumes run: "crawl_execute cfg L eid source date w = (r, w')"
  shows "(r = Inr () \<or> (\<exists>e. r = Inl e \<and> \<not> sadi_is_exception e))
    \<and> (\<exists>new. completed (d_streams w') = completed (d_streams w) @ new \<and> length new \<le> 2
        \<and> (\<forall>f \<in> snd ` set new. end_signal eid f) \<and> (d_rs w = [] \<longrightarrow> r = Inr () \<longrightarrow> length new = 1))"
proof -
  have "signals eid (completed (d_streams w)) 0 (d_db w) (d_streams w)" by (simp add: signals_def)
  then have "holds (signals eid (completed (d_streams w)) 2) w'"
    using run execute_signals [of eid "completed (d_streams w)" cfg L source date]
    by (cases r) (auto simp: holds_def dest: validD_Inr validD_Inl)
  then obtain new where new: "completed (d_streams w') = completed (d_streams w) @ new" "length new \<le> 2"
    "\<forall>f \<in> snd ` set new. end_signal eid f"
    by (auto simp: holds_def signals_def)
  have "length new = 1" if q: "d_rs w = []" and r: "r = Inr ()"
  proof -
    have "quiet (completed (d_streams w)) w" using q by (simp add: quiet_def)
    from validD_Inr [OF quiet_execute this run [unfolded r]] new(1) show ?thesis by auto
  qed
  with new execute_result [OF run] show ?thesis by blast
qed

lemma small_execute: "fst (crawl_execute small_config small_crawl_lib (u ''e1'') MINGPAO None small_world) = Inr ()"
proof -
  have f: "\<exists>t w'. crawler_run (sg_crawl small_config) (xl_parse small_crawl_lib) MINGPAO sc None small_world
      = (Inl (Sadi CrawlFatalException t), w') \<and> d_rs w' = []" for sc
    by (simp add: crawler_run_def mingpao_run_def fetch_rss_def feed_parse_def fatal_def io_defs small_world_def)
  have c: "create_crawler (sg_crawl small_config) MINGPAO w = (Inr small_source, w)" for w :: crawl_world
    by (simp add: create_crawler_def small_config_def ret_def)
  have p: "\<exists>w'. publish_crawl_completed eid status d w = (Inr (), w')" if "d_rs w = []" for eid status d and w :: crawl_world
    using quiet_signal [of "completed (d_streams w)" w eid status d] that by (auto simp: quiet_def)
  obtain t w1 where f1: "crawler_run (sg_crawl small_config) (xl_parse small_crawl_lib) MINGPAO small_source None small_world
      = (Inl (Sadi CrawlFatalException t), w1)" and w1: "d_rs w1 = []" using f by blast
  obtain w2 where "publish_crawl_completed (u ''e1'') (u ''FAILED'')
      (Some (sadi_str (pl_str (xl_parse small_crawl_lib)) (Sadi CrawlFatalException t))) w1 = (Inr (), w2)"
    using p [OF w1] by blast
  then show ?thesis
    by (simp add: crawl_execute_def execute_body_def c bind_def try_except_def f1 ret_def)
qed

theorem execute_signals_end_witness:
  "\<exists>k f. completed (d_streams (snd (crawl_execute small_config small_crawl_lib (u ''e1'') MINGPAO None small_world))) = [(k, f)]
     \<and> end_signal (u ''e1'') f"
proof -
  have "completed (d_streams small_world) = []" "d_rs small_world = []"
    by (simp_all add: small_defs the_stream_def empty_stream_def)
  with execute_signals_end [OF prod.collapse [symmetric], of small_config small_crawl_lib "u ''e1''" MINGPAO None small_world]
    small_execute
  show ?thesis by (auto simp: length_Suc_conv)
qed

section \<open>Announcements that are lost\<close>

text \<open>The reply of an INSERT is lost with its connection; the retry meets the row of the first attempt, which counts
  as an article known already: the article is stored, and is never announced.\<close>

definition small_item :: crawl_success_item where
  "small_item = \<lparr> si_title = u ''T'', si_body = u ''bc'', si_source_url = u ''http://m/2'', si_published_at = None,
     si_stock_codes = None \<rparr>"

lemma stored_not_announced:
  assumes "persist_success small_config small_crawl_lib MINGPAO small_item
      (small_world\<lparr> d_pg := [After (Asyncpg PgConnectionDoesNotExist)] \<rparr>) = (r, w')"
  shows "u ''http://m/2'' \<in> rn_source_url ` set (s_raw_news (d_db w')) \<and> d_streams w' = d_streams small_world"
proof -
  have n: "normalise (xl_nfkc small_crawl_lib) (u ''T'') = u ''T''"
    using small_normalise(1) by (simp add: small_crawl_lib_def small_lib_def)
  have h: "compute_hash (xl_sha256 small_crawl_lib) (u ''T'') = Inr [84]"
    by (simp add: compute_hash_def small_crawl_lib_def utf8_encode_def utf8_char_def u_def is_surrogate_def)
  have ins: "\<exists>v'. sadi_execute_returning (sg_db small_config) (insert_raw_news_stmt x) v = (Inr None, v')
      \<and> x \<in> set (s_raw_news (d_db v')) \<and> d_streams v' = d_streams v"
    if v: "d_pg v = [After (Asyncpg PgConnectionDoesNotExist)]" and x: "snd (insert_raw_news_stmt x (d_db v)) = (d_db v)\<lparr> s_raw_news := s_raw_news (d_db v) @ [x] \<rparr>"
    for x and v :: crawl_world
  proof -
    define stmt where "stmt = insert_raw_news_stmt x"
    define v1 where "v1 = v\<lparr> d_db := (d_db v)\<lparr> s_raw_news := s_raw_news (d_db v) @ [x] \<rparr>, d_pg := [] \<rparr>"
    have 1: "sadi_pg_call stmt v = (Inl (Asyncpg PgConnectionDoesNotExist), v1)"
      using v x by (simp add: stmt_def sadi_pg_call_def v1_def)
    have 2: "sadi_pg_call stmt y = (Inr None, y)" if "d_pg y = []" "d_db y = d_db v1" for y :: crawl_world
      using that by (simp add: stmt_def sadi_pg_call_def insert_raw_news_stmt_def v1_def)
    have "run_attempts (sg_db small_config) (sadi_pg_call stmt) 2 y = (Inr None, y)" if "d_pg y = []" "d_db y = d_db v1" for y :: crawl_world
      using 2 [OF that] by (subst run_attempts.simps) (simp add: try_except_def small_config_def ret_def)
    then show ?thesis unfolding sadi_execute_returning_def run_with_retry_def stmt_def [symmetric]
      by (subst run_attempts.simps) (simp add: try_except_def 1 bind_def sadi_sleep_us_def modify_def small_config_def v1_def numeral_2_eq_2)
  qed
  have "u ''http://m/2'' \<noteq> u ''http://m/1''" "u ''h'' \<noteq> [84]" by (simp_all add: u_def)
  then have x: "snd (insert_raw_news_stmt x small_db) = small_db\<lparr> s_raw_news := s_raw_news small_db @ [x] \<rparr>"
    if "rn_source_url x = u ''http://m/2''" "rn_raw_id x = 100" "rn_raw_hash x = [84]" for x
    using that by (simp add: insert_raw_news_stmt_def small_db_def small_raw_def)
  define row :: raw_row where "row = \<lparr> rn_raw_id = 100, rn_source_name = source_value MINGPAO, rn_source_url = u ''http://m/2'',
    rn_title = u ''T'', rn_body = u ''bc'', rn_published_at = None, rn_created_at = 1700000300000000, rn_raw_hash = [84],
    rn_extra_metadata = None, rn_is_deleted = False, rn_deleted_reason = None \<rparr>"
  define v where "v = small_world\<lparr> d_pg := [After (Asyncpg PgConnectionDoesNotExist)], d_next_uuid := 101 \<rparr>"
  have "d_db v = small_db" by (simp add: v_def)
  with ins [of v row] x [of row] obtain v' where v': "sadi_execute_returning (sg_db small_config) (insert_raw_news_stmt row) v = (Inr None, v')"
    "row \<in> set (s_raw_news (d_db v'))" "d_streams v' = d_streams v" by (auto simp: v_def row_def)
  have "persist_success small_config small_crawl_lib MINGPAO small_item
      (small_world\<lparr> d_pg := [After (Asyncpg PgConnectionDoesNotExist)] \<rparr>) = (Inr (), v')"
    using v'(1) by (simp add: persist_success_def sadi_uuid4_def small_item_def n h or_else_def sadi_now_def io_defs row_def v_def)
  with assms have "w' = v'" by simp
  moreover have "rn_source_url row = u ''http://m/2''" by (simp add: row_def)
  ultimately show ?thesis using v'(2,3) by (force simp: v_def)
qed

text \<open>Without an attempt a write is silently skipped.\<close>

lemma no_attempt_no_error:
  assumes "sd_max_retry cfg < 1"
  shows "sadi_execute cfg stmt w = (Inr (), w)" "sadi_execute_returning cfg stmt' w = (Inr None, w)"
  using assms by (simp_all add: sadi_execute_def sadi_execute_returning_def run_with_retry_def run_attempts.simps io_defs)

end
