(* ===== verification/Sadi_Cleaning_Inv.thy ===== *)
theory Sadi_Cleaning_Inv
  imports Sadi_Triples Sadi_Cleaning
begin

text \<open>
  What the cleaning keeps true of the tables and the streams: a cleaned record is the normalised form of
  its raw record and long enough, a rejected record really has the fault it was rejected for, and only
  stored records are announced. The triples of the cleaning's operations show it.
\<close>

section \<open>The conditions\<close>

definition passes :: "sadi_config \<Rightarrow> clean_lib \<Rightarrow> pystr \<Rightarrow> pystr \<Rightarrow> bool" where
  "passes cfg L title body \<longleftrightarrow> title \<noteq> [] \<and> body \<noteq> []
     \<and> cl_body_min_length (sg_clean cfg) \<le> int (length (normalise (kl_nfkc L) body))"

definition rejected_for :: "sadi_config \<Rightarrow> clean_lib \<Rightarrow> pystr \<Rightarrow> pystr \<Rightarrow> pystr option \<Rightarrow> bool" where
  "rejected_for cfg L title body reason \<longleftrightarrow>
     (if title = [] \<or> body = [] then reason = Some EMPTY_FIELD
      else \<not> passes cfg L title body \<and> reason = Some BODY_TOO_SHORT)"

definition stored_raw :: "sadi_db \<Rightarrow> uuid \<Rightarrow> pystr \<Rightarrow> pystr \<Rightarrow> bool" where
  "stored_raw d i title body \<longleftrightarrow> (\<exists>r \<in> set (s_raw_news d). rn_raw_id r = i \<and> rn_title r = title \<and> rn_body r = body)"

definition cleaned_form :: "sadi_config \<Rightarrow> clean_lib \<Rightarrow> sadi_db \<Rightarrow> uuid \<Rightarrow> pystr \<Rightarrow> pystr \<Rightarrow> bool" where
  "cleaned_form cfg L d i t b \<longleftrightarrow> (\<exists>title body. stored_raw d i title body \<and> passes cfg L title body
     \<and> t = normalise (kl_nfkc L) title \<and> b = normalise (kl_nfkc L) body)"

text \<open>A row's address and hash are one row's only, as the tables' constraints have it.\<close>

definition raw_keys_distinct :: "sadi_db \<Rightarrow> bool" where
  "raw_keys_distinct d \<longleftrightarrow> distinct (map rn_raw_id (s_raw_news d)) \<and> distinct (map rn_source_url (s_raw_news d))
     \<and> distinct (map rn_raw_hash (s_raw_news d))"

definition clean_announced :: "streams \<Rightarrow> uuid \<Rightarrow> bool" where
  "clean_announced ss i \<longleftrightarrow> cleaned_message i \<in> snd ` set (sm_entries (the_stream ss STREAM_RAW_NEWS_CLEANED))"

definition cleaning_ok :: "sadi_config \<Rightarrow> clean_lib \<Rightarrow> sadi_db \<Rightarrow> streams \<Rightarrow> bool" where
  "cleaning_ok cfg L d ss \<longleftrightarrow>
     raw_keys_distinct d
     \<and> (\<forall>r \<in> set (s_raw_news d). rn_is_deleted r \<longrightarrow> rejected_for cfg L (rn_title r) (rn_body r) (rn_deleted_reason r))
     \<and> (\<forall>c \<in> set (s_cleaned_news d). cleaned_form cfg L d (sc_raw_id c) (sc_title_cleaned c) (sc_body_cleaned c))
     \<and> (\<forall>f \<in> snd ` set (sm_entries (the_stream ss STREAM_RAW_NEWS_CLEANED)).
          \<exists>c \<in> set (s_cleaned_news d). f = cleaned_message (sc_cleaned_id c))"

section \<open>The statements\<close>

lemma mark_row_keys [simp]:
  "rn_raw_id (mark_row i reason r) = rn_raw_id r" "rn_title (mark_row i reason r) = rn_title r"
  "rn_body (mark_row i reason r) = rn_body r" "rn_source_url (mark_row i reason r) = rn_source_url r"
  "rn_raw_hash (mark_row i reason r) = rn_raw_hash r" "rn_source_name (mark_row i reason r) = rn_source_name r"
  by (simp_all add: mark_row_def)

lemma mark_deleted_stored [simp]: "stored_raw (snd (mark_deleted_stmt i reason d)) j t b = stored_raw d j t b"
  by (simp add: stored_raw_def mark_deleted_stmt_def)

lemma mark_deleted_cleaned [simp]:
  "s_cleaned_news (snd (mark_deleted_stmt i reason d)) = s_cleaned_news d"
  "cleaned_form cfg L (snd (mark_deleted_stmt i reason d)) = cleaned_form cfg L d"
  "raw_keys_distinct (snd (mark_deleted_stmt i reason d)) = raw_keys_distinct d"
  by (simp_all add: cleaned_form_def fun_eq_iff raw_keys_distinct_def) (simp_all add: mark_deleted_stmt_def comp_def)

lemma same_raw:
  "raw_keys_distinct d \<Longrightarrow> r \<in> set (s_raw_news d) \<Longrightarrow> stored_raw d (rn_raw_id r) t b \<Longrightarrow> rn_title r = t \<and> rn_body r = b"
  unfolding raw_keys_distinct_def stored_raw_def by (metis distinct_map inj_onD)

lemma mark_deleted_ok:
  assumes ok: "cleaning_ok cfg L d ss" and r: "stored_raw d i t b" "rejected_for cfg L t b (Some reason)"
  shows "cleaning_ok cfg L (snd (mark_deleted_stmt i reason d)) ss"
proof -
  have "rejected_for cfg L (rn_title x) (rn_body x) (rn_deleted_reason (mark_row i reason x))"
    if "x \<in> set (s_raw_news d)" "rn_is_deleted (mark_row i reason x)" for x
  proof (cases "rn_raw_id x = i")
    case True
    with ok r that same_raw [of d x t b] show ?thesis by (auto simp: cleaning_ok_def mark_row_def)
  next
    case False
    with ok that show ?thesis by (simp add: cleaning_ok_def mark_row_def)
  qed
  then have "\<forall>x \<in> set (s_raw_news (snd (mark_deleted_stmt i reason d))). rn_is_deleted x \<longrightarrow>
      rejected_for cfg L (rn_title x) (rn_body x) (rn_deleted_reason x)"
    by (simp add: mark_deleted_stmt_def)
  with ok show ?thesis by (simp add: cleaning_ok_def)
qed

lemma mark_deleted_marks:
  assumes "r \<in> set (s_raw_news (snd (mark_deleted_stmt i reason d)))" and "rn_raw_id r = i"
  shows "rn_is_deleted r"
proof -
  from assms(1) have "r \<in> mark_row i reason ` set (s_raw_news d)" by (simp add: mark_deleted_stmt_def)
  then obtain x where x: "r = mark_row i reason x" by blast
  with assms(2) have "rn_raw_id x = i" by simp
  then show ?thesis unfolding x by (simp add: mark_row_def)
qed

lemma insert_cleaned_raw [simp]: "s_raw_news (snd (insert_cleaned_stmt c d)) = s_raw_news d"
  and insert_cleaned_sub: "set (s_cleaned_news d) \<subseteq> set (s_cleaned_news (snd (insert_cleaned_stmt c d)))"
  and insert_cleaned_new: "set (s_cleaned_news (snd (insert_cleaned_stmt c d))) \<subseteq> insert c (set (s_cleaned_news d))"
  by (auto simp: insert_cleaned_stmt_def)

lemma insert_cleaned_form [simp]: "cleaned_form cfg L (snd (insert_cleaned_stmt c d)) = cleaned_form cfg L d"
  by (simp add: cleaned_form_def stored_raw_def fun_eq_iff)

lemma insert_cleaned_ok:
  assumes ok: "cleaning_ok cfg L d ss" and f: "cleaned_form cfg L d (sc_raw_id c) (sc_title_cleaned c) (sc_body_cleaned c)"
  shows "cleaning_ok cfg L (snd (insert_cleaned_stmt c d)) ss"
  using ok f insert_cleaned_sub [of d c] insert_cleaned_new [of c d]
  unfolding cleaning_ok_def raw_keys_distinct_def by (simp add: subset_iff) blast

lemma insert_cleaned_Inr: "insert_cleaned_stmt c d = (Inr x, d') \<Longrightarrow> c \<in> set (s_cleaned_news d')"
  by (auto simp: insert_cleaned_stmt_def split: if_splits)

lemma xadd_streams:
  "sm_entries (the_stream (snd (xadd name flds ss)) n) =
     (if n = name then sm_entries (the_stream ss n) @ [(sm_next_id (the_stream ss n), flds)] else sm_entries (the_stream ss n))"
  by (simp add: xadd_def Let_def)

lemma xack_streams [simp]: "sm_entries (the_stream (snd (xack name grp i ss)) n) = sm_entries (the_stream ss n)"
  by (simp add: xack_def split: option.splits)

lemma xack_cleaning_ok [simp]: "cleaning_ok cfg L d (snd (xack name grp i ss)) = cleaning_ok cfg L d ss"
  and xack_announced [simp]: "clean_announced (snd (xack name grp i ss)) = clean_announced ss"
  by (simp_all add: cleaning_ok_def clean_announced_def fun_eq_iff)

section \<open>The operations\<close>

lemma find_Some_mem: "find P xs = Some x \<Longrightarrow> x \<in> set xs \<and> P x"
  by (induction xs) (auto split: if_splits)

text \<open>What the record's fate is when the processing returns: it is not stored or rejected, or a cleaned record
  exists that was there before or is announced.\<close>

definition settled :: "sadi_cleaned_news set \<Rightarrow> uuid \<Rightarrow> sadi_db \<Rightarrow> streams \<Rightarrow> bool" where
  "settled old i d ss \<longleftrightarrow>
     (\<forall>r \<in> set (s_raw_news d). rn_raw_id r = i \<longrightarrow> rn_is_deleted r)
     \<or> (\<exists>c \<in> set (s_cleaned_news d). sc_raw_id c = i \<and> (c \<in> old \<or> clean_announced ss (sc_cleaned_id c)))"

lemma xack_settled [simp]: "settled old i d (snd (xack name grp k ss)) = settled old i d ss"
  by (simp add: settled_def)

definition before_store :: "sadi_config \<Rightarrow> clean_lib \<Rightarrow> sadi_cleaned_news set \<Rightarrow> uuid \<Rightarrow> pystr \<times> pystr \<Rightarrow> sadi_db \<Rightarrow> streams \<Rightarrow> bool" where
  "before_store cfg L old i tb d ss \<longleftrightarrow> cleaning_ok cfg L d ss \<and> cleaned_form cfg L d i (fst tb) (snd tb)
     \<and> old \<subseteq> set (s_cleaned_news d)"

definition after_check ::
  "sadi_config \<Rightarrow> clean_lib \<Rightarrow> sadi_cleaned_news set \<Rightarrow> uuid \<Rightarrow> (pystr \<times> pystr) option \<Rightarrow> sadi_db \<Rightarrow> streams \<Rightarrow> bool" where
  "after_check cfg L old i r d ss \<longleftrightarrow> cleaning_ok cfg L d ss \<and> old \<subseteq> set (s_cleaned_news d)
     \<and> (case r of None \<Rightarrow> settled old i d ss | Some tb \<Rightarrow> cleaned_form cfg L d i (fst tb) (snd tb))"

abbreviation old_ok :: "sadi_config \<Rightarrow> clean_lib \<Rightarrow> sadi_cleaned_news set \<Rightarrow> sadi_db \<Rightarrow> streams \<Rightarrow> bool" where
  "old_ok cfg L old d ss \<equiv> cleaning_ok cfg L d ss \<and> set (s_cleaned_news d) = old"

lemma mark_deleted_triple:
  assumes max: "1 \<le> sd_max_retry (sg_db cfg)" and rej: "rejected_for cfg L t b (Some reason)"
  shows "triple (\<lambda>d ss. old_ok cfg L old d ss \<and> stored_raw d i t b) (mark_deleted (sg_db cfg) i reason)
     (\<lambda>_ d ss. old_ok cfg L old d ss \<and> settled old i d ss) (old_ok cfg L old)"
proof -
  have k: "cleaning_ok cfg L (snd (mark_deleted_stmt i reason d)) ss"
    if "cleaning_ok cfg L d ss" "stored_raw d i t b" for d ss
    by (rule mark_deleted_ok [OF that rej])
  have "triple (\<lambda>d ss. old_ok cfg L old d ss \<and> stored_raw d i t b) (sadi_execute (sg_db cfg) (mark_deleted_stmt i reason))
     (\<lambda>_ d ss. old_ok cfg L old d ss \<and> settled old i d ss) (\<lambda>d ss. old_ok cfg L old d ss \<and> stored_raw d i t b)"
  proof (rule triple_execute [OF max])
    fix d ss x d'
    assume pre: "old_ok cfg L old d ss \<and> stored_raw d i t b" and s: "mark_deleted_stmt i reason d = (Inr x, d')"
    have "d' = snd (mark_deleted_stmt i reason d)" using s by simp
    moreover have "\<forall>r \<in> set (s_raw_news (snd (mark_deleted_stmt i reason d))). rn_raw_id r = i \<longrightarrow> rn_is_deleted r"
      using mark_deleted_marks by blast
    then have "settled old i (snd (mark_deleted_stmt i reason d)) ss" by (simp add: settled_def)
    ultimately show "old_ok cfg L old d' ss \<and> settled old i d' ss"
      using pre k by simp
  qed (simp add: k)
  then show ?thesis unfolding mark_deleted_def by (rule triple_weaken) auto
qed

lemma fetch_raw_news_triple:
  "triple (old_ok cfg L old) (fetch_raw_news L i)
     (\<lambda>found d ss. old_ok cfg L old d ss \<and> (case found of
         None \<Rightarrow> settled old i d ss
       | Some raw \<Rightarrow> stored_raw d i (rn_title raw) (rn_body raw)))
     (old_ok cfg L old)"
proof -
  have f: "triple (old_ok cfg L old) (fetch_one (\<lambda>d. find (\<lambda>r. rn_raw_id r = i \<and> \<not> rn_is_deleted r) (s_raw_news d)))
     (\<lambda>row d ss. old_ok cfg L old d ss \<and> row = find (\<lambda>r. rn_raw_id r = i \<and> \<not> rn_is_deleted r) (s_raw_news d))
     (old_ok cfg L old)"
    by (rule triple_fetch_one) simp
  show ?thesis unfolding fetch_raw_news_def
  proof (rule triple_bind [OF f], rule triple_ret)
    fix row d ss
    assume a: "old_ok cfg L old d ss \<and> row = find (\<lambda>r. rn_raw_id r = i \<and> \<not> rn_is_deleted r) (s_raw_news d)"
    show "old_ok cfg L old d ss \<and> (case map_option (raw_of_row (kl_loads L)) row of
        None \<Rightarrow> settled old i d ss | Some raw \<Rightarrow> stored_raw d i (rn_title raw) (rn_body raw))"
    proof (cases row)
      case None
      with a have "settled old i d ss" by (auto simp: settled_def find_None_iff dest!: sym [of None])
      with a None show ?thesis by simp
    next
      case (Some r)
      with a have "find (\<lambda>r. rn_raw_id r = i \<and> \<not> rn_is_deleted r) (s_raw_news d) = Some r" by simp
      from find_Some_mem [OF this] have "stored_raw d i (rn_title r) (rn_body r)" by (auto simp: stored_raw_def)
      then have "stored_raw d i (rn_title (raw_of_row (kl_loads L) r)) (rn_body (raw_of_row (kl_loads L) r))"
        by (simp add: raw_of_row_def)
      with a show ?thesis unfolding Some option.map option.case by blast
    qed
  qed
qed

lemma already_cleaned_triple:
  "triple (\<lambda>d ss. old_ok cfg L old d ss \<and> P d) (already_cleaned i)
     (\<lambda>b d ss. old_ok cfg L old d ss \<and> P d \<and> (b \<longrightarrow> settled old i d ss)) (old_ok cfg L old)"
proof -
  have f: "triple (\<lambda>d ss. old_ok cfg L old d ss \<and> P d) (fetch_one (\<lambda>d. find (\<lambda>c. sc_raw_id c = i) (s_cleaned_news d)))
     (\<lambda>row d ss. old_ok cfg L old d ss \<and> P d \<and> row = find (\<lambda>c. sc_raw_id c = i) (s_cleaned_news d))
     (\<lambda>d ss. old_ok cfg L old d ss \<and> P d)"
    by (rule triple_fetch_one) simp
  have "triple (\<lambda>d ss. old_ok cfg L old d ss \<and> P d) (already_cleaned i)
     (\<lambda>b d ss. old_ok cfg L old d ss \<and> P d \<and> (b \<longrightarrow> settled old i d ss)) (\<lambda>d ss. old_ok cfg L old d ss \<and> P d)"
    unfolding already_cleaned_def
  proof (rule triple_bind [OF f], rule triple_ret)
    fix row d ss
    assume a: "old_ok cfg L old d ss \<and> P d \<and> row = find (\<lambda>c. sc_raw_id c = i) (s_cleaned_news d)"
    have "settled old i d ss" if "row = Some c" for c
    proof -
      have "find (\<lambda>c. sc_raw_id c = i) (s_cleaned_news d) = Some c" using a that by simp
      from find_Some_mem [OF this] a show ?thesis by (auto simp: settled_def)
    qed
    with a show "old_ok cfg L old d ss \<and> P d \<and> (row \<noteq> None \<longrightarrow> settled old i d ss)" by blast
  qed
  then show ?thesis by (rule triple_weaken) auto
qed

text \<open>Checking: a record is settled, or its cleaned form is handed on.\<close>

lemma process_check_triple:
  assumes max: "1 \<le> sd_max_retry (sg_db cfg)"
  shows "triple (old_ok cfg L old) (process_check cfg L i) (after_check cfg L old i) (old_ok cfg L old)"
proof -
  have mark: "triple (\<lambda>d ss. old_ok cfg L old d ss \<and> stored_raw d i t b)
      (seq (mark_deleted (sg_db cfg) i reason) (ret None)) (after_check cfg L old i) (old_ok cfg L old)"
    if "rejected_for cfg L t b (Some reason)" for t b reason
    by (rule triple_bind [OF mark_deleted_triple [OF max that]], rule triple_ret) (auto simp: after_check_def)
  have rest: "triple (\<lambda>d ss. old_ok cfg L old d ss \<and> stored_raw d i (rn_title raw) (rn_body raw))
      (if rn_title raw = [] \<or> rn_body raw = []
       then seq (mark_deleted (sg_db cfg) i EMPTY_FIELD) (ret None)
       else (let title_cleaned = normalise (kl_nfkc L) (rn_title raw); body_cleaned = normalise (kl_nfkc L) (rn_body raw)
             in if int (length body_cleaned) < cl_body_min_length (sg_clean cfg)
                then seq (mark_deleted (sg_db cfg) i BODY_TOO_SHORT) (ret None)
                else bind (already_cleaned i) (\<lambda>b. ret (if b then None else Some (title_cleaned, body_cleaned)))))
      (after_check cfg L old i) (old_ok cfg L old)" for raw :: "metadata raw_news"
  proof (cases "rn_title raw = [] \<or> rn_body raw = []")
    case True
    then show ?thesis using mark [of "rn_title raw" "rn_body raw" EMPTY_FIELD] by (simp add: rejected_for_def)
  next
    case False
    show ?thesis
    proof (cases "int (length (normalise (kl_nfkc L) (rn_body raw))) < cl_body_min_length (sg_clean cfg)")
      case True
      with False show ?thesis using mark [of "rn_title raw" "rn_body raw" BODY_TOO_SHORT]
        by (simp add: Let_def rejected_for_def passes_def)
    next
      case long: False
      have "triple (\<lambda>d ss. old_ok cfg L old d ss \<and> stored_raw d i (rn_title raw) (rn_body raw))
        (bind (already_cleaned i) (\<lambda>b. ret (if b then None
           else Some (normalise (kl_nfkc L) (rn_title raw), normalise (kl_nfkc L) (rn_body raw)))))
        (after_check cfg L old i) (old_ok cfg L old)"
      proof (rule triple_bind [OF already_cleaned_triple], rule triple_ret)
        fix b d ss
        assume pre: "old_ok cfg L old d ss \<and> stored_raw d i (rn_title raw) (rn_body raw) \<and> (b \<longrightarrow> settled old i d ss)"
        have "passes cfg L (rn_title raw) (rn_body raw)" using False long by (simp add: passes_def)
        with pre have form: "cleaned_form cfg L d i (normalise (kl_nfkc L) (rn_title raw)) (normalise (kl_nfkc L) (rn_body raw))"
          unfolding cleaned_form_def by blast
        from pre
        show "after_check cfg L old i (if b then None
            else Some (normalise (kl_nfkc L) (rn_title raw), normalise (kl_nfkc L) (rn_body raw))) d ss"
          using form by (cases b) (auto simp: after_check_def)
      qed
      with False long show ?thesis by (simp add: Let_def)
    qed
  qed
  show ?thesis unfolding process_check_def
  proof (rule triple_bind [OF fetch_raw_news_triple])
    fix found :: "metadata raw_news option"
    show "triple (\<lambda>d ss. old_ok cfg L old d ss \<and> (case found of
         None \<Rightarrow> settled old i d ss | Some raw \<Rightarrow> stored_raw d i (rn_title raw) (rn_body raw)))
      (case found of None \<Rightarrow> ret None | Some raw \<Rightarrow> if rn_title raw = [] \<or> rn_body raw = []
         then seq (mark_deleted (sg_db cfg) i EMPTY_FIELD) (ret None)
         else (let title_cleaned = normalise (kl_nfkc L) (rn_title raw); body_cleaned = normalise (kl_nfkc L) (rn_body raw)
               in if int (length body_cleaned) < cl_body_min_length (sg_clean cfg)
                  then seq (mark_deleted (sg_db cfg) i BODY_TOO_SHORT) (ret None)
                  else bind (already_cleaned i) (\<lambda>b. ret (if b then None else Some (title_cleaned, body_cleaned)))))
      (after_check cfg L old i) (old_ok cfg L old)"
    proof (cases found)
      case None
      then show ?thesis by (auto intro!: triple_ret simp: after_check_def)
    next
      case (Some raw)
      then show ?thesis using rest [of raw] by (simp only: option.case)
    qed
  qed
qed

text \<open>Storing and announcing.\<close>

lemma publish_cleaned_triple:
  "triple (\<lambda>d ss. cleaning_ok cfg L d ss \<and> old \<subseteq> set (s_cleaned_news d)
       \<and> (\<exists>c \<in> set (s_cleaned_news d). sc_raw_id c = i \<and> sc_cleaned_id c = k))
     (publish_cleaned k)
     (\<lambda>_ d ss. cleaning_ok cfg L d ss \<and> old \<subseteq> set (s_cleaned_news d) \<and> settled old i d ss)
     (\<lambda>d ss. cleaning_ok cfg L d ss \<and> old \<subseteq> set (s_cleaned_news d))"
proof -
  have x: "cleaning_ok cfg L d (snd (xadd STREAM_RAW_NEWS_CLEANED (cleaned_message k) ss))"
    if "cleaning_ok cfg L d ss" "\<exists>c \<in> set (s_cleaned_news d). sc_raw_id c = i \<and> sc_cleaned_id c = k" for d ss
    using that unfolding cleaning_ok_def xadd_streams by (auto simp: image_Un)
  have a: "clean_announced (snd (xadd STREAM_RAW_NEWS_CLEANED (cleaned_message k) ss)) k" for ss
    by (simp add: clean_announced_def xadd_streams)
  show ?thesis unfolding publish_cleaned_def
  proof (rule triple_bind)
    show "triple (\<lambda>d ss. cleaning_ok cfg L d ss \<and> old \<subseteq> set (s_cleaned_news d)
         \<and> (\<exists>c \<in> set (s_cleaned_news d). sc_raw_id c = i \<and> sc_cleaned_id c = k))
       (sadi_publish STREAM_RAW_NEWS_CLEANED (cleaned_message k))
       (\<lambda>_ d ss. cleaning_ok cfg L d ss \<and> old \<subseteq> set (s_cleaned_news d) \<and> settled old i d ss)
       (\<lambda>d ss. cleaning_ok cfg L d ss \<and> old \<subseteq> set (s_cleaned_news d))"
    proof (rule triple_publish)
      fix d ss j ss'
      assume pre: "cleaning_ok cfg L d ss \<and> old \<subseteq> set (s_cleaned_news d)
         \<and> (\<exists>c \<in> set (s_cleaned_news d). sc_raw_id c = i \<and> sc_cleaned_id c = k)"
        and s: "xadd STREAM_RAW_NEWS_CLEANED (cleaned_message k) ss = (Inr j, ss')"
      from s have ss': "ss' = snd (xadd STREAM_RAW_NEWS_CLEANED (cleaned_message k) ss)" by simp
      from pre a [of ss] have "settled old i d ss'" unfolding settled_def ss' by blast
      with pre x show "cleaning_ok cfg L d ss' \<and> old \<subseteq> set (s_cleaned_news d) \<and> settled old i d ss'"
        unfolding ss' by blast
    qed (use x in blast)+
  qed (rule triple_ret)
qed

lemma insert_cleaned_triple:
  assumes max: "1 \<le> sd_max_retry (sg_db cfg)"
    and c: "sc_raw_id c = i" "sc_title_cleaned c = fst tb" "sc_body_cleaned c = snd tb" "sc_cleaned_id c = k"
  shows "triple (before_store cfg L old i tb) (insert_cleaned_news (sg_db cfg) c)
     (\<lambda>_ d ss. cleaning_ok cfg L d ss \<and> old \<subseteq> set (s_cleaned_news d)
       \<and> (\<exists>c \<in> set (s_cleaned_news d). sc_raw_id c = i \<and> sc_cleaned_id c = k))
     (\<lambda>d ss. cleaning_ok cfg L d ss \<and> old \<subseteq> set (s_cleaned_news d))"
proof -
  have k: "before_store cfg L old i tb (snd (insert_cleaned_stmt c d)) ss" if "before_store cfg L old i tb d ss" for d ss
    using that insert_cleaned_ok [of cfg L d ss c] insert_cleaned_sub [of d c]
    by (auto simp: before_store_def c)
  have "triple (before_store cfg L old i tb) (sadi_execute (sg_db cfg) (insert_cleaned_stmt c))
     (\<lambda>_ d ss. cleaning_ok cfg L d ss \<and> old \<subseteq> set (s_cleaned_news d)
       \<and> (\<exists>c \<in> set (s_cleaned_news d). sc_raw_id c = i \<and> sc_cleaned_id c = k)) (before_store cfg L old i tb)"
  proof (rule triple_execute [OF max])
    fix d ss x d'
    assume pre: "before_store cfg L old i tb d ss" and s: "insert_cleaned_stmt c d = (Inr x, d')"
    from k [OF pre] s have "before_store cfg L old i tb d' ss" by simp
    with insert_cleaned_Inr [OF s] c
    show "cleaning_ok cfg L d' ss \<and> old \<subseteq> set (s_cleaned_news d')
       \<and> (\<exists>c \<in> set (s_cleaned_news d'). sc_raw_id c = i \<and> sc_cleaned_id c = k)"
      unfolding before_store_def by blast
  qed (rule k)
  then show ?thesis unfolding insert_cleaned_news_def by (rule triple_weaken) (auto simp: before_store_def)
qed

lemma process_store_triple:
  assumes max: "1 \<le> sd_max_retry (sg_db cfg)"
  shows "triple (before_store cfg L old i tb) (process_store cfg i tb)
     (\<lambda>_ d ss. cleaning_ok cfg L d ss \<and> old \<subseteq> set (s_cleaned_news d) \<and> settled old i d ss)
     (\<lambda>d ss. cleaning_ok cfg L d ss \<and> old \<subseteq> set (s_cleaned_news d))"
proof -
  have u: "triple (before_store cfg L old i tb) sadi_uuid4 (\<lambda>_. before_store cfg L old i tb)
      (\<lambda>d ss. cleaning_ok cfg L d ss \<and> old \<subseteq> set (s_cleaned_news d))"
    by (rule triple_weaken [OF triple_uuid4 [of "before_store cfg L old i tb"]]) (simp_all add: before_store_def)
  have n: "triple (before_store cfg L old i tb) sadi_now (\<lambda>_. before_store cfg L old i tb)
      (\<lambda>d ss. cleaning_ok cfg L d ss \<and> old \<subseteq> set (s_cleaned_news d))"
    by (rule triple_weaken [OF triple_now [of "before_store cfg L old i tb"]]) (simp_all add: before_store_def)
  show ?thesis unfolding process_store_def
    by (intro triple_bind [OF u] triple_bind [OF n] triple_bind [OF insert_cleaned_triple [OF max]], simp_all)
      (rule publish_cleaned_triple)
qed

section \<open>A worker's turn\<close>

text \<open>Whether a worker may hold this piece of work: the record's cleaned form.\<close>

definition work_ok :: "sadi_config \<Rightarrow> clean_lib \<Rightarrow> uuid \<times> pystr \<times> pystr \<Rightarrow> sadi_db \<Rightarrow> streams \<Rightarrow> bool" where
  "work_ok cfg L v d ss \<longleftrightarrow> cleaned_form cfg L d (fst v) (fst (snd v)) (snd (snd v))"

abbreviation grown_ok :: "sadi_config \<Rightarrow> clean_lib \<Rightarrow> sadi_cleaned_news set \<Rightarrow> sadi_db \<Rightarrow> streams \<Rightarrow> bool" where
  "grown_ok cfg L old d ss \<equiv> cleaning_ok cfg L d ss \<and> old \<subseteq> set (s_cleaned_news d)"

text \<open>An entry that was pending still is, or its record is settled.\<close>

definition pending_or_settled ::
  "clean_message \<Rightarrow> sadi_cleaned_news set \<Rightarrow> sadi_db \<Rightarrow> streams \<Rightarrow> bool" where
  "pending_or_settled m old d ss \<longleftrightarrow>
     cm_message_id m \<in> pending_ids ss STREAM_RAW_NEWS_INSERTED GROUP_NAME
     \<or> (\<exists>i. parse_uuid (cm_raw_id m) = Some i \<and> settled old i d ss)"

definition still_pending :: "clean_message \<Rightarrow> sadi_db \<Rightarrow> streams \<Rightarrow> bool" where
  "still_pending m d ss \<longleftrightarrow> cm_message_id m \<in> pending_ids ss STREAM_RAW_NEWS_INSERTED GROUP_NAME"

lemmas pending_db = db_blind [of "still_pending m" for m, OF still_pending_def [THEN iffD2, OF still_pending_def [THEN iffD1]]]

lemma process_check_pending: "triple (still_pending m) (process_check cfg L i) (\<lambda>_. still_pending m) (still_pending m)"
  unfolding process_check_def fetch_raw_news_def already_cleaned_def mark_deleted_def Let_def
  by (intro triple_keeps) (auto intro!: keeps.always_bind keeps.always_ret pending_db split: option.splits)

lemma process_store_pending: "triple (still_pending m) (process_store cfg i tb) (\<lambda>_. still_pending m) (still_pending m)"
proof -
  have p: "always (\<lambda>w w'. holds (still_pending m) w \<longrightarrow> holds (still_pending m) w') (publish_cleaned k)" for k
    unfolding publish_cleaned_def sadi_publish_def
    by (intro keeps.always_bind keeps.always_ret always_rs_call)
      (auto simp: holds_def still_pending_def pending_xadd)
  show ?thesis
    unfolding process_store_def insert_cleaned_news_def
    by (intro triple_keeps keeps.always_bind p uuid4_keeps now_keeps pending_db)
qed

lemma handler_ack_triple: "triple (grown_ok cfg L old) (handler_ack k) (\<lambda>_. grown_ok cfg L old) (grown_ok cfg L old)"
  and handler_ack_settled: "triple (settled old i) (handler_ack k) (\<lambda>_. settled old i) (settled old i)"
  unfolding handler_ack_def by (rule triple_ack; simp)+

lemma triple_uuid_of_text:
  assumes "\<And>i. parse_uuid t = Some i \<Longrightarrow> triple P (f i) R E" and "\<And>d ss. P d ss \<Longrightarrow> E d ss"
  shows "triple P (bind (uuid_of_text t) f) R E"
proof (cases "parse_uuid t")
  case None
  with assms(2) show ?thesis by (simp add: uuid_of_text_def bind_def raise_def valid_def holds_def)
next
  case (Some i)
  with assms(1) show ?thesis by (simp add: uuid_of_text_def)
qed

lemma leave_unacked_triple: "triple P (leave_unacked e) (\<lambda>_. P) P"
  by (cases "sadi_is_exception e") (simp_all add: leave_unacked_def triple_ret triple_raise)

end
