(* ===== verification/Sadi_Clean_Props.thy ===== *)
theory Sadi_Clean_Props
  imports Sadi_Cleaning_Inv Sadi_Sample
begin

text \<open>
  The properties of one cleaning: what an acknowledgement means, what is left alone, what happens without
  faults, and what a fault between two effects leaves behind.
\<close>

section \<open>What an acknowledgement means\<close>

lemma triple_result:
  assumes "triple P m (\<lambda>_. Q) Q" and "holds P w" and "m w = (r, w')"
  shows "Q (d_db w') (d_streams w')"
  using assms by (cases r) (auto simp: valid_def holds_def)

lemma check_and_pending:
  assumes "1 \<le> sd_max_retry (sg_db cfg)"
  shows "triple (\<lambda>d ss. old_ok cfg L old d ss \<and> still_pending m d ss) (process_check cfg L i)
     (\<lambda>r d ss. after_check cfg L old i r d ss \<and> still_pending m d ss)
     (\<lambda>d ss. old_ok cfg L old d ss \<and> still_pending m d ss)"
  by (rule triple_conj [OF process_check_triple [OF assms] process_check_pending])

lemma store_and_pending:
  assumes "1 \<le> sd_max_retry (sg_db cfg)"
  shows "triple (\<lambda>d ss. before_store cfg L old i tb d ss \<and> still_pending m d ss) (process_store cfg i tb)
     (\<lambda>_ d ss. (grown_ok cfg L old d ss \<and> settled old i d ss) \<and> still_pending m d ss)
     (\<lambda>d ss. grown_ok cfg L old d ss \<and> still_pending m d ss)"
  by (rule triple_weaken [OF triple_conj [OF process_store_triple [OF assms] process_store_pending]]) auto

lemma record_and_pending:
  assumes max: "1 \<le> sd_max_retry (sg_db cfg)"
  shows "triple (\<lambda>d ss. old_ok cfg L old d ss \<and> still_pending m d ss) (process_record cfg L i)
     (\<lambda>_ d ss. (grown_ok cfg L old d ss \<and> settled old i d ss) \<and> still_pending m d ss)
     (\<lambda>d ss. grown_ok cfg L old d ss \<and> still_pending m d ss)"
  unfolding process_record_def
proof (rule triple_bind)
  show "triple (\<lambda>d ss. old_ok cfg L old d ss \<and> still_pending m d ss) (process_check cfg L i)
     (\<lambda>r d ss. after_check cfg L old i r d ss \<and> still_pending m d ss)
     (\<lambda>d ss. grown_ok cfg L old d ss \<and> still_pending m d ss)"
    by (rule triple_weaken [OF check_and_pending [OF max, of L old m i]]) auto
  fix r :: "(pystr \<times> pystr) option"
  show "triple (\<lambda>d ss. after_check cfg L old i r d ss \<and> still_pending m d ss)
     (case r of None \<Rightarrow> ret () | Some tb \<Rightarrow> process_store cfg i tb)
     (\<lambda>_ d ss. (grown_ok cfg L old d ss \<and> settled old i d ss) \<and> still_pending m d ss)
     (\<lambda>d ss. grown_ok cfg L old d ss \<and> still_pending m d ss)"
  proof (cases r)
    case None
    then show ?thesis by (auto intro: triple_ret simp: after_check_def)
  next
    case (Some tb)
    have "triple (\<lambda>d ss. after_check cfg L old i r d ss \<and> still_pending m d ss) (process_store cfg i tb)
       (\<lambda>_ d ss. (grown_ok cfg L old d ss \<and> settled old i d ss) \<and> still_pending m d ss)
       (\<lambda>d ss. grown_ok cfg L old d ss \<and> still_pending m d ss)"
      by (rule triple_weaken [OF store_and_pending [OF max, of L old i tb m]])
        (auto simp: Some after_check_def before_store_def)
    with Some show ?thesis by simp
  qed
qed

lemma clean_one_triple:
  assumes max: "1 \<le> sd_max_retry (sg_db cfg)"
  shows "triple (\<lambda>d ss. old_ok cfg L old d ss \<and> still_pending m d ss) (clean_one cfg L m)
     (\<lambda>_ d ss. grown_ok cfg L old d ss \<and> pending_or_settled m old d ss)
     (\<lambda>d ss. grown_ok cfg L old d ss \<and> pending_or_settled m old d ss)"
proof -
  let ?Q = "\<lambda>d ss. grown_ok cfg L old d ss \<and> pending_or_settled m old d ss"
  have ack: "triple (\<lambda>d ss. (grown_ok cfg L old d ss \<and> settled old i d ss) \<and> still_pending m d ss)
      (handler_ack (cm_message_id m)) (\<lambda>_. ?Q) ?Q"
    if "parse_uuid (cm_raw_id m) = Some i" for i
    by (rule triple_weaken [OF triple_conj [OF handler_ack_triple [of cfg L old] handler_ack_settled [of old i]]])
      (use that in \<open>auto simp: pending_or_settled_def\<close>)
  have body: "triple (\<lambda>d ss. old_ok cfg L old d ss \<and> still_pending m d ss)
     (bind (uuid_of_text (cm_raw_id m)) (\<lambda>raw_id. seq (process_record cfg L raw_id) (handler_ack (cm_message_id m))))
     (\<lambda>_. ?Q) ?Q"
  proof (rule triple_uuid_of_text)
    fix i
    assume i: "parse_uuid (cm_raw_id m) = Some i"
    show "triple (\<lambda>d ss. old_ok cfg L old d ss \<and> still_pending m d ss)
        (seq (process_record cfg L i) (handler_ack (cm_message_id m))) (\<lambda>_. ?Q) ?Q"
    proof (rule triple_bind [OF _ ack [OF i]])
      show "triple (\<lambda>d ss. old_ok cfg L old d ss \<and> still_pending m d ss) (process_record cfg L i)
        (\<lambda>_ d ss. (grown_ok cfg L old d ss \<and> settled old i d ss) \<and> still_pending m d ss) ?Q"
        by (rule triple_weaken [OF record_and_pending [OF max, of L old m i]])
          (auto simp: pending_or_settled_def still_pending_def)
    qed
  qed (auto simp: pending_or_settled_def still_pending_def)
  show ?thesis unfolding clean_one_def by (rule triple_try [OF body leave_unacked_triple])
qed

lemma other_pending:
  assumes "k \<noteq> cm_message_id m"
  shows "triple (\<lambda>_ ss. k \<in> pending_ids ss STREAM_RAW_NEWS_INSERTED GROUP_NAME) (clean_one cfg L m)
     (\<lambda>_ _ ss. k \<in> pending_ids ss STREAM_RAW_NEWS_INSERTED GROUP_NAME)
     (\<lambda>_ ss. k \<in> pending_ids ss STREAM_RAW_NEWS_INSERTED GROUP_NAME)"
proof -
  define P where "P = still_pending \<lparr> cm_message_id = k, cm_raw_id = [] \<rparr>"
  have ack: "triple P (handler_ack (cm_message_id m)) (\<lambda>_. P) P"
    unfolding handler_ack_def
    by (rule triple_ack) (use assms in \<open>auto simp: P_def still_pending_def pending_xack\<close>)
  have "triple P (process_record cfg L i) (\<lambda>_. P) P" for i
    unfolding process_record_def P_def
    by (rule triple_bind [OF process_check_pending])
      (auto intro: process_store_pending triple_ret split: option.splits)
  then have rec: "triple P (seq (process_record cfg L i) (handler_ack (cm_message_id m))) (\<lambda>_. P) P" for i
    by (rule triple_bind) (rule ack)
  have "triple P (bind (uuid_of_text (cm_raw_id m)) (\<lambda>raw_id.
      seq (process_record cfg L raw_id) (handler_ack (cm_message_id m)))) (\<lambda>_. P) P"
    by (rule triple_uuid_of_text [OF rec])
  then have "triple P (clean_one cfg L m) (\<lambda>_. P) P"
    unfolding clean_one_def by (rule triple_try) (rule leave_unacked_triple)
  then show ?thesis by (simp add: P_def still_pending_def [abs_def])
qed

text \<open>C4: Cleaning a message never acknowledges another one, and takes its own off the pending list only when its
  record is settled: not stored, rejected, or with a cleaned record that was there before or is announced;
  whatever faults occur.\<close>

theorem cleaning_acknowledges_settled:
  assumes max: "1 \<le> sd_max_retry (sg_db cfg)" and ok: "cleaning_ok cfg L (d_db w) (d_streams w)"
    and run: "clean_one cfg L m w = (r, w')"
    and k: "k \<in> pending_ids (d_streams w) STREAM_RAW_NEWS_INSERTED GROUP_NAME"
  shows "k \<in> pending_ids (d_streams w') STREAM_RAW_NEWS_INSERTED GROUP_NAME
    \<or> k = cm_message_id m
      \<and> (\<exists>i. parse_uuid (cm_raw_id m) = Some i \<and> settled (set (s_cleaned_news (d_db w))) i (d_db w') (d_streams w'))"
proof (cases "k = cm_message_id m")
  case True
  let ?old = "set (s_cleaned_news (d_db w))"
  have "holds (\<lambda>d ss. old_ok cfg L ?old d ss \<and> still_pending m d ss) w"
    using ok k True by (simp add: holds_def still_pending_def)
  from triple_result [OF clean_one_triple [OF max] this run]
  show ?thesis using True by (auto simp: pending_or_settled_def)
next
  case False
  have "holds (\<lambda>_ ss. k \<in> pending_ids ss STREAM_RAW_NEWS_INSERTED GROUP_NAME) w" using k by (simp add: holds_def)
  from triple_result [OF other_pending [OF False] this run] show ?thesis by simp
qed

section \<open>Without faults\<close>

definition acked :: "clean_message \<Rightarrow> streams \<Rightarrow> streams" where
  "acked m ss = snd (xack STREAM_RAW_NEWS_INSERTED GROUP_NAME (cm_message_id m) ss)"

definition rejected_as :: "uuid \<Rightarrow> pystr \<Rightarrow> sadi_db \<Rightarrow> sadi_db" where
  "rejected_as i reason d = d\<lparr> s_raw_news := map (mark_row i reason) (s_raw_news d) \<rparr>"

text \<open>The world after an undisturbed cleaning: one effect on the tables, and the message acknowledged.\<close>

definition cleaned_world :: "sadi_config \<Rightarrow> clean_lib \<Rightarrow> clean_message \<Rightarrow> uuid \<Rightarrow> 'z sadi_world_scheme \<Rightarrow> 'z sadi_world_scheme" where
  "cleaned_world cfg L m i w = (case find (\<lambda>r. rn_raw_id r = i \<and> \<not> rn_is_deleted r) (s_raw_news (d_db w)) of
       None \<Rightarrow> w\<lparr> d_streams := acked m (d_streams w) \<rparr>
     | Some r \<Rightarrow>
         if rn_title r = [] \<or> rn_body r = []
         then w\<lparr> d_db := rejected_as i EMPTY_FIELD (d_db w), d_streams := acked m (d_streams w) \<rparr>
         else if \<not> passes cfg L (rn_title r) (rn_body r)
         then w\<lparr> d_db := rejected_as i BODY_TOO_SHORT (d_db w), d_streams := acked m (d_streams w) \<rparr>
         else if \<exists>c \<in> set (s_cleaned_news (d_db w)). sc_raw_id c = i
         then w\<lparr> d_streams := acked m (d_streams w) \<rparr>
         else w\<lparr> d_next_uuid := Suc (d_next_uuid w),
                d_db := (d_db w)\<lparr> s_cleaned_news := s_cleaned_news (d_db w) @
                  [\<lparr> sc_cleaned_id = d_next_uuid w, sc_raw_id = i, sc_title_cleaned = normalise (kl_nfkc L) (rn_title r),
                     sc_body_cleaned = normalise (kl_nfkc L) (rn_body r), sc_created_at = d_now w \<rparr>] \<rparr>,
                d_streams := acked m (snd (xadd STREAM_RAW_NEWS_CLEANED (cleaned_message (d_next_uuid w)) (d_streams w))) \<rparr>)"

lemma undisturbed:
  "d_pg w = [] \<Longrightarrow> sadi_pg_call stmt w = (fst (stmt (d_db w)), w\<lparr> d_db := snd (stmt (d_db w)) \<rparr>)"
  "d_rs w = [] \<Longrightarrow> sadi_publish name f w = (Inr (sm_next_id (the_stream (d_streams w) name)), w\<lparr> d_streams := snd (xadd name f (d_streams w)) \<rparr>)"
  "d_rs w = [] \<Longrightarrow> sadi_ack name grp k w = (Inr (), w\<lparr> d_streams := snd (xack name grp k (d_streams w)) \<rparr>)"
  by (cases "stmt (d_db w)"; simp add: sadi_pg_call_def)
    (auto simp: sadi_publish_def sadi_ack_def sadi_rs_call_def xadd_def xack_def Let_def io_defs split: option.splits)

lemma undisturbed_execute:
  assumes "d_pg w = []" and "1 \<le> sd_max_retry cfg" and "stmt (d_db w) = (Inr x, d)"
  shows "sadi_execute cfg stmt w = (Inr (), w\<lparr> d_db := d \<rparr>)"
  using assms unfolding sadi_execute_def run_with_retry_def
  by (subst run_attempts.simps) (simp add: undisturbed io_defs)

lemma undisturbed_fetch: "d_pg w = [] \<Longrightarrow> fetch_one q w = (Inr (q (d_db w)), w)"
  by (simp add: fetch_one_def run_read_def undisturbed io_defs)

lemma undisturbed_store:
  assumes "d_pg w = []" and "d_rs w = []" and "1 \<le> sd_max_retry (sg_db cfg)"
    and "d_next_uuid w \<notin> sc_cleaned_id ` set (s_cleaned_news (d_db w))" and "i \<in> rn_raw_id ` set (s_raw_news (d_db w))"
  shows "process_store cfg i tb w = (Inr (), w\<lparr> d_next_uuid := Suc (d_next_uuid w),
     d_db := (d_db w)\<lparr> s_cleaned_news := s_cleaned_news (d_db w) @
       [\<lparr> sc_cleaned_id = d_next_uuid w, sc_raw_id = i, sc_title_cleaned = fst tb, sc_body_cleaned = snd tb,
          sc_created_at = d_now w \<rparr>] \<rparr>,
     d_streams := snd (xadd STREAM_RAW_NEWS_CLEANED (cleaned_message (d_next_uuid w)) (d_streams w)) \<rparr>)"
proof -
  define c where "c = \<lparr> sc_cleaned_id = d_next_uuid w, sc_raw_id = i, sc_title_cleaned = fst tb, sc_body_cleaned = snd tb,
    sc_created_at = d_now w \<rparr>"
  have "insert_cleaned_stmt c (d_db w) = (Inr (), (d_db w)\<lparr> s_cleaned_news := s_cleaned_news (d_db w) @ [c] \<rparr>)"
    using assms(4,5) by (simp add: insert_cleaned_stmt_def c_def)
  then have "insert_cleaned_news (sg_db cfg) c (w\<lparr> d_next_uuid := Suc (d_next_uuid w) \<rparr>) =
      (Inr (), w\<lparr> d_next_uuid := Suc (d_next_uuid w), d_db := (d_db w)\<lparr> s_cleaned_news := s_cleaned_news (d_db w) @ [c] \<rparr> \<rparr>)"
    unfolding insert_cleaned_news_def
    using undisturbed_execute [OF _ assms(3), of "w\<lparr> d_next_uuid := Suc (d_next_uuid w) \<rparr>" "insert_cleaned_stmt c"] assms(1) by simp
  then show ?thesis
    using assms(2) by (simp add: process_store_def sadi_uuid4_def sadi_now_def io_defs publish_cleaned_def undisturbed c_def)
qed

text \<open>C14: Without faults a message with a well-formed raw_id is processed to its end: the record is rejected with its
  reason, or its cleaned form is stored once under a new id and announced, or nothing is done because it is gone
  or cleaned already; then the message is acknowledged, and nothing else changes.\<close>

theorem undisturbed_cleaning:
  assumes "d_pg w = []" and "d_rs w = []" and "1 \<le> sd_max_retry (sg_db cfg)" and "parse_uuid (cm_raw_id m) = Some i"
    and fresh: "d_next_uuid w \<notin> sc_cleaned_id ` set (s_cleaned_news (d_db w))"
  shows "clean_one cfg L m w = (Inr (), cleaned_world cfg L m i w)"
proof -
  note base = clean_one_def uuid_of_text_def process_record_def process_check_def fetch_raw_news_def already_cleaned_def
    handler_ack_def mark_deleted_def undisturbed_execute [OF assms(1,3)] undisturbed undisturbed_fetch assms acked_def
  show ?thesis
  proof (cases "find (\<lambda>r. rn_raw_id r = i \<and> \<not> rn_is_deleted r) (s_raw_news (d_db w))")
    case None
    then show ?thesis by (simp add: base cleaned_world_def io_defs)
  next
    case (Some r)
    have r: "r \<in> set (s_raw_news (d_db w))" "rn_raw_id r = i" using find_Some_mem [OF Some] by simp_all
    have raw: "rn_title (raw_of_row (kl_loads L) r) = rn_title r" "rn_body (raw_of_row (kl_loads L) r) = rn_body r"
      by (simp_all add: raw_of_row_def)
    show ?thesis
    proof (cases "rn_title r = [] \<or> rn_body r = []")
      case True
      with Some raw show ?thesis by (simp add: base cleaned_world_def io_defs mark_deleted_stmt_def rejected_as_def)
    next
      case filled: False
      show ?thesis
      proof (cases "passes cfg L (rn_title r) (rn_body r)")
        case False
        with Some raw filled show ?thesis
          by (simp add: base cleaned_world_def io_defs mark_deleted_stmt_def rejected_as_def passes_def)
      next
        case ok: True
        show ?thesis
        proof (cases "find (\<lambda>c. sc_raw_id c = i) (s_cleaned_news (d_db w))")
          case (Some c)
          from find_Some_mem [OF this] \<open>find _ (s_raw_news _) = Some r\<close> Some raw filled ok show ?thesis
            by (auto simp: base cleaned_world_def io_defs passes_def)
        next
          case new: None
          then have "\<not> (\<exists>c \<in> set (s_cleaned_news (d_db w)). sc_raw_id c = i)" by (auto simp: find_None_iff)
          with Some new r raw filled ok show ?thesis
            by (auto simp: base cleaned_world_def io_defs passes_def undisturbed_store)
        qed
      qed
    qed
  qed
qed

section \<open>The sample record\<close>

lemma small_clean_ok: "cleaning_ok small_config small_lib (d_db small_world) (d_streams small_world)"
  by (simp add: cleaning_ok_def raw_keys_distinct_def small_defs the_stream_def empty_stream_def)

lemma small_pending: "pending_ids (d_streams small_world) STREAM_RAW_NEWS_INSERTED GROUP_NAME = {1}"
  by (simp add: small_defs pending_ids_def the_group_def the_stream_def)

lemma small_passes: "passes small_config small_lib (u ''T'') (u ''bc'')"
proof -
  have "length (u ''bc'') = 2" "u ''T'' \<noteq> []" "u ''bc'' \<noteq> []" by (simp_all add: u_def)
  then show ?thesis by (simp add: passes_def small_config_def)
qed

lemma small_max [simp]: "sd_max_retry (sg_db small_config) = 3"
  by (simp add: small_config_def)

theorem undisturbed_cleaning_witness:
  "\<exists>w'. clean_one small_config small_lib small_message small_world = (Inr (), w')
     \<and> map sc_body_cleaned (s_cleaned_news (d_db w')) = [u ''bc''] \<and> map sc_raw_id (s_cleaned_news (d_db w')) = [7]
     \<and> pending_ids (d_streams w') STREAM_RAW_NEWS_INSERTED GROUP_NAME = {} \<and> clean_announced (d_streams w') 100"
proof -
  have "clean_one small_config small_lib small_message small_world
      = (Inr (), cleaned_world small_config small_lib small_message 7 small_world)"
    by (rule undisturbed_cleaning) (simp_all add: small_defs small_message_def)
  moreover have "u ''T'' \<noteq> []" "u ''bc'' \<noteq> []" by (simp_all add: u_def)
  ultimately show ?thesis
    using small_pending small_passes
    by (simp add: cleaned_world_def small_defs small_message_def acked_def clean_announced_def pending_xack pending_xadd xadd_streams)
qed

lemmas clean_steps_defs = uuid_of_text_def process_record_def process_check_def fetch_raw_news_def already_cleaned_def
  handler_ack_def mark_deleted_def undisturbed_fetch process_store_def sadi_uuid4_def sadi_now_def publish_cleaned_def
  raw_of_row_def

lemma small_texts [simp]: "u ''T'' \<noteq> []" "u ''bc'' \<noteq> []" "length (u ''bc'') = 2" "cl_body_min_length (sg_clean small_config) = 2"
  by (simp_all add: u_def small_config_def)

text \<open>The check of the sample record, in any world that has it and no cleaned record yet.\<close>

lemma small_check:
  assumes "d_pg w = []" and "d_db w = small_db"
  shows "process_check small_config small_lib 7 w = (Inr (Some (u ''T'', u ''bc'')), w)"
  using assms by (simp add: clean_steps_defs io_defs small_db_def small_raw_def)

lemma small_store:
  assumes "d_pg w = []" and "s_raw_news (d_db w) = [small_raw]" and "d_next_uuid w \<notin> sc_cleaned_id ` set (s_cleaned_news (d_db w))"
  shows "insert_cleaned_news (sg_db small_config) \<lparr> sc_cleaned_id = d_next_uuid w, sc_raw_id = 7, sc_title_cleaned = t,
      sc_body_cleaned = b, sc_created_at = c \<rparr> w = (Inr (), w\<lparr> d_db := (d_db w)\<lparr> s_cleaned_news := s_cleaned_news (d_db w) @
        [\<lparr> sc_cleaned_id = d_next_uuid w, sc_raw_id = 7, sc_title_cleaned = t, sc_body_cleaned = b, sc_created_at = c \<rparr>] \<rparr> \<rparr>)"
  unfolding insert_cleaned_news_def
  by (rule undisturbed_execute) (use assms in \<open>simp_all add: insert_cleaned_stmt_def small_raw_def\<close>)

definition small_cleaned :: "uuid \<Rightarrow> sadi_cleaned_news" where
  "small_cleaned i = \<lparr> sc_cleaned_id = i, sc_raw_id = 7, sc_title_cleaned = u ''T'', sc_body_cleaned = u ''bc'',
     sc_created_at = 1700000300000000 \<rparr>"

lemma small_clean_run:
  "clean_one small_config small_lib small_message small_world = (Inr (), small_world\<lparr> d_next_uuid := 101,
     d_db := small_db\<lparr> s_cleaned_news := [small_cleaned 100] \<rparr>,
     d_streams := acked small_message (snd (xadd STREAM_RAW_NEWS_CLEANED (cleaned_message 100) small_streams)) \<rparr>)"
proof -
  have c: "process_check small_config small_lib 7 small_world = (Inr (Some (u ''T'', u ''bc'')), small_world)"
    by (rule small_check) simp_all
  show ?thesis
    by (simp add: clean_one_def uuid_of_text_def process_record_def bind_def c handler_ack_def undisturbed_store
        undisturbed try_except_def acked_def small_cleaned_def ret_def)
qed

theorem cleaning_acknowledges_settled_witness:
  "settled {} 7 (d_db (snd (clean_one small_config small_lib small_message small_world)))
     (d_streams (snd (clean_one small_config small_lib small_message small_world)))"
proof -
  have "1 \<notin> pending_ids (d_streams (snd (clean_one small_config small_lib small_message small_world)))
      STREAM_RAW_NEWS_INSERTED GROUP_NAME"
    using small_pending by (simp add: small_clean_run acked_def pending_xack pending_xadd)
  then show ?thesis
    using cleaning_acknowledges_settled [OF _ small_clean_ok prod.collapse [symmetric], of 1 small_message] small_pending
    by auto
qed

section \<open>What a fault leaves behind\<close>

text \<open>The announcement of a stored record fails; at the redelivery the record counts as cleaned already: the message
  is acknowledged and the cleaned record is never announced.\<close>

lemma announcement_lost:
  assumes "w = small_world\<lparr> d_rs := [Before (Lib (Redis RedisConnectionError))] \<rparr>"
    and "clean_one small_config small_lib small_message w = (r, w1)"
    and "clean_one small_config small_lib small_message w1 = (r', w2)"
  shows "s_cleaned_news (d_db w2) \<noteq> [] \<and> pending_ids (d_streams w2) STREAM_RAW_NEWS_INSERTED GROUP_NAME = {}
     \<and> sm_entries (the_stream (d_streams w2) STREAM_RAW_NEWS_CLEANED) = []"
proof -
  have c: "process_check small_config small_lib 7 w = (Inr (Some (u ''T'', u ''bc'')), w)"
    by (rule small_check) (simp_all add: assms(1))
  define v where "v = w\<lparr> d_next_uuid := 101, d_db := small_db\<lparr> s_cleaned_news := [small_cleaned 100] \<rparr>, d_rs := [] \<rparr>"
  have "process_store small_config 7 (u ''T'', u ''bc'') w = (Inl (Lib (Redis RedisConnectionError)), v)"
    using undisturbed_execute [of "w\<lparr> d_next_uuid := 101 \<rparr>" "sg_db small_config" "insert_cleaned_stmt (small_cleaned 100)" "()"
        "small_db\<lparr> s_cleaned_news := [small_cleaned 100] \<rparr>"]
    by (simp add: process_store_def sadi_uuid4_def sadi_now_def io_defs publish_cleaned_def sadi_publish_def sadi_rs_call_def
        insert_cleaned_news_def insert_cleaned_stmt_def v_def assms(1) small_cleaned_def)
  then have "clean_one small_config small_lib small_message w = (Inr (), v)"
    by (simp add: clean_one_def uuid_of_text_def process_record_def bind_def c try_except_def ret_def leave_unacked_def)
  with assms(2) have w1: "w1 = v" by simp
  have "process_check small_config small_lib 7 v = (Inr None, v)"
    by (simp add: clean_steps_defs io_defs v_def assms(1) small_raw_def small_cleaned_def)
  then have "clean_one small_config small_lib small_message v = (Inr (), v\<lparr> d_streams := acked small_message (d_streams v) \<rparr>)"
    by (simp add: clean_one_def uuid_of_text_def process_record_def io_defs handler_ack_def undisturbed v_def acked_def)
  with assms(3) w1 have "w2 = v\<lparr> d_streams := acked small_message (d_streams v) \<rparr>" by simp
  then show ?thesis
    using small_pending
    by (simp add: v_def assms(1) acked_def pending_xack) (simp add: small_streams_def the_stream_def empty_stream_def)
qed

text \<open>Two workers hold the same message, delivered twice: both store a cleaned record of it.\<close>

lemma cleaned_twice:
  assumes "clean_check small_config small_lib small_message small_world = (r1, w1)"
    and "clean_check small_config small_lib small_message w1 = (r2, w2)"
    and "clean_store small_config small_message (7, u ''T'', u ''bc'') w2 = (q1, w3)"
    and "clean_store small_config small_message (7, u ''T'', u ''bc'') w3 = (q2, w4)"
  shows "r1 = Inr (Some (7, u ''T'', u ''bc'')) \<and> r2 = r1 \<and> map sc_raw_id (s_cleaned_news (d_db w4)) = [7, 7]"
proof -
  have c: "process_check small_config small_lib 7 small_world = (Inr (Some (u ''T'', u ''bc'')), small_world)"
    by (rule small_check) simp_all
  then have k: "clean_check small_config small_lib small_message small_world = (Inr (Some (7, u ''T'', u ''bc'')), small_world)"
    by (simp add: clean_check_def uuid_of_text_def io_defs)
  with assms(1,2) have w: "w2 = small_world" "r1 = Inr (Some (7, u ''T'', u ''bc''))" "r2 = r1" by simp_all
  have s: "q = Inr () \<and> d_pg v' = [] \<and> d_rs v' = [] \<and> s_raw_news (d_db v') = [small_raw] \<and> d_next_uuid v' = Suc (d_next_uuid v)
      \<and> (\<exists>c. sc_raw_id c = 7 \<and> sc_cleaned_id c = d_next_uuid v \<and> s_cleaned_news (d_db v') = s_cleaned_news (d_db v) @ [c])"
    if "clean_store small_config small_message (7, u ''T'', u ''bc'') v = (q, v')" "d_pg v = []" "d_rs v = []"
      "s_raw_news (d_db v) = [small_raw]" "d_next_uuid v \<notin> sc_cleaned_id ` set (s_cleaned_news (d_db v))"
    for q and v v' :: crawl_world
    using that(1) by (auto simp: clean_store_def undisturbed_store that(2-) io_defs handler_ack_def undisturbed)
  from s [OF assms(3)] w obtain c where c: "sc_raw_id c = 7" "sc_cleaned_id c = 100" "s_cleaned_news (d_db w3) = [c]"
    and w3: "d_pg w3 = []" "d_rs w3 = []" "s_raw_news (d_db w3) = [small_raw]" "d_next_uuid w3 = 101" by auto
  from s [OF assms(4) w3(1,2,3)] c w3(4) w show ?thesis by auto
qed

end
