(* ===== verification/Sadi_Pool_Props.thy ===== *)
theory Sadi_Pool_Props
  imports Sadi_Crawl_Inv Sadi_Sample "HOL-Library.Multiset"
begin

text \<open>
  The worker pool ends, in every interleaving, and lets each of its items contribute at most once; the
  articles the crawlers return have bodies, and those of HKEX the link, the headline and the stock codes of
  their row; a page takes a bounded number of requests.
\<close>

section \<open>What the pool returns\<close>

text \<open>The outcomes are those of some of the items, each of them taken at most once.\<close>

definition pool_outcomes ::
  "('i \<Rightarrow> ('z, crawl_outcome) crawl) \<Rightarrow> 'i multiset \<Rightarrow> crawl_outcome list \<Rightarrow> bool" where
  "pool_outcomes fetch items outs \<longleftrightarrow>
     (\<exists>is. mset is \<subseteq># items \<and> list_all2 (\<lambda>i r. \<exists>w1 w2. fetch i w1 = (Inr r, w2)) is outs)"

lemma pool_outcomes_mono: "pool_outcomes fetch A outs \<Longrightarrow> A \<subseteq># B \<Longrightarrow> pool_outcomes fetch B outs"
  unfolding pool_outcomes_def by (meson subset_mset.order_trans)

lemma pool_outcomes_Cons:
  assumes "pool_outcomes fetch A outs" and "fetch i w1 = (Inr r, w2)"
  shows "pool_outcomes fetch (add_mset i A) (r # outs)"
proof -
  obtain xs where "mset xs \<subseteq># A" "list_all2 (\<lambda>i r. \<exists>w1 w2. fetch i w1 = (Inr r, w2)) xs outs"
    using assms(1) by (auto simp: pool_outcomes_def)
  then have "mset (i # xs) \<subseteq># add_mset i A
      \<and> list_all2 (\<lambda>i r. \<exists>w1 w2. fetch i w1 = (Inr r, w2)) (i # xs) (r # outs)"
    using assms(2) by auto
  then show ?thesis unfolding pool_outcomes_def by blast
qed

lemma items_remove:
  "j < length ts \<Longrightarrow> add_mset (task_item (ts ! j)) (mset (map task_item (remove_at j ts))) = mset (map task_item ts)"
proof -
  assume "j < length ts"
  then have "mset (map task_item ts) = mset (map task_item (take j ts @ ts ! j # drop (Suc j) ts))"
    by (simp flip: remove_at_split)
  then show ?thesis by (simp add: remove_at_def)
qed

lemma items_update:
  "j < length ts \<Longrightarrow> task_item t = task_item (ts ! j) \<Longrightarrow> mset (map task_item (ts[j := t])) = mset (map task_item ts)"
proof -
  assume j: "j < length ts" and t: "task_item t = task_item (ts ! j)"
  from j have "mset (map task_item ts) = mset (map task_item (take j ts @ ts ! j # drop (Suc j) ts))"
    by (simp flip: remove_at_split)
  with j t show ?thesis by (simp add: upd_conv_take_nth_drop)
qed

text \<open>One turn of the pool.\<close>

lemma gather_turn:
  assumes "ready_tasks permits ts \<noteq> []" and "next_choice w = (Inr s, w0)"
  shows "gather check fetch permits ts result w =
    (let j = chosen_task s permits ts
     in case ts ! j of
          Checking i \<Rightarrow> bind (check i) (\<lambda>skip.
            if skip then gather check fetch permits (remove_at j ts) result
            else gather check fetch permits (ts[j := Waiting_slot i]) result)
        | Waiting_slot i \<Rightarrow> gather check fetch (permits - 1) (ts[j := Fetching i]) result
        | Fetching i \<Rightarrow> bind (fetch i) (\<lambda>outcome.
            gather check fetch (Suc permits) (remove_at j ts) (add_outcome outcome result))) w0"
  using assms by (subst gather.simps) (simp add: bind_def)

lemma next_choice_Inr: "\<exists>s w'. next_choice w = (Inr s, w')"
  by (simp add: next_choice_def)

lemma gather_outcomes:
  "gather check fetch permits ts result w = (Inr r, w') \<Longrightarrow>
     \<exists>outs. r = fold add_outcome outs result \<and> pool_outcomes fetch (mset (map task_item ts)) outs"
proof (induction check fetch permits ts result arbitrary: w rule: gather.induct)
  case (1 check fetch permits ts result)
  show ?case
  proof (cases "ready_tasks permits ts = []")
    case True
    with "1.prems" have "r = result" by (subst (asm) gather.simps) (simp split: if_splits)
    moreover have "pool_outcomes fetch (mset (map task_item ts)) []"
      unfolding pool_outcomes_def by (intro exI [of _ "[]"]) simp
    ultimately show ?thesis by (intro exI [of _ "[]"]) simp
  next
    case False
    obtain s w0 where s: "next_choice w = (Inr s, w0)" using next_choice_Inr by blast
    define j where "j = chosen_task s permits ts"
    have j: "j < length ts" using chosen_task [OF False] by (simp add: j_def)
    note run = "1.prems" [unfolded gather_turn [OF False s] Let_def, folded j_def]
    note IH = "1.IH" [OF False j_def]
    show ?thesis
    proof (cases "ts ! j")
      case (Checking i)
      with run obtain skip w1 where c: "check i w0 = (Inr skip, w1)"
        and g: "(if skip then gather check fetch permits (remove_at j ts) result
            else gather check fetch permits (ts[j := Waiting_slot i]) result) w1 = (Inr r, w')"
        by (auto simp: bind_eq_Inr)
      show ?thesis
      proof (cases skip)
        case True
        with g IH(1) [OF Checking True] obtain outs where
          "r = fold add_outcome outs result" "pool_outcomes fetch (mset (map task_item (remove_at j ts))) outs" by auto
        moreover have "mset (map task_item (remove_at j ts)) \<subseteq># mset (map task_item ts)"
          unfolding items_remove [OF j, symmetric] by simp
        ultimately show ?thesis using pool_outcomes_mono by blast
      next
        case False
        with g IH(2) [OF Checking False] items_update [OF j, of "Waiting_slot i"] Checking show ?thesis by auto
      qed
    next
      case (Waiting_slot i)
      with run IH(3) [OF Waiting_slot] items_update [OF j, of "Fetching i"] show ?thesis by auto
    next
      case (Fetching i)
      with run obtain outcome w1 where f: "fetch i w0 = (Inr outcome, w1)"
        and g: "gather check fetch (Suc permits) (remove_at j ts) (add_outcome outcome result) w1 = (Inr r, w')"
        by (auto simp: bind_eq_Inr)
      obtain outs where o: "r = fold add_outcome outs (add_outcome outcome result)"
        "pool_outcomes fetch (mset (map task_item (remove_at j ts))) outs"
        using IH(4) [OF Fetching g] by blast
      have "pool_outcomes fetch (mset (map task_item ts)) (outcome # outs)"
        using pool_outcomes_Cons [OF o(2) f] items_remove [OF j] Fetching by simp
      with o(1) show ?thesis by (intro exI [of _ "outcome # outs"]) simp
    qed
  qed
qed

section \<open>The pool ends\<close>

definition fetching_tasks :: "'i crawl_task list \<Rightarrow> nat" where
  "fetching_tasks ts = length (filter (\<lambda>t. \<exists>i. t = Fetching i) ts)"

lemma ready_if_progress: "ts \<noteq> [] \<Longrightarrow> 0 < permits + fetching_tasks ts \<Longrightarrow> ready_tasks permits ts \<noteq> []"
proof -
  assume ne: "ts \<noteq> []" and p: "0 < permits + fetching_tasks ts"
  have "\<exists>j < length ts. task_ready permits (ts ! j)"
  proof (cases "0 < permits")
    case True
    then have "task_ready permits (ts ! 0)" by (cases "ts ! 0") simp_all
    with ne show ?thesis by blast
  next
    case False
    with p obtain t where "t \<in> set ts" "\<exists>i. t = Fetching i"
      by (auto simp: fetching_tasks_def filter_empty_conv length_greater_0_conv)
    then show ?thesis by (auto simp: in_set_conv_nth)
  qed
  then show ?thesis by (auto simp: ready_tasks_def filter_empty_conv)
qed

lemma fetching_remove:
  "j < length ts \<Longrightarrow> fetching_tasks (remove_at j ts) + (case ts ! j of Fetching _ \<Rightarrow> 1 | _ \<Rightarrow> 0) = fetching_tasks ts"
proof -
  assume "j < length ts"
  then have "fetching_tasks ts = fetching_tasks (take j ts @ ts ! j # drop (Suc j) ts)" by (simp flip: remove_at_split)
  then show ?thesis by (cases "ts ! j") (simp_all add: fetching_tasks_def remove_at_def)
qed

lemma fetching_update:
  "j < length ts \<Longrightarrow> fetching_tasks (ts[j := t]) + (case ts ! j of Fetching _ \<Rightarrow> 1 | _ \<Rightarrow> 0)
     = fetching_tasks ts + (case t of Fetching _ \<Rightarrow> 1 | _ \<Rightarrow> 0)"
proof -
  assume j: "j < length ts"
  then have "fetching_tasks ts = fetching_tasks (take j ts @ ts ! j # drop (Suc j) ts)" by (simp flip: remove_at_split)
  with j show ?thesis by (cases "ts ! j"; cases t) (simp_all add: fetching_tasks_def upd_conv_take_nth_drop)
qed

text \<open>As long as the calls return and keep I, so does the pool.\<close>

lemma gather_ends:
  assumes "\<And>i w. I w \<Longrightarrow> \<exists>b w'. check i w = (Inr b, w') \<and> I w'" and "\<And>i w. I w \<Longrightarrow> \<exists>r w'. fetch i w = (Inr r, w') \<and> I w'"
    and "\<And>w. I w \<Longrightarrow> I (w\<lparr> d_choices := tl (d_choices w) \<rparr>)" and "0 < permits + fetching_tasks ts" and "I w"
  shows "\<exists>r w'. gather check fetch permits ts result w = (Inr r, w')"
  using assms
proof (induction check fetch permits ts result arbitrary: w rule: gather.induct)
  case (1 check fetch permits ts result)
  show ?case
  proof (cases "ready_tasks permits ts = []")
    case True
    then have "ts = []" using ready_if_progress [OF _ "1.prems"(4)] by (cases "ts = []") simp_all
    with True show ?thesis by (subst gather.simps) simp
  next
    case False
    obtain s w0 where s: "next_choice w = (Inr s, w0)" and I0: "I w0"
      using "1.prems"(3) [OF "1.prems"(5)] by (auto simp: next_choice_def)
    define j where "j = chosen_task s permits ts"
    have j: "j < length ts" and ready: "task_ready permits (ts ! j)" using chosen_task [OF False] by (simp_all add: j_def)
    note IH = "1.IH" [OF False j_def]
    note fetching = fetching_remove [OF j] fetching_update [OF j]
    show ?thesis unfolding gather_turn [OF False s] Let_def j_def [symmetric]
    proof (cases "ts ! j")
      case (Checking i)
      obtain b w1 where c: "check i w0 = (Inr b, w1)" "I w1" using "1.prems"(1) [OF I0] by blast
      have "\<exists>r w'. (if b then gather check fetch permits (remove_at j ts) result
            else gather check fetch permits (ts[j := Waiting_slot i]) result) w1 = (Inr r, w')"
        using IH(1,2) [OF Checking, of b w1] "1.prems"(1-4) c(2) fetching(1) fetching(2) [of "Waiting_slot i"] Checking
        by (cases b) auto
      with c Checking show "\<exists>r w'. (case ts ! j of
          Checking i \<Rightarrow> bind (check i) (\<lambda>skip.
            if skip then gather check fetch permits (remove_at j ts) result
            else gather check fetch permits (ts[j := Waiting_slot i]) result)
        | Waiting_slot i \<Rightarrow> gather check fetch (permits - 1) (ts[j := Fetching i]) result
        | Fetching i \<Rightarrow> bind (fetch i) (\<lambda>outcome.
            gather check fetch (Suc permits) (remove_at j ts) (add_outcome outcome result))) w0 = (Inr r, w')"
        by (simp add: bind_def)
    next
      case (Waiting_slot i)
      have "0 < permits - 1 + fetching_tasks (ts[j := Fetching i])"
        using fetching(2) [of "Fetching i"] Waiting_slot by simp
      with IH(3) [OF Waiting_slot "1.prems"(1-3) _ I0] Waiting_slot show "\<exists>r w'. (case ts ! j of
          Checking i \<Rightarrow> bind (check i) (\<lambda>skip.
            if skip then gather check fetch permits (remove_at j ts) result
            else gather check fetch permits (ts[j := Waiting_slot i]) result)
        | Waiting_slot i \<Rightarrow> gather check fetch (permits - 1) (ts[j := Fetching i]) result
        | Fetching i \<Rightarrow> bind (fetch i) (\<lambda>outcome.
            gather check fetch (Suc permits) (remove_at j ts) (add_outcome outcome result))) w0 = (Inr r, w')"
        by simp
    next
      case (Fetching i)
      obtain outcome w1 where f: "fetch i w0 = (Inr outcome, w1)" and I1: "I w1" using "1.prems"(2) [OF I0] by blast
      with IH(4) [OF Fetching "1.prems"(1-3) _ I1, of outcome] Fetching show "\<exists>r w'. (case ts ! j of
          Checking i \<Rightarrow> bind (check i) (\<lambda>skip.
            if skip then gather check fetch permits (remove_at j ts) result
            else gather check fetch permits (ts[j := Waiting_slot i]) result)
        | Waiting_slot i \<Rightarrow> gather check fetch (permits - 1) (ts[j := Fetching i]) result
        | Fetching i \<Rightarrow> bind (fetch i) (\<lambda>outcome.
            gather check fetch (Suc permits) (remove_at j ts) (add_outcome outcome result))) w0 = (Inr r, w')"
        by (simp add: bind_def)
    qed
  qed
qed

section \<open>The articles\<close>

lemma py_strip_ends: "py_strip s = [] \<or> \<not> py_isspace (hd (py_strip s)) \<and> \<not> py_isspace (last (py_strip s))"
proof (cases "py_strip s = []")
  case False
  define t where "t = dropWhile py_isspace s"
  have ps: "py_strip s = rev (dropWhile py_isspace (rev t))" by (simp add: py_strip_def t_def)
  with False have ne: "dropWhile py_isspace (rev t) \<noteq> []" by simp
  from ne have "\<not> py_isspace (hd (dropWhile py_isspace (rev t)))" by (rule hd_dropWhile)
  then have l: "\<not> py_isspace (last (py_strip s))" using ne by (simp add: ps last_rev)
  obtain a where "rev t = a @ dropWhile py_isspace (rev t)" by (metis takeWhile_dropWhile_id)
  then have "t = py_strip s @ rev a" unfolding ps by (metis rev_append rev_rev_ident)
  then have "t \<noteq> []" "hd t = hd (py_strip s)" using False by (simp_all add: hd_append)
  moreover from this(1) have "\<not> py_isspace (hd t)" unfolding t_def by (rule hd_dropWhile)
  ultimately show ?thesis using l by simp
qed simp

lemma py_strip_idem [simp]: "py_strip (py_strip s) = py_strip s"
  using py_strip_around [of "[]" "[]" "py_strip s"] py_strip_ends [of s] by simp

text \<open>A success under the article's address, with a body, and of which P holds.\<close>

fun outcome_ok :: "(crawl_success_item \<Rightarrow> bool) \<Rightarrow> pystr \<Rightarrow> crawl_outcome \<Rightarrow> bool" where
  "outcome_ok P url Left_out = True"
| "outcome_ok P url (Success s) \<longleftrightarrow> si_source_url s = url \<and> si_body s \<noteq> [] \<and> py_strip (si_body s) = si_body s \<and> P s"
| "outcome_ok P url (Failure f) \<longleftrightarrow> fi_source_url f = url"

definition no_codes :: "crawl_success_item \<Rightarrow> bool" where
  "no_codes s \<longleftrightarrow> si_stock_codes s = None"

definition of_announcement :: "hkex_announcement \<Rightarrow> crawl_success_item \<Rightarrow> bool" where
  "of_announcement a s \<longleftrightarrow> si_title s = ha_title a \<and> si_source_url s = ha_pdf_url a
     \<and> si_published_at s = ha_published_at a \<and> si_stock_codes s = Some (ha_stock_codes a)"

lemma fail_item_ok [simp]: "outcome_ok b url (fail_item url code n)"
  by (simp add: fail_item_def)

text \<open>What a computation can return.\<close>

definition yields :: "('a \<Rightarrow> bool) \<Rightarrow> ('w, 'e, 'a) io \<Rightarrow> bool" where
  "yields Q m \<longleftrightarrow> (\<forall>w x w'. m w = (Inr x, w') \<longrightarrow> Q x)"

lemma yieldsD: "yields Q m \<Longrightarrow> m w = (Inr x, w') \<Longrightarrow> Q x"
  by (auto simp: yields_def)

lemma yields_ret: "Q x \<Longrightarrow> yields Q (ret x)"
  and yields_raise: "yields Q (raise e)"
  and yields_any: "yields (\<lambda>_. True) m"
  by (auto simp: yields_def)

lemma yields_bind: "yields P m \<Longrightarrow> (\<And>x. P x \<Longrightarrow> yields Q (f x)) \<Longrightarrow> yields Q (bind m f)"
  unfolding yields_def bind_eq_Inr by blast

lemma yields_try: "yields Q m \<Longrightarrow> (\<And>e. yields Q (h e)) \<Longrightarrow> yields Q (try_except m h)"
  unfolding yields_def try_eq_Inr by blast

lemmas yields_seq = yields_bind [OF yields_any]

lemma fetch_article_ok:
  assumes parse: "\<And>resp. yields (outcome_ok b url) (parse resp)"
  shows "yields (outcome_ok b url) (fetch_article cfg L sc url parse)"
proof -
  have "yields (\<lambda>r. case r of Inl o' \<Rightarrow> outcome_ok b url o' | Inr _ \<Rightarrow> True)
     (try_except (bind (page_fetch (pl_str L) cfg url) (\<lambda>response. ret (Inr response)))
        (\<lambda>exc. case exc of
           Sadi CrawlRateLimitedException d \<Rightarrow> ret (Inl Left_out)
         | Sadi CrawlBlockedException d \<Rightarrow> ret (Inl (fail_item url URL_GET_FAILED (cr_max_retry cfg)))
         | _ \<Rightarrow> raise exc))"
    by (intro yields_try yields_seq yields_ret)
      (auto split: sadi_exn.splits sadi_class.splits intro: yields_ret yields_raise)
  note page = this
  show ?thesis unfolding fetch_article_def
    by (rule yields_seq, rule yields_bind [OF page]) (auto split: sum.splits intro: yields_ret parse)
qed

lemma extracted_ok:
  assumes k: "\<And>body. py_strip body \<noteq> [] \<Longrightarrow> yields (outcome_ok b url) (k (py_strip body))"
  shows "yields (outcome_ok b url) (extracted url extract k)"
proof -
  have "yields (\<lambda>r. case r of Inl o' \<Rightarrow> outcome_ok b url o' | Inr _ \<Rightarrow> True)
     (try_except (bind extract (\<lambda>body. ret (Inr body)))
        (\<lambda>exc. if sadi_is_exception exc then ret (Inl (fail_item url SADI_PARSE_ERROR 1)) else raise exc))"
    by (intro yields_try yields_seq yields_ret) (auto intro: yields_ret yields_raise)
  then show ?thesis unfolding extracted_def
    by (rule yields_bind) (auto split: sum.splits option.splits intro: yields_ret k)
qed

lemma aastocks_article_ok: "yields (outcome_ok no_codes url) (aastocks_fetch_one_article cfg L sc url)"
  unfolding aastocks_fetch_one_article_def
  by (intro fetch_article_ok extracted_ok yields_seq yields_ret) (simp add: no_codes_def)

lemma yahoo_article_ok: "yields (outcome_ok no_codes (fe_url e)) (yahoo_fetch_one_article cfg L sc e)"
  unfolding yahoo_fetch_one_article_def
  by (intro fetch_article_ok extracted_ok yields_ret) (simp add: no_codes_def)

lemma hkex_article_ok: "yields (outcome_ok (of_announcement a) (ha_pdf_url a)) (hkex_fetch_one_pdf cfg L sc a)"
  unfolding hkex_fetch_one_pdf_def
  by (intro fetch_article_ok yields_try yields_seq yields_ret)
    (auto simp: pdf_outcome_def of_announcement_def split: sadi_exn.splits sadi_class.splits intro: yields_ret yields_raise)

lemma outcome_ok_weaken:
  assumes "yields (outcome_ok P url) m" and "\<And>s. P s \<Longrightarrow> Q s"
  shows "yields (outcome_ok Q url) m"
proof -
  have "outcome_ok P url r \<Longrightarrow> outcome_ok Q url r" for r using assms(2) by (cases r) auto
  with assms(1) show ?thesis unfolding yields_def by blast
qed

lemma hkex_article_any: "yields (outcome_ok (\<lambda>_. True) (ha_pdf_url a)) (hkex_fetch_one_pdf cfg L sc a)"
  by (rule outcome_ok_weaken [OF hkex_article_ok]) simp

section \<open>Results of the pool\<close>

fun outcome_urls :: "crawl_outcome \<Rightarrow> pystr list" where
  "outcome_urls Left_out = []"
| "outcome_urls (Success s) = [si_source_url s]"
| "outcome_urls (Failure f) = [fi_source_url f]"

definition result_urls :: "crawl_result \<Rightarrow> pystr multiset" where
  "result_urls r = mset (map si_source_url (cr_successes r)) + mset (map fi_source_url (cr_failures r))"

definition bodies_ok :: "(crawl_success_item \<Rightarrow> bool) \<Rightarrow> crawl_result \<Rightarrow> bool" where
  "bodies_ok P r \<longleftrightarrow> (\<forall>s \<in> set (cr_successes r). si_body s \<noteq> [] \<and> py_strip (si_body s) = si_body s \<and> P s)"

lemma fold_outcomes:
  assumes "list_all2 (\<lambda>i r. outcome_ok b (url_of i) r) xs outs"
  shows "result_urls (fold add_outcome outs r0) \<subseteq># result_urls r0 + mset (map url_of xs)
    \<and> (bodies_ok b r0 \<longrightarrow> bodies_ok b (fold add_outcome outs r0))"
  using assms
proof (induction arbitrary: r0 rule: list_all2_induct)
  case (Cons i xs r outs)
  have "result_urls (add_outcome r r0) \<subseteq># add_mset (url_of i) (result_urls r0)"
    using Cons.hyps(1) by (cases r) (auto simp: result_urls_def)
  moreover have "bodies_ok b r0 \<longrightarrow> bodies_ok b (add_outcome r r0)"
    using Cons.hyps(1) by (cases r) (auto simp: bodies_ok_def)
  ultimately show ?case using Cons.IH [of "add_outcome r r0"]
    by (auto intro: subset_mset.order_trans)
qed simp

lemma crawl_articles_result:
  assumes run: "crawl_articles sc url_of fetch items r0 w = (Inr r, w')"
    and ok: "\<And>i. i \<in> set items \<Longrightarrow> yields (outcome_ok b (url_of i)) (fetch i)"
  shows "result_urls r \<subseteq># result_urls r0 + mset (map url_of items) \<and> (bodies_ok b r0 \<longrightarrow> bodies_ok b r)"
proof -
  obtain outs where r: "r = fold add_outcome outs r0" and p: "pool_outcomes fetch (mset items) outs"
    using run gather_outcomes by (fastforce simp: crawl_articles_def comp_def split: if_splits)
  then obtain xs where xs: "mset xs \<subseteq># mset items"
    and l: "list_all2 (\<lambda>i r. \<exists>w1 w2. fetch i w1 = (Inr r, w2)) xs outs"
    unfolding pool_outcomes_def by blast
  have l2: "list_all2 (\<lambda>i r. outcome_ok b (url_of i) r) xs outs"
  proof (rule list.rel_mono_strong [OF l])
    fix i r
    assume i: "i \<in> set xs" and f: "\<exists>w1 w2. fetch i w1 = (Inr r, w2)"
    from i xs have "i \<in> set items" by (metis mset_subset_eqD set_mset_mset)
    with f show "outcome_ok b (url_of i) r" by (auto dest: yieldsD [OF ok])
  qed
  from xs have "mset (map url_of xs) \<subseteq># mset (map url_of items)"
    using image_mset_subseteq_mono [OF xs, of url_of] by simp
  with fold_outcomes [OF l2, of r0] r show ?thesis
    by (meson mset_subset_eq_mono_add subset_mset.order_refl subset_mset.order_trans)
qed

section \<open>Every crawler\<close>

lemma empty_result_ok [simp]: "bodies_ok b empty_result" "result_urls empty_result = {#}"
  by (simp_all add: bodies_ok_def result_urls_def empty_result_def)

lemma crawl_articles_bodies:
  assumes "\<And>i. i \<in> set items \<Longrightarrow> yields (outcome_ok b (url_of i)) (fetch i)"
  shows "yields (bodies_ok b) (crawl_articles sc url_of fetch items empty_result)"
  unfolding yields_def
proof (intro allI impI)
  fix w x w'
  assume "crawl_articles sc url_of fetch items empty_result w = (Inr x, w')"
  from crawl_articles_result [OF this assms] show "bodies_ok b x" by simp
qed

lemma mingpao_bodies: "yields (bodies_ok no_codes) (mingpao_run L)"
proof -
  have e: "yields (bodies_ok no_codes) (mingpao_process_entry entry r)" if "bodies_ok no_codes r" for entry r
    unfolding mingpao_process_entry_def
    by (rule yields_seq) (use that in \<open>auto simp: bodies_ok_def no_codes_def split: option.splits intro!: yields_ret\<close>)
  have f: "yields (bodies_ok no_codes) (fold_io (\<lambda>r entry. mingpao_process_entry entry r) r entries)" if "bodies_ok no_codes r" for r entries
    using that by (induction entries arbitrary: r) (auto intro!: yields_ret yields_bind [OF e])
  show ?thesis unfolding mingpao_run_def by (rule yields_seq) (simp add: f)
qed

text \<open>The announcements are rows of the page, read as they stand.\<close>

definition of_row :: "hkex_row \<Rightarrow> crawl_success_item \<Rightarrow> bool" where
  "of_row row s \<longleftrightarrow>
     (\<exists>href. hr_pdf_link row = Some (Some href) \<and> href \<noteq> [] \<and> si_source_url s = full_url HKEX_BASE_URL href)
     \<and> si_title s = py_strip (text_or_empty (hr_headline row))
     \<and> si_stock_codes s = Some (between_runs (\<lambda>c. py_isspace c \<or> c = 44) (text_or_empty (hr_stock_code row)))"

lemma parse_stock_codes_runs: "parse_stock_codes raw = between_runs (\<lambda>c. py_isspace c \<or> c = 44) raw"
proof (cases "raw = []")
  case True
  then show ?thesis by (simp add: parse_stock_codes_def between_runs.simps [of _ "[]"])
next
  case False
  then show ?thesis by (simp add: parse_stock_codes_def rx_split_run between_runs_strip)
qed

lemma extract_row_of:
  "extract_row row w = (Inr (Some a), w') \<Longrightarrow> of_announcement a s \<Longrightarrow> of_row row s"
  by (auto simp: extract_row_def of_announcement_def of_row_def parse_stock_codes_runs bind_eq_Inr
      split: option.splits if_splits)

lemma map_rows_of:
  "map_io (\<lambda>row. bind (of_sum row) extract_row) rows w = (Inr parsed, w') \<Longrightarrow> Some a \<in> set parsed \<Longrightarrow>
     \<exists>row. Inr row \<in> set rows \<and> (\<forall>s. of_announcement a s \<longrightarrow> of_row row s)"
proof (induction rows arbitrary: w parsed)
  case (Cons x rows)
  then obtain y ys w1 where y: "bind (of_sum x) extract_row w = (Inr y, w1)"
    and ys: "map_io (\<lambda>row. bind (of_sum row) extract_row) rows w1 = (Inr ys, w')" and p: "parsed = y # ys"
    by (auto simp: bind_eq_Inr)
  show ?case
  proof (cases "y = Some a")
    case True
    with y obtain row where x: "x = Inr row" and e: "extract_row row w = (Inr (Some a), w1)"
      by (cases x) (auto simp: of_sum_def bind_def)
    from extract_row_of [OF e] have "\<forall>s. of_announcement a s \<longrightarrow> of_row row s" by blast
    with x show ?thesis by (intro exI [of _ row] conjI) simp_all
  next
    case False
    with Cons.IH [OF ys] Cons.prems(2) p show ?thesis by auto
  qed
qed simp

lemma finally_do_Inr: "finally_do failure m w = (Inr x, w') \<Longrightarrow> \<exists>w1. m w = (Inr x, w1)"
  unfolding finally_do_def
  by (auto simp: bind_eq_Inr try_eq_Inr check_failure_def split: option.splits)

lemma seq_Inr: "seq a m w = (Inr x, w') \<Longrightarrow> \<exists>v. m v = (Inr x, w')"
  by (auto simp: bind_eq_Inr)

lemma collect_announcements_rows:
  assumes "collect_announcements b w = (Inr as, w')"
  shows "\<exists>rows. bs_rows b = Inr rows \<and> (\<forall>a \<in> set as. \<exists>row. Inr row \<in> set rows \<and> (\<forall>s. of_announcement a s \<longrightarrow> of_row row s))"
proof -
  define rest :: "('a, hkex_announcement list) crawl" where "rest = bind (of_sum (bs_rows b)) (\<lambda>rows.
         bind (map_io (\<lambda>row. bind (of_sum row) extract_row) rows) (\<lambda>parsed. ret (List.map_filter id parsed)))"
  obtain v where v: "finally_do (bs_release b)
        (seq (check_failure (bs_goto b)) (seq (load_more b MAX_LOAD_MORE_CLICKS 0) rest)) v = (Inr as, w')"
    using seq_Inr [OF assms [unfolded collect_announcements_def, folded rest_def]] by blast
  obtain w1 where "seq (check_failure (bs_goto b)) (seq (load_more b MAX_LOAD_MORE_CLICKS 0) rest) v = (Inr as, w1)"
    using finally_do_Inr [OF v] by blast
  from seq_Inr [OF this] obtain v1 where "seq (load_more b MAX_LOAD_MORE_CLICKS 0) rest v1 = (Inr as, w1)" by blast
  from seq_Inr [OF this] obtain v2 where "rest v2 = (Inr as, w1)" by blast
  then have q: "rest v2 = (Inr as, w1)" .
  have "\<exists>rows. bs_rows b = Inr rows"
  proof (cases "bs_rows b")
    case (Inl e)
    then have "rest v2 = (Inl e, v2)" by (simp add: rest_def of_sum_def [of "Inl e"] bind_def raise_def)
    with q show ?thesis by simp
  qed blast
  then obtain rows where r: "bs_rows b = Inr rows" by blast
  have "bind (map_io (\<lambda>row. bind (of_sum row) extract_row) rows) (\<lambda>parsed. ret (List.map_filter id parsed)) v2 = (Inr as, w1)"
    using q by (simp add: rest_def r of_sum_def [of "Inr rows"] bind_def [of "Pair (Inr rows)"] ret_def [of rows])
  then obtain parsed w4 where m: "map_io (\<lambda>row. bind (of_sum row) extract_row) rows v2 = (Inr parsed, w4)"
    and as: "as = List.map_filter id parsed"
    by (auto simp: bind_eq_Inr)
  have "Some a \<in> set parsed" if "a \<in> set as" for a using that by (auto simp: as List.map_filter_def)
  with map_rows_of [OF m] r show ?thesis by blast
qed

lemma hkex_phase1_rows:
  assumes "hkex_phase1 L d w = (Inr as, w')"
  shows "\<exists>rows. bs_rows (d_browser w (hkex_search_url d)) = Inr rows
    \<and> (\<forall>a \<in> set as. \<exists>row. Inr row \<in> set rows \<and> (\<forall>s. of_announcement a s \<longrightarrow> of_row row s))"
proof -
  define b where "b = d_browser w (hkex_search_url d)"
  define h :: "sadi_exn \<Rightarrow> ('a, hkex_announcement list) crawl" where "h exc = (case exc of
             Sadi CrawlFatalException d \<Rightarrow> raise exc
           | _ \<Rightarrow> if sadi_is_exception exc
                  then raise (fatal (u ''HKEX Phase 1 (playwright pagination) failed: '') exc L)
                  else raise exc)" for exc
  have "seq (check_failure (bs_start b)) (finally_do (bs_stop b) (try_except (collect_announcements b) h)) w = (Inr as, w')"
    using assms unfolding hkex_phase1_def run_get_w b_def h_def [abs_def] .
  from seq_Inr [OF this] obtain v where "finally_do (bs_stop b) (try_except (collect_announcements b) h) v = (Inr as, w')" by blast
  from finally_do_Inr [OF this] obtain w1 where t: "try_except (collect_announcements b) h v = (Inr as, w1)" by blast
  have "\<exists>w4. collect_announcements b v = (Inr as, w4)"
  proof (cases "fst (collect_announcements b v)")
    case (Inl e)
    then obtain w2 where "collect_announcements b v = (Inl e, w2)" by (cases "collect_announcements b v") simp
    with t have "h e w2 = (Inr as, w1)" by (simp add: try_except_def)
    then show ?thesis by (auto simp: h_def raise_def split: sadi_exn.splits sadi_class.splits if_splits)
  next
    case (Inr x)
    with t show ?thesis by (cases "collect_announcements b v") (auto simp: try_except_def)
  qed
  then obtain w4 where "collect_announcements b v = (Inr as, w4)" by blast
  from collect_announcements_rows [OF this] show ?thesis by (simp add: b_def)
qed

lemma hkex_run_rows:
  assumes "hkex_run cfg L sc date w = (Inr result, w')"
  shows "\<exists>d rows. bs_rows (d_browser w (hkex_search_url d)) = Inr rows
    \<and> bodies_ok (\<lambda>s. \<exists>row. Inr row \<in> set rows \<and> of_row row s) result"
proof -
  obtain d as w1 where p: "hkex_phase1 L d w = (Inr as, w1)" and f: "fetch_pdfs cfg L sc as empty_result w1 = (Inr result, w')"
    using assms by (auto simp: hkex_run_def bind_eq_Inr get_w_def split: option.splits)
  from hkex_phase1_rows [OF p] obtain rows where r: "bs_rows (d_browser w (hkex_search_url d)) = Inr rows"
    and a: "\<And>a. a \<in> set as \<Longrightarrow> \<exists>row. Inr row \<in> set rows \<and> (\<forall>s. of_announcement a s \<longrightarrow> of_row row s)" by blast
  have "yields (outcome_ok (\<lambda>s. \<exists>row. Inr row \<in> set rows \<and> of_row row s) (ha_pdf_url i)) (hkex_fetch_one_pdf cfg L sc i)"
    if "i \<in> set as" for i
    by (rule outcome_ok_weaken [OF hkex_article_ok]) (use a [OF that] in blast)
  then have "yields (bodies_ok (\<lambda>s. \<exists>row. Inr row \<in> set rows \<and> of_row row s)) (fetch_pdfs cfg L sc as empty_result)"
    unfolding fetch_pdfs_def by (auto intro: yields_ret crawl_articles_bodies)
  from yieldsD [OF this f] r show ?thesis by blast
qed

lemma other_bodies: "source \<noteq> HKEX \<Longrightarrow> yields (bodies_ok no_codes) (crawler_run cfg L source sc date)"
proof (cases source)
  case HKEX
  assume "source \<noteq> HKEX"
  with HKEX show ?thesis by simp
next
  case MINGPAO
  then show ?thesis by (simp add: crawler_run_def mingpao_bodies)
next
  case AASTOCKS
  have "yields (bodies_ok no_codes) (if urls = [] then ret empty_result
      else crawl_articles sc (\<lambda>url. url) (aastocks_fetch_one_article cfg L sc) urls empty_result)" for urls
    by (auto intro: yields_ret crawl_articles_bodies [OF aastocks_article_ok])
  then have "yields (bodies_ok no_codes) (aastocks_run cfg L sc)"
    unfolding aastocks_run_def by (intro yields_seq)
  with AASTOCKS show ?thesis by (simp add: crawler_run_def)
next
  case YAHOO_HK
  have "yields (bodies_ok no_codes) (if es = [] then ret empty_result
      else crawl_articles sc fe_url (yahoo_fetch_one_article cfg L sc) es empty_result)" for es
    by (auto intro: yields_ret crawl_articles_bodies [OF yahoo_article_ok])
  then have "yields (bodies_ok no_codes) (yahoo_run cfg L sc)"
    unfolding yahoo_run_def Let_def by (intro yields_seq)
  with YAHOO_HK show ?thesis by (simp add: crawler_run_def)
qed

section \<open>Calls that return\<close>

text \<open>Without a fault of the database, and with a web that answers each request or fails as the HTTP client
  says it does.\<close>

definition calm :: "'z crawl_world_scheme \<Rightarrow> bool" where
  "calm w \<longleftrightarrow> d_pg w = [] \<and> (\<forall>k url e. d_web w k url = Inl e \<longrightarrow> retryable e)"

interpretation calm: crawl_reading "\<lambda>w w'. calm w \<longrightarrow> calm w'"
  by unfold_locales (auto simp: calm_def)

text \<open>A computation that returns from every calm world to a calm one.\<close>

definition returns :: "('z, 'a) crawl \<Rightarrow> bool" where
  "returns m \<longleftrightarrow> (\<forall>w. calm w \<longrightarrow> (\<exists>x w'. m w = (Inr x, w') \<and> calm w'))"

lemma returns_ret: "returns (ret x)"
  by (simp add: returns_def)

lemma returns_bind: "returns m \<Longrightarrow> (\<And>x. returns (f x)) \<Longrightarrow> returns (bind m f)"
  unfolding returns_def bind_def by fastforce

text \<open>A handler that returns for every error its block can raise.\<close>

lemma returns_try:
  assumes "always (\<lambda>w w'. calm w \<longrightarrow> calm w') m"
    and "\<And>w e w'. calm w \<Longrightarrow> m w = (Inl e, w') \<Longrightarrow> returns (h e)"
  shows "returns (try_except m h)"
  unfolding returns_def
proof (intro allI impI)
  fix w :: "'a crawl_world_scheme"
  assume w: "calm w"
  obtain q w1 where q: "m w = (q, w1)" by fastforce
  have w1: "calm w1" using alwaysD [OF assms(1) q] w by blast
  show "\<exists>x w'. try_except m h w = (Inr x, w') \<and> calm w'"
  proof (cases q)
    case (Inr x)
    with q w1 show ?thesis by (simp add: try_except_def)
  next
    case (Inl e)
    with assms(2) [OF w] q have "returns (h e)" by blast
    with w1 obtain x w' where "h e w1 = (Inr x, w')" "calm w'" by (auto simp: returns_def)
    with q Inl show ?thesis by (simp add: try_except_def)
  qed
qed

fun fetch_error :: "sadi_exn \<Rightarrow> bool" where
  "fetch_error (Sadi CrawlBlockedException d) = True"
| "fetch_error (Sadi CrawlRateLimitedException d) = True"
| "fetch_error _ = False"

lemma fetch_attempt_error:
  "calm w \<Longrightarrow> fetch_attempt url w = (Inl e, w') \<Longrightarrow> retryable e \<or> fetch_error e"
  by (auto simp: fetch_attempt_def page_get_def page_raise_for_status_def calm_def io_defs split: if_splits prod.splits sum.splits)

lemma fetch_attempts_error:
  "calm w \<Longrightarrow> fetch_attempts lib_str cfg url n last_exc w = (Inl e, w') \<Longrightarrow> fetch_error e"
proof (induction lib_str cfg url n last_exc arbitrary: w rule: fetch_attempts.induct)
  case (1 lib_str cfg url n last_exc)
  show ?case
  proof (cases "int n > cr_max_retry cfg")
    case True
    with "1.prems"(2) show ?thesis by (subst (asm) fetch_attempts.simps) (auto simp: retries_exhausted_def)
  next
    case False
    with "1.prems"(2) obtain e0 w1 where a: "fetch_attempt url w = (Inl e0, w1)"
      and h: "(if retryable e0
        then seq (when_io (int n < cr_max_retry cfg) (sadi_sleep_us (cr_retry_base_wait_ms cfg * 2 ^ (n - 1) * 1000)))
                 (fetch_attempts lib_str cfg url (Suc n) (Some e0))
        else raise e0) w1 = (Inl e, w')"
      by (subst (asm) fetch_attempts.simps) (auto simp: try_eq_Inl)
    have c1: "calm w1" using alwaysD [OF calm.fetch_attempt_reads a] "1.prems"(1) by blast
    show ?thesis
    proof (cases "retryable e0")
      case True
      with h obtain w2 where s: "when_io (int n < cr_max_retry cfg)
          (sadi_sleep_us (cr_retry_base_wait_ms cfg * 2 ^ (n - 1) * 1000)) w1 = (Inr (), w2)"
        and r: "fetch_attempts lib_str cfg url (Suc n) (Some e0) w2 = (Inl e, w')"
        by (auto simp: bind_eq_Inl when_io_def sadi_sleep_us_def split: if_splits)
      have "calm w2" using alwaysD [OF keeps.always_when [OF calm.sleep_keeps] s] c1 by blast
      with "1.IH" [OF False True _ r] show ?thesis by blast
    next
      case stop: False
      with h fetch_attempt_error [OF "1.prems"(1) a] show ?thesis by simp
    qed
  qed
qed

lemma returns_keeps: "returns m \<Longrightarrow> always (\<lambda>w w'. calm w \<longrightarrow> calm w') m"
  unfolding returns_def by (intro alwaysI) fastforce

lemma error_log_returns: "returns (is_url_in_error_log url)"
  unfolding returns_def is_url_in_error_log_def fetch_one_def run_read_def sadi_pg_call_def
  by (auto simp: calm_def io_defs)

lemma jitter_returns: "returns (jitter_sleep sc)"
  unfolding returns_def jitter_sleep_def Let_def sadi_sleep_us_def
  by (auto simp: calm_def io_defs)

lemma fetch_article_returns:
  fixes parse :: "page_response \<Rightarrow> ('z, crawl_outcome) crawl"
  assumes "\<And>response. returns (parse response)"
  shows "returns (fetch_article cfg L sc url parse)"
proof -
  define h :: "sadi_exn \<Rightarrow> ('z, crawl_outcome + page_response) crawl" where
    "h exc = (case exc of
           Sadi CrawlRateLimitedException d \<Rightarrow> ret (Inl Left_out)
         | Sadi CrawlBlockedException d \<Rightarrow> ret (Inl (fail_item url URL_GET_FAILED (cr_max_retry cfg)))
         | _ \<Rightarrow> raise exc)" for exc
  have got: "returns (try_except (bind (page_fetch (pl_str L) cfg url) (\<lambda>response. ret (Inr response))) h)"
  proof (rule returns_try)
    show "always (\<lambda>w w'. calm w \<longrightarrow> calm w') (bind (page_fetch (pl_str L) cfg url) (\<lambda>response. ret (Inr response)))"
      by (intro keeps.always_bind calm.page_fetch_reads keeps.always_ret)
    show "returns (h e)"
      if "calm w" and "bind (page_fetch (pl_str L) cfg url) (\<lambda>response. ret (Inr response)) w = (Inl e, w')"
      for w e and w' :: "'z crawl_world_scheme"
    proof -
      from that have "fetch_error e" by (auto simp: bind_eq_Inl page_fetch_def dest: fetch_attempts_error)
      then show ?thesis by (cases e rule: fetch_error.cases) (simp_all add: h_def returns_ret)
    qed
  qed
  have after: "returns (case r of Inl outcome \<Rightarrow> ret outcome | Inr response \<Rightarrow> parse response)" for r
    by (cases r) (simp_all add: returns_ret assms)
  show ?thesis unfolding fetch_article_def h_def [symmetric]
    by (rule returns_bind [OF jitter_returns]) (rule returns_bind [OF got after])
qed

lemma crawl_articles_returns:
  assumes "0 < cs_max_concurrent sc" and "\<And>i. returns (fetch i)" and "calm w"
  shows "\<exists>r w'. crawl_articles sc url_of fetch items r0 w = (Inr r, w')"
proof -
  have "\<exists>r w'. gather (\<lambda>i. is_url_in_error_log (url_of i)) fetch (nat (cs_max_concurrent sc)) (map Checking items) r0 w = (Inr r, w')"
  proof (rule gather_ends [where I = calm])
    show "\<exists>b w'. is_url_in_error_log (url_of i) w = (Inr b, w') \<and> calm w'" if "calm w" for i w
      using error_log_returns that unfolding returns_def by blast
    show "\<exists>r w'. fetch i w = (Inr r, w') \<and> calm w'" if "calm w" for i w
      using assms(2) that unfolding returns_def by blast
    show "calm (w\<lparr> d_choices := tl (d_choices w) \<rparr>)" if "calm w" for w
      using that by (simp add: calm_def)
  qed (use assms(1,3) in simp_all)
  with assms(1) show ?thesis by (simp add: crawl_articles_def)
qed

text \<open>The extraction libraries raise nothing but exceptions.\<close>

definition parsers_raise_exceptions :: "page_lib \<Rightarrow> bool" where
  "parsers_raise_exceptions L \<longleftrightarrow>
     (\<forall>html e. pl_trafilatura L html = Inl e \<longrightarrow> sadi_is_exception e)
     \<and> (\<forall>c e. pl_fitz L c = Inl e \<longrightarrow> sadi_is_exception e)
     \<and> (\<forall>c doc e. pl_fitz L c = Inr doc \<longrightarrow> Inl e \<in> set (pd_pages doc) \<longrightarrow> sadi_is_exception e)
     \<and> (\<forall>c e. pl_pdfminer L c = Inl e \<longrightarrow> sadi_is_exception e)"

lemma of_sum_keeps: "always (\<lambda>w w'. calm w \<longrightarrow> calm w') (of_sum x)"
  by (rule keeps.always_of_sum)

lemma extracted_returns:
  assumes "always (\<lambda>w w'. calm w \<longrightarrow> calm w') extract" and "\<And>w e w'. extract w = (Inl e, w') \<Longrightarrow> sadi_is_exception e"
    and "\<And>body. returns (k body)"
  shows "returns (extracted url extract k)"
  unfolding extracted_def
proof (rule returns_bind)
  show "returns (try_except (bind extract (\<lambda>body. ret (Inr body)))
     (\<lambda>exc. if sadi_is_exception exc then ret (Inl (fail_item url SADI_PARSE_ERROR 1)) else raise exc))"
  proof (rule returns_try)
    show "always (\<lambda>w w'. calm w \<longrightarrow> calm w') (bind extract (\<lambda>body. ret (Inr body)))"
      by (intro keeps.always_bind assms(1) keeps.always_ret)
  next
    fix w :: "'a crawl_world_scheme" and e w'
    assume "bind extract (\<lambda>body. ret (Inr body)) w = (Inl e, w')"
    then have "sadi_is_exception e" using assms(2) by (auto simp: bind_eq_Inl)
    then show "returns (if sadi_is_exception e then ret (Inl (fail_item url SADI_PARSE_ERROR 1)) else raise e)"
      by (simp add: returns_ret)
  qed
next
  show "returns (case r of Inl outcome \<Rightarrow> ret outcome | Inr None \<Rightarrow> ret Left_out
     | Inr (Some body) \<Rightarrow> if py_strip body = [] then ret Left_out else k (py_strip body))" for r
    using assms(3) by (auto split: sum.splits option.splits intro: returns_ret)
qed

lemma yahoo_article_returns:
  assumes "parsers_raise_exceptions L"
  shows "returns (yahoo_fetch_one_article cfg L sc e)"
  unfolding yahoo_fetch_one_article_def
proof (intro fetch_article_returns extracted_returns returns_ret calm.parsers_read)
  fix response w exc w'
  assume "extract_body_auto L (pg_text response) w = (Inl exc, w')"
  then show "sadi_is_exception exc"
    using assms by (auto simp: parsers_raise_exceptions_def extract_body_auto_def of_sum_def io_eqs split: sum.splits)
qed

lemma sum_list_res_error: "sum_list_res xs = Inl e \<Longrightarrow> Inl e \<in> set xs"
  by (induction xs rule: sum_list_res.induct) auto

lemma parse_pdf_error:
  assumes "parsers_raise_exceptions L" and "parse_pdf L content w = (Inl e, w')"
  shows "sadi_is_exception e"
proof -
  have pages: "sadi_is_exception e" if "pl_fitz L content = Inr doc" "sum_list_res (pd_pages doc) = Inl e" for doc e
    using assms(1) that sum_list_res_error [OF that(2)] unfolding parsers_raise_exceptions_def by blast
  have rest: "sadi_is_exception e" if "pl_fitz L content = Inl e \<or> pl_pdfminer L content = Inl e" for e
    using assms(1) that unfolding parsers_raise_exceptions_def by blast
  show ?thesis
    using assms(2) pages rest
    by (auto simp: parse_pdf_def parse_primary_def parse_fallback_def of_sum_def io_defs
        split: if_splits sum.splits prod.splits)
qed

lemma hkex_article_returns:
  assumes "parsers_raise_exceptions L"
  shows "returns (hkex_fetch_one_pdf cfg L sc a)"
  unfolding hkex_fetch_one_pdf_def
proof (intro fetch_article_returns returns_try)
  fix response
  show "always (\<lambda>w w'. calm w \<longrightarrow> calm w') (bind (parse_pdf L (pg_content response)) (\<lambda>body. ret (pdf_outcome a body)))"
    by (intro keeps.always_bind calm.parse_pdf_reads keeps.always_ret)
next
  fix response w e w'
  assume "bind (parse_pdf L (pg_content response)) (\<lambda>body. ret (pdf_outcome a body)) w = (Inl e, w')"
  then have "sadi_is_exception e" using parse_pdf_error [OF assms] by (auto simp: bind_eq_Inl)
  then show "returns (case e of
            Sadi PdfEncryptedException d \<Rightarrow> ret (fail_item (ha_pdf_url a) PDF_ENCRYPTED 1)
          | Sadi PdfParseException d \<Rightarrow> ret (fail_item (ha_pdf_url a) PDF_PARSE_ERROR 1)
          | _ \<Rightarrow> if sadi_is_exception e then ret (fail_item (ha_pdf_url a) SADI_PARSE_ERROR 1) else raise e)"
    by (auto split: sadi_exn.splits sadi_class.splits intro: returns_ret)
qed

text \<open>C13: With a permit, a database that answers and a web that answers or fails as HTTP clients do, the pools of
  the Yahoo HK and the HKEX crawler end, in every interleaving of their workers: no worker is left waiting. Each
  article gives at most one success or failure, under its own address.\<close>

theorem article_pools_end:
  assumes "0 < cs_max_concurrent sc" and "calm w" and "parsers_raise_exceptions L"
  shows "(\<exists>r w'. crawl_articles sc fe_url (yahoo_fetch_one_article cfg L sc) entries empty_result w = (Inr r, w')
      \<and> result_urls r \<subseteq># mset (map fe_url entries))
    \<and> (\<exists>r w'. crawl_articles sc ha_pdf_url (hkex_fetch_one_pdf cfg L sc) announcements empty_result w = (Inr r, w')
      \<and> result_urls r \<subseteq># mset (map ha_pdf_url announcements))"
proof -
  note returns = crawl_articles_returns [OF assms(1) _ assms(2)]
  obtain r w' where y: "crawl_articles sc fe_url (yahoo_fetch_one_article cfg L sc) entries empty_result w = (Inr r, w')"
    using returns [where fetch = "yahoo_fetch_one_article cfg L sc"] yahoo_article_returns [OF assms(3)] by blast
  obtain q v' where h: "crawl_articles sc ha_pdf_url (hkex_fetch_one_pdf cfg L sc) announcements empty_result w = (Inr q, v')"
    using returns [where fetch = "hkex_fetch_one_pdf cfg L sc"] hkex_article_returns [OF assms(3)] by blast
  show ?thesis
    using y h crawl_articles_result [OF y yahoo_article_ok] crawl_articles_result [OF h hkex_article_any]
    by (simp add: result_urls_def empty_result_def) 
qed

definition small_entry :: feed_entry where
  "small_entry = \<lparr> fe_title = u ''T'', fe_url = u ''http://y/1'', fe_published_at = None, fe_description = None \<rparr>"

lemma small_calm: "calm small_world"
  by (simp add: calm_def small_world_def)

lemma small_parsers: "parsers_raise_exceptions small_pages"
  by (simp add: parsers_raise_exceptions_def small_pages_def)

theorem article_pools_end_witness:
  "\<exists>r w'. crawl_articles small_source fe_url (yahoo_fetch_one_article (sg_crawl small_config) small_pages small_source)
       [small_entry, small_entry] empty_result small_world = (Inr r, w') \<and> size (result_urls r) \<le> 2"
proof -
  have "0 < cs_max_concurrent small_source" by (simp add: small_source_def)
  from article_pools_end [OF this small_calm small_parsers, of "sg_crawl small_config" "[small_entry, small_entry]"]
  obtain r w' where "crawl_articles small_source fe_url (yahoo_fetch_one_article (sg_crawl small_config) small_pages small_source)
       [small_entry, small_entry] empty_result small_world = (Inr r, w')"
    and "result_urls r \<subseteq># mset (map fe_url [small_entry, small_entry])" by blast
  then show ?thesis using size_mset_mono by fastforce
qed

section \<open>The articles of a crawl\<close>

text \<open>C39: Whatever a crawler gives back as a success has a body that is not blank and has no white space around it.
  A success of a source other than HKEX names no stock codes. A success of HKEX is a row of the filings page: it has
  the row's PDF link as its address, the row's headline as its title, and as its stock codes the pieces of the row's
  code cell between runs of commas and white space - a list that is empty exactly when the cell holds nothing else.\<close>

theorem crawled_articles_have_bodies:
  assumes "crawler_run cfg L source sc date w = (Inr result, w')"
  shows "(\<forall>s \<in> set (cr_successes result). si_body s \<noteq> [] \<and> py_strip (si_body s) = si_body s)
    \<and> (source \<noteq> HKEX \<longrightarrow> (\<forall>s \<in> set (cr_successes result). si_stock_codes s = None))
    \<and> (source = HKEX \<longrightarrow> (\<exists>d rows. bs_rows (d_browser w (hkex_search_url d)) = Inr rows
         \<and> (\<forall>s \<in> set (cr_successes result). \<exists>row href codes. Inr row \<in> set rows
              \<and> hr_pdf_link row = Some (Some href) \<and> si_source_url s = full_url HKEX_BASE_URL href
              \<and> si_title s = py_strip (text_or_empty (hr_headline row))
              \<and> si_stock_codes s = Some codes
              \<and> codes = between_runs (\<lambda>c. py_isspace c \<or> c = 44) (text_or_empty (hr_stock_code row))
              \<and> (codes = [] \<longleftrightarrow> (\<forall>c \<in> set (text_or_empty (hr_stock_code row)). py_isspace c \<or> c = 44)))))"
proof (cases "source = HKEX")
  case True
  with assms have "hkex_run cfg L sc date w = (Inr result, w')" by (simp add: crawler_run_def)
  from hkex_run_rows [OF this] obtain d rows where r: "bs_rows (d_browser w (hkex_search_url d)) = Inr rows"
    and b: "bodies_ok (\<lambda>s. \<exists>row. Inr row \<in> set rows \<and> of_row row s) result" by blast
  have row: "\<exists>row href codes. Inr row \<in> set rows
              \<and> hr_pdf_link row = Some (Some href) \<and> si_source_url s = full_url HKEX_BASE_URL href
              \<and> si_title s = py_strip (text_or_empty (hr_headline row))
              \<and> si_stock_codes s = Some codes
              \<and> codes = between_runs (\<lambda>c. py_isspace c \<or> c = 44) (text_or_empty (hr_stock_code row))
              \<and> (codes = [] \<longleftrightarrow> (\<forall>c \<in> set (text_or_empty (hr_stock_code row)). py_isspace c \<or> c = 44))"
    if "s \<in> set (cr_successes result)" for s
  proof -
    from b that obtain row where row: "Inr row \<in> set rows" "of_row row s" by (auto simp: bodies_ok_def)
    then obtain href where "hr_pdf_link row = Some (Some href)" "si_source_url s = full_url HKEX_BASE_URL href"
      by (auto simp: of_row_def)
    with row show ?thesis
      by (intro exI [of _ row] exI [of _ href]) (simp add: of_row_def between_runs_Nil_iff)
  qed
  have "\<forall>s \<in> set (cr_successes result). si_body s \<noteq> [] \<and> py_strip (si_body s) = si_body s"
    using b by (simp add: bodies_ok_def)
  with row r True show ?thesis by blast
next
  case False
  from yieldsD [OF other_bodies [OF False] assms] False show ?thesis by (simp add: bodies_ok_def no_codes_def)
qed

definition small_feed_world :: crawl_world where
  "small_feed_world = small_world\<lparr> d_feeds := (\<lambda>_ _. Inr \<lparr> rf_bozo = False, rf_bozo_exception = [], rf_entries =
     [\<lparr> re_title = Some (u ''T''), re_link = Some (u ''http://m/2''), re_published_parsed = None, re_summary = Some (u ''bc'') \<rparr>] \<rparr>) \<rparr>"

theorem crawled_articles_have_bodies_witness:
  "\<exists>s w'. crawler_run (sg_crawl small_config) small_pages MINGPAO small_source None small_feed_world
      = (Inr \<lparr> cr_successes = [s], cr_failures = [] \<rparr>, w') \<and> si_body s \<noteq> [] \<and> si_stock_codes s = None"
proof -
  have f: "feed_entry_of \<lparr> re_title = Some (u ''T''), re_link = Some (u ''http://m/2''), re_published_parsed = None,
      re_summary = Some (u ''bc'') \<rparr>
    = Some \<lparr> fe_title = u ''T'', fe_url = u ''http://m/2'', fe_published_at = None, fe_description = Some (u ''bc'') \<rparr>"
    by (simp add: feed_entry_of_def get_text_def u_def py_strip_def py_isspace_def)
  have b: "py_strip (u ''bc'') = u ''bc''" "u ''bc'' \<noteq> []" by (simp_all add: u_def py_strip_def py_isspace_def)
  have "\<exists>s w'. crawler_run (sg_crawl small_config) small_pages MINGPAO small_source None small_feed_world
      = (Inr \<lparr> cr_successes = [s], cr_failures = [] \<rparr>, w')"
    by (simp add: crawler_run_def mingpao_run_def fetch_rss_def feed_parse_def small_feed_world_def small_world_def io_defs
        f b map_filter_simps mingpao_process_entry_def is_url_in_error_log_def fetch_one_def run_read_def sadi_pg_call_def small_db_def
        empty_result_def)
  then obtain s w' where s: "crawler_run (sg_crawl small_config) small_pages MINGPAO small_source None small_feed_world
      = (Inr \<lparr> cr_successes = [s], cr_failures = [] \<rparr>, w')" by blast
  from crawled_articles_have_bodies [OF this] s show ?thesis by auto
qed

section \<open>The requests for a page\<close>

text \<open>C40: A page takes at most the configured number of requests. Each but the last met an error of the network or of
  the server; a page that is returned is the answer to the last one, with a status of success; a failure has used
  up the requests, or its last answer is one that another request would not change.\<close>

theorem page_requests_bounded:
  assumes "page_fetch lib_str cfg url w = (r, w')" and "0 \<le> cr_max_retry cfg"
  shows "\<exists>k. d_requests w' = d_requests w + k \<and> int k \<le> cr_max_retry cfg
     \<and> (\<forall>j. Suc j < k \<longrightarrow> passing_failure (d_web w (d_requests w + j) url))
     \<and> (\<forall>p. r = Inr p \<longrightarrow> 0 < k \<and> d_web w (d_requests w + (k - 1)) url = Inr p \<and> 200 \<le> pg_status p \<and> pg_status p < 300)
     \<and> (\<forall>e. r = Inl e \<longrightarrow> int k = cr_max_retry cfg \<or> 0 < k \<and> \<not> passing_failure (d_web w (d_requests w + (k - 1)) url))"
  using fetch_attempts_requests [OF assms(1) [unfolded page_fetch_def]] assms(2) by simp blast

theorem page_requests_bounded_witness:
  "\<exists>k. d_requests (snd (page_fetch (pl_str small_pages) (sg_crawl small_config) (u ''http://y/1'') small_world)) = k \<and> k \<le> 3"
proof -
  have "cr_max_retry (sg_crawl small_config) = 3" "d_requests small_world = 0" by (simp_all add: small_config_def small_world_def)
  with page_requests_bounded [OF prod.collapse [symmetric], of "sg_crawl small_config" "pl_str small_pages" "u ''http://y/1''" small_world]
  show ?thesis by auto
qed

end
