(* ===== verification/Sadi_Service.thy ===== *)
theory Sadi_Service
  imports Sadi_Crawl_Inv Sadi_Cleaning_Inv Sadi_Api
begin

text \<open>
  The service as a whole: the reader, the reclaimer, the workers, the crawl tasks and the outside world take
  steps in any order. What no operation undoes (\<open>stable\<close>), what the operations leave of the loops' own state
  (\<open>service_frame\<close>), and the invariant of the steps.
\<close>

section \<open>What no operation undoes\<close>

text \<open>A condition on the tables and the entries of the streams that a crawl keeps, and one that the cleaning
  keeps as well, statement by statement and announcement by announcement.\<close>

locale crawl_stable =
  fixes P :: "sadi_db \<Rightarrow> streams \<Rightarrow> bool"
  assumes crawl: "crawl_keeps P"
    and signal: "P d ss \<Longrightarrow> P d (snd (xadd STREAM_CRAWL_COMPLETED f ss))"
    and groups: "P d ss \<Longrightarrow> (\<And>n. sm_entries (the_stream ss' n) = sm_entries (the_stream ss n)) \<Longrightarrow> P d ss'"
begin

lemma publish_stable: "(\<And>d ss. P d ss \<Longrightarrow> P d (snd (xadd name f ss))) \<Longrightarrow> triple P (sadi_publish name f) (\<lambda>_. P) P"
  unfolding sadi_publish_def by (intro triple_keeps always_rs_call) (auto simp: holds_def)

lemma ack_stable: "triple P (handler_ack k) (\<lambda>_. P) P"
  unfolding handler_ack_def by (rule triple_ack) (auto intro: groups)

lemma completed_stable: "triple P (publish_crawl_completed eid status detail) (\<lambda>_. P) P"
  unfolding publish_crawl_completed_def
  by (rule triple_bind [OF publish_stable triple_ret]) (simp_all add: signal)

lemma execute_stable: "triple P (crawl_execute cfg L eid source date) (\<lambda>_. P) P"
proof -
  have c: "triple P (create_crawler (sg_crawl cfg) source) (\<lambda>_. P) P"
    unfolding create_crawler_def by (auto split: option.splits intro: triple_ret triple_raise)
  have t: "triple P
     (try_except (bind (crawler_run (sg_crawl cfg) (xl_parse L) source sc date) (\<lambda>result. ret (Inr result)))
        (\<lambda>exc. case exc of Sadi CrawlFatalException d \<Rightarrow> ret (Inl exc) | _ \<Rightarrow> raise exc)) (\<lambda>_. P) P" for sc
    by (rule triple_try [where S = P], rule triple_bind [OF crawler_holds], rule triple_ret, assumption)
      (auto split: sadi_exn.splits sadi_class.splits intro: triple_ret triple_raise)
  have b: "triple P (execute_body cfg L eid source date) (\<lambda>_. P) P" unfolding execute_body_def
    by (rule triple_bind [OF c], rule triple_bind [OF t])
      (auto split: sum.splits intro!: completed_stable triple_bind [OF crawl_stores_triple(1) [OF crawl]]
        triple_bind [OF crawl_stores_triple(2) [OF crawl]])
  show ?thesis unfolding crawl_execute_def
    by (rule triple_try [OF b]) (auto intro: or_else_triple completed_stable triple_raise)
qed

end

locale stable = crawl_stable +
  assumes mark: "P d ss \<Longrightarrow> P (snd (mark_deleted_stmt i reason d)) ss"
    and store: "P d ss \<Longrightarrow> P (snd (insert_cleaned_stmt c d)) ss"
    and announce: "P d ss \<Longrightarrow> P d (snd (xadd STREAM_RAW_NEWS_CLEANED f ss))"
begin

lemma check_stable: "triple P (process_check cfg L i) (\<lambda>_. P) P"
proof -
  have m: "always (\<lambda>w w'. holds P w \<longrightarrow> holds P w') (sadi_execute (sg_db cfg) (mark_deleted_stmt i reason))" for reason
    by (intro holding.execute_keeps always_pg_call) (auto simp: holds_def mark)
  have f: "always (\<lambda>w w'. holds P w \<longrightarrow> holds P w') (fetch_one q)" for q :: "sadi_db \<Rightarrow> 'x option"
    unfolding fetch_one_def by (intro holding.run_read_keeps always_pg_call) (auto simp: holds_def)
  show ?thesis
    unfolding process_check_def fetch_raw_news_def already_cleaned_def mark_deleted_def Let_def
    by (intro triple_keeps) (auto intro!: keeps.always_bind keeps.always_ret m f split: option.splits)
qed

lemma store_stable: "triple P (process_store cfg i tb) (\<lambda>_. P) P"
proof -
  have "always (\<lambda>w w'. holds P w \<longrightarrow> holds P w') (insert_cleaned_news (sg_db cfg) c)" for c
    unfolding insert_cleaned_news_def by (intro holding.execute_keeps always_pg_call) (auto simp: holds_def store)
  moreover have "always (\<lambda>w w'. holds P w \<longrightarrow> holds P w') (publish_cleaned k)" for k
    unfolding publish_cleaned_def sadi_publish_def
    by (intro keeps.always_bind keeps.always_ret always_rs_call) (auto simp: holds_def announce)
  ultimately show ?thesis
    unfolding process_store_def by (intro triple_keeps keeps.always_bind uuid4_keeps now_keeps)
qed

lemma turn_stable: "triple P (clean_check cfg L m) (\<lambda>_. P) P" "triple P (clean_store cfg m v) (\<lambda>_. P) P"
proof -
  have "triple P (bind (uuid_of_text (cm_raw_id m)) (\<lambda>raw_id. bind (process_check cfg L raw_id) (\<lambda>tb.
        case tb of None \<Rightarrow> seq (handler_ack (cm_message_id m)) (ret None) | Some tb \<Rightarrow> ret (Some (raw_id, tb))))) (\<lambda>_. P) P"
    by (rule triple_uuid_of_text, rule triple_bind [OF check_stable])
      (auto intro!: triple_bind [OF ack_stable] triple_ret split: option.splits)
  then show "triple P (clean_check cfg L m) (\<lambda>_. P) P"
    unfolding clean_check_def by (rule triple_try) (rule triple_bind [OF leave_unacked_triple triple_ret])
  show "triple P (clean_store cfg m v) (\<lambda>_. P) P"
    unfolding clean_store_def
    by (rule triple_try [where S = P], rule triple_bind [OF store_stable ack_stable], rule leave_unacked_triple)
qed

end

section \<open>What the operations leave of the loops' state\<close>

text \<open>A preorder that the tables, the streams and fresh ids do not matter to.\<close>

locale service_frame = crawl_reading R for R :: "'z crawl_world_scheme \<Rightarrow> 'z crawl_world_scheme \<Rightarrow> bool" +
  assumes pg_frame: "R w (w\<lparr> d_db := d, d_pg := fs \<rparr>)"
    and rs_frame: "R w (w\<lparr> d_streams := ss, d_rs := fs \<rparr>)"
    and uuid_frame: "R w (w\<lparr> d_next_uuid := i \<rparr>)"
begin

lemma calls_frame: "always R (sadi_pg_call stmt)" "always R (sadi_rs_call act)" "always R sadi_uuid4" "always R sadi_now"
  by (auto intro!: always_pg_call always_rs_call pg_frame rs_frame)
    (simp_all add: always_def sadi_uuid4_def sadi_now_def get_w_def uuid_frame R_refl)

lemma clients_frame: "always R (sadi_execute c stmt)" "always R (sadi_execute_returning c stmt')" "always R (fetch_one q)"
  "always R (sadi_publish name f)" "always R (handler_ack k)"
  unfolding fetch_one_def sadi_publish_def handler_ack_def sadi_ack_def
  by (intro execute_keeps execute_returning_keeps run_read_keeps calls_frame always_bind always_ret)+

lemma or_else_frame: "always R m \<Longrightarrow> always R (or_else m x)"
  unfolding or_else_def by (auto intro!: always_try always_ret always_raise)

lemma cleaning_frame: "always R (process_check cfg L i)" "always R (process_store cfg i tb)"
  unfolding process_check_def fetch_raw_news_def already_cleaned_def mark_deleted_def process_store_def
    insert_cleaned_news_def publish_cleaned_def Let_def
  by (auto intro!: always_bind always_ret clients_frame calls_frame split: option.splits)

lemma leave_frame: "always R (leave_unacked e)"
  unfolding leave_unacked_def by (auto intro: always_ret always_raise)

lemma turn_frame: "always R (clean_check cfg L m)" "always R (clean_store cfg m v)"
  unfolding clean_check_def clean_store_def uuid_of_text_def
  by (auto intro!: always_try always_bind always_ret always_raise cleaning_frame clients_frame leave_frame split: option.splits)

lemma crawl_frame: "always R (crawl_execute cfg L eid source date)"
  unfolding crawl_execute_def execute_body_def create_crawler_def publish_crawl_completed_def persist_failures_def
    persist_successes_def save_crawl_error_def persist_success_def
  by (auto intro!: always_try always_bind always_ret always_raise always_for_each or_else_frame crawler_reads clients_frame
      calls_frame split: sum.splits option.splits sadi_exn.splits sadi_class.splits)

lemma reading_frame: "always R read_messages" "always R (reclaim_pending ms)"
proof -
  have "always R (to_stream_messages es)" for es
    unfolding to_stream_messages_def to_stream_message_def
    by (auto intro!: always_map_io always_ret always_raise split: option.splits)
  then show "always R read_messages" "always R (reclaim_pending ms)"
    unfolding read_messages_def reclaim_pending_def sadi_read_group_def sadi_autoclaim_def
    by (auto intro!: always_bind calls_frame)
qed

end

text \<open>The loops' own state is neither that of the crawls nor that of the stores.\<close>

definition same_loop_state :: "'z service_world_scheme \<Rightarrow> 'z service_world_scheme \<Rightarrow> bool" where
  "same_loop_state w w' \<longleftrightarrow> k_queue w' = k_queue w \<and> k_workers w' = k_workers w \<and> k_up w' = k_up w \<and> v_crawls w' = v_crawls w"

interpretation loops: service_frame same_loop_state
  by unfold_locales (auto simp: same_loop_state_def)

section \<open>Steps\<close>

text \<open>The loops are up between \<^verbatim>\<open>start\<close> and the cancellation; a loop that sleeps goes on when it is due; a worker takes
  a message when it holds no work. The outside world lets time pass, sets the scripts of faults and changes the
  web; consumers of other groups leave the entries alone.\<close>

inductive service_step :: "sadi_config \<Rightarrow> clean_lib \<Rightarrow> crawl_lib \<Rightarrow> service_world \<Rightarrow> service_world \<Rightarrow> bool"
  for cfg KL XL where
  starts: "\<not> k_up w \<Longrightarrow> service_start cfg w = (r, w') \<Longrightarrow> service_step cfg KL XL w w'"
| stops: "k_up w \<Longrightarrow> service_stop w = (r, w') \<Longrightarrow> service_step cfg KL XL w w'"
| reads: "k_up w \<Longrightarrow> k_reader_wake w \<le> d_now w \<Longrightarrow> stream_reader w = (r, w') \<Longrightarrow> service_step cfg KL XL w w'"
| reclaims: "k_up w \<Longrightarrow> k_reclaimer_wake w \<le> d_now w \<Longrightarrow> reclaim_turn cfg w = (r, w') \<Longrightarrow> service_step cfg KL XL w w'"
| takes: "n < length (k_workers w) \<Longrightarrow> k_workers w ! n = None \<Longrightarrow> worker_take cfg KL n w = (r, w') \<Longrightarrow>
    service_step cfg KL XL w w'"
| stores: "n < length (k_workers w) \<Longrightarrow> worker_store cfg n w = (r, w') \<Longrightarrow> service_step cfg KL XL w w'"
| posts: "post_crawl q w = (r, w') \<Longrightarrow> service_step cfg KL XL w w'"
| crawls: "run_crawl cfg XL j w = (r, w') \<Longrightarrow> service_step cfg KL XL w w'"
| outside: "d_now w \<le> t \<Longrightarrow> service_step cfg KL XL w (w\<lparr> d_now := t, d_pg := pgs, d_rs := rss, d_web := web,
    d_feeds := feeds, d_browser := browser, d_jitter := js, d_choices := cs \<rparr>)"
| others: "\<forall>n. sm_entries (the_stream ss n) = sm_entries (the_stream (d_streams w) n) \<Longrightarrow>
    service_step cfg KL XL w (w\<lparr> d_streams := ss \<rparr>)"

section \<open>The invariant\<close>

text \<open>Every announcement of a raw record is of a stored one.\<close>

definition raw_announced :: "sadi_db \<Rightarrow> streams \<Rightarrow> bool" where
  "raw_announced d ss \<longleftrightarrow> (\<forall>f \<in> snd ` set (sm_entries (the_stream ss STREAM_RAW_NEWS_INSERTED)).
     \<exists>i \<in> rn_raw_id ` set (s_raw_news d). f = raw_inserted_message i)"

definition names_raw :: "clean_message \<Rightarrow> sadi_db \<Rightarrow> streams \<Rightarrow> bool" where
  "names_raw m d ss \<longleftrightarrow> (\<exists>i \<in> rn_raw_id ` set (s_raw_news d). cm_raw_id m = uuid_str i)"

definition held_works :: "'z cleaning_world_scheme \<Rightarrow> (clean_message \<times> uuid \<times> pystr \<times> pystr) set" where
  "held_works w = {(m, v). Some (m, v) \<in> set (k_workers w)}"

text \<open>The invariant: the tables and the announcements are consistent, each queued message names a stored record, and
  each worker holds the cleaned form of its message's record.\<close>

definition service_ok :: "sadi_config \<Rightarrow> clean_lib \<Rightarrow> 'z cleaning_world_scheme \<Rightarrow> bool" where
  "service_ok cfg KL w \<longleftrightarrow> holds (cleaning_ok cfg KL) w \<and> holds raw_announced w
     \<and> (\<forall>m \<in> set (k_queue w). holds (names_raw m) w)
     \<and> (\<forall>(m, v) \<in> held_works w. parse_uuid (cm_raw_id m) = Some (fst v) \<and> holds (work_ok cfg KL v) w)"

lemma insert_raw_cases:
  "snd (insert_raw_news_stmt r d) = d \<or>
     snd (insert_raw_news_stmt r d) = d\<lparr> s_raw_news := s_raw_news d @ [r] \<rparr>
     \<and> rn_raw_id r \<notin> rn_raw_id ` set (s_raw_news d) \<and> rn_source_url r \<notin> rn_source_url ` set (s_raw_news d)
     \<and> rn_raw_hash r \<notin> rn_raw_hash ` set (s_raw_news d)"
  by (auto simp: insert_raw_news_stmt_def)

lemma insert_error_same [simp]:
  "s_raw_news (snd (insert_crawl_error_stmt e d)) = s_raw_news d"
  "s_cleaned_news (snd (insert_crawl_error_stmt e d)) = s_cleaned_news d"
  by (simp_all add: insert_crawl_error_stmt_def split: option.splits)

lemma insert_raw_sub: "set (s_raw_news d) \<subseteq> set (s_raw_news (snd (insert_raw_news_stmt r d)))"
  "s_cleaned_news (snd (insert_raw_news_stmt r d)) = s_cleaned_news d"
  using insert_raw_cases [of r d] by auto

lemma mark_deleted_ids [simp]:
  "rn_raw_id ` set (s_raw_news (snd (mark_deleted_stmt i reason d))) = rn_raw_id ` set (s_raw_news d)"
  by (simp add: mark_deleted_stmt_def image_image)

lemma stored_raw_mono: "set (s_raw_news d) \<subseteq> set (s_raw_news d') \<Longrightarrow> stored_raw d i t b \<Longrightarrow> stored_raw d' i t b"
  by (auto simp: stored_raw_def)

lemma work_ok_mono: "set (s_raw_news d) \<subseteq> set (s_raw_news d') \<Longrightarrow> work_ok cfg L v d ss \<Longrightarrow> work_ok cfg L v d' ss'"
  unfolding work_ok_def cleaned_form_def using stored_raw_mono by blast

interpretation work: stable "work_ok cfg L v" for cfg L v
proof
  show "crawl_keeps (work_ok cfg L v)" unfolding crawl_keeps_def
  proof (intro conjI allI impI)
    show "work_ok cfg L v (snd (insert_raw_news_stmt r d)) ss" if "work_ok cfg L v d ss" for r d ss
      by (rule work_ok_mono [OF insert_raw_sub(1) that])
    show "work_ok cfg L v (snd (insert_crawl_error_stmt e d)) ss" if "work_ok cfg L v d ss" for e d ss
      by (rule work_ok_mono [OF _ that]) simp
    show "work_ok cfg L v d (snd (xadd STREAM_RAW_NEWS_INSERTED (raw_inserted_message i) ss))" if "work_ok cfg L v d ss" for i d ss
      by (rule work_ok_mono [OF _ that]) simp
  qed
  show "work_ok cfg L v d (snd (xadd STREAM_CRAWL_COMPLETED f ss))" if "work_ok cfg L v d ss" for f d ss
    by (rule work_ok_mono [OF _ that]) simp
  show "work_ok cfg L v d ss'" if "work_ok cfg L v d ss" for d ss ss'
    by (rule work_ok_mono [OF _ that]) simp
  show "work_ok cfg L v (snd (mark_deleted_stmt i reason d)) ss" if "work_ok cfg L v d ss" for i reason d ss
    using that by (simp only: work_ok_def mark_deleted_cleaned)
  show "work_ok cfg L v (snd (insert_cleaned_stmt c d)) ss" if "work_ok cfg L v d ss" for c d ss
    by (rule work_ok_mono [OF _ that]) simp
  show "work_ok cfg L v d (snd (xadd STREAM_RAW_NEWS_CLEANED f ss))" if "work_ok cfg L v d ss" for f d ss
    by (rule work_ok_mono [OF _ that]) simp
qed

interpretation announced: stable raw_announced
proof
  have g: "raw_announced d' ss" if "rn_raw_id ` set (s_raw_news d) \<subseteq> rn_raw_id ` set (s_raw_news d')" "raw_announced d ss" for d d' ss
    using that(2) subsetD [OF that(1)] unfolding raw_announced_def by (fast elim!: ballE bexE)
  show "crawl_keeps raw_announced" unfolding crawl_keeps_def
  proof (intro conjI allI impI)
    show "raw_announced (snd (insert_raw_news_stmt r d)) ss" if "raw_announced d ss" for r d ss
      using g [OF image_mono [OF insert_raw_sub(1)] that] .
    show "raw_announced (snd (insert_crawl_error_stmt e d)) ss" if "raw_announced d ss" for e d ss
      using g [OF _ that] by simp
    show "raw_announced d (snd (xadd STREAM_RAW_NEWS_INSERTED (raw_inserted_message i) ss))"
      if "raw_announced d ss" "i \<in> rn_raw_id ` set (s_raw_news d)" for i d ss
      using that by (auto simp: raw_announced_def xadd_streams)
  qed
qed (simp_all add: raw_announced_def xadd_streams)

interpretation names: stable "names_raw m" for m
proof
  have g: "names_raw m d' ss'" if "rn_raw_id ` set (s_raw_news d) \<subseteq> rn_raw_id ` set (s_raw_news d')" "names_raw m d ss" for d d' ss ss'
    using that(2) subsetD [OF that(1)] unfolding names_raw_def by (elim bexE) (rule bexI)
  show "crawl_keeps (names_raw m)" unfolding crawl_keeps_def
  proof (intro conjI allI impI)
    show "names_raw m (snd (insert_raw_news_stmt r d)) ss" if "names_raw m d ss" for r d ss
      using g [OF image_mono [OF insert_raw_sub(1)] that] .
    show "names_raw m (snd (insert_crawl_error_stmt e d)) ss" if "names_raw m d ss" for e d ss
      using g [OF _ that] by simp
    show "names_raw m d (snd (xadd STREAM_RAW_NEWS_INSERTED (raw_inserted_message i) ss))" if "names_raw m d ss" for i d ss
      using that by (simp add: names_raw_def)
  qed
qed (simp_all add: names_raw_def)

text \<open>A crawl keeps the cleaning's conditions: it stores new records only, none of them rejected.\<close>

lemma insert_raw_ok:
  assumes "cleaning_ok cfg L d ss" and "\<not> rn_is_deleted r"
  shows "cleaning_ok cfg L (snd (insert_raw_news_stmt r d)) ss"
proof -
  consider "snd (insert_raw_news_stmt r d) = d"
    | "snd (insert_raw_news_stmt r d) = d\<lparr> s_raw_news := s_raw_news d @ [r] \<rparr>"
      "rn_raw_id r \<notin> rn_raw_id ` set (s_raw_news d)" "rn_source_url r \<notin> rn_source_url ` set (s_raw_news d)"
      "rn_raw_hash r \<notin> rn_raw_hash ` set (s_raw_news d)"
    using insert_raw_cases [of r d] by blast
  then show ?thesis
  proof cases
    case 1
    with assms(1) show ?thesis by simp
  next
    case 2
    have "cleaned_form cfg L (d\<lparr> s_raw_news := s_raw_news d @ [r] \<rparr>) i t b" if "cleaned_form cfg L d i t b" for i t b
      using that unfolding cleaned_form_def stored_raw_def by auto
    with 2 assms show ?thesis by (auto simp: cleaning_ok_def raw_keys_distinct_def)
  qed
qed

interpretation consistent: crawl_stable "cleaning_ok cfg L" for cfg L
proof
  show "crawl_keeps (cleaning_ok cfg L)" unfolding crawl_keeps_def
  proof (intro conjI allI impI)
    show "cleaning_ok cfg L (snd (insert_crawl_error_stmt e d)) ss" if "cleaning_ok cfg L d ss" for e d ss
      using that by (simp add: cleaning_ok_def raw_keys_distinct_def cleaned_form_def stored_raw_def)
    show "cleaning_ok cfg L d (snd (xadd STREAM_RAW_NEWS_INSERTED (raw_inserted_message i) ss))" if "cleaning_ok cfg L d ss" for i d ss
      using that by (simp add: cleaning_ok_def xadd_streams)
  qed (rule insert_raw_ok)
qed (simp_all add: cleaning_ok_def xadd_streams)

section \<open>Reading\<close>

definition same_entries :: "streams \<Rightarrow> streams \<Rightarrow> bool" where
  "same_entries ss ss' \<longleftrightarrow> (\<forall>n. sm_entries (the_stream ss' n) = sm_entries (the_stream ss n))"

lemma put_group_entries: "same_entries ss (put_group name grp g ss)"
  by (simp add: same_entries_def)

lemma reads_entries:
  "same_entries ss (snd (xreadgroup name grp consumer count now ss))"
  "same_entries ss (snd (xautoclaim name grp consumer ms cnt now ss))"
  "xreadgroup name grp consumer count now ss = (Inr es, ss') \<Longrightarrow> set es \<subseteq> set (sm_entries (the_stream ss name))"
  "xautoclaim name grp consumer ms cnt now ss = (Inr es, ss') \<Longrightarrow> set es \<subseteq> set (sm_entries (the_stream ss name))"
  by (auto simp: xreadgroup_def xautoclaim_def Let_def put_group_entries take_count_def same_entries_def dest: in_set_takeD
      split: option.splits if_splits)

lemma to_messages:
  assumes "\<forall>f \<in> snd ` set es. \<exists>i \<in> I. f = raw_inserted_message i"
  shows "\<exists>ms. to_stream_messages es w = (Inr ms, w) \<and> (\<forall>m \<in> set ms. \<exists>i \<in> I. cm_raw_id m = uuid_str i)"
  using assms
proof (induction es)
  case Nil
  then show ?case by (simp add: to_stream_messages_def io_defs)
next
  case (Cons e es)
  then obtain ms where "to_stream_messages es w = (Inr ms, w)" "\<forall>m \<in> set ms. \<exists>i \<in> I. cm_raw_id m = uuid_str i" by auto
  moreover obtain i where "i \<in> I" "snd e = raw_inserted_message i" using Cons.prems by auto
  ultimately show ?case
    by (auto simp: to_stream_messages_def to_stream_message_def raw_inserted_message_def io_defs)
qed

lemma reading_result:
  assumes "sadi_rs_call act w = (q, w1)" and "\<And>t ss. same_entries ss (snd (act t ss))"
    and "\<And>t ss es ss'. act t ss = (Inr es, ss') \<Longrightarrow> set es \<subseteq> set (sm_entries (the_stream ss STREAM_RAW_NEWS_INSERTED))"
    and "holds raw_announced w"
  shows "d_db w1 = d_db w \<and> same_entries (d_streams w) (d_streams w1)
    \<and> (\<forall>es. q = Inr es \<longrightarrow> (\<exists>ms. to_stream_messages es w1 = (Inr ms, w1) \<and> (\<forall>m \<in> set ms. holds (names_raw m) w)))"
proof (intro conjI allI impI)
  obtain s where s: "w1 = w\<lparr> d_streams := s, d_rs := tl (d_rs w) \<rparr>" "s = d_streams w \<or> s = snd (act (d_now w) (d_streams w))"
    using sadi_rs_call_world [OF assms(1)] by blast
  then show "d_db w1 = d_db w" "same_entries (d_streams w) (d_streams w1)"
    using assms(2) by (auto simp: same_entries_def)
  fix es
  assume "q = Inr es"
  with assms(1) sadi_rs_call_Inr [of act w es w1] assms(3)
  have "set es \<subseteq> set (sm_entries (the_stream (d_streams w) STREAM_RAW_NEWS_INSERTED))" by blast
  with assms(4) have "\<forall>f \<in> snd ` set es. \<exists>i \<in> rn_raw_id ` set (s_raw_news (d_db w)). f = raw_inserted_message i"
    unfolding raw_announced_def holds_def by (meson image_mono subsetD)
  from to_messages [OF this, of w1]
  show "\<exists>ms. to_stream_messages es w1 = (Inr ms, w1) \<and> (\<forall>m \<in> set ms. holds (names_raw m) w)"
    by (simp add: names_raw_def holds_def)
qed

text \<open>Reading and reclaiming never fail to make messages of the entries.\<close>

lemma messages_result:
  assumes "m = read_messages \<or> m = reclaim_pending ms" and "m w = (q, w1)" and "holds raw_announced w"
  shows "d_db w1 = d_db w \<and> same_entries (d_streams w) (d_streams w1) \<and> (\<forall>xs. q = Inr xs \<longrightarrow> (\<forall>x \<in> set xs. holds (names_raw x) w))"
proof -
  obtain act where m: "m = bind (sadi_rs_call act) to_stream_messages"
    and a: "\<And>t ss. same_entries ss (snd (act t ss))"
      "\<And>t ss es ss'. act t ss = (Inr es, ss') \<Longrightarrow> set es \<subseteq> set (sm_entries (the_stream ss STREAM_RAW_NEWS_INSERTED))"
    using assms(1) reads_entries
    unfolding read_messages_def reclaim_pending_def sadi_read_group_def sadi_autoclaim_def by metis
  obtain p w2 where p: "sadi_rs_call act w = (p, w2)" by fastforce
  have r: "d_db w2 = d_db w \<and> same_entries (d_streams w) (d_streams w2)
    \<and> (\<forall>es. p = Inr es \<longrightarrow> (\<exists>ms. to_stream_messages es w2 = (Inr ms, w2) \<and> (\<forall>m \<in> set ms. holds (names_raw m) w)))"
    by (rule reading_result [OF p _ _ assms(3)]) (fact a)+
  show ?thesis
  proof (cases p)
    case (Inl e)
    with m p assms(2) r show ?thesis by (auto simp: bind_def)
  next
    case (Inr es)
    with r obtain ys where "to_stream_messages es w2 = (Inr ys, w2)" "\<forall>m \<in> set ys. holds (names_raw m) w" by blast
    with m p assms(2) r Inr show ?thesis by (auto simp: bind_def)
  qed
qed

section \<open>The steps keep the invariant\<close>

text \<open>Steps that leave the tables and the entries alone, and queue only messages that name a stored record.\<close>

lemma service_ok_reading:
  assumes "service_ok cfg KL w" and "d_db w' = d_db w" and "same_entries (d_streams w) (d_streams w')"
    and "held_works w' \<subseteq> held_works w" and "\<forall>m \<in> set (k_queue w'). holds (names_raw m) w"
  shows "service_ok cfg KL w'"
proof -
  have e: "holds P w'" if "holds P w" "\<And>d ss ss'. P d ss \<Longrightarrow> (\<And>n. sm_entries (the_stream ss' n) = sm_entries (the_stream ss n)) \<Longrightarrow> P d ss'" for P
    using that(2) [of "d_db w" "d_streams w" "d_streams w'"] that(1) assms(2,3) by (simp add: holds_def same_entries_def)
  have "holds (cleaning_ok cfg KL) w'" using assms(1) by (intro e) (auto simp: service_ok_def intro: consistent.groups)
  moreover have "holds raw_announced w'" using assms(1) by (intro e) (auto simp: service_ok_def intro: announced.groups)
  moreover have "holds (names_raw m) w'" if "m \<in> set (k_queue w')" for m
    using assms(5) that by (intro e) (auto intro: names.groups)
  moreover have "parse_uuid (cm_raw_id m) = Some (fst v) \<and> holds (work_ok cfg KL v) w'" if "(m, v) \<in> held_works w'" for m v
  proof -
    from that assms(1,4) have "parse_uuid (cm_raw_id m) = Some (fst v)" "holds (work_ok cfg KL v) w"
      unfolding service_ok_def by blast+
    then show ?thesis using e [of "work_ok cfg KL v"] work.groups by blast
  qed
  ultimately show ?thesis by (auto simp: service_ok_def)
qed

lemma held_same: "k_workers w' = k_workers w \<Longrightarrow> held_works w' = held_works w"
  by (simp add: held_works_def)

text \<open>Reading and reclaiming queue messages, or nothing.\<close>

lemma queueing_ok:
  fixes w :: "'z service_world_scheme"
  assumes ok: "service_ok cfg KL w" and m: "m = read_messages \<or> m = reclaim_pending ms" and run: "bind m enqueue w = (q, w')"
  shows "service_ok cfg KL w'"
proof -
  obtain p w1 where p: "m w = (p, w1)" by fastforce
  have raw: "holds raw_announced w" using ok by (simp add: service_ok_def)
  note r = messages_result [OF m p raw]
  have l: "same_loop_state w w1" using m p alwaysD [OF loops.reading_frame(1)] alwaysD [OF loops.reading_frame(2)] by blast
  show ?thesis
  proof (cases p)
    case (Inl e)
    with p run have "w' = w1" by (simp add: bind_def)
    with l r ok show ?thesis
      by (intro service_ok_reading [OF ok]) (auto simp: same_loop_state_def held_works_def service_ok_def)
  next
    case (Inr xs)
    with p run have "w' = w1\<lparr> k_queue := k_queue w1 @ xs \<rparr>" by (simp add: bind_def enqueue_def modify_def)
    with l r ok Inr show ?thesis
      by (intro service_ok_reading [OF ok]) (auto simp: same_loop_state_def held_works_def service_ok_def)
  qed
qed

lemma service_ok_same:
  assumes "service_ok cfg KL w" and "d_db w' = d_db w" and "same_entries (d_streams w) (d_streams w')"
    and "held_works w' \<subseteq> held_works w" and "set (k_queue w') \<subseteq> set (k_queue w)"
  shows "service_ok cfg KL w'"
  using assms by (intro service_ok_reading [OF assms(1)]) (auto simp: service_ok_def)

lemma stream_reader_ok:
  fixes w :: "'z service_world_scheme"
  assumes ok: "service_ok cfg KL w" and run: "stream_reader w = (r, w')"
  shows "service_ok cfg KL w'"
proof -
  obtain q w1 where q: "bind read_messages enqueue w = (q, w1)" by fastforce
  have 1: "service_ok cfg KL w1" using queueing_ok [OF ok _ q] by blast
  show ?thesis
  proof (cases "w' = w1")
    case False
    with run q have "w' = w1\<lparr> k_reader_wake := d_now w1 + 5 * 1000000 \<rparr>"
      by (auto simp: stream_reader_def try_except_def reader_sleep_def modify_def raise_def split: sum.splits if_splits)
    with 1 show ?thesis by (intro service_ok_same [OF 1]) (auto simp: same_entries_def held_works_def)
  qed (use 1 in simp)
qed

lemma reclaim_turn_ok:
  fixes w :: "'z service_world_scheme"
  assumes ok: "service_ok cfg KL w" and run: "reclaim_turn c w = (r, w')"
  shows "service_ok cfg KL w'"
proof -
  obtain q w1 where q: "bind (reclaim_pending (cl_stream_claim_timeout_ms (sg_clean c))) enqueue w = (q, w1)" by fastforce
  have 1: "service_ok cfg KL w1" using queueing_ok [OF ok _ q] by blast
  show ?thesis
  proof (cases "w' = w1")
    case False
    with run q have "w' = w1\<lparr> k_reclaimer_wake := d_now w1 + max 0 (cl_stream_claim_timeout_ms (sg_clean c)) * 1000 \<rparr>"
      by (auto simp: reclaim_turn_def try_except_def bind_def reclaimer_sleep_def modify_def raise_def ret_def split: sum.splits if_splits)
    with 1 show ?thesis by (intro service_ok_same [OF 1]) (auto simp: same_entries_def held_works_def)
  qed (use 1 in simp)
qed

text \<open>A triple for each value of a quantity is one that does not mention it.\<close>

lemma triple_ghost: "(\<And>x. triple (\<lambda>d ss. P d ss \<and> f d ss = x) m R E) \<Longrightarrow> triple P m R E"
  by (simp add: valid_def holds_def)

lemma triple_post:
  assumes "triple P m R E" and "holds P w" and "m w = (q, w')"
  shows "(\<forall>x. q = Inr x \<longrightarrow> holds (R x) w') \<and> (\<forall>e. q = Inl e \<longrightarrow> holds E w')"
  using assms unfolding valid_def by (cases q) fastforce+

text \<open>What a worker takes away from the check is its message's work.\<close>

definition work_of :: "sadi_config \<Rightarrow> clean_lib \<Rightarrow> clean_message \<Rightarrow> (uuid \<times> pystr \<times> pystr) option \<Rightarrow> sadi_db \<Rightarrow> streams \<Rightarrow> bool" where
  "work_of cfg KL m r d ss \<longleftrightarrow> cleaning_ok cfg KL d ss
     \<and> (\<forall>v. r = Some v \<longrightarrow> parse_uuid (cm_raw_id m) = Some (fst v) \<and> work_ok cfg KL v d ss)"

lemma check_work:
  assumes max: "1 \<le> sd_max_retry (sg_db cfg)"
  shows "triple (cleaning_ok cfg KL) (clean_check cfg KL m) (work_of cfg KL m) (cleaning_ok cfg KL)"
proof -
  have c: "triple (cleaning_ok cfg KL) (process_check cfg KL i)
      (\<lambda>r d ss. cleaning_ok cfg KL d ss \<and> (\<forall>tb. r = Some tb \<longrightarrow> work_ok cfg KL (i, tb) d ss)) (cleaning_ok cfg KL)" for i
    by (rule triple_ghost [where f = "\<lambda>d ss. set (s_cleaned_news d)"])
      (rule triple_weaken [OF process_check_triple [OF max]], auto simp: after_check_def work_ok_def)
  have a: "triple (cleaning_ok cfg KL) (seq (handler_ack k) (ret None)) (work_of cfg KL m) (cleaning_ok cfg KL)" for k
    by (rule triple_bind [OF consistent.ack_stable], rule triple_ret) (simp add: work_of_def)
  have k: "triple (\<lambda>d ss. cleaning_ok cfg KL d ss \<and> (\<forall>tb. r = Some tb \<longrightarrow> work_ok cfg KL (i, tb) d ss))
      (case r of None \<Rightarrow> seq (handler_ack (cm_message_id m)) (ret None) | Some tb \<Rightarrow> ret (Some (i, tb)))
      (work_of cfg KL m) (cleaning_ok cfg KL)" if "parse_uuid (cm_raw_id m) = Some i" for i r
  proof (cases r)
    case None
    then show ?thesis using a by simp
  next
    case (Some tb)
    then show ?thesis by (simp, intro triple_ret) (use that in \<open>auto simp: work_of_def\<close>)
  qed
  have "triple (cleaning_ok cfg KL) (bind (uuid_of_text (cm_raw_id m)) (\<lambda>raw_id. bind (process_check cfg KL raw_id) (\<lambda>tb.
        case tb of None \<Rightarrow> seq (handler_ack (cm_message_id m)) (ret None) | Some tb \<Rightarrow> ret (Some (raw_id, tb)))))
      (work_of cfg KL m) (cleaning_ok cfg KL)"
    by (rule triple_uuid_of_text) (rule triple_bind [OF c k], assumption+)
  then show ?thesis unfolding clean_check_def
    by (rule triple_try, intro triple_bind [OF leave_unacked_triple] triple_ret) (simp add: work_of_def)
qed

lemma store_consistent:
  assumes max: "1 \<le> sd_max_retry (sg_db cfg)"
  shows "triple (\<lambda>d ss. cleaning_ok cfg KL d ss \<and> work_ok cfg KL v d ss) (clean_store cfg m v) (\<lambda>_. cleaning_ok cfg KL) (cleaning_ok cfg KL)"
proof -
  have s: "triple (\<lambda>d ss. cleaning_ok cfg KL d ss \<and> work_ok cfg KL v d ss) (process_store cfg (fst v) (snd v))
      (\<lambda>_. cleaning_ok cfg KL) (cleaning_ok cfg KL)"
    by (rule triple_weaken [OF process_store_triple [OF max, of KL "{}"]]) (auto simp: before_store_def work_ok_def)
  show ?thesis unfolding clean_store_def
    by (rule triple_try [where S = "cleaning_ok cfg KL"], rule triple_bind [OF s consistent.ack_stable], rule leave_unacked_triple)
qed

text \<open>What all the sub-steps keep.\<close>

lemma kept:
  assumes "\<And>P. stable P \<Longrightarrow> triple P m (\<lambda>_. P) P" and "m w = (q, w1)" and "service_ok cfg KL w"
  shows "holds raw_announced w1" and "\<And>x. x \<in> set (k_queue w) \<Longrightarrow> holds (names_raw x) w1"
    and "\<And>x v. (x, v) \<in> held_works w \<Longrightarrow> parse_uuid (cm_raw_id x) = Some (fst v) \<and> holds (work_ok cfg KL v) w1"
proof -
  have k: "holds P w1" if "stable P" "holds P w" for P
    using triple_post [OF assms(1) [OF that(1)] that(2) assms(2)] by (cases q) auto
  show "holds raw_announced w1" by (rule k [OF announced.stable_axioms]) (use assms(3) in \<open>simp add: service_ok_def\<close>)
  show "holds (names_raw x) w1" if "x \<in> set (k_queue w)" for x
    by (rule k [OF names.stable_axioms]) (use assms(3) that in \<open>simp add: service_ok_def\<close>)
  show "parse_uuid (cm_raw_id x) = Some (fst v) \<and> holds (work_ok cfg KL v) w1" if "(x, v) \<in> held_works w" for x v
    using k [OF work.stable_axioms] assms(3) that unfolding service_ok_def by blast
qed

lemma held_update: "held_works (w\<lparr> k_workers := (k_workers w)[n := x] \<rparr>) \<subseteq> {(m, v). x = Some (m, v)} \<union> held_works w"
  unfolding held_works_def using set_update_subset_insert [of "k_workers w" n x] by auto

lemma worker_take_ok:
  fixes w :: "'z service_world_scheme"
  assumes max: "1 \<le> sd_max_retry (sg_db cfg)" and ok: "service_ok cfg KL w" and run: "worker_take cfg KL n w = (r, w')"
  shows "service_ok cfg KL w'"
proof (cases "k_queue w")
  case Nil
  with run ok show ?thesis by (simp add: worker_take_def io_defs)
next
  case (Cons m rest)
  define v where "v = w\<lparr> k_queue := rest \<rparr>"
  have v: "service_ok cfg KL v"
    using ok Cons by (intro service_ok_same [OF ok]) (auto simp: v_def same_entries_def held_works_def)
  obtain q w1 where q: "clean_check cfg KL m v = (q, w1)" by fastforce
  note k = kept [OF stable.turn_stable(1) q v]
  have cons: "holds (cleaning_ok cfg KL) v" using v by (simp add: service_ok_def)
  note c = triple_post [OF check_work [OF max] cons q]
  have l: "same_loop_state v w1" using alwaysD [OF loops.turn_frame(1) q] .
  then have hw: "held_works w1 = held_works v" "k_queue w1 = k_queue v" by (auto simp: same_loop_state_def held_works_def)
  show ?thesis
  proof (cases q)
    case (Inl e)
    then have "w' = w1" using run Cons q by (simp add: worker_take_def v_def io_defs)
    with c Inl k hw show ?thesis by (auto simp: service_ok_def)
  next
    case (Inr x)
    then have w': "w' = w1\<lparr> k_workers := (k_workers w1)[n := map_option (Pair m) x] \<rparr>"
      using run Cons q by (simp add: worker_take_def v_def io_defs)
    from c Inr have x: "holds (cleaning_ok cfg KL) w1"
      "\<And>y. x = Some y \<Longrightarrow> parse_uuid (cm_raw_id m) = Some (fst y) \<and> holds (work_ok cfg KL y) w1"
      by (auto simp: holds_def work_of_def)
    have "parse_uuid (cm_raw_id a) = Some (fst b) \<and> holds (work_ok cfg KL b) w1" if "(a, b) \<in> held_works w'" for a b
      using that held_update [of w1 n "map_option (Pair m) x"] x(2) k(3) hw w' by blast
    with x(1) k hw show ?thesis by (auto simp: service_ok_def w' holds_def)
  qed
qed

lemma worker_store_ok:
  fixes w :: "'z service_world_scheme"
  assumes max: "1 \<le> sd_max_retry (sg_db cfg)" and ok: "service_ok cfg KL w" and n: "n < length (k_workers w)"
    and run: "worker_store cfg n w = (r, w')"
  shows "service_ok cfg KL w'"
proof (cases "k_workers w ! n")
  case None
  with run ok show ?thesis by (simp add: worker_store_def io_defs)
next
  case (Some mv)
  obtain m v where mv: "mv = (m, v)" by (cases mv)
  obtain q w1 where q: "clean_store cfg m v w = (q, w1)" by fastforce
  have "(m, v) \<in> held_works w" using Some mv n nth_mem [OF n] by (simp add: held_works_def)
  with ok have pre: "holds (\<lambda>d ss. cleaning_ok cfg KL d ss \<and> work_ok cfg KL v d ss) w"
    by (auto simp: service_ok_def holds_def)
  note k = kept [OF stable.turn_stable(2) q ok]
  have c: "holds (cleaning_ok cfg KL) w1" using triple_post [OF store_consistent [OF max] pre q] by (cases q) auto
  have l: "same_loop_state w w1" using alwaysD [OF loops.turn_frame(2) q] .
  then have 1: "service_ok cfg KL w1" using c k by (auto simp: service_ok_def same_loop_state_def held_works_def)
  show ?thesis
  proof (cases q)
    case (Inl e)
    then have "w' = w1" using run Some mv q by (simp add: worker_store_def io_defs)
    with 1 show ?thesis by simp
  next
    case (Inr x)
    then have w': "w' = w1\<lparr> k_workers := (k_workers w1)[n := None] \<rparr>" using run Some mv q by (simp add: worker_store_def io_defs)
    show ?thesis
      by (rule service_ok_same [OF 1]) (use held_update [of w1 n None] in \<open>auto simp: w' same_entries_def\<close>)
  qed
qed

lemma run_crawl_ok:
  fixes w :: "'z service_world_scheme"
  assumes ok: "service_ok cfg KL w" and run: "run_crawl c XL j w = (r, w')"
  shows "service_ok cfg KL w'"
proof (cases "length (v_crawls w) \<le> j")
  case True
  with run ok show ?thesis by (simp add: run_crawl_def io_defs)
next
  case False
  define v where "v = w\<lparr> v_crawls := remove_at j (v_crawls w) \<rparr>"
  have v: "service_ok cfg KL v"
    by (rule service_ok_same [OF ok]) (auto simp: v_def same_entries_def held_works_def)
  define m :: "('z, unit) service" where "m = crawl_execute c XL (cq_execution_id (v_crawls w ! j)) (cq_source_name (v_crawls w ! j)) (cq_crawl_date (v_crawls w ! j))"
  obtain q w1 where q: "m v = (q, w1)" by fastforce
  have st: "triple P m (\<lambda>_. P) P" if "crawl_stable P" for P
    unfolding m_def by (rule crawl_stable.execute_stable [OF that])
  note k = kept [OF st [OF stable.axioms(1)] q v]
  have cons: "holds (cleaning_ok cfg KL) v" using v by (simp add: service_ok_def)
  have c: "holds (cleaning_ok cfg KL) w1"
    using triple_post [OF st [OF consistent.crawl_stable_axioms] cons q] by (cases q) auto
  have l: "same_loop_state v w1" using alwaysD [OF loops.crawl_frame] q unfolding m_def by blast
  have "w' = w1" using run False q by (auto simp: run_crawl_def m_def v_def io_defs split: sum.splits prod.splits)
  with l c k show ?thesis by (auto simp: service_ok_def same_loop_state_def held_works_def)
qed

end
