(* ===== verification/Sadi_Service_Props.thy ===== *)
theory Sadi_Service_Props
  imports Sadi_Service Sadi_Sample
begin

text \<open>
  The properties of the running service: its invariant holds in every reachable state, whatever the interleaving
  and the faults; and nothing that was stored or announced is ever lost or altered.
\<close>

section \<open>Starting, stopping, and the outside world\<close>

lemma xgroup_entries: "same_entries ss (snd (xgroup_create name grp ss))"
  by (simp add: same_entries_def xgroup_create_def Let_def)

lemma create_group_reads:
  "sadi_create_group name grp w = (r, w') \<Longrightarrow>
     \<exists>ss fs. w' = w\<lparr> d_streams := ss, d_rs := fs \<rparr> \<and> same_entries (d_streams w) ss"
proof -
  assume run: "sadi_create_group name grp w = (r, w')"
  obtain q w1 where q: "sadi_rs_call (\<lambda>_. xgroup_create name grp) w = (q, w1)" by fastforce
  with run have "w' = w1" by (auto simp: sadi_create_group_def try_except_def raise_def ret_def
      split: sum.splits sadi_exn.splits exn.splits redis_exn.splits if_splits)
  moreover obtain s where "w1 = w\<lparr> d_streams := s, d_rs := tl (d_rs w) \<rparr>"
    "s = d_streams w \<or> s = snd (xgroup_create name grp (d_streams w))"
    using sadi_rs_call_world [OF q] by blast
  ultimately show ?thesis using xgroup_entries by (auto simp: same_entries_def)
qed

lemma service_start_effect:
  fixes w :: "'z service_world_scheme"
  assumes run: "service_start c w = (r, w')"
  shows "d_db w' = d_db w \<and> same_entries (d_streams w) (d_streams w') \<and> held_works w' \<subseteq> held_works w
    \<and> set (k_queue w') \<subseteq> set (k_queue w)"
proof -
  obtain p w1 where p: "sadi_ping w = (p, w1)" by fastforce
  then have w1: "\<exists>fs. w1 = w\<lparr> d_rs := fs \<rparr>"
    using sadi_rs_call_world [of "\<lambda>_ ss. (Inr (), ss)" w p w1] by (auto simp: sadi_ping_def)
  obtain q w2 where q: "sadi_create_group STREAM_RAW_NEWS_INSERTED GROUP_NAME w1 = (q, w2)" by fastforce
  from create_group_reads [OF q] w1 obtain ss fs where w2: "w2 = w\<lparr> d_streams := ss, d_rs := fs \<rparr>" "same_entries (d_streams w) ss"
    by auto
  note ping = p and group = q [folded ensure_consumer_group_def]
  consider "w' = w1" | "w' = w2" | t ws where "w' = w2\<lparr> k_queue := [], k_workers := replicate ws None,
      k_reader_wake := d_now w2, k_up := True, k_reclaimer_wake := t \<rparr>"
  proof (cases p)
    case (Inl e)
    with run ping that(1) show ?thesis by (simp add: service_start_def bind_def)
  next
    case (Inr x)
    show ?thesis
    proof (cases q)
      case (Inl e)
      with run ping group \<open>p = Inr x\<close> that(2) show ?thesis by (simp add: service_start_def bind_def)
    next
      case (Inr y)
      with run ping group \<open>p = Inr x\<close>
      have "w' = w2\<lparr> k_queue := [], k_workers := replicate (nat (cl_worker_concurrency (sg_clean c))) None,
          k_reader_wake := d_now w2, k_up := True,
          k_reclaimer_wake := d_now w2 + max 0 (cl_stream_claim_timeout_ms (sg_clean c)) * 1000 \<rparr>"
        by (auto simp: service_start_def bind_def cleaning_start_def reclaimer_sleep_def modify_def)
      then show ?thesis by (rule that(3))
    qed
  qed
  then show ?thesis
    using w1 w2 by cases (auto simp: same_entries_def held_works_def)
qed

lemma service_start_ok:
  fixes w :: "'z service_world_scheme"
  assumes "service_ok cfg KL w" and "service_start c w = (r, w')"
  shows "service_ok cfg KL w'"
  using service_start_effect [OF assms(2)] by (intro service_ok_same [OF assms(1)]) simp_all

lemma service_step_ok:
  assumes "service_step cfg KL XL w w'" and "1 \<le> sd_max_retry (sg_db cfg)" and ok: "service_ok cfg KL w"
  shows "service_ok cfg KL w'"
  using assms(1)
proof cases
  case (starts r)
  show ?thesis by (rule service_start_ok [OF ok starts(2)])
next
  case (stops r)
  then show ?thesis
    by (intro service_ok_same [OF ok]) (auto simp: service_stop_def cleaning_stop_def io_defs same_entries_def held_works_def)
next
  case (reads r)
  show ?thesis by (rule stream_reader_ok [OF ok reads(3)])
next
  case (reclaims r)
  show ?thesis by (rule reclaim_turn_ok [OF ok reclaims(3)])
next
  case (takes n r)
  show ?thesis by (rule worker_take_ok [OF assms(2) ok takes(3)])
next
  case (stores n r)
  show ?thesis by (rule worker_store_ok [OF assms(2) ok stores])
next
  case (posts q r)
  then show ?thesis by (intro service_ok_same [OF ok]) (auto simp: post_crawl_def io_defs same_entries_def held_works_def)
next
  case (crawls j r)
  show ?thesis by (rule run_crawl_ok [OF ok crawls])
next
  case (outside t)
  then show ?thesis by (intro service_ok_same [OF ok]) (auto simp: same_entries_def held_works_def)
next
  case (others ss)
  then show ?thesis by (intro service_ok_same [OF ok]) (auto simp: same_entries_def held_works_def)
qed

text \<open>C2: In every state the service reaches, whatever the order of its loops, workers and crawls, the faults of the
  database and of Redis and the restarts: no two raw records share an address or a hash; every cleaned record is
  the normalised text of a stored record that passes the checks; a record is rejected only for a fault it has;
  only stored records are announced; each queued message names a stored record; and each worker holds the cleaned
  form of its message's record.\<close>

theorem service_invariant:
  assumes "rtranclp (service_step cfg KL XL) w w'" and "1 \<le> sd_max_retry (sg_db cfg)" and "service_ok cfg KL w"
  shows "service_ok cfg KL w'"
  using assms by (induction rule: rtranclp_induct) (auto intro: service_step_ok)

lemma small_ok: "service_ok small_config small_lib small_service"
  by (simp add: service_ok_def holds_def cleaning_ok_def raw_keys_distinct_def raw_announced_def held_works_def small_defs
      the_stream_def empty_stream_def)

text \<open>The sample service, asked to crawl and started.\<close>

theorem service_invariant_witness:
  "\<exists>w. rtranclp (service_step small_config small_lib small_crawl_lib) small_service w \<and> k_up w \<and> v_crawls w \<noteq> []
     \<and> service_ok small_config small_lib w"
proof -
  define q where "q = \<lparr> cq_execution_id = u ''e1'', cq_source_name = MINGPAO, cq_crawl_date = None \<rparr>"
  define w1 where "w1 = snd (post_crawl q small_service)"
  define w2 where "w2 = snd (service_start small_config w1)"
  have w1: "\<not> k_up w1" "v_crawls w1 = [q]" "d_rs w1 = []" "d_streams w1 = small_streams"
    by (simp_all add: w1_def post_crawl_def io_defs small_defs)
  have "k_up w2 \<and> v_crawls w2 = [q]"
    using w1 by (simp add: w2_def service_start_def sadi_ping_def ensure_consumer_group_def sadi_create_group_def
        sadi_rs_call_def cleaning_start_def reclaimer_sleep_def io_defs xgroup_create_def small_streams_def the_stream_def
        py_contains_def py_startswith_def u_def split: prod.splits)
  moreover have steps: "rtranclp (service_step small_config small_lib small_crawl_lib) small_service w2"
  proof (rule converse_rtranclp_into_rtranclp)
    show "service_step small_config small_lib small_crawl_lib small_service w1"
      by (rule posts [where q = q and r = "Inr (202, u ''e1'')"]) (simp add: w1_def post_crawl_def io_defs q_def)
    show "rtranclp (service_step small_config small_lib small_crawl_lib) w1 w2"
      unfolding w2_def by (rule r_into_rtranclp, rule starts [OF w1(1) prod.collapse [symmetric]])
  qed
  moreover have "service_ok small_config small_lib w2"
    by (rule service_invariant [OF steps _ small_ok]) (simp add: small_config_def)
  ultimately show ?thesis by auto
qed

section \<open>Nothing is lost\<close>

lemma stable_after:
  "(\<And>P. stable P \<Longrightarrow> triple P m (\<lambda>_. P) P) \<Longrightarrow> stable P \<Longrightarrow> holds P w \<Longrightarrow> m w = (q, w1) \<Longrightarrow> holds P w1"
  using triple_post [of P m "\<lambda>_. P" P w q w1] by (cases q) auto

lemma same_after: "holds P w \<Longrightarrow> d_db w' = d_db w \<Longrightarrow> d_streams w' = d_streams w \<Longrightarrow> holds P w'"
  by (simp add: holds_def)

lemma reading_stable:
  assumes P: "stable P"
  shows "always (\<lambda>w w'. holds P w \<longrightarrow> holds P w') (stream_reader :: ('z, unit) cleaning)"
    and "always (\<lambda>w w'. holds P w \<longrightarrow> holds P w') (reclaim_turn c :: ('z, unit) cleaning)"
proof -
  note g = crawl_stable.groups [OF stable.axioms(1) [OF P]]
  have t: "always (\<lambda>w w'. holds P w \<longrightarrow> holds P w') (to_stream_messages es)" for es
    unfolding to_stream_messages_def to_stream_message_def
    by (auto intro!: keeps.always_map_io keeps.always_ret keeps.always_raise split: option.splits)
  have r: "always (\<lambda>w w'. holds P w \<longrightarrow> holds P w') (sadi_rs_call act)"
    if "\<And>t ss. same_entries ss (snd (act t ss))" for act
    using that g by (intro always_rs_call) (auto simp: holds_def same_entries_def)
  have e: "always (\<lambda>w w'. holds P w \<longrightarrow> holds P w') (enqueue ms)" for ms
    by (simp add: enqueue_def always_modify holds_def)
  have s: "always (\<lambda>w w'. holds P w \<longrightarrow> holds P w') (reader_sleep n)" "always (\<lambda>w w'. holds P w \<longrightarrow> holds P w') (reclaimer_sleep c)" for n
    by (simp_all add: reader_sleep_def reclaimer_sleep_def always_modify holds_def)
  have m: "always (\<lambda>w w'. holds P w \<longrightarrow> holds P w') (bind read_messages enqueue)"
    "always (\<lambda>w w'. holds P w \<longrightarrow> holds P w') (bind (reclaim_pending ms) enqueue)" for ms
    unfolding read_messages_def reclaim_pending_def sadi_read_group_def sadi_autoclaim_def
    by (intro keeps.always_bind r t e reads_entries)+
  show "always (\<lambda>w w'. holds P w \<longrightarrow> holds P w') (stream_reader :: ('z, unit) cleaning)"
    unfolding stream_reader_def by (intro keeps.always_try m) (auto intro: s keeps.always_raise)
  show "always (\<lambda>w w'. holds P w \<longrightarrow> holds P w') (reclaim_turn c :: ('z, unit) cleaning)"
    unfolding reclaim_turn_def by (intro keeps.always_bind keeps.always_try m s) (auto intro: keeps.always_ret keeps.always_raise)
qed

lemma worker_stable:
  fixes w :: "'z cleaning_world_scheme"
  assumes P: "stable P" and pre: "holds P w" and run: "worker_take cfg KL n w = (r, w') \<or> worker_store cfg n w = (r, w')"
  shows "holds P w'"
  using run
proof
  assume run: "worker_take cfg KL n w = (r, w')"
  show ?thesis
  proof (cases "k_queue w")
    case (Cons m rest)
    obtain q w1 where q: "clean_check cfg KL m (w\<lparr> k_queue := rest \<rparr>) = (q, w1)" by fastforce
    have "holds P w1"
      by (rule stable_after [OF stable.turn_stable(1) P _ q]) (use pre in \<open>simp_all add: holds_def\<close>)
    with run Cons q show ?thesis by (auto simp: worker_take_def io_defs holds_def split: sum.splits)
  qed (use run pre in \<open>simp add: worker_take_def io_defs\<close>)
next
  assume run: "worker_store cfg n w = (r, w')"
  show ?thesis
  proof (cases "k_workers w ! n")
    case (Some mv)
    obtain q w1 where q: "clean_store cfg (fst mv) (snd mv) w = (q, w1)" by fastforce
    have "holds P w1" by (rule stable_after [OF stable.turn_stable(2) P pre q])
    with run Some q show ?thesis by (auto simp: worker_store_def io_defs holds_def split: sum.splits prod.splits)
  qed (use run pre in \<open>simp add: worker_store_def io_defs\<close>)
qed

lemma run_crawl_stable:
  fixes w :: "'z service_world_scheme"
  assumes P: "crawl_stable P" and pre: "holds P w" and run: "run_crawl c XL j w = (r, w')"
  shows "holds P w'"
proof (cases "length (v_crawls w) \<le> j")
  case False
  define v where "v = w\<lparr> v_crawls := remove_at j (v_crawls w) \<rparr>"
  obtain q w1 where q: "crawl_execute c XL (cq_execution_id (v_crawls w ! j)) (cq_source_name (v_crawls w ! j)) (cq_crawl_date (v_crawls w ! j)) v = (q, w1)"
    by fastforce
  have "holds P v" using pre by (simp add: v_def holds_def)
  from triple_post [OF crawl_stable.execute_stable [OF P] this q] have "holds P w1" by (cases q) auto
  moreover have "w' = w1" using run False q by (auto simp: run_crawl_def v_def io_defs split: sum.splits prod.splits)
  ultimately show ?thesis by simp
qed (use run pre in \<open>simp add: run_crawl_def io_defs\<close>)

lemma service_step_stable:
  assumes P: "stable P" and step: "service_step cfg KL XL w w'" and pre: "holds P w"
  shows "holds P w'"
  using step
proof cases
  case (starts r)
  with service_start_effect [OF starts(2)] pre crawl_stable.groups [OF stable.axioms(1) [OF P]] show ?thesis
    by (auto simp: holds_def same_entries_def)
next
  case (stops r)
  with pre show ?thesis by (auto simp: service_stop_def cleaning_stop_def io_defs holds_def)
next
  case (reads r)
  with alwaysD [OF reading_stable(1) [OF P] reads(3)] pre show ?thesis by blast
next
  case (reclaims r)
  with alwaysD [OF reading_stable(2) [OF P] reclaims(3)] pre show ?thesis by blast
next
  case (takes n r)
  with worker_stable [OF P pre] show ?thesis by blast
next
  case (stores n r)
  with worker_stable [OF P pre] show ?thesis by blast
next
  case (posts q r)
  with pre show ?thesis by (auto simp: post_crawl_def io_defs holds_def)
next
  case (crawls j r)
  show ?thesis by (rule run_crawl_stable [OF stable.axioms(1) [OF P] pre crawls])
next
  case (outside t)
  with pre show ?thesis by (simp add: holds_def)
next
  case (others ss)
  with pre crawl_stable.groups [OF stable.axioms(1) [OF P]] show ?thesis by (auto simp: holds_def)
qed

interpretation stored: stable "\<lambda>d ss. stored_raw d i t b" for i t b
proof
  show "crawl_keeps (\<lambda>d ss. stored_raw d i t b)" unfolding crawl_keeps_def
  proof (intro conjI allI impI)
    show "stored_raw (snd (insert_raw_news_stmt r d)) i t b" if "stored_raw d i t b" for r d
      by (rule stored_raw_mono [OF insert_raw_sub(1) that])
    show "stored_raw (snd (insert_crawl_error_stmt e d)) i t b" if "stored_raw d i t b" for e d
      by (rule stored_raw_mono [OF _ that]) simp
  qed
  show "stored_raw (snd (insert_cleaned_stmt c d)) i t b" if "stored_raw d i t b" for c d
    by (rule stored_raw_mono [OF _ that]) simp
qed simp_all

interpretation cleaned: stable "\<lambda>d ss. c \<in> set (s_cleaned_news d)" for c
proof
  show "crawl_keeps (\<lambda>d ss. c \<in> set (s_cleaned_news d))" by (simp add: crawl_keeps_def insert_raw_sub(2))
  show "c \<in> set (s_cleaned_news (snd (insert_cleaned_stmt x d)))" if "c \<in> set (s_cleaned_news d)" for x d
    using insert_cleaned_sub that by blast
qed simp_all

interpretation entry: stable "\<lambda>d ss. e \<in> set (sm_entries (the_stream ss n))" for e n
  by unfold_locales (auto simp: crawl_keeps_def xadd_streams)

text \<open>C8: No step of the service removes or alters what it has stored or announced: a raw record keeps its title and
  body (a rejection only marks it), a cleaned record stays as it is, and every entry of every stream stays.\<close>

theorem nothing_is_lost:
  assumes "rtranclp (service_step cfg KL XL) w w'"
  shows "(\<forall>i t b. stored_raw (d_db w) i t b \<longrightarrow> stored_raw (d_db w') i t b)
    \<and> set (s_cleaned_news (d_db w)) \<subseteq> set (s_cleaned_news (d_db w'))
    \<and> (\<forall>n. set (sm_entries (the_stream (d_streams w) n)) \<subseteq> set (sm_entries (the_stream (d_streams w') n)))"
proof -
  have k: "holds P w'" if "stable P" "holds P w" for P
    using assms that by (induction rule: rtranclp_induct) (auto intro: service_step_stable)
  show ?thesis
    using k [OF stored.stable_axioms] k [OF cleaned.stable_axioms] k [OF entry.stable_axioms] by (auto simp: holds_def)
qed

theorem nothing_is_lost_witness:
  "\<exists>w. rtranclp (service_step small_config small_lib small_crawl_lib) small_service w \<and> w \<noteq> small_service
     \<and> stored_raw (d_db w) 7 (u ''T'') (u ''bc'')"
proof -
  define q where "q = \<lparr> cq_execution_id = u ''e1'', cq_source_name = MINGPAO, cq_crawl_date = None \<rparr>"
  define w where "w = snd (post_crawl q small_service)"
  have "service_step small_config small_lib small_crawl_lib small_service w"
    by (rule posts [where q = q and r = "Inr (202, u ''e1'')"]) (simp add: w_def post_crawl_def io_defs q_def)
  then have s: "rtranclp (service_step small_config small_lib small_crawl_lib) small_service w" by (rule r_into_rtranclp)
  have "v_crawls w = [q]" by (simp add: w_def post_crawl_def io_defs small_defs)
  moreover have "v_crawls small_service = []" by (simp add: small_defs)
  moreover have "stored_raw (d_db small_service) 7 (u ''T'') (u ''bc'')" by (simp add: stored_raw_def small_defs)
  ultimately show ?thesis using nothing_is_lost [OF s] s by fastforce
qed

end
