(* ===== verification/Sapi_Lifecycle.thy ===== *)
theory Sapi_Lifecycle
  imports Sapi_Event_Store Sapi_Stream Sapi_Stock_List
begin

text \<open>
  \<^verbatim>\<open>app/main.py\<close> and \<^verbatim>\<open>app/layer_tasks.py\<close>: what the service opens at startup, in which order it
  closes it again, and the Tasks of its layers: their start, their restart after a crash and their
  cancellation at shutdown; with the functions that open and close the clients. What a layer's
  coroutine does while it runs is the subject of the layers' own theories: here it runs until it
  ends, in some way, at some moment.
\<close>

section \<open>Resources and tasks\<close>

datatype resource = AGGREGATION_GROUPS | LLM_ADAPTER | HTTP_CLIENT | REDIS_STATE | REDIS_STREAM | DB_POOL

text \<open>What the exit stack holds.\<close>

datatype exit_callback = Close resource | Cancel_layer_tasks

datatype task_end = Returned | Was_cancelled | Failed exn

text \<open>\<open>lt_monitored\<close>: \<^verbatim>\<open>_on_done\<close> is registered as a callback and has not been called.\<close>

record layer_task =
  lt_layer :: layer
  lt_end :: "task_end option"
  lt_cancelling :: bool
  lt_monitored :: bool

datatype life_phase =
    Starting
  | Serving      \<comment> \<open>at the \<^verbatim>\<open>yield\<close>\<close>
  | Leaving      \<comment> \<open>the exit stack runs its callbacks\<close>
  | Gathering    \<comment> \<open>in the \<^verbatim>\<open>gather\<close> of \<^verbatim>\<open>_cancel_layer_tasks\<close>\<close>
  | Finished

text \<open>\<open>l_clients\<close> are the modules' singletons, \<open>l_layers\<close> the dict of Tasks, by their place in
  \<open>l_tasks\<close>, \<open>l_timers\<close> the pending calls of \<^verbatim>\<open>call_later\<close> with their moment, \<open>l_close_faults\<close> what
  the calls that close a resource will meet, \<open>l_error\<close> the exception the exit stack carries on.\<close>

record life_world = net_world +
  l_phase :: life_phase
  l_config :: "app_config option"
  l_clients :: "resource list"
  l_stack :: "exit_callback list"
  l_opened :: "resource list"
  l_closed :: "resource list"
  l_close_faults :: "exn fault list"
  l_tasks :: "layer_task list"
  l_layers :: "(layer \<times> nat) list"
  l_registered :: bool
  l_timers :: "(layer \<times> instant) list"
  l_shutting_down :: bool
  l_error :: "exn option"
  l_abandoned :: "resource list"

type_synonym ('z, 'a) life = "('z life_world_scheme, exn, 'a) io"

section \<open>Opening and closing\<close>

definition opened :: "resource \<Rightarrow> ('z, unit) life" where
  "opened r = modify (\<lambda>w. w\<lparr> l_opened := l_opened w @ [r] \<rparr>)"

definition push_async_callback :: "exit_callback \<Rightarrow> ('z, unit) life" where
  "push_async_callback cb = modify (\<lambda>w. w\<lparr> l_stack := cb # l_stack w \<rparr>)"

definition register_client :: "resource \<Rightarrow> ('z, unit) life" where
  "register_client r = modify (\<lambda>w. w\<lparr> l_clients := r # l_clients w \<rparr>)"

definition close_call :: "resource \<Rightarrow> ('z, unit) life" where
  "close_call r = (\<lambda>w.
     (case next_fault (l_close_faults w) of Fine \<Rightarrow> Inr () | Before e \<Rightarrow> Inl e | After e \<Rightarrow> Inl e,
      w\<lparr> l_closed := l_closed w @ [r], l_close_faults := tl (l_close_faults w) \<rparr>))"

text \<open>A close of the pool that takes too long terminates the pool.\<close>

definition db_close :: "('z, unit) life" where
  "db_close = try_except (close_call DB_POOL) (\<lambda>exc. if exc = Py TimeoutError then ret () else raise exc)"

text \<open>\<^verbatim>\<open>AggregationService.close\<close>: the groups' Tasks are cancelled and awaited; their exceptions are
  results of the \<^verbatim>\<open>gather\<close>. What a group has queued stays undone.\<close>

definition groups_close :: "('z, unit) life" where
  "groups_close = modify (\<lambda>w. w\<lparr> l_closed := l_closed w @ [AGGREGATION_GROUPS] \<rparr>)"

definition create_db_client :: "('z, unit) life" where
  "create_db_client = seq (pg_call (\<lambda>d. (Inr (), d))) (seq (opened DB_POOL) (register_client DB_POOL))"

definition create_stream_client :: "('z, unit) life" where
  "create_stream_client =
     seq (opened REDIS_STREAM)
    (seq (try_except stream_ping (\<lambda>exc. seq (close_call REDIS_STREAM) (raise exc)))
         (register_client REDIS_STREAM))"

definition create_state_client :: "('z, unit) life" where
  "create_state_client =
     seq (opened REDIS_STATE)
    (seq (try_except state_ping (\<lambda>exc. seq (close_call REDIS_STATE) (raise exc)))
         (register_client REDIS_STATE))"

definition create_http_client :: "('z, unit) life" where
  "create_http_client = seq (opened HTTP_CLIENT) (modify (\<lambda>w. w\<lparr> n_client := True \<rparr>))"

text \<open>\<open>vertex\<close>: whether the library's client can be constructed.\<close>

definition create_llm_adapter :: "(llm_config \<Rightarrow> unit res) \<Rightarrow> llm_config \<Rightarrow> ('z, unit) life" where
  "create_llm_adapter vertex cfg =
     seq (of_sum (vertex cfg)) (seq (opened LLM_ADAPTER) (register_client LLM_ADAPTER))"

definition open_clients :: "(llm_config \<Rightarrow> unit res) \<Rightarrow> app_config \<Rightarrow> ('z, unit) life" where
  "open_clients vertex cfg =
     seq create_db_client (seq (push_async_callback (Close DB_POOL))
    (seq create_stream_client (seq (push_async_callback (Close REDIS_STREAM))
    (seq create_state_client (seq (push_async_callback (Close REDIS_STATE))
    (seq create_http_client (seq (push_async_callback (Close HTTP_CLIENT))
    (seq (create_llm_adapter vertex (cfg_llm cfg)) (push_async_callback (Close LLM_ADAPTER))))))))))"

section \<open>The layers' Tasks\<close>

definition create_task :: "layer \<Rightarrow> bool \<Rightarrow> ('z, nat) life" where
  "create_task layer monitored =
     bind (get_w (\<lambda>w. length (l_tasks w))) (\<lambda>k.
     seq (modify (\<lambda>w. w\<lparr> l_tasks := l_tasks w @
            [\<lparr> lt_layer = layer, lt_end = None, lt_cancelling = False, lt_monitored = monitored \<rparr>] \<rparr>))
         (ret k))"

definition set_layer_task :: "layer \<Rightarrow> nat \<Rightarrow> ('z, unit) life" where
  "set_layer_task layer k = modify (\<lambda>w. w\<lparr> l_layers := al_put layer k (l_layers w) \<rparr>)"

definition make_monitored :: "layer \<Rightarrow> ('z, nat) life" where
  "make_monitored layer = create_task layer True"

text \<open>\<^verbatim>\<open>_restart\<close> and \<^verbatim>\<open>_on_done\<close>, for the Task at k.\<close>

definition restart :: "layer \<Rightarrow> ('z, unit) life" where
  "restart layer =
     bind (get_w l_shutting_down) (\<lambda>shutting_down.
     if shutting_down then ret ()
     else bind (make_monitored layer) (set_layer_task layer))"

definition call_later :: "int \<Rightarrow> layer \<Rightarrow> ('z, unit) life" where
  "call_later delay_s layer =
     modify (\<lambda>w. w\<lparr> l_timers := l_timers w @ [(layer, w_now w + delay_s * us_per_second)] \<rparr>)"

definition on_done :: "app_config \<Rightarrow> nat \<Rightarrow> ('z, unit) life" where
  "on_done cfg k =
     seq (modify (\<lambda>w. w\<lparr> l_tasks := (l_tasks w)[k := (l_tasks w ! k)\<lparr> lt_monitored := False \<rparr>] \<rparr>))
    (bind (get_w (\<lambda>w. l_tasks w ! k)) (\<lambda>task.
     bind (get_w l_shutting_down) (\<lambda>shutting_down.
     if shutting_down then ret ()
     else case lt_end task of
            Some (Failed exc) \<Rightarrow> call_later (health_layer_restart_delay_s (cfg_health cfg)) (lt_layer task)
          | _ \<Rightarrow> ret ())))"

definition register_layer_tasks :: "('z, unit) life" where
  "register_layer_tasks = modify (\<lambda>w. w\<lparr> l_registered := True \<rparr>)"

definition get_layer_tasks :: "('z, (layer \<times> nat) list) life" where
  "get_layer_tasks =
     bind (get_w l_registered) (\<lambda>b.
     if b then get_w l_layers else raise (Sapi (sapi_err ServiceUnavailableError COMMON)))"

definition start_layers :: "('z, unit) life" where
  "start_layers =
     bind (make_monitored L_ENTITY_ANALYSIS) (\<lambda>ea. seq (set_layer_task L_ENTITY_ANALYSIS ea)
    (bind (make_monitored L_AGGREGATION) (\<lambda>agg. seq (set_layer_task L_AGGREGATION agg)
    (bind (create_task L_SCORING False) (\<lambda>sc. seq (set_layer_task L_SCORING sc)
     register_layer_tasks)))))"

text \<open>\<^verbatim>\<open>_cancel_layer_tasks\<close> up to its \<^verbatim>\<open>gather\<close>, which ends when every Task of the dict has.\<close>

definition request_cancel :: "nat \<Rightarrow> ('z, unit) life" where
  "request_cancel k = modify (\<lambda>w. if lt_end (l_tasks w ! k) = None
     then w\<lparr> l_tasks := (l_tasks w)[k := (l_tasks w ! k)\<lparr> lt_cancelling := True \<rparr>] \<rparr> else w)"

definition cancel_layer_tasks :: "('z, unit) life" where
  "cancel_layer_tasks =
     seq (modify (\<lambda>w. w\<lparr> l_shutting_down := True \<rparr>))
    (bind (get_w l_layers) (\<lambda>layers.
     seq (for_each (map snd layers) request_cancel)
         (modify (\<lambda>w. w\<lparr> l_phase := Gathering \<rparr>))))"

section \<open>The exit stack\<close>

fun run_callback :: "exit_callback \<Rightarrow> ('z, unit) life" where
  "run_callback (Close DB_POOL) = db_close"
| "run_callback (Close AGGREGATION_GROUPS) = groups_close"
| "run_callback (Close r) = close_call r"
| "run_callback Cancel_layer_tasks = cancel_layer_tasks"

text \<open>One round of \<^verbatim>\<open>AsyncExitStack.__aexit__\<close>: an exception of a callback replaces the one that is
  carried on, and the next callback runs all the same.\<close>

definition exit_step :: "('z, unit) life" where
  "exit_step =
     bind (get_w l_stack) (\<lambda>stack.
     case stack of
       [] \<Rightarrow> modify (\<lambda>w. w\<lparr> l_phase := Finished \<rparr>)
     | cb # rest \<Rightarrow>
         seq (modify (\<lambda>w. w\<lparr> l_stack := rest \<rparr>))
           (try_except (run_callback cb) (\<lambda>exc. modify (\<lambda>w. w\<lparr> l_error := Some exc \<rparr>))))"

definition leave :: "exn option \<Rightarrow> ('z, unit) life" where
  "leave exc = modify (\<lambda>w. w\<lparr> l_phase := Leaving, l_error := exc \<rparr>)"

section \<open>Startup\<close>

definition load_config_io :: "environ \<Rightarrow> ('z, app_config) life" where
  "load_config_io env = (\<lambda>w. let (r, c) = load_config env (l_config w) in (r, w\<lparr> l_config := c \<rparr>))"

text \<open>A list that cannot be loaded does not abort the startup.\<close>

definition load_stock_list :: "text_lib \<Rightarrow> parse_lib \<Rightarrow> ('z, unit) life" where
  "load_stock_list L P =
     try_except (seq (refresh_hk_stock_list L P) (ret ()))
       (\<lambda>exc. if is_exception exc then ret () else raise exc)"

definition startup :: "text_lib \<Rightarrow> parse_lib \<Rightarrow> (llm_config \<Rightarrow> unit res) \<Rightarrow> environ \<Rightarrow> ('z, app_config) life" where
  "startup L P vertex env =
     bind (load_config_io env) (\<lambda>cfg.
     seq (open_clients vertex cfg)
    (seq (load_stock_list L P)
    (seq (opened AGGREGATION_GROUPS) (seq (push_async_callback (Close AGGREGATION_GROUPS))
    (seq start_layers
    (seq (push_async_callback Cancel_layer_tasks)
         (ret cfg)))))))"

text \<open>\<^verbatim>\<open>lifespan\<close> up to its \<^verbatim>\<open>yield\<close>. A startup that fails leaves through the exit stack; the last
  exception is raised.\<close>

definition lifespan_start ::
  "text_lib \<Rightarrow> parse_lib \<Rightarrow> (llm_config \<Rightarrow> unit res) \<Rightarrow> environ \<Rightarrow> ('z, app_config) life" where
  "lifespan_start L P vertex env =
     try_except (bind (startup L P vertex env) (\<lambda>cfg. seq (modify (\<lambda>w. w\<lparr> l_phase := Serving \<rparr>)) (ret cfg)))
       (\<lambda>exc. seq (leave (Some exc))
         (bind (get_w l_stack) (\<lambda>stack.
          seq (for_each stack (\<lambda>_. exit_step))
         (seq exit_step
         (bind (get_w l_error) (\<lambda>e. raise (case e of Some x \<Rightarrow> x | None \<Rightarrow> exc)))))))"

end
