(* ===== verification/Sapi_Api.thy ===== *)
theory Sapi_Api
  imports Sapi_Lifecycle Sapi_Db
begin

text \<open>
  \<^verbatim>\<open>app/api\<close> of the pipeline-intelligence service: the health check, the reload of the stock list,
  and the responses of the exception handlers. Routing and serialisation are the framework's.
\<close>

section \<open>Errors as responses\<close>

record sapi_error_response =
  rsp_error_code :: pystr
  rsp_message :: pystr
  rsp_detail :: "(pystr \<times> pystr) list"

text \<open>\<^verbatim>\<open>HTTP_STATUS\<close>.\<close>

fun HTTP_STATUS :: "sapi_class \<Rightarrow> nat option" where
  "HTTP_STATUS ServiceUnavailableError = Some 503"
| "HTTP_STATUS ParseError = Some 500"
| "HTTP_STATUS _ = None"

definition to_error_response :: "sapi_error \<Rightarrow> sapi_error_response" where
  "to_error_response exc =
     \<lparr> rsp_error_code = err_error_code exc, rsp_message = err_message exc, rsp_detail = [] \<rparr>"

definition sapi_error_handler :: "sapi_error \<Rightarrow> nat \<times> sapi_error_response" where
  "sapi_error_handler exc =
     (case first_some HTTP_STATUS (mro (err_class exc)) of Some s \<Rightarrow> s | None \<Rightarrow> 500, to_error_response exc)"

definition unhandled_error_handler :: "nat \<times> sapi_error_response" where
  "unhandled_error_handler =
     (500, \<lparr> rsp_error_code = class_attr own_error_code SAPIError,
             rsp_message = class_attr own_message SAPIError, rsp_detail = [] \<rparr>)"

fun handler_response :: "exn \<Rightarrow> nat \<times> sapi_error_response" where
  "handler_response (Sapi e) = sapi_error_handler e"
| "handler_response _ = unhandled_error_handler"

text \<open>A route with its handlers: the value it returns, or a response. A cancelled request has none.\<close>

definition respond :: "('w, exn, 'a) io \<Rightarrow> ('w, exn, (nat \<times> sapi_error_response) + 'a) io" where
  "respond route = try_except (bind route (\<lambda>x. ret (Inr x)))
     (\<lambda>exc. if is_exception exc then ret (Inl (handler_response exc)) else raise exc)"

section \<open>The stock list's reload\<close>

record hk_stock_list_sync_response =
  sync_status :: pystr
  sync_entries_loaded :: nat

definition post_hk_stock_list_sync :: "text_lib \<Rightarrow> parse_lib \<Rightarrow> ('z, hk_stock_list_sync_response) net" where
  "post_hk_stock_list_sync L P =
     bind (refresh_hk_stock_list L P) (\<lambda>n.
     ret \<lparr> sync_status = u ''success'', sync_entries_loaded = n \<rparr>)"

section \<open>The health check\<close>

datatype sapi_component_status = COMPONENT_OK | COMPONENT_ERROR
datatype hk_stock_list_status = LIST_OK | LIST_NOT_READY
datatype sapi_health_status = SAPI_HEALTHY | SAPI_DEGRADED | SAPI_UNHEALTHY

record layers_status =
  ls_entity_analysis :: sapi_component_status
  ls_aggregation :: sapi_component_status
  ls_scoring :: sapi_component_status
  ls_cache :: sapi_component_status

record health_response =
  hs_status :: sapi_health_status
  hs_database :: sapi_component_status
  hs_redis_stream :: sapi_component_status
  hs_redis_state :: sapi_component_status
  hs_hk_stock_list :: hk_stock_list_status
  hs_layers :: layers_status

text \<open>How a check's wait ends: the probe is done in time, it is not, or the request is cancelled
  while it waits. An abandoned probe is cancelled and left to its cleanup, and none of them
  writes.\<close>

datatype wait_end = In_time | Too_late | Request_cancelled

definition abandon :: "resource \<Rightarrow> ('z, unit) life" where
  "abandon c = modify (\<lambda>w. w\<lparr> l_abandoned := c # l_abandoned w \<rparr>)"

definition discard_abandoned :: "resource \<Rightarrow> ('z, unit) life" where
  "discard_abandoned c = modify (\<lambda>w. w\<lparr> l_abandoned := remove1 c (l_abandoned w) \<rparr>)"

definition check_component :: "resource \<Rightarrow> ('z, 'a) life \<Rightarrow> wait_end \<Rightarrow> ('z, sapi_component_status) life" where
  "check_component component probe ended = (case ended of
     In_time \<Rightarrow> try_except (seq probe (ret COMPONENT_OK)) (\<lambda>_. ret COMPONENT_ERROR)
   | Too_late \<Rightarrow> seq (abandon component) (ret COMPONENT_ERROR)
   | Request_cancelled \<Rightarrow> seq (abandon component) (raise Cancelled))"

definition get_client :: "resource \<Rightarrow> error_category \<Rightarrow> ('z, unit) life" where
  "get_client r category =
     bind (get_w (\<lambda>w. r \<in> set (l_clients w))) (\<lambda>b.
     if b then ret () else raise (Sapi (sapi_err ServiceUnavailableError category)))"

text \<open>\<^verbatim>\<open>gather\<close> of three: each runs; the first exception is raised.\<close>

definition settle :: "('w, exn, 'a) io \<Rightarrow> ('w, exn, exn + 'a) io" where
  "settle m = (\<lambda>w. case m w of (r, w') \<Rightarrow> (Inr r, w'))"

definition gather3 :: "('w, exn, 'a) io \<Rightarrow> ('w, exn, 'a) io \<Rightarrow> ('w, exn, 'a) io \<Rightarrow> ('w, exn, 'a \<times> 'a \<times> 'a) io" where
  "gather3 m1 m2 m3 =
     bind (settle m1) (\<lambda>r1. bind (settle m2) (\<lambda>r2. bind (settle m3) (\<lambda>r3.
     bind (of_sum r1) (\<lambda>x1. bind (of_sum r2) (\<lambda>x2. bind (of_sum r3) (\<lambda>x3. ret (x1, x2, x3)))))))"

definition layer_status :: "layer_task list \<Rightarrow> (layer \<times> nat) list \<Rightarrow> layer \<Rightarrow> sapi_component_status" where
  "layer_status tasks layers layer = (case map_of layers layer of
     None \<Rightarrow> COMPONENT_ERROR
   | Some k \<Rightarrow> if lt_end (tasks ! k) = None then COMPONENT_OK else COMPONENT_ERROR)"

definition get_layers_status :: "('z, layers_status) life" where
  "get_layers_status =
     bind get_layer_tasks (\<lambda>layers. bind (get_w l_tasks) (\<lambda>tasks.
     ret \<lparr> ls_entity_analysis = layer_status tasks layers L_ENTITY_ANALYSIS,
           ls_aggregation = layer_status tasks layers L_AGGREGATION,
           ls_scoring = layer_status tasks layers L_SCORING,
           ls_cache = layer_status tasks layers L_CACHE \<rparr>))"

definition overall_status ::
  "sapi_component_status \<Rightarrow> sapi_component_status \<Rightarrow> sapi_component_status \<Rightarrow> hk_stock_list_status
     \<Rightarrow> layers_status \<Rightarrow> sapi_health_status" where
  "overall_status database redis_stream redis_state hk_stock_list layers =
     (if COMPONENT_ERROR \<in> set [database, redis_stream, redis_state] \<or> hk_stock_list = LIST_NOT_READY
      then SAPI_UNHEALTHY
      else if COMPONENT_ERROR \<in> set [ls_entity_analysis layers, ls_aggregation layers, ls_scoring layers, ls_cache layers]
      then SAPI_DEGRADED
      else SAPI_HEALTHY)"

text \<open>With the status code of the response.\<close>

definition sapi_get_health :: "wait_end \<Rightarrow> wait_end \<Rightarrow> wait_end \<Rightarrow> ('z, nat \<times> health_response) life" where
  "sapi_get_health db_end stream_end state_end =
     bind (bind (get_w l_config) (\<lambda>c. of_sum (get_config c))) (\<lambda>_.
     seq (get_client DB_POOL DB) (seq (get_client REDIS_STREAM REDIS) (seq (get_client REDIS_STATE REDIS)
    (bind (gather3 (check_component DB_POOL (db_fetch (\<lambda>_. ())) db_end)
                   (check_component REDIS_STREAM stream_ping stream_end)
                   (check_component REDIS_STATE state_ping state_end)) (\<lambda>(database, redis_stream, redis_state).
     bind (bind (get_w n_cache) (\<lambda>c. of_sum (get_hk_stock_list_cache c))) (\<lambda>cache.
     bind get_layers_status (\<lambda>layers.
     let hk_stock_list = (if hc_entries cache \<noteq> [] then LIST_OK else LIST_NOT_READY);
         overall = overall_status database redis_stream redis_state hk_stock_list layers
     in ret (if overall = SAPI_UNHEALTHY then 503 else 200,
             \<lparr> hs_status = overall, hs_database = database, hs_redis_stream = redis_stream,
               hs_redis_state = redis_state, hs_hk_stock_list = hk_stock_list, hs_layers = layers \<rparr>))))))))"

end
