(* ===== verification/Sapi_Life_Steps.thy ===== *)
theory Sapi_Life_Steps
  imports Sapi_Api
begin

text \<open>
  The service from its \<^verbatim>\<open>yield\<close> on, as a step relation: a layer's Task ends, its callback runs, the
  timer of a restart fires, a request is answered, shutdown begins, the Tasks are gathered, a
  callback of the exit stack runs. The invariant says which Tasks there are and what is closed.
\<close>

section \<open>Steps\<close>

text \<open>What no request and no work of a layer touches.\<close>

definition same_life :: "'z life_world_scheme \<Rightarrow> 'z life_world_scheme \<Rightarrow> bool" where
  "same_life w w' \<longleftrightarrow>
     l_phase w' = l_phase w \<and> l_config w' = l_config w \<and> l_clients w' = l_clients w \<and> l_stack w' = l_stack w
     \<and> l_opened w' = l_opened w \<and> l_closed w' = l_closed w \<and> l_tasks w' = l_tasks w \<and> l_layers w' = l_layers w
     \<and> l_registered w' = l_registered w \<and> l_timers w' = l_timers w \<and> l_shutting_down w' = l_shutting_down w"

abbreviation running :: "'z life_world_scheme \<Rightarrow> nat \<Rightarrow> bool" where
  "running w k \<equiv> k < length (l_tasks w) \<and> lt_end (l_tasks w ! k) = None"

definition end_task :: "nat \<Rightarrow> task_end \<Rightarrow> 'z life_world_scheme \<Rightarrow> 'z life_world_scheme" where
  "end_task k e w = w\<lparr> l_tasks := (l_tasks w)[k := (l_tasks w ! k)\<lparr> lt_end := Some e \<rparr>] \<rparr>"

inductive life_step ::
  "text_lib \<Rightarrow> parse_lib \<Rightarrow> app_config \<Rightarrow> 'z life_world_scheme \<Rightarrow> 'z life_world_scheme \<Rightarrow> bool"
  for L :: text_lib and P :: parse_lib and cfg :: app_config where
  layer_works: "running w k \<Longrightarrow> same_life w w' \<Longrightarrow> n_cache w' = n_cache w \<Longrightarrow> w_now w \<le> w_now w' \<Longrightarrow>
    life_step L P cfg w w'"
| groups_work: "AGGREGATION_GROUPS \<in> set (l_opened w) \<Longrightarrow> AGGREGATION_GROUPS \<notin> set (l_closed w) \<Longrightarrow>
    same_life w w' \<Longrightarrow> n_cache w' = n_cache w \<Longrightarrow> w_now w \<le> w_now w' \<Longrightarrow> life_step L P cfg w w'"
| task_ends: "running w k \<Longrightarrow> life_step L P cfg w (end_task k e w)"
| done_callback: "k < length (l_tasks w) \<Longrightarrow> lt_end (l_tasks w ! k) \<noteq> None \<Longrightarrow> lt_monitored (l_tasks w ! k) \<Longrightarrow>
    on_done cfg k w = (Inr (), w') \<Longrightarrow> life_step L P cfg w w'"
| timer_fires: "i < length (l_timers w) \<Longrightarrow> l_timers w ! i = (layer, t) \<Longrightarrow> t \<le> w_now w \<Longrightarrow>
    restart layer (w\<lparr> l_timers := take i (l_timers w) @ drop (Suc i) (l_timers w) \<rparr>) = (Inr (), w') \<Longrightarrow>
    life_step L P cfg w w'"
| time_passes: "w_now w \<le> t \<Longrightarrow> life_step L P cfg w (w\<lparr> w_now := t \<rparr>)"
| health: "sapi_get_health a b c w = (r, w') \<Longrightarrow> life_step L P cfg w w'"
| cleanup_ends: "discard_abandoned c w = (Inr (), w') \<Longrightarrow> life_step L P cfg w w'"
| list_sync: "post_hk_stock_list_sync L P w = (r, w') \<Longrightarrow> life_step L P cfg w w'"
| shutdown: "l_phase w = Serving \<Longrightarrow> leave exc w = (Inr (), w') \<Longrightarrow> life_step L P cfg w w'"
| gathered: "l_phase w = Gathering \<Longrightarrow> \<forall>k \<in> snd ` set (l_layers w). lt_end (l_tasks w ! k) \<noteq> None \<Longrightarrow>
    e = l_error w \<or> e = Some Cancelled \<Longrightarrow> life_step L P cfg w (w\<lparr> l_phase := Leaving, l_error := e \<rparr>)"
| exits: "l_phase w = Leaving \<Longrightarrow> exit_step w = (Inr (), w') \<Longrightarrow> life_step L P cfg w w'"

section \<open>Requests leave the lifecycle alone\<close>

interpretation life: monotone_io "same_life :: 'z life_world_scheme \<Rightarrow> 'z life_world_scheme \<Rightarrow> bool"
  by unfold_locales (auto simp: same_life_def)

lemma calls_same_life:
  "always same_life (pg_call stmt)" "always same_life (rs_call act)" "always same_life (rt_call act')"
  by (rule alwaysI, auto dest!: pg_call_world rs_call_world rt_call_world simp: same_life_def)+

lemma probes_same_life:
  "always same_life (db_fetch q)" "always same_life stream_ping" "always same_life state_ping"
  unfolding db_fetch_def translated_errors_def stream_ping_def state_ping_def
  by (intro life.always_intros calls_same_life)+

lemma check_same_life: "always same_life probe \<Longrightarrow> always same_life (check_component c probe e)"
  unfolding check_component_def abandon_def
  by (cases e) (auto intro!: life.always_intros always_modify simp: same_life_def)

lemma settle_same_life: "always same_life m \<Longrightarrow> always same_life (settle m)"
  by (rule alwaysI) (auto simp: settle_def dest: alwaysD split: prod.splits)

lemma health_same_life: "always same_life (sapi_get_health a b c)"
  unfolding sapi_get_health_def get_client_def gather3_def get_layers_status_def get_layer_tasks_def
  by (auto intro!: life.always_intros settle_same_life check_same_life probes_same_life simp: Let_def
      split: prod.splits)

lemma http_get_same_life: "always same_life (http_get url)"
  by (rule alwaysI) (auto simp: http_get_def same_life_def)

lemma sleep_same_life: "always same_life (sleep_ms ms)"
  unfolding sleep_ms_def by (rule always_modify) (simp add: same_life_def)

lemma get_retrying_same_life: "always same_life (get_retrying waits url)"
  by (induction waits url rule: get_retrying.induct)
    (auto intro!: life.always_intros http_get_same_life sleep_same_life)

lemma refresh_same_life: "always same_life (refresh_hk_stock_list L P)"
  unfolding refresh_hk_stock_list_def refresh_attempt_def get_http_client_def fetch_and_filter_hk_stock_list_def
    download_files_def get_ok_def raise_for_status_def parse_files_def load_cache_def
  by (auto intro!: life.always_intros get_retrying_same_life always_modify simp: same_life_def split: prod.splits)

lemma sync_same_life: "always same_life (post_hk_stock_list_sync L P)"
  unfolding post_hk_stock_list_sync_def by (intro life.always_intros refresh_same_life)

section \<open>The invariant\<close>

definition live :: "layer_task \<Rightarrow> bool" where
  "live t \<longleftrightarrow> lt_end t = None \<or> lt_monitored t"

text \<open>Every Task that runs or has a callback to come is its layer's entry in the dict; a layer with a
  timer has neither; and a monitored layer that crashed has a callback or a timer to come.\<close>

definition tasks_inv ::
  "(layer \<times> nat) list \<Rightarrow> layer_task list \<Rightarrow> (layer \<times> instant) list \<Rightarrow> bool \<Rightarrow> bool" where
  "tasks_inv layers tasks timers shutting_down \<longleftrightarrow>
     map fst layers = [L_ENTITY_ANALYSIS, L_AGGREGATION, L_SCORING]
     \<and> (\<forall>l k. map_of layers l = Some k \<longrightarrow> k < length tasks \<and> lt_layer (tasks ! k) = l)
     \<and> (\<forall>k < length tasks. live (tasks ! k) \<longrightarrow> map_of layers (lt_layer (tasks ! k)) = Some k)
     \<and> (\<forall>k < length tasks. lt_monitored (tasks ! k) \<longrightarrow> lt_layer (tasks ! k) \<noteq> L_SCORING)
     \<and> (\<forall>k < length tasks. lt_end (tasks ! k) = None \<longrightarrow> lt_layer (tasks ! k) \<noteq> L_SCORING \<longrightarrow> lt_monitored (tasks ! k))
     \<and> distinct (map fst timers)
     \<and> (\<forall>l \<in> fst ` set timers. l \<in> {L_ENTITY_ANALYSIS, L_AGGREGATION}
          \<and> (\<forall>k. map_of layers l = Some k \<longrightarrow> \<not> live (tasks ! k)))
     \<and> (\<not> shutting_down \<longrightarrow> (\<forall>l k e. map_of layers l = Some k \<longrightarrow> l \<noteq> L_SCORING \<longrightarrow>
          lt_end (tasks ! k) = Some (Failed e) \<longrightarrow> lt_monitored (tasks ! k) \<or> l \<in> fst ` set timers))"

abbreviation tasks_ok :: "'z life_world_scheme \<Rightarrow> bool" where
  "tasks_ok w \<equiv> tasks_inv (l_layers w) (l_tasks w) (l_timers w) (l_shutting_down w)"

lemma tasks_invD:
  assumes "tasks_inv ls ts tm sd"
  shows "map fst ls = [L_ENTITY_ANALYSIS, L_AGGREGATION, L_SCORING]"
    and "\<And>l k. map_of ls l = Some k \<Longrightarrow> k < length ts"
    and "\<And>l k. map_of ls l = Some k \<Longrightarrow> lt_layer (ts ! k) = l"
    and "\<And>k. k < length ts \<Longrightarrow> live (ts ! k) \<Longrightarrow> map_of ls (lt_layer (ts ! k)) = Some k"
    and "\<And>k. k < length ts \<Longrightarrow> lt_monitored (ts ! k) \<Longrightarrow> lt_layer (ts ! k) \<noteq> L_SCORING"
    and "\<And>k. k < length ts \<Longrightarrow> lt_end (ts ! k) = None \<Longrightarrow> lt_layer (ts ! k) \<noteq> L_SCORING \<Longrightarrow> lt_monitored (ts ! k)"
    and "distinct (map fst tm)"
    and "\<And>l. l \<in> fst ` set tm \<Longrightarrow> l \<in> {L_ENTITY_ANALYSIS, L_AGGREGATION}"
    and "\<And>l k. l \<in> fst ` set tm \<Longrightarrow> map_of ls l = Some k \<Longrightarrow> \<not> live (ts ! k)"
    and "\<And>l k e. \<not> sd \<Longrightarrow> map_of ls l = Some k \<Longrightarrow> l \<noteq> L_SCORING \<Longrightarrow> lt_end (ts ! k) = Some (Failed e) \<Longrightarrow>
      lt_monitored (ts ! k) \<or> l \<in> fst ` set tm"
  using assms unfolding tasks_inv_def by blast+

lemma tasks_invI:
  assumes "map fst ls = [L_ENTITY_ANALYSIS, L_AGGREGATION, L_SCORING]"
    and "\<And>l k. map_of ls l = Some k \<Longrightarrow> k < length ts \<and> lt_layer (ts ! k) = l"
    and "\<And>k. k < length ts \<Longrightarrow> live (ts ! k) \<Longrightarrow> map_of ls (lt_layer (ts ! k)) = Some k"
    and "\<And>k. k < length ts \<Longrightarrow> lt_monitored (ts ! k) \<Longrightarrow> lt_layer (ts ! k) \<noteq> L_SCORING"
    and "\<And>k. k < length ts \<Longrightarrow> lt_end (ts ! k) = None \<Longrightarrow> lt_layer (ts ! k) \<noteq> L_SCORING \<Longrightarrow> lt_monitored (ts ! k)"
    and "distinct (map fst tm)"
    and "\<And>l. l \<in> fst ` set tm \<Longrightarrow> l \<in> {L_ENTITY_ANALYSIS, L_AGGREGATION}"
    and "\<And>l k. l \<in> fst ` set tm \<Longrightarrow> map_of ls l = Some k \<Longrightarrow> \<not> live (ts ! k)"
    and "\<And>l k e. \<not> sd \<Longrightarrow> map_of ls l = Some k \<Longrightarrow> l \<noteq> L_SCORING \<Longrightarrow> lt_end (ts ! k) = Some (Failed e) \<Longrightarrow>
      lt_monitored (ts ! k) \<or> l \<in> fst ` set tm"
  shows "tasks_inv ls ts tm sd"
proof -
  have "\<forall>l k. map_of ls l = Some k \<longrightarrow> k < length ts \<and> lt_layer (ts ! k) = l" using assms(2) by blast
  moreover have "\<forall>k < length ts. live (ts ! k) \<longrightarrow> map_of ls (lt_layer (ts ! k)) = Some k" using assms(3) by blast
  moreover have "\<forall>k < length ts. lt_monitored (ts ! k) \<longrightarrow> lt_layer (ts ! k) \<noteq> L_SCORING" using assms(4) by blast
  moreover have "\<forall>k < length ts. lt_end (ts ! k) = None \<longrightarrow> lt_layer (ts ! k) \<noteq> L_SCORING \<longrightarrow> lt_monitored (ts ! k)"
    using assms(5) by blast
  moreover have "\<forall>l \<in> fst ` set tm. l \<in> {L_ENTITY_ANALYSIS, L_AGGREGATION} \<and> (\<forall>k. map_of ls l = Some k \<longrightarrow> \<not> live (ts ! k))"
    using assms(7,8) by blast
  moreover have "\<not> sd \<longrightarrow> (\<forall>l k e. map_of ls l = Some k \<longrightarrow> l \<noteq> L_SCORING \<longrightarrow>
      lt_end (ts ! k) = Some (Failed e) \<longrightarrow> lt_monitored (ts ! k) \<or> l \<in> fst ` set tm)" using assms(9) by blast
  ultimately show ?thesis unfolding tasks_inv_def using assms(1,6) by (intro conjI)
qed

lemma tasks_inv_change:
  assumes inv: "tasks_inv ls ts tm sd" and len: "length ts' = length ts"
    and f: "\<And>j. j < length ts \<Longrightarrow> lt_layer (ts' ! j) = lt_layer (ts ! j)"
      "\<And>j. j < length ts \<Longrightarrow> live (ts' ! j) \<Longrightarrow> live (ts ! j)"
      "\<And>j. j < length ts \<Longrightarrow> lt_monitored (ts' ! j) \<Longrightarrow> lt_monitored (ts ! j)"
      "\<And>j. j < length ts \<Longrightarrow> lt_end (ts' ! j) = None \<Longrightarrow> lt_end (ts ! j) = None \<and> lt_monitored (ts' ! j) = lt_monitored (ts ! j)"
    and t: "distinct (map fst tm')" "\<And>l. l \<in> fst ` set tm' \<Longrightarrow> l \<in> fst ` set tm \<or>
      l \<in> {L_ENTITY_ANALYSIS, L_AGGREGATION} \<and> (\<forall>k. map_of ls l = Some k \<longrightarrow> \<not> live (ts' ! k))"
    and c: "\<And>l k e. \<not> sd' \<Longrightarrow> map_of ls l = Some k \<Longrightarrow> l \<noteq> L_SCORING \<Longrightarrow> lt_end (ts' ! k) = Some (Failed e) \<Longrightarrow>
      lt_monitored (ts' ! k) \<or> l \<in> fst ` set tm'"
  shows "tasks_inv ls ts' tm' sd'"
proof -
  note d = tasks_invD [OF inv]
  have 1: "k < length ts' \<and> lt_layer (ts' ! k) = l" if "map_of ls l = Some k" for l k
    using d(2,3) [OF that] f(1) len by simp
  have 2: "map_of ls (lt_layer (ts' ! k)) = Some k" if "k < length ts'" "live (ts' ! k)" for k
    using that d(4) f(1,2) len by simp
  have 3: "lt_layer (ts' ! k) \<noteq> L_SCORING" if "k < length ts'" "lt_monitored (ts' ! k)" for k
    using that d(5) f(1,3) len by simp
  have 4: "lt_monitored (ts' ! k)" if "k < length ts'" "lt_end (ts' ! k) = None" "lt_layer (ts' ! k) \<noteq> L_SCORING" for k
    using that d(6) f(1,4) len by simp
  have 5: "l \<in> {L_ENTITY_ANALYSIS, L_AGGREGATION}" "map_of ls l = Some k \<Longrightarrow> \<not> live (ts' ! k)" if "l \<in> fst ` set tm'" for l k
    using t(2) [OF that] d(2,8,9) f(2) by blast+
  show ?thesis by (rule tasks_invI [OF d(1) 1 2 3 4 t(1) 5 c])
qed

lemma tasks_inv_end:
  assumes "tasks_inv ls ts tm sd" and "k < length ts" and "lt_end (ts ! k) = None"
  shows "tasks_inv ls (ts[k := (ts ! k)\<lparr> lt_end := Some e \<rparr>]) tm sd"
proof (rule tasks_inv_change [OF assms(1)])
  fix l j x
  assume j: "\<not> sd" "map_of ls l = Some j" "l \<noteq> L_SCORING" "lt_end (ts[k := (ts ! k)\<lparr> lt_end := Some e \<rparr>] ! j) = Some (Failed x)"
  show "lt_monitored (ts[k := (ts ! k)\<lparr> lt_end := Some e \<rparr>] ! j) \<or> l \<in> fst ` set tm"
  proof (cases "j = k")
    case True
    with j assms tasks_invD(3,6) [OF assms(1)] show ?thesis by auto
  next
    case False
    with j tasks_invD(10) [OF assms(1)] show ?thesis by auto
  qed
qed (use assms tasks_invD(7) [OF assms(1)] in \<open>auto simp: nth_list_update live_def split: if_splits\<close>)

lemma tasks_inv_called:
  assumes "tasks_inv ls ts tm sd" and "k < length ts" and "lt_end (ts ! k) \<noteq> None" and "lt_monitored (ts ! k)"
    and "sd \<or> (\<forall>e. lt_end (ts ! k) \<noteq> Some (Failed e))"
  shows "tasks_inv ls (ts[k := (ts ! k)\<lparr> lt_monitored := False \<rparr>]) tm sd"
proof (rule tasks_inv_change [OF assms(1)])
  fix l j x
  assume j: "\<not> sd" "map_of ls l = Some j" "l \<noteq> L_SCORING" "lt_end (ts[k := (ts ! k)\<lparr> lt_monitored := False \<rparr>] ! j) = Some (Failed x)"
  show "lt_monitored (ts[k := (ts ! k)\<lparr> lt_monitored := False \<rparr>] ! j) \<or> l \<in> fst ` set tm"
  proof (cases "j = k")
    case True
    with j assms show ?thesis by auto
  next
    case False
    with j tasks_invD(10) [OF assms(1)] show ?thesis by auto
  qed
qed (use assms tasks_invD(7) [OF assms(1)] in \<open>auto simp: nth_list_update live_def split: if_splits\<close>)

lemma tasks_inv_crashed:
  assumes "tasks_inv ls ts tm sd" and "k < length ts" and "lt_end (ts ! k) = Some (Failed e)" and "lt_monitored (ts ! k)"
  shows "tasks_inv ls (ts[k := (ts ! k)\<lparr> lt_monitored := False \<rparr>]) (tm @ [(lt_layer (ts ! k), t)]) sd"
proof -
  note d = tasks_invD [OF assms(1)]
  have m: "map_of ls (lt_layer (ts ! k)) = Some k" using d(4) assms(2,4) by (simp add: live_def)
  have n: "lt_layer (ts ! k) \<noteq> L_SCORING" using d(5) assms(2,4) by simp
  have "lt_layer (ts ! k) \<in> set (map fst ls)" using map_of_SomeD [OF m] by force
  with n d(1) have ea: "lt_layer (ts ! k) \<in> {L_ENTITY_ANALYSIS, L_AGGREGATION}" by simp
  have new: "lt_layer (ts ! k) \<notin> fst ` set tm"
    using d(9) [OF _ m] assms(4) by (auto simp: live_def)
  show ?thesis
  proof (rule tasks_inv_change [OF assms(1)])
    fix l j x
    assume j: "\<not> sd" "map_of ls l = Some j" "l \<noteq> L_SCORING" "lt_end (ts[k := (ts ! k)\<lparr> lt_monitored := False \<rparr>] ! j) = Some (Failed x)"
    show "lt_monitored (ts[k := (ts ! k)\<lparr> lt_monitored := False \<rparr>] ! j) \<or> l \<in> fst ` set (tm @ [(lt_layer (ts ! k), t)])"
    proof (cases "j = k")
      case True
      with d(3) j(2) show ?thesis by auto
    next
      case False
      with j d(10) show ?thesis by auto
    qed
  next
    show "distinct (map fst (tm @ [(lt_layer (ts ! k), t)]))" using d(7) new by simp
  next
    fix l
    assume "l \<in> fst ` set (tm @ [(lt_layer (ts ! k), t)])"
    with ea m assms(2,3) show "l \<in> fst ` set tm \<or> l \<in> {L_ENTITY_ANALYSIS, L_AGGREGATION}
        \<and> (\<forall>j. map_of ls l = Some j \<longrightarrow> \<not> live (ts[k := (ts ! k)\<lparr> lt_monitored := False \<rparr>] ! j))"
      by (auto simp: live_def)
  qed (use assms in \<open>auto simp: nth_list_update live_def split: if_splits\<close>)
qed

lemma map_fst_al_put: "k \<in> fst ` set xs \<Longrightarrow> map fst (al_put k v xs) = map fst xs"
  by (induction xs) force+

lemma distinct_without:
  assumes "distinct xs" and "i < length xs"
  shows "distinct (take i xs @ drop (Suc i) xs)" and "xs ! i \<notin> set (take i xs @ drop (Suc i) xs)"
proof -
  have "distinct (take i xs @ xs ! i # drop (Suc i) xs)" using assms by (simp flip: id_take_nth_drop)
  then show "distinct (take i xs @ drop (Suc i) xs)" and "xs ! i \<notin> set (take i xs @ drop (Suc i) xs)" by auto
qed

lemma map_without: "map f (take i xs @ drop (Suc i) xs) = take i (map f xs) @ drop (Suc i) (map f xs)"
  by (simp add: take_map drop_map)

lemma set_without: "x \<in> set (take i xs @ drop (Suc i) xs) \<Longrightarrow> x \<in> set xs"
  by (auto dest: in_set_takeD in_set_dropD)

lemma tasks_inv_restart:
  assumes "tasks_inv ls ts tm sd" and i: "i < length tm" and l: "fst (tm ! i) = l"
  shows "tasks_inv (al_put l (length ts) ls)
    (ts @ [\<lparr> lt_layer = l, lt_end = None, lt_cancelling = False, lt_monitored = True \<rparr>])
    (take i tm @ drop (Suc i) tm) sd"
    (is "tasks_inv ?ls (ts @ [?t]) ?tm sd")
proof -
  note d = tasks_invD [OF assms(1)]
  have li: "l \<in> fst ` set tm" using i l nth_mem by force
  have ea: "l \<in> {L_ENTITY_ANALYSIS, L_AGGREGATION}" by (rule d(8) [OF li])
  have "l \<in> set (map fst ls)" using ea d(1) by auto
  then have keys: "map fst ?ls = map fst ls" by (simp add: map_fst_al_put)
  have dist: "distinct (map fst ?tm)" and out: "l \<notin> set (map fst ?tm)"
    using distinct_without(1) [OF d(7), of i] distinct_without(2) [OF d(7), of i] i l
    by (simp_all add: take_map drop_map)
  have sub: "x \<in> fst ` set tm" if "x \<in> fst ` set ?tm" for x using that set_without by fastforce
  have at_l: "\<not> live (ts ! k)" if "k < length ts" "lt_layer (ts ! k) = l" for k
    using d(4) [OF that(1)] d(9) [OF li] that(2) by blast
  have 1: "k < length (ts @ [?t]) \<and> lt_layer ((ts @ [?t]) ! k) = x" if "map_of ?ls x = Some k" for x k
    using that d(2,3) by (cases "x = l") (auto simp: nth_append split: if_splits dest: d(2))
  have 2: "map_of ?ls (lt_layer ((ts @ [?t]) ! k)) = Some k" if "k < length (ts @ [?t])" "live ((ts @ [?t]) ! k)" for k
    using that d(4) at_l by (cases "k < length ts") (auto simp: nth_append)
  have 3: "lt_layer ((ts @ [?t]) ! k) \<noteq> L_SCORING" if "k < length (ts @ [?t])" "lt_monitored ((ts @ [?t]) ! k)" for k
    using that d(5) ea by (cases "k < length ts") (auto simp: nth_append)
  have 4: "lt_monitored ((ts @ [?t]) ! k)" if "k < length (ts @ [?t])" "lt_end ((ts @ [?t]) ! k) = None"
    "lt_layer ((ts @ [?t]) ! k) \<noteq> L_SCORING" for k
    using that d(6) by (cases "k < length ts") (auto simp: nth_append)
  have 5: "x \<in> {L_ENTITY_ANALYSIS, L_AGGREGATION}" if "x \<in> fst ` set ?tm" for x
    using d(8) sub that by blast
  have 6: "\<not> live ((ts @ [?t]) ! k)" if "x \<in> fst ` set ?tm" "map_of ?ls x = Some k" for x k
  proof -
    from that(1) out have x: "x \<noteq> l" by auto
    with that(2) have m: "map_of ls x = Some k" by simp
    show ?thesis using d(9) [OF sub [OF that(1)] m] d(2) [OF m] by (simp add: nth_append)
  qed
  have 7: "lt_monitored ((ts @ [?t]) ! k) \<or> x \<in> fst ` set ?tm"
    if "\<not> sd" "map_of ?ls x = Some k" "x \<noteq> L_SCORING" "lt_end ((ts @ [?t]) ! k) = Some (Failed e)" for x k e
  proof (cases "x = l")
    case True
    with that(2,4) show ?thesis by (auto simp: nth_append)
  next
    case False
    with that(2) have m: "map_of ls x = Some k" by simp
    from that(4) d(2) [OF m] have "lt_end (ts ! k) = Some (Failed e)" by (simp add: nth_append)
    from d(10) [OF that(1) m that(3) this] have "lt_monitored (ts ! k) \<or> x \<in> fst ` set tm" .
    moreover have "x \<in> fst ` set ?tm" if "x \<in> fst ` set tm"
    proof -
      have "set tm = set (take i tm @ tm ! i # drop (Suc i) tm)" using i by (simp flip: id_take_nth_drop)
      with that False l show ?thesis by auto
    qed
    ultimately show ?thesis using d(2) [OF m] by (auto simp: nth_append)
  qed
  have k: "map fst ?ls = [L_ENTITY_ANALYSIS, L_AGGREGATION, L_SCORING]" using keys d(1) by simp
  show ?thesis by (rule tasks_invI [OF k 1 2 3 4 dist 5 6 7])
qed

lemma tasks_inv_dropped:
  assumes "tasks_inv ls ts tm True"
  shows "tasks_inv ls ts (take i tm @ drop (Suc i) tm) True"
proof (rule tasks_inv_change [OF assms])
  show "distinct (map fst (take i tm @ drop (Suc i) tm))"
    by (cases "i < length tm") (use tasks_invD(7) [OF assms] distinct_without(1) [of "map fst tm" i] in
        \<open>simp_all add: take_map drop_map\<close>)
qed (auto dest: in_set_takeD in_set_dropD)

lemma tasks_inv_cancelling:
  assumes "tasks_inv ls ts tm sd" and "length ts' = length ts"
    and "\<And>k. k < length ts \<Longrightarrow> lt_layer (ts' ! k) = lt_layer (ts ! k) \<and> lt_end (ts' ! k) = lt_end (ts ! k)
      \<and> lt_monitored (ts' ! k) = lt_monitored (ts ! k)"
  shows "tasks_inv ls ts' tm True"
  by (rule tasks_inv_change [OF assms(1,2)]) (use assms(3) tasks_invD(7) [OF assms(1)] in \<open>auto simp: live_def\<close>)

definition all_resources :: "resource list" where
  "all_resources = [DB_POOL, REDIS_STREAM, REDIS_STATE, HTTP_CLIENT, LLM_ADAPTER, AGGREGATION_GROUPS]"

definition stack_ok :: "'z life_world_scheme \<Rightarrow> bool" where
  "stack_ok w \<longleftrightarrow>
     l_registered w \<and> l_opened w = all_resources \<and> l_config w \<noteq> None
     \<and> {DB_POOL, REDIS_STREAM, REDIS_STATE} \<subseteq> set (l_clients w)
     \<and> (if l_shutting_down w
        then map Close (l_closed w) @ l_stack w = map Close (rev all_resources)
          \<and> l_phase w \<in> {Gathering, Leaving, Finished}
          \<and> (l_phase w = Gathering \<longrightarrow> l_closed w = [] \<and> (\<forall>k. running w k \<longrightarrow> lt_cancelling (l_tasks w ! k)))
          \<and> (l_phase w \<noteq> Gathering \<longrightarrow> (\<forall>k. \<not> running w k))
          \<and> (l_phase w = Finished \<longrightarrow> l_stack w = [])
        else l_closed w = [] \<and> l_stack w = Cancel_layer_tasks # map Close (rev all_resources)
          \<and> l_phase w \<in> {Serving, Leaving})"

definition life_ok :: "'z life_world_scheme \<Rightarrow> bool" where
  "life_ok w \<longleftrightarrow> tasks_ok w \<and> stack_ok w"

lemma same_life_ok:
  assumes "same_life w w'"
  shows "life_ok w' = life_ok w"
  by (simp only: life_ok_def stack_ok_def assms [unfolded same_life_def])

section \<open>The invariant holds from the startup on\<close>

lemma end_task_ok:
  assumes "life_ok w" and "running w k"
  shows "life_ok (end_task k e w)"
  using assms tasks_inv_end [of "l_layers w" "l_tasks w" "l_timers w" "l_shutting_down w" k e]
  unfolding life_ok_def stack_ok_def by (auto simp: end_task_def nth_list_update split: if_splits)

lemma stack_ok_tasks:
  assumes "stack_ok w" and "length ts' = length (l_tasks w)"
    and "\<forall>j < length (l_tasks w). lt_end (ts' ! j) = lt_end (l_tasks w ! j)"
    and "\<forall>j < length (l_tasks w). lt_cancelling (l_tasks w ! j) \<longrightarrow> lt_cancelling (ts' ! j)"
  shows "stack_ok (w\<lparr> l_tasks := ts', l_timers := tm \<rparr>)"
  using assms unfolding stack_ok_def by (auto split: if_splits)

lemma on_done_ok:
  assumes ok: "life_ok w" and k: "k < length (l_tasks w)" "lt_end (l_tasks w ! k) \<noteq> None" "lt_monitored (l_tasks w ! k)"
    and r: "on_done cfg k w = (Inr (), w')"
  shows "life_ok w'"
proof -
  let ?ts = "(l_tasks w)[k := (l_tasks w ! k)\<lparr> lt_monitored := False \<rparr>]"
  have t: "tasks_ok w" and s: "stack_ok w" using ok by (simp_all add: life_ok_def)
  have st: "stack_ok (w\<lparr> l_tasks := ?ts, l_timers := tm \<rparr>)" for tm
    by (rule stack_ok_tasks [OF s]) (use k(1) in \<open>auto simp: nth_list_update\<close>)
  show ?thesis
  proof (cases "l_shutting_down w \<or> (\<forall>e. lt_end (l_tasks w ! k) \<noteq> Some (Failed e))")
    case True
    have "on_done cfg k w = (Inr (), w\<lparr> l_tasks := ?ts \<rparr>)"
    proof (cases "lt_end (l_tasks w ! k)")
      case (Some x)
      with True k(1) show ?thesis by (cases x) (simp_all add: on_done_def ret_def)
    qed (use k(2) in simp)
    moreover have "w\<lparr> l_tasks := ?ts \<rparr> = w\<lparr> l_tasks := ?ts, l_timers := l_timers w \<rparr>" by simp
    ultimately have w': "w' = w\<lparr> l_tasks := ?ts, l_timers := l_timers w \<rparr>" using r by (simp only: prod.inject)
    show ?thesis unfolding life_ok_def w' using st [of "l_timers w"] tasks_inv_called [OF t k True] by simp
  next
    case False
    then obtain e where e: "lt_end (l_tasks w ! k) = Some (Failed e)" and "\<not> l_shutting_down w" by blast
    define x where "x = w_now w + health_layer_restart_delay_s (cfg_health cfg) * us_per_second"
    have "on_done cfg k w = (Inr (), w\<lparr> l_tasks := ?ts, l_timers := l_timers w @ [(lt_layer (l_tasks w ! k), x)] \<rparr>)"
      using e k(1) \<open>\<not> l_shutting_down w\<close> by (simp add: on_done_def call_later_def x_def)
    with r have w': "w' = w\<lparr> l_tasks := ?ts, l_timers := l_timers w @ [(lt_layer (l_tasks w ! k), x)] \<rparr>" by simp
    show ?thesis unfolding life_ok_def w' using st tasks_inv_crashed [OF t k(1) e k(3), of x] by simp
  qed
qed

lemma restart_ok:
  assumes ok: "life_ok w" and i: "i < length (l_timers w)" "l_timers w ! i = (l, t)"
    and r: "restart l (w\<lparr> l_timers := take i (l_timers w) @ drop (Suc i) (l_timers w) \<rparr>) = (Inr (), w')"
  shows "life_ok w'"
proof -
  have t: "tasks_ok w" and s: "stack_ok w" using ok by (simp_all add: life_ok_def)
  show ?thesis
  proof (cases "l_shutting_down w")
    case True
    with r have w': "w' = w\<lparr> l_timers := take i (l_timers w) @ drop (Suc i) (l_timers w) \<rparr>"
      by (simp add: restart_def)
    from tasks_inv_dropped [of _ _ "l_timers w"] t s True show ?thesis
      unfolding w' life_ok_def stack_ok_def by simp
  next
    case False
    with r have w': "w' = w\<lparr> l_timers := take i (l_timers w) @ drop (Suc i) (l_timers w),
        l_tasks := l_tasks w @ [\<lparr> lt_layer = l, lt_end = None, lt_cancelling = False, lt_monitored = True \<rparr>],
        l_layers := al_put l (length (l_tasks w)) (l_layers w) \<rparr>"
      by (simp add: restart_def make_monitored_def create_task_def set_layer_task_def bind_assoc)
    from tasks_inv_restart [OF t i(1)] i(2) s False show ?thesis
      unfolding w' life_ok_def stack_ok_def by simp
  qed
qed

lemma request_cancel_eq:
  "for_each ks request_cancel w = (r, w') \<Longrightarrow> \<forall>k \<in> set ks. k < length (l_tasks w) \<Longrightarrow>
     r = Inr () \<and> (\<exists>ts. w' = w\<lparr> l_tasks := ts \<rparr> \<and> length ts = length (l_tasks w)
       \<and> (\<forall>j < length ts. lt_layer (ts ! j) = lt_layer (l_tasks w ! j) \<and> lt_end (ts ! j) = lt_end (l_tasks w ! j)
            \<and> lt_monitored (ts ! j) = lt_monitored (l_tasks w ! j)
            \<and> (lt_cancelling (l_tasks w ! j) \<or> j \<in> set ks \<and> lt_end (ts ! j) = None \<longrightarrow> lt_cancelling (ts ! j))))"
proof (induction ks arbitrary: w)
  case Nil
  then show ?case by (intro conjI exI [of _ "l_tasks w"]) auto
next
  case (Cons k ks)
  define w1 where "w1 = (if lt_end (l_tasks w ! k) = None
    then w\<lparr> l_tasks := (l_tasks w)[k := (l_tasks w ! k)\<lparr> lt_cancelling := True \<rparr>] \<rparr> else w)"
  have run: "for_each ks request_cancel w1 = (r, w')"
    using Cons.prems(1) unfolding for_each.simps request_cancel_def [of k] run_modify w1_def .
  have len: "length (l_tasks w1) = length (l_tasks w)" by (simp add: w1_def)
  have f: "lt_layer (l_tasks w1 ! j) = lt_layer (l_tasks w ! j) \<and> lt_end (l_tasks w1 ! j) = lt_end (l_tasks w ! j)
      \<and> lt_monitored (l_tasks w1 ! j) = lt_monitored (l_tasks w ! j)
      \<and> (lt_cancelling (l_tasks w ! j) \<or> j = k \<and> lt_end (l_tasks w ! j) = None \<longrightarrow> lt_cancelling (l_tasks w1 ! j))"
    if "j < length (l_tasks w)" for j
    using that by (cases "j = k") (auto simp: w1_def)
  have rest: "w1\<lparr> l_tasks := ts \<rparr> = w\<lparr> l_tasks := ts \<rparr>" for ts by (simp add: w1_def)
  from Cons.IH [OF run] Cons.prems(2) len obtain ts where ts: "r = Inr ()" "w' = w\<lparr> l_tasks := ts \<rparr>"
    "length ts = length (l_tasks w)"
    "\<forall>j < length ts. lt_layer (ts ! j) = lt_layer (l_tasks w1 ! j) \<and> lt_end (ts ! j) = lt_end (l_tasks w1 ! j)
       \<and> lt_monitored (ts ! j) = lt_monitored (l_tasks w1 ! j)
       \<and> (lt_cancelling (l_tasks w1 ! j) \<or> j \<in> set ks \<and> lt_end (ts ! j) = None \<longrightarrow> lt_cancelling (ts ! j))"
    by (auto simp: rest)
  show ?case
  proof (intro conjI exI [of _ ts])
    show "\<forall>j < length ts. lt_layer (ts ! j) = lt_layer (l_tasks w ! j) \<and> lt_end (ts ! j) = lt_end (l_tasks w ! j)
       \<and> lt_monitored (ts ! j) = lt_monitored (l_tasks w ! j)
       \<and> (lt_cancelling (l_tasks w ! j) \<or> j \<in> set (k # ks) \<and> lt_end (ts ! j) = None \<longrightarrow> lt_cancelling (ts ! j))"
      using ts(3,4) f by auto
  qed (use ts in simp_all)
qed

lemma cancel_layer_tasks_ok:
  assumes t: "tasks_ok w" and r: "cancel_layer_tasks w = (r, w')"
  shows "r = Inr () \<and> tasks_inv (l_layers w') (l_tasks w') (l_timers w') True \<and> l_shutting_down w' \<and> l_phase w' = Gathering
    \<and> (\<forall>k. running w' k \<longrightarrow> lt_cancelling (l_tasks w' ! k))
    \<and> l_stack w' = l_stack w \<and> l_closed w' = l_closed w \<and> l_opened w' = l_opened w \<and> l_registered w' = l_registered w
    \<and> l_config w' = l_config w \<and> l_clients w' = l_clients w"
proof -
  let ?w = "w\<lparr> l_shutting_down := True \<rparr>" and ?ks = "map snd (l_layers w)"
  note d = tasks_invD [OF t]
  have dist: "distinct (map fst (l_layers w))" using d(1) by simp
  obtain q v where f: "for_each ?ks request_cancel ?w = (q, v)" by fastforce
  have "\<forall>k \<in> set ?ks. k < length (l_tasks ?w)"
    using d(2) dist by (fastforce simp: map_of_eq_Some_iff)
  from request_cancel_eq [OF f this] obtain ts where ts: "q = Inr ()" "v = ?w\<lparr> l_tasks := ts \<rparr>"
    "length ts = length (l_tasks w)"
    "\<forall>j < length ts. lt_layer (ts ! j) = lt_layer (l_tasks w ! j) \<and> lt_end (ts ! j) = lt_end (l_tasks w ! j)
       \<and> lt_monitored (ts ! j) = lt_monitored (l_tasks w ! j)
       \<and> (lt_cancelling (l_tasks w ! j) \<or> j \<in> set ?ks \<and> lt_end (ts ! j) = None \<longrightarrow> lt_cancelling (ts ! j))"
    by auto
  have w': "r = Inr ()" "w' = w\<lparr> l_shutting_down := True, l_tasks := ts, l_phase := Gathering \<rparr>"
    using r f ts(1,2) by (auto simp: cancel_layer_tasks_def bind_def modify_def get_w_def)
  have inv: "tasks_inv (l_layers w) ts (l_timers w) True"
    by (rule tasks_inv_cancelling [OF t ts(3)]) (use ts(3,4) in auto)
  have "lt_cancelling (ts ! k)" if "k < length ts" "lt_end (ts ! k) = None" for k
  proof -
    from tasks_invD(4) [OF inv that(1)] that(2) have "map_of (l_layers w) (lt_layer (ts ! k)) = Some k"
      by (simp add: live_def)
    then have "k \<in> set ?ks" by (force dest: map_of_SomeD)
    with ts(4) that show ?thesis by blast
  qed
  with w' inv show ?thesis by simp
qed


lemma run_close:
  assumes "run_callback (Close r) w = (q, w')"
  shows "\<exists>f. w' = w\<lparr> l_closed := l_closed w @ [r], l_close_faults := f \<rparr>"
proof (cases "r = AGGREGATION_GROUPS")
  case True
  with assms have "w' = w\<lparr> l_closed := l_closed w @ [r], l_close_faults := l_close_faults w \<rparr>"
    by (simp add: groups_close_def)
  then show ?thesis ..
next
  case False
  with assms have "w' = w\<lparr> l_closed := l_closed w @ [r], l_close_faults := tl (l_close_faults w) \<rparr>"
    by (cases r) (auto simp: db_close_def close_call_def try_except_def split: sum.splits if_splits)
  then show ?thesis ..
qed

lemma exit_step_ok:
  assumes ok: "life_ok w" and ph: "l_phase w = Leaving" and r: "exit_step w = (r, w')"
  shows "r = Inr () \<and> life_ok w'"
proof -
  have t: "tasks_ok w" and s: "stack_ok w" using ok by (simp_all add: life_ok_def)
  show ?thesis
  proof (cases "l_stack w")
    case Nil
    with r have w': "r = Inr ()" "w' = w\<lparr> l_phase := Finished \<rparr>" by (simp_all add: exit_step_def)
    with Nil t s ph show ?thesis by (auto simp: life_ok_def stack_ok_def split: if_splits)
  next
    case (Cons cb rest)
    let ?w = "w\<lparr> l_stack := rest \<rparr>"
    obtain q v where c: "run_callback cb ?w = (q, v)" by fastforce
    have w': "r = Inr () \<and> w' = (case q of Inl e \<Rightarrow> v\<lparr> l_error := Some e \<rparr> | Inr _ \<Rightarrow> v)"
      using r Cons c by (cases q) (auto simp: exit_step_def try_except_def)
    show ?thesis
    proof (cases "l_shutting_down w")
      case False
      with s Cons have cb: "cb = Cancel_layer_tasks" and rest: "rest = map Close (rev all_resources)"
        by (simp_all add: stack_ok_def)
      have "tasks_ok ?w" using t by simp
      from cancel_layer_tasks_ok [OF this c [unfolded cb run_callback.simps]] have x: "q = Inr () \<and> tasks_inv (l_layers v) (l_tasks v) (l_timers v) True \<and> l_shutting_down v \<and> l_phase v = Gathering
        \<and> (\<forall>k. running v k \<longrightarrow> lt_cancelling (l_tasks v ! k))
        \<and> l_stack v = rest \<and> l_closed v = l_closed w \<and> l_opened v = l_opened w \<and> l_registered v = l_registered w
        \<and> l_config v = l_config w \<and> l_clients v = l_clients w"
        by simp
      with w' have "r = Inr ()" "w' = v" by simp_all
      with x s rest False show ?thesis by (simp add: life_ok_def stack_ok_def)
    next
      case True
      with s have m: "map Close (l_closed w) @ l_stack w = map Close (rev all_resources)" by (simp add: stack_ok_def)
      have "cb \<in> set (map Close (rev all_resources))" unfolding m [symmetric] Cons by simp
      then obtain x where cb: "cb = Close x" by auto
      from run_close [OF c [unfolded cb]] obtain f where v: "v = ?w\<lparr> l_closed := l_closed w @ [x], l_close_faults := f \<rparr>"
        by auto
      have "life_ok v" using t s True m Cons cb ph unfolding v life_ok_def stack_ok_def by simp
      moreover have "same_life v w'" using w' by (cases q) (simp_all add: same_life_def)
      ultimately have "life_ok w'" by (simp only: same_life_ok)
      with w' show ?thesis by simp
    qed
  qed
qed

lemma leave_ok:
  assumes "life_ok w" and "l_phase w = Serving" and "leave exc w = (r, w')"
  shows "life_ok w'"
  using assms by (auto simp: leave_def life_ok_def stack_ok_def split: if_splits)

lemma gathered_ok:
  assumes ok: "life_ok w" and ph: "l_phase w = Gathering"
    and ended: "\<forall>k \<in> snd ` set (l_layers w). lt_end (l_tasks w ! k) \<noteq> None"
  shows "life_ok (w\<lparr> l_phase := Leaving, l_error := e \<rparr>)"
proof -
  have t: "tasks_ok w" and s: "stack_ok w" using ok by (simp_all add: life_ok_def)
  have "\<not> running w k" for k
  proof
    assume k: "running w k"
    with tasks_invD(4) [OF t, of k] have "map_of (l_layers w) (lt_layer (l_tasks w ! k)) = Some k" by (simp add: live_def)
    then have "k \<in> snd ` set (l_layers w)" by (force dest: map_of_SomeD)
    from bspec [OF ended this] k show False by simp
  qed
  with t s ph show ?thesis by (auto simp: life_ok_def stack_ok_def split: if_splits)
qed

lemma life_step_ok:
  assumes "life_step L P cfg w w'" and "life_ok w"
  shows "life_ok w'"
  using assms
proof (induction rule: life_step.induct)
  case (layer_works w k w')
  then show ?case using same_life_ok by blast
next
  case (groups_work w w')
  then show ?case using same_life_ok by blast
next
  case (task_ends w k e)
  then show ?case using end_task_ok by blast
next
  case (done_callback k w w')
  then show ?case using on_done_ok by blast
next
  case (timer_fires i w layer t w')
  then show ?case using restart_ok by blast
next
  case (time_passes w t)
  have "same_life w (w\<lparr> w_now := t \<rparr>)" by (simp add: same_life_def)
  with time_passes show ?case using same_life_ok by blast
next
  case (health a b c w r w')
  with same_life_ok [OF alwaysD [OF health_same_life]] show ?case by blast
next
  case (cleanup_ends c w w')
  then have "same_life w w'" by (auto simp: discard_abandoned_def same_life_def)
  with cleanup_ends show ?case using same_life_ok by blast
next
  case (list_sync w r w')
  with same_life_ok [OF alwaysD [OF sync_same_life]] show ?case by blast
next
  case (shutdown w exc w')
  then show ?case using leave_ok by blast
next
  case (gathered w e)
  then show ?case using gathered_ok by blast
next
  case (exits w w')
  then show ?case using exit_step_ok by blast
qed

lemma life_steps_ok: "(life_step L P cfg)\<^sup>*\<^sup>* w w' \<Longrightarrow> life_ok w \<Longrightarrow> life_ok w'"
  by (induction rule: rtranclp_induct) (auto intro: life_step_ok)


section \<open>The startup\<close>

text \<open>While it runs, the exit stack closes what is open, in reverse order; when it has failed, what
  is closed and what the stack will close are together all that was opened.\<close>

definition no_tasks :: "'z life_world_scheme \<Rightarrow> bool" where
  "no_tasks w \<longleftrightarrow> l_tasks w = [] \<and> l_layers w = [] \<and> l_timers w = [] \<and> \<not> l_shutting_down w"

definition starting :: "resource list \<Rightarrow> 'z life_world_scheme \<Rightarrow> bool" where
  "starting rs w \<longleftrightarrow> no_tasks w \<and> l_opened w = rs \<and> l_stack w = map Close (rev rs) \<and> l_closed w = []
     \<and> l_config w \<noteq> None \<and> {DB_POOL, REDIS_STREAM, REDIS_STATE} \<inter> set rs \<subseteq> set (l_clients w)"

definition aborted :: "'z life_world_scheme \<Rightarrow> bool" where
  "aborted w \<longleftrightarrow> no_tasks w \<and> map Close (rev (l_opened w)) = map Close (l_closed w) @ l_stack w"

definition not_started :: "'z life_world_scheme \<Rightarrow> bool" where
  "not_started w \<longleftrightarrow> no_tasks w \<and> l_opened w = [] \<and> l_stack w = [] \<and> l_closed w = []"

lemma same_life_starting: "same_life w w' \<Longrightarrow> starting rs w' = starting rs w"
  by (simp add: same_life_def starting_def no_tasks_def)

lemma starting_aborted: "starting rs w \<Longrightarrow> aborted w"
  by (simp add: starting_def aborted_def rev_map)

text \<open>Opening a client, with the push of its close.\<close>

lemma opened_pushed:
  assumes "starting rs v" and "w' = v\<lparr> l_opened := l_opened v @ [r], l_clients := r # l_clients v, l_stack := Close r # l_stack v \<rparr>"
  shows "starting (rs @ [r]) w'"
  using assms by (auto simp: starting_def no_tasks_def)

lemma close_call_eq:
  "\<exists>q. close_call r w = (q, w\<lparr> l_closed := l_closed w @ [r], l_close_faults := tl (l_close_faults w) \<rparr>)"
  by (simp add: close_call_def)

lemma checked_client:
  assumes ping: "always same_life ping"
  shows "valid (starting rs)
    (seq (seq (opened r) (seq (try_except ping (\<lambda>exc. seq (close_call r) (raise exc))) (register_client r)))
         (push_async_callback (Close r)))
    (\<lambda>_. starting (rs @ [r])) (\<lambda>_. aborted)" (is "valid _ ?m _ _")
proof -
  have "case ?m w of (Inl e, w') \<Rightarrow> aborted w' | (Inr x, w') \<Rightarrow> starting (rs @ [r]) w'" if w: "starting rs w" for w
  proof -
    let ?w = "w\<lparr> l_opened := l_opened w @ [r] \<rparr>"
    obtain q v where p: "ping ?w = (q, v)" by fastforce
    have v: "same_life ?w v" using alwaysD [OF ping p] .
    show ?thesis
    proof (cases q)
      case (Inl e)
      obtain q' where c: "close_call r v = (q', v\<lparr> l_closed := l_closed v @ [r], l_close_faults := tl (l_close_faults v) \<rparr>)"
        using close_call_eq by blast
      have "aborted (v\<lparr> l_closed := l_closed v @ [r], l_close_faults := tl (l_close_faults v) \<rparr>)"
        using v w by (simp add: same_life_def aborted_def starting_def no_tasks_def rev_map)
      then show ?thesis using p Inl c
        by (cases q') (simp_all add: opened_def bind_def try_except_def modify_def raise_def)
    next
      case (Inr x)
      have "starting (rs @ [r]) (v\<lparr> l_clients := r # l_clients v, l_stack := Close r # l_stack v \<rparr>)"
        using v w by (auto simp: same_life_def starting_def no_tasks_def)
      then show ?thesis using p Inr
        by (simp add: opened_def register_client_def push_async_callback_def bind_def try_except_def modify_def)
    qed
  qed
  then show ?thesis by (simp add: valid_def)
qed

lemma always_starting:
  assumes "always same_life m"
  shows "valid (starting rs) m (\<lambda>_. starting rs) (\<lambda>_. aborted)"
  by (rule validI) (use same_life_starting [OF alwaysD [OF assms]] starting_aborted in blast)+

lemma open_db: "valid (starting rs) (seq create_db_client (push_async_callback (Close DB_POOL)))
    (\<lambda>_. starting (rs @ [DB_POOL])) (\<lambda>_. aborted)"
  unfolding create_db_client_def bind_assoc
  by (rule valid_bind [OF always_starting [OF calls_same_life(1)]])
    (auto simp: valid_def opened_def register_client_def push_async_callback_def modify_def bind_def
      starting_def no_tasks_def)

lemma open_http: "valid (starting rs) (seq create_http_client (push_async_callback (Close HTTP_CLIENT)))
    (\<lambda>_. starting (rs @ [HTTP_CLIENT])) (\<lambda>_. aborted)"
  by (auto simp: valid_def create_http_client_def opened_def push_async_callback_def modify_def bind_def
      starting_def no_tasks_def)

lemma open_llm: "valid (starting rs) (seq (create_llm_adapter vertex c) (push_async_callback (Close LLM_ADAPTER)))
    (\<lambda>_. starting (rs @ [LLM_ADAPTER])) (\<lambda>_. aborted)"
  unfolding create_llm_adapter_def bind_assoc
  by (rule valid_bind [OF always_starting [OF life.always_of_sum]])
    (auto simp: valid_def opened_def register_client_def push_async_callback_def modify_def bind_def
      starting_def no_tasks_def)

lemma open_clients_ok: "valid (starting []) (open_clients vertex cfg)
    (\<lambda>_. starting [DB_POOL, REDIS_STREAM, REDIS_STATE, HTTP_CLIENT, LLM_ADAPTER]) (\<lambda>_. aborted)"
proof -
  have stream: "valid (starting rs) (seq create_stream_client (push_async_callback (Close REDIS_STREAM)))
      (\<lambda>_. starting (rs @ [REDIS_STREAM])) (\<lambda>_. aborted)" for rs
    unfolding create_stream_client_def by (rule checked_client [OF probes_same_life(2)])
  have state: "valid (starting rs) (seq create_state_client (push_async_callback (Close REDIS_STATE)))
      (\<lambda>_. starting (rs @ [REDIS_STATE])) (\<lambda>_. aborted)" for rs
    unfolding create_state_client_def by (rule checked_client [OF probes_same_life(3)])
  have eq: "open_clients vertex cfg =
      seq (seq create_db_client (push_async_callback (Close DB_POOL)))
     (seq (seq create_stream_client (push_async_callback (Close REDIS_STREAM)))
     (seq (seq create_state_client (push_async_callback (Close REDIS_STATE)))
     (seq (seq create_http_client (push_async_callback (Close HTTP_CLIENT)))
          (seq (create_llm_adapter vertex (cfg_llm cfg)) (push_async_callback (Close LLM_ADAPTER))))))"
    by (simp only: open_clients_def bind_assoc)
  show ?thesis unfolding eq
    using valid_bind [OF open_db valid_bind [OF stream valid_bind [OF state valid_bind [OF open_http open_llm]]], of "[]"]
    by simp
qed

lemma load_stock_list_same: "always same_life (load_stock_list L P)"
  unfolding load_stock_list_def by (auto intro!: life.always_intros refresh_same_life)

text \<open>The part of the startup that opens, and the part that starts the layers.\<close>

definition layers_started :: "'z life_world_scheme \<Rightarrow> bool" where
  "layers_started w \<longleftrightarrow> tasks_inv (l_layers w) (l_tasks w) (l_timers w) False \<and> \<not> l_shutting_down w
     \<and> (\<forall>t \<in> set (l_tasks w). lt_end t = None) \<and> l_registered w \<and> l_opened w = all_resources
     \<and> l_stack w = Cancel_layer_tasks # map Close (rev all_resources) \<and> l_closed w = []
     \<and> l_config w \<noteq> None \<and> {DB_POOL, REDIS_STREAM, REDIS_STATE} \<subseteq> set (l_clients w)"

lemma first_tasks_inv:
  "tasks_inv [(L_ENTITY_ANALYSIS, 0), (L_AGGREGATION, 1), (L_SCORING, 2)]
     [\<lparr> lt_layer = L_ENTITY_ANALYSIS, lt_end = None, lt_cancelling = False, lt_monitored = True \<rparr>,
      \<lparr> lt_layer = L_AGGREGATION, lt_end = None, lt_cancelling = False, lt_monitored = True \<rparr>,
      \<lparr> lt_layer = L_SCORING, lt_end = None, lt_cancelling = False, lt_monitored = False \<rparr>] [] False"
  by (rule tasks_invI) (auto simp: less_Suc_eq numeral_3_eq_3 split: if_splits)

lemma start_layers_run:
  assumes "l_tasks w = []" and "l_layers w = []"
  shows "start_layers w = (Inr (), w\<lparr>
    l_tasks := [\<lparr> lt_layer = L_ENTITY_ANALYSIS, lt_end = None, lt_cancelling = False, lt_monitored = True \<rparr>,
      \<lparr> lt_layer = L_AGGREGATION, lt_end = None, lt_cancelling = False, lt_monitored = True \<rparr>,
      \<lparr> lt_layer = L_SCORING, lt_end = None, lt_cancelling = False, lt_monitored = False \<rparr>],
    l_layers := [(L_ENTITY_ANALYSIS, 0), (L_AGGREGATION, 1), (L_SCORING, 2)], l_registered := True \<rparr>)"
  using assms
  by (simp add: start_layers_def make_monitored_def create_task_def set_layer_task_def register_layer_tasks_def
      bind_assoc)

lemma startup_ok: "valid not_started (startup L P vertex env) (\<lambda>_. layers_started) (\<lambda>_. aborted)"
  unfolding startup_def
proof (rule valid_bind [OF _ valid_bind [OF open_clients_ok valid_bind [OF always_starting [OF load_stock_list_same]]]])
  show "valid not_started (load_config_io env) (\<lambda>_. starting []) (\<lambda>_. aborted)"
    by (rule validI) (auto simp: load_config_io_def load_config_def Let_def not_started_def starting_def aborted_def
        no_tasks_def split: sum.splits)
next
  fix cfg
  show "valid (starting [DB_POOL, REDIS_STREAM, REDIS_STATE, HTTP_CLIENT, LLM_ADAPTER])
     (seq (opened AGGREGATION_GROUPS) (seq (push_async_callback (Close AGGREGATION_GROUPS)) (seq start_layers
       (seq (push_async_callback Cancel_layer_tasks) (ret cfg))))) (\<lambda>_. layers_started) (\<lambda>_. aborted)"
    by (auto simp: valid_def opened_def push_async_callback_def starting_def no_tasks_def start_layers_run bind_def
        modify_def ret_def layers_started_def all_resources_def first_tasks_inv [simplified])
qed

lemma exit_steps:
  assumes "l_stack w = map Close rs" and "for_each (map Close rs) (\<lambda>_. exit_step) w = (q, w')"
  shows "q = Inr () \<and> l_stack w' = [] \<and> l_closed w' = l_closed w @ rs \<and> l_opened w' = l_opened w
    \<and> l_phase w' = l_phase w \<and> l_tasks w' = l_tasks w \<and> l_layers w' = l_layers w \<and> l_timers w' = l_timers w
    \<and> l_shutting_down w' = l_shutting_down w \<and> (l_error w \<noteq> None \<longrightarrow> l_error w' \<noteq> None)"
  using assms
proof (induction rs arbitrary: w)
  case (Cons r rs)
  let ?w = "w\<lparr> l_stack := map Close rs \<rparr>"
  obtain x v where c: "run_callback (Close r) ?w = (x, v)" by fastforce
  define u where "u = (case x of Inl e \<Rightarrow> v\<lparr> l_error := Some e \<rparr> | Inr _ \<Rightarrow> v)"
  obtain f where v: "v = ?w\<lparr> l_closed := l_closed w @ [r], l_close_faults := f \<rparr>"
    using run_close [OF c] by auto
  have step: "exit_step w = (Inr (), u)"
    using Cons.prems(1) c by (cases x) (simp_all add: exit_step_def try_except_def u_def)
  have rest: "for_each (map Close rs) (\<lambda>_. exit_step) u = (q, w')"
    using Cons.prems(2) step by (simp add: bind_def)
  have u: "l_stack u = map Close rs" "l_closed u = l_closed w @ [r]" "l_opened u = l_opened w" "l_phase u = l_phase w"
    "l_tasks u = l_tasks w" "l_layers u = l_layers w" "l_timers u = l_timers w" "l_shutting_down u = l_shutting_down w"
    "l_error w \<noteq> None \<longrightarrow> l_error u \<noteq> None"
    using v by (cases x; simp add: u_def)+
  from Cons.IH [OF u(1) rest] u show ?case by simp
qed simp

lemma lifespan_started:
  assumes "lifespan_start L P vertex env w = (Inr cfg, w')" and "not_started w"
  shows "life_ok w' \<and> l_phase w' = Serving \<and> \<not> l_shutting_down w' \<and> (\<forall>t \<in> set (l_tasks w'). lt_end t = None)"
proof -
  obtain q v where s: "startup L P vertex env w = (q, v)" by fastforce
  from assms(1) s obtain x where "q = Inr x" and w': "w' = v\<lparr> l_phase := Serving \<rparr>"
    by (auto simp: lifespan_start_def try_eq_Inr bind_eq_Inr bind_eq_Inl leave_def)
  with validD_Inr [OF startup_ok assms(2)] s have "layers_started v" by blast
  then show ?thesis unfolding w' by (simp add: life_ok_def stack_ok_def layers_started_def)
qed

lemma lifespan_failed:
  assumes "lifespan_start L P vertex env w = (Inl e, w')" and "not_started w"
  shows "l_closed w' = rev (l_opened w') \<and> l_stack w' = [] \<and> no_tasks w' \<and> l_phase w' = Finished"
proof -
  obtain q v where s: "startup L P vertex env w = (q, v)" by fastforce
  have "\<exists>exc. q = Inl exc" using assms(1) s by (cases q) (auto simp: lifespan_start_def try_eq_Inl bind_eq_Inl bind_eq_Inr)
  then obtain exc where q: "q = Inl exc" ..
  with validD_Inl [OF startup_ok assms(2)] s have ab: "aborted v" by blast
  then obtain rs where st: "l_stack v = map Close rs" and cl: "rev (l_opened v) = l_closed v @ rs"
    by (auto simp: aborted_def map_eq_append_conv) (metis inj_map_eq_map injI exit_callback.inject)
  let ?v = "v\<lparr> l_phase := Leaving, l_error := Some exc \<rparr>"
  obtain z u where f: "for_each (map Close rs) (\<lambda>_. exit_step) ?v = (z, u)" by fastforce
  from exit_steps [of ?v rs z u] f st have u: "z = Inr ()" "l_stack u = []" "l_closed u = l_closed v @ rs"
    "l_opened u = l_opened v" "l_tasks u = l_tasks v" "l_layers u = l_layers v" "l_timers u = l_timers v"
    "l_shutting_down u = l_shutting_down v" by simp_all
  have "w' = u\<lparr> l_phase := Finished \<rparr>"
    using assms(1) s q f st u(1,2)
    by (simp add: lifespan_start_def try_except_def bind_def leave_def get_w_def modify_def exit_step_def raise_def)
  with u ab cl st show ?thesis by (simp add: aborted_def no_tasks_def)
qed

end
