(* ===== verification/Sapi_Life_Props.thy ===== *)
theory Sapi_Life_Props
  imports Sapi_Life_Steps Sapi_Stock_List_Props
begin

text \<open>
  What the lifecycle and the API promise: layers stop before the clients they use close, a failed
  startup closes what it opened, a crashed layer comes back, what the health check answers, and what
  a reload of the stock list answers and leaves.
\<close>

section \<open>Reached states\<close>

definition reached ::
  "text_lib \<Rightarrow> parse_lib \<Rightarrow> (llm_config \<Rightarrow> unit res) \<Rightarrow> environ \<Rightarrow> app_config \<Rightarrow> 'z life_world_scheme \<Rightarrow> bool" where
  "reached L P vertex env cfg w \<longleftrightarrow>
     (\<exists>w0 w1. not_started w0 \<and> lifespan_start L P vertex env w0 = (Inr cfg, w1) \<and> (life_step L P cfg)\<^sup>*\<^sup>* w1 w)"

lemma reached_ok: "reached L P vertex env cfg w \<Longrightarrow> life_ok w"
  using lifespan_started life_steps_ok by (fastforce simp: reached_def)

lemma reached_step: "reached L P vertex env cfg w \<Longrightarrow> life_step L P cfg w w' \<Longrightarrow> reached L P vertex env cfg w'"
  unfolding reached_def by (meson rtranclp.rtrancl_into_rtrancl)

section \<open>Shutdown\<close>

text \<open>Once shutdown has begun no Task is created.\<close>

lemma same_life_tasks: "same_life w w' \<Longrightarrow> l_shutting_down w' = l_shutting_down w \<and> l_tasks w' = l_tasks w"
  by (simp add: same_life_def)

lemma callback_shutting_down:
  assumes "run_callback cb w = (q, w')" and "cb \<noteq> Cancel_layer_tasks"
  shows "l_shutting_down w' = l_shutting_down w \<and> l_tasks w' = l_tasks w"
proof -
  from assms(2) obtain r where "cb = Close r" by (cases cb) simp_all
  with run_close assms(1) show ?thesis by fastforce
qed

lemma exit_shutting_down:
  assumes ok: "stack_ok w" and sd: "l_shutting_down w" and e: "exit_step w = (r, w')"
  shows "l_shutting_down w' \<and> l_tasks w' = l_tasks w"
proof (cases "l_stack w")
  case Nil
  with e sd show ?thesis by (simp add: exit_step_def)
next
  case (Cons cb rest)
  obtain q v where c: "run_callback cb (w\<lparr> l_stack := rest \<rparr>) = (q, v)" by fastforce
  have m: "map Close (l_closed w) @ l_stack w = map Close (rev all_resources)" using ok sd by (simp add: stack_ok_def)
  have "cb \<in> set (map Close (rev all_resources))" unfolding m [symmetric] Cons by simp
  then have "cb \<noteq> Cancel_layer_tasks" by auto
  from callback_shutting_down [OF c this] have "l_shutting_down v \<and> l_tasks v = l_tasks w" using sd by simp
  moreover have "w' = (case q of Inl e \<Rightarrow> v\<lparr> l_error := Some e \<rparr> | Inr _ \<Rightarrow> v)"
    using e Cons c by (cases q) (auto simp: exit_step_def try_except_def)
  ultimately show ?thesis by (cases q) simp_all
qed

lemma step_shutting_down:
  assumes "life_step L P cfg w w'" and "life_ok w" and "l_shutting_down w"
  shows "l_shutting_down w' \<and> length (l_tasks w') = length (l_tasks w)"
  using assms
proof (induction rule: life_step.induct)
  case (layer_works w k w')
  then show ?case by (simp add: same_life_def)
next
  case (groups_work w w')
  then show ?case by (simp add: same_life_def)
next
  case (done_callback k w w')
  then show ?case by (auto simp: on_done_def)
next
  case (timer_fires i w layer t w')
  then show ?case by (simp add: restart_def)
next
  case (health a b c w r w')
  from same_life_tasks [OF alwaysD [OF health_same_life health(1)]] health(3) show ?case by simp
next
  case (cleanup_ends c w w')
  then show ?case by (auto simp: discard_abandoned_def)
next
  case (list_sync w r w')
  from same_life_tasks [OF alwaysD [OF sync_same_life list_sync(1)]] list_sync(3) show ?case by simp
next
  case (shutdown w exc w')
  then show ?case by (auto simp: leave_def)
next
  case (exits w w')
  then show ?case using exit_shutting_down by (fastforce simp: life_ok_def)
qed (simp_all add: end_task_def)

lemma steps_shutting_down:
  "(life_step L P cfg)\<^sup>*\<^sup>* w w' \<Longrightarrow> life_ok w \<Longrightarrow> l_shutting_down w \<Longrightarrow>
     l_shutting_down w' \<and> length (l_tasks w') = length (l_tasks w)"
proof (induction rule: rtranclp_induct)
  case (step v w')
  then show ?case using step_shutting_down life_steps_ok by metis
qed simp

lemma closed_prefix:
  assumes "stack_ok w"
  shows "\<exists>rest. rev (l_opened w) = l_closed w @ rest \<and> (l_shutting_down w \<longrightarrow> l_stack w = map Close rest)"
proof (cases "l_shutting_down w")
  case True
  with assms have "map Close (rev (l_opened w)) = map Close (l_closed w) @ l_stack w" by (simp add: stack_ok_def)
  then obtain xs ys where x: "rev (l_opened w) = xs @ ys" "map Close xs = map Close (l_closed w)" "map Close ys = l_stack w"
    by (auto simp: map_eq_append_conv)
  then have "xs = l_closed w" by (metis exit_callback.inject inj_map_eq_map injI)
  with x show ?thesis by auto
qed (use assms in \<open>simp add: stack_ok_def\<close>)

text \<open>C11: The layers stop before the clients they use close: shutdown first tells every Task that
  runs to stop and waits for it; while any resource is closed no layer's Task runs, and none is started
  after that by a timer that was pending; the groups of the aggregation, which run outside the layers'
  Tasks, are stopped before any client closes. The resources are closed one by one, the last opened first,
  whatever closing one of them raises, and in the end all of them are.\<close>

theorem layers_stop_before_clients_close:
  assumes r: "reached L P vertex env cfg w" and later: "(life_step L P cfg)\<^sup>*\<^sup>* w w'"
  shows "(l_closed w \<noteq> [] \<longrightarrow> (\<forall>k. \<not> running w k))
    \<and> (l_phase w = Gathering \<longrightarrow> (\<forall>k. running w k \<longrightarrow> lt_cancelling (l_tasks w ! k)))
    \<and> (l_shutting_down w \<longrightarrow> length (l_tasks w') = length (l_tasks w))
    \<and> (l_closed w \<noteq> [] \<longrightarrow> AGGREGATION_GROUPS \<in> set (l_closed w))
    \<and> (\<exists>rest. rev (l_opened w) = l_closed w @ rest)
    \<and> (l_phase w = Finished \<longrightarrow> l_closed w = rev (l_opened w))"
proof (intro conjI)
  have ok: "life_ok w" using r by (rule reached_ok)
  then have s: "stack_ok w" by (simp add: life_ok_def)
  show "l_shutting_down w \<longrightarrow> length (l_tasks w') = length (l_tasks w)" using steps_shutting_down [OF later ok] by simp
  show "l_closed w \<noteq> [] \<longrightarrow> (\<forall>k. \<not> running w k)" using s by (auto simp: stack_ok_def split: if_splits)
  show "l_phase w = Gathering \<longrightarrow> (\<forall>k. running w k \<longrightarrow> lt_cancelling (l_tasks w ! k))"
    using s by (auto simp: stack_ok_def split: if_splits)
  show prefix: "\<exists>rest. rev (l_opened w) = l_closed w @ rest" using closed_prefix [OF s] by blast
  have "l_opened w = all_resources" using s by (simp add: stack_ok_def)
  with prefix show "l_closed w \<noteq> [] \<longrightarrow> AGGREGATION_GROUPS \<in> set (l_closed w)"
    by (cases "l_closed w") (auto simp: all_resources_def)
  show "l_phase w = Finished \<longrightarrow> l_closed w = rev (l_opened w)"
    using closed_prefix [OF s] s by (auto simp: stack_ok_def split: if_splits)
qed

section \<open>Crashes\<close>

text \<open>Steps keep which Task is the scoring layer's and that a Task has ended.\<close>

definition ends_kept :: "'z life_world_scheme \<Rightarrow> 'z life_world_scheme \<Rightarrow> bool" where
  "ends_kept w w' \<longleftrightarrow> l_layers w' = l_layers w \<and> length (l_tasks w') = length (l_tasks w)
     \<and> (\<forall>k < length (l_tasks w). lt_end (l_tasks w' ! k) = lt_end (l_tasks w ! k))"

interpretation ends: monotone_io "ends_kept :: 'z life_world_scheme \<Rightarrow> 'z life_world_scheme \<Rightarrow> bool"
  by unfold_locales (auto simp: ends_kept_def)

lemma flags_keep_end:
  "k < length ts \<Longrightarrow> lt_end (ts[b := (ts ! b)\<lparr> lt_cancelling := c \<rparr>] ! k) = lt_end (ts ! k)"
  "k < length ts \<Longrightarrow> lt_end (ts[b := (ts ! b)\<lparr> lt_monitored := m \<rparr>] ! k) = lt_end (ts ! k)"
  by (cases "b = k"; simp)+

lemma cancel_ends_kept: "always ends_kept cancel_layer_tasks"
  unfolding cancel_layer_tasks_def request_cancel_def
  by (intro ends.always_bind ends.always_for_each ends.always_get_w always_modify)
    (auto simp: ends_kept_def flags_keep_end)

lemma exit_ends_kept: "always ends_kept exit_step"
proof -
  have "always ends_kept (run_callback cb)" for cb
  proof (cases cb)
    case (Close r)
    show ?thesis unfolding Close by (rule alwaysI) (auto dest!: run_close simp: ends_kept_def)
  qed (simp add: cancel_ends_kept)
  then show ?thesis unfolding exit_step_def
    by (intro ends.always_bind ends.always_get_w) (auto intro!: ends.always_bind ends.always_try always_modify
      simp: ends_kept_def split: list.splits)
qed

definition stays_down :: "'z life_world_scheme \<Rightarrow> 'z life_world_scheme \<Rightarrow> bool" where
  "stays_down w w' \<longleftrightarrow> map_of (l_layers w') L_SCORING = map_of (l_layers w) L_SCORING
     \<and> length (l_tasks w) \<le> length (l_tasks w')
     \<and> (\<forall>k < length (l_tasks w). lt_end (l_tasks w ! k) \<noteq> None \<longrightarrow> lt_end (l_tasks w' ! k) \<noteq> None)"

lemma ends_stays_down: "ends_kept w w' \<Longrightarrow> stays_down w w'"
  by (simp add: ends_kept_def stays_down_def)

lemma same_life_stays_down: "same_life w w' \<Longrightarrow> stays_down w w'"
  by (simp add: same_life_def stays_down_def)

lemma step_stays_down:
  assumes "life_step L P cfg w w'" and "life_ok w"
  shows "stays_down w w'"
  using assms
proof (induction rule: life_step.induct)
  case (task_ends w k e)
  then show ?case by (simp add: stays_down_def end_task_def nth_list_update)
next
  case (done_callback k w w')
  have "always ends_kept (on_done cfg k)" unfolding on_done_def call_later_def
    by (intro ends.always_bind ends.always_get_w always_modify)
      (auto simp: ends_kept_def flags_keep_end intro!: ends.always_ret always_modify split: option.splits task_end.splits)
  from alwaysD [OF this done_callback(4)] show ?case by (rule ends_stays_down)
next
  case (timer_fires i w layer t w')
  have "layer \<in> fst ` set (l_timers w)" using timer_fires(1,2) by (metis fst_conv image_eqI nth_mem)
  with timer_fires(5) have "layer \<noteq> L_SCORING" by (auto simp: life_ok_def dest: tasks_invD(8))
  then show ?case using timer_fires(4)
    by (cases "l_shutting_down w")
      (auto simp: restart_def make_monitored_def create_task_def set_layer_task_def bind_assoc stays_down_def nth_append)
next
  case (exits w w')
  from alwaysD [OF exit_ends_kept exits(2)] show ?case by (rule ends_stays_down)
next
  case (health a b c w r w')
  from alwaysD [OF health_same_life health(1)] show ?case by (rule same_life_stays_down)
next
  case (list_sync w r w')
  from alwaysD [OF sync_same_life list_sync(1)] show ?case by (rule same_life_stays_down)
qed (auto simp: same_life_def discard_abandoned_def leave_def stays_down_def)

lemma steps_stay_down: "(life_step L P cfg)\<^sup>*\<^sup>* w w' \<Longrightarrow> life_ok w \<Longrightarrow> stays_down w w'"
proof (induction rule: rtranclp_induct)
  case base
  show ?case by (simp add: stays_down_def)
next
  case (step v w')
  then have "stays_down w v" "stays_down v w'" using step_stays_down life_steps_ok by metis+
  then show ?case by (auto simp: stays_down_def)
qed

text \<open>A callback or a timer that is pending leads to a new Task.\<close>

lemma timer_restarts:
  assumes ok: "life_ok w" and sd: "\<not> l_shutting_down w" and l: "l \<in> fst ` set (l_timers w)"
  shows "\<exists>w' k. (life_step L P cfg)\<^sup>*\<^sup>* w w' \<and> map_of (l_layers w') l = Some k \<and> running w' k"
proof -
  from l obtain i t where i: "i < length (l_timers w)" "l_timers w ! i = (l, t)" by (auto simp: in_set_conv_nth)
  let ?v = "w\<lparr> w_now := max t (w_now w) \<rparr>"
  let ?w' = "?v\<lparr> l_timers := take i (l_timers w) @ drop (Suc i) (l_timers w),
        l_tasks := l_tasks w @ [\<lparr> lt_layer = l, lt_end = None, lt_cancelling = False, lt_monitored = True \<rparr>],
        l_layers := al_put l (length (l_tasks w)) (l_layers w) \<rparr>"
  have 1: "life_step L P cfg w ?v" by (rule time_passes) simp
  have 2: "life_step L P cfg ?v ?w'"
    by (rule timer_fires [where i = i and layer = l and t = t])
      (use i sd in \<open>simp_all add: restart_def make_monitored_def create_task_def set_layer_task_def bind_assoc\<close>)
  from 1 2 have "(life_step L P cfg)\<^sup>*\<^sup>* w ?w'" by simp
  then show ?thesis by (intro exI [of _ ?w'] exI [of _ "length (l_tasks w)"]) simp
qed

lemma crash_restarts:
  assumes ok: "life_ok w" and sd: "\<not> l_shutting_down w" and l: "map_of (l_layers w) l = Some k" "l \<noteq> L_SCORING"
    and e: "lt_end (l_tasks w ! k) = Some (Failed e)"
  shows "\<exists>w' k. (life_step L P cfg)\<^sup>*\<^sup>* w w' \<and> map_of (l_layers w') l = Some k \<and> running w' k"
proof (cases "l \<in> fst ` set (l_timers w)")
  case True
  from timer_restarts [OF ok sd True] show ?thesis .
next
  case False
  have t: "tasks_ok w" using ok by (simp add: life_ok_def)
  note d = tasks_invD [OF t]
  have m: "lt_monitored (l_tasks w ! k)" using d(10) [OF sd l e] False by simp
  have k: "k < length (l_tasks w)" "lt_layer (l_tasks w ! k) = l" using d(2,3) [OF l(1)] .
  let ?v = "w\<lparr> l_tasks := (l_tasks w)[k := (l_tasks w ! k)\<lparr> lt_monitored := False \<rparr>],
    l_timers := l_timers w @ [(l, w_now w + health_layer_restart_delay_s (cfg_health cfg) * us_per_second)] \<rparr>"
  have r: "on_done cfg k w = (Inr (), ?v)" using e k sd by (simp add: on_done_def call_later_def)
  have step: "life_step L P cfg w ?v" by (rule done_callback [OF k(1) _ m r]) (simp add: e)
  have "life_ok ?v" using life_step_ok [OF step ok] .
  moreover have "\<not> l_shutting_down ?v" "l \<in> fst ` set (l_timers ?v)" using sd by simp_all
  ultimately have "\<exists>w' k. (life_step L P cfg)\<^sup>*\<^sup>* ?v w' \<and> map_of (l_layers w') l = Some k \<and> running w' k"
    by (rule timer_restarts)
  then obtain w' j where w': "(life_step L P cfg)\<^sup>*\<^sup>* ?v w'" "map_of (l_layers w') l = Some j \<and> running w' j"
    by blast
  from converse_rtranclp_into_rtranclp [OF step w'(1)] w'(2) show ?thesis by blast
qed

lemma one_task_per_layer:
  assumes "life_ok w" and "running w i" and "running w j" and "lt_layer (l_tasks w ! i) = lt_layer (l_tasks w ! j)"
  shows "i = j"
proof -
  have t: "tasks_ok w" using assms(1) by (simp add: life_ok_def)
  have m: "map_of (l_layers w) (lt_layer (l_tasks w ! k)) = Some k" if "running w k" for k
    using tasks_invD(4) [OF t, of k] that by (simp add: live_def)
  have "Some i = Some j" by (rule trans [OF m [OF assms(2), symmetric] m [OF assms(3), folded assms(4)]])
  then show ?thesis by simp
qed

lemma scoring_stays_down:
  assumes ok: "life_ok w" and k: "map_of (l_layers w) L_SCORING = Some k" "lt_end (l_tasks w ! k) \<noteq> None"
    and s: "(life_step L P cfg)\<^sup>*\<^sup>* w w'" and j: "running w' j"
  shows "lt_layer (l_tasks w' ! j) \<noteq> L_SCORING"
proof
  assume sc: "lt_layer (l_tasks w' ! j) = L_SCORING"
  have down: "stays_down w w'" by (rule steps_stay_down [OF s ok])
  have t: "tasks_ok w" "tasks_ok w'" using ok life_steps_ok [OF s ok] by (simp_all add: life_ok_def)
  have "map_of (l_layers w') L_SCORING = Some j"
    using tasks_invD(4) [OF t(2), of j] j sc by (simp add: live_def)
  with down k(1) have "j = k" by (simp add: stays_down_def)
  have "lt_end (l_tasks w' ! k) \<noteq> None" using down k(2) tasks_invD(2) [OF t(1) k(1)] by (simp add: stays_down_def)
  with j \<open>j = k\<close> show False by simp
qed

text \<open>C12: While the service is not shutting down, no layer has two Tasks that run; a crashed Task of
  entity analysis or aggregation always has its callback or its timer to come, and they lead to a new
  Task that runs. The scoring layer's Task has no monitor: once it has ended, no Task of that layer runs
  ever again.\<close>

theorem crashed_layer_comes_back:
  assumes r: "reached L P vertex env cfg w" and sd: "\<not> l_shutting_down w"
  shows "(\<forall>i j. running w i \<and> running w j \<and> lt_layer (l_tasks w ! i) = lt_layer (l_tasks w ! j) \<longrightarrow> i = j)
    \<and> (\<forall>l k e. l \<in> {L_ENTITY_ANALYSIS, L_AGGREGATION} \<and> map_of (l_layers w) l = Some k
         \<and> lt_end (l_tasks w ! k) = Some (Failed e) \<longrightarrow>
         (lt_monitored (l_tasks w ! k) \<or> l \<in> fst ` set (l_timers w))
         \<and> (\<exists>w' k'. (life_step L P cfg)\<^sup>*\<^sup>* w w' \<and> map_of (l_layers w') l = Some k' \<and> running w' k'))
    \<and> (\<forall>k w' j. map_of (l_layers w) L_SCORING = Some k \<and> lt_end (l_tasks w ! k) \<noteq> None
         \<and> (life_step L P cfg)\<^sup>*\<^sup>* w w' \<and> running w' j \<longrightarrow> lt_layer (l_tasks w' ! j) \<noteq> L_SCORING)"
proof -
  have ok: "life_ok w" using r by (rule reached_ok)
  then have t: "tasks_ok w" by (simp add: life_ok_def)
  have "(lt_monitored (l_tasks w ! k) \<or> l \<in> fst ` set (l_timers w))
      \<and> (\<exists>w' k'. (life_step L P cfg)\<^sup>*\<^sup>* w w' \<and> map_of (l_layers w') l = Some k' \<and> running w' k')"
    if "l \<in> {L_ENTITY_ANALYSIS, L_AGGREGATION}" "map_of (l_layers w) l = Some k" "lt_end (l_tasks w ! k) = Some (Failed e)"
    for l k e
  proof -
    have "l \<noteq> L_SCORING" using that(1) by auto
    with crash_restarts [OF ok sd that(2) _ that(3)] tasks_invD(10) [OF t sd that(2) _ that(3)] show ?thesis by blast
  qed
  note restarts = this
  show ?thesis
  proof (intro conjI allI impI)
    fix i j
    assume "running w i \<and> running w j \<and> lt_layer (l_tasks w ! i) = lt_layer (l_tasks w ! j)"
    then show "i = j" using one_task_per_layer [OF ok] by blast
  next
    fix k w' j
    assume a: "map_of (l_layers w) L_SCORING = Some k \<and> lt_end (l_tasks w ! k) \<noteq> None
      \<and> (life_step L P cfg)\<^sup>*\<^sup>* w w' \<and> running w' j"
    show "lt_layer (l_tasks w' ! j) \<noteq> L_SCORING"
      by (rule scoring_stays_down [OF ok]) (use a in blast)+
  qed (use restarts in blast)+
qed

section \<open>A failed startup\<close>

text \<open>C37: A startup that fails closes what it had opened, the last opened first and each once,
  whatever closing it raises, and has started no layer.\<close>

theorem failed_startup_closes:
  assumes "lifespan_start L P vertex env w = (Inl e, w')" and "not_started w"
  shows "l_closed w' = rev (l_opened w') \<and> l_stack w' = [] \<and> l_tasks w' = [] \<and> l_timers w' = [] \<and> l_phase w' = Finished"
  using lifespan_failed [OF assms] by (simp add: no_tasks_def)

section \<open>The health check\<close>

text \<open>A stock list is there from the startup on, empty at worst.\<close>

definition has_list :: "'z net_world_scheme \<Rightarrow> bool" where
  "has_list w \<longleftrightarrow> n_cache w \<noteq> None"

lemma calls_keep_list:
  "keeps has_list (pg_call stmt)" "keeps has_list (rs_call act)" "keeps has_list (rt_call act')"
  by (rule alwaysI, auto dest!: pg_call_world rs_call_world rt_call_world simp: has_list_def)+

lemma probes_keep_list: "keeps has_list (db_fetch q)" "keeps has_list stream_ping" "keeps has_list state_ping"
  unfolding db_fetch_def translated_errors_def stream_ping_def state_ping_def
  by (intro keeps.always_intros calls_keep_list)+

lemma health_keeps_list: "keeps has_list (sapi_get_health a b c)"
proof -
  have set: "keeps has_list (settle m)" if "keeps has_list m" for m :: "('b life_world_scheme, exn, sapi_component_status) io"
    by (rule alwaysI) (use alwaysD [OF that] in \<open>auto simp: settle_def split: prod.splits\<close>)
  have chk: "keeps has_list (check_component r probe e)" if "keeps has_list probe"
    for r e and probe :: "('b life_world_scheme, exn, 'x) io"
    using that unfolding check_component_def abandon_def
    by (cases e) (auto intro!: keeps.always_intros always_modify simp: has_list_def)
  show ?thesis
    unfolding sapi_get_health_def get_client_def gather3_def get_layers_status_def get_layer_tasks_def
    by (auto intro!: keeps.always_intros set chk probes_keep_list simp: Let_def split: prod.splits)
qed

lemma refresh_keeps_list:
  assumes "refresh_hk_stock_list L P w = (r, w')" and "has_list w \<or> (\<exists>n. r = Inr n) \<or> (\<exists>e. r = Inl e \<and> is_exception e)"
  shows "has_list w'"
  using refresh_replaces_or_keeps [OF assms(1)] assms(2) by (cases r) (auto simp: has_list_def)

lemma step_keeps_list: "life_step L P cfg w w' \<Longrightarrow> has_list w \<Longrightarrow> has_list w'"
proof (induction rule: life_step.induct)
  case (done_callback k w w')
  then show ?case by (auto simp: has_list_def on_done_def call_later_def split: if_splits option.splits task_end.splits)
next
  case (timer_fires i w layer t w')
  then show ?case by (auto simp: has_list_def restart_def make_monitored_def create_task_def set_layer_task_def bind_assoc split: if_splits)
next
  case (health a b c w r w')
  from alwaysD [OF health_keeps_list health(1)] health(2) show ?case by simp
next
  case (list_sync w r w')
  then show ?case using refresh_keeps_list
    by (fastforce simp: post_hk_stock_list_sync_def bind_def split: prod.splits sum.splits)
next
  case (exits w w')
  have k: "keeps has_list (run_callback cb)" for cb
  proof (cases cb)
    case (Close r)
    show ?thesis unfolding Close by (rule alwaysI) (auto dest!: run_close simp: has_list_def)
  next
    case Cancel_layer_tasks
    show ?thesis unfolding Cancel_layer_tasks run_callback.simps cancel_layer_tasks_def request_cancel_def
      by (intro keeps.always_intros always_modify) (auto simp: has_list_def)
  qed
  have "keeps has_list exit_step" unfolding exit_step_def
    by (auto intro!: keeps.always_intros always_modify k split: list.splits) (simp_all add: has_list_def)
  from alwaysD [OF this exits(2)] exits(3) show ?case by simp
qed (auto simp: has_list_def end_task_def discard_abandoned_def leave_def)

lemma started_with_list:
  assumes "lifespan_start L P vertex env w0 = (Inr cfg, w1)"
  shows "has_list w1"
proof -
  obtain q v where s: "startup L P vertex env w0 = (q, v)" by fastforce
  from assms s have q: "q = Inr cfg" and w1: "w1 = v\<lparr> l_phase := Serving \<rparr>"
    by (auto simp: lifespan_start_def try_eq_Inr bind_eq_Inr bind_eq_Inl leave_def)
  from s q obtain c v1 v2 v3 where st: "load_stock_list L P v1 = (Inr (), v2)"
    and rest: "(seq (opened AGGREGATION_GROUPS) (seq (push_async_callback (Close AGGREGATION_GROUPS)) (seq start_layers
       (seq (push_async_callback Cancel_layer_tasks) (ret c))))) v2 = (q, v)"
    by (auto simp: startup_def bind_eq_Inr)
  have "has_list v2"
  proof -
    obtain r u where r: "refresh_hk_stock_list L P v1 = (r, u)" by fastforce
    from st r have "u = v2 \<and> ((\<exists>n. r = Inr n) \<or> (\<exists>e. r = Inl e \<and> is_exception e))"
      by (cases r) (auto simp: load_stock_list_def try_eq_Inr bind_eq_Inr bind_eq_Inl split: if_splits)
    with refresh_keeps_list [OF r] show ?thesis by blast
  qed
  moreover have "keeps has_list (seq (opened AGGREGATION_GROUPS) (seq (push_async_callback (Close AGGREGATION_GROUPS))
      (seq start_layers (seq (push_async_callback Cancel_layer_tasks) (ret c)))))"
    unfolding opened_def push_async_callback_def start_layers_def make_monitored_def create_task_def set_layer_task_def
      register_layer_tasks_def
    by (intro keeps.always_intros always_modify) (auto simp: has_list_def)
  ultimately have "has_list v" using alwaysD rest by fastforce
  then show ?thesis by (simp add: w1 has_list_def)
qed

lemma reached_list: "reached L P vertex env cfg w \<Longrightarrow> has_list w"
proof -
  assume "reached L P vertex env cfg w"
  then obtain w0 w1 where "lifespan_start L P vertex env w0 = (Inr cfg, w1)" and s: "(life_step L P cfg)\<^sup>*\<^sup>* w1 w"
    by (auto simp: reached_def)
  then have "has_list w1" by (intro started_with_list)
  with s show ?thesis by (induction rule: rtranclp_induct) (auto dest: step_keeps_list)
qed

definition probe_verdict :: "wait_end \<Rightarrow> exn fault \<Rightarrow> sapi_component_status" where
  "probe_verdict ended f = (if ended = In_time \<and> f = Fine then COMPONENT_OK else COMPONENT_ERROR)"

text \<open>One check: its verdict, and what it leaves for the next.\<close>

lemma checked:
  assumes run: "probe w = (if f = Fine then Inr x else Inl e, v)" and same: "same_life w v" "n_cache v = n_cache w"
    "w_rs v = w_rs w \<or> \<not> rs" "w_rt v = w_rt w \<or> \<not> rt"
  shows "\<exists>w'. check_component c probe ended w =
      (if ended = Request_cancelled then Inl Cancelled else Inr (probe_verdict ended f), w')
    \<and> same_life w w' \<and> n_cache w' = n_cache w \<and> (w_rs w' = w_rs w \<or> \<not> rs) \<and> (w_rt w' = w_rt w \<or> \<not> rt)"
proof (cases ended)
  case In_time
  with run same show ?thesis by (auto simp: check_component_def probe_verdict_def try_except_def bind_def ret_def)
qed (auto simp: check_component_def abandon_def probe_verdict_def same_life_def raise_def bind_def modify_def ret_def)

lemma db_probe: "\<exists>e v. db_fetch (\<lambda>_. ()) w = (if next_fault (w_pg w) = Fine then Inr () else Inl e, v)
    \<and> same_life w v \<and> n_cache v = n_cache w \<and> w_rs v = w_rs w \<and> w_rt v = w_rt w"
  by (cases "next_fault (w_pg w)")
    (auto simp: db_fetch_def translated_errors_def pg_call_def try_except_def raise_def same_life_def Let_def)

lemma stream_probe: "\<exists>e v. stream_ping w = (if next_fault (w_rs w) = Fine then Inr () else Inl e, v)
    \<and> same_life w v \<and> n_cache v = n_cache w \<and> w_rt v = w_rt w"
  by (cases "next_fault (w_rs w)") (auto simp: stream_ping_def rs_call_def same_life_def Let_def)

lemma state_probe: "\<exists>e v. state_ping w = (if next_fault (w_rt w) = Fine then Inr () else Inl e, v)
    \<and> same_life w v \<and> n_cache v = n_cache w"
  by (cases "next_fault (w_rt w)") (auto simp: state_ping_def rt_call_def same_life_def Let_def)

lemma of_sum_ret: "of_sum (Inr x) = ret x"
  by (simp add: of_sum_def ret_def)

lemma gathered_checks:
  fixes w :: "'z life_world_scheme"
  shows "\<exists>w'. gather3 (check_component DB_POOL (db_fetch (\<lambda>_. ())) a) (check_component REDIS_STREAM stream_ping b)
        (check_component REDIS_STATE state_ping c) w =
      (if Request_cancelled \<in> {a, b, c} then Inl Cancelled
       else Inr (probe_verdict a (next_fault (w_pg w)), probe_verdict b (next_fault (w_rs w)), probe_verdict c (next_fault (w_rt w))), w')
    \<and> same_life w w' \<and> n_cache w' = n_cache w"
proof -
  let ?res = "\<lambda>e f. if e = Request_cancelled then Inl Cancelled else Inr (probe_verdict e f)"
  obtain e0 v0 where p: "db_fetch (\<lambda>_. ()) w = (if next_fault (w_pg w) = Fine then Inr () else Inl e0, v0)"
    "same_life w v0" "n_cache v0 = n_cache w" "w_rs v0 = w_rs w" "w_rt v0 = w_rt w" using db_probe [of w] by blast
  from checked [where probe = "db_fetch (\<lambda>_. ())" and w = w and x = "()" and ended = a and c = DB_POOL and rs = True and rt = True, OF p(1-3)] p(4,5) obtain w1 where
    1: "check_component DB_POOL (db_fetch (\<lambda>_. ())) a w = (?res a (next_fault (w_pg w)), w1)"
    "same_life w w1" "n_cache w1 = n_cache w" "w_rs w1 = w_rs w" "w_rt w1 = w_rt w" by auto
  obtain e1 v1 where q: "stream_ping w1 = (if next_fault (w_rs w1) = Fine then Inr () else Inl e1, v1)"
    "same_life w1 v1" "n_cache v1 = n_cache w1" "w_rt v1 = w_rt w1" using stream_probe [of w1] by blast
  from checked [where probe = stream_ping and w = w1 and x = "()" and ended = b and c = REDIS_STREAM and rs = False and rt = True, OF q(1-3)] q(4) obtain w2 where
    2: "check_component REDIS_STREAM stream_ping b w1 = (?res b (next_fault (w_rs w1)), w2)"
    "same_life w1 w2" "n_cache w2 = n_cache w1" "w_rt w2 = w_rt w1" by auto
  obtain e2 v2 where r: "state_ping w2 = (if next_fault (w_rt w2) = Fine then Inr () else Inl e2, v2)"
    "same_life w2 v2" "n_cache v2 = n_cache w2" using state_probe [of w2] by blast
  from checked [where probe = state_ping and w = w2 and x = "()" and ended = c and c = REDIS_STATE and rs = False and rt = False, OF r] obtain w3 where
    3: "check_component REDIS_STATE state_ping c w2 = (?res c (next_fault (w_rt w2)), w3)"
    "same_life w2 w3" "n_cache w3 = n_cache w2" by auto
  have "gather3 (check_component DB_POOL (db_fetch (\<lambda>_. ())) a) (check_component REDIS_STREAM stream_ping b)
        (check_component REDIS_STATE state_ping c) w =
      (if Request_cancelled \<in> {a, b, c} then Inl Cancelled
       else Inr (probe_verdict a (next_fault (w_pg w)), probe_verdict b (next_fault (w_rs w)), probe_verdict c (next_fault (w_rt w))), w3)"
    unfolding gather3_def settle_def bind_def 1(1) 2(1) 3(1) 1(4,5) 2(4)
    by (auto simp: 1(1) 2(1) 3(1) 1(4,5) 2(4) of_sum_def ret_def)
  moreover have "same_life w w3" using 1(2) 2(2) 3(2) life.R_trans by blast
  ultimately show ?thesis using 1(3) 2(3) 3(3) by (intro exI [of _ w3]) simp
qed

lemma layer_status_running:
  assumes "tasks_ok w"
  shows "layer_status (l_tasks w) (l_layers w) l = COMPONENT_OK \<longleftrightarrow> (\<exists>k. running w k \<and> lt_layer (l_tasks w ! k) = l)"
proof
  assume "layer_status (l_tasks w) (l_layers w) l = COMPONENT_OK"
  then obtain k where "map_of (l_layers w) l = Some k" "lt_end (l_tasks w ! k) = None"
    by (auto simp: layer_status_def split: option.splits if_splits)
  with tasks_invD(2,3) [OF assms] show "\<exists>k. running w k \<and> lt_layer (l_tasks w ! k) = l" by blast
next
  assume "\<exists>k. running w k \<and> lt_layer (l_tasks w ! k) = l"
  then obtain k where "running w k" "lt_layer (l_tasks w ! k) = l" by blast
  with tasks_invD(4) [OF assms, of k] have "map_of (l_layers w) l = Some k" by (simp add: live_def)
  with \<open>running w k\<close> show "layer_status (l_tasks w) (l_layers w) l = COMPONENT_OK" by (simp add: layer_status_def)
qed

text \<open>C35: Unless the request is cancelled the health check answers: a component is ok exactly when its
  probe succeeded in time, the stock list when it holds a stock, a layer when a Task of it runs. The
  answer is 503 exactly when a component or the list is not ready, and never \<open>healthy\<close>: no Task of the
  cache layer is ever registered. Asking changes nothing of the layers.\<close>

theorem health_answers:
  assumes "reached L P vertex env cfg w"
  shows "(Request_cancelled \<in> {a, b, c} \<longrightarrow> fst (sapi_get_health a b c w) = Inl Cancelled)
    \<and> (Request_cancelled \<notin> {a, b, c} \<longrightarrow>
        (\<exists>h. fst (sapi_get_health a b c w) = Inr (if hs_status h = SAPI_UNHEALTHY then 503 else 200, h)
           \<and> hs_database h = probe_verdict a (next_fault (w_pg w))
           \<and> hs_redis_stream h = probe_verdict b (next_fault (w_rs w))
           \<and> hs_redis_state h = probe_verdict c (next_fault (w_rt w))
           \<and> (hs_hk_stock_list h = LIST_OK \<longleftrightarrow> (\<exists>cache. n_cache w = Some cache \<and> hc_entries cache \<noteq> []))
           \<and> (ls_entity_analysis (hs_layers h) = COMPONENT_OK \<longleftrightarrow> (\<exists>k. running w k \<and> lt_layer (l_tasks w ! k) = L_ENTITY_ANALYSIS))
           \<and> (ls_aggregation (hs_layers h) = COMPONENT_OK \<longleftrightarrow> (\<exists>k. running w k \<and> lt_layer (l_tasks w ! k) = L_AGGREGATION))
           \<and> (ls_scoring (hs_layers h) = COMPONENT_OK \<longleftrightarrow> (\<exists>k. running w k \<and> lt_layer (l_tasks w ! k) = L_SCORING))
           \<and> ls_cache (hs_layers h) = COMPONENT_ERROR
           \<and> (hs_status h = SAPI_UNHEALTHY \<longleftrightarrow> COMPONENT_ERROR \<in> {hs_database h, hs_redis_stream h, hs_redis_state h}
                \<or> hs_hk_stock_list h = LIST_NOT_READY)
           \<and> hs_status h \<noteq> SAPI_HEALTHY))
    \<and> same_life w (snd (sapi_get_health a b c w))"
proof (intro conjI impI)
  have ok: "life_ok w" using assms by (rule reached_ok)
  then have t: "tasks_ok w" and s: "stack_ok w" by (simp_all add: life_ok_def)
  obtain cf where cf: "l_config w = Some cf" using s by (auto simp: stack_ok_def)
  obtain cache where cache: "n_cache w = Some cache" using reached_list [OF assms] by (auto simp: has_list_def)
  obtain w' where g: "gather3 (check_component DB_POOL (db_fetch (\<lambda>_. ())) a) (check_component REDIS_STREAM stream_ping b)
        (check_component REDIS_STATE state_ping c) w =
      (if Request_cancelled \<in> {a, b, c} then Inl Cancelled
       else Inr (probe_verdict a (next_fault (w_pg w)), probe_verdict b (next_fault (w_rs w)), probe_verdict c (next_fault (w_rt w))), w')"
    and w': "same_life w w'" "n_cache w' = n_cache w" using gathered_checks [of a b c w] by blast
  have pre: "sapi_get_health a b c w = (bind (gather3 (check_component DB_POOL (db_fetch (\<lambda>_. ())) a)
        (check_component REDIS_STREAM stream_ping b) (check_component REDIS_STATE state_ping c)) (\<lambda>(database, redis_stream, redis_state).
     bind (bind (get_w n_cache) (\<lambda>c. of_sum (get_hk_stock_list_cache c))) (\<lambda>cache.
     bind get_layers_status (\<lambda>layers.
     let hk_stock_list = (if hc_entries cache \<noteq> [] then LIST_OK else LIST_NOT_READY);
         overall = overall_status database redis_stream redis_state hk_stock_list layers
     in ret (if overall = SAPI_UNHEALTHY then 503 else 200,
             \<lparr> hs_status = overall, hs_database = database, hs_redis_stream = redis_stream,
               hs_redis_state = redis_state, hs_hk_stock_list = hk_stock_list, hs_layers = layers \<rparr>))))) w"
    using s cf by (simp add: sapi_get_health_def get_client_def get_config_def stack_ok_def bind_assoc of_sum_ret)
  show "same_life w (snd (sapi_get_health a b c w))"
    by (cases "sapi_get_health a b c w") (use alwaysD [OF health_same_life] in fastforce)
  show "fst (sapi_get_health a b c w) = Inl Cancelled" if "Request_cancelled \<in> {a, b, c}"
    using g that by (simp add: pre bind_def)
  define ls where "ls = (let s = layer_status (l_tasks w) (l_layers w) in
    \<lparr> ls_entity_analysis = s L_ENTITY_ANALYSIS, ls_aggregation = s L_AGGREGATION, ls_scoring = s L_SCORING,
      ls_cache = s L_CACHE \<rparr>)"
  define h where "h = (let da = probe_verdict a (next_fault (w_pg w)); st = probe_verdict b (next_fault (w_rs w));
      sa = probe_verdict c (next_fault (w_rt w)); li = (if hc_entries cache \<noteq> [] then LIST_OK else LIST_NOT_READY) in
    \<lparr> hs_status = overall_status da st sa li ls, hs_database = da, hs_redis_stream = st, hs_redis_state = sa,
      hs_hk_stock_list = li, hs_layers = ls \<rparr>)"
  have layers: "get_layers_status w' = (Inr ls, w')"
  proof -
    have "l_registered w'" "l_layers w' = l_layers w" "l_tasks w' = l_tasks w"
      using w'(1) s by (simp_all add: same_life_def stack_ok_def)
    then show ?thesis by (simp add: get_layers_status_def get_layer_tasks_def bind_assoc ls_def Let_def)
  qed
  have down: "ls_cache ls = COMPONENT_ERROR"
  proof -
    have "L_CACHE \<notin> set (map fst (l_layers w))" using tasks_invD(1) [OF t] by simp
    then have "map_of (l_layers w) L_CACHE = None" by (simp add: map_of_eq_None_iff)
    then show ?thesis by (simp add: ls_def layer_status_def)
  qed
  assume n: "Request_cancelled \<notin> {a, b, c}"
  have run: "fst (sapi_get_health a b c w) = Inr (if hs_status h = SAPI_UNHEALTHY then 503 else 200, h)"
    using g n w'(2) cache layers
    by (simp add: pre bind_def get_w_def of_sum_def get_hk_stock_list_cache_def Let_def ret_def h_def)
  have status: "hs_status h = SAPI_UNHEALTHY \<longleftrightarrow> COMPONENT_ERROR \<in> {hs_database h, hs_redis_stream h, hs_redis_state h}
      \<or> hs_hk_stock_list h = LIST_NOT_READY" "hs_status h \<noteq> SAPI_HEALTHY"
    using down by (auto simp: h_def overall_status_def Let_def)
  have parts: "hs_database h = probe_verdict a (next_fault (w_pg w))"
    "hs_redis_stream h = probe_verdict b (next_fault (w_rs w))" "hs_redis_state h = probe_verdict c (next_fault (w_rt w))"
    "hs_hk_stock_list h = LIST_OK \<longleftrightarrow> (\<exists>cache. n_cache w = Some cache \<and> hc_entries cache \<noteq> [])" "hs_layers h = ls"
    using cache by (simp_all add: h_def Let_def)
  have up: "ls_entity_analysis ls = layer_status (l_tasks w) (l_layers w) L_ENTITY_ANALYSIS"
    "ls_aggregation ls = layer_status (l_tasks w) (l_layers w) L_AGGREGATION"
    "ls_scoring ls = layer_status (l_tasks w) (l_layers w) L_SCORING" by (simp_all add: ls_def Let_def)
  show "\<exists>h. fst (sapi_get_health a b c w) = Inr (if hs_status h = SAPI_UNHEALTHY then 503 else 200, h)
     \<and> hs_database h = probe_verdict a (next_fault (w_pg w))
     \<and> hs_redis_stream h = probe_verdict b (next_fault (w_rs w))
     \<and> hs_redis_state h = probe_verdict c (next_fault (w_rt w))
     \<and> (hs_hk_stock_list h = LIST_OK \<longleftrightarrow> (\<exists>cache. n_cache w = Some cache \<and> hc_entries cache \<noteq> []))
     \<and> (ls_entity_analysis (hs_layers h) = COMPONENT_OK \<longleftrightarrow> (\<exists>k. running w k \<and> lt_layer (l_tasks w ! k) = L_ENTITY_ANALYSIS))
     \<and> (ls_aggregation (hs_layers h) = COMPONENT_OK \<longleftrightarrow> (\<exists>k. running w k \<and> lt_layer (l_tasks w ! k) = L_AGGREGATION))
     \<and> (ls_scoring (hs_layers h) = COMPONENT_OK \<longleftrightarrow> (\<exists>k. running w k \<and> lt_layer (l_tasks w ! k) = L_SCORING))
     \<and> ls_cache (hs_layers h) = COMPONENT_ERROR
     \<and> (hs_status h = SAPI_UNHEALTHY \<longleftrightarrow> COMPONENT_ERROR \<in> {hs_database h, hs_redis_stream h, hs_redis_state h}
          \<or> hs_hk_stock_list h = LIST_NOT_READY)
     \<and> hs_status h \<noteq> SAPI_HEALTHY"
    by (rule exI [of _ h], intro conjI run parts(1-4) status)
      (simp_all only: parts(5) up down layer_status_running [OF t])
qed

section \<open>The stock list's reload\<close>

text \<open>C36: A reload of the stock list answers with the number of stocks of the non-empty list it has
  installed, with its index; or, while the HTTP library and the parsers raise only their own errors, with
  the body of one of the service's two errors, 503 for an upstream that is not there and 500 for a list
  that is not one, leaving a list that was loaded alone.\<close>

theorem sync_answers:
  fixes w :: "'z net_world_scheme"
  assumes run: "respond (post_hk_stock_list_sync L P) w = (r, w')"
    and s: "\<forall>k v x. n_server w k v = Inl x \<longrightarrow> is_httpx x"
    and p: "\<forall>a b c x. parse_hk_stock_list P a b c = Inl x \<longrightarrow> is_exception x"
  shows "\<exists>answer. r = Inr answer \<and> (case answer of
      Inr resp \<Rightarrow> \<exists>entries. entries \<noteq> [] \<and> sync_entries_loaded resp = length entries
        \<and> n_cache w' = Some (make_cache L entries)
    | Inl (status, body) \<Rightarrow> \<exists>e. err_class e \<in> {ServiceUnavailableError, ParseError} \<and> body = to_error_response e
        \<and> status = (if err_class e = ServiceUnavailableError then 503 else 500)
        \<and> n_cache w' = (if n_cache w = None then Some (make_cache L []) else n_cache w))"
proof -
  obtain q v where f: "refresh_hk_stock_list L P w = (q, v)" by fastforce
  note spec = refresh_replaces_or_keeps [OF f]
  show ?thesis
  proof (cases q)
    case (Inr n)
    with run f have "r = Inr (Inr \<lparr> sync_status = u ''success'', sync_entries_loaded = n \<rparr>)" "w' = v"
      by (auto simp: respond_def post_hk_stock_list_sync_def bind_assoc try_except_def bind_def ret_def)
    with spec Inr show ?thesis by auto
  next
    case (Inl e)
    with f have "refresh_hk_stock_list L P w = (Inl e, v)" by simp
    from refresh_errors [OF this s p] obtain x where x: "e = Sapi x"
      "err_class x \<in> {ServiceUnavailableError, ParseError}" by blast
    with run f Inl have "r = Inr (Inl (sapi_error_handler x))" "w' = v"
      by (auto simp: respond_def post_hk_stock_list_sync_def bind_assoc try_except_def bind_def ret_def)
    moreover have "sapi_error_handler x = (if err_class x = ServiceUnavailableError then 503 else 500, to_error_response x)"
      using x(2) by (auto simp: sapi_error_handler_def mro_simps)
    ultimately show ?thesis using spec Inl x by auto
  qed
qed

section \<open>A sample service\<close>

definition sample_env :: environ where
  "sample_env = (\<lambda>_. Some (u ''1''))"

definition sample_life :: "(nat \<Rightarrow> pystr \<Rightarrow> exn + http_response) \<Rightarrow> exn fault list \<Rightarrow> life_world" where
  "sample_life server rt = net_world.extend ((sample_net server)\<lparr> w_rt := rt \<rparr>)
     (life_world.fields Starting None [] [] [] [] [] [] [] False [] False None [])"

lemma sample_life_sel:
  "w_pg (sample_life server rt) = []" "w_rs (sample_life server rt) = []" "w_rt (sample_life server rt) = rt"
  "n_client (sample_life server rt) = True" "n_server (sample_life server rt) = server"
  "n_cache (sample_life server rt) = None" "l_config (sample_life server rt) = None"
  "l_close_faults (sample_life server rt) = []"
  by (simp_all add: sample_life_def sample_net_def life_world.defs net_world.defs)

lemma sample_not_started: "not_started (sample_life server rt)"
  by (simp add: not_started_def no_tasks_def sample_life_def sample_net_def life_world.defs net_world.defs)

lemma sample_config: "\<exists>cfg. load_config sample_env None = (Inr cfg, Some cfg)"
proof -
  have one: "u ''1'' = [49]" by (simp add: u_def)
  have "py_int [49] = Some 1" by code_simp
  then have i: "env_int sample_env n d = Inr 1" for n d
    by (simp add: env_int_def env_get_def sample_env_def one)
  have "py_float [49] \<noteq> None"
    by (simp add: py_float_def split_sign_def py_strip_def is_digit_def py_isspace_def Let_def)
  then obtain x where "py_float [49] = Some x" by blast
  then have f: "env_float sample_env n d = Inr x" for n d
    by (simp add: env_float_def env_get_def sample_env_def one)
  have q: "require sample_env n = Inr (u ''1'')" for n by (simp add: require_def sample_env_def)
  show ?thesis
    by (simp add: load_config_def load_db_config_def load_redis_config_def load_llm_config_def
        load_entity_analysis_config_def load_aggregation_config_def load_scoring_config_def event_type_score_env_def
        i f q Let_def)
qed

lemma sample_list_loads:
  assumes "n_client w" and "n_server w = (\<lambda>_ _. Inr \<lparr> hr_status = 200, hr_content = [] \<rparr>)"
  shows "\<exists>w'. refresh_hk_stock_list plain_lib sample_parse_lib w = (Inr 1, w')"
  using assms
  by (simp add: refresh_hk_stock_list_def refresh_attempt_def get_http_client_def fetch_and_filter_hk_stock_list_def
      download_files_def get_ok_def CONNECT_RETRY_WAITS_S_def http_get_def raise_for_status_def parse_files_def
      sample_parsed load_cache_def io_defs)

lemma sample_opens:
  assumes "w_pg w = []" and "w_rs w = []" and "w_rt w = []"
  shows "\<exists>w'. open_clients (\<lambda>_. Inr ()) cfg w = (Inr (), w') \<and> n_client w' \<and> n_server w' = n_server w"
  using assms
  by (simp add: open_clients_def create_db_client_def create_stream_client_def create_state_client_def
      create_http_client_def create_llm_adapter_def opened_def push_async_callback_def register_client_def pg_call_def
      stream_ping_def state_ping_def rs_call_def rt_call_def io_defs)

lemma sample_starts:
  "\<exists>cfg w. lifespan_start plain_lib sample_parse_lib (\<lambda>_. Inr ()) sample_env
     (sample_life (\<lambda>_ _. Inr \<lparr> hr_status = 200, hr_content = [] \<rparr>) []) = (Inr cfg, w)"
proof -
  let ?w0 = "sample_life (\<lambda>_ _. Inr \<lparr> hr_status = 200, hr_content = [] \<rparr>) []"
  obtain cfg where cfg: "load_config sample_env None = (Inr cfg, Some cfg)" using sample_config by blast
  let ?w1 = "?w0\<lparr> l_config := Some cfg \<rparr>"
  have 1: "load_config_io sample_env ?w0 = (Inr cfg, ?w1)" by (simp add: load_config_io_def sample_life_sel cfg)
  from sample_opens [of ?w1 cfg] obtain w2 where 2: "open_clients (\<lambda>_. Inr ()) cfg ?w1 = (Inr (), w2)"
    "n_client w2" "n_server w2 = (\<lambda>_ _. Inr \<lparr> hr_status = 200, hr_content = [] \<rparr>)" by (auto simp: sample_life_sel)
  from sample_list_loads [OF 2(2,3)] obtain w3 where "refresh_hk_stock_list plain_lib sample_parse_lib w2 = (Inr 1, w3)" by blast
  then have 3: "load_stock_list plain_lib sample_parse_lib w2 = (Inr (), w3)"
    by (simp add: load_stock_list_def try_except_def bind_def ret_def)
  have "\<exists>w4. seq (opened AGGREGATION_GROUPS) (seq (push_async_callback (Close AGGREGATION_GROUPS)) (seq start_layers
       (seq (push_async_callback Cancel_layer_tasks) (ret cfg)))) w3 = (Inr cfg, w4)"
  proof -
    let ?v = "w3\<lparr> l_opened := l_opened w3 @ [AGGREGATION_GROUPS], l_stack := Close AGGREGATION_GROUPS # l_stack w3 \<rparr>"
    have "\<exists>v. start_layers ?v = (Inr (), v)"
      by (simp add: start_layers_def make_monitored_def create_task_def set_layer_task_def register_layer_tasks_def io_defs)
    then obtain v where v: "start_layers ?v = (Inr (), v)" by blast
    show ?thesis by (simp add: opened_def push_async_callback_def bind_def [of start_layers] v)
  qed
  then obtain w4 where 4: "seq (opened AGGREGATION_GROUPS) (seq (push_async_callback (Close AGGREGATION_GROUPS)) (seq start_layers
       (seq (push_async_callback Cancel_layer_tasks) (ret cfg)))) w3 = (Inr cfg, w4)" by blast
  have "startup plain_lib sample_parse_lib (\<lambda>_. Inr ()) sample_env ?w0 = (Inr cfg, w4)"
    unfolding startup_def using 4 by (simp add: bind_def [of "load_config_io sample_env"] bind_def [of "open_clients (\<lambda>_. Inr ()) cfg"]
        bind_def [of "load_stock_list plain_lib sample_parse_lib"] 1 2(1) 3)
  then show ?thesis by (simp add: lifespan_start_def try_except_def bind_def modify_def ret_def)
qed

text \<open>A service that serves: every layer's Task runs.\<close>

lemma sample_reached:
  "\<exists>cfg w k. reached plain_lib sample_parse_lib (\<lambda>_. Inr ()) sample_env cfg (w :: life_world) \<and> l_phase w = Serving
     \<and> \<not> l_shutting_down w \<and> map_of (l_layers w) L_ENTITY_ANALYSIS = Some k \<and> running w k"
proof -
  obtain cfg w where w: "lifespan_start plain_lib sample_parse_lib (\<lambda>_. Inr ()) sample_env
     (sample_life (\<lambda>_ _. Inr \<lparr> hr_status = 200, hr_content = [] \<rparr>) []) = (Inr cfg, w)" using sample_starts by blast
  then have r: "reached plain_lib sample_parse_lib (\<lambda>_. Inr ()) sample_env cfg w"
    unfolding reached_def using sample_not_started by blast
  note st = lifespan_started [OF w sample_not_started]
  then have "life_ok w" by blast
  then have t: "tasks_ok w" by (simp add: life_ok_def)
  have "L_ENTITY_ANALYSIS \<in> set (map fst (l_layers w))" using tasks_invD(1) [OF t] by simp
  then obtain k where k: "map_of (l_layers w) L_ENTITY_ANALYSIS = Some k"
    by (metis list.set_map map_of_eq_None_iff not_None_eq)
  then have "running w k" using tasks_invD(2) [OF t k] st by simp
  with r st k show ?thesis by blast
qed

lemma layers_stop_before_clients_close_witness:
  "\<exists>cfg w k. reached plain_lib sample_parse_lib (\<lambda>_. Inr ()) sample_env cfg (w :: life_world)
     \<and> l_phase w = Gathering \<and> running w k \<and> lt_cancelling (l_tasks w ! k)"
proof -
  obtain cfg w k where r: "reached plain_lib sample_parse_lib (\<lambda>_. Inr ()) sample_env cfg (w :: life_world)"
    and w: "l_phase w = Serving" "\<not> l_shutting_down w" "running w k" using sample_reached by blast
  let ?v = "w\<lparr> l_phase := Leaving, l_error := None \<rparr>"
  have "life_step plain_lib sample_parse_lib cfg w ?v"
    by (rule shutdown [where exc = None]) (simp_all add: w leave_def)
  from reached_step [OF r this] have v: "reached plain_lib sample_parse_lib (\<lambda>_. Inr ()) sample_env cfg ?v" .
  then have ok: "life_ok ?v" by (rule reached_ok)
  obtain q u where e: "exit_step ?v = (q, u)" by fastforce
  have "q = Inr ()" using exit_step_ok [OF ok _ e] by simp
  with e have step: "life_step plain_lib sample_parse_lib cfg ?v u" by (intro exits) simp_all
  from reached_step [OF v step] have u: "reached plain_lib sample_parse_lib (\<lambda>_. Inr ()) sample_env cfg u" .
  have run: "running u k" using alwaysD [OF exit_ends_kept e] w(3) by (simp add: ends_kept_def)
  have "l_phase u = Gathering"
  proof -
    have "l_stack ?v = Cancel_layer_tasks # map Close (rev all_resources)" using ok w(2) by (simp add: life_ok_def stack_ok_def)
    moreover obtain p x where c: "cancel_layer_tasks (?v\<lparr> l_stack := map Close (rev all_resources) \<rparr>) = (p, x)" by fastforce
    moreover have "tasks_ok (?v\<lparr> l_stack := map Close (rev all_resources) \<rparr>)" using ok by (simp add: life_ok_def)
    from cancel_layer_tasks_ok [OF this c] have "p = Inr () \<and> l_phase x = Gathering" by blast
    ultimately show ?thesis using e by (auto simp: exit_step_def try_except_def)
  qed
  with u run layers_stop_before_clients_close [OF u rtranclp.rtrancl_refl] show ?thesis by blast
qed

lemma crashed_layer_comes_back_witness:
  "\<exists>cfg w w' k k'. reached plain_lib sample_parse_lib (\<lambda>_. Inr ()) sample_env cfg (w :: life_world)
     \<and> map_of (l_layers w) L_ENTITY_ANALYSIS = Some k \<and> lt_end (l_tasks w ! k) = Some (Failed (Py ValueError))
     \<and> (life_step plain_lib sample_parse_lib cfg)\<^sup>*\<^sup>* w w' \<and> map_of (l_layers w') L_ENTITY_ANALYSIS = Some k' \<and> running w' k'"
proof -
  obtain cfg w k where r: "reached plain_lib sample_parse_lib (\<lambda>_. Inr ()) sample_env cfg (w :: life_world)"
    and w: "\<not> l_shutting_down w" "map_of (l_layers w) L_ENTITY_ANALYSIS = Some k" "running w k" using sample_reached by blast
  let ?v = "end_task k (Failed (Py ValueError)) w"
  from reached_step [OF r task_ends [OF w(3)]] have v: "reached plain_lib sample_parse_lib (\<lambda>_. Inr ()) sample_env cfg ?v" .
  have f: "\<not> l_shutting_down ?v" "map_of (l_layers ?v) L_ENTITY_ANALYSIS = Some k"
    "lt_end (l_tasks ?v ! k) = Some (Failed (Py ValueError))" using w by (simp_all add: end_task_def)
  have "\<exists>w' k'. (life_step plain_lib sample_parse_lib cfg)\<^sup>*\<^sup>* ?v w' \<and> map_of (l_layers w') L_ENTITY_ANALYSIS = Some k'
      \<and> running w' k'"
    by (rule conjunct1 [OF conjunct2 [OF crashed_layer_comes_back [OF v f(1)]], THEN spec, of L_ENTITY_ANALYSIS, THEN spec,
        of k, THEN spec, of "Py ValueError", THEN mp, THEN conjunct2]) (intro conjI f(2,3), simp)
  then obtain w' k' where "(life_step plain_lib sample_parse_lib cfg)\<^sup>*\<^sup>* ?v w'"
    "map_of (l_layers w') L_ENTITY_ANALYSIS = Some k' \<and> running w' k'" by blast
  with v f(2,3) show ?thesis by (intro exI conjI) (assumption | (elim conjE, assumption))+
qed

lemma failed_startup_closes_witness:
  "\<exists>e w'. lifespan_start plain_lib sample_parse_lib (\<lambda>_. Inr ()) sample_env
       (sample_life (\<lambda>_ _. Inl HttpxError) [Before (Redis RedisConnectionError)]) = (Inl e, w')
     \<and> l_closed w' = rev (l_opened w') \<and> l_tasks w' = []"
proof -
  let ?w0 = "sample_life (\<lambda>_ _. Inl HttpxError) [Before (Redis RedisConnectionError)]"
  obtain cfg where cfg: "load_config sample_env None = (Inr cfg, Some cfg)" using sample_config by blast
  let ?w1 = "?w0\<lparr> l_config := Some cfg \<rparr>"
  have 1: "load_config_io sample_env ?w0 = (Inr cfg, ?w1)" by (simp add: load_config_io_def sample_life_sel cfg)
  have "\<exists>e v. open_clients (\<lambda>_. Inr ()) cfg ?w1 = (Inl e, v)"
    by (simp add: open_clients_def create_db_client_def create_stream_client_def create_state_client_def
        opened_def push_async_callback_def register_client_def pg_call_def
        stream_ping_def state_ping_def rs_call_def rt_call_def close_call_def io_defs sample_life_sel)
  then obtain e v where 2: "open_clients (\<lambda>_. Inr ()) cfg ?w1 = (Inl e, v)" by blast
  have s: "startup plain_lib sample_parse_lib (\<lambda>_. Inr ()) sample_env ?w0 = (Inl e, v)"
    by (simp add: startup_def bind_def [of "load_config_io sample_env"] bind_def [of "open_clients (\<lambda>_. Inr ()) cfg"] 1 2)
  obtain q w' where l: "lifespan_start plain_lib sample_parse_lib (\<lambda>_. Inr ()) sample_env ?w0 = (q, w')" by fastforce
  have "\<exists>x. q = Inl x"
    using l s by (cases q) (auto simp: lifespan_start_def try_eq_Inr bind_eq_Inr bind_eq_Inl leave_def)
  then obtain x where "q = Inl x" ..
  with failed_startup_closes [OF l [unfolded \<open>q = Inl x\<close>] sample_not_started] l show ?thesis by blast
qed

lemma health_answers_witness:
  "\<exists>cfg w h. reached plain_lib sample_parse_lib (\<lambda>_. Inr ()) sample_env cfg (w :: life_world)
     \<and> fst (sapi_get_health In_time In_time In_time w) = Inr (if hs_status h = SAPI_UNHEALTHY then 503 else 200, h)
     \<and> ls_entity_analysis (hs_layers h) = COMPONENT_OK \<and> ls_cache (hs_layers h) = COMPONENT_ERROR"
proof -
  obtain cfg w k where r: "reached plain_lib sample_parse_lib (\<lambda>_. Inr ()) sample_env cfg (w :: life_world)"
    and k: "map_of (l_layers w) L_ENTITY_ANALYSIS = Some k" "running w k" using sample_reached by blast
  have "tasks_ok w" using reached_ok [OF r] by (simp add: life_ok_def)
  then have "lt_layer (l_tasks w ! k) = L_ENTITY_ANALYSIS" using tasks_invD(3) k(1) by blast
  note running = this
  obtain h where h: "fst (sapi_get_health In_time In_time In_time w) = Inr (if hs_status h = SAPI_UNHEALTHY then 503 else 200, h)"
    "ls_entity_analysis (hs_layers h) = COMPONENT_OK \<longleftrightarrow> (\<exists>k. running w k \<and> lt_layer (l_tasks w ! k) = L_ENTITY_ANALYSIS)"
    "ls_cache (hs_layers h) = COMPONENT_ERROR"
  proof -
    have "Request_cancelled \<notin> {In_time, In_time, In_time}" by simp
    from mp [OF conjunct1 [OF conjunct2 [OF health_answers [OF r]]] this] show thesis
      by (elim exE conjE) (rule that; assumption)
  qed
  have "ls_entity_analysis (hs_layers h) = COMPONENT_OK" unfolding h(2) using running k(2) by blast
  with r h(1,3) show ?thesis by blast
qed

lemma sync_answers_witness:
  "\<exists>status body w'. respond (post_hk_stock_list_sync plain_lib sample_parse_lib) (sample_net (\<lambda>_ _. Inl HttpxError))
     = (Inr (Inl (status, body)), w') \<and> n_cache w' = Some (make_cache plain_lib [])"
proof -
  let ?w = "sample_net (\<lambda>_ _. Inl HttpxError)"
  obtain r w' where run: "respond (post_hk_stock_list_sync plain_lib sample_parse_lib) ?w = (r, w')" by fastforce
  have n: "n_cache ?w = None" by (simp add: sample_net_def)
  have "\<exists>e v. refresh_hk_stock_list plain_lib sample_parse_lib ?w = (Inl e, v)"
    by (simp add: refresh_hk_stock_list_def refresh_attempt_def get_http_client_def fetch_and_filter_hk_stock_list_def
        download_files_def get_ok_def CONNECT_RETRY_WAITS_S_def http_get_def io_defs sample_net_def)
  then obtain e v where "refresh_hk_stock_list plain_lib sample_parse_lib ?w = (Inl e, v)" by blast
  then have "r \<noteq> Inr (Inr x)" for x
    using run by (auto simp: respond_def post_hk_stock_list_sync_def bind_assoc try_except_def bind_def ret_def raise_def split: if_splits)
  moreover obtain answer where a: "r = Inr answer" and c: "case answer of
      Inr resp \<Rightarrow> \<exists>entries. entries \<noteq> [] \<and> sync_entries_loaded resp = length entries
        \<and> n_cache w' = Some (make_cache plain_lib entries)
    | Inl (status, body) \<Rightarrow> \<exists>e. err_class e \<in> {ServiceUnavailableError, ParseError} \<and> body = to_error_response e
        \<and> status = (if err_class e = ServiceUnavailableError then 503 else 500)
        \<and> n_cache w' = (if n_cache ?w = None then Some (make_cache plain_lib []) else n_cache ?w)"
    using sync_answers [OF run] by (auto simp: sample_net_def sample_parsed)
  ultimately show ?thesis using run n by (cases answer) (auto split: prod.splits)
qed

end
