(* ===== verification/Spec2Isabelle.thy ===== *)
theory Spec2Isabelle
  imports Sapi_Aggregation_Props Sapi_Storage_Props Sapi_Scoring_Props Sapi_Stock_Names_Props Sapi_Stock_List_Props
    Sapi_Entity_Analysis_Props Sadi_Crawl_Props Sadi_Clean_Props Sadi_Pool_Props Sadi_Service_Props
    Sapi_Life_Props
begin

text \<open>
  \<^bold>\<open>The program.\<close> Two Python services turn news about Hong Kong stocks into scored Events. Data ingestion (SADI,
  \<^verbatim>\<open>stock-assistant-data-ingestion\<close>) crawls four sources, stores the raw articles, cleans them and announces the
  cleaned ones. Pipeline intelligence (SAPI, \<^verbatim>\<open>stock-assistant-pipeline-intelligence\<close>) fetches an announced article,
  has a language model name the companies and what happened to them (entity analysis), merges the EntityEvents of
  one stock and one kind of event into Events (aggregation), and scores the Events. The services and their layers
  talk through streams of one Redis: \<^verbatim>\<open>stream:raw_news_inserted\<close> and \<^verbatim>\<open>stream:crawl_completed\<close> within and out of
  SADI, \<^verbatim>\<open>stream:raw_news_cleaned\<close> from SADI to entity analysis, \<^verbatim>\<open>stream:entity_event_completed\<close> to aggregation,
  \<^verbatim>\<open>stream:event_aggregated\<close> to scoring, \<^verbatim>\<open>stream:event_scored\<close> out of it. Each service has a Postgres database;
  SAPI keeps its active Events in a second Redis. Paths below are under \<^verbatim>\<open>app/\<close> of the service.

  \<^bold>\<open>How code becomes definitions.\<close> A computation is a function from a world to an exception or a value, with the
  world it leaves (\<open>io\<close>, in \<open>Py_Io\<close>): what was done before an exception stays done. \<open>bind\<close>, \<open>try_except\<close>,
  \<open>for_each\<close> and their like are the statements of the source. A world is a record: clock, fresh identifiers, the
  tables, the Redis servers, and for each outside resource a script of faults. A fault of a call comes before its
  effect or after it (\<open>Before\<close>, \<open>After\<close>: the reply is lost), and every theorem is about all scripts unless it
  says otherwise. Text is a list of code points; integers of the source are \<open>int\<close> or, where they count, \<open>nat\<close>; a
  float is a rational number rounded after each operation (\<open>Py_Float\<close>); an instant is a number of microseconds.
  An \<^verbatim>\<open>await\<close> ends a step where another task of the same process can interfere with what follows; how the steps
  of loops, workers and tasks interleave is a relation (\<open>agg_step\<close>, \<open>news_step\<close>, \<open>service_step\<close>,
  \<open>life_step\<close>), and the invariants are about all its reachable states.

  \<^bold>\<open>The theories.\<close>
  \<^item> \<open>Py_Prelude\<close>, \<open>Py_Float\<close>, \<open>Py_Io\<close>, \<open>Py_Time\<close>, \<open>Py_Regex\<close>: text, floats, effects with their frame and Hoare
    rules (\<open>always\<close>, \<open>valid\<close>, locale \<open>monotone_io\<close>), dates, UUIDs and JSON lists of ids, regular expressions.
  \<^item> \<open>Sapi_Errors\<close>, \<open>Sapi_Models\<close>, \<open>Sapi_Config\<close>, \<open>Sapi_World\<close>: \<^verbatim>\<open>common/errors.py\<close>, \<^verbatim>\<open>models/\<close>, \<^verbatim>\<open>config.py\<close>; the
    tables, streams and hashes.
  \<^item> \<open>Sapi_Db\<close>, \<open>Sapi_Stream\<close>, \<open>Sapi_Event_Store\<close>, \<open>Sapi_Repos\<close>: the database client, the stream client, the store
    of active Events with its expiry, the repositories with every SQL statement as its effect on the tables.
    \<open>Sapi_Repos_Props\<close> and \<open>Sapi_Storage_Props\<close>: constraints, atomicity, bounded retries, round trips.
  \<^item> \<open>Sapi_Window\<close>, \<open>Sapi_Aggregation\<close>, \<open>Sapi_Outbox\<close>, \<open>Sapi_Aggregation_Consumer\<close>, \<open>Sapi_Merge\<close>: \<^verbatim>\<open>aggregation/\<close>.
    \<open>Sapi_Aggregation_Inv\<close>, \<open>_Steps\<close>, \<open>_Data\<close>, \<open>_Props\<close>: the system of consumer, reclaimer, groups and flush as a
    step relation, its invariants on permits, in-flight set, tables and announcements, and the acknowledgements. What
    an acknowledged merge leaves is said of the store itself (\<open>holds_event\<close>), and what a flush persists of the live
    Events in the store, from \<open>scan_all_returns\<close> of \<open>Sapi_Event_Store\<close>.
  \<^item> \<open>Sapi_Scoring\<close>, \<open>Sapi_Scoring_Steps\<close>, \<open>Sapi_Scoring_Props\<close>: \<^verbatim>\<open>scoring/\<close>. \<open>score_event\<close> is cut at the
    awaits at which other tasks can write the tables - the Event is read, its reports are read and the score is
    computed, the score is written - and \<open>score_step\<close> lets any growth of the tables happen in between; shown are the
    ranges of the float formulas and that no stale score is written, whatever happened on the way.
  \<^item> \<open>Sapi_Stock_Names\<close>, \<open>Sapi_Stock_List\<close> with their \<open>_Props\<close>: \<^verbatim>\<open>common/hk_stock_list.py\<close>, the name index and search,
    loading and refreshing the list.
  \<^item> \<open>Sapi_Entity_Prompt\<close>, \<open>Sapi_Entity_Skill\<close>, \<open>Sapi_Entity_Skill_Props\<close>: \<^verbatim>\<open>skills/\<close> and \<^verbatim>\<open>llm/\<close>.
    \<open>Sapi_Entity_Analysis\<close>, \<open>_Steps\<close>, \<open>_Props\<close>: \<^verbatim>\<open>entity_analysis/\<close>, \<^verbatim>\<open>clients/\<close>: the worker pool and its consumer as a
    step relation, slots, backoff and acknowledgements. \<open>analyse\<close> is one analysis that nothing interrupts; in the
    step relation its reading and its writing part (\<open>task_read\<close>, \<open>task_write\<close>) are steps of their own.
  \<^item> \<open>Sapi_Lifecycle\<close>, \<open>Sapi_Api\<close>, \<open>Sapi_Life_Steps\<close>, \<open>Sapi_Life_Props\<close>: \<^verbatim>\<open>main.py\<close>, \<^verbatim>\<open>layer_tasks.py\<close>, \<^verbatim>\<open>api/\<close>, and the
    functions that open and close the clients. The layers' Tasks, their callbacks and timers, the exit stack and the
    requests are the step relation \<open>life_step\<close>; shown are the order of shutdown, the restarts, what a failed startup
    leaves, and the answers of the health check and of the list's reload.
  \<^item> \<open>Sadi_Errors\<close>, \<open>Sadi_Config\<close>, \<open>Sadi_World\<close>, \<open>Sadi_Text\<close>: SADI's errors, settings, tables, clients, normalisation.
  \<^item> \<open>Sadi_Fetch\<close>, \<open>Sadi_Crawlers\<close>, \<open>Sadi_Hkex\<close>, \<open>Sadi_Crawl_Service\<close>: \<^verbatim>\<open>crawl/\<close>; the article pool takes the
    scheduler's choices from a list, so a theorem for every list is one for every interleaving.
  \<^item> \<open>Sadi_Cleaning\<close>, \<open>Sadi_Api\<close>: \<^verbatim>\<open>cleaner/\<close>, \<^verbatim>\<open>api/\<close>, \<^verbatim>\<open>main.py\<close>. A worker's turn is two steps, the check of the record
    and the storing, between which the others may run; \<open>clean_steps\<close> shows that both in a row are the code's
    handler.
  \<^item> \<open>Sadi_Triples\<close>, \<open>Sadi_Cleaning_Inv\<close>, \<open>Sadi_Crawl_Inv\<close>: what SADI's operations establish and keep, over
    conditions on tables and streams. \<open>Sadi_Pool_Props\<close>, \<open>Sadi_Crawl_Props\<close>, \<open>Sadi_Clean_Props\<close>: termination of the
    pools, bounded requests, the final signal, what an acknowledgement means, and the runs in which an
    announcement is lost. \<open>Sadi_Service\<close>, \<open>Sadi_Service_Props\<close>: the running service as a step relation, its
    invariant, and that nothing stored is ever lost.
  \<^item> \<open>Sapi_Sample\<close>, \<open>Sapi_Sample_Run\<close>, \<open>Sadi_Sample\<close>: the concrete systems and fault-free runs of the witnesses.

  \<^bold>\<open>Interfaces.\<close> \<open>monotone_io\<close> and its extensions (\<open>sadi_calls\<close>, \<open>crawl_reading\<close>, \<open>service_frame\<close>) state once what a
  preorder on worlds must bear for the operations to keep it, and are interpreted for each frame the proofs use;
  \<open>crawl_stable\<close> and \<open>stable\<close> do the same for conditions on SADI's tables and streams, \<open>plain_codec\<close> for the texts
  of identifiers and numbers in Redis. Each is interpreted on the definitions of the component it is about.

  \<^bold>\<open>Bounds and termination.\<close> Nothing runs on fuel. Retry loops end by their counters, \<open>publish\<close> by the finite script
  of outages, the article pool by the weight of the tasks that are left, the regular expressions by the remaining
  text; the consumers' endless loops are not functions but steps. A computation that would wait forever (no
  permit, an empty pool) gives the exception \<open>Suspended\<close>, so that returning is something to prove.

  \<^bold>\<open>Parameters.\<close> What is not under \<^verbatim>\<open>src/\<close> is an argument: the replies of the language model and of web servers, the
  browser's page, HTML, PDF and feed parsers, \<^verbatim>\<open>trafilatura\<close>, Unicode normalisation and case folding outside ASCII,
  the Chinese converter, SHA-256, the YAML, spreadsheet and JSON readers, the order of a Redis scan. What Redis documents of SCAN - a key
  that is there throughout the iteration is returned - is the hypothesis \<open>scan_complete\<close> of the flush's theorem.

  \<^bold>\<open>Not modelled.\<close> The scripts of \<^verbatim>\<open>poc/\<close> (experiments that the services do not import), tests, migrations (their
  constraints are in the statements), the logger and every log text, opening and closing of connections beyond
  their order, the browser manager (only calls into Playwright), the framework's routing and validation, timing
  measurements. One crawl execution is one step of \<open>service_step\<close>. Cancellation is an exception that the handlers
  see, and a step that stops the loops.
\<close>

end
